(* ===== verification/Orc_Prelude.thy ===== *)
theory Orc_Prelude
  imports Main
begin

text \<open>
  Shared vocabulary of the development: JavaScript truthiness, timestamps, the error
  values of \<^verbatim>\<open>lib/domainErrors.ts\<close>, JSON payload values, list idioms of the source
  (mutating the object that \<^verbatim>\<open>Array.find\<close> returns, deduplication through a
  \<^verbatim>\<open>Set\<close>), decimal printing for message templates, and the identifier patterns of
  \<^verbatim>\<open>lib/constants.ts\<close>. The \<open>orc_simps\<close> collection holds the definitions that are always
  unfolded, \<open>orc_splits\<close> the case splits of result values.
\<close>

named_theorems orc_simps
named_theorems orc_eval

section \<open>Truthiness and nullable values\<close>

text \<open>
  \<^verbatim>\<open>null\<close> and \<^verbatim>\<open>undefined\<close> are both \<open>None\<close>: the modelled code separates them nowhere
  except in argument defaults, where the model takes the argument after defaulting. A
  string is falsy when it is empty.
\<close>

type_synonym 'a nullable = "'a option"

fun truthy :: "string option \<Rightarrow> bool" where
  "truthy None = False"
| "truthy (Some s) = (s \<noteq> [])"

abbreviation falsy :: "string option \<Rightarrow> bool" where
  "falsy x \<equiv> \<not> truthy x"

fun coalesce :: "'a option \<Rightarrow> 'a option \<Rightarrow> 'a option" where
  "coalesce (Some x) y = Some x"
| "coalesce None y = y"

fun or_default :: "'a option \<Rightarrow> 'a \<Rightarrow> 'a" where
  "or_default (Some x) d = x"
| "or_default None d = d"

lemma coalesce_None_iff [simp]: "coalesce x y = None \<longleftrightarrow> x = None \<and> y = None"
  by (cases x) auto

lemma truthy_iff: "truthy x \<longleftrightarrow> (\<exists>s. x = Some s \<and> s \<noteq> [])"
  by (cases x) auto

section \<open>Timestamps\<close>

text \<open>
  A date-time string. \<open>Ts ms\<close> is a string that \<^verbatim>\<open>new Date(s)\<close> parses to \<open>ms\<close> milliseconds
  since the epoch, in the canonical form that \<^verbatim>\<open>toISOString\<close> prints, so that comparing two
  such strings as text and comparing their times agree. \<open>BadTs s\<close> is a string whose
  \<^verbatim>\<open>getTime()\<close> is NaN. Milliseconds are unbounded integers: the range limit of
  \<^verbatim>\<open>Date\<close> (about 270,000 years) is outside the model.
\<close>

datatype timestamp = Ts int | BadTs string

fun getTime :: "timestamp \<Rightarrow> int option" where
  "getTime (Ts ms) = Some ms"
| "getTime (BadTs s) = None"

definition ts_finite :: "timestamp \<Rightarrow> bool" where
  [orc_simps]: "ts_finite t \<longleftrightarrow> getTime t \<noteq> None"

fun ts_truthy :: "timestamp option \<Rightarrow> bool" where
  "ts_truthy None = False"
| "ts_truthy (Some (Ts ms)) = True"
| "ts_truthy (Some (BadTs s)) = (s \<noteq> [])"

text \<open>Relational operators on dates: every comparison with NaN is false.\<close>

fun date_lt :: "timestamp \<Rightarrow> timestamp \<Rightarrow> bool" where
  "date_lt (Ts a) (Ts b) = (a < b)"
| "date_lt _ _ = False"

fun date_gt :: "timestamp \<Rightarrow> timestamp \<Rightarrow> bool" where
  "date_gt (Ts a) (Ts b) = (a > b)"
| "date_gt _ _ = False"

text \<open>Text comparison of two timestamp columns in SQL, on canonical strings.\<close>

fun ts_le :: "timestamp \<Rightarrow> timestamp \<Rightarrow> bool" where
  "ts_le (Ts a) (Ts b) = (a \<le> b)"
| "ts_le (Ts a) (BadTs s) = True"
| "ts_le (BadTs s) (Ts b) = False"
| "ts_le (BadTs s) (BadTs t) = True"

section \<open>Errors\<close>

text \<open>
  The error classes of \<^verbatim>\<open>lib/domainErrors.ts\<close>, the plain \<^verbatim>\<open>Error\<close>, the control protocol's
  error with its code, and a failed SQLite statement (constraint or trigger). Each
  carries its message.
\<close>

datatype orc_error =
    NotFoundError string
  | ConflictError string
  | InputError string
  | ForbiddenError string
  | UnauthenticatedError string
  | PlainError string
  | ControlError string string
  | SqliteError string
  | InjectionScanError "string list"

type_synonym 'a result = "orc_error + 'a"

text \<open>Sequencing of results: the first error wins, as a thrown exception does.\<close>

fun rbind :: "'e + 'a \<Rightarrow> ('a \<Rightarrow> 'e + 'b) \<Rightarrow> 'e + 'b" where
  "rbind (Inl e) f = Inl e"
| "rbind (Inr x) f = f x"

lemma rbind_Inr_iff: "rbind r f = Inr y \<longleftrightarrow> (\<exists>x. r = Inr x \<and> f x = Inr y)"
  by (cases r) auto

lemma rbind_Inl_iff: "rbind r f = Inl e \<longleftrightarrow> r = Inl e \<or> (\<exists>x. r = Inr x \<and> f x = Inl e)"
  by (cases r) auto

text \<open>A loop whose body may fail: the first error stops it.\<close>

fun rfold :: "('a \<Rightarrow> 's \<Rightarrow> 'e + 's) \<Rightarrow> 'a list \<Rightarrow> 's \<Rightarrow> 'e + 's" where
  "rfold f [] s = Inr s"
| "rfold f (x # xs) s = rbind (f x s) (rfold f xs)"

lemma rfold_invariant:
  assumes "rfold f xs s = Inr s'" and "I s"
    and "\<And>x s s'. x \<in> set xs \<Longrightarrow> f x s = Inr s' \<Longrightarrow> I s \<Longrightarrow> I s'"
  shows "I s'"
  using assms
proof (induction xs arbitrary: s)
  case Nil
  then show ?case by simp
next
  case (Cons x xs)
  then obtain u where u: "f x s = Inr u" "rfold f xs u = Inr s'"
    by (auto simp: rbind_Inr_iff)
  with Cons.prems have "I u" by auto
  with u(2) show ?case
    by (rule Cons.IH) (use Cons.prems(3) in auto)
qed

lemma rfold_append: "rfold f (xs @ ys) s = rbind (rfold f xs s) (rfold f ys)"
proof (induction xs arbitrary: s)
  case (Cons x xs)
  then show ?case by (cases "f x s") auto
qed simp

lemmas orc_splits = sum.splits option.splits prod.splits if_splits

section \<open>JSON payload values\<close>

text \<open>\<open>JTime t\<close> is a string value that holds a timestamp; \<open>JStr s\<close> any other string.\<close>

datatype json =
    JNull
  | JBool bool
  | JNum int
  | JStr string
  | JTime timestamp
  | JArr "json list"
  | JObj "(string \<times> json) list"

type_synonym payload = "(string \<times> json) list"

fun jstr_opt :: "string option \<Rightarrow> json" where
  "jstr_opt None = JNull"
| "jstr_opt (Some s) = JStr s"

section \<open>List idioms\<close>

text \<open>Mutate the object that \<^verbatim>\<open>xs.find(p)\<close> returns.\<close>

fun update_first :: "('a \<Rightarrow> bool) \<Rightarrow> ('a \<Rightarrow> 'a) \<Rightarrow> 'a list \<Rightarrow> 'a list" where
  "update_first P f [] = []"
| "update_first P f (x # xs) = (if P x then f x # xs else x # update_first P f xs)"

text \<open>An SQL \<^verbatim>\<open>UPDATE ... WHERE\<close>: every matching row changes.\<close>

definition update_where :: "('a \<Rightarrow> bool) \<Rightarrow> ('a \<Rightarrow> 'a) \<Rightarrow> 'a list \<Rightarrow> 'a list" where
  "update_where P f = map (\<lambda>x. if P x then f x else x)"

text \<open>\<^verbatim>\<open>[...new Set(xs)]\<close> keeps the first occurrence of each element.\<close>

definition js_set :: "'a list \<Rightarrow> 'a list" where
  "js_set xs = rev (remdups (rev xs))"

lemma set_js_set [simp]: "set (js_set xs) = set xs"
  by (simp add: js_set_def)

lemma distinct_js_set [simp]: "distinct (js_set xs)"
  by (simp add: js_set_def)

lemma update_where_Nil [simp]: "update_where P f [] = []"
  by (simp add: update_where_def)

lemma update_where_Cons [simp]:
  "update_where P f (x # xs) = (if P x then f x else x) # update_where P f xs"
  by (simp add: update_where_def)

lemma update_where_append [simp]: "update_where P f (xs @ ys) = update_where P f xs @ update_where P f ys"
  by (simp add: update_where_def)

lemma length_update_where [simp]: "length (update_where P f xs) = length xs"
  by (simp add: update_where_def)

lemma length_update_first [simp]: "length (update_first P f xs) = length xs"
  by (induction xs) auto

lemma set_update_where: "set (update_where P f xs) = (\<lambda>x. if P x then f x else x) ` set xs"
  by (simp add: update_where_def)

lemma ball_update_where:
  "(\<forall>x \<in> set (update_where P f xs). Q x) \<longleftrightarrow> (\<forall>x \<in> set xs. (P x \<longrightarrow> Q (f x)) \<and> (\<not> P x \<longrightarrow> Q x))"
  by (induction xs) auto

lemma map_update_first_same:
  assumes "\<And>x. P x \<Longrightarrow> g (f x) = g x"
  shows "map g (update_first P f xs) = map g xs"
  using assms by (induction xs) auto

lemma map_update_where_same:
  assumes "\<And>x. P x \<Longrightarrow> g (f x) = g x"
  shows "map g (update_where P f xs) = map g xs"
  using assms by (induction xs) auto

lemma in_set_update_firstD:
  "y \<in> set (update_first P f xs) \<Longrightarrow> y \<in> set xs \<or> (\<exists>x \<in> set xs. P x \<and> y = f x)"
  by (induction xs) (auto split: if_splits)

lemma in_set_update_whereD:
  "y \<in> set (update_where P f xs) \<Longrightarrow> (y \<in> set xs \<and> \<not> P y) \<or> (\<exists>x \<in> set xs. P x \<and> y = f x)"
  by (auto simp: set_update_where split: if_splits)

lemma update_first_id: "(\<And>x. x \<in> set xs \<Longrightarrow> \<not> P x) \<Longrightarrow> update_first P f xs = xs"
  by (induction xs) auto

lemma update_where_id: "(\<And>x. x \<in> set xs \<Longrightarrow> \<not> P x) \<Longrightarrow> update_where P f xs = xs"
  by (induction xs) auto

text \<open>With distinct keys, mutating the first match and updating every match agree.\<close>

lemma update_first_eq_update_where:
  "distinct (map k xs) \<Longrightarrow> update_first (\<lambda>x. k x = i) f xs = update_where (\<lambda>x. k x = i) f xs"
proof (induction xs)
  case (Cons x xs)
  show ?case
  proof (cases "k x = i")
    case True
    with Cons.prems have "\<And>y. y \<in> set xs \<Longrightarrow> k y \<noteq> i" by (auto simp: image_iff)
    then have "update_where (\<lambda>x. k x = i) f xs = xs"
      by (rule update_where_id)
    with True show ?thesis by simp
  next
    case False
    with Cons show ?thesis by simp
  qed
qed simp

lemma find_update_first:
  assumes "\<And>x. k (f x) = k x"
  shows "List.find (\<lambda>x. k x = i) (update_first (\<lambda>x. k x = j) f xs) =
    (if i = j then map_option f (List.find (\<lambda>x. k x = i) xs) else List.find (\<lambda>x. k x = i) xs)"
  using assms by (induction xs) auto

lemma find_update_where:
  assumes "\<And>x. k (f x) = k x"
  shows "List.find (\<lambda>x. k x = i) (update_where (\<lambda>x. k x = j) f xs) =
    (if i = j then map_option f (List.find (\<lambda>x. k x = i) xs) else List.find (\<lambda>x. k x = i) xs)"
  using assms by (induction xs) auto

lemma find_in_set: "List.find P xs = Some x \<Longrightarrow> x \<in> set xs \<and> P x"
  by (induction xs) (auto split: if_splits)

lemma find_None_iff_set: "List.find P xs = None \<longleftrightarrow> (\<forall>x \<in> set xs. \<not> P x)"
  by (auto simp: find_None_iff)

lemma find_distinct_key:
  "distinct (map k xs) \<Longrightarrow> x \<in> set xs \<Longrightarrow> List.find (\<lambda>y. k y = k x) xs = Some x"
  by (induction xs) auto

lemma find_append:
  "List.find P (xs @ ys) = (case List.find P xs of None \<Rightarrow> List.find P ys | Some x \<Rightarrow> Some x)"
  by (induction xs) auto

lemma distinct_map_filter_conj:
  assumes "distinct (map f (filter P xs))"
  shows "distinct (map f (filter (\<lambda>x. P x \<and> Q x) xs))" and "distinct (map f (filter (\<lambda>x. Q x \<and> P x) xs))"
  using assms by (induction xs) (auto split: if_splits)

section \<open>Printing numbers in message templates\<close>

fun show_nat :: "nat \<Rightarrow> string" where
  "show_nat n = (if n < 10 then [char_of (48 + n)] else show_nat (n div 10) @ [char_of (48 + n mod 10)])"

declare show_nat.simps [simp del]

definition show_int :: "int \<Rightarrow> string" where
  "show_int i = (if i < 0 then CHR ''-'' # show_nat (nat (- i)) else show_nat (nat i))"

definition quoted :: "string \<Rightarrow> string" where
  "quoted s = CHR 0x22 # s @ [CHR 0x22]"

definition single_quoted :: "string \<Rightarrow> string" where
  "single_quoted s = CHR 0x27 # s @ [CHR 0x27]"

fun join_with :: "string \<Rightarrow> string list \<Rightarrow> string" where
  "join_with sep [] = []"
| "join_with sep [x] = x"
| "join_with sep (x # xs) = x @ sep @ join_with sep xs"

section \<open>Character classes and identifier patterns\<close>

definition char_code :: "char \<Rightarrow> nat" where
  "char_code c = of_char c"

definition is_lower :: "char \<Rightarrow> bool" where
  "is_lower c \<longleftrightarrow> 97 \<le> char_code c \<and> char_code c \<le> 122"

definition is_digit :: "char \<Rightarrow> bool" where
  "is_digit c \<longleftrightarrow> 48 \<le> char_code c \<and> char_code c \<le> 57"

text \<open>\<^verbatim>\<open>[a-z0-9]\<close> and \<^verbatim>\<open>[a-z0-9-]\<close>.\<close>

definition alnum_lower :: "char \<Rightarrow> bool" where
  "alnum_lower c \<longleftrightarrow> is_lower c \<or> is_digit c"

definition kebab_char :: "char \<Rightarrow> bool" where
  "kebab_char c \<longleftrightarrow> alnum_lower c \<or> c = CHR ''-''"

text \<open>The ASCII white space that \<^verbatim>\<open>String.prototype.trim\<close> removes.\<close>

definition is_ws :: "char \<Rightarrow> bool" where
  "is_ws c \<longleftrightarrow> char_code c = 32 \<or> (9 \<le> char_code c \<and> char_code c \<le> 13)"

definition js_trim :: "string \<Rightarrow> string" where
  "js_trim s = rev (dropWhile is_ws (rev (dropWhile is_ws s)))"

fun starts_with :: "string \<Rightarrow> string \<Rightarrow> bool" where
  "starts_with [] s = True"
| "starts_with (p # ps) [] = False"
| "starts_with (p # ps) (c # cs) = (p = c \<and> starts_with ps cs)"

lemma starts_with_iff: "starts_with p s \<longleftrightarrow> (\<exists>t. s = p @ t)"
  by (induction p s rule: starts_with.induct) auto

lemma starts_with_append [simp]: "starts_with p (p @ t)"
  by (induction p) auto

end
