(* ===== verification/Domain_Types.thy ===== *)
theory Domain_Types
  imports Orc_Prelude
begin

text \<open>
  The data types of \<^verbatim>\<open>types/claims.ts\<close>, \<^verbatim>\<open>types/backlog.ts\<close>, \<^verbatim>\<open>types/agents.ts\<close> and
  \<^verbatim>\<open>types/events.ts\<close>, the constants of \<^verbatim>\<open>lib/constants.ts\<close>, and the run environment
  (clock, event schema, identifier source) that the operations take as an argument.
\<close>

section \<open>Task status and backlog (types/backlog.ts)\<close>

datatype TaskStatus =
  TS_todo | TS_claimed | TS_in_progress | TS_blocked | TS_done | TS_released | TS_cancelled

fun status_str :: "TaskStatus \<Rightarrow> string" where
  "status_str TS_todo = ''todo''"
| "status_str TS_claimed = ''claimed''"
| "status_str TS_in_progress = ''in_progress''"
| "status_str TS_blocked = ''blocked''"
| "status_str TS_done = ''done''"
| "status_str TS_released = ''released''"
| "status_str TS_cancelled = ''cancelled''"

record Task =
  t_ref :: string
  t_title :: string
  t_status :: TaskStatus
  t_description :: "string option"
  t_task_type :: "string option"
  t_priority :: "string option"
  t_planning_state :: "string option"
  t_delegated_by :: "string option"
  t_required_capabilities :: "string list option"
  t_required_provider :: "string option"
  t_model :: "string option"
  t_depends_on :: "string list option"
  t_acceptance_criteria :: "string list option"
  t_review_level :: "string option"
  t_merge_strategy :: "string option"
  t_attempt_count :: "nat option"
  t_spec_revision :: "nat option"
  t_requeue_eligible_after :: "timestamp option"
  t_blocked_reason :: "string option"
  t_owner :: "string option"
  t_created_at :: "timestamp option"
  t_updated_at :: "timestamp option"

record Feature =
  f_ref :: string
  f_title :: string
  f_tasks :: "Task list"

type_synonym Backlog = "Feature list"

definition backlog_tasks :: "Backlog \<Rightarrow> Task list" where
  "backlog_tasks b = concat (map f_tasks b)"

text \<open>\<^verbatim>\<open>task.status === 'claimed' || task.status === 'in_progress'\<close> and the finished statuses.\<close>

fun task_active :: "TaskStatus \<Rightarrow> bool" where
  "task_active TS_claimed = True"
| "task_active TS_in_progress = True"
| "task_active _ = False"

fun task_finished :: "TaskStatus \<Rightarrow> bool" where
  "task_finished TS_done = True"
| "task_finished TS_released = True"
| "task_finished _ = False"

lemma task_active_iff: "task_active s \<longleftrightarrow> s = TS_claimed \<or> s = TS_in_progress"
  by (cases s) auto

lemma task_finished_iff: "task_finished s \<longleftrightarrow> s = TS_done \<or> s = TS_released"
  by (cases s) auto

section \<open>Claims (types/claims.ts)\<close>

datatype ClaimState = CS_claimed | CS_in_progress | CS_done | CS_failed

fun claim_state_str :: "ClaimState \<Rightarrow> string" where
  "claim_state_str CS_claimed = ''claimed''"
| "claim_state_str CS_in_progress = ''in_progress''"
| "claim_state_str CS_done = ''done''"
| "claim_state_str CS_failed = ''failed''"

text \<open>\<^verbatim>\<open>['claimed', 'in_progress'].includes(claim.state)\<close>\<close>

fun active_state :: "ClaimState \<Rightarrow> bool" where
  "active_state CS_claimed = True"
| "active_state CS_in_progress = True"
| "active_state _ = False"

lemma active_state_iff: "active_state s \<longleftrightarrow> s = CS_claimed \<or> s = CS_in_progress"
  by (cases s) auto

datatype FinalizationState =
    FS_awaiting_finalize
  | FS_finalize_rebase_requested
  | FS_finalize_rebase_in_progress
  | FS_ready_to_merge
  | FS_blocked_finalize
  | FS_pr_created
  | FS_pr_review_in_progress
  | FS_pr_merged
  | FS_pr_failed

fun finalization_str :: "FinalizationState option \<Rightarrow> string" where
  "finalization_str None = ''null''"
| "finalization_str (Some FS_awaiting_finalize) = ''awaiting_finalize''"
| "finalization_str (Some FS_finalize_rebase_requested) = ''finalize_rebase_requested''"
| "finalization_str (Some FS_finalize_rebase_in_progress) = ''finalize_rebase_in_progress''"
| "finalization_str (Some FS_ready_to_merge) = ''ready_to_merge''"
| "finalization_str (Some FS_blocked_finalize) = ''blocked_finalize''"
| "finalization_str (Some FS_pr_created) = ''pr_created''"
| "finalization_str (Some FS_pr_review_in_progress) = ''pr_review_in_progress''"
| "finalization_str (Some FS_pr_merged) = ''pr_merged''"
| "finalization_str (Some FS_pr_failed) = ''pr_failed''"

datatype InputState = IS_awaiting_input

record TaskSpecSnapshot =
  snap_source_path :: string
  snap_path :: string
  snap_sha256 :: string
  snap_task_revision :: "nat option"

record Claim =
  c_run_id :: string
  c_task_ref :: string
  c_agent_id :: string
  c_state :: ClaimState
  c_claimed_at :: timestamp
  c_lease_expires_at :: "timestamp option"
  c_task_envelope_sent_at :: "timestamp option"
  c_last_heartbeat_at :: "timestamp option"
  c_started_at :: "timestamp option"
  c_finished_at :: "timestamp option"
  c_failure_reason :: "string option"
  c_finalization_state :: "FinalizationState option"
  c_finalization_retry_count :: "int option"
  c_finalization_blocked_reason :: "string option"
  c_input_state :: "InputState option"
  c_input_requested_at :: "timestamp option"
  c_session_start_retry_count :: int
  c_session_start_retry_next_at :: "timestamp option"
  c_session_start_last_error :: "string option"
  c_escalation_notified_at :: "timestamp option"
  c_pr_ref :: "string option"
  c_pr_created_at :: "timestamp option"
  c_pr_initial_work_complete_seq :: "int option"
  c_task_spec_snapshot :: "TaskSpecSnapshot option"

definition claim_active :: "Claim \<Rightarrow> bool" where
  [orc_simps]: "claim_active c \<longleftrightarrow> active_state (c_state c)"

section \<open>Agents (types/agents.ts)\<close>

datatype AgentStatus = AS_idle | AS_running | AS_offline | AS_dead

record Agent =
  a_agent_id :: string
  a_provider :: string
  a_status :: AgentStatus
  a_role :: "string option"
  a_capabilities :: "string list option"
  a_session_handle :: "string option"
  a_session_token :: "string option"
  a_session_started_at :: "timestamp option"
  a_session_ready_at :: "timestamp option"
  a_provider_ref :: "string option"
  a_registered_at :: timestamp
  a_last_heartbeat_at :: "timestamp option"
  a_last_status_change_at :: "timestamp option"
  a_dispatch_mode :: "string option"
  a_ephemeral :: bool
  a_model :: "string option"

section \<open>Events (types/events.ts)\<close>

text \<open>
  One event object: the base fields, the optional references and the payload. An event
  input, before the log assigns its sequence number and identity, has \<open>ev_seq = 0\<close> and
  \<open>ev_event_id = None\<close>.
\<close>

record OrcEvent =
  ev_seq :: nat
  ev_event_id :: "string option"
  ev_ts :: timestamp
  ev_event :: string
  ev_actor_type :: string
  ev_actor_id :: string
  ev_run_id :: "string option"
  ev_task_ref :: "string option"
  ev_agent_id :: "string option"
  ev_phase :: "string option"
  ev_payload :: "payload option"

definition mk_event ::
  "timestamp \<Rightarrow> string \<Rightarrow> string \<Rightarrow> string \<Rightarrow> string option \<Rightarrow> string option \<Rightarrow> string option \<Rightarrow>
   payload option \<Rightarrow> OrcEvent" where
  "mk_event ts name atype aid run ref ag pl =
     \<lparr>ev_seq = 0, ev_event_id = None, ev_ts = ts, ev_event = name, ev_actor_type = atype,
      ev_actor_id = aid, ev_run_id = run, ev_task_ref = ref, ev_agent_id = ag,
      ev_phase = None, ev_payload = pl\<rparr>"

section \<open>Constants (lib/constants.ts)\<close>

definition TASK_TYPES :: "string list" where
  "TASK_TYPES = [''implementation'', ''refactor'']"

definition AGENT_ROLES :: "string list" where
  "AGENT_ROLES = [''worker'', ''reviewer'', ''master'', ''scout'']"

definition TASK_PRIORITIES :: "string list" where
  "TASK_PRIORITIES = [''low'', ''normal'', ''high'', ''critical'']"

text \<open>\<^verbatim>\<open>/^[a-z0-9][a-z0-9-]*$/\<close>\<close>

fun AGENT_ID_RE :: "string \<Rightarrow> bool" where
  "AGENT_ID_RE [] = False"
| "AGENT_ID_RE (c # cs) = (alnum_lower c \<and> list_all kebab_char cs)"

text \<open>\<^verbatim>\<open>/^[a-z0-9-]+\/[a-z0-9-]+$/\<close>\<close>

definition TASK_REF_RE :: "string \<Rightarrow> bool" where
  "TASK_REF_RE s \<longleftrightarrow>
     (let p = takeWhile kebab_char s; r = dropWhile kebab_char s in
      p \<noteq> [] \<and> r \<noteq> [] \<and> hd r = CHR ''/'' \<and> tl r \<noteq> [] \<and> list_all kebab_char (tl r))"

text \<open>\<^verbatim>\<open>/^run-[a-z0-9-]+$/\<close>\<close>

definition RUN_ID_RE :: "string \<Rightarrow> bool" where
  "RUN_ID_RE s \<longleftrightarrow> starts_with ''run-'' s \<and> drop 4 s \<noteq> [] \<and> list_all kebab_char (drop 4 s)"

definition LOCK_STALE_MS :: int where "LOCK_STALE_MS = 30000"

definition DEFAULT_LEASE_MS :: int where "DEFAULT_LEASE_MS = 30 * 60 * 1000"

definition INPUT_WAIT_TIMEOUT_MS :: int where "INPUT_WAIT_TIMEOUT_MS = 3600000"

definition FINALIZE_LEASE_MS :: int where "FINALIZE_LEASE_MS = 60 * 60 * 1000"

definition MAX_ATTEMPTS :: nat where "MAX_ATTEMPTS = 5"

section \<open>Run environment\<close>

text \<open>
  What an operation reads besides the state: the wall clock (one instant per operation),
  the compiled JSON schema of an event (a validator generated by the Ajv package, which
  returns its error list), the identifiers that \<^verbatim>\<open>randomUUID()\<close> supplies (one per event
  sequence number), the SHA-256 hex digest of Node's \<^verbatim>\<open>crypto\<close> module, and two regular-expression
  scans that the development leaves abstract: the title that a Markdown body carries
  (\<^verbatim>\<open>parseBodyTitle\<close>) and the prompt-injection findings of a body (\<^verbatim>\<open>scanForInjection\<close>).
\<close>

record env =
  clock :: int
  validateSchema :: "OrcEvent \<Rightarrow> string list"
  uuid :: "nat \<Rightarrow> string"
  sha256 :: "string \<Rightarrow> string"
  parseBodyTitle :: "string \<Rightarrow> string option"
  injectionFindings :: "string \<Rightarrow> string list"

definition now_ts :: "env \<Rightarrow> timestamp" where
  [orc_simps]: "now_ts e = Ts (clock e)"

text \<open>A concrete environment, on which operations are evaluated.\<close>

definition env0 :: env where
  "env0 = \<lparr>clock = 0, validateSchema = (\<lambda>_. []), uuid = show_nat,
     sha256 = (\<lambda>s. replicate 64 (CHR ''0'')), parseBodyTitle = (\<lambda>_. None),
     injectionFindings = (\<lambda>_. [])\<rparr>"

end
