(* ===== verification/Task_Contract.thy ===== *)
theory Task_Contract
  imports Domain_Types
begin

text \<open>
  \<^verbatim>\<open>lib/projectContract.ts\<close>: the project selection rule, the task lifecycle authority
  \<open>canTransitionTaskStatus\<close> and the dependency readiness of a task; and the SQL trigger
  \<^verbatim>\<open>transitions_validate\<close> of \<^verbatim>\<open>lib/projectTaskStore.ts\<close>, which states the same authority a
  second time inside the database. The locale \<open>lifecycle_authority\<close> collects what the
  store relies on; both formulations are interpretations of it.
\<close>

section \<open>Project selection\<close>

record RegisteredProjectIdentity =
  p_id :: string
  p_canonicalGitRoot :: string

datatype ProjectSelectionSource = PS_explicit | PS_environment | PS_cwd | PS_selected

fun source_str :: "ProjectSelectionSource \<Rightarrow> string" where
  "source_str PS_explicit = ''explicit''"
| "source_str PS_environment = ''environment''"
| "source_str PS_cwd = ''cwd''"
| "source_str PS_selected = ''selected''"

definition findById ::
  "RegisteredProjectIdentity list \<Rightarrow> string \<Rightarrow> ProjectSelectionSource \<Rightarrow>
   (string \<times> ProjectSelectionSource) result" where
  "findById projects i src =
     (if js_trim i = [] then Inl (PlainError (''Empty '' @ source_str src @ '' project id''))
      else if length (filter (\<lambda>p. p_id p = i) projects) \<noteq> 1
      then Inl (PlainError (source_str src @ '' project id is not uniquely registered: '' @ i))
      else Inr (i, src))"

definition selectProject ::
  "RegisteredProjectIdentity list \<Rightarrow> string option \<Rightarrow> string option \<Rightarrow> string option \<Rightarrow>
   string option \<Rightarrow> (string \<times> ProjectSelectionSource) result" where
  "selectProject projects explicitProjectId environmentProjectId cwdGitRoot selectedProjectId =
     (case explicitProjectId of
        Some i \<Rightarrow> findById projects i PS_explicit
      | None \<Rightarrow>
     (case environmentProjectId of
        Some i \<Rightarrow> findById projects i PS_environment
      | None \<Rightarrow>
     (case cwdGitRoot of
        Some root \<Rightarrow>
          (case filter (\<lambda>p. p_canonicalGitRoot p = root) projects of
             [p] \<Rightarrow> Inr (p_id p, PS_cwd)
           | [] \<Rightarrow> Inl (PlainError (''Git repository is not registered: '' @ root))
           | _ \<Rightarrow> Inl (PlainError (''Git repository matches multiple projects: '' @ root)))
      | None \<Rightarrow>
     (case selectedProjectId of
        Some i \<Rightarrow> findById projects i PS_selected
      | None \<Rightarrow> Inl (PlainError
          ''No project selected; pass --project or register the current Git repository'')))))"

section \<open>The lifecycle authority\<close>

datatype TaskTransitionCause =
    TC_claim | TC_run_start | TC_merge_succeeded | TC_post_merge_release
  | TC_failure_requeue | TC_failure_block | TC_manual_block | TC_unblock
  | TC_operator_reset | TC_cancel | TC_migration_import

fun canTransitionTaskStatus :: "TaskStatus \<Rightarrow> TaskStatus \<Rightarrow> TaskTransitionCause \<Rightarrow> bool" where
  "canTransitionTaskStatus from to TC_claim = (from = TS_todo \<and> to = TS_claimed)"
| "canTransitionTaskStatus from to TC_run_start = (from = TS_claimed \<and> to = TS_in_progress)"
| "canTransitionTaskStatus from to TC_merge_succeeded = (from = TS_in_progress \<and> to = TS_done)"
| "canTransitionTaskStatus from to TC_post_merge_release = (from = TS_done \<and> to = TS_released)"
| "canTransitionTaskStatus from to TC_failure_requeue =
     ((from = TS_claimed \<or> from = TS_in_progress) \<and> to = TS_todo)"
| "canTransitionTaskStatus from to TC_failure_block =
     ((from = TS_claimed \<or> from = TS_in_progress) \<and> to = TS_blocked)"
| "canTransitionTaskStatus from to TC_manual_block = (from = TS_todo \<and> to = TS_blocked)"
| "canTransitionTaskStatus from to TC_unblock = (from = TS_blocked \<and> to = TS_todo)"
| "canTransitionTaskStatus from to TC_operator_reset = (from \<noteq> TS_todo \<and> to = TS_todo)"
| "canTransitionTaskStatus from to TC_cancel =
     (from \<notin> {TS_done, TS_released, TS_cancelled} \<and> to = TS_cancelled)"
| "canTransitionTaskStatus from to TC_migration_import =
     (from = TS_todo \<and> to \<in> {TS_blocked, TS_done, TS_released, TS_cancelled})"

text \<open>
  The trigger's condition on an inserted row (\<open>cause\<close>, \<open>from\<close>, \<open>to\<close>); \<open>first\<close> says that the
  task has no earlier transition row.
\<close>

definition transitions_validate ::
  "bool \<Rightarrow> TaskStatus \<Rightarrow> TaskStatus \<Rightarrow> TaskTransitionCause \<Rightarrow> bool" where
  "transitions_validate first from to cause \<longleftrightarrow>
     (cause = TC_claim \<and> from = TS_todo \<and> to = TS_claimed) \<or>
     (cause = TC_run_start \<and> from = TS_claimed \<and> to = TS_in_progress) \<or>
     (cause = TC_merge_succeeded \<and> from = TS_in_progress \<and> to = TS_done) \<or>
     (cause = TC_post_merge_release \<and> from = TS_done \<and> to = TS_released) \<or>
     (cause = TC_failure_requeue \<and> from \<in> {TS_claimed, TS_in_progress} \<and> to = TS_todo) \<or>
     (cause = TC_failure_block \<and> from \<in> {TS_claimed, TS_in_progress} \<and> to = TS_blocked) \<or>
     (cause = TC_manual_block \<and> from = TS_todo \<and> to = TS_blocked) \<or>
     (cause = TC_unblock \<and> from = TS_blocked \<and> to = TS_todo) \<or>
     (cause = TC_operator_reset \<and> from \<noteq> TS_todo \<and> to = TS_todo) \<or>
     (cause = TC_cancel \<and> from \<in> {TS_todo, TS_claimed, TS_in_progress, TS_blocked} \<and>
        to = TS_cancelled) \<or>
     (cause = TC_migration_import \<and> from = TS_todo \<and>
        to \<in> {TS_blocked, TS_done, TS_released, TS_cancelled} \<and> first)"

section \<open>Dependency readiness\<close>

datatype ReadinessKind = RK_ready | RK_waiting_for_dependencies | RK_status_not_todo

definition deriveDependencyReadiness ::
  "TaskStatus \<Rightarrow> string list \<Rightarrow> (string \<rightharpoonup> TaskStatus) \<Rightarrow> ReadinessKind \<times> string list" where
  "deriveDependencyReadiness status dependsOn statusByRef =
     (if status \<noteq> TS_todo then (RK_status_not_todo, [])
      else let waitingOn = filter (\<lambda>ref. statusByRef ref \<noteq> Some TS_done \<and>
                                          statusByRef ref \<noteq> Some TS_released)
                                  (js_set dependsOn)
           in if waitingOn = [] then (RK_ready, waitingOn)
              else (RK_waiting_for_dependencies, waitingOn))"

section \<open>What a lifecycle store relies on\<close>

text \<open>
  An authority decides which status changes a cause may make. Its laws: a status change is
  never a no-op, the cause fixes when work may be entered or completed, and a terminal
  status is left only by an operator reset or by the release that follows a merge.
\<close>

locale lifecycle_authority =
  fixes allowed :: "TaskStatus \<Rightarrow> TaskStatus \<Rightarrow> TaskTransitionCause \<Rightarrow> bool"
  assumes allowed_changes: "allowed from to cause \<Longrightarrow> from \<noteq> to"
    and enter_claimed: "allowed from TS_claimed cause \<Longrightarrow> from = TS_todo \<and> cause = TC_claim"
    and enter_in_progress:
      "allowed from TS_in_progress cause \<Longrightarrow> from = TS_claimed \<and> cause = TC_run_start"
    and leave_terminal:
      "allowed from to cause \<Longrightarrow> from \<in> {TS_done, TS_released, TS_cancelled} \<Longrightarrow>
         cause = TC_operator_reset \<or> (from = TS_done \<and> to = TS_released)"
    and enter_done:
      "allowed from TS_done cause \<Longrightarrow>
         (from = TS_in_progress \<and> cause = TC_merge_succeeded) \<or> cause = TC_migration_import"
begin

text \<open>A run of the machine: successive allowed changes from a start status.\<close>

fun path :: "TaskStatus \<Rightarrow> (TaskStatus \<times> TaskTransitionCause) list \<Rightarrow> bool" where
  "path s [] = True"
| "path s ((to, cause) # rest) = (allowed s to cause \<and> path to rest)"

text \<open>
  A task that becomes done without having been imported was in progress just before: no
  path completes a task without a run that started.
\<close>

lemma done_needs_progress:
  assumes "path s (xs @ [(TS_done, cause)])" and "cause \<noteq> TC_migration_import"
  shows "last (s # map fst xs) = TS_in_progress"
  using assms
proof (induction xs arbitrary: s)
  case Nil
  then show ?case using enter_done by auto
next
  case (Cons x xs)
  obtain to c where "x = (to, c)" by (cases x)
  with Cons show ?case by auto
qed

lemma path_append: "path s (xs @ ys) \<longleftrightarrow> path s xs \<and> path (last (s # map fst xs)) ys"
  by (induction xs arbitrary: s) auto

text \<open>Entering \<^verbatim>\<open>in_progress\<close> always comes straight after a claim of a \<^verbatim>\<open>todo\<close> task.\<close>

lemma progress_needs_claim:
  assumes "path TS_todo (xs @ [(TS_in_progress, cause)])"
  obtains ys where "xs = ys @ [(TS_claimed, TC_claim)]"
proof -
  from assms have p: "path TS_todo xs" and a: "allowed (last (TS_todo # map fst xs)) TS_in_progress cause"
    by (auto simp: path_append)
  from enter_in_progress [OF a] have l: "last (TS_todo # map fst xs) = TS_claimed" by simp
  then have "xs \<noteq> []" by auto
  then obtain ys to c where xs: "xs = ys @ [(to, c)]"
    by (metis rev_exhaust surj_pair)
  with l have "to = TS_claimed" by simp
  moreover from p xs have "allowed (last (TS_todo # map fst ys)) to c"
    by (auto simp: path_append)
  ultimately have "c = TC_claim" using enter_claimed by blast
  with xs \<open>to = TS_claimed\<close> that show thesis by blast
qed

end

section \<open>Both formulations are such an authority\<close>

lemma transitions_validate_iff:
  "transitions_validate first from to cause \<longleftrightarrow>
     canTransitionTaskStatus from to cause \<and> (cause = TC_migration_import \<longrightarrow> first)"
  by (cases cause; cases "from"; auto simp: transitions_validate_def)

text \<open>
  C26. The database trigger and the TypeScript rule agree: the trigger accepts a status
  change exactly when \<open>canTransitionTaskStatus\<close> does and, for a migration import, the
  task has no earlier transition.
\<close>

theorem trigger_agrees_with_contract:
  "transitions_validate first from to cause \<longleftrightarrow>
     canTransitionTaskStatus from to cause \<and> (cause = TC_migration_import \<longrightarrow> first)"
  by (rule transitions_validate_iff)

theorem trigger_agrees_with_contract_witness:
  "transitions_validate True TS_todo TS_done TC_migration_import \<and> \<not> transitions_validate False TS_todo TS_done TC_migration_import"
  by (simp add: trigger_agrees_with_contract)

interpretation contract: lifecycle_authority canTransitionTaskStatus
proof unfold_locales
  fix "from" to :: TaskStatus and cause :: TaskTransitionCause
  show "from \<noteq> to" if "canTransitionTaskStatus from to cause"
    using that by (cases cause) auto
  show "from = TS_todo \<and> cause = TC_claim" if "canTransitionTaskStatus from TS_claimed cause"
    using that by (cases cause) auto
  show "from = TS_claimed \<and> cause = TC_run_start"
    if "canTransitionTaskStatus from TS_in_progress cause"
    using that by (cases cause) auto
  show "cause = TC_operator_reset \<or> (from = TS_done \<and> to = TS_released)"
    if "canTransitionTaskStatus from to cause" "from \<in> {TS_done, TS_released, TS_cancelled}"
    using that by (cases cause) auto
  show "(from = TS_in_progress \<and> cause = TC_merge_succeeded) \<or> cause = TC_migration_import"
    if "canTransitionTaskStatus from TS_done cause"
    using that by (cases cause) auto
qed

interpretation trigger: lifecycle_authority "transitions_validate first" for first
  by unfold_locales
     (auto simp: transitions_validate_iff
           dest: contract.allowed_changes contract.enter_claimed contract.enter_in_progress
                 contract.leave_terminal contract.enter_done)

end
