(* ===== verification/Task_Store.thy ===== *)
theory Task_Store
  imports Task_Contract "HOL-Library.List_Lexorder" "HOL-Library.Char_ord"
begin

text \<open>
  \<^verbatim>\<open>lib/projectTaskStore.ts\<close>: the project task database \<^verbatim>\<open>runtime.db\<close>. Each table is a list
  of rows in rowid order; each method of \<^verbatim>\<open>ProjectTaskStore\<close> that changes the database is
  a function on the tables, with the constraints, foreign keys and triggers of the schema
  as error branches. A transaction that throws leaves the database as it was, so a failed
  operation returns only its error.
\<close>

section \<open>Printing JSON\<close>

text \<open>\<^verbatim>\<open>JSON.stringify\<close> on the values of the model (integers only).\<close>

definition hex_digit :: "nat \<Rightarrow> char" where
  "hex_digit n = (if n < 10 then char_of (48 + n) else char_of (87 + n))"

definition json_char :: "char \<Rightarrow> string" where
  "json_char c = (let n = char_code c; bs = char_of (92::nat) in
     if n = 34 then [bs, c] else if n = 92 then [bs, bs]
     else if n = 8 then [bs, CHR ''b''] else if n = 9 then [bs, CHR ''t'']
     else if n = 10 then [bs, CHR ''n''] else if n = 12 then [bs, CHR ''f'']
     else if n = 13 then [bs, CHR ''r'']
     else if n < 32 then [bs, CHR ''u'', CHR ''0'', CHR ''0'', hex_digit (n div 16), hex_digit (n mod 16)]
     else [c])"

definition json_string :: "string \<Rightarrow> string" where
  "json_string s = char_of (34::nat) # concat (map json_char s) @ [char_of (34::nat)]"

text \<open>A canonical timestamp prints as an injective token of its time value.\<close>

fun show_ts :: "timestamp \<Rightarrow> string" where
  "show_ts (Ts ms) = show_int ms"
| "show_ts (BadTs s) = s"

fun json_stringify :: "json \<Rightarrow> string" where
  "json_stringify JNull = ''null''"
| "json_stringify (JBool b) = (if b then ''true'' else ''false'')"
| "json_stringify (JNum i) = show_int i"
| "json_stringify (JStr s) = json_string s"
| "json_stringify (JTime t) = json_string (show_ts t)"
| "json_stringify (JArr xs) = ''['' @ join_with '','' (map json_stringify xs) @ '']''"
| "json_stringify (JObj kvs) =
     ''{'' @ join_with '','' (map (\<lambda>kv. json_string (fst kv) @ '':'' @ json_stringify (snd kv)) kvs) @ ''}''"

text \<open>Setting a property of an object keeps its position when the key exists.\<close>

fun obj_set :: "string \<Rightarrow> json \<Rightarrow> payload \<Rightarrow> payload" where
  "obj_set k v [] = [(k, v)]"
| "obj_set k v ((k', v') # kvs) = (if k = k' then (k, v) # kvs else (k', v') # obj_set k v kvs)"

section \<open>Tables\<close>

record task_row =
  tr_ref :: string
  tr_title :: string
  tr_priority :: string
  tr_required_provider :: "string option"
  tr_status :: TaskStatus
  tr_attempt_count :: nat
  tr_blocked_reason :: "string option"
  tr_created_at :: timestamp
  tr_updated_at :: timestamp
  tr_owner :: "string option"
  tr_planning_state :: "string option"
  tr_delegated_by :: "string option"
  tr_task_type :: "string option"
  tr_requeue_eligible_after :: "timestamp option"

record TaskSpecRevision =
  rv_task_ref :: string
  rv_revision :: nat
  rv_content_hash :: string
  rv_body_markdown :: string
  rv_title :: string
  rv_metadata :: payload
  rv_created_at :: timestamp

record transition_row =
  tt_task_ref :: string
  tt_from :: TaskStatus
  tt_to :: TaskStatus
  tt_cause :: TaskTransitionCause
  tt_reason :: "string option"
  tt_run_id :: "string option"
  tt_actor_id :: "string option"
  tt_idempotency_key :: "string option"
  tt_created_at :: timestamp

datatype RunBindingState =
  RB_claimed | RB_in_progress | RB_work_complete | RB_finished | RB_failed | RB_cancelled

fun binding_active :: "RunBindingState \<Rightarrow> bool" where
  "binding_active RB_claimed = True"
| "binding_active RB_in_progress = True"
| "binding_active RB_work_complete = True"
| "binding_active _ = False"

record task_run_row =
  rb_run_id :: string
  rb_task_ref :: string
  rb_spec_revision :: nat
  rb_agent_id :: "string option"
  rb_state :: RunBindingState
  rb_created_at :: timestamp
  rb_updated_at :: timestamp

record import_row =
  im_task_ref :: string
  im_revision :: nat
  im_source_path :: string
  im_file_sha256 :: string
  im_imported_at :: timestamp

record plan_row =
  pl_plan_id :: nat
  pl_name :: string
  pl_title :: string
  pl_body_markdown :: string
  pl_content_hash :: string
  pl_metadata_json :: string
  pl_source_path :: "string option"
  pl_created_at :: timestamp
  pl_updated_at :: timestamp

record task_store =
  tasks :: "task_row list"
  task_spec_revisions :: "TaskSpecRevision list"
  task_dependencies :: "(string \<times> string) list"
  task_transitions :: "transition_row list"
  task_runs :: "task_run_row list"
  task_imports :: "import_row list"
  plan_documents :: "plan_row list"

definition empty_store :: task_store where
  "empty_store = \<lparr>tasks = [], task_spec_revisions = [], task_dependencies = [],
     task_transitions = [], task_runs = [], task_imports = [], plan_documents = []\<rparr>"

text \<open>SQL's \<^verbatim>\<open>trim\<close> removes spaces only.\<close>

definition sql_trim :: "string \<Rightarrow> string" where
  "sql_trim s = rev (dropWhile (\<lambda>c. c = CHR '' '') (rev (dropWhile (\<lambda>c. c = CHR '' '') s)))"

section \<open>Reading\<close>

record TaskDispatchState =
  ds_owner :: "string option"
  ds_planningState :: "string option"
  ds_delegatedBy :: "string option"
  ds_taskType :: "string option"
  ds_requeueEligibleAfter :: "timestamp option"

record ProjectTask =
  pt_ref :: string
  pt_title :: string
  pt_status :: TaskStatus
  pt_priority :: string
  pt_requiredProvider :: "string option"
  pt_attemptCount :: nat
  pt_blockedReason :: "string option"
  pt_bodyMarkdown :: string
  pt_revision :: nat
  pt_contentHash :: string
  pt_metadata :: payload
  pt_dependsOn :: "string list"
  pt_createdAt :: timestamp
  pt_updatedAt :: timestamp
  pt_dispatch :: TaskDispatchState

definition revisions_of :: "string \<Rightarrow> task_store \<Rightarrow> TaskSpecRevision list" where
  "revisions_of ref s = filter (\<lambda>r. rv_task_ref r = ref) (task_spec_revisions s)"

text \<open>\<^verbatim>\<open>SELECT MAX(revision)\<close>, or nothing for a task without revisions.\<close>

definition max_revision :: "string \<Rightarrow> task_store \<Rightarrow> nat option" where
  "max_revision ref s =
     (case map rv_revision (revisions_of ref s) of
        [] \<Rightarrow> None
      | n # ns \<Rightarrow> Some (fold max ns n))"

definition getRevision :: "string \<Rightarrow> nat \<Rightarrow> task_store \<Rightarrow> TaskSpecRevision option" where
  "getRevision ref revno s =
     List.find (\<lambda>r. rv_task_ref r = ref \<and> rv_revision r = revno) (task_spec_revisions s)"

definition dependencies :: "string \<Rightarrow> task_store \<Rightarrow> string list" where
  "dependencies ref s = sort (map snd (filter (\<lambda>d. fst d = ref) (task_dependencies s)))"

definition find_task_row :: "string \<Rightarrow> task_store \<Rightarrow> task_row option" where
  "find_task_row ref s = List.find (\<lambda>t. tr_ref t = ref) (tasks s)"

definition toTask :: "task_row \<Rightarrow> TaskSpecRevision \<Rightarrow> string list \<Rightarrow> ProjectTask" where
  "toTask row r deps =
     \<lparr>pt_ref = tr_ref row, pt_title = tr_title row, pt_status = tr_status row,
      pt_priority = tr_priority row, pt_requiredProvider = tr_required_provider row,
      pt_attemptCount = tr_attempt_count row, pt_blockedReason = tr_blocked_reason row,
      pt_bodyMarkdown = rv_body_markdown r, pt_revision = rv_revision r,
      pt_contentHash = rv_content_hash r, pt_metadata = rv_metadata r, pt_dependsOn = deps,
      pt_createdAt = tr_created_at row, pt_updatedAt = tr_updated_at row,
      pt_dispatch = \<lparr>ds_owner = tr_owner row, ds_planningState = tr_planning_state row,
        ds_delegatedBy = tr_delegated_by row, ds_taskType = tr_task_type row,
        ds_requeueEligibleAfter = tr_requeue_eligible_after row\<rparr>\<rparr>"

definition latest_revision :: "string \<Rightarrow> task_store \<Rightarrow> TaskSpecRevision option" where
  "latest_revision ref s =
     (case max_revision ref s of None \<Rightarrow> None | Some n \<Rightarrow> getRevision ref n s)"

definition getTask :: "string \<Rightarrow> task_store \<Rightarrow> ProjectTask option" where
  "getTask ref s =
     (case find_task_row ref s of
        None \<Rightarrow> None
      | Some row \<Rightarrow>
          (case latest_revision ref s of
             None \<Rightarrow> None
           | Some r \<Rightarrow> Some (toTask row r (dependencies ref s))))"

text \<open>\<^verbatim>\<open>ORDER BY t.created_at, t.ref\<close>: a stable sort by the reference, then by creation time.\<close>

fun ts_num :: "timestamp \<Rightarrow> int" where
  "ts_num (Ts ms) = ms"
| "ts_num (BadTs s) = 0"

definition listTasks :: "task_store \<Rightarrow> ProjectTask list" where
  "listTasks s =
     List.map_filter (\<lambda>row. getTask (tr_ref row) s)
       (sort_key (\<lambda>t. ts_num (tr_created_at t)) (sort_key tr_ref (tasks s)))"

definition getRunSpec :: "string \<Rightarrow> task_store \<Rightarrow> TaskSpecRevision option" where
  "getRunSpec runId s =
     (case List.find (\<lambda>r. rb_run_id r = runId) (task_runs s) of
        None \<Rightarrow> None
      | Some r \<Rightarrow> getRevision (rb_task_ref r) (rb_spec_revision r) s)"

definition activeRunId :: "string \<Rightarrow> task_store \<Rightarrow> string option" where
  "activeRunId ref s =
     map_option rb_run_id
       (List.find (\<lambda>r. rb_task_ref r = ref \<and> binding_active (rb_state r)) (task_runs s))"

section \<open>Writing: revisions and dependencies\<close>

text \<open>Every priority, provider and column constraint of the \<^verbatim>\<open>tasks\<close> table.\<close>

definition TASK_PROVIDERS :: "string list" where
  "TASK_PROVIDERS = [''codex'', ''claude'', ''gemini'']"

definition task_columns_ok :: "string \<Rightarrow> string \<Rightarrow> string \<Rightarrow> string option \<Rightarrow> bool" where
  "task_columns_ok ref title priority provider \<longleftrightarrow>
     sql_trim ref \<noteq> [] \<and> sql_trim title \<noteq> [] \<and> priority \<in> set TASK_PRIORITIES \<and>
     (case provider of None \<Rightarrow> True | Some p \<Rightarrow> p \<in> set TASK_PROVIDERS)"

definition normalizeDependencies :: "string \<Rightarrow> string list \<Rightarrow> string list result" where
  "normalizeDependencies ref dependsOn =
     (let unique = js_set dependsOn in
      case List.find (\<lambda>d. js_trim d = [] \<or> d = ref) unique of
        None \<Rightarrow> Inr (sort unique)
      | Some d \<Rightarrow>
          if js_trim d = [] then Inl (InputError ''Task dependencies must be non-empty strings'')
          else Inl (InputError (''Task '' @ ref @ '' cannot depend on itself'')))"

definition revisionMetadata ::
  "payload \<Rightarrow> string \<Rightarrow> string option \<Rightarrow> string list \<Rightarrow> payload" where
  "revisionMetadata metadata priority requiredProvider dependsOn =
     obj_set ''depends_on'' (JArr (map JStr dependsOn))
       (obj_set ''required_provider'' (jstr_opt requiredProvider)
         (obj_set ''priority'' (JStr priority) metadata))"

definition revisionContentHash :: "env \<Rightarrow> string \<Rightarrow> string \<Rightarrow> payload \<Rightarrow> string" where
  "revisionContentHash e title body metadata =
     sha256 e (json_stringify (JObj [(''title'', JStr title), (''body'', JStr body),
       (''metadata'', JObj metadata)]))"

definition insertRevision ::
  "env \<Rightarrow> string \<Rightarrow> nat \<Rightarrow> string \<Rightarrow> string \<Rightarrow> payload \<Rightarrow> string \<Rightarrow> string option \<Rightarrow> string list \<Rightarrow>
   timestamp \<Rightarrow> task_store \<Rightarrow> task_store result" where
  "insertRevision e ref revno title body metadata priority provider dependsOn now s =
     (let meta = revisionMetadata metadata priority provider dependsOn;
          h = revisionContentHash e title body meta in
      if length h \<noteq> 64 \<or> revno = 0 \<or> sql_trim title = []
      then Inl (SqliteError ''CHECK constraint failed: task_spec_revisions'')
      else if getRevision ref revno s \<noteq> None
      then Inl (SqliteError ''UNIQUE constraint failed: task_spec_revisions.task_ref, task_spec_revisions.revision'')
      else if find_task_row ref s = None then Inl (SqliteError ''FOREIGN KEY constraint failed'')
      else Inr (s\<lparr>task_spec_revisions := task_spec_revisions s @
        [\<lparr>rv_task_ref = ref, rv_revision = revno, rv_content_hash = h, rv_body_markdown = body,
          rv_title = title, rv_metadata = meta, rv_created_at = now\<rparr>]\<rparr>))"

definition insert_dependency :: "string \<Rightarrow> string \<Rightarrow> task_store \<Rightarrow> task_store result" where
  "insert_dependency ref d s =
     (if sql_trim d = [] \<or> ref = d then Inl (SqliteError ''CHECK constraint failed: task_dependencies'')
      else if (ref, d) \<in> set (task_dependencies s)
      then Inl (SqliteError ''UNIQUE constraint failed: task_dependencies.task_ref, task_dependencies.depends_on_ref'')
      else Inr (s\<lparr>task_dependencies := task_dependencies s @ [(ref, d)]\<rparr>))"

definition replaceDependencies :: "string \<Rightarrow> string list \<Rightarrow> task_store \<Rightarrow> task_store result" where
  "replaceDependencies ref dependsOn s =
     rfold (insert_dependency ref) dependsOn
       (s\<lparr>task_dependencies := filter (\<lambda>d. fst d \<noteq> ref) (task_dependencies s)\<rparr>)"

record TaskSpecInput =
  in_ref :: string
  in_title :: "string option"
  in_bodyMarkdown :: string
  in_priority :: "string option"
  in_requiredProvider :: "string option"
  in_metadata :: "payload option"
  in_dependsOn :: "string list option"
  in_createdAt :: "timestamp option"

text \<open>The row of a new task: the columns the insert names and the defaults of the others.\<close>

definition new_task_row :: "string \<Rightarrow> string \<Rightarrow> string \<Rightarrow> string option \<Rightarrow> timestamp \<Rightarrow> task_row" where
  "new_task_row ref title priority provider now =
     \<lparr>tr_ref = ref, tr_title = title, tr_priority = priority,
      tr_required_provider = provider, tr_status = TS_todo, tr_attempt_count = 0,
      tr_blocked_reason = None, tr_created_at = now, tr_updated_at = now,
      tr_owner = None, tr_planning_state = None, tr_delegated_by = None,
      tr_task_type = None, tr_requeue_eligible_after = None\<rparr>"

definition store_createTask :: "env \<Rightarrow> TaskSpecInput \<Rightarrow> task_store \<Rightarrow> task_store result" where
  "store_createTask e input s =
     (case coalesce (in_title input) (parseBodyTitle e (in_bodyMarkdown input)) of
        None \<Rightarrow> Inl (InputError ''Task ref and title are required'')
      | Some title \<Rightarrow>
          if js_trim (in_ref input) = [] \<or> js_trim title = []
          then Inl (InputError ''Task ref and title are required'')
          else rbind (normalizeDependencies (in_ref input) (or_default (in_dependsOn input) [])) (\<lambda>deps.
            (let ref = in_ref input; now = or_default (in_createdAt input) (now_ts e);
                 priority = or_default (in_priority input) ''normal'';
                 provider = in_requiredProvider input in
             if find_task_row ref s \<noteq> None then Inl (ConflictError (''Task already exists: '' @ ref))
             else if \<not> task_columns_ok ref title priority provider
             then Inl (SqliteError ''CHECK constraint failed: tasks'')
             else rbind (insertRevision e ref 1 title (in_bodyMarkdown input)
                           (or_default (in_metadata input) []) priority provider deps now
                    (s\<lparr>tasks := tasks s @ [new_task_row ref title priority provider now]\<rparr>))
                  (replaceDependencies ref deps))))"

record TaskSpecChanges =
  ch_title :: "string option"
  ch_bodyMarkdown :: "string option"
  ch_priority :: "string option"
  ch_requiredProvider :: "string option option"
  ch_metadata :: "payload option"
  ch_dependsOn :: "string list option"

definition INDEXED_METADATA_KEYS :: "string list" where
  "INDEXED_METADATA_KEYS = [''priority'', ''required_provider'', ''depends_on'']"

text \<open>The result says whether a new revision was written.\<close>

definition store_reviseTask ::
  "env \<Rightarrow> string \<Rightarrow> int \<Rightarrow> TaskSpecChanges \<Rightarrow> task_store \<Rightarrow> (bool \<times> task_store) result" where
  "store_reviseTask e ref expectedRevision changes s =
     (if expectedRevision < 1 then Inl (InputError ''expected revision must be a positive integer'')
      else case getTask ref s of
        None \<Rightarrow> Inl (NotFoundError (''Task not found: '' @ ref))
      | Some current \<Rightarrow>
          (let body = or_default (ch_bodyMarkdown changes) (pt_bodyMarkdown current);
               title = or_default (coalesce (ch_title changes)
                 (if ch_bodyMarkdown changes \<noteq> None then parseBodyTitle e body else None))
                 (pt_title current) in
           if js_trim title = [] then Inl (InputError ''Task title is required'')
           else
             (let baseMetadata = filter (\<lambda>kv. fst kv \<notin> set INDEXED_METADATA_KEYS) (pt_metadata current);
                  metadata = or_default (ch_metadata changes) baseMetadata;
                  priority = or_default (ch_priority changes) (pt_priority current);
                  provider = or_default (ch_requiredProvider changes) (pt_requiredProvider current) in
              rbind (case ch_dependsOn changes of
                       Some d \<Rightarrow> normalizeDependencies ref d
                     | None \<Rightarrow> Inr (pt_dependsOn current)) (\<lambda>deps.
                if json_stringify (JObj (revisionMetadata metadata priority provider deps)) =
                     json_stringify (JObj (pt_metadata current)) \<and>
                   title = pt_title current \<and> body = pt_bodyMarkdown current
                then Inr (False, s)
                else if int (pt_revision current) \<noteq> expectedRevision
                then Inl (PlainError (''Task '' @ ref @ '' revision conflict: expected revision '' @
                       show_int expectedRevision @ '', current revision is '' @
                       show_nat (pt_revision current)))
                else rbind (insertRevision e ref (pt_revision current + 1) title body metadata
                              priority provider deps (now_ts e) s) (\<lambda>s1.
                  if \<not> task_columns_ok ref title priority provider
                  then Inl (SqliteError ''CHECK constraint failed: tasks'')
                  else rbind (replaceDependencies ref deps
                    (s1\<lparr>tasks := update_where (\<lambda>t. tr_ref t = ref)
                       (\<lambda>t. t\<lparr>tr_title := title, tr_priority := priority,
                              tr_required_provider := provider, tr_updated_at := now_ts e\<rparr>)
                       (tasks s1)\<rparr>))
                    (\<lambda>s2. Inr (True, s2)))))))"

section \<open>Writing: run bindings\<close>

text \<open>The partial unique index: at most one active binding per task.\<close>

definition one_active_binding :: "task_run_row list \<Rightarrow> bool" where
  "one_active_binding rs \<longleftrightarrow>
     distinct (map rb_task_ref (filter (\<lambda>r. binding_active (rb_state r)) rs))"

definition set_binding_state ::
  "(task_run_row \<Rightarrow> bool) \<Rightarrow> RunBindingState \<Rightarrow> timestamp \<Rightarrow> task_store \<Rightarrow> task_store" where
  "set_binding_state P st now s =
     s\<lparr>task_runs := update_where P (\<lambda>r. r\<lparr>rb_state := st, rb_updated_at := now\<rparr>) (task_runs s)\<rparr>"

definition active_binding_of :: "string \<Rightarrow> task_run_row \<Rightarrow> bool" where
  "active_binding_of ref r \<longleftrightarrow> rb_task_ref r = ref \<and> binding_active (rb_state r)"

definition bindRun ::
  "env \<Rightarrow> string \<Rightarrow> string \<Rightarrow> string option \<Rightarrow> nat option \<Rightarrow> task_store \<Rightarrow>
   (TaskSpecRevision \<times> task_store) result" where
  "bindRun e runId ref agentId revision s =
     (case coalesce revision (map_option pt_revision (getTask ref s)) of
        None \<Rightarrow> Inl (PlainError (''Task not found: '' @ ref))
      | Some pinned \<Rightarrow>
          (let s1 = set_binding_state (active_binding_of ref) RB_failed (now_ts e) s in
           if runId \<in> set (map rb_run_id (task_runs s1))
           then Inl (SqliteError ''UNIQUE constraint failed: task_runs.run_id'')
           else case getRevision ref pinned s1 of
             None \<Rightarrow> Inl (SqliteError ''FOREIGN KEY constraint failed'')
           | Some r \<Rightarrow> Inr (r, s1\<lparr>task_runs := task_runs s1 @
               [\<lparr>rb_run_id = runId, rb_task_ref = ref, rb_spec_revision = pinned,
                 rb_agent_id = agentId, rb_state = RB_claimed, rb_created_at = now_ts e,
                 rb_updated_at = now_ts e\<rparr>]\<rparr>)))"

definition reactivateRun :: "env \<Rightarrow> string \<Rightarrow> task_store \<Rightarrow> task_store result" where
  "reactivateRun e runId s =
     (let s' = set_binding_state (\<lambda>r. rb_run_id r = runId) RB_claimed (now_ts e) s in
      if one_active_binding (task_runs s') then Inr s'
      else Inl (SqliteError ''UNIQUE constraint failed: task_runs.task_ref''))"

definition abandonRun :: "env \<Rightarrow> string \<Rightarrow> task_store \<Rightarrow> task_store" where
  "abandonRun e runId s =
     set_binding_state (\<lambda>r. rb_run_id r = runId \<and> binding_active (rb_state r)) RB_failed (now_ts e) s"

section \<open>Writing: lifecycle transitions\<close>

record TaskTransitionInput =
  ti_cause :: TaskTransitionCause
  ti_to :: TaskStatus
  ti_reason :: "string option"
  ti_runId :: "string option"
  ti_actorId :: "string option"
  ti_idempotencyKey :: "string option"

fun RUN_STATE_FOR_CAUSE :: "TaskTransitionCause \<Rightarrow> RunBindingState option" where
  "RUN_STATE_FOR_CAUSE TC_merge_succeeded = Some RB_finished"
| "RUN_STATE_FOR_CAUSE TC_failure_requeue = Some RB_failed"
| "RUN_STATE_FOR_CAUSE TC_failure_block = Some RB_failed"
| "RUN_STATE_FOR_CAUSE TC_operator_reset = Some RB_cancelled"
| "RUN_STATE_FOR_CAUSE TC_cancel = Some RB_cancelled"
| "RUN_STATE_FOR_CAUSE _ = None"

definition has_transition :: "string \<Rightarrow> task_store \<Rightarrow> bool" where
  "has_transition ref s \<longleftrightarrow> (\<exists>t \<in> set (task_transitions s). tt_task_ref t = ref)"

definition has_idempotency_key :: "string \<Rightarrow> string \<Rightarrow> task_store \<Rightarrow> bool" where
  "has_idempotency_key ref key s \<longleftrightarrow>
     (\<exists>t \<in> set (task_transitions s). tt_task_ref t = ref \<and> tt_idempotency_key t = Some key)"

text \<open>
  \<^verbatim>\<open>INSERT INTO task_transitions\<close> with its triggers: \<^verbatim>\<open>transitions_validate\<close> before the
  insert, the column and uniqueness constraints, and \<^verbatim>\<open>transitions_apply\<close> after it, which
  moves the task row.
\<close>

definition insert_transition :: "transition_row \<Rightarrow> task_store \<Rightarrow> task_store result" where
  "insert_transition t s =
     (case find_task_row (tt_task_ref t) s of
        None \<Rightarrow> Inl (SqliteError ''FOREIGN KEY constraint failed'')
      | Some row \<Rightarrow>
          if tr_status row \<noteq> tt_from t then Inl (SqliteError ''stale task status'')
          else if \<not> transitions_validate (\<not> has_transition (tt_task_ref t) s)
                     (tt_from t) (tt_to t) (tt_cause t)
          then Inl (SqliteError ''invalid task transition'')
          else if tt_to t = TS_blocked \<and>
                  (case tt_reason t of None \<Rightarrow> True | Some r \<Rightarrow> sql_trim r = [])
          then Inl (SqliteError ''CHECK constraint failed: task_transitions'')
          else if (case tt_idempotency_key t of
                     None \<Rightarrow> False | Some k \<Rightarrow> has_idempotency_key (tt_task_ref t) k s)
          then Inl (SqliteError ''UNIQUE constraint failed: task_transitions.task_ref, task_transitions.idempotency_key'')
          else Inr (s\<lparr>task_transitions := task_transitions s @ [t],
            tasks := update_where (\<lambda>r. tr_ref r = tt_task_ref t)
              (\<lambda>r. r\<lparr>tr_status := tt_to t,
                     tr_blocked_reason := (if tt_to t = TS_blocked then tt_reason t else None),
                     tr_updated_at := tt_created_at t\<rparr>) (tasks s)\<rparr>))"

text \<open>The run binding follows its task.\<close>

definition move_binding ::
  "timestamp \<Rightarrow> string \<Rightarrow> TaskStatus \<Rightarrow> TaskTransitionCause \<Rightarrow> task_store \<Rightarrow> task_store" where
  "move_binding now ref from cause s =
     (let s1 = (if cause = TC_run_start
                then set_binding_state (\<lambda>r. rb_task_ref r = ref \<and> rb_state r = RB_claimed)
                       RB_in_progress now s
                else s) in
      case RUN_STATE_FOR_CAUSE cause of
        None \<Rightarrow> s1
      | Some st \<Rightarrow> if task_active from then set_binding_state (active_binding_of ref) st now s1 else s1)"

definition applyTransition :: "env \<Rightarrow> string \<Rightarrow> TaskTransitionInput \<Rightarrow> task_store \<Rightarrow> task_store result" where
  "applyTransition e ref input s =
     (case getTask ref s of
        None \<Rightarrow> Inl (PlainError (''Task not found: '' @ ref))
      | Some task \<Rightarrow>
          if truthy (ti_idempotencyKey input) \<and>
             has_idempotency_key ref (the (ti_idempotencyKey input)) s
          then Inr s
          else rbind (insert_transition
                  \<lparr>tt_task_ref = ref, tt_from = pt_status task, tt_to = ti_to input,
                   tt_cause = ti_cause input, tt_reason = ti_reason input,
                   tt_run_id = ti_runId input, tt_actor_id = ti_actorId input,
                   tt_idempotency_key = ti_idempotencyKey input, tt_created_at = now_ts e\<rparr> s)
                (\<lambda>s1. Inr (move_binding (now_ts e) ref (pt_status task) (ti_cause input) s1)))"

definition mk_transition ::
  "TaskTransitionCause \<Rightarrow> TaskStatus \<Rightarrow> string option \<Rightarrow> string option \<Rightarrow> string option \<Rightarrow> TaskTransitionInput" where
  "mk_transition cause to run actor reason =
     \<lparr>ti_cause = cause, ti_to = to, ti_reason = reason, ti_runId = run, ti_actorId = actor,
      ti_idempotencyKey = None\<rparr>"

text \<open>\<^verbatim>\<open>ProjectTaskStore.transition\<close>, the single-transition entry point.\<close>

definition store_transition ::
  "env \<Rightarrow> string \<Rightarrow> TaskTransitionCause \<Rightarrow> TaskStatus \<Rightarrow> string option \<Rightarrow> string option \<Rightarrow>
   task_store \<Rightarrow> task_store result" where
  "store_transition e ref cause to reason key s =
     applyTransition e ref \<lparr>ti_cause = cause, ti_to = to, ti_reason = reason, ti_runId = None,
       ti_actorId = None, ti_idempotencyKey = key\<rparr> s"

text \<open>The dependencies of a task that are missing or neither done nor released.\<close>

definition waiting_dependencies :: "string \<Rightarrow> task_store \<Rightarrow> string list" where
  "waiting_dependencies ref s =
     filter (\<lambda>d. case find_task_row d s of
                   None \<Rightarrow> True
                 | Some row \<Rightarrow> \<not> task_finished (tr_status row)) (dependencies ref s)"

definition store_claimTask ::
  "env \<Rightarrow> string \<Rightarrow> string \<Rightarrow> string \<Rightarrow> task_store \<Rightarrow> (TaskSpecRevision \<times> task_store) result" where
  "store_claimTask e ref runId agentId s =
     (case getTask ref s of
        None \<Rightarrow> Inl (PlainError (''Task not found: '' @ ref))
      | Some task \<Rightarrow>
          if pt_status task \<noteq> TS_todo
          then Inl (PlainError (''Task not claimable (status: '' @ status_str (pt_status task) @ ''): '' @ ref))
          else if truthy (ds_owner (pt_dispatch task)) \<and> ds_owner (pt_dispatch task) \<noteq> Some agentId
          then Inl (PlainError (''Task '' @ ref @ '' is reserved for agent '' @
                 quoted (the (ds_owner (pt_dispatch task))) @ '' - claiming agent '' @ quoted agentId @ '' is not the owner''))
          else if waiting_dependencies ref s \<noteq> []
          then Inl (PlainError (''Task '' @ ref @ '' is waiting for dependencies: '' @
                 join_with '', '' (waiting_dependencies ref s)))
          else rbind (applyTransition e ref (mk_transition TC_claim TS_claimed (Some runId) (Some agentId) None) s)
                 (bindRun e runId ref (Some agentId) None))"

section \<open>Writing: dispatch state, imports and plans\<close>

text \<open>Each field is \<open>None\<close> when the caller leaves it out.\<close>

record DispatchUpdate =
  du_owner :: "string option option"
  du_planningState :: "string option option"
  du_delegatedBy :: "string option option"
  du_taskType :: "string option option"
  du_requeueEligibleAfter :: "timestamp option option"
  du_attemptCount :: "nat option"

definition dispatch_columns_ok :: "task_row \<Rightarrow> bool" where
  "dispatch_columns_ok t \<longleftrightarrow>
     (case tr_planning_state t of None \<Rightarrow> True | Some p \<Rightarrow> p \<in> {''ready_for_dispatch'', ''archived''}) \<and>
     (case tr_task_type t of None \<Rightarrow> True | Some p \<Rightarrow> p \<in> set TASK_TYPES)"

definition apply_dispatch_update :: "DispatchUpdate \<Rightarrow> task_row \<Rightarrow> task_row" where
  "apply_dispatch_update u t =
     t\<lparr>tr_owner := or_default (du_owner u) (tr_owner t),
       tr_planning_state := or_default (du_planningState u) (tr_planning_state t),
       tr_delegated_by := or_default (du_delegatedBy u) (tr_delegated_by t),
       tr_task_type := or_default (du_taskType u) (tr_task_type t),
       tr_requeue_eligible_after := or_default (du_requeueEligibleAfter u) (tr_requeue_eligible_after t),
       tr_attempt_count := or_default (du_attemptCount u) (tr_attempt_count t)\<rparr>"

definition setDispatchState :: "string \<Rightarrow> DispatchUpdate \<Rightarrow> task_store \<Rightarrow> task_store result" where
  "setDispatchState ref u s =
     (let ts = update_where (\<lambda>t. tr_ref t = ref) (apply_dispatch_update u) (tasks s) in
      if list_all (\<lambda>t. tr_ref t = ref \<longrightarrow> dispatch_columns_ok t) ts then Inr (s\<lparr>tasks := ts\<rparr>)
      else Inl (SqliteError ''CHECK constraint failed: tasks''))"

definition recordImport :: "env \<Rightarrow> string \<Rightarrow> nat \<Rightarrow> string \<Rightarrow> string \<Rightarrow> task_store \<Rightarrow> task_store result" where
  "recordImport e ref revno path h s =
     (if length h \<noteq> 64 then Inl (SqliteError ''CHECK constraint failed: task_imports'')
      else if getRevision ref revno s = None then Inl (SqliteError ''FOREIGN KEY constraint failed'')
      else Inr (s\<lparr>task_imports := task_imports s @ [\<lparr>im_task_ref = ref, im_revision = revno,
             im_source_path = path, im_file_sha256 = h, im_imported_at = now_ts e\<rparr>]\<rparr>))"

text \<open>Insert or replace a plan; the result says whether anything changed.\<close>

definition savePlan ::
  "env \<Rightarrow> nat \<Rightarrow> string \<Rightarrow> string \<Rightarrow> string \<Rightarrow> payload \<Rightarrow> string option \<Rightarrow> task_store \<Rightarrow>
   (bool \<times> task_store) result" where
  "savePlan e planId name title body metadata sourcePath s =
     (let h = sha256 e body; mj = json_stringify (JObj metadata);
          existing = List.find (\<lambda>p. pl_plan_id p = planId) (plan_documents s);
          upd = (\<lambda>p. p\<lparr>pl_name := name, pl_title := title, pl_body_markdown := body,
                        pl_content_hash := h, pl_metadata_json := mj,
                        pl_source_path := sourcePath, pl_updated_at := now_ts e\<rparr>) in
      if (case existing of Some p \<Rightarrow> pl_content_hash p = h \<and> pl_metadata_json p = mj | None \<Rightarrow> False)
      then Inr (False, s)
      else if sql_trim name = [] \<or> length h \<noteq> 64
      then Inl (SqliteError ''CHECK constraint failed: plan_documents'')
      else if existing \<noteq> None
      then Inr (True, s\<lparr>plan_documents :=
             update_where (\<lambda>p. pl_plan_id p = planId) upd (plan_documents s)\<rparr>)
      else Inr (True, s\<lparr>plan_documents := plan_documents s @
             [\<lparr>pl_plan_id = planId, pl_name = name, pl_title = title, pl_body_markdown = body,
               pl_content_hash = h, pl_metadata_json = mj, pl_source_path = sourcePath,
               pl_created_at = now_ts e, pl_updated_at = now_ts e\<rparr>]\<rparr>))"

end
