(* ===== verification/Task_Store_Proofs.thy ===== *)
theory Task_Store_Proofs
  imports Task_Store
begin

text \<open>
  Correctness of the task store: the integrity invariant \<open>store_inv\<close> (unique task
  references, gap-free immutable revisions, at most one active run binding per task and
  only while the task is claimed or in progress, a complete and legal transition history
  for every status), that every operation keeps it, and the functional behaviour of the
  operations.
\<close>

section \<open>The invariant\<close>

definition refs_ok :: "task_store \<Rightarrow> bool" where
  "refs_ok s \<longleftrightarrow> distinct (map tr_ref (tasks s))"

definition revs_ok :: "task_store \<Rightarrow> bool" where
  "revs_ok s \<longleftrightarrow>
     (\<forall>t \<in> set (tasks s). \<exists>n \<ge> 1. map rv_revision (revisions_of (tr_ref t) s) = [1..<Suc n]) \<and>
     (\<forall>r \<in> set (task_spec_revisions s). rv_task_ref r \<in> tr_ref ` set (tasks s))"

definition bindings_ok :: "task_store \<Rightarrow> bool" where
  "bindings_ok s \<longleftrightarrow>
     distinct (map rb_run_id (task_runs s)) \<and> one_active_binding (task_runs s) \<and>
     (\<forall>r \<in> set (task_runs s). getRevision (rb_task_ref r) (rb_spec_revision r) s \<noteq> None) \<and>
     (\<forall>r \<in> set (task_runs s). binding_active (rb_state r) \<longrightarrow>
        (\<forall>t \<in> set (tasks s). tr_ref t = rb_task_ref r \<longrightarrow> task_active (tr_status t)))"

definition history :: "string \<Rightarrow> task_store \<Rightarrow> (TaskStatus \<times> TaskTransitionCause) list" where
  "history ref s =
     map (\<lambda>t. (tt_to t, tt_cause t)) (filter (\<lambda>t. tt_task_ref t = ref) (task_transitions s))"

definition history_ok :: "task_store \<Rightarrow> bool" where
  "history_ok s \<longleftrightarrow>
     (\<forall>t \<in> set (tasks s). contract.path TS_todo (history (tr_ref t) s) \<and>
        tr_status t = last (TS_todo # map fst (history (tr_ref t) s))) \<and>
     (\<forall>t \<in> set (task_transitions s). tt_task_ref t \<in> tr_ref ` set (tasks s))"

definition store_inv :: "task_store \<Rightarrow> bool" where
  "store_inv s \<longleftrightarrow> refs_ok s \<and> revs_ok s \<and> bindings_ok s \<and> history_ok s"

lemma store_inv_empty: "store_inv empty_store"
  by (simp add: store_inv_def refs_ok_def revs_ok_def bindings_ok_def history_ok_def
        one_active_binding_def empty_store_def)

section \<open>Lookup lemmas\<close>

lemma find_task_rowD: "find_task_row ref s = Some row \<Longrightarrow> row \<in> set (tasks s) \<and> tr_ref row = ref"
  by (auto simp: find_task_row_def dest: find_in_set)

lemma find_task_row_None: "find_task_row ref s = None \<longleftrightarrow> ref \<notin> tr_ref ` set (tasks s)"
  by (auto simp: find_task_row_def find_None_iff_set)

lemma find_task_row_in: "refs_ok s \<Longrightarrow> t \<in> set (tasks s) \<Longrightarrow> find_task_row (tr_ref t) s = Some t"
  unfolding refs_ok_def find_task_row_def by (rule find_distinct_key)

lemma getRevisionD:
  "getRevision ref n s = Some r \<Longrightarrow>
     r \<in> set (task_spec_revisions s) \<and> rv_task_ref r = ref \<and> rv_revision r = n"
  by (auto simp: getRevision_def dest: find_in_set)

lemma getRevision_None:
  "getRevision ref n s = None \<longleftrightarrow>
     (\<forall>r \<in> set (task_spec_revisions s). \<not> (rv_task_ref r = ref \<and> rv_revision r = n))"
  by (simp add: getRevision_def find_None_iff_set)

lemma getTask_Some:
  "getTask ref s = Some t \<longleftrightarrow>
     (\<exists>row r. find_task_row ref s = Some row \<and> latest_revision ref s = Some r \<and>
        t = toTask row r (dependencies ref s))"
  by (auto simp: getTask_def split: option.splits)

lemma toTask_sel [simp]:
  "pt_ref (toTask row r d) = tr_ref row" "pt_status (toTask row r d) = tr_status row"
  "pt_revision (toTask row r d) = rv_revision r" "pt_title (toTask row r d) = tr_title row"
  "pt_bodyMarkdown (toTask row r d) = rv_body_markdown r"
  "pt_metadata (toTask row r d) = rv_metadata r"
  "pt_dependsOn (toTask row r d) = d" "ds_owner (pt_dispatch (toTask row r d)) = tr_owner row"
  "pt_attemptCount (toTask row r d) = tr_attempt_count row"
  by (simp_all add: toTask_def)

lemma fold_max_upt: "a \<le> n \<Longrightarrow> fold max [a..<Suc n] (m::nat) = max m n"
proof (induction n)
  case 0
  then show ?case by simp
next
  case (Suc n)
  show ?case
  proof (cases "a \<le> n")
    case True
    with Suc.IH show ?thesis by simp
  next
    case False
    with Suc.prems have "a = Suc n" by simp
    then show ?thesis by simp
  qed
qed

lemma max_revision_upt:
  assumes "map rv_revision (revisions_of ref s) = [1..<Suc n]" and "1 \<le> n"
  shows "max_revision ref s = Some n"
proof -
  have "[1..<Suc n] = 1 # [2..<Suc n]"
    using assms(2) by (simp add: upt_rec numeral_2_eq_2)
  moreover have "fold max [2..<Suc n] (1::nat) = n"
    using assms(2) fold_max_upt [of 2 n 1] by (cases "n = 1") auto
  ultimately show ?thesis
    using assms(1) by (simp add: max_revision_def)
qed

lemma getRevision_le:
  assumes "map rv_revision (revisions_of ref s) = [1..<Suc n]"
  shows "getRevision ref m s \<noteq> None \<longleftrightarrow> 1 \<le> m \<and> m \<le> n"
proof -
  have "set (map rv_revision (revisions_of ref s)) = {1..n}"
    by (auto simp: assms)
  then have "m \<in> rv_revision ` {r \<in> set (task_spec_revisions s). rv_task_ref r = ref} \<longleftrightarrow> m \<in> {1..n}"
    by (simp add: revisions_of_def)
  then show ?thesis by (auto simp: getRevision_None image_iff)
qed

lemma latest_revision_exists:
  assumes "revs_ok s" and "t \<in> set (tasks s)"
  obtains n r where "1 \<le> n" "map rv_revision (revisions_of (tr_ref t) s) = [1..<Suc n]"
    "max_revision (tr_ref t) s = Some n" "latest_revision (tr_ref t) s = Some r" "rv_revision r = n"
proof -
  from assms obtain n where n: "1 \<le> n" "map rv_revision (revisions_of (tr_ref t) s) = [1..<Suc n]"
    by (auto simp: revs_ok_def)
  then have m: "max_revision (tr_ref t) s = Some n" by (intro max_revision_upt)
  from getRevision_le [OF n(2), of n] n(1) obtain r where "getRevision (tr_ref t) n s = Some r" by auto
  with m n that show thesis by (auto simp: latest_revision_def dest: getRevisionD)
qed

lemma latest_revision_self: "latest_revision ref s = Some r \<Longrightarrow> getRevision ref (rv_revision r) s = Some r"
  by (auto simp: latest_revision_def split: option.splits dest: getRevisionD)

lemma getTask_exists:
  assumes "store_inv s" and "find_task_row ref s = Some row"
  obtains r where "latest_revision ref s = Some r" "getTask ref s = Some (toTask row r (dependencies ref s))"
  using assms latest_revision_exists [of s row]
  by (force simp: store_inv_def getTask_Some dest: find_task_rowD)

section \<open>Frame lemmas\<close>

lemma image_tr_ref: "map tr_ref (tasks s') = map tr_ref (tasks s) \<Longrightarrow> tr_ref ` set (tasks s') = tr_ref ` set (tasks s)"
  by (metis set_map)

lemma revs_ok_alt:
  "revs_ok s \<longleftrightarrow>
     (\<forall>ref \<in> tr_ref ` set (tasks s). \<exists>n \<ge> 1. map rv_revision (revisions_of ref s) = [1..<Suc n]) \<and>
     (\<forall>r \<in> set (task_spec_revisions s). rv_task_ref r \<in> tr_ref ` set (tasks s))"
  by (auto simp: revs_ok_def)

lemma refs_revs_cong:
  assumes "map tr_ref (tasks s') = map tr_ref (tasks s)"
    and "task_spec_revisions s' = task_spec_revisions s"
  shows "refs_ok s' = refs_ok s" and "revs_ok s' = revs_ok s"
    and "getRevision ref n s' = getRevision ref n s"
  using assms image_tr_ref [OF assms(1)]
  by (simp_all add: refs_ok_def revs_ok_alt revisions_of_def getRevision_def)

lemma set_binding_state_frame [simp]:
  "tasks (set_binding_state P st now s) = tasks s"
  "task_spec_revisions (set_binding_state P st now s) = task_spec_revisions s"
  "task_transitions (set_binding_state P st now s) = task_transitions s"
  "task_dependencies (set_binding_state P st now s) = task_dependencies s"
  by (simp_all add: set_binding_state_def)

lemma move_binding_frame [simp]:
  "tasks (move_binding now ref from cause s) = tasks s"
  "task_spec_revisions (move_binding now ref from cause s) = task_spec_revisions s"
  "task_transitions (move_binding now ref from cause s) = task_transitions s"
  "task_dependencies (move_binding now ref from cause s) = task_dependencies s"
  by (simp_all add: move_binding_def Let_def split: option.splits)

abbreviation binding_id :: "task_run_row \<Rightarrow> string \<times> string \<times> nat" where
  "binding_id r \<equiv> (rb_run_id r, rb_task_ref r, rb_spec_revision r)"

lemma set_binding_state_ids [simp]:
  "map binding_id (task_runs (set_binding_state P st now s)) = map binding_id (task_runs s)"
  by (simp add: set_binding_state_def map_update_where_same)

lemma move_binding_ids [simp]:
  "map binding_id (task_runs (move_binding now ref from cause s)) = map binding_id (task_runs s)"
  by (simp add: move_binding_def Let_def split: option.splits)

lemma one_active_update:
  assumes "one_active_binding rs"
    and "binding_active st \<Longrightarrow> \<forall>r \<in> set rs. P r \<longrightarrow> binding_active (rb_state r)"
  shows "one_active_binding (update_where P (\<lambda>r. r\<lparr>rb_state := st, rb_updated_at := now\<rparr>) rs)"
proof -
  let ?f = "\<lambda>r. r\<lparr>rb_state := st, rb_updated_at := now\<rparr>"
  let ?A = "\<lambda>r. binding_active (rb_state r)"
  have "map rb_task_ref (filter ?A (update_where P ?f rs)) =
     (if binding_active st then map rb_task_ref (filter ?A rs)
      else map rb_task_ref (filter (\<lambda>r. ?A r \<and> \<not> P r) rs))"
    using assms(2) by (induction rs) auto
  moreover have "distinct (map rb_task_ref (filter (\<lambda>r. ?A r \<and> \<not> P r) rs))"
    using assms(1) distinct_map_filter [of rb_task_ref "filter ?A rs" "\<lambda>r. \<not> P r"]
    by (simp add: one_active_binding_def conj_commute)
  ultimately show ?thesis using assms(1) by (simp add: one_active_binding_def)
qed

lemma one_active_set_binding:
  assumes "one_active_binding (task_runs s)"
    and "binding_active st \<Longrightarrow> \<forall>r \<in> set (task_runs s). P r \<longrightarrow> binding_active (rb_state r)"
  shows "one_active_binding (task_runs (set_binding_state P st now s))"
  using one_active_update [OF assms] by (simp add: set_binding_state_def)

lemma RUN_STATE_inactive: "RUN_STATE_FOR_CAUSE c = Some st \<Longrightarrow> \<not> binding_active st"
  by (cases c) auto

lemma one_active_move_binding:
  assumes "one_active_binding (task_runs s)"
  shows "one_active_binding (task_runs (move_binding now ref from cause s))"
  using assms
  by (auto simp: move_binding_def Let_def intro!: one_active_set_binding
           dest: RUN_STATE_inactive split: option.splits)

lemma in_runs_set_binding_state:
  "r \<in> set (task_runs (set_binding_state P st now s)) \<longleftrightarrow>
     (r \<in> set (task_runs s) \<and> \<not> P r) \<or>
     (\<exists>r0 \<in> set (task_runs s). P r0 \<and> r = r0\<lparr>rb_state := st, rb_updated_at := now\<rparr>)"
  by (auto simp: set_binding_state_def set_update_where image_iff split: if_splits)

text \<open>Every active binding after the move was an active binding before it, and when the cause ends the work of an active task none of that task's is left.\<close>

lemma move_binding_active:
  assumes "r \<in> set (task_runs (move_binding now ref from cause s))" and "binding_active (rb_state r)"
  obtains r0 where "r0 \<in> set (task_runs s)" "binding_active (rb_state r0)" "binding_id r0 = binding_id r"
    and "RUN_STATE_FOR_CAUSE cause \<noteq> None \<Longrightarrow> task_active from \<Longrightarrow> rb_task_ref r \<noteq> ref"
proof -
  define u where "u = (if cause = TC_run_start then set_binding_state (\<lambda>r. rb_task_ref r = ref \<and> rb_state r = RB_claimed) RB_in_progress now s else s)"
  have u: "\<exists>r0 \<in> set (task_runs s). binding_active (rb_state r0) \<and> binding_id r0 = binding_id r1"
    if "r1 \<in> set (task_runs u)" "binding_active (rb_state r1)" for r1
    using that unfolding u_def by (cases "cause = TC_run_start") (force simp: in_runs_set_binding_state)+
  have mb: "move_binding now ref from cause s = (case RUN_STATE_FOR_CAUSE cause of None \<Rightarrow> u
     | Some st \<Rightarrow> if task_active from then set_binding_state (active_binding_of ref) st now u else u)"
    by (simp only: move_binding_def u_def Let_def)
  have ru: "r \<in> set (task_runs u) \<and> (RUN_STATE_FOR_CAUSE cause \<noteq> None \<longrightarrow> task_active from \<longrightarrow> rb_task_ref r \<noteq> ref)"
  proof (cases "RUN_STATE_FOR_CAUSE cause")
    case None
    with assms(1) mb show ?thesis by simp
  next
    case (Some st)
    with assms mb RUN_STATE_inactive [OF Some] show ?thesis
      by (cases "task_active from") (auto simp: in_runs_set_binding_state active_binding_of_def)
  qed
  from u [OF conjunct1 [OF ru] assms(2)] obtain r0 where "r0 \<in> set (task_runs s)"
    "binding_active (rb_state r0)" "binding_id r0 = binding_id r" by blast
  then show thesis using ru by (intro that) auto
qed

section \<open>Transitions\<close>

definition applied :: "transition_row \<Rightarrow> task_store \<Rightarrow> task_store" where
  "applied t s = s\<lparr>task_transitions := task_transitions s @ [t],
     tasks := update_where (\<lambda>r. tr_ref r = tt_task_ref t)
       (\<lambda>r. r\<lparr>tr_status := tt_to t,
              tr_blocked_reason := (if tt_to t = TS_blocked then tt_reason t else None),
              tr_updated_at := tt_created_at t\<rparr>) (tasks s)\<rparr>"

lemma insert_transition_Inr:
  assumes "insert_transition t s = Inr s'"
  obtains row where "find_task_row (tt_task_ref t) s = Some row" "tr_status row = tt_from t"
    "canTransitionTaskStatus (tt_from t) (tt_to t) (tt_cause t)" "s' = applied t s"
  using assms
  by (auto simp: insert_transition_def applied_def transitions_validate_iff split: option.splits if_splits)

lemma applyTransition_Inr:
  assumes "applyTransition e ref input s = Inr s'"
  obtains (noop) "s' = s"
  | (move) row t where "find_task_row ref s = Some row" "tt_task_ref t = ref"
      "tt_from t = tr_status row" "tt_to t = ti_to input" "tt_cause t = ti_cause input"
      "tt_reason t = ti_reason input" "tt_created_at t = now_ts e"
      "canTransitionTaskStatus (tr_status row) (ti_to input) (ti_cause input)"
      "s' = move_binding (now_ts e) ref (tr_status row) (ti_cause input) (applied t s)"
proof -
  from assms obtain row r where row: "find_task_row ref s = Some row" "latest_revision ref s = Some r"
    by (auto simp: applyTransition_def getTask_Some split: option.splits)
  then have g: "getTask ref s = Some (toTask row r (dependencies ref s))" by (simp add: getTask_Some)
  show thesis
  proof (cases "truthy (ti_idempotencyKey input) \<and> has_idempotency_key ref (the (ti_idempotencyKey input)) s")
    case True
    with assms g show thesis by (simp add: applyTransition_def noop)
  next
    case False
    let ?t = "\<lparr>tt_task_ref = ref, tt_from = tr_status row, tt_to = ti_to input,
         tt_cause = ti_cause input, tt_reason = ti_reason input, tt_run_id = ti_runId input,
         tt_actor_id = ti_actorId input, tt_idempotency_key = ti_idempotencyKey input,
         tt_created_at = now_ts e\<rparr>"
    from False assms g obtain s1 where s1: "insert_transition ?t s = Inr s1"
      and s': "s' = move_binding (now_ts e) ref (tr_status row) (ti_cause input) s1"
      by (auto simp: applyTransition_def rbind_Inr_iff simp del: truthy.simps split: if_splits)
    from s1 show thesis
      by (rule insert_transition_Inr) (use row s' move [of row ?t] in auto)
  qed
qed

lemma applied_frame [simp]:
  "map tr_ref (tasks (applied t s)) = map tr_ref (tasks s)"
  "task_spec_revisions (applied t s) = task_spec_revisions s"
  "task_runs (applied t s) = task_runs s"
  "task_dependencies (applied t s) = task_dependencies s"
  "task_transitions (applied t s) = task_transitions s @ [t]"
  by (simp_all add: applied_def map_update_where_same)

lemma in_tasks_applied:
  "x \<in> set (tasks (applied t s)) \<longleftrightarrow>
     (x \<in> set (tasks s) \<and> tr_ref x \<noteq> tt_task_ref t) \<or>
     (\<exists>y \<in> set (tasks s). tr_ref y = tt_task_ref t \<and>
        x = y\<lparr>tr_status := tt_to t,
              tr_blocked_reason := (if tt_to t = TS_blocked then tt_reason t else None),
              tr_updated_at := tt_created_at t\<rparr>)"
  by (auto simp: applied_def set_update_where image_iff split: if_splits)

lemma history_applied:
  "history ref (applied t s) = history ref s @ (if tt_task_ref t = ref then [(tt_to t, tt_cause t)] else [])"
  by (simp add: history_def)

lemma history_move_binding [simp]: "history ref (move_binding now x from cause s) = history ref s"
  by (simp add: history_def)

lemma history_ok_applied:
  assumes "store_inv s" and "find_task_row (tt_task_ref t) s = Some row"
    and "canTransitionTaskStatus (tr_status row) (tt_to t) (tt_cause t)"
  shows "history_ok (applied t s)"
proof -
  have refs: "tr_ref ` set (tasks (applied t s)) = tr_ref ` set (tasks s)"
    by (rule image_tr_ref) simp
  have row: "row \<in> set (tasks s)" "tr_ref row = tt_task_ref t"
    using assms(2) by (auto dest: find_task_rowD)
  have uniq: "y = row" if "y \<in> set (tasks s)" "tr_ref y = tt_task_ref t" for y
    using that assms(1,2) find_task_row_in [of s y] by (auto simp: store_inv_def)
  have h: "contract.path TS_todo (history (tr_ref y) s) \<and> tr_status y = last (TS_todo # map fst (history (tr_ref y) s))"
    if "y \<in> set (tasks s)" for y
    using assms(1) that by (auto simp: store_inv_def history_ok_def)
  have "contract.path TS_todo (history (tr_ref x) (applied t s)) \<and>
      tr_status x = last (TS_todo # map fst (history (tr_ref x) (applied t s)))"
    if x: "x \<in> set (tasks (applied t s))" for x
    using x unfolding in_tasks_applied
  proof (elim disjE conjE bexE)
    assume "x \<in> set (tasks s)" "tr_ref x \<noteq> tt_task_ref t"
    then show ?thesis using h [of x] by (auto simp: history_applied)
  next
    fix y assume y: "y \<in> set (tasks s)" "tr_ref y = tt_task_ref t"
      "x = y\<lparr>tr_status := tt_to t,
              tr_blocked_reason := (if tt_to t = TS_blocked then tt_reason t else None),
              tr_updated_at := tt_created_at t\<rparr>"
    with uniq have "y = row" by blast
    with y h [OF row(1)] assms(3) show ?thesis
      by (simp add: history_applied contract.path_append)
  qed
  moreover have "\<forall>x \<in> set (task_transitions (applied t s)). tt_task_ref x \<in> tr_ref ` set (tasks (applied t s))"
    using assms(1) row unfolding refs by (force simp: store_inv_def history_ok_def)
  ultimately show ?thesis by (auto simp: history_ok_def)
qed

lemma image_binding_ids:
  assumes "map binding_id rs' = map binding_id rs"
  shows "map rb_run_id rs' = map rb_run_id rs"
    and "(\<forall>r \<in> set rs'. Q (rb_task_ref r) (rb_spec_revision r)) \<longleftrightarrow> (\<forall>r \<in> set rs. Q (rb_task_ref r) (rb_spec_revision r))"
proof -
  have "map fst (map binding_id rs') = map fst (map binding_id rs)" using assms by simp
  then show "map rb_run_id rs' = map rb_run_id rs" by (simp add: comp_def)
  have *: "(\<forall>r \<in> set xs. Q (rb_task_ref r) (rb_spec_revision r)) \<longleftrightarrow>
      (\<forall>b \<in> set (map binding_id xs). Q (fst (snd b)) (snd (snd b)))" for xs
    by auto
  show "(\<forall>r \<in> set rs'. Q (rb_task_ref r) (rb_spec_revision r)) \<longleftrightarrow> (\<forall>r \<in> set rs. Q (rb_task_ref r) (rb_spec_revision r))"
    unfolding * assms ..
qed

lemma active_cause_keeps_active:
  assumes "canTransitionTaskStatus from to cause" "task_active from" "RUN_STATE_FOR_CAUSE cause = None"
  shows "task_active to"
  using assms by (cases cause) (auto simp: task_active_iff)

lemma store_inv_transition:
  assumes inv: "store_inv s" and a: "applyTransition e ref input s = Inr s'"
  shows "store_inv s'"
  using a
proof (cases rule: applyTransition_Inr)
  case noop
  with inv show ?thesis by simp
next
  case (move row t)
  let ?m = "move_binding (now_ts e) ref (tr_status row) (ti_cause input)"
  have h: "history_ok (applied t s)"
    using history_ok_applied [OF inv, of t row] move by simp
  have frame: "refs_ok s' = refs_ok s" "revs_ok s' = revs_ok s" "\<And>r n. getRevision r n s' = getRevision r n s"
    unfolding move(9) by (auto intro!: refs_revs_cong)
  have ids: "map binding_id (task_runs s') = map binding_id (task_runs s)"
    by (simp add: move(9))
  have act: "task_active (tr_status x)"
    if r: "r \<in> set (task_runs s')" "binding_active (rb_state r)" and x: "x \<in> set (tasks s')" "tr_ref x = rb_task_ref r" for r x
  proof -
    from r obtain r0 where r0: "r0 \<in> set (task_runs (applied t s))" "binding_active (rb_state r0)" "binding_id r0 = binding_id r"
      and ne: "RUN_STATE_FOR_CAUSE (ti_cause input) \<noteq> None \<Longrightarrow> task_active (tr_status row) \<Longrightarrow> rb_task_ref r \<noteq> ref"
      unfolding move(9) by (rule move_binding_active) (use that in blast)
    have old: "task_active (tr_status y)" if "y \<in> set (tasks s)" "tr_ref y = rb_task_ref r" for y
      using inv r0 that by (auto simp: store_inv_def bindings_ok_def)
    from x(1) have "x \<in> set (tasks (applied t s))" by (simp add: move(9))
    then show ?thesis unfolding in_tasks_applied
    proof (elim disjE conjE bexE)
      assume "x \<in> set (tasks s)" then show ?thesis using old x(2) by blast
    next
      fix y assume y: "y \<in> set (tasks s)" "tr_ref y = tt_task_ref t"
        "x = y\<lparr>tr_status := tt_to t,
              tr_blocked_reason := (if tt_to t = TS_blocked then tt_reason t else None),
              tr_updated_at := tt_created_at t\<rparr>"
      have "find_task_row (tr_ref y) s = Some y"
        using inv y(1) by (simp add: store_inv_def find_task_row_in)
      with y(2) move(1,2) have "y = row" by simp
      with y x(2) move(2) have "rb_task_ref r = ref" by simp
      moreover have "task_active (tr_status row)"
        using old [of y] y x(2) \<open>y = row\<close> by simp
      ultimately have "task_active (tt_to t)"
        using ne active_cause_keeps_active [OF move(8)] move(4) by auto
      with y show ?thesis by simp
    qed
  qed
  have "one_active_binding (task_runs s')"
    unfolding move(9) by (rule one_active_move_binding) (use inv in \<open>simp add: store_inv_def bindings_ok_def\<close>)
  moreover have "\<forall>r \<in> set (task_runs s'). getRevision (rb_task_ref r) (rb_spec_revision r) s' \<noteq> None"
    unfolding frame image_binding_ids(2) [OF ids, of "\<lambda>a b. getRevision a b s \<noteq> None"]
    using inv by (simp add: store_inv_def bindings_ok_def)
  ultimately have "bindings_ok s'"
    using inv act image_binding_ids(1) [OF ids] unfolding store_inv_def bindings_ok_def by metis
  moreover have "history_ok s'"
    using h by (simp add: move(9) history_ok_def)
  ultimately show ?thesis using inv frame by (simp add: store_inv_def)
qed

section \<open>Revisions\<close>

lemma find_task_row_cong: "tasks s' = tasks s \<Longrightarrow> find_task_row ref s' = find_task_row ref s"
  by (simp add: find_task_row_def)

lemma insertRevision_Inr:
  assumes "insertRevision e ref n title body meta pr pv deps now s = Inr s'"
  obtains r where "s' = s\<lparr>task_spec_revisions := task_spec_revisions s @ [r]\<rparr>"
    "rv_task_ref r = ref" "rv_revision r = n" "rv_body_markdown r = body" "rv_title r = title"
    "rv_metadata r = revisionMetadata meta pr pv deps" "find_task_row ref s \<noteq> None" "getRevision ref n s = None"
  using assms by (auto simp: insertRevision_def Let_def split: if_splits)

lemma rfold_insert_dependency:
  assumes "rfold (insert_dependency ref) ds s = Inr s'"
  shows "s' = s\<lparr>task_dependencies := task_dependencies s @ map (Pair ref) ds\<rparr>"
  using assms
  by (induction ds arbitrary: s) (fastforce simp: rbind_Inr_iff insert_dependency_def split: if_splits)+

lemma replaceDependencies_Inr:
  assumes "replaceDependencies ref ds s = Inr s'"
  shows "s' = s\<lparr>task_dependencies := filter (\<lambda>d. fst d \<noteq> ref) (task_dependencies s) @ map (Pair ref) ds\<rparr>"
  using rfold_insert_dependency assms by (fastforce simp: replaceDependencies_def)

lemma store_inv_dependencies [simp]:
  "store_inv (s\<lparr>task_dependencies := d\<rparr>) = store_inv s"
  by (simp add: store_inv_def refs_ok_def revs_ok_def bindings_ok_def history_ok_def history_def
        revisions_of_def getRevision_def)

lemma getRevision_append:
  "getRevision ref n (s\<lparr>task_spec_revisions := task_spec_revisions s @ [r]\<rparr>) =
     (case getRevision ref n s of Some x \<Rightarrow> Some x
      | None \<Rightarrow> if rv_task_ref r = ref \<and> rv_revision r = n then Some r else None)"
  by (auto simp: getRevision_def find_append split: option.splits)

lemma revisions_of_append:
  "revisions_of ref (s\<lparr>task_spec_revisions := task_spec_revisions s @ [r]\<rparr>) =
     revisions_of ref s @ (if rv_task_ref r = ref then [r] else [])"
  by (simp add: revisions_of_def)

text \<open>Adding the next revision of an existing task keeps the invariant.\<close>

lemma store_inv_next_revision:
  assumes inv: "store_inv s" and row: "t \<in> set (tasks s)" "tr_ref t = rv_task_ref r"
    and m: "max_revision (rv_task_ref r) s = Some m" "rv_revision r = Suc m"
  shows "store_inv (s\<lparr>task_spec_revisions := task_spec_revisions s @ [r]\<rparr>)"
proof -
  let ?s = "s\<lparr>task_spec_revisions := task_spec_revisions s @ [r]\<rparr>"
  have "revs_ok ?s"
    unfolding revs_ok_def
  proof (intro conjI ballI)
    fix x assume x: "x \<in> set (tasks ?s)"
    then obtain n where n: "1 \<le> n" "map rv_revision (revisions_of (tr_ref x) s) = [1..<Suc n]"
      using inv by (auto simp: store_inv_def revs_ok_def)
    show "\<exists>n\<ge>1. map rv_revision (revisions_of (tr_ref x) ?s) = [1..<Suc n]"
    proof (cases "tr_ref x = rv_task_ref r")
      case True
      with max_revision_upt [OF n(2,1)] m have "m = n" by simp
      with True n m show ?thesis by (intro exI [of _ "Suc n"]) (simp add: revisions_of_append)
    next
      case False
      with n show ?thesis by (auto simp: revisions_of_append)
    qed
  next
    fix x assume "x \<in> set (task_spec_revisions ?s)"
    then show "rv_task_ref x \<in> tr_ref ` set (tasks ?s)"
      using inv row by (auto simp: store_inv_def revs_ok_def intro: rev_image_eqI)
  qed
  moreover have "bindings_ok ?s"
    using inv by (auto simp: store_inv_def bindings_ok_def getRevision_append split: option.splits)
  ultimately show ?thesis
    using inv by (simp add: store_inv_def refs_ok_def history_ok_def history_def)
qed

text \<open>Changing columns that carry no lifecycle state keeps the invariant.\<close>

lemma store_inv_columns:
  assumes "store_inv s" and "\<And>t. tr_ref (f t) = tr_ref t" "\<And>t. tr_status (f t) = tr_status t"
  shows "store_inv (s\<lparr>tasks := update_where P f (tasks s)\<rparr>)"
proof -
  let ?s = "s\<lparr>tasks := update_where P f (tasks s)\<rparr>"
  have m: "map tr_ref (tasks ?s) = map tr_ref (tasks s)"
    using assms(2) by (simp add: map_update_where_same)
  note cong = refs_revs_cong [of ?s s, OF m]
  have q: "(\<forall>t \<in> set (tasks ?s). Q (tr_ref t) (tr_status t)) \<longleftrightarrow> (\<forall>t \<in> set (tasks s). Q (tr_ref t) (tr_status t))" for Q
    using assms(2,3) by (simp add: ball_update_where)
  have "bindings_ok ?s = bindings_ok s"
    unfolding bindings_ok_def cong(3) [simplified]
    using assms(2,3) by (simp add: ball_update_where)
  moreover have "history_ok ?s = history_ok s"
    unfolding history_ok_def history_def image_tr_ref [OF m]
    using q [of "\<lambda>ref st. contract.path TS_todo (history ref s) \<and> st = last (TS_todo # map fst (history ref s))"]
    by (simp add: history_def)
  ultimately show ?thesis using assms(1) cong by (simp add: store_inv_def)
qed

lemma store_inv_new_task:
  assumes inv: "store_inv s" and new: "find_task_row (tr_ref t) s = None" "tr_status t = TS_todo"
    and r: "rv_task_ref r = tr_ref t" "rv_revision r = 1"
  shows "store_inv (s\<lparr>tasks := tasks s @ [t], task_spec_revisions := task_spec_revisions s @ [r]\<rparr>)" (is "store_inv ?s")
proof -
  have fresh: "tr_ref t \<notin> tr_ref ` set (tasks s)" using new(1) by (simp add: find_task_row_None)
  have norev: "\<forall>x \<in> set (task_spec_revisions s). rv_task_ref x \<noteq> tr_ref t"
    and nohist: "\<forall>x \<in> set (task_transitions s). tt_task_ref x \<noteq> tr_ref t"
    using inv fresh unfolding store_inv_def revs_ok_def history_ok_def by metis+
  have nob: "\<forall>x \<in> set (task_runs s). rb_task_ref x \<noteq> tr_ref t"
  proof
    fix x assume "x \<in> set (task_runs s)"
    then obtain v where "getRevision (rb_task_ref x) (rb_spec_revision x) s = Some v"
      using inv by (auto simp: store_inv_def bindings_ok_def)
    then show "rb_task_ref x \<noteq> tr_ref t" using norev by (auto dest: getRevisionD)
  qed
  have h0: "history (tr_ref t) s = []" using nohist by (simp add: history_def filter_empty_conv)
  have "revisions_of (tr_ref t) s = []" using norev by (simp add: revisions_of_def filter_empty_conv)
  then have "revs_ok ?s"
    using inv r fresh
    by (auto simp: store_inv_def revs_ok_def revisions_of_def intro!: exI [of _ "1::nat"])
  moreover have "bindings_ok ?s"
    using inv nob by (auto simp: store_inv_def bindings_ok_def getRevision_append [of _ _ "s\<lparr>tasks := _\<rparr>", simplified] getRevision_def find_append split: option.splits)
  moreover have "history_ok ?s"
    using inv h0 new(2) by (auto simp: store_inv_def history_ok_def history_def)
  ultimately show ?thesis using inv fresh by (simp add: store_inv_def refs_ok_def)
qed


section \<open>Every operation keeps the invariant\<close>

lemma store_inv_createTask:
  assumes "store_inv s" and "store_createTask e input s = Inr s'"
  shows "store_inv s'"
proof -
  let ?t = "\<lambda>title pr pv now. new_task_row (in_ref input) title pr pv now"
  from assms(2) obtain deps title meta pr pv now s1
    where t: "find_task_row (in_ref input) s = None"
      and s1: "insertRevision e (in_ref input) 1 title (in_bodyMarkdown input) meta pr pv deps now
                 (s\<lparr>tasks := tasks s @ [?t title pr pv now]\<rparr>) = Inr s1"
      and s': "replaceDependencies (in_ref input) deps s1 = Inr s'"
    by (auto simp: store_createTask_def rbind_Inr_iff Let_def split: option.splits if_splits)
  from s1 obtain r where "s1 = s\<lparr>tasks := tasks s @ [?t title pr pv now], task_spec_revisions := task_spec_revisions s @ [r]\<rparr>"
    "rv_task_ref r = in_ref input" "rv_revision r = 1"
    by (rule insertRevision_Inr) auto
  with store_inv_new_task [OF assms(1), of "?t title pr pv now" r] t
  have "store_inv s1" by (simp add: new_task_row_def)
  with replaceDependencies_Inr [OF s'] show ?thesis by simp
qed

text \<open>A revision that is written is numbered one past the current one, which is the expected one.\<close>

lemma store_reviseTask_Inr:
  assumes "store_reviseTask e ref n changes s = Inr (w, s')"
  obtains (same) "w = False" "s' = s"
  | (revised) task r f deps where "w = True" "getTask ref s = Some task" "int (pt_revision task) = n"
      "rv_task_ref r = ref" "rv_revision r = Suc (pt_revision task)"
      "\<And>t. tr_ref (f t) = tr_ref t" "\<And>t. tr_status (f t) = tr_status t"
      "s' = s\<lparr>task_spec_revisions := task_spec_revisions s @ [r],
              tasks := update_where (\<lambda>t. tr_ref t = ref) f (tasks s), task_dependencies := deps\<rparr>"
proof -
  from assms obtain task where task: "getTask ref s = Some task"
    by (auto simp: store_reviseTask_def split: if_splits option.splits)
  show thesis
  proof (cases "s' = s \<and> \<not> w")
    case True
    then show thesis using same by simp
  next
    case False
    with assms task obtain title body meta pr pv deps s1 where
      "int (pt_revision task) = n" "w = True"
      and s1: "insertRevision e ref (pt_revision task + 1) title body meta pr pv deps (now_ts e) s = Inr s1"
      and s2: "replaceDependencies ref deps (s1\<lparr>tasks := update_where (\<lambda>t. tr_ref t = ref)
                       (\<lambda>t. t\<lparr>tr_title := title, tr_priority := pr,
                              tr_required_provider := pv, tr_updated_at := now_ts e\<rparr>)
                       (tasks s1)\<rparr>) = Inr s'"
      by (auto simp: store_reviseTask_def rbind_Inr_iff Let_def simp del: json_stringify.simps split: if_splits)
    moreover from s1 obtain r where "s1 = s\<lparr>task_spec_revisions := task_spec_revisions s @ [r]\<rparr>"
      "rv_task_ref r = ref" "rv_revision r = Suc (pt_revision task)"
      by (rule insertRevision_Inr) auto
    ultimately show thesis using replaceDependencies_Inr [OF s2] task
      by (intro revised [of task r "\<lambda>t. t\<lparr>tr_title := title, tr_priority := pr, tr_required_provider := pv, tr_updated_at := now_ts e\<rparr>"]) simp_all
  qed
qed

lemma store_inv_reviseTask:
  assumes "store_inv s" and "store_reviseTask e ref n changes s = Inr (w, s')"
  shows "store_inv s'"
  using assms(2)
proof (cases rule: store_reviseTask_Inr)
  case same
  with assms(1) show ?thesis by simp
next
  case (revised task r f deps)
  from revised(2) obtain row v where row: "find_task_row ref s = Some row" "latest_revision ref s = Some v"
    "pt_revision task = rv_revision v" by (auto simp: getTask_Some)
  then have m: "max_revision ref s = Some (pt_revision task)"
    by (auto simp: latest_revision_def dest: getRevisionD split: option.splits)
  have "store_inv (s\<lparr>task_spec_revisions := task_spec_revisions s @ [r]\<rparr>)"
    using store_inv_next_revision [OF assms(1), of row r] find_task_rowD [OF row(1)] m revised by simp
  from store_inv_columns [OF this revised(6,7), of "\<lambda>t. tr_ref t = ref"] show ?thesis
    unfolding revised(8) by simp
qed

lemma store_inv_dispatch:
  assumes "store_inv s" and "setDispatchState ref u s = Inr s'"
  shows "store_inv s'"
  using assms store_inv_columns [of s "apply_dispatch_update u"]
  by (auto simp: setDispatchState_def Let_def apply_dispatch_update_def split: if_splits)

lemma binding_state_inv:
  assumes inv: "store_inv s" and one: "one_active_binding (task_runs (set_binding_state P st now s))"
    and act: "binding_active st \<Longrightarrow> \<forall>r \<in> set (task_runs s). P r \<longrightarrow>
       (\<forall>t \<in> set (tasks s). tr_ref t = rb_task_ref r \<longrightarrow> task_active (tr_status t))"
  shows "store_inv (set_binding_state P st now s)"
proof -
  let ?s = "set_binding_state P st now s"
  have ids: "map binding_id (task_runs ?s) = map binding_id (task_runs s)" by simp
  have g: "getRevision a b ?s = getRevision a b s" for a b by (simp add: getRevision_def)
  have "\<forall>r \<in> set (task_runs ?s). getRevision (rb_task_ref r) (rb_spec_revision r) ?s \<noteq> None"
    unfolding g image_binding_ids(2) [OF ids, of "\<lambda>a b. getRevision a b s \<noteq> None"]
    using inv by (simp add: store_inv_def bindings_ok_def)
  moreover have "\<forall>r \<in> set (task_runs ?s). binding_active (rb_state r) \<longrightarrow>
        (\<forall>t \<in> set (tasks ?s). tr_ref t = rb_task_ref r \<longrightarrow> task_active (tr_status t))"
    using inv act by (auto simp: in_runs_set_binding_state store_inv_def bindings_ok_def)
  ultimately have "bindings_ok ?s"
    using one inv image_binding_ids(1) [OF ids] unfolding bindings_ok_def store_inv_def by metis
  moreover have "history_ok ?s = history_ok s" by (simp add: history_ok_def history_def)
  ultimately show ?thesis using inv refs_revs_cong [of ?s s] by (simp add: store_inv_def)
qed

lemma store_inv_abandonRun:
  assumes "store_inv s"
  shows "store_inv (abandonRun e runId s)"
  unfolding abandonRun_def
  by (rule binding_state_inv [OF assms]) (use assms in \<open>auto intro!: one_active_set_binding simp: store_inv_def bindings_ok_def\<close>)

text \<open>A run is reactivated only while its task is claimed or in progress.\<close>

lemma store_inv_reactivateRun:
  assumes "store_inv s" and "reactivateRun e runId s = Inr s'"
    and "\<forall>r \<in> set (task_runs s). rb_run_id r = runId \<longrightarrow>
       (\<forall>t \<in> set (tasks s). tr_ref t = rb_task_ref r \<longrightarrow> task_active (tr_status t))"
  shows "store_inv s'"
  using assms binding_state_inv [OF assms(1), of "\<lambda>r. rb_run_id r = runId" RB_claimed "now_ts e"]
  by (auto simp: reactivateRun_def Let_def split: if_splits)

lemma bindRun_Inr:
  assumes "bindRun e runId ref ag v s = Inr (r, s')"
  obtains pinned where "coalesce v (map_option pt_revision (getTask ref s)) = Some pinned"
    "getRevision ref pinned s = Some r" "runId \<notin> rb_run_id ` set (task_runs s)"
    "s' = (set_binding_state (active_binding_of ref) RB_failed (now_ts e) s)\<lparr>task_runs :=
        task_runs (set_binding_state (active_binding_of ref) RB_failed (now_ts e) s) @
        [\<lparr>rb_run_id = runId, rb_task_ref = ref, rb_spec_revision = pinned, rb_agent_id = ag,
          rb_state = RB_claimed, rb_created_at = now_ts e, rb_updated_at = now_ts e\<rparr>]\<rparr>"
proof -
  let ?u = "set_binding_state (active_binding_of ref) RB_failed (now_ts e) s"
  have i: "rb_run_id ` set (task_runs ?u) = rb_run_id ` set (task_runs s)"
    using image_binding_ids(1) [of "task_runs ?u" "task_runs s"] by (metis set_binding_state_ids set_map)
  have g: "getRevision a b ?u = getRevision a b s" for a b by (simp add: getRevision_def)
  from assms that show thesis
    by (auto simp: bindRun_def Let_def i g split: option.splits if_splits)
qed

section \<open>Claiming\<close>

lemma latest_revision_cong:
  assumes "task_spec_revisions s' = task_spec_revisions s"
  shows "latest_revision ref s' = latest_revision ref s"
  using assms
  by (simp add: latest_revision_def max_revision_def revisions_of_def getRevision_def cong: option.case_cong)

lemma getTask_cong:
  assumes "tasks s' = tasks s" "task_spec_revisions s' = task_spec_revisions s" "task_dependencies s' = task_dependencies s"
  shows "getTask ref s' = getTask ref s"
  using assms latest_revision_cong [OF assms(2)]
  by (simp add: getTask_def find_task_row_def dependencies_def cong: option.case_cong)

text \<open>What a successful claim leaves behind.\<close>

lemma store_claimTask_Inr:
  assumes "store_claimTask e ref runId agentId s = Inr (r, s')"
  obtains row t where "find_task_row ref s = Some row" "latest_revision ref s = Some r"
    "tr_status row = TS_todo" "waiting_dependencies ref s = []"
    "falsy (tr_owner row) \<or> tr_owner row = Some agentId"
    "tt_task_ref t = ref" "tt_to t = TS_claimed" "tt_cause t = TC_claim" "tt_created_at t = now_ts e"
    "runId \<notin> rb_run_id ` set (task_runs s)"
    "s' = (set_binding_state (active_binding_of ref) RB_failed (now_ts e) (applied t s))\<lparr>task_runs :=
        task_runs (set_binding_state (active_binding_of ref) RB_failed (now_ts e) s) @
        [\<lparr>rb_run_id = runId, rb_task_ref = ref, rb_spec_revision = rv_revision r, rb_agent_id = Some agentId,
          rb_state = RB_claimed, rb_created_at = now_ts e, rb_updated_at = now_ts e\<rparr>]\<rparr>"
    "applyTransition e ref (mk_transition TC_claim TS_claimed (Some runId) (Some agentId) None) s = Inr (applied t s)"
proof -
  let ?in = "mk_transition TC_claim TS_claimed (Some runId) (Some agentId) None"
  from assms obtain row v s1 where row: "find_task_row ref s = Some row" "latest_revision ref s = Some v"
    "tr_status row = TS_todo" "waiting_dependencies ref s = []" "falsy (tr_owner row) \<or> tr_owner row = Some agentId"
    and s1: "applyTransition e ref ?in s = Inr s1" and b: "bindRun e runId ref (Some agentId) None s1 = Inr (r, s')"
    by (auto simp: store_claimTask_def getTask_Some rbind_Inr_iff simp del: truthy.simps split: option.splits if_splits)
  from s1 obtain t where t: "tt_task_ref t = ref" "tt_to t = TS_claimed" "tt_cause t = TC_claim"
    "tt_created_at t = now_ts e" "s1 = applied t s"
  proof (cases rule: applyTransition_Inr)
    case noop
    with s1 have "applyTransition e ref ?in s = Inr s" by simp
    then have "insert_transition \<lparr>tt_task_ref = ref, tt_from = tr_status row, tt_to = TS_claimed,
         tt_cause = TC_claim, tt_reason = None, tt_run_id = Some runId,
         tt_actor_id = Some agentId, tt_idempotency_key = None, tt_created_at = now_ts e\<rparr> s = Inr s"
      using row by (auto simp: applyTransition_def getTask_def mk_transition_def rbind_Inr_iff move_binding_def)
    then have "task_transitions (applied \<lparr>tt_task_ref = ref, tt_from = tr_status row, tt_to = TS_claimed,
         tt_cause = TC_claim, tt_reason = None, tt_run_id = Some runId,
         tt_actor_id = Some agentId, tt_idempotency_key = None, tt_created_at = now_ts e\<rparr> s) = task_transitions s"
      by (rule insert_transition_Inr) simp
    then show ?thesis by simp
  next
    case (move row' t)
    then show ?thesis using that [of t] by (simp add: mk_transition_def move_binding_def)
  qed
  have "getTask ref s1 \<noteq> None"
    using b by (auto simp: bindRun_def split: option.splits)
  then obtain row1 v1 where g1: "find_task_row ref s1 = Some row1" "latest_revision ref s1 = Some v1"
     "getTask ref s1 = Some (toTask row1 v1 (dependencies ref s1))"
    by (auto simp: getTask_Some)
  have lr: "latest_revision ref s1 = latest_revision ref s" by (rule latest_revision_cong) (simp add: t)
  then have "v1 = v" using g1 row by simp
  have v: "getRevision ref (rv_revision v) s = Some v"
    using row(2) by (rule latest_revision_self)
  from b show thesis
  proof (rule bindRun_Inr)
    fix pinned assume p: "coalesce None (map_option pt_revision (getTask ref s1)) = Some pinned"
      "getRevision ref pinned s1 = Some r" "runId \<notin> rb_run_id ` set (task_runs s1)"
      "s' = (set_binding_state (active_binding_of ref) RB_failed (now_ts e) s1)\<lparr>task_runs :=
        task_runs (set_binding_state (active_binding_of ref) RB_failed (now_ts e) s1) @
        [\<lparr>rb_run_id = runId, rb_task_ref = ref, rb_spec_revision = pinned, rb_agent_id = Some agentId,
          rb_state = RB_claimed, rb_created_at = now_ts e, rb_updated_at = now_ts e\<rparr>]\<rparr>"
    then have "pinned = rv_revision v" using g1 \<open>v1 = v\<close> by simp
    moreover have "getRevision ref pinned s1 = getRevision ref pinned s"
      by (simp add: t getRevision_def)
    ultimately have "r = v" using p v by simp
    with p t row s1 \<open>pinned = rv_revision v\<close> show thesis
      by (intro that [of row t]) (simp_all add: set_binding_state_def)
  qed
qed

lemma store_inv_claimTask:
  assumes inv: "store_inv s" and c: "store_claimTask e ref runId agentId s = Inr (r, s')"
  shows "store_inv s'"
  using c
proof (rule store_claimTask_Inr)
  fix row t
  assume h: "find_task_row ref s = Some row" "latest_revision ref s = Some r" "runId \<notin> rb_run_id ` set (task_runs s)"
    "tt_task_ref t = ref" "tt_to t = TS_claimed"
    and s': "s' = (set_binding_state (active_binding_of ref) RB_failed (now_ts e) (applied t s))\<lparr>task_runs :=
        task_runs (set_binding_state (active_binding_of ref) RB_failed (now_ts e) s) @
        [\<lparr>rb_run_id = runId, rb_task_ref = ref, rb_spec_revision = rv_revision r, rb_agent_id = Some agentId,
          rb_state = RB_claimed, rb_created_at = now_ts e, rb_updated_at = now_ts e\<rparr>]\<rparr>"
    and a: "applyTransition e ref (mk_transition TC_claim TS_claimed (Some runId) (Some agentId) None) s = Inr (applied t s)"
  let ?u = "set_binding_state (active_binding_of ref) RB_failed (now_ts e) (applied t s)"
  let ?b = "\<lparr>rb_run_id = runId, rb_task_ref = ref, rb_spec_revision = rv_revision r, rb_agent_id = Some agentId,
          rb_state = RB_claimed, rb_created_at = now_ts e, rb_updated_at = now_ts e\<rparr>"
  have ia: "store_inv (applied t s)" by (rule store_inv_transition [OF inv a])
  have iu: "store_inv ?u"
    by (rule binding_state_inv [OF ia]) (use ia in \<open>auto intro!: one_active_set_binding simp: store_inv_def bindings_ok_def\<close>)
  have s'u: "s' = ?u\<lparr>task_runs := task_runs ?u @ [?b]\<rparr>"
    by (simp add: s' set_binding_state_def)
  have "getRevision ref (rv_revision r) s = Some r"
    using h(2) by (rule latest_revision_self)
  then have g: "getRevision ref (rv_revision r) ?u \<noteq> None" by (simp add: getRevision_def)
  have "map rb_run_id (task_runs ?u) = map rb_run_id (task_runs s)"
    using image_binding_ids(1) [of "task_runs ?u" "task_runs s"] by simp
  then have new: "runId \<notin> rb_run_id ` set (task_runs ?u)" using h(3) by (metis set_map)
  have none: "\<forall>x \<in> set (task_runs ?u). binding_active (rb_state x) \<longrightarrow> rb_task_ref x \<noteq> ref"
    by (simp add: set_binding_state_def ball_update_where active_binding_of_def) blast
  have st: "\<forall>x \<in> set (tasks ?u). tr_ref x = ref \<longrightarrow> task_active (tr_status x)"
  proof (intro ballI impI)
    fix x assume "x \<in> set (tasks ?u)" "tr_ref x = ref"
    then have "x \<in> set (tasks (applied t s))" by simp
    then have "tr_status x = TS_claimed"
      unfolding in_tasks_applied using h(4,5) \<open>tr_ref x = ref\<close> by (elim disjE bexE conjE) simp_all
    then show "task_active (tr_status x)" by simp
  qed
  have g': "getRevision x n s' = getRevision x n ?u" for x n by (simp add: s'u getRevision_def)
  have o: "distinct (map rb_run_id (task_runs ?u))" "one_active_binding (task_runs ?u)"
    "\<forall>r \<in> set (task_runs ?u). getRevision (rb_task_ref r) (rb_spec_revision r) ?u \<noteq> None"
    "\<forall>r \<in> set (task_runs ?u). binding_active (rb_state r) \<longrightarrow>
        (\<forall>t \<in> set (tasks ?u). tr_ref t = rb_task_ref r \<longrightarrow> task_active (tr_status t))"
    using iu unfolding store_inv_def bindings_ok_def by blast+
  have "bindings_ok s'" unfolding bindings_ok_def g'
  proof (intro conjI)
    show "distinct (map rb_run_id (task_runs s'))" using o(1) new by (simp add: s'u)
    show "one_active_binding (task_runs s')"
      using o(2) none by (auto simp: s'u one_active_binding_def)
  qed (use o(3,4) g st in \<open>simp_all add: s'u\<close>)
  moreover have "refs_ok s' \<and> revs_ok s' \<and> history_ok s'"
    using iu unfolding s'u store_inv_def
    by (simp add: refs_ok_def revs_ok_def history_ok_def history_def revisions_of_def)
  ultimately show ?thesis by (simp add: store_inv_def)
qed


section \<open>The store as a state machine\<close>

text \<open>
  One committed transaction of the store. The clock and the identifiers differ from step to
  step. \<open>restore\<close> is one iteration of \<^verbatim>\<open>restoreBacklogStatuses\<close>: the task is claimed again
  and the run that held it is reactivated.
\<close>

inductive store_step :: "task_store \<Rightarrow> task_store \<Rightarrow> bool" where
  create: "store_createTask e input s = Inr s' \<Longrightarrow> store_step s s'"
| revise: "store_reviseTask e ref n changes s = Inr (w, s') \<Longrightarrow> store_step s s'"
| transition: "applyTransition e ref input s = Inr s' \<Longrightarrow> store_step s s'"
| claim: "store_claimTask e ref runId agentId s = Inr (r, s') \<Longrightarrow> store_step s s'"
| dispatch: "setDispatchState ref u s = Inr s' \<Longrightarrow> store_step s s'"
| abandon: "store_step s (abandonRun e runId s)"
| restore: "applyTransition e ref (mk_transition TC_claim TS_claimed (Some runId) actor reason) s = Inr s1 \<Longrightarrow>
    find_task_row ref s = Some row \<Longrightarrow> tr_status row = TS_todo \<Longrightarrow>
    \<forall>r \<in> set (task_runs s). rb_run_id r = runId \<longrightarrow> rb_task_ref r = ref \<Longrightarrow>
    reactivateRun e runId s1 = Inr s' \<Longrightarrow> store_step s s'"
| record_import: "recordImport e ref n path h s = Inr s' \<Longrightarrow> store_step s s'"
| save_plan: "savePlan e planId name title body metadata src s = Inr (w, s') \<Longrightarrow> store_step s s'"

inductive store_reachable :: "task_store \<Rightarrow> bool" where
  init: "store_reachable empty_store"
| step: "store_reachable s \<Longrightarrow> store_step s s' \<Longrightarrow> store_reachable s'"

lemma recordImport_frame:
  assumes "recordImport e ref n path h s = Inr s'"
  obtains i where "s' = s\<lparr>task_imports := i\<rparr>"
  using assms by (auto simp: recordImport_def split: if_splits)

lemma savePlan_frame:
  assumes "savePlan e planId name title body metadata src s = Inr (w, s')"
  obtains d where "s' = s\<lparr>plan_documents := d\<rparr>"
proof (cases "s' = s")
  case True
  with that [of "plan_documents s"] show thesis by simp
next
  case False
  with assms that show thesis by (auto simp: savePlan_def Let_def split: if_splits)
qed

lemma store_inv_more [simp]:
  "store_inv (s\<lparr>task_imports := i\<rparr>) = store_inv s"
  "store_inv (s\<lparr>plan_documents := d\<rparr>) = store_inv s"
  by (simp_all add: store_inv_def refs_ok_def revs_ok_def bindings_ok_def history_ok_def history_def
        revisions_of_def getRevision_def)

lemma mk_transition_sel [simp]:
  "ti_cause (mk_transition c t r a x) = c" "ti_to (mk_transition c t r a x) = t"
  "ti_idempotencyKey (mk_transition c t r a x) = None"
  by (simp_all add: mk_transition_def)

lemma claim_transition_active:
  assumes "applyTransition e ref (mk_transition TC_claim TS_claimed runId actor reason) s = Inr s1"
    and "find_task_row ref s = Some row" "tr_status row = TS_todo"
  shows "\<forall>t \<in> set (tasks s1). tr_ref t = ref \<longrightarrow> tr_status t = TS_claimed"
    and "task_runs s1 = task_runs s"
proof -
  from assms obtain t where t: "tt_task_ref t = ref" "tt_to t = TS_claimed" "s1 = applied t s"
  proof -
    let ?t = "\<lparr>tt_task_ref = ref, tt_from = TS_todo, tt_to = TS_claimed, tt_cause = TC_claim, tt_reason = reason, tt_run_id = runId,
         tt_actor_id = actor, tt_idempotency_key = None, tt_created_at = now_ts e\<rparr>"
    from assms have "insert_transition ?t s = Inr s1"
      by (auto simp: applyTransition_def getTask_def mk_transition_def rbind_Inr_iff move_binding_def split: option.splits)
    then show thesis by (rule insert_transition_Inr) (use that [of ?t] in simp)
  qed
  show "task_runs s1 = task_runs s" by (simp add: t)
  show "\<forall>t \<in> set (tasks s1). tr_ref t = ref \<longrightarrow> tr_status t = TS_claimed"
    unfolding t(3) applied_def using t(1,2) by (simp add: ball_update_where)
qed

lemma store_step_inv:
  assumes "store_step s s'" and "store_inv s"
  shows "store_inv s'"
  using assms
proof (induction rule: store_step.induct)
  case (restore e ref runId actor reason s s1 row s')
  have i: "store_inv s1" using restore.hyps(1) restore.prems by (rule store_inv_transition [rotated])
  note c = claim_transition_active [OF restore.hyps(1,2,3)]
  show ?case using c restore.hyps(4)
    by (intro store_inv_reactivateRun [OF i restore.hyps(5)]) auto
qed (auto intro: store_inv_createTask store_inv_reviseTask store_inv_transition store_inv_claimTask
       store_inv_dispatch store_inv_abandonRun elim!: recordImport_frame savePlan_frame)

lemma store_reachable_store_inv: "store_reachable s \<Longrightarrow> store_inv s"
  by (induction rule: store_reachable.induct) (auto intro: store_inv_empty store_step_inv)

end
