(* ===== verification/Task_Store_Props.thy ===== *)
theory Task_Store_Props
  imports Task_Store_Proofs
begin

text \<open>
  The properties of the task store: the integrity invariant over every reachable store, what a
  claim does and when it succeeds, pinned specifications, optimistic concurrency of edits, how
  a task becomes done, and idempotent transitions; with the concrete store they are
  evaluated on.
\<close>

section \<open>Evaluating the store on concrete inputs\<close>

lemmas store_eval [orc_eval] =
  rbind.simps normalizeDependencies_def js_set_def js_trim_def sql_trim_def is_ws_def char_code_def
  task_columns_ok_def insertRevision_def revisionContentHash_def find_task_row_def new_task_row_def
  replaceDependencies_def getRevision_def TASK_PRIORITIES_def now_ts_def Let_def store_createTask_def
  revisionMetadata_def getTask_def latest_revision_def max_revision_def revisions_of_def
  dependencies_def toTask_def waiting_dependencies_def store_claimTask_def applyTransition_def
  mk_transition_def insert_transition_def has_transition_def has_idempotency_key_def
  transitions_validate_def move_binding_def bindRun_def set_binding_state_def active_binding_of_def
  one_active_binding_def getRunSpec_def activeRunId_def empty_store_def insert_dependency_def

definition spec0 :: TaskSpecInput where
  "spec0 = \<lparr>in_ref = ''f/a'', in_title = Some ''T'', in_bodyMarkdown = ''b'', in_priority = None,
     in_requiredProvider = None, in_metadata = None, in_dependsOn = None, in_createdAt = None\<rparr>"

definition rev0 :: "string \<Rightarrow> nat \<Rightarrow> TaskSpecRevision" where
  "rev0 body n = \<lparr>rv_task_ref = ''f/a'', rv_revision = n, rv_content_hash = replicate 64 (CHR ''0''),
     rv_body_markdown = body, rv_title = ''T'',
     rv_metadata = [(''priority'', JStr ''normal''), (''required_provider'', JNull), (''depends_on'', JArr [])],
     rv_created_at = Ts 0\<rparr>"

definition store0 :: task_store where
  "store0 = empty_store\<lparr>tasks := [new_task_row ''f/a'' ''T'' ''normal'' None (Ts 0)],
     task_spec_revisions := [rev0 ''b'' 1]\<rparr>"

lemma store0_created: "store_createTask env0 spec0 empty_store = Inr store0"
  by (simp add: store0_def rev0_def spec0_def env0_def orc_eval del: json_stringify.simps)

lemma store0_reachable: "store_reachable store0"
  using store_reachable.step [OF store_reachable.init create [OF store0_created]] .

lemma store0_inv: "store_inv store0"
  by (rule store_reachable_store_inv [OF store0_reachable])

definition claim0 :: transition_row where
  "claim0 = \<lparr>tt_task_ref = ''f/a'', tt_from = TS_todo, tt_to = TS_claimed, tt_cause = TC_claim,
     tt_reason = None, tt_run_id = Some ''run-1'', tt_actor_id = Some ''w'', tt_idempotency_key = None,
     tt_created_at = Ts 0\<rparr>"

definition binding0 :: task_run_row where
  "binding0 = \<lparr>rb_run_id = ''run-1'', rb_task_ref = ''f/a'', rb_spec_revision = 1, rb_agent_id = Some ''w'',
     rb_state = RB_claimed, rb_created_at = Ts 0, rb_updated_at = Ts 0\<rparr>"

definition store1 :: task_store where
  "store1 = (applied claim0 store0)\<lparr>task_runs := [binding0]\<rparr>"

lemma store1_claimed: "store_claimTask env0 ''f/a'' ''run-1'' ''w'' store0 = Inr (rev0 ''b'' 1, store1)"
  by (simp add: store1_def claim0_def applied_def binding0_def store0_def rev0_def env0_def orc_eval)

section \<open>Properties of the store\<close>



lemma find_task_row_applied:
  "find_task_row ref (applied t s) =
     (if ref = tt_task_ref t then map_option (\<lambda>r. r\<lparr>tr_status := tt_to t,
         tr_blocked_reason := (if tt_to t = TS_blocked then tt_reason t else None),
         tr_updated_at := tt_created_at t\<rparr>) (find_task_row ref s) else find_task_row ref s)"
  unfolding find_task_row_def applied_def by (simp add: find_update_where)

lemma set_binding_state_none_active:
  "\<forall>r \<in> set (task_runs (set_binding_state (active_binding_of ref) RB_failed now s)). \<not> active_binding_of ref r"
  by (simp add: set_binding_state_def ball_update_where) (simp add: active_binding_of_def)

lemma rb_run_id_set_binding_state:
  "rb_run_id ` set (task_runs (set_binding_state P st now s)) = rb_run_id ` set (task_runs s)"
  using image_binding_ids(1) [OF set_binding_state_ids [of P st now s]] by (metis set_map)

lemma claim_effect:
  assumes "store_claimTask e ref runId agentId s = Inr (r, s')"
  shows "map_option tr_status (find_task_row ref s') = Some TS_claimed \<and>
    activeRunId ref s' = Some runId \<and> getRunSpec runId s' = Some r \<and> latest_revision ref s = Some r \<and>
    (\<forall>other. other \<noteq> ref \<longrightarrow> find_task_row other s' = find_task_row other s)"
  using assms
proof (cases rule: store_claimTask_Inr)
  case (1 row t)
  let ?u = "set_binding_state (active_binding_of ref) RB_failed (now_ts e) s"
  have f: "find_task_row x s' = find_task_row x (applied t s)" for x
    by (simp add: 1(11) find_task_row_def)
  have g: "getRevision x n s' = getRevision x n s" for x n by (simp add: 1(11) getRevision_def)
  have r: "getRevision ref (rv_revision r) s = Some r"
    using 1(2) by (rule latest_revision_self)
  have n1: "List.find (\<lambda>x. rb_task_ref x = ref \<and> binding_active (rb_state x)) (task_runs ?u) = None"
    using set_binding_state_none_active [of ref "now_ts e" s] by (simp add: find_None_iff_set active_binding_of_def)
  have n2: "List.find (\<lambda>x. rb_run_id x = runId) (task_runs ?u) = None"
    using 1(10) rb_run_id_set_binding_state [of "active_binding_of ref" RB_failed "now_ts e" s]
    unfolding find_None_iff_set by (metis image_eqI)
  have a: "activeRunId ref s' = Some runId"
    by (simp add: activeRunId_def 1(11) find_append n1)
  have b: "getRunSpec runId s' = Some r"
  proof -
    have "List.find (\<lambda>x. rb_run_id x = runId) (task_runs s') =
      Some \<lparr>rb_run_id = runId, rb_task_ref = ref, rb_spec_revision = rv_revision r,
        rb_agent_id = Some agentId, rb_state = RB_claimed, rb_created_at = now_ts e, rb_updated_at = now_ts e\<rparr>"
      by (simp add: 1(11) find_append n2)
    then show ?thesis using r by (simp add: getRunSpec_def g)
  qed
  have c: "map_option tr_status (find_task_row ref s') = Some TS_claimed"
    unfolding f find_task_row_applied using 1(1,6,7) by simp
  have "\<forall>other. other \<noteq> ref \<longrightarrow> find_task_row other s' = find_task_row other s"
    unfolding f find_task_row_applied 1(6) by simp
  with a b c 1(2) show ?thesis by blast
qed

text \<open>
  A successful claim moves the task to \<^verbatim>\<open>claimed\<close>, makes the new run the task's only active
  run, and pins that run to the revision that was the latest when the task was claimed; no
  other task changes status.
\<close>

theorem claim_takes_task:
  assumes "store_claimTask e ref runId agentId s = Inr (r, s')"
  shows "map_option tr_status (find_task_row ref s') = Some TS_claimed \<and>
    activeRunId ref s' = Some runId \<and> getRunSpec runId s' = Some r \<and> latest_revision ref s = Some r \<and>
    (\<forall>other. other \<noteq> ref \<longrightarrow> find_task_row other s' = find_task_row other s)"
  by (rule claim_effect [OF assms])

theorem claim_takes_task_witness:
  "store_claimTask env0 ''f/a'' ''run-1'' ''w'' store0 = Inr (rev0 ''b'' 1, store1) \<and>
   activeRunId ''f/a'' store1 = Some ''run-1''"
  using claim_takes_task [OF store1_claimed] store1_claimed by simp


section \<open>Pinned specifications\<close>

text \<open>Revision rows are only ever appended, and bindings keep their run, task and revision.\<close>

definition extends :: "task_store \<Rightarrow> task_store \<Rightarrow> bool" where
  "extends s s' \<longleftrightarrow> (\<exists>rs bs. task_spec_revisions s' = task_spec_revisions s @ rs \<and>
     map binding_id (task_runs s') = map binding_id (task_runs s) @ bs)"

lemma extends_refl [simp]:
  "extends s s" "extends s (s\<lparr>task_imports := i\<rparr>)" "extends s (s\<lparr>plan_documents := d\<rparr>)"
  by (simp_all add: extends_def)

lemma extends_trans: "extends s t \<Longrightarrow> extends t u \<Longrightarrow> extends s u"
  by (auto simp: extends_def)

lemma applyTransition_extends:
  assumes "applyTransition e ref input s = Inr s'"
  shows "extends s s'"
  using assms by (cases rule: applyTransition_Inr) (auto simp: extends_def)

lemma set_binding_state_extends: "extends s (set_binding_state P st now s)"
  by (simp add: extends_def)

lemma reactivateRun_extends: "reactivateRun e runId s = Inr s' \<Longrightarrow> extends s s'"
  by (auto simp: reactivateRun_def Let_def set_binding_state_extends split: if_splits)

lemma insertRevision_extends:
  "insertRevision e ref n title body meta pr pv deps now s = Inr s' \<Longrightarrow> extends s s'"
  by (erule insertRevision_Inr) (auto simp: extends_def)

lemma store_createTask_extends:
  assumes "store_createTask e input s = Inr s'"
  shows "extends s s'"
proof -
  from assms obtain ref deps t title body meta pr pv now s1
    where s1: "insertRevision e ref 1 title body meta pr pv deps now (s\<lparr>tasks := tasks s @ [t]\<rparr>) = Inr s1"
      and s': "replaceDependencies ref deps s1 = Inr s'"
    by (auto simp: store_createTask_def rbind_Inr_iff Let_def split: option.splits if_splits)
  from insertRevision_extends [OF s1] replaceDependencies_Inr [OF s']
  show ?thesis by (simp add: extends_def)
qed

lemma store_claimTask_extends:
  assumes "store_claimTask e ref runId agentId s = Inr (r, s')"
  shows "extends s s'"
  using assms by (cases rule: store_claimTask_Inr) (auto simp: extends_def)

lemma store_step_extends: "store_step s s' \<Longrightarrow> extends s s'"
proof (induction rule: store_step.induct)
  case (revise e ref n changes s w s')
  then show ?case by (cases rule: store_reviseTask_Inr) (auto simp: extends_def)
next
  case (dispatch ref u s s')
  then show ?case by (auto simp: setDispatchState_def Let_def extends_def split: if_splits)
next
  case (restore e ref runId actor reason s s1 row s')
  then show ?case using applyTransition_extends reactivateRun_extends extends_trans by blast
qed (auto intro: store_createTask_extends applyTransition_extends store_claimTask_extends
      simp: abandonRun_def set_binding_state_extends elim!: recordImport_frame savePlan_frame)

lemma find_map_key: "map_option f (List.find (\<lambda>x. k (f x) = i) xs) = List.find (\<lambda>y. k y = i) (map f xs)"
  by (induction xs) auto

lemma extends_getRunSpec:
  assumes "extends s s'" and "getRunSpec runId s = Some r"
  shows "getRunSpec runId s' = Some r"
proof -
  let ?f = "\<lambda>s. List.find (\<lambda>x. rb_run_id x = runId) (task_runs s)"
  have k: "map_option binding_id (?f u) = List.find (\<lambda>y. fst y = runId) (map binding_id (task_runs u))" for u
    using find_map_key [of binding_id fst runId "task_runs u"] by simp
  from assms(2) obtain b where b: "?f s = Some b" "getRevision (rb_task_ref b) (rb_spec_revision b) s = Some r"
    by (auto simp: getRunSpec_def split: option.splits)
  obtain bs where bs: "map binding_id (task_runs s') = map binding_id (task_runs s) @ bs"
    using assms(1) by (auto simp: extends_def)
  have "map_option binding_id (?f s') = Some (binding_id b)"
    unfolding k bs find_append using k [of s, symmetric] b(1) by simp
  then obtain b' where b': "?f s' = Some b'" "binding_id b' = binding_id b" by auto
  obtain rs where "task_spec_revisions s' = task_spec_revisions s @ rs"
    using assms(1) by (auto simp: extends_def)
  then have "getRevision (rb_task_ref b) (rb_spec_revision b) s' = Some r"
    using b(2) by (simp add: getRevision_def find_append)
  with b' show ?thesis by (simp add: getRunSpec_def)
qed

text \<open>
  C24. A run keeps the specification it was bound to: whatever transactions follow (edits of the
  task, other claims, requeues, rollbacks), the revision that \<open>getRunSpec\<close> returns for a bound
  run is the same row.
\<close>

theorem pinned_spec_never_changes:
  assumes "store_step\<^sup>*\<^sup>* s s'" and "getRunSpec runId s = Some r"
  shows "getRunSpec runId s' = Some r"
  using assms by (induction rule: rtranclp_induct) (auto dest: store_step_extends extends_getRunSpec)


theorem pinned_spec_never_changes_witness:
  "getRunSpec ''run-1'' (abandonRun env0 ''run-1'' store1) = Some (rev0 ''b'' 1)"
proof (rule pinned_spec_never_changes)
  show "store_step\<^sup>*\<^sup>* store1 (abandonRun env0 ''run-1'' store1)"
    by (rule r_into_rtranclp) (rule abandon)
  show "getRunSpec ''run-1'' store1 = Some (rev0 ''b'' 1)"
    by (simp add: store1_def claim0_def applied_def binding0_def store0_def rev0_def orc_eval)
qed

section \<open>Edits\<close>

lemma max_revision_append:
  assumes "max_revision ref s = Some n" "rv_task_ref r = ref" "rv_revision r = Suc n"
    and "task_spec_revisions s' = task_spec_revisions s @ [r]"
  shows "max_revision ref s' = Some (Suc n)"
  using assms by (auto simp: max_revision_def revisions_of_def split: list.splits)

lemma getTask_max_revision: "getTask ref s = Some t \<Longrightarrow> max_revision ref s = Some (pt_revision t)"
  by (auto simp: getTask_Some latest_revision_def dest: getRevisionD split: option.splits)

text \<open>
  Optimistic concurrency of edits: when an edit that expected revision \<open>n\<close> has written a new
  revision, no other edit that also expected \<open>n\<close> writes one: it either changes nothing or is
  rejected, so no edit is silently lost.
\<close>

theorem concurrent_edit_rejected:
  assumes "store_reviseTask e ref n changes s = Inr (True, s1)"
  shows "\<not> (\<exists>s2. store_reviseTask e2 ref n changes2 s1 = Inr (True, s2))"
proof
  assume "\<exists>s2. store_reviseTask e2 ref n changes2 s1 = Inr (True, s2)"
  then obtain s2 where "store_reviseTask e2 ref n changes2 s1 = Inr (True, s2)" ..
  then obtain task2 where 2: "getTask ref s1 = Some task2" "int (pt_revision task2) = n"
    by (cases rule: store_reviseTask_Inr) auto
  from assms obtain task r where 1: "getTask ref s = Some task" "int (pt_revision task) = n"
    "rv_task_ref r = ref" "rv_revision r = Suc (pt_revision task)"
    "task_spec_revisions s1 = task_spec_revisions s @ [r]"
    by (cases rule: store_reviseTask_Inr) auto
  from max_revision_append [OF getTask_max_revision [OF 1(1)] 1(3,4,5)] getTask_max_revision [OF 2(1)]
  show False using 1(2) 2(2) by simp
qed

definition edit0 :: TaskSpecChanges where
  "edit0 = \<lparr>ch_title = None, ch_bodyMarkdown = Some ''c'', ch_priority = None,
     ch_requiredProvider = None, ch_metadata = None, ch_dependsOn = None\<rparr>"

definition store2 :: task_store where
  "store2 = store0\<lparr>task_spec_revisions := [rev0 ''b'' 1, rev0 ''c'' 2]\<rparr>"

lemma store2_revised: "store_reviseTask env0 ''f/a'' 1 edit0 store0 = Inr (True, store2)"
  by (simp add: store_reviseTask_def edit0_def store2_def store0_def rev0_def env0_def orc_eval
        INDEXED_METADATA_KEYS_def)

theorem concurrent_edit_rejected_witness:
  "store_reviseTask env0 ''f/a'' 1 edit0 store0 = Inr (True, store2) \<and>
   \<not> (\<exists>s2. store_reviseTask env0 ''f/a'' 1 edit0 store2 = Inr (True, s2))"
  using concurrent_edit_rejected [OF store2_revised] store2_revised by blast

section \<open>Completing work\<close>


definition import0 :: transition_row where
  "import0 = \<lparr>tt_task_ref = ''f/a'', tt_from = TS_todo, tt_to = TS_done, tt_cause = TC_migration_import,
     tt_reason = None, tt_run_id = None, tt_actor_id = None, tt_idempotency_key = None, tt_created_at = Ts 0\<rparr>"

lemma store3_step: "store_step store0 (applied import0 store0)"
proof (rule transition)
  show "applyTransition env0 ''f/a'' (mk_transition TC_migration_import TS_done None None None) store0 = Inr (applied import0 store0)"
    by (simp add: import0_def applied_def store0_def rev0_def env0_def orc_eval)
qed

definition row3 :: task_row where
  "row3 = (new_task_row ''f/a'' ''T'' ''normal'' None (Ts 0))\<lparr>tr_status := TS_done\<rparr>"


section \<open>When a claim succeeds\<close>

lemma waiting_iff_not_ready:
  "deriveDependencyReadiness TS_todo (dependencies ref s) (\<lambda>d. map_option tr_status (find_task_row d s)) =
     (RK_ready, []) \<longleftrightarrow> waiting_dependencies ref s = []"
proof -
  have "(\<forall>d \<in> set (dependencies ref s). map_option tr_status (find_task_row d s) = Some TS_done \<or>
            map_option tr_status (find_task_row d s) = Some TS_released) \<longleftrightarrow>
      (\<forall>d \<in> set (dependencies ref s). case find_task_row d s of None \<Rightarrow> False | Some row \<Rightarrow> task_finished (tr_status row))"
    by (intro ball_cong) (auto simp: task_finished_iff split: option.splits)
  then show ?thesis
    by (auto simp: deriveDependencyReadiness_def waiting_dependencies_def Let_def filter_empty_conv split: option.splits)
qed


lemma readiness_ready_todo:
  "deriveDependencyReadiness st ds f = (RK_ready, []) \<Longrightarrow> st = TS_todo"
  by (auto simp: deriveDependencyReadiness_def split: if_splits)

lemma claim_ready_iff:
  assumes inv: "store_inv s" and row: "find_task_row ref s = Some row"
  shows "(\<exists>r s'. store_claimTask e ref runId agentId s = Inr (r, s')) \<longleftrightarrow>
    deriveDependencyReadiness (tr_status row) (dependencies ref s)
      (\<lambda>d. map_option tr_status (find_task_row d s)) = (RK_ready, []) \<and>
    (falsy (tr_owner row) \<or> tr_owner row = Some agentId) \<and>
    runId \<notin> rb_run_id ` set (task_runs s)" (is "?claims \<longleftrightarrow> ?ready \<and> ?owner \<and> ?new")
proof
  assume ?claims
  then obtain r s' where "store_claimTask e ref runId agentId s = Inr (r, s')" by blast
  then show "?ready \<and> ?owner \<and> ?new"
    by (cases rule: store_claimTask_Inr) (use row waiting_iff_not_ready [of ref s] in auto)
next
  assume h: "?ready \<and> ?owner \<and> ?new"
  then have todo: "tr_status row = TS_todo" using readiness_ready_todo by blast
  with h have w: "waiting_dependencies ref s = []" using waiting_iff_not_ready [of ref s] by simp
  obtain r where r: "latest_revision ref s = Some r" "getTask ref s = Some (toTask row r (dependencies ref s))"
    using getTask_exists [OF inv row] .
  let ?t = "\<lparr>tt_task_ref = ref, tt_from = TS_todo, tt_to = TS_claimed, tt_cause = TC_claim, tt_reason = None,
      tt_run_id = Some runId, tt_actor_id = Some agentId, tt_idempotency_key = None, tt_created_at = now_ts e\<rparr>"
  have "insert_transition ?t s = Inr (applied ?t s)"
    using row todo by (simp add: insert_transition_def transitions_validate_iff applied_def)
  then have a: "applyTransition e ref (mk_transition TC_claim TS_claimed (Some runId) (Some agentId) None) s = Inr (applied ?t s)"
    using r todo by (simp add: applyTransition_def mk_transition_def move_binding_def)
  have lr: "latest_revision ref (applied ?t s) = Some r"
    using r latest_revision_cong [of "applied ?t s" s] by simp
  have "find_task_row ref (applied ?t s) \<noteq> None" using row by (simp add: find_task_row_applied)
  with lr obtain row' where g: "getTask ref (applied ?t s) = Some (toTask row' r (dependencies ref (applied ?t s)))"
    by (auto simp: getTask_def split: option.splits)
  have gr: "getRevision ref (rv_revision r) (set_binding_state P st now (applied ?t s)) = Some r" for P st now
    using latest_revision_self [OF r(1)] by (simp add: getRevision_def)
  have new: "runId \<notin> rb_run_id ` set (task_runs (set_binding_state P st now (applied ?t s)))" for P st now
    unfolding rb_run_id_set_binding_state using h by simp
  have "\<exists>x. bindRun e runId ref (Some agentId) None (applied ?t s) = Inr x"
    using g gr new by (auto simp: bindRun_def Let_def)
  then show ?claims
    using h w todo r(2) a by (auto simp: store_claimTask_def)
qed

text \<open>
  C9. The store's claim refines the contract's readiness rule: in a well-formed store a claim of
  an existing task succeeds exactly when \<open>deriveDependencyReadiness\<close> calls the task ready on the
  stored statuses, the task has no owner or is owned by the claiming agent, and the run
  identifier is new.
\<close>

theorem claim_succeeds_iff_ready:
  assumes inv: "store_inv s" and row: "find_task_row ref s = Some row"
  shows "(\<exists>r s'. store_claimTask e ref runId agentId s = Inr (r, s')) \<longleftrightarrow>
    deriveDependencyReadiness (tr_status row) (dependencies ref s)
      (\<lambda>d. map_option tr_status (find_task_row d s)) = (RK_ready, []) \<and>
    (falsy (tr_owner row) \<or> tr_owner row = Some agentId) \<and>
    runId \<notin> rb_run_id ` set (task_runs s)"
  by (rule claim_ready_iff [OF assms])

theorem claim_succeeds_iff_ready_witness:
  "find_task_row ''f/a'' store0 = Some (new_task_row ''f/a'' ''T'' ''normal'' None (Ts 0)) \<and>
   deriveDependencyReadiness (tr_status (new_task_row ''f/a'' ''T'' ''normal'' None (Ts 0)))
      (dependencies ''f/a'' store0) (\<lambda>d. map_option tr_status (find_task_row d store0)) = (RK_ready, [])"
proof -
  have row: "find_task_row ''f/a'' store0 = Some (new_task_row ''f/a'' ''T'' ''normal'' None (Ts 0))"
    by (simp add: find_task_row_def store0_def new_task_row_def)
  from store1_claimed have "\<exists>r s'. store_claimTask env0 ''f/a'' ''run-1'' ''w'' store0 = Inr (r, s')" by blast
  from iffD1 [OF claim_succeeds_iff_ready [OF store0_inv row] this] row show ?thesis by blast
qed

text \<open>
  A repeated idempotency key is a no-op: once a transition of a task was recorded under a key,
  applying any transition of that task under the same key succeeds and changes nothing.
\<close>

theorem repeated_key_is_noop:
  assumes "store_inv s" and "applyTransition e ref input s = Inr s1"
    and "ti_idempotencyKey input = Some key" and "key \<noteq> []"
    and "ti_idempotencyKey again = Some key"
  shows "applyTransition e2 ref again s1 = Inr s1"
proof -
  have inv: "store_inv s1" using assms(1,2) by (rule store_inv_transition)
  obtain task where task: "getTask ref s = Some task"
    using assms(2) by (auto simp: applyTransition_def split: option.splits)
  have "has_idempotency_key ref key s1 \<and> find_task_row ref s1 \<noteq> None"
  proof (cases "has_idempotency_key ref key s")
    case True
    then have "s1 = s" using assms(2,3,4) task by (simp add: applyTransition_def)
    with True task show ?thesis by (auto simp: getTask_Some)
  next
    case False
    let ?t = "\<lparr>tt_task_ref = ref, tt_from = pt_status task, tt_to = ti_to input, tt_cause = ti_cause input,
        tt_reason = ti_reason input, tt_run_id = ti_runId input, tt_actor_id = ti_actorId input,
        tt_idempotency_key = ti_idempotencyKey input, tt_created_at = now_ts e\<rparr>"
    from False assms(2,3) task obtain s0 where s0: "insert_transition ?t s = Inr s0"
      "s1 = move_binding (now_ts e) ref (pt_status task) (ti_cause input) s0"
      by (auto simp: applyTransition_def rbind_Inr_iff)
    from s0(1) have "s0 = applied ?t s" by (rule insert_transition_Inr)
    then have tr: "task_transitions s1 = task_transitions s @ [?t]"
      and f: "find_task_row ref s1 = find_task_row ref (applied ?t s)"
      using s0(2) by (simp_all add: find_task_row_def)
    have "find_task_row ref s \<noteq> None" using task by (auto simp: getTask_Some)
    then have "find_task_row ref s1 \<noteq> None" unfolding f find_task_row_applied by simp
    moreover have "has_idempotency_key ref key s1" unfolding has_idempotency_key_def tr using assms(3) by simp
    ultimately show ?thesis by simp
  qed
  then obtain row where k: "has_idempotency_key ref key s1" and row: "find_task_row ref s1 = Some row" by blast
  obtain r where "getTask ref s1 = Some (toTask row r (dependencies ref s1))"
    using getTask_exists [OF inv row] .
  with k show ?thesis using assms(4,5) by (simp add: applyTransition_def)
qed

definition keyed :: TaskTransitionInput where
  "keyed = \<lparr>ti_cause = TC_cancel, ti_to = TS_cancelled, ti_reason = None, ti_runId = None, ti_actorId = None,
     ti_idempotencyKey = Some ''k''\<rparr>"

theorem repeated_key_is_noop_witness:
  "\<exists>s1. applyTransition env0 ''f/a'' keyed store0 = Inr s1 \<and> s1 \<noteq> store0 \<and> applyTransition env0 ''f/a'' keyed s1 = Inr s1"
proof -
  have "\<exists>s1. applyTransition env0 ''f/a'' keyed store0 = Inr s1 \<and> s1 \<noteq> store0"
    by (simp add: keyed_def store0_def rev0_def env0_def orc_eval)
  then obtain s1 where s1: "applyTransition env0 ''f/a'' keyed store0 = Inr s1" "s1 \<noteq> store0" by blast
  have "applyTransition env0 ''f/a'' keyed s1 = Inr s1"
    by (rule repeated_key_is_noop [OF store0_inv s1(1)]) (simp_all add: keyed_def)
  with s1 show ?thesis by blast
qed

end
