(* ===== verification/Runtime_Db.thy ===== *)
theory Runtime_Db
  imports Domain_Types
begin

text \<open>
  \<^verbatim>\<open>lib/runtimeSchema.ts\<close>: the operational database \<^verbatim>\<open>events.db\<close>. First the migration of its
  schema from any older version; then the tables the other components read and write, each
  a list of rows in rowid order, with the foreign keys that act when a run is deleted. The
  tables \<^verbatim>\<open>messages\<close>, \<^verbatim>\<open>input_requests\<close>, \<^verbatim>\<open>control_leases\<close> and \<^verbatim>\<open>terminals\<close> are created by the
  migration but no modelled operation touches their rows.
\<close>

section \<open>Schema migration\<close>

definition RUNTIME_SCHEMA_VERSION :: nat where "RUNTIME_SCHEMA_VERSION = 7"

definition OPERATIONAL_TABLES :: "string list" where
  "OPERATIONAL_TABLES = [''schema_migrations'', ''runs'', ''sessions'', ''commands'', ''messages'',
     ''input_requests'', ''offsets'', ''control_leases'', ''runtime_cutovers'', ''terminals'']"

text \<open>
  What the migration reads and writes: \<^verbatim>\<open>PRAGMA user_version\<close>, the table names of
  \<^verbatim>\<open>sqlite_master\<close>, the rows of \<^verbatim>\<open>schema_migrations\<close> and the number of rows that
  \<^verbatim>\<open>PRAGMA foreign_key_check\<close> reports.
\<close>

record schema_state =
  user_version :: nat
  sql_tables :: "string list"
  schema_migrations :: "(nat \<times> string) list"
  fk_violations :: nat

definition assertSupportedRuntimeSchemaVersion :: "schema_state \<Rightarrow> unit result" where
  "assertSupportedRuntimeSchemaVersion db =
     (if user_version db > RUNTIME_SCHEMA_VERSION
      then Inl (PlainError (''events.db schema version '' @ show_nat (user_version db) @
             '' is newer than supported version '' @ show_nat RUNTIME_SCHEMA_VERSION @ ''; use a newer orc binary''))
      else Inr ())"

definition migration_name :: "nat \<Rightarrow> string" where
  "migration_name v = [''initial_operational_tables'', ''run_authority_cutover'', ''durable_command_delivery'',
     ''session_supervision'', ''terminal_broker'', ''semantic_message_routing'', ''session_credentials''] ! (v - 1)"

definition inspectRuntimeSchemaDb :: "schema_state \<Rightarrow> bool \<times> nat \<times> string list" where
  "inspectRuntimeSchemaDb db =
     (let v = user_version db;
          m1 = (if v > RUNTIME_SCHEMA_VERSION
                then [''schema version '' @ show_nat v @ '' is newer than supported version '' @ show_nat RUNTIME_SCHEMA_VERSION]
                else if v < RUNTIME_SCHEMA_VERSION
                then [''schema version '' @ show_nat v @ '' requires migration to '' @ show_nat RUNTIME_SCHEMA_VERSION]
                else []);
          m2 = (if v = RUNTIME_SCHEMA_VERSION
                then map (\<lambda>t. ''missing table '' @ t) (filter (\<lambda>t. t \<notin> set (sql_tables db)) OPERATIONAL_TABLES) @
                     (if ''schema_migrations'' \<in> set (sql_tables db)
                      then map (\<lambda>n. ''missing migration record '' @ show_nat n)
                             (filter (\<lambda>n. (n, migration_name n) \<notin> set (schema_migrations db)) [1..<8])
                      else []) @
                     (if fk_violations db > 0 then [show_nat (fk_violations db) @ '' foreign key violation(s)''] else [])
                else [])
      in (m1 @ m2 = [], v, m1 @ m2))"

text \<open>
  The body of the transaction that migrates from version \<open>v\<close> to \<open>v + 1\<close>: the tables it creates,
  the migration record and the new \<^verbatim>\<open>user_version\<close>. Columns added to existing tables appear
  in the row records below.
\<close>

definition migration_tables :: "nat \<Rightarrow> string list" where
  "migration_tables v =
     (if v = 0 then [''schema_migrations'', ''runs'', ''sessions'', ''commands'', ''messages'', ''input_requests'',
                     ''offsets'', ''control_leases'']
      else if v = 1 then [''runtime_cutovers''] else if v = 4 then [''terminals''] else [])"

definition migrate_step :: "nat \<Rightarrow> schema_state \<Rightarrow> schema_state" where
  "migrate_step v db =
     (if user_version db \<noteq> v then db
      else db\<lparr>user_version := Suc v, sql_tables := sql_tables db @ migration_tables v,
             schema_migrations := schema_migrations db @ [(Suc v, migration_name (Suc v))]\<rparr>)"

definition schema_health :: "schema_state \<Rightarrow> schema_state result" where
  "schema_health db =
     (let (ok, _, messages) = inspectRuntimeSchemaDb db in
      if ok then Inr db
      else Inl (PlainError (''events.db schema is inconsistent: '' @ join_with ''; '' messages)))"

definition migrateRuntimeSchema :: "schema_state \<Rightarrow> schema_state result" where
  "migrateRuntimeSchema db =
     rbind (assertSupportedRuntimeSchemaVersion db) (\<lambda>_.
       if user_version db = RUNTIME_SCHEMA_VERSION then schema_health db
       else schema_health (fold migrate_step [0..<7] db))"

text \<open>A database as version \<open>v\<close> left it: the tables and records of the migrations up to \<open>v\<close>.\<close>

definition schema_at :: "nat \<Rightarrow> schema_state \<Rightarrow> bool" where
  "schema_at v db \<longleftrightarrow> user_version db = v \<and> v \<le> RUNTIME_SCHEMA_VERSION \<and> fk_violations db = 0 \<and>
     (\<forall>k < v. set (migration_tables k) \<subseteq> set (sql_tables db) \<and>
              (Suc k, migration_name (Suc k)) \<in> set (schema_migrations db))"

lemma schema_at_step: "schema_at v db \<Longrightarrow> v < RUNTIME_SCHEMA_VERSION \<Longrightarrow> schema_at (Suc v) (migrate_step v db)"
  by (auto simp: schema_at_def migrate_step_def less_Suc_eq)

lemma migrate_step_other: "user_version db \<noteq> v \<Longrightarrow> migrate_step v db = db"
  by (simp add: migrate_step_def)

lemma migrate_fold:
  assumes "schema_at v db" and "v \<le> n" and "n \<le> RUNTIME_SCHEMA_VERSION"
  shows "schema_at n (fold migrate_step [0..<n] db)"
  using assms(2,3)
proof (induction n)
  case 0
  then show ?case using assms(1) by simp
next
  case (Suc n)
  have same: "fold migrate_step [0..<k] db = db" if "k \<le> v" for k
    using that assms(1) by (induction k) (auto simp: schema_at_def migrate_step_other)
  show ?case
  proof (cases "v = Suc n")
    case True
    then show ?thesis using same [of "Suc n"] assms(1) by simp
  next
    case False
    with Suc have "schema_at n (fold migrate_step [0..<n] db)" by simp
    then show ?thesis using schema_at_step Suc.prems by simp
  qed
qed

lemma schema_at_healthy: "schema_at 7 db \<Longrightarrow> schema_health db = Inr db"
proof -
  assume a: "schema_at 7 db"
  have k: "set (migration_tables k) \<subseteq> set (sql_tables db)" "(Suc k, migration_name (Suc k)) \<in> set (schema_migrations db)"
    if "k < 7" for k using a that by (auto simp: schema_at_def)
  have t: "t \<in> set (sql_tables db)" if "t \<in> set OPERATIONAL_TABLES" for t
    using that k(1) [of 0] k(1) [of 1] k(1) [of 4]
    by (auto simp: OPERATIONAL_TABLES_def migration_tables_def)
  have m: "(n, migration_name n) \<in> set (schema_migrations db)" if "n \<in> set [1..<8]" for n
    using that k(2) [of "n - 1"] by auto
  have "filter (\<lambda>t. t \<notin> set (sql_tables db)) OPERATIONAL_TABLES = []"
    and "filter (\<lambda>n. (n, migration_name n) \<notin> set (schema_migrations db)) [1..<8] = []"
    using t m unfolding filter_empty_conv by blast+
  moreover have "user_version db = RUNTIME_SCHEMA_VERSION" "fk_violations db = 0"
    using a by (simp_all add: schema_at_def RUNTIME_SCHEMA_VERSION_def)
  ultimately show ?thesis
    unfolding schema_health_def inspectRuntimeSchemaDb_def Let_def by simp
qed


definition new_schema :: schema_state where
  "new_schema = \<lparr>user_version = 0, sql_tables = [''events''], schema_migrations = [], fk_violations = 0\<rparr>"


section \<open>Tables\<close>

text \<open>
  An event row: the columns the insert extracts, and the stored JSON text (\<open>None\<close> when the text
  does not parse).
\<close>

record event_row =
  er_seq :: nat
  er_event_id :: string
  er_ts :: timestamp
  er_event :: string
  er_agent_id :: "string option"
  er_run_id :: "string option"
  er_task_ref :: "string option"
  er_payload :: "OrcEvent option"

record run_row =
  rn_run_id :: string
  rn_task_ref :: string
  rn_agent_id :: "string option"
  rn_state :: ClaimState
  rn_created_at :: timestamp
  rn_updated_at :: timestamp
  rn_claim_json :: "Claim option"

datatype SessionState = SS_running | SS_recoverable | SS_unknown | SS_offline

record session_row =
  ss_session_id :: string
  ss_run_id :: "string option"
  ss_agent_id :: string
  ss_provider :: string
  ss_state :: SessionState
  ss_provider_ref :: "string option"
  ss_started_at :: timestamp
  ss_updated_at :: timestamp
  ss_transport :: "string option"
  ss_process_pid :: "int option"
  ss_process_start :: "string option"
  ss_owner_id :: "string option"
  ss_owner_expires_at :: "timestamp option"
  ss_state_reason :: "string option"
  ss_credential_hash :: "string option"

datatype CommandState =
    CM_queued | CM_dispatching | CM_sent | CM_accepted | CM_running
  | CM_completed | CM_failed | CM_cancelled | CM_outcome_unknown

record DurableCommand =
  dc_command_id :: string
  dc_run_id :: string
  dc_session_id :: "string option"
  dc_actor_session_id :: "string option"
  dc_actor_id :: string
  dc_recipient_id :: string
  dc_idempotency_key :: string
  dc_kind :: string
  dc_payload :: string
  dc_state :: CommandState
  dc_side_effecting :: bool
  dc_attempt_count :: int
  dc_max_attempts :: int
  dc_next_attempt_at :: "timestamp option"
  dc_deadline_at :: "timestamp option"
  dc_dispatch_started_at :: "timestamp option"
  dc_send_started_at :: "timestamp option"
  dc_created_at :: timestamp
  dc_delivered_at :: "timestamp option"
  dc_acknowledged_at :: "timestamp option"
  dc_terminal_at :: "timestamp option"
  dc_last_error :: "string option"

text \<open>
  \<open>db_event_seq\<close> is the \<^verbatim>\<open>sqlite_sequence\<close> entry of the \<^verbatim>\<open>AUTOINCREMENT\<close> column \<^verbatim>\<open>events.seq\<close>: the
  largest sequence number ever assigned.
\<close>

record runtime_db =
  db_events :: "event_row list"
  db_event_seq :: nat
  db_runs :: "run_row list"
  db_sessions :: "session_row list"
  db_commands :: "DurableCommand list"
  db_offsets :: "(string \<times> nat) list"
  db_cutovers :: "string list"

definition empty_db :: runtime_db where
  "empty_db = \<lparr>db_events = [], db_event_seq = 0, db_runs = [], db_sessions = [], db_commands = [],
     db_offsets = [], db_cutovers = []\<rparr>"

text \<open>
  \<^verbatim>\<open>DELETE FROM runs WHERE run_id = ?\<close> with its foreign keys: a session keeps its row and loses the
  reference, a command goes with its run.
\<close>

definition delete_run :: "string \<Rightarrow> runtime_db \<Rightarrow> runtime_db" where
  "delete_run runId db =
     db\<lparr>db_runs := filter (\<lambda>r. rn_run_id r \<noteq> runId) (db_runs db),
        db_sessions := update_where (\<lambda>s. ss_run_id s = Some runId) (\<lambda>s. s\<lparr>ss_run_id := None\<rparr>) (db_sessions db),
        db_commands := filter (\<lambda>c. dc_run_id c \<noteq> runId) (db_commands db)\<rparr>"

text \<open>The partial unique indexes \<^verbatim>\<open>runs_one_active_task_idx\<close> and \<^verbatim>\<open>sessions_one_running_agent_idx\<close>.\<close>

definition runs_one_active :: "run_row list \<Rightarrow> bool" where
  "runs_one_active rs \<longleftrightarrow> distinct (map rn_task_ref (filter (\<lambda>r. active_state (rn_state r)) rs))"

definition sessions_one_running :: "session_row list \<Rightarrow> bool" where
  "sessions_one_running ss \<longleftrightarrow> distinct (map ss_agent_id (filter (\<lambda>s. ss_state s = SS_running) ss))"

end
