(* ===== verification/Event_Validation.thy ===== *)
theory Event_Validation
  imports Domain_Types
begin

text \<open>
  \<^verbatim>\<open>lib/eventValidation.ts\<close>: the contract every event must meet before it enters the log. The
  compiled JSON schema is the field \<open>validateSchema\<close> of the environment; the event-specific
  invariants are translated here, in the order the source checks them, each as the list of
  messages it pushes.
\<close>

definition FAILURE_POLICY_SET :: "string list" where
  "FAILURE_POLICY_SET = [''requeue'', ''block'']"

definition COMMAND_EVENTS :: "string list" where
  "COMMAND_EVENTS = [''command_queued'', ''command_dispatching'', ''command_send_started'', ''command_sent'',
     ''command_accepted'', ''command_running'', ''command_completed'', ''command_failed'',
     ''command_cancelled'', ''command_outcome_unknown'']"

definition requireTaskRef :: "OrcEvent \<Rightarrow> string list" where
  "requireTaskRef ev =
     (case ev_task_ref ev of
        Some r \<Rightarrow> if TASK_REF_RE r then [] else [''task_ref is required and must match feature/task format'']
      | None \<Rightarrow> [''task_ref is required and must match feature/task format''])"

definition payload_value :: "OrcEvent \<Rightarrow> string \<Rightarrow> json option" where
  "payload_value ev key = (case ev_payload ev of None \<Rightarrow> None | Some p \<Rightarrow> map_of p key)"

definition requirePayloadField :: "OrcEvent \<Rightarrow> string \<Rightarrow> (json option \<Rightarrow> bool) \<Rightarrow> string \<Rightarrow> string list" where
  "requirePayloadField ev key validator description =
     (if validator (payload_value ev key) then [] else [''payload.'' @ key @ '' '' @ description])"

fun FINALIZATION_STATUS_BY_EVENT :: "string \<Rightarrow> string list" where
  "FINALIZATION_STATUS_BY_EVENT name =
     (if name = ''work_complete'' then [''awaiting_finalize'']
      else if name = ''finalize_rebase_started'' then [''finalize_rebase_in_progress'']
      else if name = ''ready_to_merge'' then [''ready_to_merge''] else [])"

definition requireRunId :: "OrcEvent \<Rightarrow> string list" where
  "requireRunId ev = (if truthy (ev_run_id ev) then [] else [''run_id is required''])"

definition requireAgentId :: "OrcEvent \<Rightarrow> string list" where
  "requireAgentId ev =
     (case ev_agent_id ev of
        Some a \<Rightarrow> if AGENT_ID_RE a then [] else [''agent_id is required and must be a valid agent_id'']
      | None \<Rightarrow> [''agent_id is required and must be a valid agent_id''])"

section \<open>Value checks\<close>

text \<open>\<^verbatim>\<open>typeof v === 'string' && v.length > 0\<close>\<close>

fun nonempty_string :: "json option \<Rightarrow> bool" where
  "nonempty_string (Some (JStr s)) = (s \<noteq> [])"
| "nonempty_string (Some (JTime t)) = ts_truthy (Some t)"
| "nonempty_string _ = False"

text \<open>\<^verbatim>\<open>typeof v === 'string' && Number.isFinite(new Date(v).getTime())\<close>\<close>

fun date_string :: "json option \<Rightarrow> bool" where
  "date_string (Some (JTime t)) = ts_finite t"
| "date_string _ = False"

text \<open>\<^verbatim>\<open>Number.isInteger(v) && v >= 0\<close>\<close>

fun nonneg_integer :: "json option \<Rightarrow> bool" where
  "nonneg_integer (Some (JNum i)) = (i \<ge> 0)"
| "nonneg_integer _ = False"

fun string_in :: "string list \<Rightarrow> json option \<Rightarrow> bool" where
  "string_in xs (Some (JStr s)) = (s \<in> set xs)"
| "string_in xs _ = False"

fun string_value :: "json option \<Rightarrow> bool" where
  "string_value (Some (JStr s)) = True"
| "string_value (Some (JTime t)) = True"
| "string_value _ = False"

section \<open>validateCoreEventInvariants\<close>

definition task_events :: "string list" where
  "task_events = [''task_added'', ''task_updated'', ''task_cancelled'', ''task_released'', ''task_delegated'',
     ''task_dispatch_blocked'']"

definition run_lifecycle_events :: "string list" where
  "run_lifecycle_events = [''claim_created'', ''claim_renewed'', ''claim_expired'', ''claim_released'',
     ''task_envelope_sent'', ''run_started'', ''work_complete'', ''finalize_rebase_started'', ''ready_to_merge'',
     ''run_finished'', ''run_failed'', ''run_cancelled'', ''phase_started'', ''phase_finished'', ''blocked'',
     ''unblocked'', ''need_input'', ''input_provided'', ''input_requested'', ''input_response'',
     ''worker_needs_attention'', ''remediation_applied''] @ COMMAND_EVENTS"

definition agent_events :: "string list" where
  "agent_events = [''agent_registered'', ''agent_online'', ''reported_for_duty'', ''agent_offline'',
     ''agent_marked_dead'', ''session_start_failed'', ''session_reconciled'']"

definition worker_run_events :: "string list" where
  "worker_run_events = [''claim_created'', ''task_envelope_sent'', ''run_started'', ''work_complete'',
     ''finalize_rebase_started'', ''ready_to_merge'', ''run_finished'', ''run_failed'', ''run_cancelled'',
     ''phase_started'', ''phase_finished'', ''blocked'', ''unblocked'', ''need_input'', ''input_provided'',
     ''worker_needs_attention'', ''remediation_applied''] @ COMMAND_EVENTS"

definition reference_errors :: "OrcEvent \<Rightarrow> string list" where
  "reference_errors ev =
     (if ev_event ev \<in> set task_events then requireTaskRef ev else []) @
     (if ev_event ev \<in> set run_lifecycle_events then requireRunId ev else []) @
     (if ev_event ev \<in> set worker_run_events then requireTaskRef ev @ requireAgentId ev else [])"

definition session_command_errors :: "OrcEvent \<Rightarrow> string list" where
  "session_command_errors ev =
     (if ev_event ev = ''session_reconciled''
      then requirePayloadField ev ''session_id'' nonempty_string ''must be a non-empty string'' @
           requirePayloadField ev ''state'' nonempty_string ''must be a non-empty string''
      else []) @
     (if ev_event ev \<in> set COMMAND_EVENTS
      then requirePayloadField ev ''command_id'' nonempty_string ''must be a non-empty string'' @
           requirePayloadField ev ''state'' nonempty_string ''must be a non-empty string''
      else [])"

definition input_errors :: "OrcEvent \<Rightarrow> string list" where
  "input_errors ev =
     (if ev_event ev \<in> {''input_requested'', ''input_response''}
      then requireRunId ev @ requireAgentId ev else []) @
     (if ev_event ev = ''input_requested''
      then requirePayloadField ev ''question'' nonempty_string ''must be a non-empty string'' @
           (if payload_value ev ''request_id'' \<noteq> None \<and> \<not> string_value (payload_value ev ''request_id'')
            then [''payload.request_id must be a string when present''] else [])
      else []) @
     (if ev_event ev = ''input_response''
      then requirePayloadField ev ''response'' nonempty_string ''must be a non-empty string'' @
           (if payload_value ev ''request_id'' \<noteq> None \<and> \<not> string_value (payload_value ev ''request_id'') \<and>
               payload_value ev ''request_id'' \<noteq> Some JNull
            then [''payload.request_id must be a string or null when present''] else [])
      else [])"

definition agent_errors :: "OrcEvent \<Rightarrow> string list" where
  "agent_errors ev =
     (if ev_event ev \<in> set agent_events then requireAgentId ev else []) @
     (if ev_event ev = ''reported_for_duty''
      then requirePayloadField ev ''session_token'' nonempty_string ''must be a non-empty string'' else []) @
     (if ev_event ev = ''heartbeat'' \<and>
         (case ev_agent_id ev of None \<Rightarrow> True | Some a \<Rightarrow> \<not> AGENT_ID_RE a) \<and> ev_run_id ev = None
      then [''heartbeat requires agent_id or run_id''] else [])"

definition claim_errors :: "OrcEvent \<Rightarrow> string list" where
  "claim_errors ev =
     (if ev_event ev \<in> {''claim_created'', ''claim_renewed''}
      then requirePayloadField ev ''lease_expires_at'' date_string ''must be an ISO date-time string'' else []) @
     (if ev_event ev \<in> {''claim_expired'', ''run_failed''}
      then requirePayloadField ev ''policy'' (string_in FAILURE_POLICY_SET) ''must be requeue or block'' else []) @
     (if ev_event ev = ''task_updated''
      then requirePayloadField ev ''status'' nonempty_string ''must be a non-empty string'' else []) @
     (if ev_event ev = ''agent_marked_dead''
      then requirePayloadField ev ''elapsed_ms'' nonneg_integer ''must be a non-negative integer'' else [])"

definition session_errors :: "OrcEvent \<Rightarrow> string list" where
  "session_errors ev =
     (if ev_event ev = ''session_start_failed''
      then requireRunId ev @ requireTaskRef ev @
           requirePayloadField ev ''reason'' nonempty_string ''must be a non-empty string''
      else []) @
     (if ev_event ev = ''session_started''
      then requirePayloadField ev ''session_id'' nonempty_string ''must be a non-empty string'' @
           requirePayloadField ev ''reset_tasks'' nonneg_integer ''must be a non-negative integer'' @
           requirePayloadField ev ''reset_claims'' nonneg_integer ''must be a non-negative integer'' @
           requirePayloadField ev ''reset_agents'' nonneg_integer ''must be a non-negative integer''
      else [])"

definition attention_errors :: "OrcEvent \<Rightarrow> string list" where
  "attention_errors ev =
     (if ev_event ev = ''worker_needs_attention''
      then requirePayloadField ev ''reason'' (string_in [''stale'']) (''must be '' @ quoted ''stale'') @
           requirePayloadField ev ''idle_ms'' nonneg_integer ''must be a non-negative integer''
      else []) @
     (if ev_event ev = ''remediation_applied''
      then requirePayloadField ev ''policy_id'' nonempty_string ''must be a non-empty string'' @
           requirePayloadField ev ''action'' nonempty_string ''must be a non-empty string'' @
           requirePayloadField ev ''message'' nonempty_string ''must be a non-empty string''
      else [])"

definition finalization_errors :: "OrcEvent \<Rightarrow> string list" where
  "finalization_errors ev =
     (if ev_event ev \<in> {''work_complete'', ''finalize_rebase_started'', ''ready_to_merge''}
      then requirePayloadField ev ''status'' (string_in (FINALIZATION_STATUS_BY_EVENT (ev_event ev)))
             (''must be one of: '' @ join_with '', '' (FINALIZATION_STATUS_BY_EVENT (ev_event ev))) @
           (if payload_value ev ''retry_count'' \<noteq> None \<and> \<not> nonneg_integer (payload_value ev ''retry_count'')
            then [''payload.retry_count must be a non-negative integer''] else [])
      else [])"

definition validateCoreEventInvariants :: "OrcEvent \<Rightarrow> string list" where
  "validateCoreEventInvariants ev =
     reference_errors ev @ session_command_errors ev @ input_errors ev @ agent_errors ev @
     claim_errors ev @ session_errors ev @ attention_errors ev @ finalization_errors ev"

definition validateEventObject :: "env \<Rightarrow> OrcEvent \<Rightarrow> string list" where
  "validateEventObject e ev = validateSchema e ev @ validateCoreEventInvariants ev"

lemmas validation_defs [orc_eval] =
  validateCoreEventInvariants_def validateEventObject_def
  reference_errors_def session_command_errors_def input_errors_def agent_errors_def claim_errors_def
  session_errors_def attention_errors_def finalization_errors_def requirePayloadField_def payload_value_def
  requireTaskRef_def requireRunId_def requireAgentId_def task_events_def run_lifecycle_events_def
  agent_events_def worker_run_events_def COMMAND_EVENTS_def FAILURE_POLICY_SET_def

section \<open>What a valid event guarantees\<close>

lemma require_nil:
  "requireRunId ev = [] \<longleftrightarrow> truthy (ev_run_id ev)"
  "requireTaskRef ev = [] \<longleftrightarrow> (\<exists>r. ev_task_ref ev = Some r \<and> TASK_REF_RE r)"
  "requireAgentId ev = [] \<longleftrightarrow> (\<exists>a. ev_agent_id ev = Some a \<and> AGENT_ID_RE a)"
  "requirePayloadField ev key v d = [] \<longleftrightarrow> v (payload_value ev key)"
  by (auto simp: requireRunId_def requireTaskRef_def requireAgentId_def requirePayloadField_def
           split: option.splits if_splits)

lemma valid_event_parts:
  "validateCoreEventInvariants ev = [] \<longleftrightarrow>
     reference_errors ev = [] \<and> session_command_errors ev = [] \<and> input_errors ev = [] \<and> agent_errors ev = [] \<and>
     claim_errors ev = [] \<and> session_errors ev = [] \<and> attention_errors ev = [] \<and> finalization_errors ev = []"
  by (auto simp: validateCoreEventInvariants_def)


definition failed_event :: OrcEvent where
  "failed_event = mk_event (Ts 0) ''run_failed'' ''agent'' ''w'' (Some ''run-1'') (Some ''f/a'') (Some ''w'')
     (Some [(''policy'', JStr ''requeue'')])"


end
