(* ===== verification/Event_Log.thy ===== *)
theory Event_Log
  imports Runtime_Db Event_Validation
begin

text \<open>
  \<^verbatim>\<open>lib/eventLog.ts\<close>, \<^verbatim>\<open>lib/eventOffsets.ts\<close> and \<^verbatim>\<open>lib/eventCheckpoint.ts\<close>: the append-only event
  log, the durable cursor of each consumer, and the legacy checkpoint file. The locale
  \<open>event_source\<close> states what a consumer relies on; the log is an interpretation of it.
\<close>

section \<open>Appending\<close>

definition ensureEventIdentity :: "string \<Rightarrow> OrcEvent \<Rightarrow> OrcEvent" where
  "ensureEventIdentity freshId ev =
     (if truthy (ev_event_id ev) then ev else ev\<lparr>ev_event_id := Some freshId\<rparr>)"

definition eventIdentity :: "OrcEvent \<Rightarrow> string" where
  "eventIdentity ev =
     (if truthy (ev_event_id ev) then the (ev_event_id ev)
      else if ev_seq ev \<noteq> 0 then ''legacy:seq:'' @ show_nat (ev_seq ev) else ''legacy:seq:missing'')"

definition event_row_of :: "nat \<Rightarrow> OrcEvent \<Rightarrow> event_row" where
  "event_row_of n ev =
     \<lparr>er_seq = n, er_event_id = or_default (ev_event_id ev) [], er_ts = ev_ts ev, er_event = ev_event ev,
      er_agent_id = ev_agent_id ev, er_run_id = ev_run_id ev, er_task_ref = ev_task_ref ev,
      er_payload = Some ev\<rparr>"

definition validation_error :: "string list \<Rightarrow> orc_error" where
  "validation_error errors = PlainError (''event validation failed: '' @ join_with ''; '' errors)"

text \<open>
  The number an \<^verbatim>\<open>AUTOINCREMENT\<close> column assigns: one past the largest number ever used.
\<close>

definition next_event_seq :: "runtime_db \<Rightarrow> nat" where
  "next_event_seq db = Suc (db_event_seq db)"

text \<open>
  \<^verbatim>\<open>appendEvent\<close>: a caller-supplied sequence number is stored as it is, a missing one (\<open>ev_seq = 0\<close>)
  is assigned. The rows stay in rowid order.
\<close>

definition appendEvent :: "env \<Rightarrow> OrcEvent \<Rightarrow> runtime_db \<Rightarrow> runtime_db result" where
  "appendEvent e ev db =
     (let nev = ensureEventIdentity (uuid e (next_event_seq db)) ev;
          errors = validateEventObject e nev;
          n = (if ev_seq nev \<noteq> 0 then ev_seq nev else next_event_seq db) in
      if errors \<noteq> [] then Inl (validation_error errors)
      else if n \<in> er_seq ` set (db_events db) then Inl (SqliteError ''UNIQUE constraint failed: events.seq'')
      else if or_default (ev_event_id nev) [] \<in> er_event_id ` set (db_events db)
      then Inl (SqliteError ''UNIQUE constraint failed: events.event_id'')
      else Inr (db\<lparr>db_events := insort_key er_seq (event_row_of n nev) (db_events db),
                  db_event_seq := max n (db_event_seq db)\<rparr>))"

definition appendSequencedEvent :: "env \<Rightarrow> OrcEvent \<Rightarrow> runtime_db \<Rightarrow> (nat \<times> runtime_db) result" where
  "appendSequencedEvent e ev db =
     (let provisional = ensureEventIdentity (uuid e (next_event_seq db)) (ev\<lparr>ev_seq := 1\<rparr>);
          errors = validateEventObject e provisional in
      if errors \<noteq> [] then Inl (validation_error errors)
      else if or_default (ev_event_id provisional) [] \<in> er_event_id ` set (db_events db)
      then Inl (SqliteError ''UNIQUE constraint failed: events.event_id'')
      else
        (let assigned = provisional\<lparr>ev_seq := next_event_seq db\<rparr>;
             assignedErrors = validateEventObject e assigned in
         if assignedErrors \<noteq> [] then Inl (validation_error assignedErrors)
         else Inr (next_event_seq db,
           db\<lparr>db_events := db_events db @ [event_row_of (next_event_seq db) assigned],
              db_event_seq := next_event_seq db\<rparr>)))"

definition append_event :: "env \<Rightarrow> OrcEvent \<Rightarrow> runtime_db \<Rightarrow> runtime_db result" where
  "append_event e ev db = rbind (appendSequencedEvent e ev db) (\<lambda>(n, db'). Inr db')"

section \<open>Reading\<close>

definition parseEventRow :: "env \<Rightarrow> bool \<Rightarrow> event_row \<Rightarrow> OrcEvent option" where
  "parseEventRow e validate row =
     (case er_payload row of
        None \<Rightarrow> None
      | Some ev \<Rightarrow> if validate \<and> validateEventObject e ev \<noteq> [] then None else Some ev)"

definition readEvents :: "env \<Rightarrow> runtime_db \<Rightarrow> OrcEvent list" where
  "readEvents e db = List.map_filter (parseEventRow e True) (db_events db)"

definition readEventsSince :: "env \<Rightarrow> nat \<Rightarrow> runtime_db \<Rightarrow> OrcEvent list" where
  "readEventsSince e afterSeq db =
     List.map_filter (parseEventRow e False) (filter (\<lambda>r. er_seq r > afterSeq) (db_events db))"

definition MAX_SAFE_INTEGER :: int where "MAX_SAFE_INTEGER = 2 ^ 53 - 1"

definition safe_nonneg :: "int \<Rightarrow> bool" where
  "safe_nonneg i \<longleftrightarrow> 0 \<le> i \<and> i \<le> MAX_SAFE_INTEGER"

definition readEventBatch :: "env \<Rightarrow> int \<Rightarrow> int \<Rightarrow> runtime_db \<Rightarrow> (nat \<times> OrcEvent option) list result" where
  "readEventBatch e afterSeq limit db =
     (if \<not> safe_nonneg afterSeq then Inl (PlainError ''afterSeq must be a non-negative safe integer'')
      else if limit < 1 \<or> limit > 1000 then Inl (PlainError ''limit must be between 1 and 1000'')
      else Inr (map (\<lambda>row. (er_seq row,
             case parseEventRow e True row of
               None \<Rightarrow> None
             | Some ev \<Rightarrow> if ev_seq ev \<noteq> er_seq row then None else Some ev))
           (take (nat limit) (filter (\<lambda>r. int (er_seq r) > afterSeq) (db_events db)))))"

definition readRecentEvents :: "env \<Rightarrow> int \<Rightarrow> runtime_db \<Rightarrow> OrcEvent list result" where
  "readRecentEvents e limit db =
     (if limit < 0 then Inl (PlainError ''limit must be a non-negative integer'')
      else if limit = 0 then Inr []
      else Inr (List.map_filter (parseEventRow e False)
                  (rev (take (nat (min limit 200)) (rev (db_events db))))))"

definition nextSeq :: "runtime_db \<Rightarrow> nat" where
  "nextSeq db = (if db_events db = [] then 1 else Suc (Max (set (map er_seq (db_events db)))))"

definition opt_eq :: "'a option \<Rightarrow> 'a option \<Rightarrow> bool" where
  "opt_eq wanted col \<longleftrightarrow> (case wanted of None \<Rightarrow> True | Some w \<Rightarrow> col = Some w)"

text \<open>The filtered query without the full-text index.\<close>

definition queryEvents ::
  "env \<Rightarrow> string option \<Rightarrow> string option \<Rightarrow> string option \<Rightarrow> nat option \<Rightarrow> nat \<Rightarrow> bool \<Rightarrow> runtime_db \<Rightarrow> OrcEvent list" where
  "queryEvents e run_id agent_id event_type after_seq limit desc db =
     (let rows = filter (\<lambda>r. opt_eq run_id (er_run_id r) \<and> opt_eq agent_id (er_agent_id r) \<and>
                             opt_eq event_type (Some (er_event r)) \<and>
                             (case after_seq of None \<Rightarrow> True | Some n \<Rightarrow> er_seq r > n)) (db_events db);
          ordered = (if desc then rev rows else rows) in
      List.map_filter (parseEventRow e False) (take (min limit 500) ordered))"

definition NOTIFICATION_EVENT_TYPES :: "string list" where
  "NOTIFICATION_EVENT_TYPES = [''run_finished'', ''run_failed'', ''run_cancelled'', ''worker_needs_attention'',
     ''input_requested'', ''input_response'']"

definition queryNotificationEvents :: "env \<Rightarrow> nat \<Rightarrow> runtime_db \<Rightarrow> OrcEvent list" where
  "queryNotificationEvents e afterSeq db =
     List.map_filter (parseEventRow e False)
       (take 200 (filter (\<lambda>r. er_event r \<in> set NOTIFICATION_EVENT_TYPES \<and> er_seq r > afterSeq) (db_events db)))"

definition getLastNotificationSeq :: "runtime_db \<Rightarrow> nat" where
  "getLastNotificationSeq db =
     fold max (map er_seq (filter (\<lambda>r. er_event r \<in> set NOTIFICATION_EVENT_TYPES) (db_events db))) 0"

text \<open>
  \<^verbatim>\<open>ORDER BY ts DESC, seq DESC LIMIT 1\<close>: the row with the largest timestamp text, the later one on a tie
  (rows come in sequence order).
\<close>

fun latest_row :: "event_row list \<Rightarrow> event_row option" where
  "latest_row [] = None"
| "latest_row (r # rs) =
     (case latest_row rs of
        None \<Rightarrow> Some r
      | Some m \<Rightarrow> if ts_le (er_ts r) (er_ts m) then Some m else Some r)"

definition ACTIVITY_TYPES :: "string list" where
  "ACTIVITY_TYPES = [''run_started'', ''heartbeat'', ''work_complete'', ''finalize_rebase_started'',
     ''ready_to_merge'', ''phase_started'', ''phase_finished'', ''blocked'', ''need_input'', ''input_requested'',
     ''input_provided'', ''unblocked'']"

definition hydrate_row :: "env \<Rightarrow> event_row option \<Rightarrow> OrcEvent list" where
  "hydrate_row e row =
     (case row of
        None \<Rightarrow> []
      | Some r \<Rightarrow>
          (case parseEventRow e True r of
             None \<Rightarrow> []
           | Some ev \<Rightarrow> if ev_seq ev = er_seq r then [ev] else []))"

definition readEventsForRuns :: "env \<Rightarrow> string list \<Rightarrow> runtime_db \<Rightarrow> OrcEvent list" where
  "readEventsForRuns e runIds db =
     concat (map (\<lambda>runId.
       (let rows = filter (\<lambda>r. er_run_id r = Some runId \<and> er_payload r \<noteq> None) (db_events db) in
        concat (map (\<lambda>type. hydrate_row e (latest_row (filter (\<lambda>r. er_event r = type \<and>
                  (case er_payload r of None \<Rightarrow> False
                   | Some ev \<Rightarrow> ev_actor_type ev \<notin> {''coordinator'', ''human''})) rows))) ACTIVITY_TYPES) @
        hydrate_row e (latest_row (filter (\<lambda>r. er_event r = ''phase_started'') rows)))) (js_set runIds))"

section \<open>Consumer offsets\<close>

definition COORDINATOR_EVENT_CONSUMER :: string where "COORDINATOR_EVENT_CONSUMER = ''coordinator''"

record EventProcessingCheckpoint =
  last_processed_seq :: nat
  processed_event_ids :: "string list"
  checkpoint_updated_at :: timestamp

fun processed_prefix :: "string list \<Rightarrow> event_row list \<Rightarrow> nat \<Rightarrow> nat" where
  "processed_prefix processed [] cursor = cursor"
| "processed_prefix processed (row # rows) cursor =
     (if er_event_id row \<notin> set processed \<and> (''legacy:seq:'' @ show_nat (er_seq row)) \<notin> set processed
      then cursor else processed_prefix processed rows (er_seq row))"

definition initializeEventOffset ::
  "EventProcessingCheckpoint option \<Rightarrow> string \<Rightarrow> runtime_db \<Rightarrow> (nat \<times> runtime_db) result" where
  "initializeEventOffset checkpointFile consumerId db =
     (if consumerId = [] then Inl (PlainError ''Consumer ID is required'')
      else case map_of (db_offsets db) consumerId of
        Some n \<Rightarrow> Inr (n, db)
      | None \<Rightarrow>
          (let legacy = (if consumerId = COORDINATOR_EVENT_CONSUMER then checkpointFile else None);
               cursor = (case legacy of
                 None \<Rightarrow> 0
               | Some cp \<Rightarrow> processed_prefix (processed_event_ids cp)
                     (filter (\<lambda>r. er_seq r \<le> last_processed_seq cp) (db_events db)) 0) in
           Inr (cursor, db\<lparr>db_offsets := db_offsets db @ [(consumerId, cursor)]\<rparr>)))"

definition readEventOffset :: "string \<Rightarrow> runtime_db \<Rightarrow> nat" where
  "readEventOffset consumerId db = or_default (map_of (db_offsets db) consumerId) 0"

definition set_offset :: "string \<Rightarrow> nat \<Rightarrow> runtime_db \<Rightarrow> runtime_db" where
  "set_offset consumerId n db =
     db\<lparr>db_offsets := update_where (\<lambda>row. fst row = consumerId) (\<lambda>row. (fst row, n)) (db_offsets db)\<rparr>"

definition assertSeq :: "int \<Rightarrow> unit result" where
  "assertSeq seq = (if safe_nonneg seq then Inr () else Inl (PlainError ''Event offset must be a non-negative safe integer''))"

definition advanceEventOffset :: "int \<Rightarrow> int \<Rightarrow> string \<Rightarrow> runtime_db \<Rightarrow> (int \<times> runtime_db) result" where
  "advanceEventOffset expectedSeq newSeq consumerId db =
     rbind (assertSeq expectedSeq) (\<lambda>_. rbind (assertSeq newSeq) (\<lambda>_.
       if newSeq < expectedSeq then Inl (PlainError ''Event offset cannot move backwards'')
       else if map_of (db_offsets db) consumerId \<noteq> Some (nat expectedSeq)
       then Inl (PlainError ''Event offset changed concurrently or was not initialized'')
       else Inr (newSeq, set_offset consumerId (nat newSeq) db)))"

definition reset_marker :: "string \<Rightarrow> string" where
  "reset_marker consumerId = ''event_cursor_reset:'' @ consumerId"

definition resetEventOffset :: "int \<Rightarrow> string \<Rightarrow> runtime_db \<Rightarrow> runtime_db result" where
  "resetEventOffset seq consumerId db =
     rbind (assertSeq seq) (\<lambda>_.
       case map_of (db_offsets db) consumerId of
         None \<Rightarrow> Inl (PlainError ''Event offset is not initialized'')
       | Some current \<Rightarrow>
           if seq > int current then Inl (PlainError ''Recovery reset cannot skip pending events'')
           else Inr ((set_offset consumerId (nat seq) db)\<lparr>db_cutovers :=
             (if reset_marker consumerId \<in> set (db_cutovers db) then db_cutovers db
              else db_cutovers db @ [reset_marker consumerId])\<rparr>))"

definition wasEventOffsetReset :: "string \<Rightarrow> runtime_db \<Rightarrow> bool" where
  "wasEventOffsetReset consumerId db \<longleftrightarrow> reset_marker consumerId \<in> set (db_cutovers db)"

section \<open>The legacy checkpoint\<close>

definition defaultEventCheckpoint :: "timestamp \<Rightarrow> EventProcessingCheckpoint" where
  "defaultEventCheckpoint now = \<lparr>last_processed_seq = 0, processed_event_ids = [], checkpoint_updated_at = now\<rparr>"

definition writeEventCheckpoint :: "EventProcessingCheckpoint \<Rightarrow> EventProcessingCheckpoint" where
  "writeEventCheckpoint cp = cp\<lparr>processed_event_ids := js_set (processed_event_ids cp)\<rparr>"

definition advanceEventCheckpoint ::
  "EventProcessingCheckpoint \<Rightarrow> string \<Rightarrow> nat \<Rightarrow> timestamp \<Rightarrow> EventProcessingCheckpoint" where
  "advanceEventCheckpoint cp eventId seq now =
     \<lparr>last_processed_seq = max (last_processed_seq cp) seq,
      processed_event_ids = js_set (processed_event_ids cp @ [eventId]), checkpoint_updated_at = now\<rparr>"

definition pruneEventCheckpoint ::
  "EventProcessingCheckpoint \<Rightarrow> string list \<Rightarrow> timestamp \<Rightarrow> EventProcessingCheckpoint" where
  "pruneEventCheckpoint cp retained now =
     \<lparr>last_processed_seq = last_processed_seq cp,
      processed_event_ids = filter (\<lambda>i. i \<in> set retained) (processed_event_ids cp), checkpoint_updated_at = now\<rparr>"

definition seedEventCheckpointFromEvents ::
  "string list \<Rightarrow> int \<Rightarrow> timestamp \<Rightarrow> EventProcessingCheckpoint" where
  "seedEventCheckpointFromEvents ids lastSeq now =
     \<lparr>last_processed_seq = nat (max 0 lastSeq), processed_event_ids = js_set ids, checkpoint_updated_at = now\<rparr>"

section \<open>What a consumer of a log relies on\<close>

text \<open>
  A source of numbered rows read in bounded batches after a cursor. A consumer that advances its
  cursor to the last row of each batch receives every row after its start, in order, once.
\<close>

locale event_source =
  fixes inv :: "'s \<Rightarrow> bool" and rows :: "'s \<Rightarrow> (nat \<times> 'r) list"
    and batch :: "nat \<Rightarrow> nat \<Rightarrow> 's \<Rightarrow> (nat \<times> 'r) list"
    and cursor_ok :: "nat \<Rightarrow> bool" and limit_ok :: "nat \<Rightarrow> bool"
  assumes rows_sorted: "inv s \<Longrightarrow> sorted_wrt (<) (map fst (rows s))"
    and rows_ok: "inv s \<Longrightarrow> r \<in> set (rows s) \<Longrightarrow> cursor_ok (fst r)"
    and limit_pos: "limit_ok n \<Longrightarrow> 0 < n"
    and batch_rows: "inv s \<Longrightarrow> cursor_ok c \<Longrightarrow> limit_ok n \<Longrightarrow> batch c n s = take n (filter (\<lambda>r. c < fst r) (rows s))"
begin

fun drain :: "nat \<Rightarrow> nat \<Rightarrow> nat \<Rightarrow> 's \<Rightarrow> (nat \<times> 'r) list" where
  "drain 0 n c s = []"
| "drain (Suc fuel) n c s =
     (let b = batch c n s in if b = [] then [] else b @ drain fuel n (fst (last b)) s)"

lemma sorted_take_rest:
  fixes xs :: "(nat \<times> 'r) list"
  assumes "sorted_wrt (<) (map fst xs)" and "take n xs \<noteq> []"
  shows "filter (\<lambda>r. fst (last (take n xs)) < fst r) xs = drop n xs"
proof -
  let ?l = "fst (last (take n xs))"
  have xs: "xs = take n xs @ drop n xs" by simp
  have s: "sorted_wrt (<) (map fst (take n xs) @ map fst (drop n xs))"
    using assms(1) by (metis append_take_drop_id map_append)
  have "\<forall>r \<in> set (drop n xs). ?l < fst r"
    using s assms(2) by (auto simp: sorted_wrt_append)
  moreover have "\<forall>r \<in> set (take n xs). \<not> ?l < fst r"
  proof
    fix r assume r: "r \<in> set (take n xs)"
    obtain ys y where ys: "take n xs = ys @ [y]" using assms(2) by (metis rev_exhaust)
    with s r show "\<not> ?l < fst r" by (auto simp: sorted_wrt_append)
  qed
  ultimately show ?thesis
    by (subst xs, subst filter_append) (simp add: filter_True filter_False)
qed

lemma drain_complete:
  assumes "inv s" "limit_ok n" "cursor_ok c" "length (filter (\<lambda>r. c < fst r) (rows s)) \<le> fuel"
  shows "drain fuel n c s = filter (\<lambda>r. c < fst r) (rows s)"
  using assms(3,4)
proof (induction fuel arbitrary: c)
  case 0
  then show ?case by simp
next
  case (Suc fuel)
  let ?xs = "filter (\<lambda>r. c < fst r) (rows s)"
  have b: "batch c n s = take n ?xs" using assms(1) Suc.prems(1) assms(2) by (rule batch_rows)
  show ?case
  proof (cases "?xs = []")
    case True
    then show ?thesis using b by simp
  next
    case False
    then have ne: "take n ?xs \<noteq> []" using limit_pos [OF assms(2)] by simp
    let ?c = "fst (last (take n ?xs))"
    have "last (take n ?xs) \<in> set ?xs" using ne by (meson in_set_takeD last_in_set)
    then have c: "cursor_ok ?c" "c < ?c" using rows_ok [OF assms(1)] by auto
    have srt: "sorted_wrt (<) (map fst ?xs)"
      using rows_sorted [OF assms(1)] by (induction "rows s") (auto simp: sorted_wrt_map sorted_wrt_filter)
    have rest: "filter (\<lambda>r. ?c < fst r) (rows s) = drop n ?xs"
    proof -
      have "filter (\<lambda>r. ?c < fst r) (rows s) = filter (\<lambda>r. ?c < fst r) ?xs"
        using c(2) by (auto simp: intro!: filter_cong)
      then show ?thesis using sorted_take_rest [OF srt ne] by simp
    qed
    have "length (drop n ?xs) \<le> fuel" using Suc.prems(2) limit_pos [OF assms(2)] False by simp
    then have "drain fuel n ?c s = drop n ?xs" using Suc.IH [OF c(1)] rest by simp
    then show ?thesis using b ne by (simp add: Let_def)
  qed
qed

end


section \<open>The log is such a source\<close>

definition log_ordered :: "runtime_db \<Rightarrow> bool" where
  "log_ordered db \<longleftrightarrow> sorted_wrt (<) (map er_seq (db_events db)) \<and>
     (\<forall>r \<in> set (db_events db). 1 \<le> er_seq r \<and> er_seq r \<le> db_event_seq db) \<and>
     distinct (map er_event_id (db_events db)) \<and> int (db_event_seq db) \<le> MAX_SAFE_INTEGER"

text \<open>What a batch shows of a row: nothing for a row that is corrupted, invalid or mislabelled.\<close>

definition decoded :: "env \<Rightarrow> event_row \<Rightarrow> OrcEvent option" where
  "decoded e row =
     (case parseEventRow e True row of None \<Rightarrow> None | Some ev \<Rightarrow> if ev_seq ev \<noteq> er_seq row then None else Some ev)"

definition log_rows :: "env \<Rightarrow> runtime_db \<Rightarrow> (nat \<times> OrcEvent option) list" where
  "log_rows e db = map (\<lambda>row. (er_seq row, decoded e row)) (db_events db)"

definition log_batch :: "env \<Rightarrow> nat \<Rightarrow> nat \<Rightarrow> runtime_db \<Rightarrow> (nat \<times> OrcEvent option) list" where
  "log_batch e c n db = (case readEventBatch e (int c) (int n) db of Inl _ \<Rightarrow> [] | Inr b \<Rightarrow> b)"

interpretation log: event_source log_ordered "log_rows e" "log_batch e"
  "\<lambda>c. int c \<le> MAX_SAFE_INTEGER" "\<lambda>n. 1 \<le> n \<and> n \<le> 1000" for e
proof
  fix s r assume "log_ordered s" "r \<in> set (log_rows e s)"
  then show "int (fst r) \<le> MAX_SAFE_INTEGER" by (force simp: log_ordered_def log_rows_def)
next
  fix s c n
  assume "log_ordered s" "int c \<le> MAX_SAFE_INTEGER" "1 \<le> n \<and> n \<le> (1000::nat)"
  then show "log_batch e c n s = take n (filter (\<lambda>r. c < fst r) (log_rows e s))"
    by (simp add: log_batch_def readEventBatch_def safe_nonneg_def log_rows_def decoded_def filter_map take_map comp_def)
qed (auto simp: log_ordered_def log_rows_def comp_def)

lemma appendSequencedEvent_Inr:
  assumes "appendSequencedEvent e ev db = Inr (n, db')"
  obtains stored where "n = Suc (db_event_seq db)" "ev_seq stored = n" "validateEventObject e stored = []"
    "stored = ev\<lparr>ev_seq := n, ev_event_id := ev_event_id stored\<rparr>" "truthy (ev_event_id ev) \<Longrightarrow> ev_event_id stored = ev_event_id ev"
    "or_default (ev_event_id stored) [] \<notin> er_event_id ` set (db_events db)"
    "db' = db\<lparr>db_events := db_events db @ [event_row_of n stored], db_event_seq := n\<rparr>"
proof -
  let ?st = "(ensureEventIdentity (uuid e (next_event_seq db)) (ev\<lparr>ev_seq := 1\<rparr>))\<lparr>ev_seq := next_event_seq db\<rparr>"
  have st: "?st = ev\<lparr>ev_seq := next_event_seq db, ev_event_id := ev_event_id ?st\<rparr>" "truthy (ev_event_id ev) \<Longrightarrow> ev_event_id ?st = ev_event_id ev"
    by (simp_all add: ensureEventIdentity_def)
  from assms have "n = next_event_seq db" "validateEventObject e ?st = []"
    "or_default (ev_event_id ?st) [] \<notin> er_event_id ` set (db_events db)"
    "db' = db\<lparr>db_events := db_events db @ [event_row_of n ?st], db_event_seq := n\<rparr>"
    by (auto simp: appendSequencedEvent_def Let_def split: if_splits)
  with st show thesis by (intro that [of ?st]) (simp_all add: next_event_seq_def)
qed

lemma append_event_Inr:
  assumes "append_event e ev db = Inr db'"
  obtains stored n where "ev_seq stored = n" "validateEventObject e stored = []"
    "db' = db\<lparr>db_events := db_events db @ [event_row_of n stored], db_event_seq := n\<rparr>" "n = Suc (db_event_seq db)"
  using assms by (auto simp: append_event_def rbind_Inr_iff elim!: appendSequencedEvent_Inr)

lemma append_event_frame:
  assumes "append_event e ev db = Inr db'"
  shows "db_runs db' = db_runs db" "db_sessions db' = db_sessions db" "db_commands db' = db_commands db"
    "db_offsets db' = db_offsets db" "db_cutovers db' = db_cutovers db"
  using assms by (auto elim!: append_event_Inr)

lemma log_ordered_append:
  assumes "log_ordered db" "appendSequencedEvent e ev db = Inr (n, db')" "int n \<le> MAX_SAFE_INTEGER"
  shows "log_ordered db'"
  using assms(2)
proof (rule appendSequencedEvent_Inr)
  fix stored
  assume h: "n = Suc (db_event_seq db)" "or_default (ev_event_id stored) [] \<notin> er_event_id ` set (db_events db)"
    "db' = db\<lparr>db_events := db_events db @ [event_row_of n stored], db_event_seq := n\<rparr>"
  have "\<forall>r \<in> set (db_events db). er_seq r < n" using assms(1) h(1) by (fastforce simp: log_ordered_def)
  with assms(1,3) h show "log_ordered db'"
    by (auto simp: log_ordered_def sorted_wrt_append event_row_of_def le_Suc_eq)
qed

text \<open>
  Appending extends the log by exactly one row at its end, numbered one past every number the
  log ever used and carrying the event under that number, valid against the event contract;
  earlier rows, and every consumer's view of them, are unchanged.
\<close>

theorem append_is_monotone:
  assumes "log_ordered db" and "appendSequencedEvent e ev db = Inr (n, db')"
  shows "(\<forall>r \<in> set (db_events db). er_seq r < n) \<and>
    (\<exists>row stored. db_events db' = db_events db @ [row] \<and> er_seq row = n \<and> er_payload row = Some stored \<and>
       ev_seq stored = n \<and> ev_event stored = ev_event ev \<and> ev_payload stored = ev_payload ev \<and>
       decoded e row = Some stored)"
  using assms(2)
proof (rule appendSequencedEvent_Inr)
  fix stored
  assume h: "n = Suc (db_event_seq db)" "ev_seq stored = n" "validateEventObject e stored = []"
    "stored = ev\<lparr>ev_seq := n, ev_event_id := ev_event_id stored\<rparr>"
    "db' = db\<lparr>db_events := db_events db @ [event_row_of n stored], db_event_seq := n\<rparr>"
  have "ev_event stored = ev_event ev" "ev_payload stored = ev_payload ev"
    by (subst h(4), simp)+
  moreover have "decoded e (event_row_of n stored) = Some stored"
    using h(2,3) by (simp add: decoded_def parseEventRow_def event_row_of_def)
  moreover have "\<forall>r \<in> set (db_events db). er_seq r < n" using assms(1) h(1) by (fastforce simp: log_ordered_def)
  ultimately show ?thesis using h(2,5) by (auto simp: event_row_of_def)
qed

text \<open>
  The consumer of \<^verbatim>\<open>processEventCheckpoint\<close> in \<^verbatim>\<open>coordinator.ts\<close> over successive ticks: read a batch after
  the cursor, deliver each row, and leave the cursor at the last row's number; \<open>fuel\<close> bounds
  the number of ticks.
\<close>

fun consume_log :: "env \<Rightarrow> nat \<Rightarrow> nat \<Rightarrow> nat \<Rightarrow> runtime_db \<Rightarrow> (nat \<times> OrcEvent option) list" where
  "consume_log e 0 limit cursor db = []"
| "consume_log e (Suc fuel) limit cursor db =
     (case readEventBatch e (int cursor) (int limit) db of
        Inl _ \<Rightarrow> []
      | Inr [] \<Rightarrow> []
      | Inr b \<Rightarrow> b @ consume_log e fuel limit (fst (last b)) db)"

lemma consume_log_drain: "consume_log e fuel limit cursor db = log.drain e fuel limit cursor db"
  by (induction fuel arbitrary: cursor)
     (simp_all add: log.drain.simps log_batch_def Let_def split: sum.splits list.splits)

text \<open>
  C29. The consumer receives every row of the log after its start position exactly once and in
  order, whatever rows are corrupted, once it has run for as many ticks as there are rows: no
  event is skipped and none is delivered twice.
\<close>

theorem batches_deliver_every_row:
  assumes "log_ordered db" "1 \<le> limit" "limit \<le> 1000" "int cursor \<le> MAX_SAFE_INTEGER" "length (db_events db) \<le> fuel"
  shows "consume_log e fuel limit cursor db = filter (\<lambda>r. cursor < fst r) (log_rows e db)"
  unfolding consume_log_drain
proof (rule log.drain_complete)
  have "length (log_rows e db) = length (db_events db)" by (simp add: log_rows_def)
  then show "length (filter (\<lambda>r. cursor < fst r) (log_rows e db)) \<le> fuel"
    using assms(5) length_filter_le [of "\<lambda>r. cursor < fst r" "log_rows e db"] by linarith
qed (use assms in auto)

definition log_db :: runtime_db where
  "log_db = empty_db\<lparr>db_events := map (\<lambda>n. event_row_of n (failed_event\<lparr>ev_seq := n, ev_event_id := Some (show_nat n)\<rparr>)) [1,2,3],
     db_event_seq := 3\<rparr>"

lemma log_db_ordered: "log_ordered log_db"
  by (simp add: log_ordered_def log_db_def empty_db_def event_row_of_def show_nat.simps MAX_SAFE_INTEGER_def char_of_def)

theorem batches_deliver_every_row_witness:
  "consume_log env0 3 2 1 log_db = filter (\<lambda>r. 1 < fst r) (log_rows env0 log_db)"
  by (rule batches_deliver_every_row [OF log_db_ordered])
     (simp_all add: MAX_SAFE_INTEGER_def log_db_def)

theorem append_is_monotone_witness:
  "\<exists>n db'. appendSequencedEvent env0 (failed_event\<lparr>ev_event_id := Some ''x''\<rparr>) log_db = Inr (n, db') \<and>
     (\<forall>r \<in> set (db_events log_db). er_seq r < n)"
proof -
  have "\<exists>n db'. appendSequencedEvent env0 (failed_event\<lparr>ev_event_id := Some ''x''\<rparr>) log_db = Inr (n, db')"
    by (simp add: appendSequencedEvent_def ensureEventIdentity_def next_event_seq_def log_db_def empty_db_def orc_eval
        failed_event_def mk_event_def env0_def TASK_REF_RE_def kebab_char_def alnum_lower_def is_lower_def is_digit_def
        char_code_def event_row_of_def show_nat.simps char_of_def Let_def)
  then obtain n db' where a: "appendSequencedEvent env0 (failed_event\<lparr>ev_event_id := Some ''x''\<rparr>) log_db = Inr (n, db')" by blast
  from append_is_monotone [OF log_db_ordered a] a show ?thesis by blast
qed

section \<open>Offsets\<close>

lemma map_of_set_offset:
  "map_of (db_offsets (set_offset c n db)) c' =
     (if c' = c then map_option (\<lambda>_. n) (map_of (db_offsets db) c') else map_of (db_offsets db) c')"
proof -
  have "map_of (update_where (\<lambda>row. fst row = c) (\<lambda>row. (fst row, n)) xs) c' =
     (if c' = c then map_option (\<lambda>_. n) (map_of xs c') else map_of xs c')" for xs
    by (induction xs) auto
  then show ?thesis by (simp add: set_offset_def)
qed

lemma advanceEventOffset_Inr:
  "advanceEventOffset expected new c db = Inr (r, db') \<longleftrightarrow>
     safe_nonneg expected \<and> safe_nonneg new \<and> expected \<le> new \<and> map_of (db_offsets db) c = Some (nat expected) \<and>
     r = new \<and> db' = set_offset c (nat new) db"
  by (auto simp: advanceEventOffset_def assertSeq_def rbind_Inr_iff split: if_splits)

text \<open>
  The compare-and-set of a consumer's offset serialises its writers: of two advances that start
  from the same cursor, once one of them has moved it forward the other is rejected; an advance
  never moves a cursor backwards and leaves other consumers alone.
\<close>

theorem offset_compare_and_set:
  assumes "advanceEventOffset expected new c db = Inr (r, db')"
  shows "int (readEventOffset c db) \<le> int (readEventOffset c db') \<and> int (readEventOffset c db') = new \<and>
    (\<forall>other. other \<noteq> c \<longrightarrow> readEventOffset other db' = readEventOffset other db) \<and>
    (expected < new \<longrightarrow> (\<exists>err. advanceEventOffset expected new2 c db' = Inl err))"
proof -
  from assms have h: "safe_nonneg expected" "safe_nonneg new" "expected \<le> new"
    "map_of (db_offsets db) c = Some (nat expected)" "db' = set_offset c (nat new) db"
    by (auto simp: advanceEventOffset_Inr)
  have m: "map_of (db_offsets db') c = Some (nat new)" using h by (simp add: map_of_set_offset)
  have "\<nexists>x. advanceEventOffset expected new2 c db' = Inr x" if "expected < new"
    using that m h(1,2) by (auto simp: advanceEventOffset_Inr safe_nonneg_def)
  then have "expected < new \<longrightarrow> (\<exists>err. advanceEventOffset expected new2 c db' = Inl err)"
    by (metis sumE)
  then show ?thesis
    using h m by (simp add: readEventOffset_def safe_nonneg_def map_of_set_offset)
qed

definition offsets_db :: runtime_db where "offsets_db = empty_db\<lparr>db_offsets := [(''coordinator'', 4)]\<rparr>"

theorem offset_compare_and_set_witness:
  "\<exists>db'. advanceEventOffset 4 6 ''coordinator'' offsets_db = Inr (6, db') \<and>
     (\<exists>err. advanceEventOffset 4 5 ''coordinator'' db' = Inl err)"
proof -
  have a: "advanceEventOffset 4 6 ''coordinator'' offsets_db = Inr (6, set_offset ''coordinator'' 6 offsets_db)"
    by (simp add: advanceEventOffset_Inr safe_nonneg_def MAX_SAFE_INTEGER_def offsets_db_def empty_db_def)
  from offset_compare_and_set [OF a, of 5] a show ?thesis by auto
qed

definition legacy_processed :: "string list \<Rightarrow> event_row \<Rightarrow> bool" where
  "legacy_processed ids r \<longleftrightarrow> er_event_id r \<in> set ids \<or> (''legacy:seq:'' @ show_nat (er_seq r)) \<in> set ids"

lemma processed_prefix_split:
  "\<exists>done rest. rows = done @ rest \<and> (\<forall>r \<in> set done. legacy_processed ids r) \<and>
     (rest = [] \<or> \<not> legacy_processed ids (hd rest)) \<and>
     processed_prefix ids rows c = (if done = [] then c else er_seq (last done))"
proof (induction rows arbitrary: c)
  case Nil
  then show ?case by simp
next
  case (Cons x rows)
  show ?case
  proof (cases "legacy_processed ids x")
    case True
    obtain ds rest where d: "rows = ds @ rest" "\<forall>r \<in> set ds. legacy_processed ids r"
      "rest = [] \<or> \<not> legacy_processed ids (hd rest)"
      "processed_prefix ids rows (er_seq x) = (if ds = [] then er_seq x else er_seq (last ds))"
      using Cons.IH [of "er_seq x"] by blast
    have "processed_prefix ids (x # rows) c = processed_prefix ids rows (er_seq x)"
      using True by (auto simp: legacy_processed_def)
    with d True show ?thesis by (intro exI [of _ "x # ds"] exI [of _ rest]) auto
  next
    case False
    then show ?thesis by (intro exI [of _ "[]"] exI [of _ "x # rows"]) (auto simp: legacy_processed_def)
  qed
qed

text \<open>
  Importing the legacy checkpoint never skips a pending event: every row at or before the
  imported cursor was processed according to the checkpoint.
\<close>

theorem import_keeps_pending_events:
  assumes "log_ordered db" and "map_of (db_offsets db) COORDINATOR_EVENT_CONSUMER = None"
    and "initializeEventOffset (Some cp) COORDINATOR_EVENT_CONSUMER db = Inr (cursor, db')"
  shows "\<forall>r \<in> set (db_events db). er_seq r \<le> cursor \<longrightarrow> legacy_processed (processed_event_ids cp) r"
proof -
  let ?rows = "filter (\<lambda>r. er_seq r \<le> last_processed_seq cp) (db_events db)"
  have c: "cursor = processed_prefix (processed_event_ids cp) ?rows 0"
    using assms(2,3) by (simp add: initializeEventOffset_def COORDINATOR_EVENT_CONSUMER_def Let_def)
  obtain ds rest where d: "?rows = ds @ rest" "\<forall>r \<in> set ds. legacy_processed (processed_event_ids cp) r"
    "cursor = (if ds = [] then 0 else er_seq (last ds))"
    using processed_prefix_split [of ?rows "processed_event_ids cp" 0] c by metis
  show ?thesis
  proof (intro ballI impI)
    fix r assume r: "r \<in> set (db_events db)" "er_seq r \<le> cursor"
    have pos: "1 \<le> er_seq r" using assms(1) r(1) by (auto simp: log_ordered_def)
    with r(2) d(3) have ne: "ds \<noteq> []" "er_seq r \<le> er_seq (last ds)" by (auto split: if_splits)
    have "last ds \<in> set ?rows" using d(1) ne(1) by (metis UnCI last_in_set set_append)
    with ne(2) r(1) have rin: "r \<in> set ?rows" by auto
    have "sorted_wrt (<) (map er_seq ?rows)"
      using assms(1) by (auto simp: log_ordered_def sorted_wrt_map sorted_wrt_filter)
    then have "\<forall>x \<in> set rest. er_seq (last ds) < er_seq x"
      using ne(1) unfolding d(1) by (auto simp: sorted_wrt_append)
    with ne(2) have "r \<notin> set rest" by auto
    with rin d(1,2) show "legacy_processed (processed_event_ids cp) r" by auto
  qed
qed

definition checkpoint0 :: EventProcessingCheckpoint where
  "checkpoint0 = \<lparr>last_processed_seq = 3, processed_event_ids = [''1'', ''3''], checkpoint_updated_at = Ts 0\<rparr>"

theorem import_keeps_pending_events_witness:
  "\<exists>cursor db'. initializeEventOffset (Some checkpoint0) COORDINATOR_EVENT_CONSUMER log_db = Inr (cursor, db') \<and>
     (\<forall>r \<in> set (db_events log_db). er_seq r \<le> cursor \<longrightarrow> legacy_processed (processed_event_ids checkpoint0) r)"
proof -
  have n: "map_of (db_offsets log_db) COORDINATOR_EVENT_CONSUMER = None"
    by (simp add: log_db_def empty_db_def)
  have "\<exists>x. initializeEventOffset (Some checkpoint0) COORDINATOR_EVENT_CONSUMER log_db = Inr x"
    using n by (simp add: initializeEventOffset_def Let_def COORDINATOR_EVENT_CONSUMER_def)
  then obtain cursor db' where i: "initializeEventOffset (Some checkpoint0) COORDINATOR_EVENT_CONSUMER log_db = Inr (cursor, db')"
    by auto
  from import_keeps_pending_events [OF log_db_ordered n i] i show ?thesis by blast
qed

end
