(* ===== verification/Run_Store.thy ===== *)
theory Run_Store
  imports Event_Log
begin

text \<open>
  \<^verbatim>\<open>lib/runStore.ts\<close>: the run table as the authority for claims. \<open>claims_json\<close> is the compatibility
  file \<^verbatim>\<open>claims.json\<close> (\<open>None\<close> when it is missing); until the run table was cut over the file is
  the authority. A transaction that throws leaves the database unchanged, so it returns only
  its error; the projection that follows a commit is best effort.
\<close>

definition CUTOVER_NAME :: string where "CUTOVER_NAME = ''runs''"

definition SESSION_CUTOVER_NAME :: string where "SESSION_CUTOVER_NAME = ''sessions''"

definition claim_updated_at :: "Claim \<Rightarrow> timestamp" where
  "claim_updated_at c =
     or_default (coalesce (c_finished_at c) (coalesce (c_started_at c) (c_last_heartbeat_at c))) (c_claimed_at c)"

text \<open>\<^verbatim>\<open>INSERT ... ON CONFLICT(run_id) DO UPDATE\<close>: an existing row keeps its place and its creation time.\<close>

definition upsertClaim :: "Claim \<Rightarrow> runtime_db \<Rightarrow> runtime_db result" where
  "upsertClaim c db =
     (let rs = (if c_run_id c \<in> set (map rn_run_id (db_runs db))
                then update_where (\<lambda>r. rn_run_id r = c_run_id c)
                       (\<lambda>r. r\<lparr>rn_task_ref := c_task_ref c, rn_agent_id := Some (c_agent_id c), rn_state := c_state c,
                              rn_updated_at := claim_updated_at c, rn_claim_json := Some c\<rparr>) (db_runs db)
                else db_runs db @ [\<lparr>rn_run_id = c_run_id c, rn_task_ref = c_task_ref c,
                       rn_agent_id = Some (c_agent_id c), rn_state = c_state c, rn_created_at = c_claimed_at c,
                       rn_updated_at = claim_updated_at c, rn_claim_json = Some c\<rparr>]) in
      if runs_one_active rs then Inr (db\<lparr>db_runs := rs\<rparr>)
      else Inl (SqliteError ''UNIQUE constraint failed: runs.task_ref''))"

definition readRows :: "runtime_db \<Rightarrow> Claim list" where
  "readRows db = List.map_filter rn_claim_json (db_runs db)"

text \<open>A legacy file with two active claims of one task is not imported.\<close>

definition legacy_claims_ok :: "Claim list \<Rightarrow> bool" where
  "legacy_claims_ok cs \<longleftrightarrow> distinct (map c_task_ref (filter claim_active cs))"

definition importLegacyClaims :: "Claim list option \<Rightarrow> runtime_db \<Rightarrow> (bool \<times> runtime_db) result" where
  "importLegacyClaims claims_json db =
     (if CUTOVER_NAME \<in> set (db_cutovers db) then Inr (False, db)
      else case claims_json of
        None \<Rightarrow> Inr (False, db)
      | Some cs \<Rightarrow>
          if \<not> legacy_claims_ok cs then Inr (False, db)
          else rbind (rfold upsertClaim cs db) (\<lambda>db'.
                 Inr (True, db'\<lparr>db_cutovers := db_cutovers db' @ [CUTOVER_NAME]\<rparr>)))"

definition legacy_session_id :: "env \<Rightarrow> Agent \<Rightarrow> string" where
  "legacy_session_id e a =
     (if truthy (a_session_token a) then the (a_session_token a)
      else ''legacy-'' @ take 24 (sha256 e (a_agent_id a @ [char_of (0::nat)] @ or_default (a_session_handle a) [])))"

text \<open>\<^verbatim>\<open>ORDER BY created_at DESC LIMIT 1\<close>: the latest active run of the agent, the first row on a tie.\<close>

definition latest_active_run :: "string \<Rightarrow> runtime_db \<Rightarrow> string option" where
  "latest_active_run agentId db =
     (case filter (\<lambda>r. rn_agent_id r = Some agentId \<and> active_state (rn_state r)) (db_runs db) of
        [] \<Rightarrow> None
      | r # rs \<Rightarrow> Some (rn_run_id (fold (\<lambda>x m. if ts_le (rn_created_at x) (rn_created_at m) then m else x) rs r)))"

definition running_agent :: "Agent \<Rightarrow> bool" where
  "running_agent a \<longleftrightarrow> truthy (a_session_handle a) \<and> a_status a = AS_running"

text \<open>\<^verbatim>\<open>INSERT OR IGNORE\<close>: a row that violates a uniqueness constraint is skipped.\<close>

definition import_agent_session :: "env \<Rightarrow> Agent \<Rightarrow> runtime_db \<Rightarrow> runtime_db" where
  "import_agent_session e a db =
     (let started = or_default (a_session_started_at a) (a_registered_at a);
          row = \<lparr>ss_session_id = legacy_session_id e a, ss_run_id = latest_active_run (a_agent_id a) db,
                 ss_agent_id = a_agent_id a, ss_provider = a_provider a, ss_state = SS_running,
                 ss_provider_ref = a_provider_ref a, ss_started_at = started, ss_updated_at = started,
                 ss_transport = None, ss_process_pid = None, ss_process_start = None, ss_owner_id = None,
                 ss_owner_expires_at = None, ss_state_reason = None, ss_credential_hash = None\<rparr> in
      if \<not> running_agent a then db
      else if ss_session_id row \<in> set (map ss_session_id (db_sessions db)) \<or>
              \<not> sessions_one_running (db_sessions db @ [row]) then db
      else db\<lparr>db_sessions := db_sessions db @ [row]\<rparr>)"

definition importLegacyAgentSessions ::
  "env \<Rightarrow> Claim list option \<Rightarrow> Agent list option \<Rightarrow> runtime_db \<Rightarrow> runtime_db result" where
  "importLegacyAgentSessions e claims_json agents_json db =
     (if SESSION_CUTOVER_NAME \<in> set (db_cutovers db) then Inr db
      else case agents_json of
        None \<Rightarrow> Inr db
      | Some agents \<Rightarrow>
          rbind (importLegacyClaims claims_json db) (\<lambda>(_, db1).
            if claims_json \<noteq> None \<and> CUTOVER_NAME \<notin> set (db_cutovers db1) then Inr db1
            else (let db2 = fold (import_agent_session e) agents db1 in
                  Inr (db2\<lparr>db_cutovers := db_cutovers db2 @ [SESSION_CUTOVER_NAME]\<rparr>))))"

text \<open>The last session of each agent, in rowid order, decides the token the agent shows.\<close>

definition overlay_sessions :: "session_row list \<Rightarrow> Agent list \<Rightarrow> Agent list" where
  "overlay_sessions ss agents =
     map (\<lambda>a. case List.find (\<lambda>s. ss_agent_id s = a_agent_id a) (rev ss) of
                None \<Rightarrow> a
              | Some s \<Rightarrow> a\<lparr>a_session_token := (if ss_state s \<noteq> SS_offline then Some (ss_session_id s) else None)\<rparr>) agents"

definition withAuthoritativeAgentSessions ::
  "env \<Rightarrow> Claim list option \<Rightarrow> Agent list option \<Rightarrow> Agent list \<Rightarrow> runtime_db \<Rightarrow> (Agent list \<times> runtime_db) result" where
  "withAuthoritativeAgentSessions e claims_json agents_json agents db =
     rbind (if SESSION_CUTOVER_NAME \<in> set (db_cutovers db) then Inr db
            else importLegacyAgentSessions e claims_json agents_json db) (\<lambda>db'.
       Inr (overlay_sessions (db_sessions db') agents, db'))"

text \<open>
  The claims a reader sees, the database after a first-read import, and the compatibility file
  it rewrites.
\<close>

definition readAuthoritativeClaims ::
  "Claim list option \<Rightarrow> runtime_db \<Rightarrow> (Claim list option \<times> Claim list option \<times> runtime_db) result" where
  "readAuthoritativeClaims claims_json db =
     rbind (if CUTOVER_NAME \<notin> set (db_cutovers db) \<and> claims_json \<noteq> None
            then importLegacyClaims claims_json db else Inr (False, db)) (\<lambda>(imported, db').
       (let claims = (if CUTOVER_NAME \<in> set (db_cutovers db') then Some (readRows db') else None) in
        Inr (claims, if imported \<and> claims \<noteq> None then claims else claims_json, db')))"

definition commit_claims_txn :: "env \<Rightarrow> Claim list option \<Rightarrow> Claim list \<Rightarrow> OrcEvent list \<Rightarrow> runtime_db \<Rightarrow> runtime_db result" where
  "commit_claims_txn e claims_json cs events db =
     rbind (importLegacyClaims claims_json db) (\<lambda>(_, db1).
       (let desired = map c_run_id cs;
            db2 = fold delete_run (filter (\<lambda>r. r \<notin> set desired) (map rn_run_id (db_runs db1))) db1 in
        rbind (rfold upsertClaim cs db2) (\<lambda>db3.
          rfold (append_event e) events
            (db3\<lparr>db_cutovers := (if CUTOVER_NAME \<in> set (db_cutovers db3) then db_cutovers db3
                                 else db_cutovers db3 @ [CUTOVER_NAME])\<rparr>))))"

record provider_session =
  ps_sessionId :: string
  ps_runId :: "string option"
  ps_agentId :: string
  ps_provider :: string
  ps_providerRef :: "string option"
  ps_startedAt :: timestamp
  ps_transport :: "string option"
  ps_processPid :: "int option"
  ps_processStart :: "string option"
  ps_ownerId :: "string option"
  ps_ownerExpiresAt :: "timestamp option"
  ps_credentialHash :: "string option"

definition session_row_of :: "provider_session \<Rightarrow> session_row" where
  "session_row_of p =
     \<lparr>ss_session_id = ps_sessionId p, ss_run_id = ps_runId p, ss_agent_id = ps_agentId p, ss_provider = ps_provider p,
      ss_state = SS_running, ss_provider_ref = ps_providerRef p, ss_started_at = ps_startedAt p,
      ss_updated_at = ps_startedAt p, ss_transport = ps_transport p, ss_process_pid = ps_processPid p,
      ss_process_start = ps_processStart p, ss_owner_id = ps_ownerId p, ss_owner_expires_at = ps_ownerExpiresAt p,
      ss_state_reason = None, ss_credential_hash = ps_credentialHash p\<rparr>"

definition refresh_session :: "provider_session \<Rightarrow> session_row \<Rightarrow> session_row" where
  "refresh_session p s =
     s\<lparr>ss_state := SS_running, ss_provider_ref := ps_providerRef p, ss_updated_at := ps_startedAt p,
       ss_transport := ps_transport p, ss_process_pid := ps_processPid p, ss_process_start := ps_processStart p,
       ss_owner_id := ps_ownerId p, ss_owner_expires_at := ps_ownerExpiresAt p, ss_state_reason := None,
       ss_credential_hash := coalesce (ps_credentialHash p) (ss_credential_hash s)\<rparr>"

definition credential_hashes_ok :: "session_row list \<Rightarrow> bool" where
  "credential_hashes_ok ss \<longleftrightarrow> distinct (List.map_filter ss_credential_hash ss)"

definition close_sessions :: "(session_row \<Rightarrow> bool) \<Rightarrow> string \<Rightarrow> timestamp \<Rightarrow> session_row list \<Rightarrow> session_row list" where
  "close_sessions P reason at ss =
     update_where (\<lambda>s. P s \<and> ss_state s \<noteq> SS_offline)
       (\<lambda>s. s\<lparr>ss_state := SS_offline, ss_state_reason := Some reason, ss_updated_at := at\<rparr>) ss"

text \<open>The two statements on the session table: supersede the agent's other sessions, then upsert.\<close>

definition record_session_rows :: "provider_session \<Rightarrow> session_row list \<Rightarrow> session_row list" where
  "record_session_rows p ss =
     (let closed = close_sessions (\<lambda>s. ss_agent_id s = ps_agentId p \<and> ss_session_id s \<noteq> ps_sessionId p)
            ''superseded by a new session'' (ps_startedAt p) ss in
      if ps_sessionId p \<in> set (map ss_session_id closed)
      then update_where (\<lambda>s. ss_session_id s = ps_sessionId p) (refresh_session p) closed
      else closed @ [session_row_of p])"

definition recordProviderSession ::
  "env \<Rightarrow> Claim list option \<Rightarrow> Agent list option \<Rightarrow> provider_session \<Rightarrow> runtime_db \<Rightarrow> (bool \<times> runtime_db) result" where
  "recordProviderSession e claims_json agents_json p db =
     (if ps_sessionId p = ps_agentId p \<or> Some (ps_sessionId p) = ps_runId p
      then Inl (PlainError ''Provider session ID must differ from agent and run IDs'')
      else rbind (importLegacyAgentSessions e claims_json agents_json db) (\<lambda>db1.
        if (case ps_runId p of None \<Rightarrow> False | Some r \<Rightarrow> r \<notin> set (map rn_run_id (db_runs db1)))
        then Inr (False, db1)
        else
          (let ss = record_session_rows p (db_sessions db1) in
           if sessions_one_running ss \<and> credential_hashes_ok ss then Inr (True, db1\<lparr>db_sessions := ss\<rparr>)
           else Inl (SqliteError ''UNIQUE constraint failed: sessions''))))"

definition closeProviderSessionsForAgent ::
  "env \<Rightarrow> Claim list option \<Rightarrow> Agent list option \<Rightarrow> string \<Rightarrow> timestamp \<Rightarrow> runtime_db \<Rightarrow> runtime_db result" where
  "closeProviderSessionsForAgent e claims_json agents_json agentId at db =
     rbind (importLegacyAgentSessions e claims_json agents_json db) (\<lambda>db1.
       Inr (db1\<lparr>db_sessions := close_sessions (\<lambda>s. ss_agent_id s = agentId) ''session closed'' at (db_sessions db1)\<rparr>))"

definition reactivate_latest :: "timestamp \<Rightarrow> Agent \<Rightarrow> runtime_db \<Rightarrow> runtime_db result" where
  "reactivate_latest at a db =
     (if \<not> running_agent a then Inr db
      else case List.find (\<lambda>s. ss_agent_id s = a_agent_id a) (rev (db_sessions db)) of
        None \<Rightarrow> Inr db
      | Some s \<Rightarrow>
          (let ss = update_where (\<lambda>x. ss_session_id x = ss_session_id s)
                      (\<lambda>x. x\<lparr>ss_state := SS_running, ss_updated_at := at\<rparr>) (db_sessions db) in
           if sessions_one_running ss then Inr (db\<lparr>db_sessions := ss\<rparr>)
           else Inl (SqliteError ''UNIQUE constraint failed: sessions.agent_id'')))"

definition restoreProviderSessionsForAgents ::
  "env \<Rightarrow> Claim list option \<Rightarrow> Agent list option \<Rightarrow> Agent list \<Rightarrow> timestamp \<Rightarrow> runtime_db \<Rightarrow> runtime_db result" where
  "restoreProviderSessionsForAgents e claims_json agents_json agents at db =
     rbind (importLegacyAgentSessions e claims_json agents_json db) (rfold (reactivate_latest at) agents)"

section \<open>Integrity of the run table\<close>

definition row_matches :: "run_row \<Rightarrow> bool" where
  "row_matches r \<longleftrightarrow> (case rn_claim_json r of None \<Rightarrow> True | Some c \<Rightarrow>
     rn_run_id r = c_run_id c \<and> rn_task_ref r = c_task_ref c \<and> rn_state r = c_state c \<and> rn_agent_id r = Some (c_agent_id c))"

definition runs_inv :: "runtime_db \<Rightarrow> bool" where
  "runs_inv db \<longleftrightarrow> distinct (map rn_run_id (db_runs db)) \<and> runs_one_active (db_runs db) \<and>
     (\<forall>r \<in> set (db_runs db). row_matches r)"

text \<open>What every reader of the claims may rely on: one claim per run, one active claim per task.\<close>

definition claims_ok :: "Claim list \<Rightarrow> bool" where
  "claims_ok cs \<longleftrightarrow> distinct (map c_run_id cs) \<and> distinct (map c_task_ref (filter claim_active cs))"

lemma map_filter_rows:
  assumes "\<forall>r \<in> set rs. row_matches r"
  shows "map c_run_id (List.map_filter rn_claim_json rs) = map rn_run_id (filter (\<lambda>r. rn_claim_json r \<noteq> None) rs)"
    and "map c_task_ref (filter claim_active (List.map_filter rn_claim_json rs)) =
      map rn_task_ref (filter (\<lambda>r. rn_claim_json r \<noteq> None) (filter (\<lambda>r. active_state (rn_state r)) rs))"
  using assms
  by (induction rs) (auto simp: row_matches_def List.map_filter_simps claim_active_def split: option.splits)

lemma readRows_claims_ok: "runs_inv db \<Longrightarrow> claims_ok (readRows db)"
  unfolding runs_inv_def claims_ok_def readRows_def runs_one_active_def
  by (simp add: map_filter_rows distinct_map_filter distinct_map_filter_conj)

lemma upsertClaim_Inr:
  assumes "upsertClaim c db = Inr db'"
  obtains rs where "db' = db\<lparr>db_runs := rs\<rparr>" "runs_one_active rs"
    "rs = (if c_run_id c \<in> set (map rn_run_id (db_runs db))
            then update_where (\<lambda>r. rn_run_id r = c_run_id c)
                   (\<lambda>r. r\<lparr>rn_task_ref := c_task_ref c, rn_agent_id := Some (c_agent_id c), rn_state := c_state c,
                          rn_updated_at := claim_updated_at c, rn_claim_json := Some c\<rparr>) (db_runs db)
            else db_runs db @ [\<lparr>rn_run_id = c_run_id c, rn_task_ref = c_task_ref c,
                   rn_agent_id = Some (c_agent_id c), rn_state = c_state c, rn_created_at = c_claimed_at c,
                   rn_updated_at = claim_updated_at c, rn_claim_json = Some c\<rparr>])"
  using assms by (auto simp: upsertClaim_def Let_def split: if_splits)

lemma runs_inv_upsert:
  assumes "runs_inv db" "upsertClaim c db = Inr db'"
  shows "runs_inv db'"
  using assms(2)
proof (rule upsertClaim_Inr)
  fix rs
  assume rs: "db' = db\<lparr>db_runs := rs\<rparr>" "runs_one_active rs"
    "rs = (if c_run_id c \<in> set (map rn_run_id (db_runs db))
            then update_where (\<lambda>r. rn_run_id r = c_run_id c)
                   (\<lambda>r. r\<lparr>rn_task_ref := c_task_ref c, rn_agent_id := Some (c_agent_id c), rn_state := c_state c,
                          rn_updated_at := claim_updated_at c, rn_claim_json := Some c\<rparr>) (db_runs db)
            else db_runs db @ [\<lparr>rn_run_id = c_run_id c, rn_task_ref = c_task_ref c,
                   rn_agent_id = Some (c_agent_id c), rn_state = c_state c, rn_created_at = c_claimed_at c,
                   rn_updated_at = claim_updated_at c, rn_claim_json = Some c\<rparr>])"
  show "runs_inv db'"
  proof (cases "c_run_id c \<in> set (map rn_run_id (db_runs db))")
    case True
    then have e: "rs = update_where (\<lambda>r. rn_run_id r = c_run_id c)
                   (\<lambda>r. r\<lparr>rn_task_ref := c_task_ref c, rn_agent_id := Some (c_agent_id c), rn_state := c_state c,
                          rn_updated_at := claim_updated_at c, rn_claim_json := Some c\<rparr>) (db_runs db)" using rs(3) by simp
    have "map rn_run_id rs = map rn_run_id (db_runs db)" unfolding e by (rule map_update_where_same) simp
    moreover have "\<forall>r \<in> set rs. row_matches r" unfolding e ball_update_where
      using assms(1) by (simp add: runs_inv_def row_matches_def)
    ultimately show ?thesis using assms(1) rs(1,2) by (simp add: runs_inv_def)
  next
    case False
    then show ?thesis using assms(1) rs by (simp add: runs_inv_def row_matches_def)
  qed
qed

lemma runs_inv_delete: "runs_inv db \<Longrightarrow> runs_inv (delete_run i db)"
  unfolding runs_inv_def runs_one_active_def delete_run_def
  by (simp add: distinct_map_filter distinct_map_filter_conj)

lemma runs_inv_cong: "db_runs db' = db_runs db \<Longrightarrow> runs_inv db' = runs_inv db"
  by (simp add: runs_inv_def)

lemma rfold_upsert_inv: "rfold upsertClaim cs db = Inr db' \<Longrightarrow> runs_inv db \<Longrightarrow> runs_inv db'"
  by (erule rfold_invariant) (auto intro: runs_inv_upsert)

lemma fold_delete_inv: "runs_inv db \<Longrightarrow> runs_inv (fold delete_run is db)"
  by (induction "is" arbitrary: db) (auto intro: runs_inv_delete)

lemma rfold_append_db:
  assumes "rfold (append_event e) evs db = Inr db'"
  shows "\<exists>rows n. db' = db\<lparr>db_events := rows, db_event_seq := n\<rparr>"
  using assms
proof (induction evs arbitrary: db)
  case Nil
  then have "db' = db\<lparr>db_events := db_events db, db_event_seq := db_event_seq db\<rparr>" by simp
  then show ?case by blast
next
  case (Cons ev evs)
  then obtain db1 where 1: "append_event e ev db = Inr db1" "rfold (append_event e) evs db1 = Inr db'"
    by (auto simp: rbind_Inr_iff)
  from 1(1) obtain rows n where "db1 = db\<lparr>db_events := rows, db_event_seq := n\<rparr>"
    by (rule append_event_Inr) blast
  with Cons.IH [OF 1(2)] show ?case by auto
qed

lemma rfold_append_frame:
  assumes "rfold (append_event e) evs db = Inr db'"
  shows "db_runs db' = db_runs db" "db_sessions db' = db_sessions db" "db_commands db' = db_commands db"
    "db_offsets db' = db_offsets db" "db_cutovers db' = db_cutovers db"
  using rfold_append_db [OF assms] by auto

lemma importLegacyClaims_inv:
  assumes "importLegacyClaims cj db = Inr (b, db')" "runs_inv db"
  shows "runs_inv db'"
  using assms by (auto simp: importLegacyClaims_def rbind_Inr_iff intro: rfold_upsert_inv
      runs_inv_cong [THEN iffD2, rotated] split: if_splits option.splits)

lemma commit_keeps_runs_inv:
  assumes "runs_inv db" and "commit_claims_txn e cj cs evs db = Inr db'"
  shows "runs_inv db'"
proof -
  from assms(2) obtain b db1 db3 where 1: "importLegacyClaims cj db = Inr (b, db1)"
    and 2: "rfold upsertClaim cs (fold delete_run (filter (\<lambda>r. r \<notin> set (map c_run_id cs)) (map rn_run_id (db_runs db1))) db1) = Inr db3"
    and 3: "rfold (append_event e) evs (db3\<lparr>db_cutovers := (if CUTOVER_NAME \<in> set (db_cutovers db3) then db_cutovers db3
                                 else db_cutovers db3 @ [CUTOVER_NAME])\<rparr>) = Inr db'"
    by (auto simp: commit_claims_txn_def rbind_Inr_iff Let_def)
  have "runs_inv db3"
    using 2 fold_delete_inv [OF importLegacyClaims_inv [OF 1 assms(1)]] by (rule rfold_upsert_inv)
  with rfold_append_frame(1) [OF 3] show ?thesis by (simp add: runs_inv_def)
qed

text \<open>
  Committing claims keeps the run table sound whatever claims the caller passes: run identifiers
  are unique, each row agrees with the claim it stores, and no task has two active runs, so every
  later reader sees at most one active claim per task.
\<close>

theorem commit_keeps_one_active_claim:
  assumes "runs_inv db" and "commit_claims_txn e cj cs evs db = Inr db'"
  shows "runs_inv db' \<and> claims_ok (readRows db')"
  using commit_keeps_runs_inv [OF assms] readRows_claims_ok by blast

section \<open>What a commit stores is what readers see\<close>

lemma rfold_upsert_existing:
  assumes "rfold upsertClaim cs (db\<lparr>db_runs := pre @ rest\<rparr>) = Inr db'" and "map rn_run_id rest = map c_run_id cs"
    and "distinct (map rn_run_id (pre @ rest))"
  shows "\<exists>rest'. db' = db\<lparr>db_runs := pre @ rest'\<rparr> \<and> map rn_run_id rest' = map c_run_id cs \<and>
     map rn_claim_json rest' = map Some cs"
  using assms
proof (induction cs arbitrary: pre rest)
  case Nil
  then show ?case by auto
next
  case (Cons c cs)
  then obtain r rs where rest: "rest = r # rs" "rn_run_id r = c_run_id c" "map rn_run_id rs = map c_run_id cs" by auto
  from Cons.prems(1) obtain db1 where 1: "upsertClaim c (db\<lparr>db_runs := pre @ rest\<rparr>) = Inr db1" "rfold upsertClaim cs db1 = Inr db'"
    by (auto simp: rbind_Inr_iff)
  let ?r = "r\<lparr>rn_task_ref := c_task_ref c, rn_agent_id := Some (c_agent_id c), rn_state := c_state c,
                          rn_updated_at := claim_updated_at c, rn_claim_json := Some c\<rparr>"
  have id: "update_where (\<lambda>r. rn_run_id r = c_run_id c) f xs = xs" if "c_run_id c \<notin> rn_run_id ` set xs" for f and xs :: "run_row list"
    using that by (intro update_where_id) (metis image_eqI)
  have "rn_run_id ` set rs = c_run_id ` set cs" using rest(3) by (metis set_map)
  then have n: "c_run_id c \<notin> rn_run_id ` set pre" "c_run_id c \<notin> rn_run_id ` set rs"
    using Cons.prems(3) rest(1,2) by auto
  have "db1 = db\<lparr>db_runs := (pre @ [?r]) @ rs\<rparr>"
    using 1(1) rest(1,2) by (elim upsertClaim_Inr) (simp add: id [OF n(1)] id [OF n(2)])
  with 1(2) Cons.IH [of "pre @ [?r]" rs] rest Cons.prems(3)
  obtain rest' where "db' = db\<lparr>db_runs := (pre @ [?r]) @ rest'\<rparr>" "map rn_run_id rest' = map c_run_id cs"
     "map rn_claim_json rest' = map Some cs" by auto
  then show ?case using rest(2) by (intro exI [of _ "?r # rest'"]) simp
qed

lemma rfold_upsert_new:
  assumes "rfold upsertClaim cs (db\<lparr>db_runs := rs\<rparr>) = Inr db'" and "distinct (map rn_run_id rs @ map c_run_id cs)"
  shows "\<exists>new. db' = db\<lparr>db_runs := rs @ new\<rparr> \<and> map rn_run_id new = map c_run_id cs \<and> map rn_claim_json new = map Some cs"
  using assms
proof (induction cs arbitrary: rs)
  case Nil
  then show ?case by auto
next
  case (Cons c cs)
  from Cons.prems(1) obtain db1 where 1: "upsertClaim c (db\<lparr>db_runs := rs\<rparr>) = Inr db1" "rfold upsertClaim cs db1 = Inr db'"
    by (auto simp: rbind_Inr_iff)
  let ?r = "\<lparr>rn_run_id = c_run_id c, rn_task_ref = c_task_ref c,
                   rn_agent_id = Some (c_agent_id c), rn_state = c_state c, rn_created_at = c_claimed_at c,
                   rn_updated_at = claim_updated_at c, rn_claim_json = Some c\<rparr>"
  have "c_run_id c \<notin> set (map rn_run_id rs)" using Cons.prems(2) by auto
  then have "db1 = db\<lparr>db_runs := rs @ [?r]\<rparr>"
    using 1(1) by (elim upsertClaim_Inr) simp
  with 1(2) Cons.IH [of "rs @ [?r]"] Cons.prems(2)
  obtain new where "db' = db\<lparr>db_runs := (rs @ [?r]) @ new\<rparr>" "map rn_run_id new = map c_run_id cs"
    "map rn_claim_json new = map Some cs" by auto
  then show ?case by (intro exI [of _ "?r # new"]) simp
qed

lemma map_filter_Some: "map f xs = map Some ys \<Longrightarrow> List.map_filter f xs = ys"
  by (induction xs arbitrary: ys) (auto simp: List.map_filter_simps)

definition cut_over :: "runtime_db \<Rightarrow> bool" where
  "cut_over db \<longleftrightarrow> CUTOVER_NAME \<in> set (db_cutovers db) \<and> (\<forall>r \<in> set (db_runs db). rn_claim_json r \<noteq> None)"

lemma fold_delete_run_ids: "(\<forall>i \<in> set is. i \<notin> rn_run_id ` set (db_runs db)) \<Longrightarrow> db_runs (fold delete_run is db) = db_runs db"
proof (induction "is" arbitrary: db)
  case (Cons i "is")
  have "filter (\<lambda>r. rn_run_id r \<noteq> i) (db_runs db) = db_runs db"
    using Cons.prems by (auto simp: filter_id_conv)
  with Cons show ?case by (simp add: delete_run_def)
qed simp

lemma readRows_ids:
  assumes "runs_inv db" "cut_over db"
  shows "map c_run_id (readRows db) = map rn_run_id (db_runs db)"
  using assms map_filter_rows(1) [of "db_runs db"]
  by (simp add: runs_inv_def cut_over_def readRows_def filter_True)

lemma commit_roundtrip_lemma:
  assumes "runs_inv db" "cut_over db" and ids: "map c_run_id cs = map c_run_id (readRows db) @ new" and "distinct (map c_run_id cs)"
    and "commit_claims_txn e cj cs evs db = Inr db'"
  shows "readRows db' = cs" "cut_over db'"
proof -
  have imp: "importLegacyClaims cj db = Inr (False, db)" using assms(2) by (simp add: importLegacyClaims_def cut_over_def)
  have all: "map c_run_id cs = map rn_run_id (db_runs db) @ new" using ids readRows_ids [OF assms(1,2)] by simp
  have "\<forall>i \<in> set (map rn_run_id (db_runs db)). i \<in> set (map c_run_id cs)" using all by auto
  then have del: "filter (\<lambda>r. r \<notin> set (map c_run_id cs)) (map rn_run_id (db_runs db)) = []"
    by (auto simp: filter_empty_conv)
  let ?n = "length (db_runs db)"
  have cs: "cs = take ?n cs @ drop ?n cs" by simp
  have ids1: "map rn_run_id (db_runs db) = map c_run_id (take ?n cs)"
    using all by (simp add: take_map [symmetric])
  from assms(5) obtain db3 where up: "rfold upsertClaim cs db = Inr db3"
    and ev: "rfold (append_event e) evs (db3\<lparr>db_cutovers := (if CUTOVER_NAME \<in> set (db_cutovers db3) then db_cutovers db3
                                 else db_cutovers db3 @ [CUTOVER_NAME])\<rparr>) = Inr db'"
    unfolding commit_claims_txn_def imp by (auto simp: rbind_Inr_iff Let_def del [simplified])
  have "rfold upsertClaim (take ?n cs @ drop ?n cs) db = Inr db3" using up by simp
  then obtain db2 where 2: "rfold upsertClaim (take ?n cs) db = Inr db2" "rfold upsertClaim (drop ?n cs) db2 = Inr db3"
    unfolding rfold_append rbind_Inr_iff by blast
  have "db = db\<lparr>db_runs := [] @ db_runs db\<rparr>" by simp
  with 2(1) rfold_upsert_existing [where cs = "take ?n cs" and db = db and pre = "[]" and rest = "db_runs db" and db' = db2] ids1 assms(1)
  obtain rs where rs: "db2 = db\<lparr>db_runs := rs\<rparr>" "map rn_run_id rs = map c_run_id (take ?n cs)"
    "map rn_claim_json rs = map Some (take ?n cs)" by (auto simp: runs_inv_def)
  have "distinct (map rn_run_id rs @ map c_run_id (drop ?n cs))"
    using assms(4) rs(2) by (metis append_take_drop_id map_append)
  with 2(2) rs(1) rfold_upsert_new [where cs = "drop ?n cs" and db = db and rs = rs and db' = db3]
  obtain nr where nr: "db3 = db\<lparr>db_runs := rs @ nr\<rparr>" "map rn_claim_json nr = map Some (drop ?n cs)" by auto
  have m: "map rn_claim_json (rs @ nr) = map Some cs" using rs(3) nr(2) by (metis append_take_drop_id map_append)
  have runs: "db_runs db' = rs @ nr" using rfold_append_frame(1) [OF ev] nr(1) by simp
  show "readRows db' = cs" unfolding readRows_def runs using m by (rule map_filter_Some)
  have "CUTOVER_NAME \<in> set (db_cutovers db')" using rfold_append_frame(5) [OF ev] by simp
  moreover have "\<forall>r \<in> set (rs @ nr). rn_claim_json r \<noteq> None"
    using m by (metis (no_types, lifting) imageE image_eqI list.set_map option.distinct(1))
  ultimately show "cut_over db'" using runs by (simp add: cut_over_def)
qed



definition claim0_run :: "string \<Rightarrow> string \<Rightarrow> ClaimState \<Rightarrow> Claim" where
  "claim0_run run ref st = \<lparr>c_run_id = run, c_task_ref = ref, c_agent_id = ''w'', c_state = st, c_claimed_at = Ts 0,
     c_lease_expires_at = Some (Ts 10), c_task_envelope_sent_at = None, c_last_heartbeat_at = None,
     c_started_at = None, c_finished_at = None, c_failure_reason = None, c_finalization_state = None,
     c_finalization_retry_count = Some 0, c_finalization_blocked_reason = None, c_input_state = None,
     c_input_requested_at = None, c_session_start_retry_count = 0, c_session_start_retry_next_at = None,
     c_session_start_last_error = None, c_escalation_notified_at = None, c_pr_ref = None, c_pr_created_at = None,
     c_pr_initial_work_complete_seq = None, c_task_spec_snapshot = None\<rparr>"

definition runs_db :: runtime_db where
  "runs_db = empty_db\<lparr>db_cutovers := [CUTOVER_NAME]\<rparr>"

definition runs_db' :: runtime_db where
  "runs_db' = runs_db\<lparr>db_runs := [\<lparr>rn_run_id = ''run-1'', rn_task_ref = ''f/a'', rn_agent_id = Some ''w'',
     rn_state = CS_claimed, rn_created_at = Ts 0, rn_updated_at = Ts 0,
     rn_claim_json = Some (claim0_run ''run-1'' ''f/a'' CS_claimed)\<rparr>]\<rparr>"

lemma runs_db_inv: "runs_inv runs_db" "cut_over runs_db"
  by (simp_all add: runs_inv_def cut_over_def runs_db_def empty_db_def runs_one_active_def)

lemma runs_db_commit:
  "commit_claims_txn env0 None [claim0_run ''run-1'' ''f/a'' CS_claimed] [] runs_db = Inr runs_db'"
  by (simp add: commit_claims_txn_def importLegacyClaims_def runs_db_def runs_db'_def empty_db_def upsertClaim_def
      runs_one_active_def claim0_run_def claim_updated_at_def Let_def)

theorem commit_keeps_one_active_claim_witness: "runs_inv runs_db' \<and> claims_ok (readRows runs_db')"
  by (rule commit_keeps_one_active_claim [OF runs_db_inv(1) runs_db_commit])


section \<open>Sessions\<close>

lemma close_sessions_ids [simp]:
  "map ss_session_id (close_sessions P reason at ss) = map ss_session_id ss"
  "map ss_agent_id (close_sessions P reason at ss) = map ss_agent_id ss"
  by (simp_all add: close_sessions_def map_update_where_same)

text \<open>
  Recording a provider session makes it the only running session of its agent: after a
  successful call the session is stored as running, and every other session of that agent is
  offline.
\<close>

theorem recorded_session_is_current:
  assumes "recordProviderSession e cj aj p db = Inr (True, db')"
    and "\<forall>s \<in> set (db_sessions db'). ss_session_id s = ps_sessionId p \<longrightarrow> ss_agent_id s = ps_agentId p"
  shows "(\<exists>s \<in> set (db_sessions db'). ss_session_id s = ps_sessionId p \<and> ss_agent_id s = ps_agentId p \<and> ss_state s = SS_running) \<and>
    (\<forall>s \<in> set (db_sessions db'). ss_agent_id s = ps_agentId p \<and> ss_session_id s \<noteq> ps_sessionId p \<longrightarrow> ss_state s = SS_offline)"
proof -
  from assms(1) have "\<exists>ss. db_sessions db' = record_session_rows p ss"
    by (auto simp: recordProviderSession_def rbind_Inr_iff Let_def split: if_splits)
  then obtain ss where db': "db_sessions db' = record_session_rows p ss" ..
  define closed where "closed = close_sessions (\<lambda>s. ss_agent_id s = ps_agentId p \<and> ss_session_id s \<noteq> ps_sessionId p)
                 ''superseded by a new session'' (ps_startedAt p) ss"
  have off: "\<forall>s \<in> set closed. ss_agent_id s = ps_agentId p \<and> ss_session_id s \<noteq> ps_sessionId p \<longrightarrow> ss_state s = SS_offline"
    by (auto simp: closed_def close_sessions_def ball_update_where)
  show ?thesis
  proof (cases "ps_sessionId p \<in> set (map ss_session_id closed)")
    case True
    then have eq: "db_sessions db' = update_where (\<lambda>s. ss_session_id s = ps_sessionId p) (refresh_session p) closed"
      unfolding db' record_session_rows_def Let_def closed_def by simp
    from True obtain s where s: "s \<in> set closed" "ss_session_id s = ps_sessionId p"
      by auto
    then have "refresh_session p s \<in> set (db_sessions db')" unfolding eq set_update_where by (metis (mono_tags, lifting) image_eqI)
    then have "\<exists>s \<in> set (db_sessions db'). ss_session_id s = ps_sessionId p \<and> ss_agent_id s = ps_agentId p \<and> ss_state s = SS_running"
      using s(2) assms(2) by (intro bexI [of _ "refresh_session p s"]) (auto simp: refresh_session_def)
    moreover have "\<forall>s \<in> set (db_sessions db'). ss_agent_id s = ps_agentId p \<and> ss_session_id s \<noteq> ps_sessionId p \<longrightarrow> ss_state s = SS_offline"
      unfolding eq ball_update_where using off by (auto simp: refresh_session_def)
    ultimately show ?thesis by blast
  next
    case False
    then have eq: "db_sessions db' = closed @ [session_row_of p]" unfolding db' record_session_rows_def Let_def closed_def by simp
    show ?thesis unfolding eq using off by (auto simp: session_row_of_def)
  qed
qed

definition session0 :: provider_session where
  "session0 = \<lparr>ps_sessionId = ''s1'', ps_runId = Some ''run-1'', ps_agentId = ''w'', ps_provider = ''codex'',
     ps_providerRef = None, ps_startedAt = Ts 1, ps_transport = None, ps_processPid = None, ps_processStart = None,
     ps_ownerId = None, ps_ownerExpiresAt = None, ps_credentialHash = None\<rparr>"

theorem recorded_session_is_current_witness:
  "\<exists>db'. recordProviderSession env0 None None session0 runs_db' = Inr (True, db') \<and>
     (\<exists>s \<in> set (db_sessions db'). ss_session_id s = ''s1'' \<and> ss_agent_id s = ''w'' \<and> ss_state s = SS_running)"
proof -
  have r: "recordProviderSession env0 None None session0 runs_db' =
      Inr (True, runs_db'\<lparr>db_sessions := [session_row_of session0]\<rparr>)"
    by (simp add: recordProviderSession_def session0_def importLegacyAgentSessions_def runs_db'_def runs_db_def
        empty_db_def record_session_rows_def close_sessions_def session_row_of_def sessions_one_running_def credential_hashes_ok_def
        List.map_filter_simps Let_def SESSION_CUTOVER_NAME_def CUTOVER_NAME_def)
  have "(\<exists>s \<in> set (db_sessions (runs_db'\<lparr>db_sessions := [session_row_of session0]\<rparr>)).
      ss_session_id s = ps_sessionId session0 \<and> ss_agent_id s = ps_agentId session0 \<and> ss_state s = SS_running)"
    by (rule conjunct1 [OF recorded_session_is_current [OF r]]) (simp add: session_row_of_def)
  with r show ?thesis by (auto simp: session0_def)
qed

end
