(* ===== verification/Project_Tasks.thy ===== *)
theory Project_Tasks
  imports Task_Store_Props Run_Store
begin

text \<open>
  \<^verbatim>\<open>lib/projectTasks.ts\<close> and \<^verbatim>\<open>lib/stateReader.ts\<close>: the state directory as one record, the projection of
  the task store into the legacy backlog shape, and the lifecycle writes that go through
  \<^verbatim>\<open>commitBacklog\<close>. A state directory with a task database is a project directory
  (\<open>st_store = Some _\<close>); any other keeps \<^verbatim>\<open>backlog.json\<close>.
\<close>

section \<open>The state directory\<close>

text \<open>
  Operations on the state directory return the state they leave behind also when they fail,
  because a failure can come after an earlier commit. \<^verbatim>\<open>events.db\<close> exists: every operation
  below opens, and so creates, it. \<open>st_descriptor\<close> says that the directory carries a project
  descriptor; \<open>st_run_specs\<close> holds the files of \<^verbatim>\<open>run-specs/\<close> (run id and body).
\<close>

record orc_state =
  st_db :: runtime_db
  st_claims_json :: "Claim list option"
  st_agents_json :: "Agent list option"
  st_store :: "task_store option"
  st_backlog_json :: "Backlog option"
  st_descriptor :: bool
  st_run_specs :: "(string \<times> string) list"

type_synonym 'a outcome = "'a result \<times> orc_state"

section \<open>Projection\<close>

fun json_str :: "json option \<Rightarrow> string option" where
  "json_str (Some (JStr s)) = Some s"
| "json_str _ = None"

fun json_strs :: "json option \<Rightarrow> string list option" where
  "json_strs (Some (JArr xs)) =
     (if xs = [] \<or> (\<exists>x \<in> set xs. json_str (Some x) = None) then None
      else Some (map (\<lambda>x. the (json_str (Some x))) xs))"
| "json_strs _ = None"

definition featureRefOf :: "ProjectTask \<Rightarrow> string" where
  "featureRefOf t = or_default (json_str (map_of (pt_metadata t) ''feature'')) (takeWhile (\<lambda>c. c \<noteq> CHR ''/'') (pt_ref t))"

text \<open>\<^verbatim>\<open>if (value) projected.field = value\<close>: an empty string is left out.\<close>

fun nonempty :: "string option \<Rightarrow> string option" where
  "nonempty (Some (c # cs)) = Some (c # cs)"
| "nonempty _ = None"

text \<open>A metadata value whose type is not the field's is read as absent.\<close>

definition projectTaskToBacklogTask :: "ProjectTask \<Rightarrow> Task" where
  "projectTaskToBacklogTask t =
     (let meta = map_of (pt_metadata t) in
      \<lparr>t_ref = pt_ref t, t_title = pt_title t, t_status = pt_status t,
       t_description = json_str (meta ''description''),
       t_task_type = coalesce (ds_taskType (pt_dispatch t)) (coalesce (json_str (meta ''task_type'')) (Some ''implementation'')),
       t_priority = Some (pt_priority t),
       t_planning_state = nonempty (ds_planningState (pt_dispatch t)),
       t_delegated_by = nonempty (ds_delegatedBy (pt_dispatch t)),
       t_required_capabilities = json_strs (meta ''required_capabilities''),
       t_required_provider = nonempty (pt_requiredProvider t),
       t_model = json_str (meta ''model''),
       t_depends_on = (if pt_dependsOn t = [] then None else Some (pt_dependsOn t)),
       t_acceptance_criteria = json_strs (meta ''acceptance_criteria''),
       t_review_level = json_str (meta ''review_level''),
       t_merge_strategy = json_str (meta ''merge_strategy''),
       t_attempt_count = Some (pt_attemptCount t),
       t_spec_revision = Some (pt_revision t),
       t_requeue_eligible_after = (if ts_truthy (ds_requeueEligibleAfter (pt_dispatch t))
                                   then ds_requeueEligibleAfter (pt_dispatch t) else None),
       t_blocked_reason = nonempty (pt_blockedReason t),
       t_owner = nonempty (ds_owner (pt_dispatch t)),
       t_created_at = Some (pt_createdAt t), t_updated_at = Some (pt_updatedAt t)\<rparr>)"

text \<open>Features appear in the order of their first task.\<close>

fun add_to_feature :: "ProjectTask \<Rightarrow> Feature list \<Rightarrow> Feature list" where
  "add_to_feature t [] = [\<lparr>f_ref = featureRefOf t, f_title = featureRefOf t, f_tasks = [projectTaskToBacklogTask t]\<rparr>]"
| "add_to_feature t (f # fs) =
     (if f_ref f = featureRefOf t then f\<lparr>f_tasks := f_tasks f @ [projectTaskToBacklogTask t]\<rparr> # fs
      else f # add_to_feature t fs)"

definition readProjectBacklog :: "task_store \<Rightarrow> Backlog" where
  "readProjectBacklog s = fold add_to_feature (listTasks s) []"

definition refreshBacklogProjection :: "orc_state \<Rightarrow> orc_state" where
  "refreshBacklogProjection st =
     (case st_store st of
        None \<Rightarrow> st
      | Some s \<Rightarrow> st\<lparr>st_backlog_json := Some (readProjectBacklog s)\<rparr>)"

section \<open>Reading the state directory (lib/stateReader.ts)\<close>

definition isProjectStateDir :: "orc_state \<Rightarrow> bool" where
  "isProjectStateDir st \<longleftrightarrow> st_store st \<noteq> None \<or> st_descriptor st"

definition readBacklog :: "orc_state \<Rightarrow> Backlog result" where
  "readBacklog st =
     (case st_store st of
        Some s \<Rightarrow> Inr (readProjectBacklog s)
      | None \<Rightarrow> (case st_backlog_json st of
                  Some b \<Rightarrow> Inr b
                | None \<Rightarrow> Inl (PlainError ''ENOENT: no such file or directory, open backlog.json'')))"

text \<open>
  The authoritative claims when the run table was cut over (or could be), the file otherwise; a
  missing file reads as no claims.
\<close>

definition readClaims :: "orc_state \<Rightarrow> Claim list \<times> orc_state" where
  "readClaims st =
     (case readAuthoritativeClaims (st_claims_json st) (st_db st) of
        Inr (Some cs, cj, db) \<Rightarrow> (cs, st\<lparr>st_db := db, st_claims_json := cj\<rparr>)
      | Inr (None, cj, db) \<Rightarrow> (or_default (st_claims_json st) [], st\<lparr>st_db := db, st_claims_json := cj\<rparr>)
      | Inl err \<Rightarrow> ([], st))"

text \<open>\<^verbatim>\<open>readJson(stateDir, 'claims.json')\<close>: as \<open>readClaims\<close>, but a missing file or a failed import throws.\<close>

definition readJsonClaims :: "orc_state \<Rightarrow> Claim list outcome" where
  "readJsonClaims st =
     (case readAuthoritativeClaims (st_claims_json st) (st_db st) of
        Inl err \<Rightarrow> (Inl err, st)
      | Inr (Some cs, cj, db) \<Rightarrow> (Inr cs, st\<lparr>st_db := db, st_claims_json := cj\<rparr>)
      | Inr (None, cj, db) \<Rightarrow>
          (case st_claims_json st of
             None \<Rightarrow> (Inl (PlainError ''ENOENT: no such file or directory, open claims.json''), st\<lparr>st_db := db\<rparr>)
           | Some cs \<Rightarrow> (Inr cs, st\<lparr>st_db := db\<rparr>)))"

definition readAgents :: "env \<Rightarrow> orc_state \<Rightarrow> Agent list \<times> orc_state" where
  "readAgents e st =
     (case st_agents_json st of
        None \<Rightarrow> ([], st)
      | Some agents \<Rightarrow>
          (case withAuthoritativeAgentSessions e (st_claims_json st) (st_agents_json st) agents (st_db st) of
             Inl err \<Rightarrow> ([], st)
           | Inr (as, db) \<Rightarrow> (as, st\<lparr>st_db := db\<rparr>)))"

definition findTask :: "Backlog \<Rightarrow> string \<Rightarrow> Task option" where
  "findTask b ref = List.find (\<lambda>t. t_ref t = ref) (backlog_tasks b)"

text \<open>Mutate the object that \<open>findTask\<close> returns.\<close>

fun update_task :: "string \<Rightarrow> (Task \<Rightarrow> Task) \<Rightarrow> Backlog \<Rightarrow> Backlog" where
  "update_task ref f [] = []"
| "update_task ref f (feature # fs) =
     (if \<exists>t \<in> set (f_tasks feature). t_ref t = ref
      then feature\<lparr>f_tasks := update_first (\<lambda>t. t_ref t = ref) f (f_tasks feature)\<rparr> # fs
      else feature # update_task ref f fs)"

section \<open>Lifecycle writes\<close>

record TaskStatusChange =
  sc_cause :: TaskTransitionCause
  sc_reason :: "string option"
  sc_runId :: "string option"
  sc_actorId :: "string option"
  sc_idempotencyKey :: "string option"

definition mk_change :: "TaskTransitionCause \<Rightarrow> string option \<Rightarrow> string option \<Rightarrow> string option \<Rightarrow> TaskStatusChange" where
  "mk_change cause run actor reason =
     \<lparr>sc_cause = cause, sc_reason = reason, sc_runId = run, sc_actorId = actor, sc_idempotencyKey = None\<rparr>"

text \<open>
  The fields owned by specification revisions, with arrays sorted and empty ones dropped. The
  source compares the JSON text of this list; the texts are equal exactly when the lists are.
\<close>

definition sorted_strs :: "string list option \<Rightarrow> json" where
  "sorted_strs x = (case x of None \<Rightarrow> JNull | Some [] \<Rightarrow> JNull | Some xs \<Rightarrow> JArr (map JStr (sort xs)))"

definition normalizedDefinition :: "Task \<Rightarrow> json list" where
  "normalizedDefinition t =
     [JStr (t_title t), jstr_opt (t_priority t), jstr_opt (t_required_provider t), sorted_strs (t_depends_on t),
      jstr_opt (t_description t), sorted_strs (t_acceptance_criteria t), jstr_opt (t_review_level t),
      jstr_opt (t_merge_strategy t), sorted_strs (t_required_capabilities t), jstr_opt (t_model t)]"

fun cause_str :: "TaskTransitionCause \<Rightarrow> string" where
  "cause_str TC_claim = ''claim''"
| "cause_str TC_run_start = ''run_start''"
| "cause_str TC_merge_succeeded = ''merge_succeeded''"
| "cause_str TC_post_merge_release = ''post_merge_release''"
| "cause_str TC_failure_requeue = ''failure_requeue''"
| "cause_str TC_failure_block = ''failure_block''"
| "cause_str TC_manual_block = ''manual_block''"
| "cause_str TC_unblock = ''unblock''"
| "cause_str TC_operator_reset = ''operator_reset''"
| "cause_str TC_cancel = ''cancel''"
| "cause_str TC_migration_import = ''migration_import''"

definition commit_dispatch :: "Task \<Rightarrow> ProjectTask \<Rightarrow> DispatchUpdate" where
  "commit_dispatch task current =
     \<lparr>du_owner = Some (t_owner task), du_planningState = Some (t_planning_state task),
      du_delegatedBy = Some (t_delegated_by task),
      du_taskType = Some (if truthy (t_task_type task) \<and>
                             t_task_type task \<noteq> coalesce (json_str (map_of (pt_metadata current) ''task_type'')) (Some ''implementation'')
                          then t_task_type task else ds_taskType (pt_dispatch current)),
      du_requeueEligibleAfter = Some (t_requeue_eligible_after task),
      du_attemptCount = Some (or_default (t_attempt_count task) 0)\<rparr>"

definition commit_status :: "env \<Rightarrow> TaskStatusChange \<Rightarrow> Task \<Rightarrow> ProjectTask \<Rightarrow> task_store \<Rightarrow> task_store result" where
  "commit_status e change task current s =
     rbind (if sc_cause change = TC_merge_succeeded \<and> pt_status current = TS_claimed
            then applyTransition e (t_ref task)
                   (mk_transition TC_run_start TS_in_progress (sc_runId change) (sc_actorId change) None) s
            else Inr s) (\<lambda>s1.
       applyTransition e (t_ref task)
         \<lparr>ti_cause = sc_cause change, ti_to = t_status task,
          ti_reason = (if t_status task = TS_blocked
                       then coalesce (sc_reason change) (coalesce (t_blocked_reason task) (Some (cause_str (sc_cause change))))
                       else sc_reason change),
          ti_runId = sc_runId change, ti_actorId = sc_actorId change,
          ti_idempotencyKey = sc_idempotencyKey change\<rparr> s1)"

definition commit_task :: "env \<Rightarrow> (string \<times> TaskStatusChange) list \<Rightarrow> Task \<Rightarrow> task_store \<Rightarrow> task_store result" where
  "commit_task e changes task s =
     (case getTask (t_ref task) s of
        None \<Rightarrow> Inl (PlainError (''Task '' @ t_ref task @ '' is not in project SQLite; create it through the task API''))
      | Some current \<Rightarrow>
          if normalizedDefinition task \<noteq> normalizedDefinition (projectTaskToBacklogTask current)
          then Inl (PlainError (''Task '' @ t_ref task @ '' definition fields change only through a spec revision''))
          else rbind (if t_status task \<noteq> pt_status current
                      then (case map_of changes (t_ref task) of
                              None \<Rightarrow> Inl (PlainError (''Task '' @ t_ref task @ '' status change '' @
                                       status_str (pt_status current) @ '' -> '' @ status_str (t_status task) @
                                       '' has no lifecycle cause''))
                            | Some change \<Rightarrow> commit_status e change task current s)
                      else Inr s)
                 (setDispatchState (t_ref task) (commit_dispatch task current)))"

definition commitBacklog :: "env \<Rightarrow> Backlog \<Rightarrow> (string \<times> TaskStatusChange) list \<Rightarrow> orc_state \<Rightarrow> unit outcome" where
  "commitBacklog e backlog changes st =
     (case st_store st of
        None \<Rightarrow> (Inr (), st\<lparr>st_backlog_json := Some backlog\<rparr>)
      | Some s \<Rightarrow>
          (case rfold (commit_task e changes) (backlog_tasks backlog) s of
             Inl err \<Rightarrow> (Inl err, st)
           | Inr s' \<Rightarrow> (Inr (), refreshBacklogProjection (st\<lparr>st_store := Some s'\<rparr>))))"

definition restore_task :: "env \<Rightarrow> Claim list \<Rightarrow> Task \<Rightarrow> task_store \<Rightarrow> task_store result" where
  "restore_task e claims task s =
     (if \<not> task_active (t_status task) then Inr s
      else if map_option pt_status (getTask (t_ref task) s) \<noteq> Some TS_todo then Inr s
      else case List.find (\<lambda>c. c_task_ref c = t_ref task \<and> claim_active c) claims of
        None \<Rightarrow> Inr s
      | Some claim \<Rightarrow>
          rbind (applyTransition e (t_ref task)
                   (mk_transition TC_claim TS_claimed (Some (c_run_id claim)) (Some ''human'') (Some ''session_reset_rollback'')) s) (\<lambda>s1.
          rbind (reactivateRun e (c_run_id claim) s1) (\<lambda>s2.
            if t_status task = TS_in_progress
            then applyTransition e (t_ref task)
                   (mk_transition TC_run_start TS_in_progress (Some (c_run_id claim)) (Some ''human'') None) s2
            else Inr s2)))"

definition restoreBacklogStatuses :: "env \<Rightarrow> Backlog \<Rightarrow> Claim list \<Rightarrow> orc_state \<Rightarrow> unit outcome" where
  "restoreBacklogStatuses e backlog claims st =
     (case st_store st of
        None \<Rightarrow> (Inr (), st\<lparr>st_backlog_json := Some backlog\<rparr>)
      | Some s \<Rightarrow>
          (case rfold (restore_task e claims) (backlog_tasks backlog) s of
             Inl err \<Rightarrow> (Inl err, st)
           | Inr s' \<Rightarrow> (Inr (), refreshBacklogProjection (st\<lparr>st_store := Some s'\<rparr>))))"

definition assertRunMayFinish :: "string \<Rightarrow> orc_state \<Rightarrow> unit result" where
  "assertRunMayFinish taskRef st =
     (case st_store st of
        None \<Rightarrow> Inr ()
      | Some s \<Rightarrow>
          (let status = map_option pt_status (getTask taskRef s) in
           if status = Some TS_done \<or> status = Some TS_released then Inr ()
           else Inl (ConflictError (''run-finish for '' @ taskRef @
                  '' must wait until the coordinator records the merge (task status: '' @
                  (case status of None \<Rightarrow> ''missing'' | Some x \<Rightarrow> status_str x) @
                  ''); run run-work-complete and wait for FINALIZE_SUCCESS''))))"

text \<open>\<^verbatim>\<open>commitClaims\<close> of \<^verbatim>\<open>lib/runStore.ts\<close> on the state directory: one transaction, then the projection.\<close>

definition commitClaims :: "env \<Rightarrow> Claim list \<Rightarrow> OrcEvent list \<Rightarrow> orc_state \<Rightarrow> unit outcome" where
  "commitClaims e cs events st =
     (case commit_claims_txn e (st_claims_json st) cs events (st_db st) of
        Inl err \<Rightarrow> (Inl err, st)
      | Inr db \<Rightarrow> (Inr (), st\<lparr>st_db := db, st_claims_json := Some cs\<rparr>))"

definition appendEventTo :: "env \<Rightarrow> OrcEvent \<Rightarrow> orc_state \<Rightarrow> unit outcome" where
  "appendEventTo e ev st =
     (case append_event e ev (st_db st) of
        Inl err \<Rightarrow> (Inl err, st)
      | Inr db \<Rightarrow> (Inr (), st\<lparr>st_db := db\<rparr>))"

section \<open>Run specification snapshots (lib/documentIndex.ts)\<close>

text \<open>Write the exact body of a pinned revision; the file must be new.\<close>

definition writeRunRevisionSnapshot ::
  "env \<Rightarrow> string \<Rightarrow> TaskSpecRevision \<Rightarrow> orc_state \<Rightarrow> TaskSpecSnapshot outcome" where
  "writeRunRevisionSnapshot e runId r st =
     (if injectionFindings e (rv_body_markdown r) \<noteq> []
      then (Inl (InjectionScanError (injectionFindings e (rv_body_markdown r))), st)
      else if runId \<in> set (map fst (st_run_specs st)) then (Inl (PlainError ''EEXIST: file already exists''), st)
      else (Inr \<lparr>snap_source_path = ''project-task:'' @ rv_task_ref r @ ''@'' @ show_nat (rv_revision r),
                 snap_path = ''run-specs/'' @ runId @ ''.md'', snap_sha256 = sha256 e (rv_body_markdown r),
                 snap_task_revision = Some (rv_revision r)\<rparr>,
            st\<lparr>st_run_specs := st_run_specs st @ [(runId, rv_body_markdown r)]\<rparr>))"

section \<open>The projection round trip\<close>

lemma json_str_Some: "json_str x = Some s \<longleftrightarrow> x = Some (JStr s)"
  by (cases x rule: json_str.cases) auto

lemma nonempty_id: "falsy x \<or> nonempty x = x"
  by (cases x rule: nonempty.cases) auto

end
