(* ===== verification/Claim_Manager.thy ===== *)
theory Claim_Manager
  imports Project_Tasks
begin

text \<open>
  \<^verbatim>\<open>lib/claimManager.ts\<close>, \<^verbatim>\<open>lib/claimStateManager.ts\<close> and \<^verbatim>\<open>lib/claimLeaseManager.ts\<close>: claiming a
  task, starting, renewing and finishing its run, the claim's finalization, input and retry
  fields, and the expiry of stale leases. Every operation runs under the state lock
  (\<^verbatim>\<open>withLock\<close>), so the model runs each as one step; within it, the task database, the run
  table and the files commit separately, and the model keeps what an earlier commit wrote when
  a later one fails.
\<close>

section \<open>Helpers\<close>

definition timestamp_error :: "string \<Rightarrow> timestamp \<Rightarrow> string" where
  "timestamp_error label ts = ''Invalid '' @ label @ '' timestamp: '' @ show_ts ts"

definition assertValidTimestamp :: "timestamp \<Rightarrow> string \<Rightarrow> unit result" where
  "assertValidTimestamp ts label = (if ts_finite ts then Inr () else Inl (InputError (timestamp_error label ts)))"

definition resetClaimVolatileFields :: "Claim \<Rightarrow> Claim" where
  "resetClaimVolatileFields c =
     c\<lparr>c_input_state := None, c_input_requested_at := None, c_session_start_retry_count := 0,
       c_session_start_retry_next_at := None, c_session_start_last_error := None\<rparr>"

text \<open>\<open>ts_plus t ms\<close> is \<^verbatim>\<open>new Date(t.getTime() + ms).toISOString()\<close> on a valid timestamp.\<close>

fun ts_plus :: "timestamp \<Rightarrow> int \<Rightarrow> timestamp" where
  "ts_plus (Ts t) ms = Ts (t + ms)"
| "ts_plus (BadTs s) ms = BadTs s"

text \<open>Read the claims, find one, and mutate it.\<close>

definition find_claim :: "string \<Rightarrow> Claim list \<Rightarrow> Claim option" where
  "find_claim runId cs = List.find (\<lambda>c. c_run_id c = runId) cs"

definition mutate_claim :: "string \<Rightarrow> (Claim \<Rightarrow> Claim) \<Rightarrow> Claim list \<Rightarrow> Claim list" where
  "mutate_claim runId f cs = update_first (\<lambda>c. c_run_id c = runId) f cs"

text \<open>Sequencing on the state directory: an error keeps the state reached so far.\<close>

fun obind :: "'a outcome \<Rightarrow> ('a \<Rightarrow> orc_state \<Rightarrow> 'b outcome) \<Rightarrow> 'b outcome" where
  "obind (Inl err, st) f = (Inl err, st)"
| "obind (Inr x, st) f = f x st"

section \<open>Claiming (claimManager.ts)\<close>

definition BACKOFF_BASE_MS :: nat where "BACKOFF_BASE_MS = 30000"

definition BACKOFF_MAX_MS :: nat where "BACKOFF_MAX_MS = 600000"

definition requeueBackoffMs :: "nat \<Rightarrow> nat" where
  "requeueBackoffMs attemptCount = min (BACKOFF_BASE_MS * 2 ^ (attemptCount - 1)) BACKOFF_MAX_MS"

definition new_claim :: "env \<Rightarrow> string \<Rightarrow> string \<Rightarrow> string \<Rightarrow> int \<Rightarrow> TaskSpecSnapshot option \<Rightarrow> Claim" where
  "new_claim e runId taskRef agentId leaseMs snap =
     \<lparr>c_run_id = runId, c_task_ref = taskRef, c_agent_id = agentId, c_state = CS_claimed, c_claimed_at = now_ts e,
      c_lease_expires_at = Some (ts_plus (now_ts e) leaseMs), c_task_envelope_sent_at = None,
      c_last_heartbeat_at = None, c_started_at = None, c_finished_at = None, c_failure_reason = None,
      c_finalization_state = None, c_finalization_retry_count = Some 0, c_finalization_blocked_reason = None,
      c_input_state = None, c_input_requested_at = None, c_session_start_retry_count = 0,
      c_session_start_retry_next_at = None, c_session_start_last_error = None, c_escalation_notified_at = None,
      c_pr_ref = None, c_pr_created_at = None, c_pr_initial_work_complete_seq = None, c_task_spec_snapshot = snap\<rparr>"

text \<open>The body of the \<^verbatim>\<open>try\<close>: the snapshot of a pinned revision and the commit of the claim.\<close>

definition commit_new_claim ::
  "env \<Rightarrow> string \<Rightarrow> string \<Rightarrow> string \<Rightarrow> int \<Rightarrow> Claim list \<Rightarrow> TaskSpecRevision option \<Rightarrow> orc_state \<Rightarrow> unit outcome" where
  "commit_new_claim e runId taskRef agentId leaseMs claims revision st =
     obind (case revision of
              None \<Rightarrow> (Inr None, st)
            | Some r \<Rightarrow> (case writeRunRevisionSnapshot e runId r st of
                          (Inl err, st') \<Rightarrow> (Inl err, st')
                        | (Inr snap, st') \<Rightarrow> (Inr (Some snap), st'))) (\<lambda>snap st1.
       commitClaims e (claims @ [new_claim e runId taskRef agentId leaseMs snap])
         [mk_event (now_ts e) ''claim_created'' ''agent'' agentId (Some runId) (Some taskRef) (Some agentId)
            (Some [(''lease_expires_at'', JTime (ts_plus (now_ts e) leaseMs))])] st1)"

text \<open>The \<^verbatim>\<open>catch\<close>: the task returns to the queue and the binding is closed, in one transaction.\<close>

definition abandon_claim :: "env \<Rightarrow> string \<Rightarrow> string \<Rightarrow> string \<Rightarrow> orc_error \<Rightarrow> orc_state \<Rightarrow> 'a outcome" where
  "abandon_claim e taskRef runId agentId err st =
     (case st_store st of
        None \<Rightarrow> (Inl err, st)
      | Some s \<Rightarrow>
          (case applyTransition e taskRef
                  (mk_transition TC_failure_requeue TS_todo (Some runId) (Some agentId) (Some ''claim_not_committed'')) s of
             Inl err2 \<Rightarrow> (Inl err2, st)
           | Inr s' \<Rightarrow> (Inl err, refreshBacklogProjection (st\<lparr>st_store := Some (abandonRun e runId s')\<rparr>))))"

definition claim_guards :: "string \<Rightarrow> string \<Rightarrow> Backlog \<Rightarrow> Claim list \<Rightarrow> unit result" where
  "claim_guards taskRef agentId backlog claims =
     (case findTask backlog taskRef of
        None \<Rightarrow> Inl (NotFoundError (''Task not found: '' @ taskRef))
      | Some task \<Rightarrow>
          if t_status task \<noteq> TS_todo
          then Inl (ConflictError (''Task not claimable (status: '' @ status_str (t_status task) @ ''): '' @ taskRef))
          else if truthy (t_owner task) \<and> t_owner task \<noteq> Some agentId
          then Inl (ConflictError (''Task '' @ taskRef @ '' is reserved for agent '' @ quoted (the (t_owner task)) @
                 '' - claiming agent '' @ quoted agentId @ '' is not the owner''))
          else case List.find (\<lambda>c. c_task_ref c = taskRef \<and> claim_active c) claims of
            Some active \<Rightarrow> Inl (ConflictError (''Task already claimed by '' @ c_agent_id active @ '' ('' @
                 c_run_id active @ ''): '' @ taskRef))
          | None \<Rightarrow> Inr ())"

text \<open>\<open>runId\<close> is the value of \<^verbatim>\<open>makeRunId()\<close>: a time stamp and random digits.\<close>

definition claimTask ::
  "env \<Rightarrow> string \<Rightarrow> string \<Rightarrow> int \<Rightarrow> string \<Rightarrow> orc_state \<Rightarrow> (string \<times> timestamp) outcome" where
  "claimTask e taskRef agentId leaseMs runId st =
     (case readBacklog st of
        Inl err \<Rightarrow> (Inl err, st)
      | Inr backlog \<Rightarrow>
          obind (readJsonClaims st) (\<lambda>claims st0.
            case claim_guards taskRef agentId backlog claims of
              Inl err \<Rightarrow> (Inl err, st0)
            | Inr _ \<Rightarrow>
                (case st_store st0 of
                   None \<Rightarrow>
                     if isProjectStateDir st0 then (Inl (NotFoundError ''Project task store is missing: runtime.db''), st0)
                     else (case commit_new_claim e runId taskRef agentId leaseMs claims None st0 of
                             (Inl err, st1) \<Rightarrow> (Inl err, st1)
                           | (Inr _, st1) \<Rightarrow>
                               (Inr (runId, ts_plus (now_ts e) leaseMs),
                                st1\<lparr>st_backlog_json := Some (update_task taskRef (\<lambda>t. t\<lparr>t_status := TS_claimed\<rparr>) backlog)\<rparr>))
                 | Some s \<Rightarrow>
                     (case store_claimTask e taskRef runId agentId s of
                        Inl err \<Rightarrow> (Inl err, st0)
                      | Inr (revision, s1) \<Rightarrow>
                          (case commit_new_claim e runId taskRef agentId leaseMs claims (Some revision) (st0\<lparr>st_store := Some s1\<rparr>) of
                             (Inl err, st1) \<Rightarrow> abandon_claim e taskRef runId agentId err st1
                           | (Inr _, st1) \<Rightarrow>
                               (Inr (runId, ts_plus (now_ts e) leaseMs), refreshBacklogProjection st1))))))"

section \<open>Running (claimManager.ts)\<close>

text \<open>The common prefix: read the claims, find the caller's claim, check its owner.\<close>

definition with_own_claim ::
  "string \<Rightarrow> string \<Rightarrow> (string \<Rightarrow> orc_error) \<Rightarrow> (string \<Rightarrow> orc_error) \<Rightarrow>
   (Claim \<Rightarrow> Claim list \<Rightarrow> orc_state \<Rightarrow> 'a outcome) \<Rightarrow> orc_state \<Rightarrow> 'a outcome" where
  "with_own_claim runId agentId notFound foreign body st =
     obind (readJsonClaims st) (\<lambda>claims st0.
       case find_claim runId claims of
         None \<Rightarrow> (Inl (notFound (''Claim not found: '' @ runId)), st0)
       | Some claim \<Rightarrow>
           if c_agent_id claim \<noteq> agentId
           then (Inl (foreign (''Claim '' @ runId @ '' belongs to '' @ c_agent_id claim)), st0)
           else body claim claims st0)"

definition startRun ::
  "env \<Rightarrow> string \<Rightarrow> string \<Rightarrow> bool \<Rightarrow> timestamp \<Rightarrow> string \<Rightarrow> string option \<Rightarrow> orc_state \<Rightarrow> unit outcome" where
  "startRun e runId agentId emitEvent at actorType actorId st =
     with_own_claim runId agentId NotFoundError ConflictError (\<lambda>claim claims st0.
       if c_state claim = CS_in_progress then (Inr (), st0)
       else if c_state claim \<noteq> CS_claimed
       then (Inl (ConflictError (''Claim '' @ runId @ '' is not in 'claimed' state (got: '' @ claim_state_str (c_state claim) @ '')'')), st0)
       else case assertValidTimestamp at ''startRun'' of
         Inl err \<Rightarrow> (Inl err, st0)
       | Inr _ \<Rightarrow>
           (let claims' = mutate_claim runId (\<lambda>c. resetClaimVolatileFields
                  (c\<lparr>c_state := CS_in_progress, c_started_at := Some at\<rparr>)) claims in
            case readBacklog st0 of
              Inl err \<Rightarrow> (Inl err, st0)
            | Inr backlog \<Rightarrow>
                obind (commitClaims e claims'
                  (if emitEvent then [mk_event at ''run_started'' actorType (or_default actorId agentId) (Some runId)
                     (Some (c_task_ref claim)) (Some agentId) None] else []) st0) (\<lambda>_ st1.
                  case findTask backlog (c_task_ref claim) of
                    None \<Rightarrow> (Inr (), st1)
                  | Some task \<Rightarrow>
                      commitBacklog e (update_task (c_task_ref claim) (\<lambda>t. t\<lparr>t_status := TS_in_progress\<rparr>) backlog)
                        [(c_task_ref claim, mk_change TC_run_start (Some runId) (Some (or_default actorId agentId)) None)] st1))) st"

definition heartbeat ::
  "env \<Rightarrow> string \<Rightarrow> string \<Rightarrow> int \<Rightarrow> bool \<Rightarrow> timestamp \<Rightarrow> orc_state \<Rightarrow> timestamp outcome" where
  "heartbeat e runId agentId leaseMs emitEvent at st =
     with_own_claim runId agentId NotFoundError ConflictError (\<lambda>claim claims st0.
       if \<not> claim_active claim
       then (Inl (ConflictError (''Cannot heartbeat claim in state: '' @ claim_state_str (c_state claim))), st0)
       else case assertValidTimestamp at ''heartbeat'' of
         Inl err \<Rightarrow> (Inl err, st0)
       | Inr _ \<Rightarrow>
           if ts_truthy (c_lease_expires_at claim) \<and> date_lt (the (c_lease_expires_at claim)) at
           then (Inl (ConflictError (''Lease has already expired for run '' @ runId @ '' (expired at '' @
                  show_ts (the (c_lease_expires_at claim)) @ '')'')), st0)
           else
             (let lease = ts_plus at leaseMs in
              obind (commitClaims e
                  (mutate_claim runId (\<lambda>c. c\<lparr>c_last_heartbeat_at := Some at, c_lease_expires_at := Some lease\<rparr>) claims)
                  (if emitEvent then [mk_event at ''heartbeat'' ''agent'' agentId (Some runId) (Some (c_task_ref claim))
                     (Some agentId) (Some [(''lease_expires_at'', JTime lease)])] else []) st0)
                (\<lambda>_ st1. (Inr lease, st1)))) st"

definition renewLeaseOnly :: "env \<Rightarrow> string \<Rightarrow> int \<Rightarrow> orc_state \<Rightarrow> unit outcome" where
  "renewLeaseOnly e runId leaseMs st =
     obind (readJsonClaims st) (\<lambda>claims st0.
       case find_claim runId claims of
         None \<Rightarrow> (Inr (), st0)
       | Some claim \<Rightarrow>
           if \<not> claim_active claim then (Inr (), st0)
           else if ts_truthy (c_lease_expires_at claim) \<and> date_lt (the (c_lease_expires_at claim)) (now_ts e)
           then (Inr (), st0)
           else commitClaims e
             (mutate_claim runId (\<lambda>c. c\<lparr>c_lease_expires_at := Some (ts_plus (now_ts e) leaseMs)\<rparr>) claims) [] st0)"

record finish_options =
  fo_success :: bool
  fo_failureReason :: "string option"
  fo_failureCode :: "string option"
  fo_policy :: string
  fo_emitEvent :: bool
  fo_at :: timestamp

definition clear_finalization :: "Claim \<Rightarrow> Claim" where
  "clear_finalization c =
     c\<lparr>c_finalization_state := None, c_finalization_retry_count := Some 0, c_finalization_blocked_reason := None\<rparr>"

definition finished_claim :: "finish_options \<Rightarrow> Claim \<Rightarrow> Claim" where
  "finished_claim opts c =
     clear_finalization (resetClaimVolatileFields
       (c\<lparr>c_state := (if fo_success opts then CS_done else CS_failed), c_finished_at := Some (fo_at opts),
          c_failure_reason := (if \<not> fo_success opts \<and> truthy (fo_failureReason opts) then fo_failureReason opts
                               else c_failure_reason c)\<rparr>))"

definition infra_failure :: "string option \<Rightarrow> bool" where
  "infra_failure code \<longleftrightarrow>
     code \<in> {Some ''ERR_DISPATCH_FAILURE'', Some ''ERR_RUN_START_TIMEOUT'', Some ''ERR_SESSION_START_FAILED''}"

text \<open>The task of a failed attempt: requeued with a backoff, or blocked at the attempt limit.\<close>

definition failed_attempt :: "string \<Rightarrow> timestamp \<Rightarrow> Task \<Rightarrow> Task" where
  "failed_attempt verb at t =
     (let attempts = or_default (t_attempt_count t) 0 + 1 in
      if attempts \<ge> MAX_ATTEMPTS
      then t\<lparr>t_attempt_count := Some attempts, t_status := TS_blocked,
             t_blocked_reason := Some (''max_attempts_exceeded: '' @ verb @ '' '' @ show_nat attempts @ '' times'')\<rparr>
      else t\<lparr>t_attempt_count := Some attempts, t_status := TS_todo,
             t_requeue_eligible_after := Some (ts_plus at (int (requeueBackoffMs attempts)))\<rparr>)"

definition finished_task :: "bool \<Rightarrow> finish_options \<Rightarrow> Task \<Rightarrow> Task" where
  "finished_task projectMode opts t =
     (if fo_success opts then (if projectMode then t else t\<lparr>t_status := TS_done\<rparr>)
      else if fo_policy opts = ''block'' then t\<lparr>t_status := TS_blocked\<rparr>
      else if infra_failure (fo_failureCode opts) then t\<lparr>t_status := TS_todo\<rparr>
      else failed_attempt ''failed'' (fo_at opts) t)"

definition opt_field :: "string \<Rightarrow> string option \<Rightarrow> payload" where
  "opt_field k v = (case v of None \<Rightarrow> [] | Some x \<Rightarrow> [(k, JStr x)])"

definition finish_event :: "string \<Rightarrow> string \<Rightarrow> string \<Rightarrow> finish_options \<Rightarrow> OrcEvent" where
  "finish_event runId taskRef agentId opts =
     (if fo_success opts
      then mk_event (fo_at opts) ''run_finished'' ''agent'' agentId (Some runId) (Some taskRef) (Some agentId) (Some [])
      else mk_event (fo_at opts) ''run_failed'' ''agent'' agentId (Some runId) (Some taskRef) (Some agentId)
             (Some (opt_field ''reason'' (fo_failureReason opts) @ opt_field ''code'' (fo_failureCode opts) @
                    [(''policy'', JStr (fo_policy opts))])))"

definition finish_change :: "string \<Rightarrow> string \<Rightarrow> finish_options \<Rightarrow> Task \<Rightarrow> TaskStatusChange" where
  "finish_change runId agentId opts t =
     mk_change (if t_status t = TS_done then TC_merge_succeeded
                else if t_status t = TS_blocked then TC_failure_block else TC_failure_requeue)
       (Some runId) (Some agentId)
       (coalesce (t_blocked_reason t) (coalesce (fo_failureReason opts)
          (if fo_policy opts = ''block'' then Some ''run failed with block policy'' else None)))"

definition finishRun :: "env \<Rightarrow> string \<Rightarrow> string \<Rightarrow> finish_options \<Rightarrow> orc_state \<Rightarrow> unit outcome" where
  "finishRun e runId agentId opts st =
     with_own_claim runId agentId NotFoundError ConflictError (\<lambda>claim claims st0.
       case assertValidTimestamp (fo_at opts) ''finishRun'' of
         Inl err \<Rightarrow> (Inl err, st0)
       | Inr _ \<Rightarrow>
           if c_state claim = CS_done \<or> c_state claim = CS_failed
           then
             (if c_state claim = (if fo_success opts then CS_done else CS_failed) \<and>
                 (c_finalization_state claim \<noteq> None \<or>
                  (c_finalization_retry_count claim \<noteq> None \<and> c_finalization_retry_count claim \<noteq> Some 0) \<or>
                  c_finalization_blocked_reason claim \<noteq> None)
              then commitClaims e (mutate_claim runId clear_finalization claims) [] st0
              else (Inr (), st0))
           else case readBacklog st0 of
             Inl err \<Rightarrow> (Inl err, st0)
           | Inr backlog \<Rightarrow>
               (let projectMode = st_store st0 \<noteq> None;
                    ref = c_task_ref claim;
                    task = (case findTask backlog ref of
                              None \<Rightarrow> None
                            | Some t \<Rightarrow> if \<not> projectMode \<or> task_active (t_status t) then Some t else None) in
                obind (commitClaims e (mutate_claim runId (finished_claim opts) claims)
                         (if fo_emitEvent opts then [finish_event runId ref agentId opts] else []) st0) (\<lambda>_ st1.
                  case task of
                    None \<Rightarrow> (Inr (), st1)
                  | Some t \<Rightarrow>
                      (let t' = finished_task projectMode opts t in
                       commitBacklog e (update_task ref (finished_task projectMode opts) backlog)
                         (if t_status t' = t_status t then [] else [(ref, finish_change runId agentId opts t')]) st1)))) st"

section \<open>Claim fields (claimStateManager.ts)\<close>

definition plain_timestamp :: "timestamp \<Rightarrow> string \<Rightarrow> unit result" where
  "plain_timestamp ts label = (if ts_finite ts then Inr () else Inl (PlainError (timestamp_error label ts)))"

text \<open>Mutate one claim, commit, and return it.\<close>

definition commit_claim_update ::
  "env \<Rightarrow> string \<Rightarrow> (Claim \<Rightarrow> Claim) \<Rightarrow> OrcEvent list \<Rightarrow> Claim \<Rightarrow> Claim list \<Rightarrow> orc_state \<Rightarrow> Claim outcome" where
  "commit_claim_update e runId f events claim claims st =
     obind (commitClaims e (mutate_claim runId f claims) events st) (\<lambda>_ st1. (Inr (f claim), st1))"

definition markTaskEnvelopeSent ::
  "env \<Rightarrow> string \<Rightarrow> string \<Rightarrow> bool \<Rightarrow> timestamp \<Rightarrow> string \<Rightarrow> string \<Rightarrow> orc_state \<Rightarrow> Claim outcome" where
  "markTaskEnvelopeSent e runId agentId emitEvent at actorType actorId st =
     with_own_claim runId agentId PlainError PlainError (\<lambda>claim claims st0.
       if \<not> claim_active claim
       then (Inl (PlainError (''Claim '' @ runId @ '' cannot record envelope delivery from state '' @ single_quoted (claim_state_str (c_state claim)))), st0)
       else case plain_timestamp at ''task envelope'' of
         Inl err \<Rightarrow> (Inl err, st0)
       | Inr _ \<Rightarrow>
           if ts_truthy (c_task_envelope_sent_at claim) then (Inr claim, st0)
           else commit_claim_update e runId (\<lambda>c. c\<lparr>c_task_envelope_sent_at := Some at\<rparr>)
                  (if emitEvent then [mk_event at ''task_envelope_sent'' actorType actorId (Some runId)
                     (Some (c_task_ref claim)) (Some agentId) (Some [])] else []) claim claims st0) st"

definition setRunFinalizationState ::
  "env \<Rightarrow> string \<Rightarrow> string \<Rightarrow> FinalizationState option \<Rightarrow> int \<Rightarrow> string option \<Rightarrow> orc_state \<Rightarrow> Claim outcome" where
  "setRunFinalizationState e runId agentId finalizationState retryCountDelta blockedReason st =
     with_own_claim runId agentId PlainError PlainError (\<lambda>claim claims st0.
       if c_state claim \<noteq> CS_in_progress
       then (Inl (PlainError (''Finalization updates require in_progress claim state (got: '' @ claim_state_str (c_state claim) @ '')'')), st0)
       else commit_claim_update e runId (\<lambda>c. c\<lparr>c_finalization_state := finalizationState,
              c_finalization_retry_count := Some (max 0 (or_default (c_finalization_retry_count c) 0 + retryCountDelta)),
              c_finalization_blocked_reason := blockedReason\<rparr>) [] claim claims st0) st"

definition setRunInputState ::
  "env \<Rightarrow> string \<Rightarrow> string \<Rightarrow> InputState option \<Rightarrow> timestamp option \<Rightarrow> orc_state \<Rightarrow> Claim outcome" where
  "setRunInputState e runId agentId inputState requestedAt st =
     with_own_claim runId agentId PlainError PlainError (\<lambda>claim claims st0.
       if \<not> claim_active claim
       then (Inl (PlainError (''Input state updates require claimed or in_progress claim state (got: '' @ claim_state_str (c_state claim) @ '')'')), st0)
       else if (case requestedAt of None \<Rightarrow> False | Some t \<Rightarrow> \<not> ts_finite t)
       then (Inl (PlainError (''requestedAt must be an ISO date-time string or null (got: '' @ show_ts (the requestedAt) @ '')'')), st0)
       else commit_claim_update e runId (\<lambda>c. c\<lparr>c_input_state := inputState,
              c_input_requested_at := (if inputState = Some IS_awaiting_input then Some (or_default requestedAt (now_ts e)) else None)\<rparr>)
              [] claim claims st0) st"

definition setRunSessionStartRetryState ::
  "env \<Rightarrow> string \<Rightarrow> string \<Rightarrow> int \<Rightarrow> timestamp option \<Rightarrow> string option \<Rightarrow> orc_state \<Rightarrow> Claim outcome" where
  "setRunSessionStartRetryState e runId agentId retryCount nextRetryAt lastError st =
     with_own_claim runId agentId PlainError PlainError (\<lambda>claim claims st0.
       if c_state claim \<noteq> CS_claimed
       then (Inl (PlainError (''Session start retry updates require claimed claim state (got: '' @ claim_state_str (c_state claim) @ '')'')), st0)
       else if retryCount < 0
       then (Inl (PlainError (''retryCount must be a non-negative integer (got: '' @ show_int retryCount @ '')'')), st0)
       else if (case nextRetryAt of None \<Rightarrow> False | Some t \<Rightarrow> \<not> ts_finite t)
       then (Inl (PlainError (''nextRetryAt must be an ISO date-time string or null (got: '' @ show_ts (the nextRetryAt) @ '')'')), st0)
       else commit_claim_update e runId (\<lambda>c. c\<lparr>c_session_start_retry_count := retryCount,
              c_session_start_retry_next_at := (if retryCount > 0 then nextRetryAt else None),
              c_session_start_last_error := (if retryCount > 0 then lastError else None)\<rparr>) [] claim claims st0) st"

definition with_claim :: "string \<Rightarrow> (Claim \<Rightarrow> Claim list \<Rightarrow> orc_state \<Rightarrow> 'a outcome) \<Rightarrow> orc_state \<Rightarrow> 'a outcome" where
  "with_claim runId body st =
     obind (readJsonClaims st) (\<lambda>claims st0.
       case find_claim runId claims of
         None \<Rightarrow> (Inl (PlainError (''Claim not found: '' @ runId)), st0)
       | Some claim \<Rightarrow> body claim claims st0)"

definition setEscalationNotified :: "env \<Rightarrow> string \<Rightarrow> orc_state \<Rightarrow> Claim outcome" where
  "setEscalationNotified e runId st =
     with_claim runId (commit_claim_update e runId (\<lambda>c. c\<lparr>c_escalation_notified_at := Some (now_ts e)\<rparr>) []) st"

definition setPrRef :: "env \<Rightarrow> string \<Rightarrow> string \<Rightarrow> orc_state \<Rightarrow> Claim outcome" where
  "setPrRef e runId prRef st =
     with_claim runId (\<lambda>claim claims st0.
       if c_state claim \<noteq> CS_in_progress
       then (Inl (PlainError (''PR ref update requires in_progress claim state (got: '' @ claim_state_str (c_state claim) @ '')'')), st0)
       else if prRef = [] then (Inl (PlainError ''prRef must be a non-empty string''), st0)
       else commit_claim_update e runId (\<lambda>c. c\<lparr>c_pr_ref := Some prRef\<rparr>) [] claim claims st0) st"

definition setPrCreatedAt :: "env \<Rightarrow> string \<Rightarrow> timestamp \<Rightarrow> int option \<Rightarrow> orc_state \<Rightarrow> Claim outcome" where
  "setPrCreatedAt e runId createdAt initialSeq st =
     with_claim runId (\<lambda>claim claims st0.
       if c_state claim \<noteq> CS_in_progress
       then (Inl (PlainError (''PR created_at update requires in_progress claim state (got: '' @ claim_state_str (c_state claim) @ '')'')), st0)
       else case plain_timestamp createdAt ''pr_created_at'' of
         Inl err \<Rightarrow> (Inl err, st0)
       | Inr _ \<Rightarrow>
           if (case initialSeq of None \<Rightarrow> False | Some n \<Rightarrow> n < 1 \<or> n > MAX_SAFE_INTEGER)
           then (Inl (PlainError ''initial work_complete seq must be a positive safe integer''), st0)
           else commit_claim_update e runId (\<lambda>c. c\<lparr>c_pr_created_at := Some createdAt,
                  c_pr_initial_work_complete_seq := coalesce initialSeq (c_pr_initial_work_complete_seq c)\<rparr>) [] claim claims st0) st"

section \<open>Lease expiry (claimLeaseManager.ts)\<close>

text \<open>Whether the loop's body goes past its early \<^verbatim>\<open>continue\<close>s for this claim.\<close>

definition input_requested_time :: "Claim \<Rightarrow> timestamp" where
  "input_requested_time c =
     (if ts_truthy (c_input_requested_at c) then the (c_input_requested_at c)
      else or_default (c_last_heartbeat_at c) (c_claimed_at c))"

definition input_wait_pending :: "env \<Rightarrow> Claim \<Rightarrow> bool" where
  "input_wait_pending e c \<longleftrightarrow>
     (case getTime (input_requested_time c) of None \<Rightarrow> False | Some t \<Rightarrow> clock e - t < INPUT_WAIT_TIMEOUT_MS)"

definition lease_stale :: "env \<Rightarrow> Claim \<Rightarrow> bool" where
  "lease_stale e c \<longleftrightarrow> claim_active c \<and>
     (if c_input_state c = Some IS_awaiting_input then \<not> input_wait_pending e c
      else ts_truthy (c_lease_expires_at c) \<and> \<not> date_gt (the (c_lease_expires_at c)) (now_ts e))"

definition expiry_code :: "Claim \<Rightarrow> string" where
  "expiry_code c = (if c_input_state c = Some IS_awaiting_input then ''ERR_INPUT_TIMEOUT'' else ''ERR_LEASE_EXPIRED'')"

definition expired_claim :: "env \<Rightarrow> Claim \<Rightarrow> Claim" where
  "expired_claim e c =
     resetClaimVolatileFields (c\<lparr>c_state := CS_failed, c_finished_at := Some (now_ts e),
       c_failure_reason := (if expiry_code c = ''ERR_INPUT_TIMEOUT'' then Some ''ERR_INPUT_TIMEOUT'' else c_failure_reason c)\<rparr>)"

definition expired_task :: "env \<Rightarrow> string \<Rightarrow> Task \<Rightarrow> Task" where
  "expired_task e policy t =
     (if policy = ''block'' then t\<lparr>t_status := TS_blocked\<rparr> else failed_attempt ''expired'' (now_ts e) t)"

record expired_run =
  xr_run_id :: string
  xr_task_ref :: string
  xr_agent_id :: string
  xr_code :: string

record expiry_state =
  xs_claims :: "Claim list"
  xs_backlog :: Backlog
  xs_expired :: "expired_run list"
  xs_changes :: "(string \<times> TaskStatusChange) list"

definition expire_one :: "env \<Rightarrow> bool \<Rightarrow> string \<Rightarrow> string \<Rightarrow> Claim \<Rightarrow> expiry_state \<Rightarrow> expiry_state" where
  "expire_one e projectMode policy actorId c x =
     (let task = findTask (xs_backlog x) (c_task_ref c) in
      if \<not> lease_stale e c \<or>
         (projectMode \<and> (case task of None \<Rightarrow> False | Some t \<Rightarrow> task_finished (t_status t)))
      then x\<lparr>xs_claims := xs_claims x @ [c]\<rparr>
      else
        (let x1 = x\<lparr>xs_claims := xs_claims x @ [expired_claim e c],
                   xs_expired := xs_expired x @ [\<lparr>xr_run_id = c_run_id c, xr_task_ref = c_task_ref c,
                     xr_agent_id = c_agent_id c, xr_code = expiry_code c\<rparr>]\<rparr> in
         case task of
           None \<Rightarrow> x1
         | Some t \<Rightarrow>
             if \<not> projectMode \<or> task_active (t_status t)
             then (let t' = expired_task e policy t in
                   x1\<lparr>xs_backlog := update_task (c_task_ref c) (expired_task e policy) (xs_backlog x),
                      xs_changes := (c_task_ref c, mk_change
                        (if t_status t' = TS_blocked then TC_failure_block else TC_failure_requeue)
                        (Some (c_run_id c)) (Some actorId) (coalesce (t_blocked_reason t') (Some (expiry_code c)))) # xs_changes x\<rparr>)
             else x1))"

definition expire_event :: "env \<Rightarrow> string \<Rightarrow> string \<Rightarrow> expired_run \<Rightarrow> OrcEvent" where
  "expire_event e policy actorId r =
     mk_event (now_ts e) ''claim_expired'' ''coordinator'' actorId (Some (xr_run_id r)) (Some (xr_task_ref r)) None
       (Some [(''policy'', JStr policy), (''code'', JStr (xr_code r))])"

definition expireLeasesCore :: "env \<Rightarrow> string \<Rightarrow> string \<Rightarrow> orc_state \<Rightarrow> expired_run list outcome" where
  "expireLeasesCore e policy actorId st =
     obind (readJsonClaims st) (\<lambda>claims st0.
       case readBacklog st0 of
         Inl err \<Rightarrow> (Inl err, st0)
       | Inr backlog \<Rightarrow>
           (let x = fold (expire_one e (st_store st0 \<noteq> None) policy actorId) claims
                      \<lparr>xs_claims = [], xs_backlog = backlog, xs_expired = [], xs_changes = []\<rparr> in
            if xs_expired x = [] then (Inr [], st0)
            else obind (commitClaims e (xs_claims x) (map (expire_event e policy actorId) (xs_expired x)) st0) (\<lambda>_ st1.
                   obind (commitBacklog e (xs_backlog x) (xs_changes x) st1) (\<lambda>_ st2. (Inr (xs_expired x), st2)))))"

section \<open>The claims repository\<close>

text \<open>
  What the claim manager relies on: a repository that returns the claims it was last given, as
  long as the caller keeps the claims it read (changed in place) and only adds new runs.
\<close>

locale claims_repository =
  fixes ready :: "'s \<Rightarrow> bool" and read :: "'s \<Rightarrow> Claim list"
    and commit :: "Claim list \<Rightarrow> OrcEvent list \<Rightarrow> 's \<Rightarrow> 's result"
  assumes read_distinct: "ready s \<Longrightarrow> distinct (map c_run_id (read s))"
    and read_one_active: "ready s \<Longrightarrow> distinct (map c_task_ref (filter claim_active (read s)))"
    and commit_read: "ready s \<Longrightarrow> map c_run_id cs = map c_run_id (read s) @ new \<Longrightarrow> distinct (map c_run_id cs) \<Longrightarrow>
      commit cs evs s = Inr s' \<Longrightarrow> ready s' \<and> read s' = cs"
begin

lemma mutate_ids:
  assumes "\<And>c. c_run_id (f c) = c_run_id c"
  shows "map c_run_id (mutate_claim i f cs) = map c_run_id cs"
  unfolding mutate_claim_def using assms by (rule map_update_first_same)

lemma commit_mutated:
  assumes "ready s" "\<And>c. c_run_id (f c) = c_run_id c" "commit (mutate_claim i f (read s)) evs s = Inr s'"
  shows "ready s' \<and> read s' = mutate_claim i f (read s)"
  using commit_read [OF assms(1) _ _ assms(3), of "[]"] mutate_ids [of f i "read s", OF assms(2)] read_distinct [OF assms(1)]
  by simp

lemma commit_new:
  assumes "ready s" "c_run_id c \<notin> c_run_id ` set (read s)" "commit (read s @ [c]) evs s = Inr s'"
  shows "ready s' \<and> read s' = read s @ [c]"
  using commit_read [OF assms(1) _ _ assms(3), of "[c_run_id c]"] read_distinct [OF assms(1)] assms(2) by simp

text \<open>Two different claims of one task are never both active.\<close>

lemma one_active_claim:
  assumes "ready s" "c \<in> set (read s)" "d \<in> set (read s)" "claim_active c" "claim_active d" "c_task_ref c = c_task_ref d"
  shows "c = d"
proof -
  have "inj_on c_task_ref (set (filter claim_active (read s)))"
    using read_one_active [OF assms(1)] by (simp add: distinct_map)
  with assms(2-6) show ?thesis by (auto dest: inj_onD)
qed

end

definition claims_ready :: "runtime_db \<Rightarrow> bool" where
  "claims_ready db \<longleftrightarrow> runs_inv db \<and> cut_over db"

interpretation repo: claims_repository claims_ready readRows "commit_claims_txn e cj" for e cj
proof
  fix s cs new evs s'
  assume "claims_ready s" "map c_run_id cs = map c_run_id (readRows s) @ new" "distinct (map c_run_id cs)"
    "commit_claims_txn e cj cs evs s = Inr s'"
  then show "claims_ready s' \<and> readRows s' = cs"
    using commit_roundtrip_lemma [of s cs new e cj evs s'] commit_keeps_runs_inv [of s e cj cs evs s']
    by (auto simp: claims_ready_def)
qed (auto simp: claims_ready_def dest!: readRows_claims_ok simp: claims_ok_def)

section \<open>Reading and committing on the state directory\<close>

lemma obind_Inr: "obind r f = (Inr y, st') \<longleftrightarrow> (\<exists>x st1. r = (Inr x, st1) \<and> f x st1 = (Inr y, st'))"
  by (cases r; cases "fst r") auto

lemma readJsonClaims_ready:
  assumes "claims_ready (st_db st)"
  shows "readJsonClaims st = (Inr (readRows (st_db st)), st)"
  using assms by (simp add: readJsonClaims_def readAuthoritativeClaims_def claims_ready_def cut_over_def)

lemma commitClaims_frame:
  assumes "commitClaims e cs evs st = (r, st')"
  shows "st_store st' = st_store st" "st_backlog_json st' = st_backlog_json st" "st_agents_json st' = st_agents_json st"
    "st_descriptor st' = st_descriptor st" "st_run_specs st' = st_run_specs st"
  using assms by (auto simp: commitClaims_def split: sum.splits)

lemma commitClaims_Inl: "commitClaims e cs evs st = (Inl err, st') \<Longrightarrow> st' = st"
  by (auto simp: commitClaims_def split: sum.splits)

lemma commitClaims_Inr:
  "commitClaims e cs evs st = (Inr u, st') \<longleftrightarrow>
     (\<exists>db. commit_claims_txn e (st_claims_json st) cs evs (st_db st) = Inr db \<and> st' = st\<lparr>st_db := db, st_claims_json := Some cs\<rparr>)"
  by (auto simp: commitClaims_def split: sum.splits)

lemma commitBacklog_db: "commitBacklog e b ch st = (r, st') \<Longrightarrow> st_db st' = st_db st"
  by (auto simp: commitBacklog_def refreshBacklogProjection_def split: sum.splits option.splits)

section \<open>Every write advances its claim\<close>

text \<open>
  The life of a claim: its run, task and agent never change, and its state only moves forward,
  from claimed to in progress to done or failed, or from claimed straight to done or failed.
\<close>

fun state_rank :: "ClaimState \<Rightarrow> nat" where
  "state_rank CS_claimed = 0" | "state_rank CS_in_progress = 1" | "state_rank CS_done = 2" | "state_rank CS_failed = 2"

definition advances :: "Claim \<Rightarrow> Claim \<Rightarrow> bool" where
  "advances c c' \<longleftrightarrow> c_run_id c' = c_run_id c \<and> c_task_ref c' = c_task_ref c \<and> c_agent_id c' = c_agent_id c \<and>
     (c_state c' = c_state c \<or> state_rank (c_state c) < state_rank (c_state c'))"

definition claims_advance :: "Claim list \<Rightarrow> Claim list \<Rightarrow> bool" where
  "claims_advance cs cs' \<longleftrightarrow> (\<exists>kept new. cs' = kept @ new \<and> list_all2 advances cs kept)"

lemma advances_refl [simp]: "advances c c"
  by (simp add: advances_def)

lemma advances_trans: "advances a b \<Longrightarrow> advances b c \<Longrightarrow> advances a c"
  by (auto simp: advances_def)

lemma list_all2_advances_refl [simp]: "list_all2 advances cs cs"
  by (induction cs) auto

lemma list_all2_claims_advance: "list_all2 advances cs kept \<Longrightarrow> claims_advance cs (kept @ new)"
  by (auto simp: claims_advance_def)

lemma claims_advance_refl [simp]: "claims_advance cs cs" "claims_advance cs (cs @ new)"
  using list_all2_claims_advance [of cs cs "[]"] list_all2_claims_advance [of cs cs new] by simp_all

lemma claims_advance_trans:
  assumes "claims_advance as bs" "claims_advance bs cs"
  shows "claims_advance as cs"
proof -
  from assms obtain k1 n1 k2 n2 where 1: "bs = k1 @ n1" "list_all2 advances as k1" "cs = k2 @ n2" "list_all2 advances bs k2"
    by (auto simp: claims_advance_def)
  then obtain k21 k22 where 2: "k2 = k21 @ k22" "list_all2 advances k1 k21" by (auto simp: list_all2_append1)
  have "list_all2 advances as k21" using list_all2_trans [OF _ 1(2) 2(2)] advances_trans by blast
  with 1 2 show ?thesis by (auto simp: claims_advance_def)
qed

lemma advances_mutate:
  assumes "\<And>claim. find_claim i cs = Some claim \<Longrightarrow> advances claim (f claim)"
  shows "list_all2 advances cs (mutate_claim i f cs)"
  using assms unfolding mutate_claim_def find_claim_def by (induction cs) (auto split: if_splits)

lemma advances_all_trans: "list_all2 advances as bs \<Longrightarrow> list_all2 advances bs cs \<Longrightarrow> list_all2 advances as cs"
  by (rule list_all2_trans [OF advances_trans])

text \<open>An outcome that leaves a ready repository with the same claims, each of which advanced.\<close>

definition advancing :: "orc_state \<Rightarrow> 'a outcome \<Rightarrow> bool" where
  "advancing st r \<longleftrightarrow> claims_ready (st_db (snd r)) \<and> list_all2 advances (readRows (st_db st)) (readRows (st_db (snd r)))"

lemma advancing_same: "claims_ready (st_db st) \<Longrightarrow> st_db (snd r) = st_db st \<Longrightarrow> advancing st r"
  by (simp add: advancing_def)

lemma advancing_stay [simp]: "claims_ready (st_db st) \<Longrightarrow> advancing st (r, st)"
  by (simp add: advancing_def)

lemma advancing_commit:
  assumes "claims_ready (st_db st)" "\<And>claim. find_claim i (readRows (st_db st)) = Some claim \<Longrightarrow> advances claim (f claim)"
    "\<And>c. c_run_id (f c) = c_run_id c"
  shows "advancing st (commitClaims e (mutate_claim i f (readRows (st_db st))) evs st)"
proof (cases "commit_claims_txn e (st_claims_json st) (mutate_claim i f (readRows (st_db st))) evs (st_db st)")
  case (Inl err)
  then show ?thesis using assms(1) by (simp add: commitClaims_def)
next
  case (Inr db)
  from repo.commit_mutated [where f = f, OF assms(1,3) Inr] advances_mutate [of i "readRows (st_db st)" f] assms(2) Inr
  show ?thesis by (simp add: commitClaims_def advancing_def)
qed

lemma advancing_obind:
  assumes "advancing st r" "\<And>x st1. st_db (snd (g x st1)) = st_db st1"
  shows "advancing st (obind r g)"
  using assms by (cases r; cases "fst r") (auto simp: advancing_def)

lemma snd_obind_db: "(\<And>x st1. st_db (snd (g x st1)) = st_db st1) \<Longrightarrow> st_db (snd (obind r g)) = st_db (snd r)"
  by (cases r; cases "fst r") auto

lemma advancing_own:
  assumes "claims_ready (st_db st)"
    and "\<And>claim. find_claim runId (readRows (st_db st)) = Some claim \<Longrightarrow> c_agent_id claim = agentId \<Longrightarrow>
      advancing st (body claim (readRows (st_db st)) st)"
  shows "advancing st (with_own_claim runId agentId nf fo body st)"
  using assms by (simp add: with_own_claim_def readJsonClaims_ready split: option.split)

lemma advancing_with:
  assumes "claims_ready (st_db st)"
    and "\<And>claim. find_claim runId (readRows (st_db st)) = Some claim \<Longrightarrow> advancing st (body claim (readRows (st_db st)) st)"
  shows "advancing st (with_claim runId body st)"
  using assms by (simp add: with_claim_def readJsonClaims_ready split: option.split)

lemma advancing_update:
  assumes "claims_ready (st_db st)" "\<And>claim. find_claim i (readRows (st_db st)) = Some claim \<Longrightarrow> advances claim (f claim)"
    "\<And>c. c_run_id (f c) = c_run_id c"
  shows "advancing st (commit_claim_update e i f evs claim (readRows (st_db st)) st)"
  unfolding commit_claim_update_def by (intro advancing_obind advancing_commit assms) simp_all

lemma advancing_if:
  "(b \<Longrightarrow> advancing st x) \<Longrightarrow> (\<not> b \<Longrightarrow> advancing st y) \<Longrightarrow> advancing st (if b then x else y)"
  by simp

lemma advancing_check:
  "claims_ready (st_db st) \<Longrightarrow> advancing st x \<Longrightarrow> advancing st (case r of Inl err \<Rightarrow> (Inl err, st) | Inr _ \<Rightarrow> x)"
  by (cases r) simp_all

lemma advancing_case:
  "claims_ready (st_db st) \<Longrightarrow> (\<And>b. r = Inr b \<Longrightarrow> advancing st (x b)) \<Longrightarrow>
     advancing st (case r of Inl err \<Rightarrow> (Inl err, st) | Inr b \<Rightarrow> x b)"
  by (cases r) auto

lemmas advancing_intros =
  advancing_if advancing_check advancing_case advancing_stay advancing_obind advancing_commit advancing_update

lemma snd_commitBacklog_db [simp]: "st_db (snd (commitBacklog e b ch st)) = st_db st"
  by (metis commitBacklog_db prod.collapse)

lemma reset_sel [simp]:
  "c_run_id (resetClaimVolatileFields c) = c_run_id c" "c_task_ref (resetClaimVolatileFields c) = c_task_ref c"
  "c_agent_id (resetClaimVolatileFields c) = c_agent_id c" "c_state (resetClaimVolatileFields c) = c_state c"
  "c_run_id (clear_finalization c) = c_run_id c" "c_task_ref (clear_finalization c) = c_task_ref c"
  "c_agent_id (clear_finalization c) = c_agent_id c" "c_state (clear_finalization c) = c_state c"
  by (simp_all add: resetClaimVolatileFields_def clear_finalization_def)

lemma startRun_advancing: "claims_ready (st_db st) \<Longrightarrow> advancing st (startRun e runId agentId emit at aty aid st)"
  unfolding startRun_def Let_def
  by (rule advancing_own, assumption, intro advancing_intros)
     (auto simp: advances_def split: option.split)

lemma heartbeat_advancing: "claims_ready (st_db st) \<Longrightarrow> advancing st (heartbeat e runId agentId ms emit at st)"
  unfolding heartbeat_def Let_def
  by (rule advancing_own, assumption, intro advancing_intros) (simp_all add: advances_def)

lemma renewLeaseOnly_advancing: "claims_ready (st_db st) \<Longrightarrow> advancing st (renewLeaseOnly e runId ms st)"
  unfolding renewLeaseOnly_def
  by (auto simp: readJsonClaims_ready intro!: advancing_commit simp: advances_def split: option.splits)

lemma finished_claim_sel [simp]:
  "c_run_id (finished_claim opts c) = c_run_id c" "c_task_ref (finished_claim opts c) = c_task_ref c"
  "c_agent_id (finished_claim opts c) = c_agent_id c"
  "c_state (finished_claim opts c) = (if fo_success opts then CS_done else CS_failed)"
  by (simp_all add: finished_claim_def)

lemma active_rank: "state_rank x < 2 \<longleftrightarrow> x \<noteq> CS_done \<and> x \<noteq> CS_failed"
  by (cases x) auto

lemma finishRun_advancing: "claims_ready (st_db st) \<Longrightarrow> advancing st (finishRun e runId agentId opts st)"
  unfolding finishRun_def Let_def
  by (rule advancing_own, assumption, intro advancing_intros)
     (auto simp: advances_def active_rank split: option.split)

lemma markTaskEnvelopeSent_advancing:
  "claims_ready (st_db st) \<Longrightarrow> advancing st (markTaskEnvelopeSent e runId agentId emit at aty aid st)"
  unfolding markTaskEnvelopeSent_def
  by (rule advancing_own, assumption, intro advancing_intros) (simp_all add: advances_def)

lemma setRun_advancing:
  assumes "claims_ready (st_db st)"
  shows "advancing st (setRunFinalizationState e runId agentId fs d br st)"
    and "advancing st (setRunInputState e runId agentId ins ra st)"
    and "advancing st (setRunSessionStartRetryState e runId agentId rc na le st)"
  using assms
  unfolding setRunFinalizationState_def setRunInputState_def setRunSessionStartRetryState_def
  by (auto intro!: advancing_own advancing_update simp: advances_def)

lemma setEscalationNotified_advancing: "claims_ready (st_db st) \<Longrightarrow> advancing st (setEscalationNotified e runId st)"
  unfolding setEscalationNotified_def
  by (rule advancing_with, assumption, intro advancing_intros) (simp_all add: advances_def)

lemma setPrRef_advancing: "claims_ready (st_db st) \<Longrightarrow> advancing st (setPrRef e runId prRef st)"
  unfolding setPrRef_def
  by (rule advancing_with, assumption, intro advancing_intros) (simp_all add: advances_def)

lemma setPrCreatedAt_advancing: "claims_ready (st_db st) \<Longrightarrow> advancing st (setPrCreatedAt e runId ca n st)"
  unfolding setPrCreatedAt_def
  by (rule advancing_with, assumption, intro advancing_intros) (simp_all add: advances_def)

section \<open>Expiry\<close>

text \<open>Whether the task of a claim is finished, in which case a project run is left alone.\<close>

definition task_done :: "Backlog \<Rightarrow> Claim \<Rightarrow> bool" where
  "task_done b c \<longleftrightarrow> (case findTask b (c_task_ref c) of None \<Rightarrow> False | Some t \<Rightarrow> task_finished (t_status t))"

definition expire_claim :: "env \<Rightarrow> bool \<Rightarrow> Backlog \<Rightarrow> Claim \<Rightarrow> Claim" where
  "expire_claim e projectMode b c =
     (if lease_stale e c \<and> \<not> (projectMode \<and> task_done b c) then expired_claim e c else c)"

lemma expired_claim_sel [simp]:
  "c_run_id (expired_claim e c) = c_run_id c" "c_task_ref (expired_claim e c) = c_task_ref c"
  "c_agent_id (expired_claim e c) = c_agent_id c" "c_state (expired_claim e c) = CS_failed"
  by (simp_all add: expired_claim_def)

lemma backlog_tasks_simps [simp]:
  "backlog_tasks [] = []" "backlog_tasks (f # fs) = f_tasks f @ backlog_tasks fs"
  by (simp_all add: backlog_tasks_def)

lemma findTask_Cons: "findTask (f # fs) ref = (case List.find (\<lambda>t. t_ref t = ref) (f_tasks f) of None \<Rightarrow> findTask fs ref | Some t \<Rightarrow> Some t)"
  unfolding findTask_def backlog_tasks_simps find_append ..

lemma findTask_update_task:
  assumes "\<And>t. t_ref (f t) = t_ref t"
  shows "findTask (update_task ref f b) ref' = (if ref' = ref then map_option f (findTask b ref') else findTask b ref')"
proof (induction b)
  case Nil
  then show ?case by (simp add: findTask_def)
next
  case (Cons feature fs)
  show ?case
  proof (cases "\<exists>t \<in> set (f_tasks feature). t_ref t = ref")
    case True
    then obtain t where "List.find (\<lambda>t. t_ref t = ref) (f_tasks feature) = Some t"
      by (metis (mono_tags, lifting) find_None_iff_set not_None_eq)
    with True show ?thesis by (simp add: findTask_Cons find_update_first [where k = t_ref and f = f, OF assms] split: option.split)
  next
    case False
    then have "List.find (\<lambda>t. t_ref t = ref) (f_tasks feature) = None" by (simp add: find_None_iff_set)
    with False Cons.IH show ?thesis
      by (cases "ref' = ref") (simp_all add: findTask_Cons split: option.split)
  qed
qed

lemma failed_attempt_sel [simp]:
  "t_ref (failed_attempt verb at t) = t_ref t" "t_status (failed_attempt verb at t) \<in> {TS_blocked, TS_todo}"
  by (simp_all add: failed_attempt_def Let_def)

lemma expired_task_sel [simp]:
  "t_ref (expired_task e policy t) = t_ref t" "\<not> task_finished (t_status (expired_task e policy t))"
  using failed_attempt_sel(2) [of "''expired''" "now_ts e" t] by (auto simp: expired_task_def)

lemma expire_one_claims:
  "xs_claims (expire_one e pm policy actor c x) = xs_claims x @ [expire_claim e pm (xs_backlog x) c]"
  by (auto simp: expire_one_def expire_claim_def task_done_def Let_def split: option.splits)

lemma expire_one_done:
  assumes "pm"
  shows "task_done (xs_backlog (expire_one e pm policy actor c x)) d = task_done (xs_backlog x) d"
  using assms expired_task_sel(2) [of e policy]
  by (auto simp: expire_one_def task_done_def Let_def findTask_update_task task_active_iff split: option.splits)

lemma fold_expire_claims:
  "xs_claims (fold (expire_one e pm policy actor) cs x) = xs_claims x @ map (expire_claim e pm (xs_backlog x)) cs"
proof (induction cs arbitrary: x)
  case (Cons c cs)
  have "expire_claim e pm (xs_backlog (expire_one e pm policy actor c x)) d = expire_claim e pm (xs_backlog x) d" for d
    using expire_one_done [of pm e policy actor c x d] by (cases pm) (simp_all add: expire_claim_def)
  then show ?case by (simp add: Cons.IH expire_one_claims)
qed simp

lemma expire_claim_advances: "advances c (expire_claim e pm b c)"
  by (cases "c_state c") (auto simp: expire_claim_def advances_def lease_stale_def claim_active_def)

lemma expireLeasesCore_advancing:
  assumes "claims_ready (st_db st)"
  shows "advancing st (expireLeasesCore e policy actor st)"
proof (cases "readBacklog st")
  case (Inl err)
  then show ?thesis using assms by (simp add: expireLeasesCore_def readJsonClaims_ready)
next
  case (Inr b)
  let ?rows = "readRows (st_db st)"
  let ?x = "fold (expire_one e (st_store st \<noteq> None) policy actor) ?rows \<lparr>xs_claims = [], xs_backlog = b, xs_expired = [], xs_changes = []\<rparr>"
  have xc: "xs_claims ?x = map (expire_claim e (st_store st \<noteq> None) b) ?rows" by (simp add: fold_expire_claims)
  have ids: "map c_run_id (xs_claims ?x) = map c_run_id ?rows"
    unfolding xc by (simp add: expire_claim_def)
  have adv: "list_all2 advances ?rows (xs_claims ?x)"
    unfolding xc by (simp add: list_all2_conv_all_nth expire_claim_advances)
  have c: "advancing st (commitClaims e (xs_claims ?x) evs st)" for evs
  proof (cases "commit_claims_txn e (st_claims_json st) (xs_claims ?x) evs (st_db st)")
    case Inl
    then show ?thesis using assms by (simp add: commitClaims_def)
  next
    case (Inr db)
    then show ?thesis using repo.commit_read [OF assms _ _ Inr, of "[]"] ids repo.read_distinct [OF assms] adv
      by (simp add: commitClaims_def advancing_def)
  qed
  show ?thesis
    unfolding expireLeasesCore_def readJsonClaims_ready [OF assms] obind.simps Inr sum.case Let_def
    by (intro advancing_if advancing_stay [OF assms] advancing_obind [OF c]) (simp add: snd_obind_db)
qed

section \<open>Claiming\<close>

lemma snapshot_db: "st_db (snd (writeRunRevisionSnapshot e runId r st)) = st_db st"
  "st_store (snd (writeRunRevisionSnapshot e runId r st)) = st_store st"
  "st_claims_json (snd (writeRunRevisionSnapshot e runId r st)) = st_claims_json st"
  by (simp_all add: writeRunRevisionSnapshot_def)

text \<open>A new claim is committed after the claims that were read, or nothing is.\<close>

lemma commit_new_claim_cases:
  assumes "commit_new_claim e runId ref ag ms cs rv st = (r, st')"
  shows "(\<exists>err. r = Inl err \<and> st_db st' = st_db st \<and> st_store st' = st_store st) \<or>
    (\<exists>snap st1. r = Inr () \<and> st_db st1 = st_db st \<and> st_store st1 = st_store st \<and> st_claims_json st1 = st_claims_json st \<and>
       commitClaims e (cs @ [new_claim e runId ref ag ms snap])
         [mk_event (now_ts e) ''claim_created'' ''agent'' ag (Some runId) (Some ref) (Some ag)
            (Some [(''lease_expires_at'', JTime (ts_plus (now_ts e) ms))])] st1 = (Inr (), st'))"
proof -
  let ?ev = "[mk_event (now_ts e) ''claim_created'' ''agent'' ag (Some runId) (Some ref) (Some ag)
            (Some [(''lease_expires_at'', JTime (ts_plus (now_ts e) ms))])]"
  have fin: "?thesis" if "st_db st1 = st_db st" "st_store st1 = st_store st" "st_claims_json st1 = st_claims_json st"
      "commitClaims e (cs @ [new_claim e runId ref ag ms snap]) ?ev st1 = (r, st')" for snap st1
    using that commitClaims_Inl [of e _ _ st1] by (cases r) auto
  show ?thesis
  proof (cases rv)
    case None
    then show ?thesis using assms fin [of st None] by (simp add: commit_new_claim_def)
  next
    case (Some rr)
    obtain x st1 where w: "writeRunRevisionSnapshot e runId rr st = (x, st1)" by (cases "writeRunRevisionSnapshot e runId rr st")
    have f: "st_db st1 = st_db st" "st_store st1 = st_store st" "st_claims_json st1 = st_claims_json st"
      using snapshot_db [of e runId rr st] w by simp_all
    show ?thesis
    proof (cases x)
      case (Inl err)
      then show ?thesis using assms Some w f by (auto simp: commit_new_claim_def)
    next
      case (Inr snap)
      then show ?thesis using assms Some w fin [OF f, of "Some snap"] by (simp add: commit_new_claim_def)
    qed
  qed
qed

lemma commit_new_claim_ready:
  assumes "claims_ready (st_db st)" "runId \<notin> c_run_id ` set (readRows (st_db st))"
    and "commit_new_claim e runId ref ag ms (readRows (st_db st)) rv st = (r, st')"
  shows "(\<exists>err. r = Inl err \<and> st_db st' = st_db st \<and> st_store st' = st_store st) \<or>
    (\<exists>snap. r = Inr () \<and> claims_ready (st_db st') \<and> st_store st' = st_store st \<and>
       readRows (st_db st') = readRows (st_db st) @ [new_claim e runId ref ag ms snap])"
  using commit_new_claim_cases [OF assms(3)]
proof (elim disjE exE conjE)
  fix snap st1
  assume r: "r = Inr ()" and f: "st_db st1 = st_db st" "st_store st1 = st_store st" "st_claims_json st1 = st_claims_json st"
    and c: "commitClaims e (readRows (st_db st) @ [new_claim e runId ref ag ms snap])
         [mk_event (now_ts e) ''claim_created'' ''agent'' ag (Some runId) (Some ref) (Some ag)
            (Some [(''lease_expires_at'', JTime (ts_plus (now_ts e) ms))])] st1 = (Inr (), st')"
  from c obtain db where db: "commit_claims_txn e (st_claims_json st1) (readRows (st_db st) @ [new_claim e runId ref ag ms snap])
         [mk_event (now_ts e) ''claim_created'' ''agent'' ag (Some runId) (Some ref) (Some ag)
            (Some [(''lease_expires_at'', JTime (ts_plus (now_ts e) ms))])] (st_db st) = Inr db"
    "st' = st1\<lparr>st_db := db, st_claims_json := Some (readRows (st_db st) @ [new_claim e runId ref ag ms snap])\<rparr>"
    unfolding commitClaims_Inr f(1) by blast
  have "c_run_id (new_claim e runId ref ag ms snap) \<notin> c_run_id ` set (readRows (st_db st))"
    using assms(2) by (simp add: new_claim_def)
  from repo.commit_new [OF assms(1) this db(1)] db(2) r f show ?thesis by auto
qed auto

lemma refresh_frame [simp]:
  "st_db (refreshBacklogProjection st) = st_db st" "st_store (refreshBacklogProjection st) = st_store st"
  by (simp_all add: refreshBacklogProjection_def split: option.split)

lemma abandon_claim_db [simp]: "st_db (snd (abandon_claim e ref runId ag err st)) = st_db st"
  by (simp add: abandon_claim_def split: option.split sum.split)

text \<open>The branches of \<open>claimTask\<close> on a repository that is ready.\<close>

lemma claimTask_cases:
  assumes ready: "claims_ready (st_db st)" and new: "runId \<notin> c_run_id ` set (readRows (st_db st))"
    and "claimTask e ref ag ms runId st = (r, st')"
  obtains
    (refused) err where "r = Inl err" "st' = st"
  | (legacy_failed) err where "r = Inl err" "st_store st = None" "st_store st' = None" "st_db st' = st_db st"
  | (legacy) snap backlog where "r = Inr (runId, ts_plus (now_ts e) ms)" "st_store st = None" "st_store st' = None"
      "claims_ready (st_db st')" "readRows (st_db st') = readRows (st_db st) @ [new_claim e runId ref ag ms snap]"
      "claim_guards ref ag backlog (readRows (st_db st)) = Inr ()"
  | (project_failed) err s rv s1 st1 where "st_store st = Some s" "store_claimTask e ref runId ag s = Inr (rv, s1)"
      "st_store st1 = Some s1" "st_db st1 = st_db st" "abandon_claim e ref runId ag err st1 = (r, st')"
  | (project) s rv s1 snap backlog where "st_store st = Some s" "store_claimTask e ref runId ag s = Inr (rv, s1)"
      "r = Inr (runId, ts_plus (now_ts e) ms)" "st_store st' = Some s1" "claims_ready (st_db st')"
      "readRows (st_db st') = readRows (st_db st) @ [new_claim e runId ref ag ms snap]"
      "claim_guards ref ag backlog (readRows (st_db st)) = Inr ()"
proof (cases "readBacklog st")
  case (Inl err)
  then have "(r, st') = (Inl err, st)" using assms(3) by (simp add: claimTask_def)
  then show thesis using refused by simp
next
  case (Inr backlog)
  note b = Inr
  show thesis
  proof (cases "claim_guards ref ag backlog (readRows (st_db st))")
    case (Inl err)
    then have "(r, st') = (Inl err, st)" using assms(3) b by (simp add: claimTask_def readJsonClaims_ready [OF ready])
    then show thesis using refused by simp
  next
    case g: (Inr u)
    show thesis
    proof (cases "st_store st")
      case None
      show thesis
      proof (cases "isProjectStateDir st")
        case True
        then have "(r, st') = (Inl (NotFoundError ''Project task store is missing: runtime.db''), st)"
          using assms(3) b g None by (simp add: claimTask_def readJsonClaims_ready [OF ready])
        then show thesis using refused by simp
      next
        case False
        obtain x st1 where c: "commit_new_claim e runId ref ag ms (readRows (st_db st)) None st = (x, st1)" by fastforce
        show thesis using commit_new_claim_ready [OF ready new c]
        proof (elim disjE exE conjE)
          fix err assume "x = Inl err" "st_db st1 = st_db st" "st_store st1 = st_store st"
          then have "(r, st') = (Inl err, st1)" "st_store st1 = None" "st_db st1 = st_db st"
            using assms(3) b g None False c by (simp_all add: claimTask_def readJsonClaims_ready [OF ready])
          then show thesis using legacy_failed None by simp
        next
          fix snap assume h: "x = Inr ()" "claims_ready (st_db st1)" "st_store st1 = st_store st"
            "readRows (st_db st1) = readRows (st_db st) @ [new_claim e runId ref ag ms snap]"
          then have "(r, st') = (Inr (runId, ts_plus (now_ts e) ms),
             st1\<lparr>st_backlog_json := Some (update_task ref (\<lambda>t. t\<lparr>t_status := TS_claimed\<rparr>) backlog)\<rparr>)"
            using assms(3) b g None False c by (simp add: claimTask_def readJsonClaims_ready [OF ready])
          then show thesis using h None g by (intro legacy [of snap backlog]) simp_all
        qed
      qed
    next
      case (Some s)
      show thesis
      proof (cases "store_claimTask e ref runId ag s")
        case (Inl err)
        then have "(r, st') = (Inl err, st)" using assms(3) b g Some by (simp add: claimTask_def readJsonClaims_ready [OF ready])
        then show thesis using refused by simp
      next
        case (Inr p)
        obtain rv s1 where p: "p = (rv, s1)" by (cases p)
        let ?st = "st\<lparr>st_store := Some s1\<rparr>"
        obtain x st1 where c: "commit_new_claim e runId ref ag ms (readRows (st_db ?st)) (Some rv) ?st = (x, st1)" by fastforce
        have ready': "claims_ready (st_db ?st)" "runId \<notin> c_run_id ` set (readRows (st_db ?st))" using ready new by simp_all
        show thesis using commit_new_claim_ready [OF ready' c]
        proof (elim disjE exE conjE)
          fix err assume h: "x = Inl err" "st_db st1 = st_db ?st" "st_store st1 = st_store ?st"
          then have "abandon_claim e ref runId ag err st1 = (r, st')"
            using assms(3) b g Some Inr p c by (simp add: claimTask_def readJsonClaims_ready [OF ready])
          then show thesis using h Some Inr p project_failed by simp
        next
          fix snap assume h: "x = Inr ()" "claims_ready (st_db st1)" "st_store st1 = st_store ?st"
            "readRows (st_db st1) = readRows (st_db ?st) @ [new_claim e runId ref ag ms snap]"
          then have "(r, st') = (Inr (runId, ts_plus (now_ts e) ms), refreshBacklogProjection st1)"
            using assms(3) b g Some Inr p c by (simp add: claimTask_def readJsonClaims_ready [OF ready])
          then show thesis using h Some Inr p g by (intro project [of s rv s1 snap backlog]) simp_all
        qed
      qed
    qed
  qed
qed

text \<open>Claiming a task adds at most one claim, of the agent that claims it.\<close>

lemma claimTask_adds:
  assumes "claims_ready (st_db st)" "runId \<notin> c_run_id ` set (readRows (st_db st))"
  shows "claims_ready (st_db (snd (claimTask e ref ag ms runId st))) \<and>
    (\<exists>new. readRows (st_db (snd (claimTask e ref ag ms runId st))) = readRows (st_db st) @ new \<and> (\<forall>c \<in> set new. c_agent_id c = ag))"
proof -
  obtain r st' where r: "claimTask e ref ag ms runId st = (r, st')" by fastforce
  from assms r show ?thesis
  proof (cases rule: claimTask_cases)
    case (project_failed err s rv s1 st1)
    then have "st_db st' = st_db st" by (metis abandon_claim_db snd_conv)
    then show ?thesis using assms(1) r by simp
  qed (use assms(1) r in \<open>simp_all add: new_claim_def\<close>)
qed

end
