(* ===== verification/Claim_Props.thy ===== *)
theory Claim_Props
  imports Claim_Manager
begin

text \<open>
  Properties of the claim manager: the life of a claim over any sequence of calls, exclusivity of a
  successful claim, rollback of a failed one, lease expiry and the attempt budget.
\<close>

section \<open>Runs of the claim manager\<close>

text \<open>
  One call of the claim manager, successful or not: whatever state the call leaves behind. The run
  identifier of a claim is new.
\<close>

inductive claim_step :: "orc_state \<Rightarrow> orc_state \<Rightarrow> bool" where
  claim: "runId \<notin> c_run_id ` set (readRows (st_db st)) \<Longrightarrow> claim_step st (snd (claimTask e ref ag ms runId st))"
| start: "claim_step st (snd (startRun e runId ag emit at aty aid st))"
| beat: "claim_step st (snd (heartbeat e runId ag ms emit at st))"
| renew: "claim_step st (snd (renewLeaseOnly e runId ms st))"
| finish: "claim_step st (snd (finishRun e runId ag opts st))"
| envelope: "claim_step st (snd (markTaskEnvelopeSent e runId ag emit at aty aid2 st))"
| finalization: "claim_step st (snd (setRunFinalizationState e runId ag fs d br st))"
| input: "claim_step st (snd (setRunInputState e runId ag ins ra st))"
| retry: "claim_step st (snd (setRunSessionStartRetryState e runId ag rc na le st))"
| escalation: "claim_step st (snd (setEscalationNotified e runId st))"
| pr_ref: "claim_step st (snd (setPrRef e runId prRef st))"
| pr_created: "claim_step st (snd (setPrCreatedAt e runId ca n st))"
| expire: "claim_step st (snd (expireLeasesCore e policy actor st))"

lemma advancing_snd: "advancing st r \<Longrightarrow> claims_ready (st_db (snd r)) \<and> claims_advance (readRows (st_db st)) (readRows (st_db (snd r)))"
  using list_all2_claims_advance [of "readRows (st_db st)" "readRows (st_db (snd r))" "[]"] by (simp add: advancing_def)

lemma claim_step_advances:
  assumes "claim_step st st'" "claims_ready (st_db st)"
  shows "claims_ready (st_db st') \<and> claims_advance (readRows (st_db st)) (readRows (st_db st'))"
  using assms
proof (induction rule: claim_step.induct)
  case (claim runId st e ref ag ms)
  then show ?case using claimTask_adds [of st runId e ref ag ms] by auto
qed (rule advancing_snd, rule startRun_advancing heartbeat_advancing renewLeaseOnly_advancing finishRun_advancing
        markTaskEnvelopeSent_advancing setRun_advancing setEscalationNotified_advancing setPrRef_advancing
        setPrCreatedAt_advancing expireLeasesCore_advancing, assumption)+

lemma claim_steps_advance:
  assumes "claim_step\<^sup>*\<^sup>* st st'" "claims_ready (st_db st)"
  shows "claims_ready (st_db st') \<and> claims_advance (readRows (st_db st)) (readRows (st_db st'))"
  using assms
  by (induction rule: rtranclp_induct) (auto dest: claim_step_advances intro: claims_advance_trans)

lemma claims_advance_in:
  assumes "claims_advance cs cs'" "c \<in> set cs"
  obtains c' where "c' \<in> set cs'" "advances c c'"
proof -
  from assms(1) obtain kept new where k: "cs' = kept @ new" "list_all2 advances cs kept" by (auto simp: claims_advance_def)
  from assms(2) obtain i where "i < length cs" "c = cs ! i" by (auto simp: in_set_conv_nth)
  with k(2) have "kept ! i \<in> set kept" "advances c (kept ! i)" by (auto simp: list_all2_conv_all_nth)
  with k(1) show thesis by (intro that [of "kept ! i"]) auto
qed

lemma advances_terminal: "advances c c' \<Longrightarrow> \<not> claim_active c \<Longrightarrow> c_state c' = c_state c"
  by (cases "c_state c"; cases "c_state c'") (auto simp: advances_def claim_active_def)

text \<open>
  C10. A claim only moves forward. Through any sequence of calls of the claim manager, failing ones
  included, every claim keeps its run, task and agent, moves only from claimed through in progress
  to done or failed, and a finished claim keeps its final state; two different claims of one task are
  never both active.
\<close>

theorem claims_never_regress:
  assumes "claim_step\<^sup>*\<^sup>* st st'" "claims_ready (st_db st)" "c \<in> set (readRows (st_db st))"
  shows "(\<exists>c' \<in> set (readRows (st_db st')). advances c c' \<and> (\<not> claim_active c \<longrightarrow> c_state c' = c_state c)) \<and>
    (\<forall>a \<in> set (readRows (st_db st')). \<forall>b \<in> set (readRows (st_db st')).
       claim_active a \<and> claim_active b \<and> c_task_ref a = c_task_ref b \<longrightarrow> a = b)"
proof -
  from claim_steps_advance [OF assms(1,2)]
  have r: "claims_ready (st_db st')" and a: "claims_advance (readRows (st_db st)) (readRows (st_db st'))" by auto
  from a assms(3) obtain c' where "c' \<in> set (readRows (st_db st'))" "advances c c'" by (rule claims_advance_in)
  then have "\<exists>c' \<in> set (readRows (st_db st')). advances c c' \<and> (\<not> claim_active c \<longrightarrow> c_state c' = c_state c)"
    using advances_terminal by blast
  then show ?thesis using repo.one_active_claim [OF r] by blast
qed

text \<open>
  C3. A successful claim gives the agent the task and nobody else: the claims end with a new active
  claim of the task for the agent under the returned run, with a lease that ends one lease duration
  from now; no other active claim of the task exists; and in a project directory the task is claimed
  in the task store, the run is the task's active run and is pinned to the latest revision.
\<close>

theorem claim_is_exclusive:
  assumes ready: "claims_ready (st_db st)" and new: "runId \<notin> c_run_id ` set (readRows (st_db st))"
    and c: "claimTask e ref ag ms runId st = (Inr (run, lease), st')"
  shows "run = runId \<and> lease = ts_plus (now_ts e) ms \<and>
    (\<exists>claim. readRows (st_db st') = readRows (st_db st) @ [claim] \<and> claim_active claim \<and> c_run_id claim = run \<and>
       c_task_ref claim = ref \<and> c_agent_id claim = ag \<and> c_lease_expires_at claim = Some lease) \<and>
    (\<forall>d \<in> set (readRows (st_db st')). c_task_ref d = ref \<and> claim_active d \<longrightarrow> c_run_id d = run) \<and>
    (\<forall>s. st_store st = Some s \<longrightarrow> (\<exists>s' r. st_store st' = Some s' \<and>
       map_option tr_status (find_task_row ref s') = Some TS_claimed \<and> activeRunId ref s' = Some run \<and>
       getRunSpec run s' = Some r \<and> latest_revision ref s = Some r))"
proof -
  have sel: "claim_active (new_claim e runId ref ag ms snap)" "c_run_id (new_claim e runId ref ag ms snap) = runId"
    "c_task_ref (new_claim e runId ref ag ms snap) = ref" "c_agent_id (new_claim e runId ref ag ms snap) = ag"
    "c_lease_expires_at (new_claim e runId ref ag ms snap) = Some (ts_plus (now_ts e) ms)" for snap
    by (simp_all add: new_claim_def claim_active_def)
  have only: "\<forall>d \<in> set (readRows (st_db st')). c_task_ref d = ref \<and> claim_active d \<longrightarrow> c_run_id d = runId"
    if "claims_ready (st_db st')" "readRows (st_db st') = readRows (st_db st) @ [new_claim e runId ref ag ms snap]" for snap
  proof (intro ballI impI)
    fix d assume "d \<in> set (readRows (st_db st'))" "c_task_ref d = ref \<and> claim_active d"
    then have "d = new_claim e runId ref ag ms snap"
      using that sel [of snap] by (intro repo.one_active_claim [OF that(1)]) simp_all
    then show "c_run_id d = runId" by (simp add: sel)
  qed
  show ?thesis using ready new c
  proof (cases rule: claimTask_cases)
    case (legacy snap backlog)
    then show ?thesis using only [OF legacy(4,5)] sel [of snap] by auto
  next
    case (project s rv s1 snap backlog)
    from claim_effect [OF project(2)] project only [OF project(5,6)] sel [of snap] show ?thesis by auto
  next
    case (project_failed err s rv s1 st1)
    then show ?thesis by (auto simp: abandon_claim_def split: option.splits sum.splits)
  qed auto
qed


section \<open>A failed claim is undone\<close>

lemma applied_claim_requeue:
  assumes c: "store_claimTask e ref runId ag s = Inr (rv, s1)" and inv: "store_inv s"
  shows "\<exists>s2. applyTransition e ref (mk_transition TC_failure_requeue TS_todo run actor reason) s1 = Inr s2 \<and>
    map_option tr_status (find_task_row ref s2) = Some TS_todo"
proof -
  have inv1: "store_inv s1" using inv c by (rule store_inv_claimTask)
  from claim_effect [OF c] obtain row where row: "find_task_row ref s1 = Some row" "tr_status row = TS_claimed" by auto
  obtain r where g: "getTask ref s1 = Some (toTask row r (dependencies ref s1))" using getTask_exists [OF inv1 row(1)] .
  let ?t = "\<lparr>tt_task_ref = ref, tt_from = TS_claimed, tt_to = TS_todo, tt_cause = TC_failure_requeue, tt_reason = reason,
     tt_run_id = run, tt_actor_id = actor, tt_idempotency_key = None, tt_created_at = now_ts e\<rparr>"
  have "insert_transition ?t s1 = Inr (applied ?t s1)"
    using row by (simp add: insert_transition_def transitions_validate_iff applied_def)
  then have a: "applyTransition e ref (mk_transition TC_failure_requeue TS_todo run actor reason) s1 =
      Inr (move_binding (now_ts e) ref TS_claimed TC_failure_requeue (applied ?t s1))"
    using g row by (simp add: applyTransition_def mk_transition_def)
  have "find_task_row ref (move_binding (now_ts e) ref TS_claimed TC_failure_requeue (applied ?t s1)) = find_task_row ref (applied ?t s1)"
    by (simp add: find_task_row_def)
  then show ?thesis using a row by (simp add: find_task_row_applied)
qed

lemma find_task_row_abandon [simp]: "find_task_row ref (abandonRun e runId s) = find_task_row ref s"
  by (simp add: abandonRun_def find_task_row_def)

lemma abandonRun_inactive: "\<forall>r \<in> set (task_runs (abandonRun e runId s)). rb_run_id r = runId \<longrightarrow> \<not> binding_active (rb_state r)"
  by (simp add: abandonRun_def set_binding_state_def ball_update_where)

text \<open>
  C7. A claim that fails leaves nothing behind. Whatever makes \<open>claimTask\<close> fail in a project
  directory (a guard, the task store, the snapshot or the commit of the claim), the claims are as
  before, the task keeps the status it had, and no binding of the run is active: a task never stays
  claimed without a live claim.
\<close>

theorem failed_claim_is_undone:
  assumes ready: "claims_ready (st_db st)" and new: "runId \<notin> c_run_id ` set (readRows (st_db st))"
    and s: "st_store st = Some s" "store_inv s" "\<forall>r \<in> set (task_runs s). rb_run_id r \<noteq> runId"
    and c: "claimTask e ref ag ms runId st = (Inl err, st')"
  shows "st_db st' = st_db st \<and> (\<exists>s'. st_store st' = Some s' \<and>
    map_option tr_status (find_task_row ref s') = map_option tr_status (find_task_row ref s) \<and>
    (\<forall>r \<in> set (task_runs s'). rb_run_id r = runId \<longrightarrow> \<not> binding_active (rb_state r)))"
  using ready new c
proof (cases rule: claimTask_cases)
  case (project_failed err1 s0 rv s1 st1)
  with s(1) have s0: "s0 = s" by simp
  from project_failed(2) have claimed: "store_claimTask e ref runId ag s = Inr (rv, s1)" by (simp add: s0)
  have todo: "map_option tr_status (find_task_row ref s) = Some TS_todo"
    using claimed by (cases rule: store_claimTask_Inr) simp
  from applied_claim_requeue [OF claimed s(2)] obtain s2 where
    "applyTransition e ref (mk_transition TC_failure_requeue TS_todo (Some runId) (Some ag) (Some ''claim_not_committed'')) s1 = Inr s2"
    "map_option tr_status (find_task_row ref s2) = Some TS_todo" by blast
  with project_failed(3,4,5) todo show ?thesis
    by (auto simp: abandon_claim_def abandonRun_inactive)
qed (use s in auto)

section \<open>Lease expiry\<close>

lemma expired_iff:
  "xs_expired (fold (expire_one e pm policy actor) cs x) = [] \<longleftrightarrow>
     xs_expired x = [] \<and> (\<forall>c \<in> set cs. expire_claim e pm (xs_backlog x) c = c)"
proof (induction cs arbitrary: x)
  case (Cons c cs)
  have step: "xs_expired (expire_one e pm policy actor c x) = [] \<longleftrightarrow> xs_expired x = [] \<and> expire_claim e pm (xs_backlog x) c = c"
  proof (cases "lease_stale e c \<and> \<not> (pm \<and> task_done (xs_backlog x) c)")
    case True
    then have "expire_claim e pm (xs_backlog x) c \<noteq> c"
      by (cases "c_state c") (auto simp: expire_claim_def lease_stale_def claim_active_def dest: arg_cong [where f = c_state])
    with True show ?thesis by (auto simp: expire_one_def task_done_def Let_def split: option.splits)
  next
    case False
    then show ?thesis by (auto simp: expire_one_def expire_claim_def task_done_def Let_def split: option.splits)
  qed
  have same: "expire_claim e pm (xs_backlog (expire_one e pm policy actor c x)) d = expire_claim e pm (xs_backlog x) d" for d
    using expire_one_done [of pm e policy actor c x d] by (cases pm) (simp_all add: expire_claim_def)
  show ?case by (simp add: Cons.IH step same)
qed simp


section \<open>The attempt budget\<close>

lemma requeueBackoffMs_bounds: "30000 \<le> requeueBackoffMs n \<and> requeueBackoffMs n \<le> 600000"
  by (simp add: requeueBackoffMs_def BACKOFF_BASE_MS_def BACKOFF_MAX_MS_def)

text \<open>
  The attempt budget: a failure that is not an infrastructure failure counts one attempt, and the
  task is blocked exactly when that is the fifth; before that it returns to the queue and stays
  ineligible for at least 30 seconds and at most ten minutes after the failure. An infrastructure
  failure requeues the task without counting.
\<close>

theorem attempt_budget:
  assumes "\<not> fo_success opts" "fo_policy opts \<noteq> ''block''" "fo_at opts = Ts at"
  shows "(infra_failure (fo_failureCode opts) \<longrightarrow> t_status (finished_task pm opts t) = TS_todo \<and>
       t_attempt_count (finished_task pm opts t) = t_attempt_count t) \<and>
    (\<not> infra_failure (fo_failureCode opts) \<longrightarrow>
       t_attempt_count (finished_task pm opts t) = Some (Suc (or_default (t_attempt_count t) 0)) \<and>
       (t_status (finished_task pm opts t) = TS_blocked \<longleftrightarrow> 4 \<le> or_default (t_attempt_count t) 0) \<and>
       (or_default (t_attempt_count t) 0 < 4 \<longrightarrow> t_status (finished_task pm opts t) = TS_todo \<and>
          (\<exists>ms. t_requeue_eligible_after (finished_task pm opts t) = Some (Ts ms) \<and> at + 30000 \<le> ms \<and> ms \<le> at + 600000)))"
  using assms requeueBackoffMs_bounds [of "Suc (or_default (t_attempt_count t) 0)"]
  by (auto simp: finished_task_def failed_attempt_def Let_def MAX_ATTEMPTS_def)

section \<open>Evaluation on a concrete state directory\<close>

text \<open>A project directory with the unclaimed task \<open>f/a\<close>, and a legacy directory with a claimed one.\<close>

definition proj_st :: orc_state where
  "proj_st = \<lparr>st_db = runs_db, st_claims_json = Some [], st_agents_json = None, st_store = Some store0,
     st_backlog_json = None, st_descriptor = True, st_run_specs = []\<rparr>"

definition legacy_task :: Task where
  "legacy_task = (projectTaskToBacklogTask (toTask (new_task_row ''f/a'' ''T'' ''normal'' None (Ts 0)) (rev0 ''b'' 1) []))
     \<lparr>t_status := TS_claimed\<rparr>"

definition legacy_st :: orc_state where
  "legacy_st = \<lparr>st_db = runs_db', st_claims_json = Some [claim0_run ''run-1'' ''f/a'' CS_claimed], st_agents_json = None,
     st_store = None, st_backlog_json = Some [\<lparr>f_ref = ''f'', f_title = ''f'', f_tasks = [legacy_task]\<rparr>],
     st_descriptor = False, st_run_specs = []\<rparr>"

lemma proj_sel: "st_db proj_st = runs_db" "st_claims_json proj_st = Some []"
  by (simp_all add: proj_st_def)

lemma proj_ready: "claims_ready (st_db proj_st)" and proj_rows: "readRows (st_db proj_st) = []"
  by (simp_all add: claims_ready_def proj_st_def runs_db_inv readRows_def)
     (simp add: runs_db_def empty_db_def List.map_filter_simps)

lemma legacy_ready: "claims_ready (st_db legacy_st)"
  and legacy_rows: "readRows (st_db legacy_st) = [claim0_run ''run-1'' ''f/a'' CS_claimed]"
  using commit_keeps_runs_inv [OF runs_db_inv(1) runs_db_commit]
  by (simp_all add: claims_ready_def legacy_st_def cut_over_def readRows_def runs_db'_def runs_db_def List.map_filter_simps)

definition proj_backlog0 :: Backlog where
  "proj_backlog0 = [\<lparr>f_ref = ''f'', f_title = ''f'',
    f_tasks = [projectTaskToBacklogTask (toTask (new_task_row ''f/a'' ''T'' ''normal'' None (Ts 0)) (rev0 ''b'' 1) [])]\<rparr>]"

lemma proj_backlog: "readBacklog proj_st = Inr proj_backlog0"
  by (simp add: readBacklog_def proj_st_def readProjectBacklog_def listTasks_def store0_def featureRefOf_def rev0_def proj_backlog0_def orc_eval)

lemma proj_guards: "claim_guards ''f/a'' ''w'' proj_backlog0 [] = Inr ()"
  by (simp add: claim_guards_def findTask_def backlog_tasks_def projectTaskToBacklogTask_def rev0_def proj_backlog0_def orc_eval)

lemma proj_claims: "readJsonClaims proj_st = (Inr [], proj_st)"
  using readJsonClaims_ready [OF proj_ready] proj_rows by simp

text \<open>An event appends whenever it validates under every number and its fresh identity is new.\<close>

lemma append_first_event:
  assumes "db_events db = []" "ev_event_id ev = None"
    "\<And>n i. validateEventObject e (ev\<lparr>ev_seq := n, ev_event_id := Some i\<rparr>) = []"
  shows "\<exists>db'. append_event e ev db = Inr db'"
proof -
  have "validateEventObject e (ev\<lparr>ev_event_id := Some i, ev_seq := n\<rparr>) = []" for n i
    using assms(3) [of i n] by (cases ev) simp
  then show ?thesis using assms by (simp add: append_event_def appendSequencedEvent_def ensureEventIdentity_def Let_def)
qed

lemmas event_eval = mk_event_def env0_def TASK_REF_RE_def kebab_char_def alnum_lower_def is_lower_def is_digit_def
  RUN_ID_RE_def ts_finite_def orc_eval

lemma proj_claim_created:
  "\<exists>db. commit_claims_txn env0 (Some []) [new_claim env0 ''run-1'' ''f/a'' ''w'' 1000 snap]
     [mk_event (now_ts env0) ''claim_created'' ''agent'' ''w'' (Some ''run-1'') (Some ''f/a'') (Some ''w'')
            (Some [(''lease_expires_at'', JTime (Ts 1000))])] runs_db = Inr db" (is "\<exists>db. commit_claims_txn _ _ _ [?ev] _ = _")
proof -
  have v: "validateEventObject env0 (?ev\<lparr>ev_seq := n, ev_event_id := Some i\<rparr>) = []" for n i
    by (simp add: event_eval)
  have i: "ev_event_id ?ev = None" by (simp add: mk_event_def)
  have "\<exists>db'. append_event env0 ?ev db = Inr db'" if "db_events db = []" for db
    using append_first_event [of db ?ev, OF that i v] .
  then show ?thesis
    by (simp add: commit_claims_txn_def importLegacyClaims_def runs_db_def empty_db_def upsertClaim_def
        runs_one_active_def new_claim_def claim_updated_at_def rbind_Inr_iff Let_def del: rbind.simps)
qed

lemma proj_claimed: "\<exists>st'. claimTask env0 ''f/a'' ''w'' 1000 ''run-1'' proj_st = (Inr (''run-1'', Ts 1000), st')"
proof -
  let ?snap = "\<lparr>snap_source_path = ''project-task:f/a@'' @ show_nat 1, snap_path = ''run-specs/run-1.md'',
       snap_sha256 = replicate 64 (CHR ''0''), snap_task_revision = Some 1\<rparr>"
  have snap: "writeRunRevisionSnapshot env0 ''run-1'' (rev0 ''b'' 1) (proj_st\<lparr>st_store := Some store1\<rparr>) =
      (Inr ?snap, proj_st\<lparr>st_store := Some store1, st_run_specs := [(''run-1'', ''b'')]\<rparr>)"
    by (simp add: writeRunRevisionSnapshot_def env0_def rev0_def proj_st_def)
  obtain db where db: "commit_claims_txn env0 (Some []) [new_claim env0 ''run-1'' ''f/a'' ''w'' 1000 (Some ?snap)]
     [mk_event (now_ts env0) ''claim_created'' ''agent'' ''w'' (Some ''run-1'') (Some ''f/a'') (Some ''w'')
            (Some [(''lease_expires_at'', JTime (Ts 1000))])] runs_db = Inr db" using proj_claim_created by blast
  have now: "now_ts env0 = Ts 0" by (simp add: now_ts_def env0_def)
  have "\<exists>st1. commit_new_claim env0 ''run-1'' ''f/a'' ''w'' 1000 [] (Some (rev0 ''b'' 1)) (proj_st\<lparr>st_store := Some store1\<rparr>) = (Inr (), st1)"
    using db by (simp add: commit_new_claim_def snap commitClaims_def proj_sel now del: One_nat_def)
  moreover have "st_store proj_st = Some store0" by (simp add: proj_st_def)
  ultimately show ?thesis
    by (auto simp: claimTask_def proj_backlog proj_claims proj_guards store1_claimed now simp del: One_nat_def)
qed

theorem claim_is_exclusive_witness:
  "\<exists>st' s'. claimTask env0 ''f/a'' ''w'' 1000 ''run-1'' proj_st = (Inr (''run-1'', Ts 1000), st') \<and>
     st_store st' = Some s' \<and> activeRunId ''f/a'' s' = Some ''run-1''"
proof -
  obtain st' where c: "claimTask env0 ''f/a'' ''w'' 1000 ''run-1'' proj_st = (Inr (''run-1'', Ts 1000), st')"
    using proj_claimed by blast
  have "st_store proj_st = Some store0" by (simp add: proj_st_def)
  with claim_is_exclusive [OF proj_ready _ c] c show ?thesis by (auto simp: proj_rows)
qed

theorem claims_never_regress_witness:
  "\<exists>c' \<in> set (readRows (st_db (snd (startRun env0 ''run-1'' ''w'' False (Ts 5) ''agent'' None legacy_st)))).
     advances (claim0_run ''run-1'' ''f/a'' CS_claimed) c'"
proof -
  have steps: "claim_step\<^sup>*\<^sup>* legacy_st (snd (startRun env0 ''run-1'' ''w'' False (Ts 5) ''agent'' None legacy_st))"
    by (rule r_into_rtranclp, rule claim_step.start)
  have "claim0_run ''run-1'' ''f/a'' CS_claimed \<in> set (readRows (st_db legacy_st))" by (simp add: legacy_rows)
  from claims_never_regress [OF steps legacy_ready this] show ?thesis by blast
qed

theorem failed_claim_is_undone_witness:
  "st_db (snd (claimTask (env0\<lparr>injectionFindings := \<lambda>_. [''x'']\<rparr>) ''f/a'' ''w'' 1000 ''run-1'' proj_st)) = st_db proj_st \<and>
   (\<exists>s'. st_store (snd (claimTask (env0\<lparr>injectionFindings := \<lambda>_. [''x'']\<rparr>) ''f/a'' ''w'' 1000 ''run-1'' proj_st)) = Some s' \<and>
      map_option tr_status (find_task_row ''f/a'' s') = Some TS_todo)"
proof -
  let ?e = "env0\<lparr>injectionFindings := \<lambda>_. [''x'']\<rparr>"
  have store: "st_store proj_st = Some store0" by (simp add: proj_st_def)
  have claimed: "store_claimTask ?e ''f/a'' ''run-1'' ''w'' store0 = Inr (rev0 ''b'' 1, store1)"
    by (simp add: store1_def claim0_def applied_def binding0_def store0_def rev0_def env0_def orc_eval)
  obtain s2 where "applyTransition ?e ''f/a'' (mk_transition TC_failure_requeue TS_todo (Some ''run-1'') (Some ''w'')
      (Some ''claim_not_committed'')) store1 = Inr s2" using applied_claim_requeue [OF claimed store0_inv] by blast
  then have "\<exists>err st'. claimTask ?e ''f/a'' ''w'' 1000 ''run-1'' proj_st = (Inl err, st')"
    by (simp add: claimTask_def proj_backlog proj_claims proj_guards store claimed commit_new_claim_def
        writeRunRevisionSnapshot_def abandon_claim_def del: One_nat_def)
  then obtain err st' where c: "claimTask ?e ''f/a'' ''w'' 1000 ''run-1'' proj_st = (Inl err, st')" by blast
  have "map_option tr_status (find_task_row ''f/a'' store0) = Some TS_todo" by (simp add: store0_def orc_eval)
  with failed_claim_is_undone [OF proj_ready _ store store0_inv _ c] c show ?thesis
    by (auto simp: proj_rows store0_def empty_store_def)
qed


theorem attempt_budget_witness:
  "t_status (finished_task False \<lparr>fo_success = False, fo_failureReason = None, fo_failureCode = None, fo_policy = ''requeue'',
      fo_emitEvent = True, fo_at = Ts 7\<rparr> (legacy_task\<lparr>t_attempt_count := Some 4\<rparr>)) = TS_blocked"
  using attempt_budget [of "\<lparr>fo_success = False, fo_failureReason = None, fo_failureCode = None, fo_policy = ''requeue'',
      fo_emitEvent = True, fo_at = Ts 7\<rparr>" 7 False "legacy_task\<lparr>t_attempt_count := Some 4\<rparr>"]
  by (simp add: infra_failure_def)

end
