(* ===== verification/Command_Delivery.thy ===== *)
theory Command_Delivery
  imports Run_Store Claim_Manager
begin

text \<open>
  \<^verbatim>\<open>lib/commandDelivery.ts\<close>: the durable command queue between the coordinator, the master and a
  worker session: enqueue with an idempotency key, reservation, send, acknowledgement, transport
  failure, recovery after a crash, and the operator's resolution of an unknown outcome.
\<close>

section \<open>Rows\<close>

text \<open>An operation is one transaction: it returns its value and the new database, or an error and no change.\<close>

type_synonym 'a txn = "('a \<times> runtime_db) result"

fun command_state_str :: "CommandState \<Rightarrow> string" where
  "command_state_str CM_queued = ''queued''"
| "command_state_str CM_dispatching = ''dispatching''"
| "command_state_str CM_sent = ''sent''"
| "command_state_str CM_accepted = ''accepted''"
| "command_state_str CM_running = ''running''"
| "command_state_str CM_completed = ''completed''"
| "command_state_str CM_failed = ''failed''"
| "command_state_str CM_cancelled = ''cancelled''"
| "command_state_str CM_outcome_unknown = ''outcome_unknown''"

record EnqueueCommand =
  eq_runId :: string
  eq_recipientSessionId :: string
  eq_idempotencyKey :: string
  eq_kind :: string
  eq_payload :: "string option"
  eq_sideEffecting :: bool
  eq_maxAttempts :: int
  eq_deadlineAt :: "timestamp option"

record CommandPrincipal =
  pr_agentId :: string
  pr_sessionId :: string

fun TERMINAL :: "CommandState \<Rightarrow> bool" where
  "TERMINAL CM_completed = True"
| "TERMINAL CM_failed = True"
| "TERMINAL CM_cancelled = True"
| "TERMINAL _ = False"

definition command_row :: "string \<Rightarrow> runtime_db \<Rightarrow> DurableCommand result" where
  "command_row commandId db =
     (case List.find (\<lambda>c. dc_command_id c = commandId) (db_commands db) of
        None \<Rightarrow> Inl (NotFoundError ''Command not found'')
      | Some c \<Rightarrow> Inr c)"

definition command_run :: "string \<Rightarrow> runtime_db \<Rightarrow> run_row result" where
  "command_run runId db =
     (case List.find (\<lambda>r. rn_run_id r = runId) (db_runs db) of
        None \<Rightarrow> Inl (NotFoundError ''Run not found'')
      | Some r \<Rightarrow> Inr r)"

definition find_session :: "string option \<Rightarrow> runtime_db \<Rightarrow> session_row option" where
  "find_session sessionId db = List.find (\<lambda>s. Some (ss_session_id s) = sessionId) (db_sessions db)"

definition command_session :: "string option \<Rightarrow> runtime_db \<Rightarrow> session_row result" where
  "command_session sessionId db =
     (case find_session sessionId db of
        None \<Rightarrow> Inl (ForbiddenError ''Authenticated session is not running'')
      | Some s \<Rightarrow> if ss_state s \<noteq> SS_running then Inl (ForbiddenError ''Authenticated session is not running'') else Inr s)"

definition command_event :: "env \<Rightarrow> DurableCommand \<Rightarrow> string \<Rightarrow> string option \<Rightarrow> runtime_db \<Rightarrow> runtime_db result" where
  "command_event e c name reason db =
     rbind (command_run (dc_run_id c) db) (\<lambda>owner.
       append_event e
         (mk_event (now_ts e) name ''coordinator'' ''coordinator'' (Some (dc_run_id c)) (Some (rn_task_ref owner))
            (Some (dc_recipient_id c))
            (Some ([(''command_id'', JStr (dc_command_id c)), (''state'', JStr (command_state_str (dc_state c))),
                    (''attempt_count'', JNum (dc_attempt_count c))] @
                   (if truthy reason then [(''reason'', JStr (the reason))] else [])))) db)"

text \<open>\<^verbatim>\<open>UPDATE commands ... WHERE command_id = ?\<close>, the row after it, and its event.\<close>

definition update_command ::
  "env \<Rightarrow> string \<Rightarrow> (DurableCommand \<Rightarrow> DurableCommand) \<Rightarrow> string \<Rightarrow> string option \<Rightarrow> runtime_db \<Rightarrow> DurableCommand txn" where
  "update_command e commandId f name reason db =
     (let db1 = db\<lparr>db_commands := update_where (\<lambda>c. dc_command_id c = commandId) f (db_commands db)\<rparr> in
      rbind (command_row commandId db1) (\<lambda>updated.
        rbind (command_event e updated name reason db1) (\<lambda>db2. Inr (updated, db2))))"

definition command_transition ::
  "env \<Rightarrow> DurableCommand \<Rightarrow> CommandState \<Rightarrow> string \<Rightarrow> string option \<Rightarrow> runtime_db \<Rightarrow> DurableCommand txn" where
  "command_transition e command state name reason db =
     update_command e (dc_command_id command)
       (\<lambda>c. c\<lparr>dc_state := state, dc_last_error := reason,
              dc_terminal_at := (if TERMINAL state \<or> state = CM_outcome_unknown then Some (now_ts e) else None)\<rparr>)
       name reason db"

section \<open>Enqueue\<close>

text \<open>The acting session: \<open>None\<close> is the in-process coordinator.\<close>

definition enqueue_actor ::
  "CommandPrincipal option \<Rightarrow> run_row \<Rightarrow> string \<Rightarrow> runtime_db \<Rightarrow> (string option \<times> string) result" where
  "enqueue_actor caller owner runId db =
     (case caller of
        None \<Rightarrow> Inr (None, ''coordinator'')
      | Some p \<Rightarrow>
          rbind (command_session (Some (pr_sessionId p)) db) (\<lambda>actor.
            if ss_agent_id actor \<noteq> pr_agentId p
            then Inl (ForbiddenError ''Authenticated actor does not match session'')
            else if ss_agent_id actor \<noteq> ''master'' \<and>
                    (Some (ss_agent_id actor) \<noteq> rn_agent_id owner \<or> ss_run_id actor \<noteq> Some runId)
            then Inl (ForbiddenError ''Actor is not scoped to the run'')
            else Inr (Some (ss_session_id actor), ss_agent_id actor)))"

definition same_command :: "string option \<Rightarrow> string option \<Rightarrow> string \<Rightarrow> EnqueueCommand \<Rightarrow> DurableCommand \<Rightarrow> bool" where
  "same_command actorSession recipientSession payload input c \<longleftrightarrow>
     dc_actor_session_id c = actorSession \<and> dc_session_id c = recipientSession \<and> dc_kind c = eq_kind input \<and>
     dc_payload c = payload \<and> dc_side_effecting c = eq_sideEffecting input \<and>
     dc_max_attempts c = eq_maxAttempts input \<and> dc_deadline_at c = eq_deadlineAt input"

definition new_command ::
  "env \<Rightarrow> string \<Rightarrow> EnqueueCommand \<Rightarrow> string \<Rightarrow> string option \<times> string \<Rightarrow> session_row \<Rightarrow> DurableCommand" where
  "new_command e commandId input payload actor recipient =
     \<lparr>dc_command_id = commandId, dc_run_id = eq_runId input, dc_session_id = Some (ss_session_id recipient),
      dc_actor_session_id = fst actor, dc_actor_id = snd actor, dc_recipient_id = ss_agent_id recipient,
      dc_idempotency_key = eq_idempotencyKey input, dc_kind = eq_kind input, dc_payload = payload,
      dc_state = CM_queued, dc_side_effecting = eq_sideEffecting input, dc_attempt_count = 0,
      dc_max_attempts = eq_maxAttempts input, dc_next_attempt_at = None, dc_deadline_at = eq_deadlineAt input,
      dc_dispatch_started_at = None, dc_send_started_at = None, dc_created_at = now_ts e, dc_delivered_at = None,
      dc_acknowledged_at = None, dc_terminal_at = None, dc_last_error = None\<rparr>"

text \<open>The checks before the transaction; the payload arrives as JSON text, \<open>None\<close> when it has none.\<close>

definition enqueue_input :: "EnqueueCommand \<Rightarrow> string result" where
  "enqueue_input input =
     (if eq_idempotencyKey input = [] \<or> eq_kind input = []
      then Inl (InputError ''Command key and kind are required'')
      else if eq_maxAttempts input < 1 then Inl (InputError ''maxAttempts must be positive'')
      else if ts_truthy (eq_deadlineAt input) \<and> \<not> ts_finite (the (eq_deadlineAt input))
      then Inl (InputError ''Invalid deadline'')
      else case eq_payload input of
        None \<Rightarrow> Inl (InputError ''Payload must be JSON serializable'')
      | Some payload \<Rightarrow> Inr payload)"

definition by_key :: "EnqueueCommand \<Rightarrow> DurableCommand \<Rightarrow> bool" where
  "by_key input c \<longleftrightarrow> dc_run_id c = eq_runId input \<and> dc_idempotency_key c = eq_idempotencyKey input"

text \<open>The last part of the transaction: the command under the key, or a new one.\<close>

definition store_command ::
  "env \<Rightarrow> string \<Rightarrow> EnqueueCommand \<Rightarrow> string \<Rightarrow> string option \<times> string \<Rightarrow> session_row \<Rightarrow> runtime_db \<Rightarrow> DurableCommand txn" where
  "store_command e freshId input payload actor recipient db =
     (case List.find (by_key input) (db_commands db) of
        Some existing \<Rightarrow>
          if same_command (fst actor) (Some (ss_session_id recipient)) payload input existing then Inr (existing, db)
          else Inl (ConflictError ''Idempotency key conflicts with existing command'')
      | None \<Rightarrow>
          (let command = new_command e (''cmd-'' @ freshId) input payload actor recipient in
           if dc_command_id command \<in> set (map dc_command_id (db_commands db))
           then Inl (SqliteError ''UNIQUE constraint failed: commands.command_id'')
           else rbind (command_event e command ''command_queued'' None (db\<lparr>db_commands := db_commands db @ [command]\<rparr>))
                  (\<lambda>db1. Inr (command, db1))))"

text \<open>\<open>freshId\<close> is the value of \<^verbatim>\<open>randomUUID()\<close>; the input carries the defaults \<^verbatim>\<open>maxAttempts = 3\<close> and
  \<^verbatim>\<open>sideEffecting = true\<close> where the caller left them out.\<close>

definition enqueueCommand ::
  "env \<Rightarrow> string \<Rightarrow> CommandPrincipal option \<Rightarrow> EnqueueCommand \<Rightarrow> runtime_db \<Rightarrow> DurableCommand txn" where
  "enqueueCommand e freshId caller input db =
     rbind (enqueue_input input) (\<lambda>payload.
     rbind (command_run (eq_runId input) db) (\<lambda>owner.
       if \<not> active_state (rn_state owner) then Inl (ConflictError ''Run is not active'')
       else rbind (enqueue_actor caller owner (eq_runId input) db) (\<lambda>actor.
            rbind (command_session (Some (eq_recipientSessionId input)) db) (\<lambda>recipient.
              if ss_run_id recipient \<noteq> Some (eq_runId input) \<or> Some (ss_agent_id recipient) \<noteq> rn_agent_id owner
              then Inl (ForbiddenError ''Recipient is not scoped to the run'')
              else store_command e freshId input payload actor recipient db))))"

definition getCommand :: "string \<Rightarrow> runtime_db \<Rightarrow> DurableCommand result" where
  "getCommand commandId db = command_row commandId db"

section \<open>Dispatch\<close>

text \<open>\<^verbatim>\<open>ORDER BY created_at, rowid LIMIT 1\<close>: the first of the rows with the least creation time.\<close>

fun earliest :: "DurableCommand list \<Rightarrow> DurableCommand option" where
  "earliest [] = None"
| "earliest (c # cs) =
     (case earliest cs of
        None \<Rightarrow> Some c
      | Some m \<Rightarrow> if ts_le (dc_created_at c) (dc_created_at m) then Some c else Some m)"

definition command_due :: "timestamp \<Rightarrow> DurableCommand \<Rightarrow> bool" where
  "command_due at c \<longleftrightarrow> dc_state c = CM_queued \<and>
     (case dc_next_attempt_at c of None \<Rightarrow> True | Some t \<Rightarrow> ts_le t at)"

definition past_deadline :: "timestamp \<Rightarrow> DurableCommand \<Rightarrow> bool" where
  "past_deadline at c \<longleftrightarrow> ts_truthy (dc_deadline_at c) \<and> ts_le (the (dc_deadline_at c)) at"

definition reserveCommand :: "env \<Rightarrow> timestamp \<Rightarrow> runtime_db \<Rightarrow> DurableCommand option txn" where
  "reserveCommand e at db =
     (case earliest (filter (command_due at) (db_commands db)) of
        None \<Rightarrow> Inr (None, db)
      | Some command \<Rightarrow>
          rbind (if past_deadline at command
                 then command_transition e command CM_failed ''command_failed'' (Some ''deadline exceeded'') db
                 else update_command e (dc_command_id command)
                        (\<lambda>c. c\<lparr>dc_state := CM_dispatching, dc_attempt_count := dc_attempt_count c + 1,
                               dc_dispatch_started_at := Some at, dc_send_started_at := None\<rparr>)
                        ''command_dispatching'' None db)
            (\<lambda>(updated, db'). Inr (Some updated, db')))"

definition markSendStarted :: "env \<Rightarrow> string \<Rightarrow> runtime_db \<Rightarrow> DurableCommand txn" where
  "markSendStarted e commandId db =
     rbind (command_row commandId db) (\<lambda>command.
       if dc_state command \<noteq> CM_dispatching \<or> ts_truthy (dc_send_started_at command)
       then Inl (ConflictError ''Command is not reserved for send'')
       else rbind (command_run (dc_run_id command) db) (\<lambda>owner.
         if \<not> active_state (rn_state owner) then Inl (ConflictError ''Run is no longer active'')
         else rbind (command_session (dc_session_id command) db) (\<lambda>recipient.
           if ss_run_id recipient \<noteq> Some (dc_run_id command) \<or> ss_agent_id recipient \<noteq> dc_recipient_id command
           then Inl (ConflictError ''Recipient session changed'')
           else update_command e commandId (\<lambda>c. c\<lparr>dc_send_started_at := Some (now_ts e)\<rparr>) ''command_send_started'' None db)))"

definition markSent :: "env \<Rightarrow> string \<Rightarrow> runtime_db \<Rightarrow> DurableCommand txn" where
  "markSent e commandId db =
     rbind (command_row commandId db) (\<lambda>command.
       if dc_state command \<noteq> CM_dispatching \<or> \<not> ts_truthy (dc_send_started_at command) then Inr (command, db)
       else update_command e commandId (\<lambda>c. c\<lparr>dc_state := CM_sent, dc_delivered_at := Some (now_ts e)\<rparr>) ''command_sent'' None db)"

section \<open>Acknowledgement\<close>

datatype AckState = AK_accepted | AK_running | AK_completed | AK_failed

fun ack_state :: "AckState \<Rightarrow> CommandState" where
  "ack_state AK_accepted = CM_accepted"
| "ack_state AK_running = CM_running"
| "ack_state AK_completed = CM_completed"
| "ack_state AK_failed = CM_failed"

fun ACK_ALLOWED :: "AckState \<Rightarrow> CommandState \<Rightarrow> bool" where
  "ACK_ALLOWED AK_accepted s = (s \<in> {CM_dispatching, CM_sent, CM_outcome_unknown})"
| "ACK_ALLOWED AK_running s = (s = CM_accepted)"
| "ACK_ALLOWED AK_completed s = (s \<in> {CM_accepted, CM_running})"
| "ACK_ALLOWED AK_failed s = (s \<in> {CM_accepted, CM_running})"

definition ack_error :: "CommandState \<Rightarrow> AckState \<Rightarrow> orc_error" where
  "ack_error s a = ConflictError (''Cannot acknowledge '' @ command_state_str s @ '' as '' @ command_state_str (ack_state a))"

definition applyAck :: "env \<Rightarrow> DurableCommand \<Rightarrow> AckState \<Rightarrow> string option \<Rightarrow> runtime_db \<Rightarrow> DurableCommand txn" where
  "applyAck e command state reason db =
     (if \<not> ACK_ALLOWED state (dc_state command) \<or>
         (dc_state command = CM_dispatching \<and> \<not> ts_truthy (dc_send_started_at command))
      then Inl (ack_error (dc_state command) state)
      else update_command e (dc_command_id command)
        (\<lambda>c. c\<lparr>dc_state := ack_state state, dc_acknowledged_at := coalesce (dc_acknowledged_at c) (Some (now_ts e)),
               dc_terminal_at := (if TERMINAL (ack_state state) then Some (now_ts e) else None),
               dc_last_error := coalesce reason (dc_last_error c)\<rparr>)
        (''command_'' @ command_state_str (ack_state state)) reason db)"

definition acknowledgeCommand :: "env \<Rightarrow> string \<Rightarrow> CommandPrincipal \<Rightarrow> AckState \<Rightarrow> runtime_db \<Rightarrow> DurableCommand txn" where
  "acknowledgeCommand e commandId caller state db =
     rbind (command_row commandId db) (\<lambda>command.
     rbind (command_session (Some (pr_sessionId caller)) db) (\<lambda>recipient.
       if ss_agent_id recipient \<noteq> pr_agentId caller
       then Inl (ForbiddenError ''Authenticated recipient does not match session'')
       else if Some (ss_session_id recipient) \<noteq> dc_session_id command \<or> ss_run_id recipient \<noteq> Some (dc_run_id command) \<or>
               ss_agent_id recipient \<noteq> dc_recipient_id command
       then Inl (ForbiddenError ''ACK from wrong recipient'')
       else applyAck e command state None db))"

fun ACK_RANK :: "CommandState \<Rightarrow> nat" where
  "ACK_RANK CM_accepted = 1"
| "ACK_RANK CM_running = 2"
| "ACK_RANK CM_completed = 3"
| "ACK_RANK CM_failed = 3"
| "ACK_RANK CM_cancelled = 3"
| "ACK_RANK _ = 0"

definition acknowledgeFromRuntime ::
  "env \<Rightarrow> string \<Rightarrow> string \<Rightarrow> AckState \<Rightarrow> string option \<Rightarrow> runtime_db \<Rightarrow> DurableCommand txn" where
  "acknowledgeFromRuntime e commandId sessionId state reason db =
     rbind (command_row commandId db) (\<lambda>command.
       if dc_session_id command \<noteq> Some sessionId then Inl (ForbiddenError ''Runtime ACK from wrong session'')
       else if dc_state command = CM_queued \<or> (dc_state command = CM_dispatching \<and> \<not> ts_truthy (dc_send_started_at command))
       then Inl (ack_error (dc_state command) state)
       else if ACK_RANK (dc_state command) \<ge> ACK_RANK (ack_state state) then Inr (command, db)
       else rbind (if dc_state command \<noteq> CM_accepted \<and> dc_state command \<noteq> CM_running
                   then applyAck e command AK_accepted None db else Inr (command, db)) (\<lambda>(command1, db1).
         if state = AK_accepted then Inr (command1, db1)
         else if state = AK_running
         then (if dc_state command1 = CM_running then Inr (command1, db1) else applyAck e command1 AK_running None db1)
         else applyAck e command1 state reason db1))"

section \<open>Failure, recovery and resolution\<close>

definition requeue_command ::
  "env \<Rightarrow> string \<Rightarrow> timestamp \<Rightarrow> string \<Rightarrow> runtime_db \<Rightarrow> DurableCommand txn" where
  "requeue_command e commandId nextAt reason db =
     update_command e commandId
       (\<lambda>c. c\<lparr>dc_state := CM_queued, dc_next_attempt_at := Some nextAt, dc_last_error := Some reason\<rparr>)
       ''command_queued'' (Some reason) db"

text \<open>\<^verbatim>\<open>Math.min(1000 * 2 ** (attempt_count - 1), 30000)\<close> for a positive attempt count.\<close>

definition retry_delay_ms :: "int \<Rightarrow> int" where
  "retry_delay_ms attempts = min (1000 * 2 ^ nat (attempts - 1)) 30000"

definition failTransport :: "env \<Rightarrow> string \<Rightarrow> string \<Rightarrow> runtime_db \<Rightarrow> DurableCommand txn" where
  "failTransport e commandId reason db =
     rbind (command_row commandId db) (\<lambda>command.
       if dc_state command \<noteq> CM_dispatching then Inr (command, db)
       else if ts_truthy (dc_send_started_at command) \<and> dc_side_effecting command
       then command_transition e command CM_outcome_unknown ''command_outcome_unknown'' (Some reason) db
       else if dc_attempt_count command \<ge> dc_max_attempts command
       then command_transition e command CM_failed ''command_failed'' (Some reason) db
       else requeue_command e commandId (ts_plus (now_ts e) (retry_delay_ms (dc_attempt_count command))) reason db)"

text \<open>What the sweep sees of one command: its run still active, its recipient gone, its deadline past, its
  reservation stale.\<close>

definition reconcile_exited :: "bool \<Rightarrow> DurableCommand \<Rightarrow> runtime_db \<Rightarrow> bool" where
  "reconcile_exited activeRun c db \<longleftrightarrow>
     (case find_session (dc_session_id c) db of None \<Rightarrow> True | Some s \<Rightarrow> ss_state s \<noteq> SS_running) \<or> \<not> activeRun"

definition reconcile_stalled :: "timestamp \<Rightarrow> int \<Rightarrow> DurableCommand \<Rightarrow> bool" where
  "reconcile_stalled at staleAfterMs c \<longleftrightarrow> dc_state c = CM_dispatching \<and> ts_truthy (dc_dispatch_started_at c) \<and>
     (case (getTime at, getTime (the (dc_dispatch_started_at c))) of
        (Some a, Some d) \<Rightarrow> a - d \<ge> staleAfterMs
      | _ \<Rightarrow> False)"

definition reconcile_command ::
  "env \<Rightarrow> timestamp \<Rightarrow> int \<Rightarrow> DurableCommand \<Rightarrow> DurableCommand list \<times> runtime_db \<Rightarrow> (DurableCommand list \<times> runtime_db) result" where
  "reconcile_command e at staleAfterMs command acc =
     (let (changed, db) = acc in
      rbind (command_run (dc_run_id command) db) (\<lambda>owner.
        (let activeRun = active_state (rn_state owner);
             timedOut = past_deadline at command;
             stalled = reconcile_stalled at staleAfterMs command;
             exited = reconcile_exited activeRun command db;
             reason = (if \<not> activeRun then ''run ended'' else if exited then ''recipient session exited''
                       else if timedOut then ''deadline exceeded'' else ''dispatch interrupted'');
             fail = command_transition e command CM_failed ''command_failed'' (Some reason) db;
             requeue = requeue_command e (dc_command_id command) at reason db in
         if \<not> timedOut \<and> \<not> stalled \<and> \<not> exited then Inr (changed, db)
         else rbind
           (if dc_state command = CM_queued \<or> (dc_state command = CM_dispatching \<and> \<not> ts_truthy (dc_send_started_at command))
            then (if exited \<or> timedOut \<or> dc_attempt_count command \<ge> dc_max_attempts command then fail else requeue)
            else if dc_side_effecting command
            then command_transition e command CM_outcome_unknown ''command_outcome_unknown'' (Some reason) db
            else if dc_state command = CM_dispatching \<and> \<not> exited \<and> \<not> timedOut \<and> dc_attempt_count command < dc_max_attempts command
            then requeue else fail)
           (\<lambda>(updated, db'). Inr (changed @ [updated], db')))))"

fun outstanding :: "CommandState \<Rightarrow> bool" where
  "outstanding CM_queued = True"
| "outstanding CM_dispatching = True"
| "outstanding CM_sent = True"
| "outstanding CM_accepted = True"
| "outstanding CM_running = True"
| "outstanding _ = False"

definition reconcileCommands :: "env \<Rightarrow> timestamp \<Rightarrow> int \<Rightarrow> runtime_db \<Rightarrow> DurableCommand list txn" where
  "reconcileCommands e at staleAfterMs db =
     rfold (reconcile_command e at staleAfterMs) (filter (\<lambda>c. outstanding (dc_state c)) (db_commands db)) ([], db)"

datatype Resolution = RS_completed | RS_failed | RS_cancelled

fun resolution_state :: "Resolution \<Rightarrow> CommandState" where
  "resolution_state RS_completed = CM_completed"
| "resolution_state RS_failed = CM_failed"
| "resolution_state RS_cancelled = CM_cancelled"

definition resolveUnknownCommand ::
  "env \<Rightarrow> string \<Rightarrow> CommandPrincipal \<Rightarrow> Resolution \<Rightarrow> string \<Rightarrow> runtime_db \<Rightarrow> DurableCommand txn" where
  "resolveUnknownCommand e commandId caller outcome reason db =
     (if js_trim reason = [] then Inl (InputError ''Resolution reason is required'')
      else if pr_agentId caller \<noteq> ''master'' then Inl (ForbiddenError ''Master session required'')
      else rbind (command_session (Some (pr_sessionId caller)) db) (\<lambda>s.
        if ss_agent_id s \<noteq> pr_agentId caller then Inl (ForbiddenError ''Master session required'')
        else rbind (command_row commandId db) (\<lambda>command.
          if dc_state command \<noteq> CM_outcome_unknown then Inl (ConflictError ''Command outcome is not unknown'')
          else command_transition e command (resolution_state outcome)
                 (''command_'' @ command_state_str (resolution_state outcome)) (Some reason) db)))"

definition deferCommand :: "env \<Rightarrow> string \<Rightarrow> string \<Rightarrow> timestamp \<Rightarrow> runtime_db \<Rightarrow> DurableCommand txn" where
  "deferCommand e commandId reason retryAt db =
     rbind (command_row commandId db) (\<lambda>command.
       if dc_state command \<noteq> CM_dispatching \<or> ts_truthy (dc_send_started_at command) then Inr (command, db)
       else update_command e commandId
         (\<lambda>c. c\<lparr>dc_state := CM_queued, dc_attempt_count := dc_attempt_count c - 1, dc_next_attempt_at := Some retryAt,
                dc_last_error := Some reason\<rparr>) ''command_queued'' (Some reason) db)"

definition isDeferred :: "DurableCommand \<Rightarrow> bool" where
  "isDeferred c \<longleftrightarrow> dc_state c = CM_queued \<and> dc_last_error c = Some ''recipient busy''"

definition BUSY_RETRY_MS :: int where "BUSY_RETRY_MS = 1000"

section \<open>The dispatcher\<close>

text \<open>
  The transport is code outside this component: whether the recipient is busy, whether its process
  is alive and what \<^verbatim>\<open>send\<close> does, where \<open>Inl\<close> is a throw, a rejected or a timed-out promise. A transport
  without \<^verbatim>\<open>isBusy\<close> or \<^verbatim>\<open>isAlive\<close> answers \<open>Inr False\<close> and \<open>Inr True\<close>. A transport may acknowledge a command
  itself before its \<^verbatim>\<open>send\<close> returns, as the coordinator's does (\<open>tp_acknowledges\<close>).
\<close>

record command_transport =
  tp_isBusy :: "DurableCommand \<Rightarrow> string + bool"
  tp_isAlive :: "DurableCommand \<Rightarrow> string + bool"
  tp_send :: "DurableCommand \<Rightarrow> string + unit"
  tp_acknowledges :: bool

fun error_message :: "orc_error \<Rightarrow> string" where
  "error_message (NotFoundError m) = m"
| "error_message (ConflictError m) = m"
| "error_message (InputError m) = m"
| "error_message (ForbiddenError m) = m"
| "error_message (UnauthenticatedError m) = m"
| "error_message (PlainError m) = m"
| "error_message (ControlError code m) = m"
| "error_message (SqliteError m) = m"
| "error_message (InjectionScanError findings) = ''Injection scan blocked dispatch: '' @ join_with ''; '' findings"

text \<open>A step of the \<^verbatim>\<open>try\<close> body: on a throw, the message and the database as committed so far.\<close>

fun attempt :: "'a txn \<Rightarrow> runtime_db \<Rightarrow> (string \<times> runtime_db) + ('a \<times> runtime_db)" where
  "attempt (Inl err) db = Inl (error_message err, db)"
| "attempt (Inr r) db = Inr r"

definition send_command ::
  "env \<Rightarrow> command_transport \<Rightarrow> DurableCommand \<Rightarrow> runtime_db \<Rightarrow> (string \<times> runtime_db) + (DurableCommand \<times> runtime_db)" where
  "send_command e tp c db =
     (case tp_send tp c of
        Inl msg \<Rightarrow> Inl (msg, db)
      | Inr _ \<Rightarrow>
          if tp_acknowledges tp
          then attempt (acknowledgeFromRuntime e (dc_command_id c) (or_default (dc_session_id c) []) AK_accepted None db) db
          else Inr (c, db))"

definition dispatch_body ::
  "env \<Rightarrow> command_transport \<Rightarrow> DurableCommand \<Rightarrow> runtime_db \<Rightarrow> (string \<times> runtime_db) + (DurableCommand \<times> runtime_db)" where
  "dispatch_body e tp c db =
     (case tp_isBusy tp c of
        Inl msg \<Rightarrow> Inl (msg, db)
      | Inr busy \<Rightarrow>
          if busy
          then attempt (deferCommand e (dc_command_id c) ''recipient busy'' (ts_plus (now_ts e) BUSY_RETRY_MS) db) db
          else case tp_isAlive tp c of
            Inl msg \<Rightarrow> Inl (msg, db)
          | Inr alive \<Rightarrow>
              if \<not> alive then attempt (failTransport e (dc_command_id c) ''provider exited before send'' db) db
              else rbind (attempt (markSendStarted e (dc_command_id c) db) db) (\<lambda>(_, db1).
                rbind (send_command e tp c db1) (\<lambda>(_, db2).
                  attempt (markSent e (dc_command_id c) db2) db2)))"

definition dispatch_one :: "env \<Rightarrow> command_transport \<Rightarrow> DurableCommand \<Rightarrow> runtime_db \<Rightarrow> (orc_error \<times> runtime_db) + runtime_db" where
  "dispatch_one e tp c db =
     (case dispatch_body e tp c db of
        Inr (_, db') \<Rightarrow> Inr db'
      | Inl (msg, db') \<Rightarrow>
          (case failTransport e (dc_command_id c) msg db' of
             Inl err \<Rightarrow> Inl (err, db')
           | Inr (_, db'') \<Rightarrow> Inr db''))"

text \<open>
  The loop of \<^verbatim>\<open>tick\<close>, with fuel; every transaction of one tick sees the same clock. The result is
  \<open>None\<close> only when the fuel runs out.
\<close>

fun dispatch_loop ::
  "nat \<Rightarrow> env \<Rightarrow> command_transport \<Rightarrow> runtime_db \<Rightarrow> ((orc_error \<times> runtime_db) + runtime_db) option" where
  "dispatch_loop 0 e tp db = None"
| "dispatch_loop (Suc fuel) e tp db =
     (case reserveCommand e (now_ts e) db of
        Inl err \<Rightarrow> Some (Inl (err, db))
      | Inr (None, db1) \<Rightarrow> Some (Inr db1)
      | Inr (Some c, db1) \<Rightarrow>
          if dc_state c \<noteq> CM_dispatching then dispatch_loop fuel e tp db1
          else (case dispatch_one e tp c db1 of
                  Inl err \<Rightarrow> Some (Inl err)
                | Inr db2 \<Rightarrow> dispatch_loop fuel e tp db2))"

definition dispatcher_tick ::
  "nat \<Rightarrow> bool \<Rightarrow> env \<Rightarrow> command_transport \<Rightarrow> runtime_db \<Rightarrow> ((orc_error \<times> runtime_db) + runtime_db) option" where
  "dispatcher_tick fuel busy e tp db =
     (if busy then Some (Inr db)
      else case reconcileCommands e (now_ts e) 30000 db of
        Inl err \<Rightarrow> Some (Inl (err, db))
      | Inr (_, db1) \<Rightarrow> dispatch_loop fuel e tp db1)"

text \<open>
  \<^verbatim>\<open>deliver\<close>: tick until the command has left the queue, is deferred, or the deadline has passed. Round \<open>i\<close>
  sees the clock of \<open>envs i\<close>. The result is \<open>None\<close> only when the fuel runs out.
\<close>

definition delivered :: "env \<Rightarrow> int \<Rightarrow> DurableCommand \<Rightarrow> bool" where
  "delivered e deadline c \<longleftrightarrow>
     (dc_state c \<noteq> CM_queued \<and> dc_state c \<noteq> CM_dispatching) \<or> isDeferred c \<or> clock e \<ge> deadline"

fun deliver_loop ::
  "nat \<Rightarrow> nat \<Rightarrow> (nat \<Rightarrow> env) \<Rightarrow> command_transport \<Rightarrow> int \<Rightarrow> string \<Rightarrow> runtime_db \<Rightarrow>
   ((orc_error \<times> runtime_db) + (DurableCommand \<times> runtime_db)) option" where
  "deliver_loop 0 i envs tp deadline commandId db = None"
| "deliver_loop (Suc fuel) i envs tp deadline commandId db =
     (case dispatcher_tick (Suc (length (db_commands db))) False (envs i) tp db of
        None \<Rightarrow> None
      | Some (Inl err) \<Rightarrow> Some (Inl err)
      | Some (Inr db1) \<Rightarrow>
          (case getCommand commandId db1 of
             Inl err \<Rightarrow> Some (Inl (err, db1))
           | Inr c \<Rightarrow>
               if delivered (envs i) deadline c then Some (Inr (c, db1))
               else deliver_loop fuel (Suc i) envs tp deadline commandId db1))"

definition deliver where
  "deliver fuel envs tp timeoutMs commandId db =
     deliver_loop fuel 0 envs tp (clock (envs 0) + timeoutMs) commandId db"

text \<open>The authenticated entry points; \<open>authenticate\<close> resolves a credential.\<close>

definition command_principal :: "(string \<Rightarrow> CommandPrincipal option) \<Rightarrow> string \<Rightarrow> CommandPrincipal result" where
  "command_principal authenticate credential =
     (case authenticate credential of
        None \<Rightarrow> Inl (UnauthenticatedError ''Command caller is not authenticated'')
      | Some p \<Rightarrow> Inr p)"

definition dispatcher_enqueue where
  "dispatcher_enqueue authenticate e freshId credential input db =
     rbind (command_principal authenticate credential) (\<lambda>p. enqueueCommand e freshId (Some p) input db)"

definition enqueueFromCoordinator where
  "enqueueFromCoordinator e freshId input db = enqueueCommand e freshId None input db"

definition dispatcher_acknowledge where
  "dispatcher_acknowledge authenticate e credential commandId state db =
     rbind (command_principal authenticate credential) (\<lambda>p. acknowledgeCommand e commandId p state db)"

definition dispatcher_resolveUnknown where
  "dispatcher_resolveUnknown authenticate e credential commandId outcome reason db =
     rbind (command_principal authenticate credential) (\<lambda>p. resolveUnknownCommand e commandId p outcome reason db)"

section \<open>Effects on the command table\<close>

text \<open>One row rewritten, everything else of the table, the runs and the sessions kept.\<close>

definition cmd_write :: "runtime_db \<Rightarrow> DurableCommand \<Rightarrow> DurableCommand \<Rightarrow> runtime_db \<Rightarrow> bool" where
  "cmd_write db c c' db' \<longleftrightarrow> c \<in> set (db_commands db) \<and> dc_command_id c' = dc_command_id c \<and>
     (\<exists>f. f c = c' \<and> db_commands db' = update_where (\<lambda>x. dc_command_id x = dc_command_id c) f (db_commands db)) \<and>
     db_runs db' = db_runs db \<and> db_sessions db' = db_sessions db"

definition commands_distinct :: "runtime_db \<Rightarrow> bool" where
  "commands_distinct db \<longleftrightarrow> distinct (map dc_command_id (db_commands db))"

lemma command_row_Inr: "command_row i db = Inr c \<longleftrightarrow> List.find (\<lambda>c. dc_command_id c = i) (db_commands db) = Some c"
  by (auto simp: command_row_def split: option.splits)

lemma command_row_in: "command_row i db = Inr c \<Longrightarrow> c \<in> set (db_commands db) \<and> dc_command_id c = i"
  by (auto simp: command_row_Inr dest: find_in_set)

lemma command_event_frame:
  assumes "command_event e c name reason db = Inr db'"
  shows "db_commands db' = db_commands db" "db_runs db' = db_runs db" "db_sessions db' = db_sessions db"
  using assms by (auto simp: command_event_def rbind_Inr_iff append_event_frame)

lemma update_command_Inr:
  assumes "update_command e i f name reason db = Inr (c', db')" and f: "\<And>c. dc_command_id (f c) = dc_command_id c"
  obtains c where "command_row i db = Inr c" "c' = f c" "cmd_write db c c' db'"
proof -
  let ?db1 = "db\<lparr>db_commands := update_where (\<lambda>c. dc_command_id c = i) f (db_commands db)\<rparr>"
  from assms(1) have r: "command_row i ?db1 = Inr c'" and ev: "command_event e c' name reason ?db1 = Inr db'"
    by (auto simp: update_command_def rbind_Inr_iff Let_def)
  from r have "map_option f (List.find (\<lambda>c. dc_command_id c = i) (db_commands db)) = Some c'"
    by (simp add: command_row_Inr find_update_where [where k = dc_command_id, OF f])
  then obtain c where c: "List.find (\<lambda>c. dc_command_id c = i) (db_commands db) = Some c" "c' = f c" by auto
  have row: "command_row i db = Inr c" using c(1) by (simp add: command_row_Inr)
  have "cmd_write db c c' db'"
    using command_row_in [OF row] command_event_frame [OF ev] c(2) f by (auto simp: cmd_write_def)
  with row c(2) that show thesis by blast
qed

lemma command_transition_Inr:
  assumes "command_transition e c0 s name reason db = Inr (c', db')"
  obtains c where "command_row (dc_command_id c0) db = Inr c" "cmd_write db c c' db'"
    "c' = c\<lparr>dc_state := s, dc_last_error := reason,
           dc_terminal_at := (if TERMINAL s \<or> s = CM_outcome_unknown then Some (now_ts e) else None)\<rparr>"
  using assms unfolding command_transition_def by (elim update_command_Inr) auto

lemma requeue_command_Inr:
  assumes "requeue_command e i t reason db = Inr (c', db')"
  obtains c where "command_row i db = Inr c" "cmd_write db c c' db'"
    "c' = c\<lparr>dc_state := CM_queued, dc_next_attempt_at := Some t, dc_last_error := Some reason\<rparr>"
  using assms unfolding requeue_command_def by (elim update_command_Inr) auto

lemma cmd_write_rows:
  assumes "cmd_write db c c' db'" "commands_distinct db"
  shows "commands_distinct db'"
    and "x \<in> set (db_commands db') \<longleftrightarrow> x = c' \<or> x \<in> set (db_commands db) \<and> dc_command_id x \<noteq> dc_command_id c"
proof -
  from assms(1) obtain f where f: "f c = c'" "c \<in> set (db_commands db)" "dc_command_id c' = dc_command_id c"
    "db_commands db' = update_where (\<lambda>x. dc_command_id x = dc_command_id c) f (db_commands db)"
    by (auto simp: cmd_write_def)
  have only: "y = c" if "y \<in> set (db_commands db)" "dc_command_id y = dc_command_id c" for y
    using assms(2) that f(2) by (auto simp: commands_distinct_def distinct_map dest: inj_onD)
  have "map dc_command_id (db_commands db') = map dc_command_id (db_commands db)"
    unfolding f(4) update_where_def using only f(1,3) by (auto simp: comp_def intro!: map_cong)
  then show "commands_distinct db'" using assms(2) by (simp add: commands_distinct_def)
  show "x \<in> set (db_commands db') \<longleftrightarrow> x = c' \<or> x \<in> set (db_commands db) \<and> dc_command_id x \<noteq> dc_command_id c"
    unfolding f(4) set_update_where using only f(1,2) by (auto simp: image_iff split: if_splits)
qed

section \<open>The moves of a command\<close>

definition send_started :: "DurableCommand \<Rightarrow> bool" where
  "send_started c \<longleftrightarrow> ts_truthy (dc_send_started_at c)"

text \<open>Nothing of the current attempt was handed to the transport.\<close>

definition unsent :: "DurableCommand \<Rightarrow> bool" where
  "unsent c \<longleftrightarrow> dc_state c = CM_queued \<or> dc_state c = CM_dispatching \<and> \<not> send_started c"

definition same_identity :: "DurableCommand \<Rightarrow> DurableCommand \<Rightarrow> bool" where
  "same_identity c c' \<longleftrightarrow> dc_command_id c' = dc_command_id c \<and> dc_run_id c' = dc_run_id c \<and>
     dc_idempotency_key c' = dc_idempotency_key c \<and> dc_side_effecting c' = dc_side_effecting c \<and>
     dc_max_attempts c' = dc_max_attempts c \<and> dc_payload c' = dc_payload c \<and> dc_session_id c' = dc_session_id c"

text \<open>
  The moves of a command other than the start of a send: it is reserved, deferred, requeued (only
  when nothing was sent or it may be repeated), or leaves the queue.
\<close>

inductive cmd_moves :: "DurableCommand \<Rightarrow> DurableCommand \<Rightarrow> bool" where
  reserved: "same_identity c c' \<Longrightarrow> dc_state c = CM_queued \<Longrightarrow> dc_state c' = CM_dispatching \<Longrightarrow> \<not> send_started c' \<Longrightarrow>
     dc_attempt_count c' = dc_attempt_count c + 1 \<Longrightarrow> cmd_moves c c'"
| deferred: "same_identity c c' \<Longrightarrow> dc_state c = CM_dispatching \<Longrightarrow> \<not> send_started c \<Longrightarrow> dc_state c' = CM_queued \<Longrightarrow>
     dc_attempt_count c' = dc_attempt_count c - 1 \<Longrightarrow> cmd_moves c c'"
| requeued: "same_identity c c' \<Longrightarrow> unsent c \<or> dc_state c = CM_dispatching \<and> \<not> dc_side_effecting c \<Longrightarrow>
     dc_state c' = CM_queued \<Longrightarrow> dc_attempt_count c' = dc_attempt_count c \<Longrightarrow> dc_attempt_count c < dc_max_attempts c \<Longrightarrow>
     cmd_moves c c'"
| left: "same_identity c c' \<Longrightarrow> \<not> TERMINAL (dc_state c) \<Longrightarrow> dc_state c' \<notin> {CM_queued, CM_dispatching} \<Longrightarrow>
     dc_attempt_count c' = dc_attempt_count c \<Longrightarrow> cmd_moves c c'"

inductive_cases cmd_movesE: "cmd_moves c c'"

text \<open>What an operation may do to the table: nothing, or one move of one row.\<close>

definition moves_one :: "runtime_db \<Rightarrow> runtime_db \<Rightarrow> bool" where
  "moves_one db db' \<longleftrightarrow> db' = db \<or> (\<exists>c c'. cmd_write db c c' db' \<and> cmd_moves c c')"

lemma moves_oneI: "cmd_write db c c' db' \<Longrightarrow> cmd_moves c c' \<Longrightarrow> moves_one db db'"
  by (auto simp: moves_one_def)

lemma same_identity_updates [simp]:
  "same_identity c (c\<lparr>dc_state := s, dc_last_error := r, dc_terminal_at := t\<rparr>)"
  "same_identity c (c\<lparr>dc_state := s, dc_next_attempt_at := t, dc_last_error := r\<rparr>)"
  "same_identity c (c\<lparr>dc_state := s, dc_attempt_count := n, dc_dispatch_started_at := t, dc_send_started_at := u\<rparr>)"
  "same_identity c (c\<lparr>dc_state := s, dc_attempt_count := n, dc_next_attempt_at := t, dc_last_error := r\<rparr>)"
  "same_identity c (c\<lparr>dc_state := s, dc_delivered_at := t\<rparr>)"
  "same_identity c (c\<lparr>dc_state := s, dc_acknowledged_at := t, dc_terminal_at := u, dc_last_error := r\<rparr>)"
  "same_identity c (c\<lparr>dc_send_started_at := t\<rparr>)"
  by (simp_all add: same_identity_def)

lemma transition_moves:
  assumes "command_transition e c0 s name reason db = Inr (c', db')" "commands_distinct db"
    "c0 \<in> set (db_commands db)" "\<not> TERMINAL (dc_state c0)" "s \<notin> {CM_queued, CM_dispatching}"
  shows "moves_one db db'"
  using assms(1)
proof (rule command_transition_Inr)
  fix c
  assume c: "command_row (dc_command_id c0) db = Inr c" "cmd_write db c c' db'"
    "c' = c\<lparr>dc_state := s, dc_last_error := reason,
           dc_terminal_at := (if TERMINAL s \<or> s = CM_outcome_unknown then Some (now_ts e) else None)\<rparr>"
  have "c = c0" using c(1) assms(2,3) find_distinct_key [of dc_command_id "db_commands db" c0]
    by (simp add: command_row_Inr commands_distinct_def)
  then show ?thesis using c assms(4,5) by (auto intro!: moves_oneI cmd_moves.left)
qed

lemma requeue_moves:
  assumes "requeue_command e (dc_command_id c0) t reason db = Inr (c', db')" "commands_distinct db"
    "c0 \<in> set (db_commands db)" "unsent c0 \<or> dc_state c0 = CM_dispatching \<and> \<not> dc_side_effecting c0"
    "dc_attempt_count c0 < dc_max_attempts c0"
  shows "moves_one db db'"
  using assms(1)
proof (rule requeue_command_Inr)
  fix c
  assume c: "command_row (dc_command_id c0) db = Inr c" "cmd_write db c c' db'"
    "c' = c\<lparr>dc_state := CM_queued, dc_next_attempt_at := Some t, dc_last_error := Some reason\<rparr>"
  have "c = c0" using c(1) assms(2,3) find_distinct_key [of dc_command_id "db_commands db" c0]
    by (simp add: command_row_Inr commands_distinct_def)
  then show ?thesis using c assms(4,5) by (auto intro!: moves_oneI cmd_moves.requeued)
qed

section \<open>Every operation moves commands only along these moves\<close>

lemma earliest_in: "earliest cs = Some c \<Longrightarrow> c \<in> set cs"
  by (induction cs) (auto split: option.splits if_splits)

lemma moves_one_distinct: "moves_one db db' \<Longrightarrow> commands_distinct db \<Longrightarrow> commands_distinct db'"
  by (auto simp: moves_one_def dest: cmd_write_rows(1))

lemma moves_one_refl [simp]: "moves_one db db"
  by (simp add: moves_one_def)

lemma update_command_moves:
  assumes "update_command e i f name reason db = Inr (c', db')" "\<And>c. dc_command_id (f c) = dc_command_id c"
    "\<And>c. command_row i db = Inr c \<Longrightarrow> cmd_moves c (f c)"
  shows "moves_one db db'"
  using assms(1,2) by (rule update_command_Inr) (use assms(3) in \<open>auto intro: moves_oneI\<close>)

lemma row_unique:
  assumes "commands_distinct db" "c0 \<in> set (db_commands db)" "command_row (dc_command_id c0) db = Inr c"
  shows "c = c0"
  using assms find_distinct_key [of dc_command_id "db_commands db" c0] by (simp add: command_row_Inr commands_distinct_def)

lemma reserveCommand_moves:
  assumes "reserveCommand e at db = Inr (r, db')" "commands_distinct db"
  shows "moves_one db db'"
proof (cases "earliest (filter (command_due at) (db_commands db))")
  case None
  then show ?thesis using assms(1) by (simp add: reserveCommand_def moves_one_def)
next
  case (Some c0)
  then have c0: "c0 \<in> set (db_commands db)" "dc_state c0 = CM_queued" by (auto dest!: earliest_in simp: command_due_def)
  show ?thesis
  proof (cases "past_deadline at c0")
    case True
    then obtain c' where "command_transition e c0 CM_failed ''command_failed'' (Some ''deadline exceeded'') db = Inr (c', db')"
      using assms(1) Some by (auto simp: reserveCommand_def rbind_Inr_iff)
    then show ?thesis by (rule transition_moves [OF _ assms(2) c0(1)]) (simp_all add: c0(2))
  next
    case False
    then obtain c' where "update_command e (dc_command_id c0) (\<lambda>c. c\<lparr>dc_state := CM_dispatching,
        dc_attempt_count := dc_attempt_count c + 1, dc_dispatch_started_at := Some at, dc_send_started_at := None\<rparr>)
        ''command_dispatching'' None db = Inr (c', db')"
      using assms(1) Some by (auto simp: reserveCommand_def rbind_Inr_iff)
    then show ?thesis
      by (rule update_command_Inr)
         (use c0 row_unique [OF assms(2) c0(1)] in \<open>auto intro!: moves_oneI cmd_moves.reserved simp: send_started_def\<close>)
  qed
qed

lemma markSent_moves:
  assumes "markSent e i db = Inr (c', db')"
  shows "moves_one db db'"
proof -
  from assms obtain c where c: "command_row i db = Inr c" by (auto simp: markSent_def rbind_Inr_iff)
  show ?thesis
  proof (cases "dc_state c \<noteq> CM_dispatching \<or> \<not> ts_truthy (dc_send_started_at c)")
    case False
    with assms c have u: "update_command e i (\<lambda>c. c\<lparr>dc_state := CM_sent, dc_delivered_at := Some (now_ts e)\<rparr>) ''command_sent'' None db = Inr (c', db')"
      by (simp add: markSent_def)
    show ?thesis by (rule update_command_moves [OF u]) (use False c in \<open>auto intro!: cmd_moves.left\<close>)
  qed (use assms c in \<open>simp add: markSent_def\<close>)
qed

lemma ack_state_left: "ack_state a \<notin> {CM_queued, CM_dispatching}"
  by (cases a) auto

lemma ack_allowed_open: "ACK_ALLOWED a s \<Longrightarrow> \<not> TERMINAL s"
  by (cases a) auto

lemma applyAck_effect:
  assumes "applyAck e c0 a reason db = Inr (c', db')" "commands_distinct db" "c0 \<in> set (db_commands db)"
  shows "cmd_write db c0 c' db'" "cmd_moves c0 c'" "dc_state c' = ack_state a" "c' \<in> set (db_commands db')"
proof -
  from assms(1) have g: "ACK_ALLOWED a (dc_state c0)" by (auto simp: applyAck_def split: if_splits)
  have "cmd_write db c0 c' db' \<and> cmd_moves c0 c' \<and> dc_state c' = ack_state a"
    using assms(1) unfolding applyAck_def
    by (auto split: if_splits elim!: update_command_Inr dest!: row_unique [OF assms(2,3)]
        intro!: cmd_moves.left ack_allowed_open [OF g] simp: ack_state_left [simplified])
  then show "cmd_write db c0 c' db'" "cmd_moves c0 c'" "dc_state c' = ack_state a" "c' \<in> set (db_commands db')"
    using cmd_write_rows(2) [OF _ assms(2)] by blast+
qed

lemma applyAck_moves:
  "applyAck e c0 a reason db = Inr (c', db') \<Longrightarrow> commands_distinct db \<Longrightarrow> c0 \<in> set (db_commands db) \<Longrightarrow> moves_one db db'"
  using applyAck_effect(1,2) moves_oneI by blast

lemma acknowledgeCommand_moves:
  assumes "acknowledgeCommand e i p a db = Inr (c', db')" "commands_distinct db"
  shows "moves_one db db'"
  using assms(1)
  by (auto simp: acknowledgeCommand_def rbind_Inr_iff dest!: command_row_in applyAck_moves [OF _ assms(2)] split: if_splits)

lemma acknowledgeFromRuntime_moves:
  assumes "acknowledgeFromRuntime e i sid a reason db = Inr (c', db')" "commands_distinct db"
  shows "moves_one\<^sup>*\<^sup>* db db'"
proof -
  obtain c where c: "command_row i db = Inr c" using assms(1) by (auto simp: acknowledgeFromRuntime_def rbind_Inr_iff)
  then have cin: "c \<in> set (db_commands db)" by (auto dest: command_row_in)
  show ?thesis
  proof (cases "db' = db")
    case False
    with assms(1) c obtain c1 db1 where 1: "(if dc_state c \<noteq> CM_accepted \<and> dc_state c \<noteq> CM_running
                   then applyAck e c AK_accepted None db else Inr (c, db)) = Inr (c1, db1)"
      and 2: "(if a = AK_accepted then Inr (c1, db1) else if a = AK_running
         then (if dc_state c1 = CM_running then Inr (c1, db1) else applyAck e c1 AK_running None db1)
         else applyAck e c1 a reason db1) = Inr (c', db')"
      by (auto simp: acknowledgeFromRuntime_def rbind_Inr_iff split: if_splits)
    have s1: "moves_one db db1 \<and> c1 \<in> set (db_commands db1)"
      using 1 cin applyAck_effect(4) [OF _ assms(2) cin] applyAck_moves [OF _ assms(2) cin]
      by (auto split: if_splits)
    then have d1: "commands_distinct db1" using assms(2) moves_one_distinct by blast
    have "moves_one db1 db'"
      using 2 applyAck_moves [OF _ d1 conjunct2 [OF s1]] by (auto split: if_splits)
    with s1 show ?thesis by (meson converse_rtranclp_into_rtranclp r_into_rtranclp)
  qed simp
qed

lemma failTransport_moves:
  assumes "failTransport e i reason db = Inr (c', db')" "commands_distinct db"
  shows "moves_one db db'"
proof -
  obtain c where c: "command_row i db = Inr c" using assms(1) by (auto simp: failTransport_def rbind_Inr_iff)
  then have cin: "c \<in> set (db_commands db)" "i = dc_command_id c" by (auto dest: command_row_in)
  show ?thesis
    using assms(1) c transition_moves [OF _ assms(2) cin(1)] requeue_moves [OF _ assms(2) cin(1)]
    by (auto simp: failTransport_def cin(2) unsent_def send_started_def split: if_splits)
qed

lemma deferCommand_moves:
  assumes "deferCommand e i reason t db = Inr (c', db')"
  shows "moves_one db db'"
proof -
  from assms obtain c where c: "command_row i db = Inr c" by (auto simp: deferCommand_def rbind_Inr_iff)
  show ?thesis
  proof (cases "dc_state c \<noteq> CM_dispatching \<or> ts_truthy (dc_send_started_at c)")
    case False
    with assms c have u: "update_command e i (\<lambda>c. c\<lparr>dc_state := CM_queued, dc_attempt_count := dc_attempt_count c - 1,
        dc_next_attempt_at := Some t, dc_last_error := Some reason\<rparr>) ''command_queued'' (Some reason) db = Inr (c', db')"
      by (simp add: deferCommand_def)
    show ?thesis by (rule update_command_moves [OF u]) (use False c in \<open>auto intro!: cmd_moves.deferred simp: send_started_def\<close>)
  qed (use assms c in \<open>simp add: deferCommand_def\<close>)
qed

lemma resolveUnknownCommand_moves:
  assumes "resolveUnknownCommand e i p outcome reason db = Inr (c', db')" "commands_distinct db"
  shows "moves_one db db'"
proof -
  from assms(1) obtain c where c: "command_row i db = Inr c" "dc_state c = CM_outcome_unknown"
    "command_transition e c (resolution_state outcome) (''command_'' @ command_state_str (resolution_state outcome)) (Some reason) db = Inr (c', db')"
    by (auto simp: resolveUnknownCommand_def rbind_Inr_iff split: if_splits)
  from c(1) have "c \<in> set (db_commands db)" by (auto dest: command_row_in)
  with c show ?thesis by (cases outcome) (auto intro: transition_moves [OF _ assms(2)])
qed

lemma reconcile_command_moves:
  assumes "reconcile_command e at stale c (changed, db) = Inr (changed', db')" "commands_distinct db"
    "c \<in> set (db_commands db)" "outstanding (dc_state c)"
  shows "db' = db \<or> (\<exists>c'. cmd_write db c c' db' \<and> cmd_moves c c')"
proof (cases "db' = db")
  case False
  have open_c: "\<not> TERMINAL (dc_state c)" using assms(4) by (cases "dc_state c") auto
  have t: "\<exists>c'. cmd_write db c c' db' \<and> cmd_moves c c'"
    if "command_transition e c s name r db = Inr (u, db')" "s \<notin> {CM_queued, CM_dispatching}" for s name r u
    using that(1) by (rule command_transition_Inr) (use row_unique [OF assms(2,3)] open_c that(2) in \<open>auto intro!: cmd_moves.left\<close>)
  have q: "\<exists>c'. cmd_write db c c' db' \<and> cmd_moves c c'"
    if "requeue_command e (dc_command_id c) t r db = Inr (u, db')"
      "unsent c \<or> dc_state c = CM_dispatching \<and> \<not> dc_side_effecting c" "dc_attempt_count c < dc_max_attempts c" for t r u
    using that(1) by (rule requeue_command_Inr) (use row_unique [OF assms(2,3)] that(2,3) in \<open>auto intro!: cmd_moves.requeued\<close>)
  from assms(1) False show ?thesis
    unfolding reconcile_command_def Let_def prod.case rbind_Inr_iff
    by (auto simp: rbind_Inr_iff unsent_def send_started_def split: if_splits intro: t q)
qed simp

lemma reconcile_fold_moves:
  assumes "rfold (reconcile_command e at stale) cs (changed, db) = Inr (changed', db')" "commands_distinct db"
    "set cs \<subseteq> set (db_commands db)" "distinct (map dc_command_id cs)" "\<forall>c \<in> set cs. outstanding (dc_state c)"
  shows "moves_one\<^sup>*\<^sup>* db db'"
  using assms
proof (induction cs arbitrary: changed db)
  case (Cons c cs)
  then obtain changed1 db1 where 1: "reconcile_command e at stale c (changed, db) = Inr (changed1, db1)"
    "rfold (reconcile_command e at stale) cs (changed1, db1) = Inr (changed', db')" by (auto simp: rbind_Inr_iff)
  have m: "db1 = db \<or> (\<exists>c'. cmd_write db c c' db1 \<and> cmd_moves c c')"
    using reconcile_command_moves [OF 1(1) Cons.prems(2)] Cons.prems(3,5) by auto
  then have m1: "moves_one db db1" by (auto simp: moves_one_def)
  have "set cs \<subseteq> set (db_commands db1)"
  proof
    fix x assume x: "x \<in> set cs"
    then have "x \<in> set (db_commands db)" "dc_command_id x \<noteq> dc_command_id c"
      using Cons.prems(3,4) by (auto simp: image_iff)
    with m cmd_write_rows(2) [OF _ Cons.prems(2)] show "x \<in> set (db_commands db1)" by blast
  qed
  with Cons.IH [OF 1(2) moves_one_distinct [OF m1 Cons.prems(2)]] Cons.prems(4,5) have "moves_one\<^sup>*\<^sup>* db1 db'" by simp
  with m1 show ?case by (rule converse_rtranclp_into_rtranclp)
qed simp

lemma reconcileCommands_moves:
  assumes "reconcileCommands e at stale db = Inr (changed, db')" "commands_distinct db"
  shows "moves_one\<^sup>*\<^sup>* db db'"
  using assms(1) unfolding reconcileCommands_def
  by (rule reconcile_fold_moves [OF _ assms(2)])
     (use assms(2) in \<open>auto simp: commands_distinct_def distinct_map_filter\<close>)

end
