(* ===== verification/Command_Props.thy ===== *)
theory Command_Props
  imports Command_Delivery Claim_Props
begin

text \<open>
  Properties of the command queue: at-most-once delivery of side effects over every interleaving,
  finality of finished commands, idempotent enqueue, the recovery sweep, and termination of the
  dispatcher's loop.
\<close>

section \<open>Runs of the command queue\<close>

text \<open>
  The queue over time: its database, the command identifiers handed out so far, and the commands
  that were handed to the transport, in order. A send is handed over exactly when
  \<open>markSendStarted\<close> succeeded.
\<close>

record delivery =
  dl_db :: runtime_db
  dl_issued :: "string list"
  dl_sent :: "DurableCommand list"

text \<open>
  One transaction of the queue, in any order and interleaving, or a change elsewhere in the database
  (\<open>rest\<close>: runs, sessions and events change at will; the commands of deleted runs disappear).
\<close>

inductive delivery_step :: "delivery \<Rightarrow> delivery \<Rightarrow> bool" where
  enqueue: "enqueueCommand e freshId p input (dl_db d) = Inr (c, db') \<Longrightarrow> (''cmd-'' @ freshId) \<notin> set (dl_issued d) \<Longrightarrow>
     delivery_step d (d\<lparr>dl_db := db', dl_issued := dl_issued d @ [''cmd-'' @ freshId]\<rparr>)"
| reserve: "reserveCommand e at (dl_db d) = Inr (r, db') \<Longrightarrow> delivery_step d (d\<lparr>dl_db := db'\<rparr>)"
| send: "markSendStarted e i (dl_db d) = Inr (c, db') \<Longrightarrow> delivery_step d (d\<lparr>dl_db := db', dl_sent := dl_sent d @ [c]\<rparr>)"
| sent: "markSent e i (dl_db d) = Inr (c, db') \<Longrightarrow> delivery_step d (d\<lparr>dl_db := db'\<rparr>)"
| ack: "acknowledgeCommand e i p a (dl_db d) = Inr (c, db') \<Longrightarrow> delivery_step d (d\<lparr>dl_db := db'\<rparr>)"
| runtime_ack: "acknowledgeFromRuntime e i sid a reason (dl_db d) = Inr (c, db') \<Longrightarrow> delivery_step d (d\<lparr>dl_db := db'\<rparr>)"
| fail: "failTransport e i reason (dl_db d) = Inr (c, db') \<Longrightarrow> delivery_step d (d\<lparr>dl_db := db'\<rparr>)"
| reconcile: "reconcileCommands e at stale (dl_db d) = Inr (cs, db') \<Longrightarrow> delivery_step d (d\<lparr>dl_db := db'\<rparr>)"
| resolve: "resolveUnknownCommand e i p outcome reason (dl_db d) = Inr (c, db') \<Longrightarrow> delivery_step d (d\<lparr>dl_db := db'\<rparr>)"
| put_back: "deferCommand e i reason t (dl_db d) = Inr (c, db') \<Longrightarrow> delivery_step d (d\<lparr>dl_db := db'\<rparr>)"
| rest: "db_commands db' = filter keep (db_commands (dl_db d)) \<Longrightarrow> delivery_step d (d\<lparr>dl_db := db'\<rparr>)"

text \<open>How often a command was handed to the transport.\<close>

definition sends :: "string \<Rightarrow> DurableCommand list \<Rightarrow> nat" where
  "sends i sent = length (filter (\<lambda>c. dc_command_id c = i) sent)"

text \<open>The bookkeeping of one command against its number of sends.\<close>

definition cmd_ok :: "nat \<Rightarrow> DurableCommand \<Rightarrow> bool" where
  "cmd_ok n c \<longleftrightarrow>
     (dc_side_effecting c \<longrightarrow> n \<le> (if unsent c then 0 else 1)) \<and>
     int n \<le> dc_attempt_count c \<and> (dc_state c = CM_dispatching \<and> \<not> send_started c \<longrightarrow> int n < dc_attempt_count c) \<and>
     dc_attempt_count c \<le> dc_max_attempts c \<and> (dc_state c = CM_queued \<longrightarrow> dc_attempt_count c < dc_max_attempts c)"

lemma cmd_ok_moves: "cmd_moves c c' \<Longrightarrow> cmd_ok n c \<Longrightarrow> cmd_ok n c'"
  by (elim cmd_movesE) (auto simp: cmd_ok_def unsent_def same_identity_def split: if_splits)

lemma cmd_ok_send:
  assumes "cmd_ok n c" "dc_state c = CM_dispatching" "\<not> send_started c"
  shows "cmd_ok (Suc n) (c\<lparr>dc_send_started_at := Some (Ts t)\<rparr>)"
  using assms by (auto simp: cmd_ok_def unsent_def send_started_def)

definition delivery_inv :: "delivery \<Rightarrow> bool" where
  "delivery_inv d \<longleftrightarrow> commands_distinct (dl_db d) \<and>
     (\<forall>c \<in> set (db_commands (dl_db d)). dc_command_id c \<in> set (dl_issued d) \<and> cmd_ok (sends (dc_command_id c) (dl_sent d)) c \<and>
        (\<forall>x \<in> set (dl_sent d). dc_command_id x = dc_command_id c \<longrightarrow> same_identity c x)) \<and>
     (\<forall>x \<in> set (dl_sent d). dc_command_id x \<in> set (dl_issued d) \<and>
        (dc_side_effecting x \<longrightarrow> sends (dc_command_id x) (dl_sent d) \<le> 1) \<and>
        int (sends (dc_command_id x) (dl_sent d)) \<le> dc_max_attempts x)"

lemma same_identity_trans: "same_identity a b \<Longrightarrow> same_identity a c \<Longrightarrow> same_identity b c"
  by (auto simp: same_identity_def)

lemma cmd_moves_identity: "cmd_moves c c' \<Longrightarrow> same_identity c c'"
  by (elim cmd_movesE)

lemma delivery_inv_moves_one:
  assumes "delivery_inv d" "moves_one (dl_db d) db'"
  shows "delivery_inv (d\<lparr>dl_db := db'\<rparr>)"
proof (cases "db' = dl_db d")
  case False
  with assms(2) obtain c c' where w: "cmd_write (dl_db d) c c' db'" "cmd_moves c c'" by (auto simp: moves_one_def)
  have dist: "commands_distinct (dl_db d)" using assms(1) by (simp add: delivery_inv_def)
  have cin: "c \<in> set (db_commands (dl_db d))" using w(1) by (simp add: cmd_write_def)
  have "same_identity c c'" by (rule cmd_moves_identity [OF w(2)])
  then have id: "dc_command_id c' = dc_command_id c" by (simp add: same_identity_def)
  have ok: "dc_command_id c \<in> set (dl_issued d)" "cmd_ok (sends (dc_command_id c) (dl_sent d)) c"
    "\<forall>x \<in> set (dl_sent d). dc_command_id x = dc_command_id c \<longrightarrow> same_identity c x"
    using assms(1) cin by (auto simp: delivery_inv_def)
  have ok': "dc_command_id c' \<in> set (dl_issued d)" "cmd_ok (sends (dc_command_id c') (dl_sent d)) c'"
    "\<forall>x \<in> set (dl_sent d). dc_command_id x = dc_command_id c' \<longrightarrow> same_identity c' x"
    unfolding id using ok cmd_ok_moves [OF w(2)] same_identity_trans [OF \<open>same_identity c c'\<close>] by auto
  show ?thesis unfolding delivery_inv_def
    using assms(1) ok' cmd_write_rows [OF w(1) dist] by (auto simp: delivery_inv_def)
qed (use assms(1) in simp)

lemma delivery_inv_moves:
  assumes "moves_one\<^sup>*\<^sup>* (dl_db d) db'" "delivery_inv d"
  shows "delivery_inv (d\<lparr>dl_db := db'\<rparr>)"
  using assms
proof (induction rule: rtranclp_induct)
  case (step db1 db2)
  from delivery_inv_moves_one [of "d\<lparr>dl_db := db1\<rparr>"] step show ?case by simp
qed simp

lemma enqueueCommand_tail:
  assumes "enqueueCommand e freshId p input db = Inr (c, db')"
  obtains payload owner actor recipient where "enqueue_input input = Inr payload"
    "command_run (eq_runId input) db = Inr owner" "active_state (rn_state owner)"
    "enqueue_actor p owner (eq_runId input) db = Inr actor"
    "command_session (Some (eq_recipientSessionId input)) db = Inr recipient"
    "ss_run_id recipient = Some (eq_runId input)" "Some (ss_agent_id recipient) = rn_agent_id owner"
    "store_command e freshId input payload actor recipient db = Inr (c, db')"
  using assms by (auto simp: enqueueCommand_def rbind_Inr_iff split: if_splits)

lemma enqueue_input_positive: "enqueue_input input = Inr payload \<Longrightarrow> 1 \<le> eq_maxAttempts input"
  by (auto simp: enqueue_input_def split: if_splits)

lemma enqueueCommand_effect:
  assumes "enqueueCommand e freshId p input db = Inr (c, db')"
  shows "db' = db \<or> (\<exists>payload actor recipient. c = new_command e (''cmd-'' @ freshId) input payload actor recipient \<and>
     eq_maxAttempts input \<ge> 1 \<and> dc_command_id c \<notin> set (map dc_command_id (db_commands db)) \<and> db_commands db' = db_commands db @ [c])"
  using assms
proof (rule enqueueCommand_tail)
  fix payload owner actor recipient
  assume "enqueue_input input = Inr payload" "store_command e freshId input payload actor recipient db = Inr (c, db')"
  then show ?thesis using enqueue_input_positive [of input payload]
    by (auto simp: store_command_def rbind_Inr_iff Let_def command_event_frame simp del: split_paired_Ex split: if_splits option.splits)
qed

lemma sends_none: "\<forall>x \<in> set sent. dc_command_id x \<noteq> i \<Longrightarrow> sends i sent = 0"
  by (auto simp: sends_def filter_empty_conv)

lemma delivery_inv_enqueue:
  assumes "delivery_inv d" "enqueueCommand e freshId p input (dl_db d) = Inr (c, db')" "(''cmd-'' @ freshId) \<notin> set (dl_issued d)"
  shows "delivery_inv (d\<lparr>dl_db := db', dl_issued := dl_issued d @ [''cmd-'' @ freshId]\<rparr>)"
  using enqueueCommand_effect [OF assms(2)]
proof (elim disjE exE conjE)
  assume "db' = dl_db d"
  then show ?thesis using assms(1) by (auto simp: delivery_inv_def)
next
  fix payload actor recipient
  assume c: "c = new_command e (''cmd-'' @ freshId) input payload actor recipient" "eq_maxAttempts input \<ge> 1"
    "dc_command_id c \<notin> set (map dc_command_id (db_commands (dl_db d)))" "db_commands db' = db_commands (dl_db d) @ [c]"
  have sel: "dc_command_id c = ''cmd-'' @ freshId" "dc_state c = CM_queued" "dc_attempt_count c = 0" "dc_max_attempts c \<ge> 1"
    using c(1,2) by (simp_all add: new_command_def)
  have new: "\<forall>x \<in> set (dl_sent d). dc_command_id x \<noteq> dc_command_id c"
    using assms(1,3) sel(1) by (auto simp: delivery_inv_def)
  then have "cmd_ok (sends (dc_command_id c) (dl_sent d)) c" unfolding sends_none [OF new] using sel by (simp add: cmd_ok_def)
  then show ?thesis using assms(1) c(3,4) new sel(1) by (auto simp: delivery_inv_def commands_distinct_def)
qed

lemma markSendStarted_effect:
  assumes "markSendStarted e i db = Inr (c', db')"
  obtains c where "cmd_write db c c' db'" "dc_state c = CM_dispatching" "\<not> send_started c"
    "c' = c\<lparr>dc_send_started_at := Some (now_ts e)\<rparr>"
proof -
  from assms obtain c where c: "command_row i db = Inr c" "dc_state c = CM_dispatching" "\<not> ts_truthy (dc_send_started_at c)"
    "update_command e i (\<lambda>c. c\<lparr>dc_send_started_at := Some (now_ts e)\<rparr>) ''command_send_started'' None db = Inr (c', db')"
    by (auto simp: markSendStarted_def rbind_Inr_iff split: if_splits)
  from c(4) show thesis by (rule update_command_Inr) (use c that in \<open>auto simp: send_started_def\<close>)
qed

lemma sends_append: "sends i (sent @ [c]) = sends i sent + (if dc_command_id c = i then 1 else 0)"
  by (simp add: sends_def)

lemma delivery_inv_send:
  assumes "delivery_inv d" "markSendStarted e i (dl_db d) = Inr (c', db')"
  shows "delivery_inv (d\<lparr>dl_db := db', dl_sent := dl_sent d @ [c']\<rparr>)"
  using assms(2)
proof (rule markSendStarted_effect)
  fix c
  assume c: "cmd_write (dl_db d) c c' db'" "dc_state c = CM_dispatching" "\<not> send_started c"
    "c' = c\<lparr>dc_send_started_at := Some (now_ts e)\<rparr>"
  have dist: "commands_distinct (dl_db d)" using assms(1) by (simp add: delivery_inv_def)
  have "c \<in> set (db_commands (dl_db d))" using c(1) by (simp add: cmd_write_def)
  then have ok: "dc_command_id c \<in> set (dl_issued d)" "cmd_ok (sends (dc_command_id c) (dl_sent d)) c"
    "\<forall>x \<in> set (dl_sent d). dc_command_id x = dc_command_id c \<longrightarrow> same_identity c x"
    using assms(1) by (auto simp: delivery_inv_def)
  have id: "same_identity c c'" unfolding c(4) by simp
  then have sel: "dc_command_id c' = dc_command_id c" by (simp add: same_identity_def)
  have ok': "cmd_ok (Suc (sends (dc_command_id c) (dl_sent d))) c'"
    unfolding c(4) now_ts_def using cmd_ok_send [OF ok(2) c(2,3)] .
  have same: "\<forall>x \<in> set (dl_sent d @ [c']). dc_command_id x = dc_command_id c \<longrightarrow> same_identity c' x"
    using ok(3) same_identity_trans [OF id] id by (auto simp: same_identity_def)
  have count: "\<forall>x \<in> set (dl_sent d @ [c']). dc_command_id x = dc_command_id c \<longrightarrow>
      (dc_side_effecting x \<longrightarrow> Suc (sends (dc_command_id c) (dl_sent d)) \<le> 1) \<and>
      int (Suc (sends (dc_command_id c) (dl_sent d))) \<le> dc_max_attempts x"
    using same ok' by (auto simp: same_identity_def cmd_ok_def split: if_splits)
  let ?d' = "d\<lparr>dl_db := db', dl_sent := dl_sent d @ [c']\<rparr>"
  have rows: "dc_command_id x \<in> set (dl_issued d) \<and> cmd_ok (sends (dc_command_id x) (dl_sent d @ [c'])) x \<and>
      (\<forall>y \<in> set (dl_sent d @ [c']). dc_command_id y = dc_command_id x \<longrightarrow> same_identity x y)"
    if x: "x \<in> set (db_commands db')" for x
  proof (cases "x = c'")
    case True
    then show ?thesis using ok' ok(1) same sel by (simp add: sends_append)
  next
    case False
    with x have "x \<in> set (db_commands (dl_db d))" "dc_command_id x \<noteq> dc_command_id c"
      using cmd_write_rows(2) [OF c(1) dist] by blast+
    then show ?thesis using assms(1) sel by (simp add: delivery_inv_def sends_append)
  qed
  have log: "dc_command_id x \<in> set (dl_issued d) \<and>
      (dc_side_effecting x \<longrightarrow> sends (dc_command_id x) (dl_sent d @ [c']) \<le> 1) \<and>
      int (sends (dc_command_id x) (dl_sent d @ [c'])) \<le> dc_max_attempts x"
    if x: "x \<in> set (dl_sent d @ [c'])" for x
  proof (cases "dc_command_id x = dc_command_id c")
    case True
    then show ?thesis using count [rule_format, OF x True] ok(1) sel by (simp add: sends_append)
  next
    case False
    with x sel have "x \<in> set (dl_sent d)" by auto
    with False show ?thesis using assms(1) sel by (simp add: delivery_inv_def sends_append)
  qed
  show ?thesis unfolding delivery_inv_def using cmd_write_rows(1) [OF c(1) dist] rows log by simp
qed

lemma delivery_inv_rest:
  assumes "delivery_inv d" "db_commands db' = filter keep (db_commands (dl_db d))"
  shows "delivery_inv (d\<lparr>dl_db := db'\<rparr>)"
  using assms by (auto simp: delivery_inv_def commands_distinct_def distinct_map_filter)

lemma step_moves:
  assumes "delivery_step d d'" "commands_distinct (dl_db d)"
  obtains (moves) db' where "d' = d\<lparr>dl_db := db'\<rparr>" "moves_one\<^sup>*\<^sup>* (dl_db d) db'"
  | (enqueue) e freshId p input c db' where "enqueueCommand e freshId p input (dl_db d) = Inr (c, db')"
      "(''cmd-'' @ freshId) \<notin> set (dl_issued d)" "d' = d\<lparr>dl_db := db', dl_issued := dl_issued d @ [''cmd-'' @ freshId]\<rparr>"
  | (send) e i c db' where "markSendStarted e i (dl_db d) = Inr (c, db')" "d' = d\<lparr>dl_db := db', dl_sent := dl_sent d @ [c]\<rparr>"
  | (rest) keep db' where "db_commands db' = filter keep (db_commands (dl_db d))" "d' = d\<lparr>dl_db := db'\<rparr>"
proof -
  have one: thesis if "d' = d\<lparr>dl_db := db'\<rparr>" "moves_one (dl_db d) db'" for db'
    using that by (intro moves) auto
  from assms(1) show thesis
  proof (cases rule: delivery_step.cases)
    case (runtime_ack e i sid a reason c db')
    with acknowledgeFromRuntime_moves [OF _ assms(2)] moves show thesis by blast
  next
    case (reconcile e at stale cs db')
    with reconcileCommands_moves [OF _ assms(2)] moves show thesis by blast
  next
    case (enqueue e freshId p input c db')
    then show thesis by (intro that(2))
  next
    case (send e i c db')
    then show thesis by (intro that(3))
  next
    case (rest db' keep)
    then show thesis by (intro that(4))
  next
    case (reserve e at r db')
    show thesis by (rule one [OF reserve(1) reserveCommand_moves [OF reserve(2) assms(2)]])
  next
    case (sent e i c db')
    show thesis by (rule one [OF sent(1) markSent_moves [OF sent(2)]])
  next
    case (ack e i p a c db')
    show thesis by (rule one [OF ack(1) acknowledgeCommand_moves [OF ack(2) assms(2)]])
  next
    case (fail e i reason c db')
    show thesis by (rule one [OF fail(1) failTransport_moves [OF fail(2) assms(2)]])
  next
    case (resolve e i p outcome reason c db')
    show thesis by (rule one [OF resolve(1) resolveUnknownCommand_moves [OF resolve(2) assms(2)]])
  next
    case (put_back e i reason t c db')
    show thesis by (rule one [OF put_back(1) deferCommand_moves [OF put_back(2)]])
  qed
qed

lemma delivery_inv_step:
  assumes "delivery_step d d'" "delivery_inv d"
  shows "delivery_inv d'"
proof -
  have "commands_distinct (dl_db d)" using assms(2) by (simp add: delivery_inv_def)
  with assms(1) show ?thesis
  proof (cases rule: step_moves)
    case (moves db')
    then show ?thesis using delivery_inv_moves assms(2) by blast
  next
    case (enqueue e freshId p input c db')
    then show ?thesis using delivery_inv_enqueue [OF assms(2)] by blast
  next
    case (send e i c db')
    then show ?thesis using delivery_inv_send [OF assms(2)] by blast
  next
    case (rest keep db')
    then show ?thesis using delivery_inv_rest [OF assms(2)] by blast
  qed
qed

lemma delivery_inv_reachable: "delivery_step\<^sup>*\<^sup>* d d' \<Longrightarrow> delivery_inv d \<Longrightarrow> delivery_inv d'"
  by (induction rule: rtranclp_induct) (auto intro: delivery_inv_step)

definition no_commands :: "runtime_db \<Rightarrow> delivery" where
  "no_commands db = \<lparr>dl_db = db\<lparr>db_commands := []\<rparr>, dl_issued = [], dl_sent = []\<rparr>"

lemma delivery_inv_no_commands: "delivery_inv (no_commands db)"
  by (simp add: delivery_inv_def no_commands_def commands_distinct_def)

text \<open>
  C5. A command with side effects is sent at most once. Whatever transactions of the queue run, in
  whatever order, with crashes, transport failures, timeouts and session changes in between, a
  side-effecting command is handed to the transport at most once, and once it was, it never returns
  to the queue; a repeatable command is handed over at most as often as its attempt limit says.
\<close>

theorem side_effects_sent_at_most_once:
  assumes "delivery_step\<^sup>*\<^sup>* (no_commands db) d"
  shows "(\<forall>x \<in> set (dl_sent d). (dc_side_effecting x \<longrightarrow> sends (dc_command_id x) (dl_sent d) = 1) \<and>
      int (sends (dc_command_id x) (dl_sent d)) \<le> dc_max_attempts x) \<and>
    (\<forall>c \<in> set (db_commands (dl_db d)). dc_side_effecting c \<and> sends (dc_command_id c) (dl_sent d) > 0 \<longrightarrow> dc_state c \<noteq> CM_queued)"
proof -
  have inv: "delivery_inv d" using delivery_inv_reachable [OF assms delivery_inv_no_commands] .
  have pos: "sends (dc_command_id x) (dl_sent d) > 0" if "x \<in> set (dl_sent d)" for x
    unfolding sends_def using that by (auto simp: filter_empty_conv)
  have "sends (dc_command_id x) (dl_sent d) = 1" if "x \<in> set (dl_sent d)" "dc_side_effecting x" for x
    using inv that pos [OF that(1)] by (auto simp: delivery_inv_def intro: le_antisym)
  moreover have "dc_state c \<noteq> CM_queued"
    if "c \<in> set (db_commands (dl_db d))" "dc_side_effecting c" "sends (dc_command_id c) (dl_sent d) > 0" for c
    using inv that by (fastforce simp: delivery_inv_def cmd_ok_def unsent_def split: if_splits)
  ultimately show ?thesis using inv by (auto simp: delivery_inv_def)
qed

section \<open>Finished commands\<close>

lemma cmd_moves_open: "cmd_moves c c' \<Longrightarrow> \<not> TERMINAL (dc_state c)"
  by (elim cmd_movesE) (auto simp: unsent_def)

text \<open>A command whose identifier was issued is this row or gone.\<close>

definition only_as :: "DurableCommand \<Rightarrow> delivery \<Rightarrow> bool" where
  "only_as c d \<longleftrightarrow> delivery_inv d \<and> dc_command_id c \<in> set (dl_issued d) \<and>
     (\<forall>x \<in> set (db_commands (dl_db d)). dc_command_id x = dc_command_id c \<longrightarrow> x = c)"

lemma cmd_write_other:
  assumes "cmd_write db r r' db'" "commands_distinct db" "\<not> TERMINAL (dc_state r)" "TERMINAL (dc_state c)"
    "\<forall>x \<in> set (db_commands db). dc_command_id x = dc_command_id c \<longrightarrow> x = c"
  shows "\<forall>x \<in> set (db_commands db'). dc_command_id x = dc_command_id c \<longrightarrow> x = c"
proof (intro ballI impI)
  fix x assume x: "x \<in> set (db_commands db')" "dc_command_id x = dc_command_id c"
  have "r \<in> set (db_commands db)" "dc_command_id r' = dc_command_id r" using assms(1) by (auto simp: cmd_write_def)
  moreover from this have "dc_command_id r \<noteq> dc_command_id c" using assms(3-5) by auto
  ultimately show "x = c" using x assms(5) cmd_write_rows(2) [OF assms(1,2), of x] by auto
qed

lemma only_as_moves:
  assumes "moves_one\<^sup>*\<^sup>* (dl_db d) db'" "TERMINAL (dc_state c)" "only_as c d"
  shows "only_as c (d\<lparr>dl_db := db'\<rparr>)"
  using assms(1)
proof (induction rule: rtranclp_induct)
  case base
  then show ?case using assms(3) by simp
next
  case (step db1 db2)
  have dist: "commands_distinct db1" using step.IH by (simp add: only_as_def delivery_inv_def)
  have inv: "delivery_inv (d\<lparr>dl_db := db2\<rparr>)"
    using delivery_inv_moves_one [of "d\<lparr>dl_db := db1\<rparr>" db2] step by (simp add: only_as_def)
  from step.hyps(2) have "\<forall>x \<in> set (db_commands db2). dc_command_id x = dc_command_id c \<longrightarrow> x = c"
    using step.IH cmd_write_other [OF _ dist _ assms(2)] cmd_moves_open by (auto simp: moves_one_def only_as_def)
  then show ?case using inv step.IH by (simp add: only_as_def)
qed

lemma only_as_step:
  assumes "delivery_step d d'" "TERMINAL (dc_state c)" "only_as c d"
  shows "only_as c d'"
proof -
  have inv: "delivery_inv d" "delivery_inv d'" using assms delivery_inv_step by (auto simp: only_as_def)
  then have dist: "commands_distinct (dl_db d)" by (simp add: delivery_inv_def)
  from assms(1) dist show ?thesis
  proof (cases rule: step_moves)
    case (moves db')
    then show ?thesis using only_as_moves [OF _ assms(2,3)] by blast
  next
    case (enqueue e freshId p input r db')
    then have "db_commands db' = db_commands (dl_db d) \<or> (\<exists>n. dc_command_id n = ''cmd-'' @ freshId \<and> db_commands db' = db_commands (dl_db d) @ [n])"
      using enqueueCommand_effect [OF enqueue(1)] by (auto simp: new_command_def)
    then show ?thesis using assms(3) enqueue inv(2) by (auto simp: only_as_def)
  next
    case (send e i r db')
    from send(1) obtain r0 where "cmd_write (dl_db d) r0 r db'" "dc_state r0 = CM_dispatching" by (rule markSendStarted_effect) blast
    then show ?thesis using cmd_write_other [OF _ dist _ assms(2)] assms(3) send inv(2) by (auto simp: only_as_def)
  next
    case (rest keep db')
    then show ?thesis using assms(3) inv(2) by (auto simp: only_as_def)
  qed
qed

text \<open>
  C32. A finished command never changes again: once a command is completed, failed or cancelled, no later
  sequence of queue operations (acknowledgements, sweeps, resolutions, enqueues with the same key)
  rewrites its row or gives its identifier to another command.
\<close>

theorem finished_commands_are_final:
  assumes "delivery_step\<^sup>*\<^sup>* (no_commands db) d" "delivery_step\<^sup>*\<^sup>* d d'"
    and "c \<in> set (db_commands (dl_db d))" "TERMINAL (dc_state c)"
  shows "\<forall>c' \<in> set (db_commands (dl_db d')). dc_command_id c' = dc_command_id c \<longrightarrow> c' = c"
proof -
  have inv: "delivery_inv d" using delivery_inv_reachable [OF assms(1) delivery_inv_no_commands] .
  then have "only_as c d" using assms(3)
    by (auto simp: only_as_def delivery_inv_def commands_distinct_def distinct_map dest: inj_onD)
  with assms(2) have "only_as c d'" by (induction rule: rtranclp_induct) (auto intro: only_as_step assms(4))
  then show ?thesis by (simp add: only_as_def)
qed

section \<open>Enqueue\<close>

lemma store_command_found:
  assumes "store_command e freshId input payload actor recipient db = Inr (c, db1)"
  shows "List.find (by_key input) (db_commands db1) = Some c"
    and "same_command (fst actor) (Some (ss_session_id recipient)) payload input c"
    and "db_runs db1 = db_runs db" and "db_sessions db1 = db_sessions db"
proof -
  have "List.find (by_key input) (db_commands db1) = Some c \<and>
    same_command (fst actor) (Some (ss_session_id recipient)) payload input c \<and>
    db_runs db1 = db_runs db \<and> db_sessions db1 = db_sessions db"
  proof (cases "List.find (by_key input) (db_commands db)")
    case None
    let ?c = "new_command e (''cmd-'' @ freshId) input payload actor recipient"
    from assms None have c: "c = ?c" and ev: "command_event e ?c ''command_queued'' None (db\<lparr>db_commands := db_commands db @ [?c]\<rparr>) = Inr db1"
      unfolding store_command_def Let_def by (auto simp: rbind_Inr_iff split: if_splits)
    have "by_key input ?c" by (simp add: by_key_def new_command_def)
    then show ?thesis using command_event_frame [OF ev] None
      by (simp add: c find_append same_command_def new_command_def)
  next
    case (Some x)
    with assms show ?thesis by (auto simp: store_command_def split: if_splits)
  qed
  then show "List.find (by_key input) (db_commands db1) = Some c"
    "same_command (fst actor) (Some (ss_session_id recipient)) payload input c"
    "db_runs db1 = db_runs db" "db_sessions db1 = db_sessions db" by auto
qed

lemma command_lookup_cong:
  "db_runs db' = db_runs db \<Longrightarrow> command_run i db' = command_run i db"
  "db_sessions db' = db_sessions db \<Longrightarrow> command_session j db' = command_session j db"
  by (simp_all add: command_run_def command_session_def find_session_def)

lemma enqueue_actor_cong:
  "db_sessions db' = db_sessions db \<Longrightarrow> enqueue_actor p owner r db' = enqueue_actor p owner r db"
  by (cases p) (simp_all add: enqueue_actor_def command_lookup_cong(2) [of db' db])

text \<open>
  Enqueueing is idempotent: after a successful enqueue, the same request of the same caller
  returns the same command and changes nothing, whatever fresh identifier it brings; and a request
  with another payload under the same key is refused.
\<close>

theorem enqueue_is_idempotent:
  assumes "enqueueCommand e freshId p input db = Inr (c, db1)"
  shows "enqueueCommand e2 freshId2 p input db1 = Inr (c, db1) \<and>
    (\<forall>other. eq_runId other = eq_runId input \<and> eq_idempotencyKey other = eq_idempotencyKey input \<and>
       eq_payload other \<noteq> eq_payload input \<longrightarrow> (\<exists>err. enqueueCommand e2 freshId2 p other db1 = Inl err))"
  using assms
proof (rule enqueueCommand_tail)
  fix payload owner actor recipient
  assume g: "enqueue_input input = Inr payload" "command_run (eq_runId input) db = Inr owner" "active_state (rn_state owner)"
    "enqueue_actor p owner (eq_runId input) db = Inr actor"
    "command_session (Some (eq_recipientSessionId input)) db = Inr recipient"
    "ss_run_id recipient = Some (eq_runId input)" "Some (ss_agent_id recipient) = rn_agent_id owner"
    and st: "store_command e freshId input payload actor recipient db = Inr (c, db1)"
  note f = store_command_found [OF st]
  note cong = command_lookup_cong(1) [OF f(3)] command_lookup_cong(2) [OF f(4)] enqueue_actor_cong [OF f(4)]
  have again: "enqueueCommand e2 freshId2 p input db1 = Inr (c, db1)"
    using g f(1,2) by (simp add: enqueueCommand_def cong store_command_def)
  have "\<exists>err. enqueueCommand e2 freshId2 p other db1 = Inl err"
    if o: "eq_runId other = eq_runId input" "eq_idempotencyKey other = eq_idempotencyKey input" "eq_payload other \<noteq> eq_payload input" for other
  proof (cases "enqueueCommand e2 freshId2 p other db1")
    case (Inr r)
    then obtain c2 db2 where "enqueueCommand e2 freshId2 p other db1 = Inr (c2, db2)" by (cases r) auto
    then obtain payload2 actor2 recipient2 where h: "enqueue_input other = Inr payload2"
      "store_command e2 freshId2 other payload2 actor2 recipient2 db1 = Inr (c2, db2)" by (rule enqueueCommand_tail)
    have key: "by_key other = by_key input" using o by (simp add: by_key_def [abs_def])
    have "eq_payload other = Some payload2" "eq_payload input = Some payload"
      using h(1) g(1) by (auto simp: enqueue_input_def split: if_splits option.splits)
    with o(3) f(2) have "\<not> same_command (fst actor2) (Some (ss_session_id recipient2)) payload2 other c"
      by (auto simp: same_command_def)
    then show ?thesis using h(2) f(1) by (simp add: store_command_def key)
  qed blast
  with again show ?thesis by blast
qed

section \<open>The recovery sweep\<close>

text \<open>What the sweep guarantees of an outstanding command.\<close>

definition deliverable :: "timestamp \<Rightarrow> runtime_db \<Rightarrow> DurableCommand \<Rightarrow> bool" where
  "deliverable at db c \<longleftrightarrow> \<not> past_deadline at c \<and>
     (\<exists>r. command_run (dc_run_id c) db = Inr r \<and> active_state (rn_state r)) \<and>
     (\<exists>s. find_session (dc_session_id c) db = Some s \<and> ss_state s = SS_running)"

lemma deliverable_cong:
  "db_runs db' = db_runs db \<Longrightarrow> db_sessions db' = db_sessions db \<Longrightarrow> deliverable at db' c = deliverable at db c"
  by (simp add: deliverable_def command_lookup_cong(1) [of db' db] find_session_def)

lemma transition_state: "command_transition e c0 s name r db = Inr (c', db') \<Longrightarrow> dc_state c' = s"
  by (elim command_transition_Inr) auto

lemma reconcile_command_cases:
  assumes "reconcile_command e at stale c (changed, db) = Inr (changed', db')"
  obtains (kept) "db' = db" "deliverable at db c"
  | (ended) s name r u where "command_transition e c s name r db = Inr (u, db')" "\<not> outstanding s"
  | (again) t r u where "requeue_command e (dc_command_id c) t r db = Inr (u, db')" "deliverable at db c"
proof -
  from assms obtain owner where owner: "command_run (dc_run_id c) db = Inr owner"
    by (auto simp: reconcile_command_def rbind_Inr_iff)
  have d: "deliverable at db c" if "\<not> past_deadline at c" "\<not> reconcile_exited (active_state (rn_state owner)) c db"
    using that owner by (auto simp: deliverable_def reconcile_exited_def split: option.splits)
  let ?flagged = "past_deadline at c \<or> reconcile_stalled at stale c \<or> reconcile_exited (active_state (rn_state owner)) c db"
  let ?F = "\<lambda>r. command_transition e c CM_failed ''command_failed'' (Some r) db"
  let ?U = "\<lambda>r. command_transition e c CM_outcome_unknown ''command_outcome_unknown'' (Some r) db"
  let ?Q = "\<lambda>r. requeue_command e (dc_command_id c) at r db"
  let ?exited = "reconcile_exited (active_state (rn_state owner)) c db"
  show thesis
  proof (cases ?flagged)
    case False
    then have "db' = db" using assms by (simp add: reconcile_command_def owner Let_def)
    then show thesis using that(1) d False by blast
  next
    case True
    define reason where "reason = (if \<not> active_state (rn_state owner) then ''run ended''
       else if ?exited then ''recipient session exited''
       else if past_deadline at c then ''deadline exceeded'' else ''dispatch interrupted'')"
    from assms True obtain u where
      "(if dc_state c = CM_queued \<or> dc_state c = CM_dispatching \<and> \<not> ts_truthy (dc_send_started_at c)
        then (if ?exited \<or> past_deadline at c \<or> dc_max_attempts c \<le> dc_attempt_count c then ?F reason else ?Q reason)
        else if dc_side_effecting c then ?U reason
        else if dc_state c = CM_dispatching \<and> \<not> ?exited \<and> \<not> past_deadline at c \<and> dc_attempt_count c < dc_max_attempts c
        then ?Q reason else ?F reason) = Inr (u, db')"
      unfolding reconcile_command_def owner Let_def prod.case rbind.simps reason_def [symmetric] by (auto simp: rbind_Inr_iff)
    then consider "?F reason = Inr (u, db')" | "?U reason = Inr (u, db')"
      | "?Q reason = Inr (u, db')" "\<not> past_deadline at c" "\<not> ?exited"
      by (simp split: if_splits)
    then show thesis by cases (use that(2,3) d in \<open>auto simp del: split_paired_Ex\<close>)
  qed
qed

text \<open>What processing one command establishes, and what it leaves alone.\<close>

definition swept :: "timestamp \<Rightarrow> DurableCommand \<Rightarrow> runtime_db \<Rightarrow> runtime_db \<Rightarrow> bool" where
  "swept at c db db' \<longleftrightarrow> db_runs db' = db_runs db \<and> db_sessions db' = db_sessions db \<and> commands_distinct db' \<and>
    (\<forall>x \<in> set (db_commands db'). (dc_command_id x = dc_command_id c \<and> outstanding (dc_state x) \<longrightarrow> deliverable at db x) \<and>
       (dc_command_id x \<noteq> dc_command_id c \<longrightarrow> x \<in> set (db_commands db))) \<and>
    (\<forall>x \<in> set (db_commands db). dc_command_id x \<noteq> dc_command_id c \<longrightarrow> x \<in> set (db_commands db'))"

lemma swept_write:
  assumes "cmd_write db c c' db'" "commands_distinct db" "outstanding (dc_state c') \<Longrightarrow> deliverable at db c'"
  shows "swept at c db db'"
  using cmd_write_rows [OF assms(1,2)] assms(1,3) by (auto simp: swept_def cmd_write_def)

lemma reconcile_command_swept:
  assumes "reconcile_command e at stale c (changed, db) = Inr (changed', db')" "commands_distinct db" "c \<in> set (db_commands db)"
  shows "swept at c db db'"
  using assms(1)
proof (cases rule: reconcile_command_cases)
  case kept
  have "x = c" if "x \<in> set (db_commands db)" "dc_command_id x = dc_command_id c" for x
    using assms(2,3) that by (auto simp: commands_distinct_def distinct_map dest: inj_onD)
  with kept assms(2) show ?thesis by (auto simp: swept_def)
next
  case (ended s name r u)
  from ended(1) obtain c1 where "command_row (dc_command_id c) db = Inr c1" "cmd_write db c1 u db'" by (rule command_transition_Inr)
  with row_unique [OF assms(2,3)] have "cmd_write db c u db'" by auto
  then show ?thesis by (rule swept_write [OF _ assms(2)]) (use ended transition_state in auto)
next
  case (again t r u)
  from again(1) show ?thesis
  proof (rule requeue_command_Inr)
    fix c1 assume c1: "command_row (dc_command_id c) db = Inr c1" "cmd_write db c1 u db'"
      "u = c1\<lparr>dc_state := CM_queued, dc_next_attempt_at := Some t, dc_last_error := Some r\<rparr>"
    have "c1 = c" by (rule row_unique [OF assms(2,3) c1(1)])
    then show ?thesis using c1 again(2)
      by (intro swept_write [OF _ assms(2), of c u]) (auto simp: deliverable_def past_deadline_def)
  qed
qed

lemma reconcile_fold_swept:
  assumes "rfold (reconcile_command e at stale) cs (changed, db) = Inr (changed', db')" "commands_distinct db"
    "set cs \<subseteq> set (db_commands db)" "distinct (map dc_command_id cs)"
  shows "db_runs db' = db_runs db \<and> db_sessions db' = db_sessions db \<and>
    (\<forall>x \<in> set (db_commands db'). outstanding (dc_state x) \<longrightarrow> deliverable at db x \<or>
       x \<in> set (db_commands db) \<and> dc_command_id x \<notin> dc_command_id ` set cs)"
  using assms
proof (induction cs arbitrary: changed db)
  case (Cons c cs)
  then obtain changed1 db1 where 1: "reconcile_command e at stale c (changed, db) = Inr (changed1, db1)"
    "rfold (reconcile_command e at stale) cs (changed1, db1) = Inr (changed', db')" by (auto simp: rbind_Inr_iff)
  have s: "swept at c db db1" using reconcile_command_swept [OF 1(1) Cons.prems(2)] Cons.prems(3) by simp
  have ids: "\<forall>x \<in> set cs. x \<in> set (db_commands db) \<and> dc_command_id x \<noteq> dc_command_id c"
    using Cons.prems(3,4) by (auto simp: image_iff)
  have sub: "set cs \<subseteq> set (db_commands db1)"
    using ids s unfolding swept_def by blast
  have frame: "db_runs db1 = db_runs db" "db_sessions db1 = db_sessions db" using s by (simp_all add: swept_def)
  have IH: "db_runs db' = db_runs db1 \<and> db_sessions db' = db_sessions db1 \<and>
    (\<forall>x \<in> set (db_commands db'). outstanding (dc_state x) \<longrightarrow> deliverable at db1 x \<or>
       x \<in> set (db_commands db1) \<and> dc_command_id x \<notin> dc_command_id ` set cs)"
    by (rule Cons.IH [OF 1(2) _ sub]) (use s Cons.prems(4) in \<open>auto simp: swept_def\<close>)
  then show ?case using frame s deliverable_cong [OF frame] by (auto simp: swept_def)
qed simp

text \<open>
  C30. The recovery sweep leaves no orphan: after a successful sweep every command that is still
  queued, dispatching, sent, accepted or running belongs to an active run, its recipient session
  is running and its deadline has not passed.
\<close>

theorem sweep_leaves_no_orphan:
  assumes "reconcileCommands e at stale db = Inr (changed, db')" "commands_distinct db"
  shows "\<forall>c \<in> set (db_commands db'). outstanding (dc_state c) \<longrightarrow> deliverable at db' c"
proof -
  let ?cs = "filter (\<lambda>c. outstanding (dc_state c)) (db_commands db)"
  have *: "db_runs db' = db_runs db \<and> db_sessions db' = db_sessions db \<and>
    (\<forall>x \<in> set (db_commands db'). outstanding (dc_state x) \<longrightarrow> deliverable at db x \<or>
       x \<in> set (db_commands db) \<and> dc_command_id x \<notin> dc_command_id ` set ?cs)"
    by (rule reconcile_fold_swept [OF assms(1) [unfolded reconcileCommands_def] assms(2)])
       (use assms(2) in \<open>auto simp: commands_distinct_def distinct_map_filter\<close>)
  then show ?thesis using deliverable_cong [of db' db at] by auto
qed

section \<open>The dispatcher's loop\<close>

lemma length_filter_update:
  assumes "\<And>x. x \<in> set xs \<Longrightarrow> Q x \<Longrightarrow> \<not> P (f x)"
  shows "length (filter P (update_where Q f xs)) \<le> length (filter P xs)"
  using assms by (induction xs) (auto intro: le_SucI)

lemma length_filter_update_less:
  assumes "x \<in> set xs" "Q x" "P x" "\<And>x. x \<in> set xs \<Longrightarrow> Q x \<Longrightarrow> \<not> P (f x)"
  shows "length (filter P (update_where Q f xs)) < length (filter P xs)"
  using assms
proof (induction xs)
  case (Cons y ys)
  have "length (filter P (update_where Q f ys)) \<le> length (filter P ys)"
    by (rule length_filter_update) (use Cons.prems(4) in auto)
  then show ?case using Cons by (cases "x = y") auto
qed simp

text \<open>The number of commands the loop would still reserve.\<close>

definition due :: "env \<Rightarrow> runtime_db \<Rightarrow> nat" where
  "due e db = length (filter (command_due (now_ts e)) (db_commands db))"

lemma cmd_write_due:
  assumes "cmd_write db c c' db'" "commands_distinct db" "\<not> command_due (now_ts e) c'"
  shows "due e db' \<le> due e db" and "command_due (now_ts e) c \<Longrightarrow> due e db' < due e db"
proof -
  from assms(1) obtain f where f: "f c = c'" "c \<in> set (db_commands db)"
    "db_commands db' = update_where (\<lambda>x. dc_command_id x = dc_command_id c) f (db_commands db)" by (auto simp: cmd_write_def)
  have only: "x = c" if "x \<in> set (db_commands db)" "dc_command_id x = dc_command_id c" for x
    using assms(2) that f(2) by (auto simp: commands_distinct_def distinct_map dest: inj_onD)
  have not_due: "\<not> command_due (now_ts e) (f x)" if "x \<in> set (db_commands db)" "dc_command_id x = dc_command_id c" for x
    using only [OF that] f(1) assms(3) by simp
  show "due e db' \<le> due e db" unfolding due_def f(3) by (rule length_filter_update) (rule not_due)
  show "due e db' < due e db" if "command_due (now_ts e) c"
    unfolding due_def f(3) by (rule length_filter_update_less [OF f(2)]) (use not_due that in auto)
qed

text \<open>An operation of the loop's body: it may change one row, to one that is not due.\<close>

definition settles :: "env \<Rightarrow> runtime_db \<Rightarrow> runtime_db \<Rightarrow> bool" where
  "settles e db db' \<longleftrightarrow> due e db' \<le> due e db \<and> commands_distinct db'"

lemma settles_refl: "commands_distinct db \<Longrightarrow> settles e db db"
  by (simp add: settles_def)

lemma settles_trans: "settles e db db1 \<Longrightarrow> settles e db1 db2 \<Longrightarrow> settles e db db2"
  by (auto simp: settles_def)

lemma update_command_settles:
  assumes "update_command e i f name reason db = Inr (c', db')" "commands_distinct db"
    "\<And>c. dc_command_id (f c) = dc_command_id c" "\<And>c. command_row i db = Inr c \<Longrightarrow> \<not> command_due (now_ts e) (f c)"
  shows "settles e db db'"
  using assms(1,3)
  by (rule update_command_Inr) (use assms(2,4) cmd_write_due(1) cmd_write_rows(1) in \<open>auto simp: settles_def\<close>)

lemma transition_settles:
  assumes "command_transition e c s name reason db = Inr (c', db')" "commands_distinct db" "s \<noteq> CM_queued"
  shows "settles e db db'"
  using assms(1) unfolding command_transition_def
  by (rule update_command_settles [OF _ assms(2)]) (use assms(3) in \<open>auto simp: command_due_def\<close>)

lemma retry_delay_positive: "0 < retry_delay_ms n"
  by (simp add: retry_delay_ms_def)

lemma due_later: "command_due (now_ts e) c \<Longrightarrow> dc_next_attempt_at c = Some (ts_plus (now_ts e) ms) \<Longrightarrow> ms \<le> 0"
  by (simp add: command_due_def now_ts_def)

lemma failTransport_settles:
  assumes "failTransport e i reason db = Inr (c', db')" "commands_distinct db"
  shows "settles e db db'"
proof -
  obtain c where c: "command_row i db = Inr c" using assms(1) by (auto simp: failTransport_def rbind_Inr_iff)
  have q: "settles e db db'" if "requeue_command e i (ts_plus (now_ts e) (retry_delay_ms n)) reason db = Inr (c', db')" for n
    using that unfolding requeue_command_def
    by (rule update_command_settles [OF _ assms(2)]) (use retry_delay_positive [of n] in \<open>auto dest!: due_later\<close>)
  from assms c show ?thesis
    by (auto simp: failTransport_def settles_refl split: if_splits dest: transition_settles q)
qed

lemma deferCommand_settles:
  assumes "deferCommand e i reason (ts_plus (now_ts e) BUSY_RETRY_MS) db = Inr (c', db')" "commands_distinct db"
  shows "settles e db db'"
proof -
  obtain c where c: "command_row i db = Inr c" using assms(1) by (auto simp: deferCommand_def rbind_Inr_iff)
  show ?thesis
  proof (cases "dc_state c \<noteq> CM_dispatching \<or> ts_truthy (dc_send_started_at c)")
    case True
    then show ?thesis using assms c by (simp add: deferCommand_def settles_refl)
  next
    case False
    then have "update_command e i (\<lambda>c. c\<lparr>dc_state := CM_queued, dc_attempt_count := dc_attempt_count c - 1,
        dc_next_attempt_at := Some (ts_plus (now_ts e) BUSY_RETRY_MS), dc_last_error := Some reason\<rparr>) ''command_queued'' (Some reason) db = Inr (c', db')"
      using assms(1) c by (simp add: deferCommand_def)
    then show ?thesis
      by (rule update_command_settles [OF _ assms(2)])
         (auto simp: BUSY_RETRY_MS_def dest!: due_later)
  qed
qed

lemma markSendStarted_settles:
  assumes "markSendStarted e i db = Inr (c', db')" "commands_distinct db"
  shows "settles e db db'"
  using assms(1)
proof (rule markSendStarted_effect)
  fix c assume c: "cmd_write db c c' db'" "dc_state c = CM_dispatching" "c' = c\<lparr>dc_send_started_at := Some (now_ts e)\<rparr>"
  have "\<not> command_due (now_ts e) c'" using c by (simp add: command_due_def)
  then show ?thesis using cmd_write_due(1) [OF c(1) assms(2)] cmd_write_rows(1) [OF c(1) assms(2)] by (simp add: settles_def)
qed

lemma markSent_settles:
  assumes "markSent e i db = Inr (c', db')" "commands_distinct db"
  shows "settles e db db'"
proof -
  obtain c where c: "command_row i db = Inr c" using assms(1) by (auto simp: markSent_def rbind_Inr_iff)
  show ?thesis
  proof (cases "dc_state c \<noteq> CM_dispatching \<or> \<not> ts_truthy (dc_send_started_at c)")
    case True
    then show ?thesis using assms c by (simp add: markSent_def settles_refl)
  next
    case False
    then have "update_command e i (\<lambda>c. c\<lparr>dc_state := CM_sent, dc_delivered_at := Some (now_ts e)\<rparr>) ''command_sent'' None db = Inr (c', db')"
      using assms(1) c by (simp add: markSent_def)
    then show ?thesis by (rule update_command_settles [OF _ assms(2)]) (auto simp: command_due_def)
  qed
qed

lemma attempt_cases:
  "attempt r db = Inl (msg, db') \<Longrightarrow> db' = db" "attempt r db = Inr (x, db') \<longleftrightarrow> r = Inr (x, db')"
  by (cases r; simp)+

text \<open>Every step of the \<^verbatim>\<open>try\<close> body settles, whether it returns or throws.\<close>

definition settled :: "env \<Rightarrow> runtime_db \<Rightarrow> (string \<times> runtime_db) + ('a \<times> runtime_db) \<Rightarrow> bool" where
  "settled e db r \<longleftrightarrow> (case r of Inl (_, db') \<Rightarrow> settles e db db' | Inr (_, db') \<Rightarrow> settles e db db')"

lemma settled_attempt:
  assumes "commands_distinct db" "\<And>x db'. t = Inr (x, db') \<Longrightarrow> settles e db db'"
  shows "settled e db (attempt t db)"
  using assms by (cases t) (auto simp: settled_def settles_refl)

lemma settled_bind:
  assumes "settled e db r" "\<And>x db1. settles e db db1 \<Longrightarrow> settled e db1 (k (x, db1))"
  shows "settled e db (rbind r k)"
proof (cases r)
  case (Inr p)
  then obtain x db1 where p: "r = Inr (x, db1)" "settles e db db1" using assms(1) by (cases p) (auto simp: settled_def)
  with assms(2) [OF p(2), of x] show ?thesis
    by (auto simp: settled_def split: sum.splits prod.splits intro: settles_trans)
qed (use assms(1) in \<open>auto simp: settled_def\<close>)

lemma applyAck_settles:
  assumes "applyAck e c a reason db = Inr (c', db')" "commands_distinct db"
  shows "settles e db db'"
proof -
  from assms(1) obtain f name where u: "update_command e (dc_command_id c) f name reason db = Inr (c', db')"
      and f: "\<And>c. dc_command_id (f c) = dc_command_id c" "\<And>c. dc_state (f c) = ack_state a"
    by (force simp: applyAck_def split: if_splits)
  have "\<not> command_due (now_ts e) (f x)" for x using f(2) ack_state_left [of a] by (simp add: command_due_def)
  then show ?thesis by (intro update_command_settles [OF u assms(2) f(1)])
qed

lemma acknowledgeFromRuntime_settles:
  assumes "acknowledgeFromRuntime e i sid AK_accepted reason db = Inr (c', db')" "commands_distinct db"
  shows "settles e db db'"
  using assms settles_refl [OF assms(2)]
  by (auto simp: acknowledgeFromRuntime_def rbind_Inr_iff split: if_splits dest: applyAck_settles)

lemma send_command_settled: "commands_distinct db \<Longrightarrow> settled e db (send_command e tp c db)"
  using settled_attempt [OF _ acknowledgeFromRuntime_settles]
  by (auto simp: send_command_def split: sum.split) (auto simp: settled_def settles_refl)

lemma dispatch_body_settled:
  assumes "commands_distinct db"
  shows "settled e db (dispatch_body e tp c db)"
proof -
  have "settled e db (rbind (attempt (markSendStarted e (dc_command_id c) db) db) (\<lambda>(_, db1).
      rbind (send_command e tp c db1) (\<lambda>(_, db2). attempt (markSent e (dc_command_id c) db2) db2)))"
    using assms
    by (intro settled_bind settled_attempt)
       (auto simp: settles_def intro!: settled_bind [OF send_command_settled] settled_attempt
         dest: markSendStarted_settles markSent_settles)
  moreover have "settled e db (attempt (deferCommand e (dc_command_id c) ''recipient busy'' (ts_plus (now_ts e) BUSY_RETRY_MS) db) db)"
    using assms by (intro settled_attempt) (auto dest: deferCommand_settles)
  moreover have "settled e db (attempt (failTransport e (dc_command_id c) ''provider exited before send'' db) db)"
    using assms by (intro settled_attempt) (auto dest: failTransport_settles)
  ultimately show ?thesis using settles_refl [OF assms] by (auto simp: dispatch_body_def settled_def split: sum.split)
qed

lemma dispatch_one_settles:
  assumes "dispatch_one e tp c db = Inr db'" "commands_distinct db"
  shows "settles e db db'"
proof (cases "dispatch_body e tp c db")
  case (Inl r)
  then obtain msg db1 where r: "dispatch_body e tp c db = Inl (msg, db1)" by (cases r) auto
  then have s: "settles e db db1" using dispatch_body_settled [OF assms(2), of e tp c] by (simp add: settled_def)
  from assms(1) r obtain x where "failTransport e (dc_command_id c) msg db1 = Inr (x, db')"
    by (auto simp: dispatch_one_def split: sum.splits)
  with s show ?thesis using failTransport_settles settles_trans by (metis settles_def)
next
  case (Inr r)
  then show ?thesis using assms dispatch_body_settled [OF assms(2), of e tp c] by (cases r) (auto simp: dispatch_one_def settled_def)
qed

lemma reserveCommand_settles:
  assumes "reserveCommand e (now_ts e) db = Inr (Some c', db')" "commands_distinct db"
  shows "due e db' < due e db \<and> commands_distinct db'"
proof (cases "earliest (filter (command_due (now_ts e)) (db_commands db))")
  case None
  then show ?thesis using assms(1) by (simp add: reserveCommand_def)
next
  case (Some c0)
  then have c0: "c0 \<in> set (db_commands db)" "command_due (now_ts e) c0" by (auto dest!: earliest_in)
  have w: "due e db' < due e db \<and> commands_distinct db'" if "cmd_write db c0 c' db'" "dc_state c' \<noteq> CM_queued"
    using cmd_write_due(2) [OF that(1) assms(2) _ c0(2)] cmd_write_rows(1) [OF that(1) assms(2)] that(2) by (auto simp: command_due_def)
  show ?thesis
  proof (cases "past_deadline (now_ts e) c0")
    case True
    then have "command_transition e c0 CM_failed ''command_failed'' (Some ''deadline exceeded'') db = Inr (c', db')"
      using assms(1) Some by (auto simp: reserveCommand_def rbind_Inr_iff)
    then show ?thesis by (rule command_transition_Inr) (use row_unique [OF assms(2) c0(1)] w in auto)
  next
    case False
    then have "update_command e (dc_command_id c0) (\<lambda>c. c\<lparr>dc_state := CM_dispatching,
        dc_attempt_count := dc_attempt_count c + 1, dc_dispatch_started_at := Some (now_ts e), dc_send_started_at := None\<rparr>)
        ''command_dispatching'' None db = Inr (c', db')"
      using assms(1) Some by (auto simp: reserveCommand_def rbind_Inr_iff)
    then show ?thesis by (rule update_command_Inr) (use row_unique [OF assms(2) c0(1)] w in auto)
  qed
qed

lemma reserveCommand_None: "reserveCommand e at db = Inr (None, db') \<Longrightarrow> db' = db \<and> filter (command_due at) (db_commands db) = []"
  by (cases "filter (command_due at) (db_commands db)") (auto simp: reserveCommand_def rbind_Inr_iff split: option.splits if_splits)

lemma dispatch_loop_ends:
  assumes "commands_distinct db" "due e db < fuel"
  shows "\<exists>r. dispatch_loop fuel e tp db = Some r \<and> (\<forall>db'. r = Inr db' \<longrightarrow> due e db' = 0 \<and> commands_distinct db')"
  using assms
proof (induction fuel arbitrary: db)
  case (Suc fuel)
  show ?case
  proof (cases "reserveCommand e (now_ts e) db")
    case (Inr r)
    then obtain o1 db1 where r: "reserveCommand e (now_ts e) db = Inr (o1, db1)" by (cases r) auto
    show ?thesis
    proof (cases o1)
      case None
      then show ?thesis using r reserveCommand_None [of e "now_ts e" db db1] Suc.prems(1) by (simp add: due_def)
    next
      case (Some c)
      with r have s: "due e db1 < due e db" "commands_distinct db1" using reserveCommand_settles Suc.prems(1) by blast+
      have IH: "\<exists>r. dispatch_loop fuel e tp db2 = Some r \<and> (\<forall>db'. r = Inr db' \<longrightarrow> due e db' = 0 \<and> commands_distinct db')" if "settles e db1 db2" for db2
        by (rule Suc.IH) (use that s Suc.prems(2) in \<open>auto simp: settles_def\<close>)
      show ?thesis
        using r Some IH dispatch_one_settles [OF _ s(2)] settles_refl [OF s(2)] by (auto split: sum.splits)
    qed
  qed simp
qed simp

lemma moves_one_length: "moves_one\<^sup>*\<^sup>* db db' \<Longrightarrow> length (db_commands db') = length (db_commands db)"
  by (induction rule: rtranclp_induct) (auto simp: moves_one_def cmd_write_def)

lemma tick_returns:
  assumes "commands_distinct db" "length (db_commands db) < fuel"
  shows "\<exists>r. dispatcher_tick fuel False e tp db = Some r \<and>
    (\<forall>db'. r = Inr db' \<longrightarrow> commands_distinct db' \<and> (\<forall>c \<in> set (db_commands db'). \<not> command_due (now_ts e) c))"
proof (cases "reconcileCommands e (now_ts e) 30000 db")
  case (Inr r)
  then obtain cs db1 where r: "reconcileCommands e (now_ts e) 30000 db = Inr (cs, db1)" by (cases r) auto
  note m = reconcileCommands_moves [OF r assms(1)]
  have "commands_distinct db1"
    using m assms(1) by (induction rule: rtranclp_induct) (auto intro: moves_one_distinct)
  moreover have "due e db1 < fuel"
    using moves_one_length [OF m] assms(2) length_filter_le [of "command_due (now_ts e)" "db_commands db1"] by (simp add: due_def)
  ultimately show ?thesis
    using dispatch_loop_ends [of db1 e fuel tp] r by (auto simp: dispatcher_tick_def due_def filter_empty_conv)
qed (simp add: dispatcher_tick_def)

text \<open>
  The dispatcher's tick ends: with fuel for one more round than there are commands, the tick
  returns, whatever the transport answers, and unless an error stopped it no command is left due.
\<close>

theorem tick_ends:
  assumes "commands_distinct db" "length (db_commands db) < fuel"
  shows "\<exists>r. dispatcher_tick fuel False e tp db = Some r \<and>
    (\<forall>db'. r = Inr db' \<longrightarrow> (\<forall>c \<in> set (db_commands db'). \<not> command_due (now_ts e) c))"
  using tick_returns [OF assms] by blast

text \<open>A delivery ends in the first round whose clock has reached the deadline, if not before.\<close>

lemma deliver_loop_ends:
  assumes "commands_distinct db" "i \<le> n" "deadline \<le> clock (envs n)" "n - i < fuel"
  shows "\<exists>r. deliver_loop fuel i envs tp deadline commandId db = Some r \<and>
    (\<forall>c db'. r = Inr (c, db') \<longrightarrow> (\<exists>j. delivered (envs j) deadline c) \<and> getCommand commandId db' = Inr c)"
  using assms
proof (induction fuel arbitrary: i db)
  case (Suc fuel)
  obtain r where r: "dispatcher_tick (Suc (length (db_commands db))) False (envs i) tp db = Some r"
      "\<And>db'. r = Inr db' \<Longrightarrow> commands_distinct db'"
    using tick_returns [OF Suc.prems(1), of "Suc (length (db_commands db))" "envs i" tp] by auto
  show ?case
  proof (cases r)
    case (Inr db1)
    note d1 = r(2) [OF Inr]
    show ?thesis
    proof (cases "getCommand commandId db1")
      case (Inr c)
      show ?thesis
      proof (cases "delivered (envs i) deadline c")
        case False
        then have "i \<noteq> n" using Suc.prems(3) by (auto simp: delivered_def)
        then show ?thesis
          using Suc.IH [OF d1, of "Suc i"] Suc.prems(2-4) r(1) Inr \<open>r = Inr db1\<close> False by auto
      qed (use r(1) Inr \<open>r = Inr db1\<close> in auto)
    qed (use r(1) Inr in auto)
  qed (use r(1) in auto)
qed simp

lemma deliver_ends:
  assumes "commands_distinct db" "clock (envs 0) + timeoutMs \<le> clock (envs n)" "n < fuel"
  shows "\<exists>r. deliver fuel envs tp timeoutMs commandId db = Some r"
  unfolding deliver_def using deliver_loop_ends [OF assms(1), of 0 n "clock (envs 0) + timeoutMs" envs fuel tp commandId] assms(2,3)
  by auto

section \<open>Evaluation on a concrete queue\<close>

definition queue_db :: runtime_db where
  "queue_db = runs_db'\<lparr>db_sessions := [session_row_of session0]\<rparr>"

definition input0 :: "timestamp option \<Rightarrow> EnqueueCommand" where
  "input0 deadline = \<lparr>eq_runId = ''run-1'', eq_recipientSessionId = ''s1'', eq_idempotencyKey = ''k'', eq_kind = ''steer'',
     eq_payload = Some ''{}'', eq_sideEffecting = True, eq_maxAttempts = 3, eq_deadlineAt = deadline\<rparr>"

text \<open>An event that validates under any number and identity is appended when its fresh identity is new.\<close>

lemma append_event_ok:
  assumes "ev_event_id ev = None" "\<And>n i. validateEventObject e (ev\<lparr>ev_seq := n, ev_event_id := Some i\<rparr>) = []"
    "uuid e (next_event_seq db) \<notin> er_event_id ` set (db_events db)"
  shows "\<exists>row. append_event e ev db = Inr (db\<lparr>db_events := db_events db @ [row], db_event_seq := next_event_seq db\<rparr>) \<and>
     er_event_id row = uuid e (next_event_seq db)"
proof -
  have "validateEventObject e (ev\<lparr>ev_event_id := Some i, ev_seq := n\<rparr>) = []" for n i
    using assms(2) [of i n] by (cases ev) simp
  then show ?thesis using assms
    by (auto simp: append_event_def appendSequencedEvent_def ensureEventIdentity_def event_row_of_def Let_def)
qed

lemma command_event_core:
  assumes "ev_event ev \<in> set COMMAND_EVENTS" "truthy (ev_run_id ev)" "ev_task_ref ev = Some r" "TASK_REF_RE r"
    "ev_agent_id ev = Some a" "AGENT_ID_RE a" "nonempty_string (payload_value ev ''command_id'')" "nonempty_string (payload_value ev ''state'')"
  shows "validateCoreEventInvariants ev = []"
proof -
  have other: "ev_event ev \<notin> set ([''session_reconciled'', ''input_requested'', ''input_response'', ''reported_for_duty'', ''heartbeat'',
      ''claim_created'', ''claim_renewed'', ''claim_expired'', ''run_failed'', ''task_updated'', ''agent_marked_dead'',
      ''session_start_failed'', ''session_started'', ''worker_needs_attention'', ''remediation_applied'', ''work_complete'',
      ''finalize_rebase_started'', ''ready_to_merge''] @ agent_events @ task_events)"
  proof
    assume "ev_event ev \<in> set ([''session_reconciled'', ''input_requested'', ''input_response'', ''reported_for_duty'', ''heartbeat'',
      ''claim_created'', ''claim_renewed'', ''claim_expired'', ''run_failed'', ''task_updated'', ''agent_marked_dead'',
      ''session_start_failed'', ''session_started'', ''worker_needs_attention'', ''remediation_applied'', ''work_complete'',
      ''finalize_rebase_started'', ''ready_to_merge''] @ agent_events @ task_events)"
    moreover have "list_all (\<lambda>n. n \<notin> set ([''session_reconciled'', ''input_requested'', ''input_response'', ''reported_for_duty'', ''heartbeat'',
      ''claim_created'', ''claim_renewed'', ''claim_expired'', ''run_failed'', ''task_updated'', ''agent_marked_dead'',
      ''session_start_failed'', ''session_started'', ''worker_needs_attention'', ''remediation_applied'', ''work_complete'',
      ''finalize_rebase_started'', ''ready_to_merge''] @ agent_events @ task_events)) COMMAND_EVENTS"
      by (simp add: COMMAND_EVENTS_def agent_events_def task_events_def)
    ultimately show False using assms(1) by (auto simp: list_all_iff)
  qed
  have req: "requireRunId ev = []" "requireTaskRef ev = []" "requireAgentId ev = []"
    "requirePayloadField ev ''command_id'' nonempty_string d = []" "requirePayloadField ev ''state'' nonempty_string d = []" for d
    using assms(2-8) by (simp_all add: require_nil)
  have "reference_errors ev = []" "session_command_errors ev = []" using other req by (simp_all add: reference_errors_def session_command_errors_def)
  moreover have "input_errors ev = []" "agent_errors ev = []" "claim_errors ev = []"
    using other by (simp_all add: input_errors_def agent_errors_def claim_errors_def)
  moreover have "session_errors ev = []" "attention_errors ev = []" "finalization_errors ev = []"
    using other by (simp_all add: session_errors_def attention_errors_def finalization_errors_def)
  ultimately show ?thesis by (simp add: validateCoreEventInvariants_def)
qed

text \<open>An environment whose identifiers are as long as their number, and a log numbered by it.\<close>

definition env1 :: env where
  "env1 = env0\<lparr>uuid := \<lambda>n. replicate n (CHR ''u'')\<rparr>"

definition numbered :: "runtime_db \<Rightarrow> bool" where
  "numbered db \<longleftrightarrow> (\<forall>r \<in> set (db_events db). length (er_event_id r) \<le> db_event_seq db)"

definition eventful :: "runtime_db \<Rightarrow> runtime_db \<Rightarrow> bool" where
  "eventful db db' \<longleftrightarrow> numbered db' \<and> db_commands db' = db_commands db \<and> db_runs db' = db_runs db \<and> db_sessions db' = db_sessions db"

lemma command_event_ok:
  assumes "numbered db" "name \<in> set COMMAND_EVENTS" "command_run (dc_run_id c) db = Inr r" "dc_run_id c \<noteq> []"
    "TASK_REF_RE (rn_task_ref r)" "AGENT_ID_RE (dc_recipient_id c)" "dc_command_id c \<noteq> []"
  shows "\<exists>db'. command_event env1 c name reason db = Inr db' \<and> eventful db db'"
proof -
  let ?ev = "mk_event (now_ts env1) name ''coordinator'' ''coordinator'' (Some (dc_run_id c)) (Some (rn_task_ref r)) (Some (dc_recipient_id c))
            (Some ([(''command_id'', JStr (dc_command_id c)), (''state'', JStr (command_state_str (dc_state c))),
                    (''attempt_count'', JNum (dc_attempt_count c))] @ (if truthy reason then [(''reason'', JStr (the reason))] else [])))"
  have st: "command_state_str s \<noteq> []" for s by (cases s) auto
  have "validateEventObject env1 (?ev\<lparr>ev_seq := n, ev_event_id := Some i\<rparr>) = []" for n i
    unfolding validateEventObject_def using assms(2,4-7) st
    by (simp add: env0_def env1_def mk_event_def command_event_core payload_value_def)
  moreover have "uuid env1 (next_event_seq db) \<notin> er_event_id ` set (db_events db)"
  proof
    assume "uuid env1 (next_event_seq db) \<in> er_event_id ` set (db_events db)"
    then obtain row where "row \<in> set (db_events db)" "er_event_id row = replicate (Suc (db_event_seq db)) (CHR ''u'')"
      by (auto simp: env1_def next_event_seq_def)
    with assms(1) show False by (auto simp: numbered_def dest!: arg_cong [where f = length])
  qed
  ultimately obtain row where "append_event env1 ?ev db = Inr (db\<lparr>db_events := db_events db @ [row], db_event_seq := next_event_seq db\<rparr>)"
    "er_event_id row = uuid env1 (next_event_seq db)" using append_event_ok [of ?ev env1 db] by (auto simp: mk_event_def)
  then show ?thesis using assms(1,3)
    by (auto simp: command_event_def eventful_def numbered_def env1_def next_event_seq_def intro: le_SucI)
qed

lemma update_command_ok:
  assumes "numbered db" "name \<in> set COMMAND_EVENTS" "command_row i db = Inr c" "\<And>c. same_identity c (f c)"
    "\<And>c. dc_recipient_id (f c) = dc_recipient_id c"
    "command_run (dc_run_id c) db = Inr r" "dc_run_id c \<noteq> []" "TASK_REF_RE (rn_task_ref r)" "AGENT_ID_RE (dc_recipient_id c)" "i \<noteq> []"
  shows "\<exists>db'. update_command env1 i f name reason db = Inr (f c, db') \<and>
     eventful (db\<lparr>db_commands := update_where (\<lambda>c. dc_command_id c = i) f (db_commands db)\<rparr>) db'"
proof -
  let ?db1 = "db\<lparr>db_commands := update_where (\<lambda>c. dc_command_id c = i) f (db_commands db)\<rparr>"
  have id: "dc_command_id (f c) = dc_command_id c" "dc_run_id (f c) = dc_run_id c" for c using assms(4) [of c] by (simp_all add: same_identity_def)
  have row: "command_row i ?db1 = Inr (f c)"
    using assms(3) by (simp add: command_row_Inr find_update_where [where k = dc_command_id, OF id(1)])
  have run: "command_run (dc_run_id (f c)) ?db1 = Inr r" using assms(6) by (simp add: command_run_def id(2))
  have "\<exists>db'. command_event env1 (f c) name reason ?db1 = Inr db' \<and> eventful ?db1 db'"
    by (rule command_event_ok [OF _ assms(2) run]) (use assms command_row_in [OF assms(3)] id in \<open>auto simp: numbered_def\<close>)
  then show ?thesis using row by (auto simp: update_command_def Let_def)
qed

section \<open>A command on its way\<close>

definition cmd0 :: "timestamp option \<Rightarrow> DurableCommand" where
  "cmd0 deadline = new_command env1 ''cmd-1'' (input0 deadline) ''{}'' (None, ''coordinator'') (session_row_of session0)"

text \<open>A database in which the worker of \<open>run-1\<close> has its session and the given commands.\<close>

definition queue_with :: "DurableCommand list \<Rightarrow> runtime_db \<Rightarrow> bool" where
  "queue_with cs db \<longleftrightarrow> numbered db \<and> db_commands db = cs \<and> db_runs db = db_runs queue_db \<and> db_sessions db = db_sessions queue_db"

lemma queue_run: "queue_with cs db \<Longrightarrow> \<exists>r. command_run ''run-1'' db = Inr r \<and> TASK_REF_RE (rn_task_ref r) \<and> active_state (rn_state r) \<and>
    rn_agent_id r = Some ''w''"
  by (simp add: queue_with_def command_run_def queue_db_def runs_db'_def TASK_REF_RE_def kebab_char_def alnum_lower_def is_lower_def
      is_digit_def char_code_def)

lemma queue_session: "queue_with cs db \<Longrightarrow> command_session (Some ''s1'') db = Inr (session_row_of session0)"
  by (simp add: queue_with_def command_session_def find_session_def queue_db_def session_row_of_def session0_def)

lemma queue_empty: "queue_with [] (queue_db)"
  by (simp add: queue_with_def queue_db_def runs_db'_def runs_db_def empty_db_def numbered_def)

lemma cmd0_sel: "dc_command_id (cmd0 dl) = ''cmd-1''" "dc_run_id (cmd0 dl) = ''run-1''" "dc_recipient_id (cmd0 dl) = ''w''"
  "dc_session_id (cmd0 dl) = Some ''s1''" "dc_state (cmd0 dl) = CM_queued" "dc_next_attempt_at (cmd0 dl) = None"
  "dc_deadline_at (cmd0 dl) = dl" "dc_side_effecting (cmd0 dl)" "dc_send_started_at (cmd0 dl) = None"
  by (simp_all add: cmd0_def new_command_def input0_def session_row_of_def session0_def)

lemma agent_w: "AGENT_ID_RE ''w''"
  by (simp add: alnum_lower_def is_lower_def char_code_def)

lemma enqueue0:
  assumes "queue_with [] db" "\<not> (ts_truthy dl \<and> \<not> ts_finite (the dl))"
  shows "\<exists>db1. enqueueCommand env1 ''1'' None (input0 dl) db = Inr (cmd0 dl, db1) \<and> queue_with [cmd0 dl] db1"
proof -
  obtain r where r: "command_run ''run-1'' db = Inr r" "TASK_REF_RE (rn_task_ref r)" "active_state (rn_state r)" "rn_agent_id r = Some ''w''"
    using queue_run [OF assms(1)] by blast
  have "\<exists>db1. command_event env1 (cmd0 dl) ''command_queued'' None (db\<lparr>db_commands := [cmd0 dl]\<rparr>) = Inr db1 \<and> eventful (db\<lparr>db_commands := [cmd0 dl]\<rparr>) db1"
    by (rule command_event_ok [of _ _ _ r])
       (use assms(1) r agent_w in \<open>simp_all add: queue_with_def numbered_def COMMAND_EVENTS_def cmd0_sel command_run_def\<close>)
  then obtain db1 where db1: "command_event env1 (cmd0 dl) ''command_queued'' None (db\<lparr>db_commands := [cmd0 dl]\<rparr>) = Inr db1"
    "eventful (db\<lparr>db_commands := [cmd0 dl]\<rparr>) db1" by blast
  have "store_command env1 ''1'' (input0 dl) ''{}'' (None, ''coordinator'') (session_row_of session0) db = Inr (cmd0 dl, db1)"
    using assms(1) db1(1) by (simp add: store_command_def queue_with_def cmd0_def)
  then have "enqueueCommand env1 ''1'' None (input0 dl) db = Inr (cmd0 dl, db1)"
    using assms r queue_session [OF assms(1)]
    by (simp add: enqueueCommand_def enqueue_input_def input0_def enqueue_actor_def session_row_of_def session0_def)
  then show ?thesis using db1(2) assms(1) by (auto simp: eventful_def queue_with_def)
qed

lemma queue_row: "queue_with [c] db \<Longrightarrow> dc_command_id c = i \<Longrightarrow> command_row i db = Inr c"
  by (simp add: queue_with_def command_row_def)

lemma update0:
  assumes "queue_with [c] db" "dc_command_id c = ''cmd-1''" "dc_run_id c = ''run-1''" "dc_recipient_id c = ''w''"
    "name \<in> set COMMAND_EVENTS" "\<And>c. same_identity c (f c)" "\<And>c. dc_recipient_id (f c) = dc_recipient_id c"
  shows "\<exists>db'. update_command env1 ''cmd-1'' f name reason db = Inr (f c, db') \<and> queue_with [f c] db'"
proof -
  obtain r where r: "command_run ''run-1'' db = Inr r" "TASK_REF_RE (rn_task_ref r)" using queue_run [OF assms(1)] by blast
  have "\<exists>db'. update_command env1 ''cmd-1'' f name reason db = Inr (f c, db') \<and>
     eventful (db\<lparr>db_commands := update_where (\<lambda>c. dc_command_id c = ''cmd-1'') f (db_commands db)\<rparr>) db'"
    by (rule update_command_ok [OF _ assms(5) queue_row [OF assms(1,2)] assms(6,7), of r])
       (use assms(1-4) r agent_w in \<open>simp_all add: queue_with_def\<close>)
  then show ?thesis using assms(1,2) by (auto simp: eventful_def queue_with_def)
qed

lemma reserve0:
  assumes "queue_with [cmd0 dl] db"
  shows "\<exists>c db'. reserveCommand env1 (Ts 5) db = Inr (Some c, db') \<and> queue_with [c] db' \<and>
     (past_deadline (Ts 5) (cmd0 dl) \<longrightarrow> dc_state c = CM_failed) \<and>
     (\<not> past_deadline (Ts 5) (cmd0 dl) \<longrightarrow> dc_state c = CM_dispatching \<and> dc_send_started_at c = None \<and> same_identity (cmd0 dl) c \<and> dc_recipient_id c = ''w'')"
proof -
  have e: "earliest (filter (command_due (Ts 5)) (db_commands db)) = Some (cmd0 dl)"
    using assms by (simp add: queue_with_def command_due_def cmd0_sel)
  let ?f = "\<lambda>c. c\<lparr>dc_state := CM_failed, dc_last_error := Some ''deadline exceeded'', dc_terminal_at := Some (now_ts env1)\<rparr>"
  let ?g = "\<lambda>c. c\<lparr>dc_state := CM_dispatching, dc_attempt_count := dc_attempt_count c + 1, dc_dispatch_started_at := Some (Ts 5), dc_send_started_at := None\<rparr>"
  have "\<exists>db'. update_command env1 ''cmd-1'' ?f ''command_failed'' (Some ''deadline exceeded'') db = Inr (?f (cmd0 dl), db') \<and> queue_with [?f (cmd0 dl)] db'"
    by (rule update0 [OF assms]) (simp_all add: cmd0_sel COMMAND_EVENTS_def)
  moreover have "\<exists>db'. update_command env1 ''cmd-1'' ?g ''command_dispatching'' None db = Inr (?g (cmd0 dl), db') \<and> queue_with [?g (cmd0 dl)] db'"
    by (rule update0 [OF assms]) (simp_all add: cmd0_sel COMMAND_EVENTS_def)
  ultimately show ?thesis
    by (cases "past_deadline (Ts 5) (cmd0 dl)") (auto simp: reserveCommand_def e command_transition_def cmd0_sel)
qed

lemma send0:
  assumes "queue_with [c] db" "dc_state c = CM_dispatching" "dc_send_started_at c = None" "same_identity (cmd0 dl) c" "dc_recipient_id c = ''w''"
  shows "\<exists>c' db'. markSendStarted env1 ''cmd-1'' db = Inr (c', db') \<and> same_identity (cmd0 dl) c'"
proof -
  have sel: "dc_command_id c = ''cmd-1''" "dc_run_id c = ''run-1''" "dc_session_id c = Some ''s1''"
    using assms(4) cmd0_sel [of dl] by (simp_all add: same_identity_def)
  obtain r where r: "command_run ''run-1'' db = Inr r" "active_state (rn_state r)" using queue_run [OF assms(1)] by blast
  obtain db' where "update_command env1 ''cmd-1'' (\<lambda>c. c\<lparr>dc_send_started_at := Some (now_ts env1)\<rparr>) ''command_send_started'' None db =
      Inr (c\<lparr>dc_send_started_at := Some (now_ts env1)\<rparr>, db')"
    using update0 [OF assms(1) sel(1,2) assms(5), of "''command_send_started''" "\<lambda>c. c\<lparr>dc_send_started_at := Some (now_ts env1)\<rparr>" None]
    by (auto simp: COMMAND_EVENTS_def)
  then show ?thesis
    using queue_row [OF assms(1) sel(1)] r queue_session [OF assms(1)] sel assms(2,3,4,5)
    by (simp add: markSendStarted_def session_row_of_def session0_def same_identity_def)
qed

lemma no_commands_queue: "dl_db (no_commands queue_db) = queue_db" "dl_issued (no_commands queue_db) = []" "dl_sent (no_commands queue_db) = []"
  by (simp_all add: no_commands_def queue_db_def runs_db'_def runs_db_def empty_db_def)

theorem side_effects_sent_at_most_once_witness:
  "\<exists>d x. delivery_step\<^sup>*\<^sup>* (no_commands queue_db) d \<and> dl_sent d = [x] \<and> dc_side_effecting x \<and>
     sends (dc_command_id x) (dl_sent d) = 1"
proof -
  obtain db1 where 1: "enqueueCommand env1 ''1'' None (input0 None) queue_db = Inr (cmd0 None, db1)" "queue_with [cmd0 None] db1"
    using enqueue0 [OF queue_empty, of None] by auto
  obtain c db2 where 2: "reserveCommand env1 (Ts 5) db1 = Inr (Some c, db2)" "queue_with [c] db2"
    "dc_state c = CM_dispatching" "dc_send_started_at c = None" "same_identity (cmd0 None) c" "dc_recipient_id c = ''w''"
    using reserve0 [OF 1(2)] by (auto simp: past_deadline_def cmd0_sel)
  obtain c' db3 where 3: "markSendStarted env1 ''cmd-1'' db2 = Inr (c', db3)" "same_identity (cmd0 None) c'"
    using send0 [OF 2(2-6)] by blast
  let ?d0 = "no_commands queue_db"
  let ?d1 = "?d0\<lparr>dl_db := db1, dl_issued := dl_issued ?d0 @ [''cmd-'' @ ''1'']\<rparr>"
  let ?d2 = "?d1\<lparr>dl_db := db2\<rparr>"
  let ?d3 = "?d2\<lparr>dl_db := db3, dl_sent := dl_sent ?d2 @ [c']\<rparr>"
  have "delivery_step ?d0 ?d1" by (rule delivery_step.enqueue [of env1 _ None "input0 None"]) (use 1 in \<open>simp_all add: no_commands_queue\<close>)
  moreover have "delivery_step ?d1 ?d2" by (rule delivery_step.reserve [of env1 "Ts 5"]) (use 2 in simp)
  moreover have "delivery_step ?d2 ?d3" by (rule delivery_step.send [of env1 "''cmd-1''"]) (use 3 in simp)
  ultimately have steps: "delivery_step\<^sup>*\<^sup>* ?d0 ?d3" by (meson rtranclp.rtrancl_into_rtrancl rtranclp.rtrancl_refl)
  have "dl_sent ?d3 = [c']" "dc_side_effecting c'" using 3(2) by (simp_all add: no_commands_queue same_identity_def cmd0_sel)
  with side_effects_sent_at_most_once [OF steps] steps show ?thesis by (intro exI [of _ ?d3] exI [of _ c']) auto
qed

theorem finished_commands_are_final_witness:
  "\<exists>d c. delivery_step\<^sup>*\<^sup>* (no_commands queue_db) d \<and> c \<in> set (db_commands (dl_db d)) \<and> dc_state c = CM_failed \<and>
     (\<forall>db' r. reserveCommand env1 (Ts 9) (dl_db d) = Inr (r, db') \<longrightarrow>
        (\<forall>c' \<in> set (db_commands db'). dc_command_id c' = dc_command_id c \<longrightarrow> c' = c))"
proof -
  obtain db1 where 1: "enqueueCommand env1 ''1'' None (input0 (Some (Ts 2))) queue_db = Inr (cmd0 (Some (Ts 2)), db1)" "queue_with [cmd0 (Some (Ts 2))] db1"
    using enqueue0 [OF queue_empty, of "Some (Ts 2)"] by (auto simp: ts_finite_def)
  obtain c db2 where 2: "reserveCommand env1 (Ts 5) db1 = Inr (Some c, db2)" "queue_with [c] db2" "dc_state c = CM_failed"
    using reserve0 [OF 1(2)] by (auto simp: past_deadline_def cmd0_sel)
  let ?d0 = "no_commands queue_db"
  let ?d1 = "?d0\<lparr>dl_db := db1, dl_issued := dl_issued ?d0 @ [''cmd-'' @ ''1'']\<rparr>"
  let ?d2 = "?d1\<lparr>dl_db := db2\<rparr>"
  have "delivery_step ?d0 ?d1" by (rule delivery_step.enqueue [of env1 _ None "input0 (Some (Ts 2))"]) (use 1 in \<open>simp_all add: no_commands_queue\<close>)
  moreover have "delivery_step ?d1 ?d2" by (rule delivery_step.reserve [of env1 "Ts 5"]) (use 2 in simp)
  ultimately have steps: "delivery_step\<^sup>*\<^sup>* ?d0 ?d2" by (meson rtranclp.rtrancl_into_rtrancl rtranclp.rtrancl_refl)
  have cin: "c \<in> set (db_commands (dl_db ?d2))" "TERMINAL (dc_state c)" using 2 by (simp_all add: queue_with_def)
  have "\<forall>c' \<in> set (db_commands db'). dc_command_id c' = dc_command_id c \<longrightarrow> c' = c"
    if "reserveCommand env1 (Ts 9) (dl_db ?d2) = Inr (r, db')" for r db'
    using finished_commands_are_final [OF steps _ cin, of "?d2\<lparr>dl_db := db'\<rparr>"] delivery_step.reserve [OF that] by auto
  with steps cin 2(3) show ?thesis by (intro exI [of _ ?d2] exI [of _ c]) auto
qed

theorem enqueue_is_idempotent_witness:
  "\<exists>c db1. enqueueCommand env1 ''1'' None (input0 None) queue_db = Inr (c, db1) \<and>
     enqueueCommand env1 ''2'' None (input0 None) db1 = Inr (c, db1)"
proof -
  obtain db1 where 1: "enqueueCommand env1 ''1'' None (input0 None) queue_db = Inr (cmd0 None, db1)"
    using enqueue0 [OF queue_empty, of None] by auto
  from enqueue_is_idempotent [OF 1, of env1 "''2''"] 1 show ?thesis by blast
qed

theorem sweep_leaves_no_orphan_witness:
  "\<exists>db1. enqueueCommand env1 ''1'' None (input0 None) queue_db = Inr (cmd0 None, db1) \<and>
     reconcileCommands env1 (Ts 5) 30000 db1 = Inr ([], db1) \<and> deliverable (Ts 5) db1 (cmd0 None)"
proof -
  obtain db1 where 1: "enqueueCommand env1 ''1'' None (input0 None) queue_db = Inr (cmd0 None, db1)" "queue_with [cmd0 None] db1"
    using enqueue0 [OF queue_empty, of None] by auto
  obtain r where r: "command_run ''run-1'' db1 = Inr r" "active_state (rn_state r)" using queue_run [OF 1(2)] by blast
  have s: "find_session (Some ''s1'') db1 = Some (session_row_of session0)" "ss_state (session_row_of session0) = SS_running"
    using 1(2) by (simp_all add: queue_with_def find_session_def queue_db_def session_row_of_def session0_def)
  have rc: "reconcileCommands env1 (Ts 5) 30000 db1 = Inr ([], db1)"
    using 1(2) r s by (simp add: reconcileCommands_def queue_with_def cmd0_sel reconcile_command_def past_deadline_def
        reconcile_stalled_def reconcile_exited_def)
  have "commands_distinct db1" using 1(2) by (simp add: queue_with_def commands_distinct_def)
  from sweep_leaves_no_orphan [OF rc this] have "deliverable (Ts 5) db1 (cmd0 None)" using 1(2) by (simp add: queue_with_def cmd0_sel)
  with 1(1) rc show ?thesis by blast
qed

definition idle_transport :: command_transport where
  "idle_transport = \<lparr>tp_isBusy = (\<lambda>_. Inr False), tp_isAlive = (\<lambda>_. Inr True), tp_send = (\<lambda>_. Inl ''EPIPE''), tp_acknowledges = False\<rparr>"

theorem tick_ends_witness:
  "\<exists>db1 r. enqueueCommand env1 ''1'' None (input0 None) queue_db = Inr (cmd0 None, db1) \<and>
     dispatcher_tick 2 False env1 idle_transport db1 = Some r"
proof -
  obtain db1 where 1: "enqueueCommand env1 ''1'' None (input0 None) queue_db = Inr (cmd0 None, db1)" "queue_with [cmd0 None] db1"
    using enqueue0 [OF queue_empty, of None] by auto
  then have "commands_distinct db1" "length (db_commands db1) < 2" by (simp_all add: queue_with_def commands_distinct_def)
  from tick_ends [OF this] 1(1) show ?thesis by blast
qed

end
