(* ===== verification/Agent_Registry.thy ===== *)
theory Agent_Registry
  imports Claim_Manager
begin

text \<open>
  \<^verbatim>\<open>lib/agentRegistry.ts\<close>, \<^verbatim>\<open>lib/agentActivity.ts\<close>, \<^verbatim>\<open>lib/workerSlots.ts\<close>, the session cleanup of
  \<^verbatim>\<open>lib/workerRuntime.ts\<close> and \<^verbatim>\<open>cleanupRunCapacity\<close> of \<^verbatim>\<open>coordinator.ts\<close>: the agents file, whose session
  tokens come from the session table, and the operations that register, update and remove agents
  and close their sessions. Stopping the provider process itself is an adapter's effect and not
  part of the state.
\<close>

section \<open>The registry (agentRegistry.ts)\<close>

definition PROVIDERS :: "string list" where
  "PROVIDERS = [''codex'', ''claude'', ''gemini'']"

definition isSupportedProvider :: "string \<Rightarrow> bool" where
  "isSupportedProvider p \<longleftrightarrow> p \<in> set PROVIDERS"

text \<open>
  \<^verbatim>\<open>readAgentsFile\<close> and \<^verbatim>\<open>readAgents\<close> of \<^verbatim>\<open>lib/stateReader.ts\<close> do the same: the file with the session
  tokens of the session table laid over it, and no agents when either cannot be read.
\<close>

definition readAgentsFile :: "env \<Rightarrow> orc_state \<Rightarrow> Agent list \<times> orc_state" where
  "readAgentsFile e st = readAgents e st"

record AgentDefinition =
  ad_agent_id :: string
  ad_provider :: string
  ad_role :: "string option"
  ad_dispatch_mode :: "string option"
  ad_capabilities :: "string list option"
  ad_provider_ref :: "string option"
  ad_ephemeral :: bool

definition check_agent_definition :: "AgentDefinition \<Rightarrow> unit result" where
  "check_agent_definition d =
     (if ad_agent_id d = [] then Inl (PlainError ''agent_id is required'')
      else if ad_provider d = [] then Inl (PlainError ''provider is required'')
      else if \<not> AGENT_ID_RE (ad_agent_id d) then Inl (PlainError (''Invalid agent_id: '' @ ad_agent_id d))
      else if \<not> isSupportedProvider (ad_provider d) then Inl (PlainError (''Unsupported provider: '' @ ad_provider d))
      else if or_default (ad_role d) ''worker'' \<notin> set AGENT_ROLES
      then Inl (PlainError (''Unsupported role: '' @ or_default (ad_role d) ''worker''))
      else if list_ex (\<lambda>c. \<not> AGENT_ID_RE c) (or_default (ad_capabilities d) [])
      then Inl (PlainError ''capabilities must be an array of kebab-case strings'')
      else Inr ())"

definition agent_entry :: "env \<Rightarrow> AgentDefinition \<Rightarrow> Agent" where
  "agent_entry e d =
     \<lparr>a_agent_id = ad_agent_id d, a_provider = ad_provider d, a_status = AS_idle,
      a_role = Some (or_default (ad_role d) ''worker''), a_capabilities = Some (or_default (ad_capabilities d) []),
      a_session_handle = None, a_session_token = None, a_session_started_at = None, a_session_ready_at = None,
      a_provider_ref = ad_provider_ref d, a_registered_at = now_ts e, a_last_heartbeat_at = None,
      a_last_status_change_at = None, a_dispatch_mode = ad_dispatch_mode d, a_ephemeral = ad_ephemeral d,
      a_model = None\<rparr>"

definition registerAgent :: "env \<Rightarrow> AgentDefinition \<Rightarrow> orc_state \<Rightarrow> Agent outcome" where
  "registerAgent e d st =
     (case check_agent_definition d of
        Inl err \<Rightarrow> (Inl err, st)
      | Inr _ \<Rightarrow>
          (let (agents, st0) = readAgentsFile e st in
           if ad_agent_id d \<in> set (map a_agent_id agents)
           then (Inl (PlainError (''Agent already registered: '' @ ad_agent_id d)), st0)
           else (Inr (agent_entry e d), st0\<lparr>st_agents_json := Some (agents @ [agent_entry e d])\<rparr>)))"

text \<open>
  The writable fields of \<^verbatim>\<open>Partial<Agent>\<close>: \<open>None\<close> is a field the update leaves out, \<open>Some None\<close> one it
  sets to \<^verbatim>\<open>null\<close>.
\<close>

record agent_updates =
  au_status :: "AgentStatus option"
  au_session_handle :: "string option option"
  au_session_token :: "string option option"
  au_session_started_at :: "timestamp option option"
  au_session_ready_at :: "timestamp option option"
  au_provider_ref :: "string option option"
  au_last_heartbeat_at :: "timestamp option option"
  au_last_status_change_at :: "timestamp option option"

definition no_updates :: agent_updates where
  "no_updates = \<lparr>au_status = None, au_session_handle = None, au_session_token = None, au_session_started_at = None,
     au_session_ready_at = None, au_provider_ref = None, au_last_heartbeat_at = None, au_last_status_change_at = None\<rparr>"

definition assign_updates :: "agent_updates \<Rightarrow> Agent \<Rightarrow> Agent" where
  "assign_updates u a =
     a\<lparr>a_status := or_default (au_status u) (a_status a),
       a_session_handle := or_default (au_session_handle u) (a_session_handle a),
       a_session_token := or_default (au_session_token u) (a_session_token a),
       a_session_started_at := or_default (au_session_started_at u) (a_session_started_at a),
       a_session_ready_at := or_default (au_session_ready_at u) (a_session_ready_at a),
       a_provider_ref := or_default (au_provider_ref u) (a_provider_ref a),
       a_last_heartbeat_at := or_default (au_last_heartbeat_at u) (a_last_heartbeat_at a),
       a_last_status_change_at := or_default (au_last_status_change_at u) (a_last_status_change_at a)\<rparr>"

definition closes_sessions :: "agent_updates \<Rightarrow> bool" where
  "closes_sessions u \<longleftrightarrow>
     au_session_handle u = Some None \<or> au_status u = Some AS_offline \<or> au_status u = Some AS_dead"

definition close_agent_sessions :: "env \<Rightarrow> string \<Rightarrow> orc_state \<Rightarrow> unit outcome" where
  "close_agent_sessions e agentId st =
     (case closeProviderSessionsForAgent e (st_claims_json st) (st_agents_json st) agentId (now_ts e) (st_db st) of
        Inl err \<Rightarrow> (Inl err, st)
      | Inr db \<Rightarrow> (Inr (), st\<lparr>st_db := db\<rparr>))"

definition updateAgentRuntime :: "env \<Rightarrow> string \<Rightarrow> agent_updates \<Rightarrow> orc_state \<Rightarrow> unit outcome" where
  "updateAgentRuntime e agentId updates st =
     (let (agents, st0) = readAgentsFile e st in
      if agentId \<notin> set (map a_agent_id agents) then (Inl (PlainError (''Agent not found: '' @ agentId)), st0)
      else obind (if closes_sessions updates then close_agent_sessions e agentId st0 else (Inr (), st0)) (\<lambda>_ st1.
        (Inr (), st1\<lparr>st_agents_json :=
           Some (update_first (\<lambda>a. a_agent_id a = agentId) (assign_updates updates) agents)\<rparr>)))"

definition getAgent :: "env \<Rightarrow> string \<Rightarrow> orc_state \<Rightarrow> Agent option" where
  "getAgent e agentId st = List.find (\<lambda>a. a_agent_id a = agentId) (fst (readAgentsFile e st))"

definition listAgents :: "env \<Rightarrow> orc_state \<Rightarrow> Agent list" where
  "listAgents e st = fst (readAgentsFile e st)"

definition removeAgent :: "env \<Rightarrow> string \<Rightarrow> orc_state \<Rightarrow> unit outcome" where
  "removeAgent e agentId st =
     (let (agents, st0) = readAgentsFile e st in
      obind (close_agent_sessions e agentId st0) (\<lambda>_ st1.
        (Inr (), st1\<lparr>st_agents_json := Some (filter (\<lambda>a. a_agent_id a \<noteq> agentId) agents)\<rparr>)))"

text \<open>
  \<^verbatim>\<open>/^scout-(\d+)$/\<close> and \<^verbatim>\<open>Number(match[1])\<close>. The number is exact, as a JavaScript number is below
  \<open>2 ^ 53\<close>.
\<close>

fun digits_value :: "nat \<Rightarrow> string \<Rightarrow> nat" where
  "digits_value acc [] = acc"
| "digits_value acc (c # cs) = digits_value (10 * acc + (char_code c - 48)) cs"

definition numbered_name :: "string \<Rightarrow> string \<Rightarrow> nat option" where
  "numbered_name prefix s =
     (let rest = drop (length prefix) s in
      if starts_with prefix s \<and> rest \<noteq> [] \<and> list_all is_digit rest then Some (digits_value 0 rest) else None)"

definition used_scout_numbers :: "Agent list \<Rightarrow> nat list" where
  "used_scout_numbers agents =
     filter (\<lambda>n. 0 < n) (List.map_filter (\<lambda>a. numbered_name ''scout-'' (a_agent_id a)) agents)"

text \<open>\<^verbatim>\<open>while (used.has(candidate)) candidate += 1\<close>\<close>

function first_free :: "nat list \<Rightarrow> nat \<Rightarrow> nat" where
  "first_free used n = (if n \<in> set used then first_free used (n + 1) else n)"
  by pat_completeness auto
termination
proof (relation "measure (\<lambda>(used, n). card {m \<in> set used. n \<le> m})")
  fix used :: "nat list" and n
  assume "n \<in> set used"
  then have "n \<in> {m \<in> set used. n \<le> m}" "n \<notin> {m \<in> set used. n + 1 \<le> m}" by simp_all
  moreover have "{m \<in> set used. n + 1 \<le> m} \<subseteq> {m \<in> set used. n \<le> m}" by (intro Collect_mono) simp
  ultimately have "{m \<in> set used. n + 1 \<le> m} \<subset> {m \<in> set used. n \<le> m}" by blast
  then have "card {m \<in> set used. n + 1 \<le> m} < card {m \<in> set used. n \<le> m}"
    by (intro psubset_card_mono) simp_all
  then show "((used, n + 1), (used, n)) \<in> measure (\<lambda>(used, n). card {m \<in> set used. n \<le> m})"
    by (simp only: in_measure split)
qed simp

declare first_free.simps [simp del]

definition nextAvailableScoutId :: "env \<Rightarrow> orc_state \<Rightarrow> string" where
  "nextAvailableScoutId e st = ''scout-'' @ show_nat (first_free (used_scout_numbers (listAgents e st)) 1)"

text \<open>\<^verbatim>\<open>isManagedSlot\<close> of \<^verbatim>\<open>lib/workerSlots.ts\<close>.\<close>

definition isManagedSlot :: "string \<Rightarrow> nat \<Rightarrow> bool" where
  "isManagedSlot agentId maxWorkers =
     (case numbered_name ''orc-'' agentId of None \<Rightarrow> False | Some n \<Rightarrow> 1 \<le> n \<and> n \<le> maxWorkers)"

section \<open>Runtime state of a worker (agentActivity.ts, workerRuntime.ts)\<close>

definition recordAgentActivity :: "env \<Rightarrow> string \<Rightarrow> timestamp \<Rightarrow> AgentStatus \<Rightarrow> orc_state \<Rightarrow> bool outcome" where
  "recordAgentActivity e agentId at status st =
     (case updateAgentRuntime e agentId (no_updates\<lparr>au_status := Some status, au_last_heartbeat_at := Some (Some at)\<rparr>) st of
        (Inr _, st') \<Rightarrow> (Inr True, st')
      | (Inl (PlainError m), st') \<Rightarrow>
          if starts_with ''Agent not found:'' m then (Inr False, st') else (Inl (PlainError m), st')
      | (Inl err, st') \<Rightarrow> (Inl err, st'))"

definition clearWorkerSessionRuntime :: "env \<Rightarrow> string \<Rightarrow> AgentStatus \<Rightarrow> orc_state \<Rightarrow> unit outcome" where
  "clearWorkerSessionRuntime e agentId status st =
     updateAgentRuntime e agentId
       (no_updates\<lparr>au_status := Some status, au_session_handle := Some None, au_session_token := Some None,
          au_session_started_at := Some None, au_session_ready_at := Some None, au_provider_ref := Some None,
          au_last_status_change_at := Some (Some (now_ts e))\<rparr>) st"

definition upper_char :: "char \<Rightarrow> char" where
  "upper_char c = (if is_lower c then char_of (char_code c - 32) else c)"

definition markWorkerOffline :: "env \<Rightarrow> string \<Rightarrow> string \<Rightarrow> payload \<Rightarrow> orc_state \<Rightarrow> unit outcome" where
  "markWorkerOffline e agentId reason payload st =
     obind (clearWorkerSessionRuntime e agentId AS_offline st) (\<lambda>_ st1.
       appendEventTo e (mk_event (now_ts e) ''agent_offline'' ''coordinator'' ''coordinator'' None None (Some agentId)
         (Some ([(''reason'', JStr reason), (''code'', JStr (''ERR_'' @ map upper_char reason))] @ payload))) st1)"

text \<open>
  \<^verbatim>\<open>getAdapter\<close> and \<^verbatim>\<open>stopAgentSession\<close> of \<^verbatim>\<open>coordinator.ts\<close>: an adapter exists for the supported
  providers only; the stop itself is best effort.
\<close>

definition getAdapter :: "string \<Rightarrow> unit result" where
  "getAdapter provider =
     (if isSupportedProvider provider then Inr ()
      else Inl (PlainError (''Unknown provider: '' @ provider @ ''. Supported: claude, codex, gemini'')))"

definition stopAgentSession :: "Agent \<Rightarrow> unit result" where
  "stopAgentSession agent = (if falsy (a_session_handle agent) then Inr () else getAdapter (a_provider agent))"

text \<open>
  \<^verbatim>\<open>cleanupRunCapacity\<close> of \<^verbatim>\<open>coordinator.ts\<close>: the session is stopped through its adapter, whose failure
  is ignored; ephemeral workers are removed, the others lose their session.
\<close>

definition cleanupRunCapacity :: "env \<Rightarrow> nat \<Rightarrow> string \<Rightarrow> string option \<Rightarrow> orc_state \<Rightarrow> unit outcome" where
  "cleanupRunCapacity e maxWorkers agentId offlineReason st =
     (case getAgent e agentId st of
        None \<Rightarrow> (Inr (), snd (readAgentsFile e st))
      | Some agent \<Rightarrow>
          (let st1 = snd (readAgentsFile e st) in
           case stopAgentSession agent of
             Inl err \<Rightarrow> (Inl err, st1)
           | Inr _ \<Rightarrow>
               if a_ephemeral agent then removeAgent e agentId st1
               else if truthy offlineReason \<and> \<not> isManagedSlot agentId maxWorkers
               then markWorkerOffline e agentId (the offlineReason) [] st1
               else if a_status agent = AS_offline \<and> \<not> isManagedSlot agentId maxWorkers
               then clearWorkerSessionRuntime e agentId AS_offline st1
               else clearWorkerSessionRuntime e agentId AS_idle st1))"

section \<open>Identifiers are unique\<close>

definition registry_inv :: "orc_state \<Rightarrow> bool" where
  "registry_inv st \<longleftrightarrow> distinct (map a_agent_id (or_default (st_agents_json st) []))"

lemma overlay_ids [simp]: "map a_agent_id (overlay_sessions ss agents) = map a_agent_id agents"
  by (simp add: overlay_sessions_def comp_def split: option.split cong: map_cong)

lemma readAgentsFile_cases:
  obtains "readAgentsFile e st = ([], st)"
  | agents ss db where "st_agents_json st = Some agents" "readAgentsFile e st = (overlay_sessions ss agents, st\<lparr>st_db := db\<rparr>)"
proof (cases "st_agents_json st")
  case None
  then show ?thesis using that(1) by (simp add: readAgentsFile_def readAgents_def)
next
  case (Some agents)
  show ?thesis
  proof (cases "withAuthoritativeAgentSessions e (st_claims_json st) (st_agents_json st) agents (st_db st)")
    case (Inl err)
    with Some show ?thesis using that(1) by (simp add: readAgentsFile_def readAgents_def)
  next
    case (Inr r)
    then obtain db where "r = (overlay_sessions (db_sessions db) agents, db)"
      by (auto simp: withAuthoritativeAgentSessions_def rbind_Inr_iff)
    with Some Inr show ?thesis using that(2) by (simp add: readAgentsFile_def readAgents_def)
  qed
qed

lemma read_distinct: "registry_inv st \<Longrightarrow> readAgentsFile e st = (agents, st0) \<Longrightarrow> distinct (map a_agent_id agents)"
  by (rule readAgentsFile_cases [of e st]) (auto simp: registry_inv_def)

lemma read_keeps_registry: "registry_inv st \<Longrightarrow> readAgentsFile e st = (agents, st0) \<Longrightarrow> registry_inv st0"
  by (rule readAgentsFile_cases [of e st]) (auto simp: registry_inv_def)

lemma assign_updates_id [simp]: "a_agent_id (assign_updates u a) = a_agent_id a"
  by (simp add: assign_updates_def)

lemma close_agent_sessions_agents [simp]: "st_agents_json (snd (close_agent_sessions e i st)) = st_agents_json st"
  by (simp add: close_agent_sessions_def split: sum.split)

lemma registerAgent_inv: "registry_inv st \<Longrightarrow> registry_inv (snd (registerAgent e d st))"
  using read_distinct [of st e] read_keeps_registry [of st e]
  by (cases "readAgentsFile e st")
    (auto simp: registerAgent_def registry_inv_def agent_entry_def Let_def split: sum.split)

lemma updateAgentRuntime_inv: "registry_inv st \<Longrightarrow> registry_inv (snd (updateAgentRuntime e i u st))"
proof (cases "readAgentsFile e st")
  case (Pair agents st0)
  assume inv: "registry_inv st"
  note d = read_distinct [OF inv Pair] and k = read_keeps_registry [OF inv Pair]
  obtain r st1 where c: "(if closes_sessions u then close_agent_sessions e i st0 else (Inr (), st0)) = (r, st1)"
    by (cases "if closes_sessions u then close_agent_sessions e i st0 else (Inr (), st0)")
  have "st_agents_json st1 = st_agents_json st0"
    using arg_cong [OF c, of "\<lambda>x. st_agents_json (snd x)"] by (simp split: if_splits)
  moreover have "map a_agent_id (update_first (\<lambda>a. a_agent_id a = i) (assign_updates u) agents) = map a_agent_id agents"
    by (rule map_update_first_same) simp
  ultimately show ?thesis
    using d k Pair c by (cases r) (simp_all add: updateAgentRuntime_def registry_inv_def)
qed

lemma removeAgent_inv: "registry_inv st \<Longrightarrow> registry_inv (snd (removeAgent e i st))"
proof (cases "readAgentsFile e st")
  case (Pair agents st0)
  assume inv: "registry_inv st"
  note d = read_distinct [OF inv Pair] and k = read_keeps_registry [OF inv Pair]
  obtain r st1 where c: "close_agent_sessions e i st0 = (r, st1)" by (cases "close_agent_sessions e i st0")
  have "st_agents_json st1 = st_agents_json st0"
    using arg_cong [OF c, of "\<lambda>x. st_agents_json (snd x)"] by simp
  with d k Pair c show ?thesis
    by (cases r) (simp_all add: removeAgent_def registry_inv_def distinct_map_filter)
qed

section \<open>Scout numbers\<close>

lemma first_free_not_used: "first_free used n \<notin> set used"
proof (induction used n rule: first_free.induct)
  case (1 used n)
  then show ?case by (cases "n \<in> set used") (simp_all add: first_free.simps [of used n])
qed

lemma first_free_ge: "n \<le> first_free used n"
proof (induction used n rule: first_free.induct)
  case (1 used n)
  then show ?case by (cases "n \<in> set used") (simp_all add: first_free.simps [of used n])
qed

lemma digits_value_append: "digits_value acc (xs @ ys) = digits_value (digits_value acc xs) ys"
  by (induction xs arbitrary: acc) auto

lemma digit_char: "d < 10 \<Longrightarrow> char_code (char_of (48 + d)) = 48 + (d::nat)"
  by (simp add: char_code_def)

lemma show_nat_digits: "list_all is_digit (show_nat n) \<and> show_nat n \<noteq> []"
proof (induction n rule: show_nat.induct)
  case (1 n)
  have "n mod 10 \<le> 9" by (rule less_Suc_eq_le [THEN iffD1]) simp
  with 1 show ?case
    using digit_char [of "n mod 10"] by (simp add: show_nat.simps [of n] is_digit_def digit_char)
qed

lemma digits_value_show: "digits_value 0 (show_nat n) = n"
proof (induction n rule: show_nat.induct)
  case (1 n)
  then show ?case
    using digit_char [of "n mod 10"]
    by (simp add: show_nat.simps [of n] digits_value_append digit_char)
qed

lemma numbered_name_roundtrip: "numbered_name prefix (prefix @ show_nat n) = Some n"
  using show_nat_digits [of n] by (simp add: numbered_name_def digits_value_show)

lemma numbered_in_used:
  "a \<in> set agents \<Longrightarrow> numbered_name ''scout-'' (a_agent_id a) = Some n \<Longrightarrow> 0 < n \<Longrightarrow> n \<in> set (used_scout_numbers agents)"
  by (force simp: used_scout_numbers_def map_filter_def)

section \<open>Closing an agent's sessions\<close>

definition no_live_session :: "string \<Rightarrow> runtime_db \<Rightarrow> bool" where
  "no_live_session agentId db \<longleftrightarrow> (\<forall>s \<in> set (db_sessions db). ss_agent_id s = agentId \<longrightarrow> ss_state s = SS_offline)"

lemma no_live_session_cong: "db_sessions db = db_sessions db' \<Longrightarrow> no_live_session i db = no_live_session i db'"
  by (simp add: no_live_session_def)

lemma close_sessions_offline:
  assumes "s \<in> set (close_sessions (\<lambda>s. ss_agent_id s = i) why at ss)" and "ss_agent_id s = i"
  shows "ss_state s = SS_offline"
  using in_set_update_whereD [OF assms(1) [unfolded close_sessions_def]]
proof
  assume "s \<in> set ss \<and> \<not> (ss_agent_id s = i \<and> ss_state s \<noteq> SS_offline)"
  with assms(2) show ?thesis by blast
next
  assume "\<exists>x \<in> set ss. (ss_agent_id x = i \<and> ss_state x \<noteq> SS_offline) \<and>
    s = x\<lparr>ss_state := SS_offline, ss_state_reason := Some why, ss_updated_at := at\<rparr>"
  then show ?thesis by (elim bexE conjE) simp
qed

lemma close_agent_sessions_closed:
  assumes "close_agent_sessions e i st = (Inr (), st')"
  shows "no_live_session i (st_db st')"
proof -
  from assms obtain db where c: "closeProviderSessionsForAgent e (st_claims_json st) (st_agents_json st) i (now_ts e) (st_db st) = Inr db"
      and st': "st' = st\<lparr>st_db := db\<rparr>"
    by (cases "closeProviderSessionsForAgent e (st_claims_json st) (st_agents_json st) i (now_ts e) (st_db st)")
      (simp_all add: close_agent_sessions_def)
  from c obtain db1 where "db = db1\<lparr>db_sessions := close_sessions (\<lambda>s. ss_agent_id s = i) ''session closed'' (now_ts e) (db_sessions db1)\<rparr>"
    unfolding closeProviderSessionsForAgent_def rbind_Inr_iff by blast
  with st' show ?thesis by (auto simp: no_live_session_def dest: close_sessions_offline)
qed

lemma updateAgentRuntime_closed:
  assumes u: "updateAgentRuntime e i u st = (Inr (), st')" and c: "closes_sessions u"
  shows "no_live_session i (st_db st')"
proof (cases "readAgentsFile e st")
  case (Pair agents st0)
  obtain r st1 where close: "close_agent_sessions e i st0 = (r, st1)" by (cases "close_agent_sessions e i st0")
  with u c Pair have "r = Inr ()" "st_db st' = st_db st1"
    by (cases r; auto simp: updateAgentRuntime_def split: if_splits)+
  with close show ?thesis by (auto dest: close_agent_sessions_closed)
qed

lemma removeAgent_closed: "removeAgent e i st = (Inr (), st') \<Longrightarrow> no_live_session i (st_db st')"
  using close_agent_sessions_closed [of e i]
  by (auto simp: removeAgent_def obind_Inr split: prod.splits)

lemma clear_closed: "clearWorkerSessionRuntime e i s st = (Inr (), st') \<Longrightarrow> no_live_session i (st_db st')"
  unfolding clearWorkerSessionRuntime_def
  by (erule updateAgentRuntime_closed) (simp add: closes_sessions_def)

lemma appendEventTo_sessions: "db_sessions (st_db (snd (appendEventTo e ev st))) = db_sessions (st_db st)"
  by (auto simp: appendEventTo_def append_event_frame split: sum.split)

lemma markWorkerOffline_closed:
  assumes "markWorkerOffline e i r p st = (Inr (), st')"
  shows "no_live_session i (st_db st')"
proof -
  from assms obtain st1 ev where c: "clearWorkerSessionRuntime e i AS_offline st = (Inr (), st1)"
      and a: "appendEventTo e ev st1 = (Inr (), st')"
    by (auto simp: markWorkerOffline_def obind_Inr)
  have "db_sessions (st_db st') = db_sessions (st_db st1)"
    using appendEventTo_sessions [of e ev st1] a by simp
  with clear_closed [OF c] show ?thesis by (simp add: no_live_session_def)
qed

lemma cleanup_closed:
  assumes "cleanupRunCapacity e m i r st = (Inr (), st')" and "getAgent e i st \<noteq> None"
  shows "no_live_session i (st_db st')"
  using assms
  by (auto simp: cleanupRunCapacity_def Let_def split: if_splits sum.splits
      intro: removeAgent_closed markWorkerOffline_closed clear_closed)

end
