(* ===== verification/Lifecycle.thy ===== *)
theory Lifecycle
  imports Agent_Registry
begin

text \<open>
  The lifecycle of a run as its worker reports it: the pure reducer of
  \<^verbatim>\<open>lib/workerLifecycleReducer.ts\<close>, the argument checks of \<^verbatim>\<open>lib/progressValidation.ts\<close>, the
  coordinator's application of a reducer action to the claim and the agent
  (\<^verbatim>\<open>processTerminalRunEvents\<close> in \<^verbatim>\<open>coordinator.ts\<close>), and the requests a worker sends
  (\<^verbatim>\<open>lib/workerLifecycle.ts\<close>).
\<close>

section \<open>The lifecycle reducer (workerLifecycleReducer.ts)\<close>

record LifecycleEventInput =
  le_event :: string
  le_run_id :: "string option"
  le_agent_id :: "string option"
  le_task_ref :: "string option"
  le_ts :: "timestamp option"
  le_actor_type :: "string option"
  le_payload :: "payload option"

datatype LifecycleAction =
    start_run timestamp
  | heartbeat_action timestamp int
  | advance_finalization FinalizationState int "string option" "int option"
  | clear_input_state
  | set_input_state timestamp
  | finish_run bool "string option" "string option" string timestamp
  | noop string

definition PHASE_EVENTS :: "string list" where
  "PHASE_EVENTS =
     [''phase_started'', ''phase_finished'', ''blocked'', ''need_input'', ''input_provided'', ''unblocked'',
      ''review_submitted'']"

definition coerceEventTs :: "timestamp option \<Rightarrow> timestamp \<Rightarrow> timestamp" where
  "coerceEventTs ts nowIso = (if ts_truthy ts \<and> ts_finite (the ts) then the ts else nowIso)"

text \<open>
  \<^verbatim>\<open>Math.min\<close> and \<^verbatim>\<open>Math.max\<close> of a NaN are NaN, and \<^verbatim>\<open>toISOString\<close> of an invalid date throws.
\<close>

definition authoritativeTs :: "timestamp \<Rightarrow> timestamp option \<Rightarrow> timestamp \<Rightarrow> timestamp result" where
  "authoritativeTs eventTs floorTs nowIso =
     (let floorMs = (case floorTs of None \<Rightarrow> None | Some f \<Rightarrow> getTime f) in
      case (getTime eventTs, getTime nowIso) of
        (Some eventMs, Some nowMs) \<Rightarrow>
          (let boundedMs = min eventMs nowMs in
           Inr (Ts (case floorMs of None \<Rightarrow> boundedMs | Some f \<Rightarrow> max boundedMs f)))
      | _ \<Rightarrow> Inl (PlainError ''Invalid time value''))"

text \<open>
  \<^verbatim>\<open>typeof event.payload?.key === 'string'\<close>
\<close>

fun json_text :: "json option \<Rightarrow> string option" where
  "json_text (Some (JStr s)) = Some s"
| "json_text (Some (JTime t)) = Some (show_ts t)"
| "json_text _ = None"

definition payload_text :: "payload option \<Rightarrow> string \<Rightarrow> string option" where
  "payload_text p key = (case p of None \<Rightarrow> None | Some kvs \<Rightarrow> json_text (map_of kvs key))"

definition wrong_state :: "Claim option \<Rightarrow> LifecycleAction" where
  "wrong_state claim =
     noop (case claim of None \<Rightarrow> ''no_claim'' | Some c \<Rightarrow> ''wrong_state:'' @ claim_state_str (c_state c))"

text \<open>\<^verbatim>\<open>claim.last_heartbeat_at ?? claim.started_at ?? claim.claimed_at\<close>\<close>

definition activity_floor :: "Claim \<Rightarrow> timestamp" where
  "activity_floor c = or_default (coalesce (c_last_heartbeat_at c) (c_started_at c)) (c_claimed_at c)"

definition finish_floor :: "Claim \<Rightarrow> timestamp" where
  "finish_floor c = or_default (coalesce (c_finished_at c) (c_started_at c)) (c_claimed_at c)"

definition claim_in :: "ClaimState \<Rightarrow> Claim option \<Rightarrow> bool" where
  "claim_in s claim \<longleftrightarrow> (case claim of None \<Rightarrow> False | Some c \<Rightarrow> c_state c = s)"

definition reduceLifecycleEvent ::
  "LifecycleEventInput \<Rightarrow> Claim option \<Rightarrow> timestamp \<Rightarrow> LifecycleAction result" where
  "reduceLifecycleEvent event claim nowIso =
     (let eventTs = coerceEventTs (le_ts event) nowIso; name = le_event event; c = the claim in
      if name = ''input_requested'' then
        if le_actor_type event = Some ''coordinator'' then Inr (noop ''coordinator_self_event'')
        else rbind (authoritativeTs eventTs None nowIso) (\<lambda>at. Inr (set_input_state at))
      else if name = ''run_started'' then
        if \<not> claim_in CS_claimed claim then Inr (wrong_state claim)
        else rbind (authoritativeTs eventTs (Some (c_claimed_at c)) nowIso) (\<lambda>at. Inr (start_run at))
      else if name = ''heartbeat'' then
        if falsy (le_run_id event) \<or> falsy (le_agent_id event) then Inr (noop ''missing_run_or_agent'')
        else if \<not> claim_in CS_in_progress claim then Inr (wrong_state claim)
        else if ts_truthy (c_lease_expires_at c) \<and> date_lt (the (c_lease_expires_at c)) nowIso
        then Inr (noop ''lease_expired'')
        else rbind (authoritativeTs eventTs (Some (activity_floor c)) nowIso)
               (\<lambda>at. Inr (heartbeat_action at DEFAULT_LEASE_MS))
      else if name \<in> set PHASE_EVENTS then
        if \<not> claim_in CS_in_progress claim then Inr (wrong_state claim)
        else rbind (authoritativeTs eventTs (Some (activity_floor c)) nowIso)
               (\<lambda>at. Inr (heartbeat_action at DEFAULT_LEASE_MS))
      else if name = ''finalize_rebase_started'' then
        if \<not> claim_in CS_in_progress claim \<or> c_finalization_state c \<noteq> Some FS_finalize_rebase_requested
        then Inr (noop (case claim of None \<Rightarrow> ''no_claim''
                  | Some c \<Rightarrow> ''wrong_state:'' @ claim_state_str (c_state c) @ ''/'' @ finalization_str (c_finalization_state c)))
        else Inr (advance_finalization FS_finalize_rebase_in_progress 1 None (Some FINALIZE_LEASE_MS))
      else if name = ''input_response'' then Inr clear_input_state
      else if name = ''run_finished'' \<or> name = ''run_failed'' then
        if (case claim of None \<Rightarrow> True | Some c \<Rightarrow> \<not> claim_active c)
        then Inr (noop (case claim of None \<Rightarrow> ''no_claim'' | Some c \<Rightarrow> ''already_terminal:'' @ claim_state_str (c_state c)))
        else rbind (authoritativeTs eventTs (Some (finish_floor c)) nowIso) (\<lambda>at.
               if name = ''run_finished'' then Inr (finish_run True None None ''requeue'' at)
               else Inr (finish_run False (payload_text (le_payload event) ''reason'')
                      (payload_text (le_payload event) ''code'')
                      (or_default (payload_text (le_payload event) ''policy'') ''requeue'') at))
      else if name = ''work_complete'' then
        if \<not> claim_in CS_in_progress claim then Inr (wrong_state claim)
        else if c_finalization_state c \<noteq> None
        then Inr (noop (''finalization_already_started:'' @ finalization_str (c_finalization_state c)))
        else Inr (advance_finalization FS_awaiting_finalize 0 None (Some FINALIZE_LEASE_MS))
      else if name = ''ready_to_merge'' then
        if \<not> claim_in CS_in_progress claim then Inr (wrong_state claim)
        else if c_finalization_state c \<noteq> Some FS_finalize_rebase_in_progress
        then Inr (noop (''wrong_finalization_state:'' @ finalization_str (c_finalization_state c)))
        else Inr (advance_finalization FS_ready_to_merge 0 None (Some FINALIZE_LEASE_MS))
      else Inr (noop (''unhandled_event:'' @ name)))"

section \<open>Progress validation (progressValidation.ts)\<close>

definition SUPPORTED_EVENTS :: "string list" where
  "SUPPORTED_EVENTS =
     [''run_started'', ''heartbeat'', ''review_submitted'', ''work_complete'', ''finalize_rebase_started'',
      ''ready_to_merge'', ''run_finished'', ''run_failed'', ''phase_started'', ''phase_finished'', ''blocked'',
      ''need_input'', ''input_provided'', ''unblocked'']"

definition EVENTS_REQUIRING_PHASE :: "string list" where
  "EVENTS_REQUIRING_PHASE = [''phase_started'', ''phase_finished'']"

definition EVENTS_REQUIRING_REASON :: "string list" where
  "EVENTS_REQUIRING_REASON = [''run_failed'', ''blocked'', ''need_input'']"

definition EVENTS_REQUIRING_IN_PROGRESS :: "string list" where
  "EVENTS_REQUIRING_IN_PROGRESS =
     [''heartbeat'', ''work_complete'', ''finalize_rebase_started'', ''ready_to_merge'', ''run_finished'',
      ''run_failed'', ''phase_started'', ''phase_finished'', ''blocked'', ''need_input'', ''input_provided'',
      ''unblocked'']"

record ProgressInput =
  pi_event :: string
  pi_runId :: string
  pi_agentId :: string
  pi_phase :: "string option"
  pi_reason :: "string option"
  pi_policy :: "string option"

definition valid_policy :: "string option \<Rightarrow> bool" where
  "valid_policy p \<longleftrightarrow> or_default p ''requeue'' \<in> {''requeue'', ''block''}"

text \<open>The checks both validators start with, on the identifiers and the owner of the claim.\<close>

definition check_identity :: "ProgressInput \<Rightarrow> Claim option \<Rightarrow> Claim result" where
  "check_identity i claim =
     (if pi_event i = [] \<or> pi_runId i = [] \<or> pi_agentId i = []
      then Inl (PlainError ''event, run-id, and agent-id are required'')
      else if pi_event i \<notin> set SUPPORTED_EVENTS then Inl (PlainError (''Unsupported event: '' @ pi_event i))
      else if \<not> RUN_ID_RE (pi_runId i) then Inl (PlainError (''Invalid run-id: '' @ pi_runId i))
      else if \<not> AGENT_ID_RE (pi_agentId i) then Inl (PlainError (''Invalid agent-id: '' @ pi_agentId i))
      else case claim of
        None \<Rightarrow> Inl (PlainError (''Run not found in claims: '' @ pi_runId i))
      | Some c \<Rightarrow>
          if c_run_id c \<noteq> pi_runId i then Inl (PlainError (''Claim run_id mismatch: expected '' @ pi_runId i))
          else if c_agent_id c \<noteq> pi_agentId i
          then Inl (PlainError (''Run '' @ pi_runId i @ '' belongs to '' @ c_agent_id c @ '', not '' @ pi_agentId i))
          else Inr c)"

definition check_arguments :: "ProgressInput \<Rightarrow> unit result" where
  "check_arguments i =
     (if pi_event i \<in> set EVENTS_REQUIRING_PHASE \<and> falsy (pi_phase i)
      then Inl (PlainError (''Event '' @ pi_event i @ '' requires --phase=<name>''))
      else if pi_event i \<in> set EVENTS_REQUIRING_REASON \<and> falsy (pi_reason i)
      then Inl (PlainError (''Event '' @ pi_event i @ '' requires --reason=<text>''))
      else if pi_event i = ''run_failed'' \<and> \<not> valid_policy (pi_policy i)
      then Inl (PlainError (''Invalid failure policy: '' @ or_default (pi_policy i) ''null'' @ ''. Use requeue or block.''))
      else Inr ())"

definition validateProgressCommandInput :: "ProgressInput \<Rightarrow> Claim option \<Rightarrow> Claim result" where
  "validateProgressCommandInput i claim =
     rbind (check_identity i claim) (\<lambda>c. rbind (check_arguments i) (\<lambda>_. Inr c))"

definition check_claim_state :: "ProgressInput \<Rightarrow> Claim \<Rightarrow> unit result" where
  "check_claim_state i c =
     (if pi_event i = ''run_started'' \<and> c_state c \<noteq> CS_claimed
      then Inl (PlainError (''run_started requires claim state 'claimed' (got: '' @ claim_state_str (c_state c) @ '')''))
      else if pi_event i \<in> set EVENTS_REQUIRING_IN_PROGRESS \<and> c_state c \<noteq> CS_in_progress
      then Inl (PlainError (pi_event i @ '' requires run_started first (claim state must be 'in_progress', got: '' @
             claim_state_str (c_state c) @ '')''))
      else Inr ())"

definition check_finalization :: "ProgressInput \<Rightarrow> Claim \<Rightarrow> unit result" where
  "check_finalization i c =
     (if pi_event i = ''work_complete'' \<and>
         c_finalization_state c \<notin> {None, Some FS_finalize_rebase_in_progress}
      then Inl (PlainError (''work_complete requires no finalization state or 'finalize_rebase_in_progress' (got: '' @
             finalization_str (c_finalization_state c) @ '')''))
      else if pi_event i = ''finalize_rebase_started'' \<and>
         c_finalization_state c \<noteq> Some FS_finalize_rebase_requested
      then Inl (PlainError (''finalize_rebase_started requires finalization_state 'finalize_rebase_requested' (got: '' @
             finalization_str (c_finalization_state c) @ '')''))
      else if pi_event i = ''ready_to_merge'' \<and>
         c_finalization_state c \<noteq> Some FS_finalize_rebase_in_progress
      then Inl (PlainError (''ready_to_merge requires finalization_state 'finalize_rebase_in_progress' (got: '' @
             finalization_str (c_finalization_state c) @ '')''))
      else Inr ())"

definition validateProgressInput :: "ProgressInput \<Rightarrow> Claim option \<Rightarrow> Claim result" where
  "validateProgressInput i claim =
     rbind (check_identity i claim) (\<lambda>c. rbind (check_claim_state i c) (\<lambda>_.
       rbind (check_arguments i) (\<lambda>_. rbind (check_finalization i c) (\<lambda>_. Inr c))))"

section \<open>Applying an action (processTerminalRunEvents in coordinator.ts)\<close>

text \<open>\<^verbatim>\<open>try { ... } catch { }\<close>: the state reached is kept, the error dropped.\<close>

definition attempt :: "'a outcome \<Rightarrow> unit outcome" where
  "attempt r = (Inr (), snd r)"

definition getClaim :: "string \<Rightarrow> orc_state \<Rightarrow> Claim option \<times> orc_state" where
  "getClaim runId st =
     (case readJsonClaims st of
        (Inr cs, st') \<Rightarrow> (find_claim runId cs, st')
      | (Inl err, st') \<Rightarrow> (None, st'))"

definition hasOtherActiveClaim :: "string \<Rightarrow> string \<Rightarrow> orc_state \<Rightarrow> bool \<times> orc_state" where
  "hasOtherActiveClaim agentId runId st =
     (case readJsonClaims st of
        (Inr cs, st') \<Rightarrow> (list_ex (\<lambda>c. c_agent_id c = agentId \<and> c_run_id c \<noteq> runId \<and> claim_active c) cs, st')
      | (Inl err, st') \<Rightarrow> (False, st'))"

text \<open>An event without a run id finds no claim: \<^verbatim>\<open>claims.find((c) => c.run_id === undefined)\<close>.\<close>

definition with_run :: "string option \<Rightarrow> (string \<Rightarrow> orc_state \<Rightarrow> 'a outcome) \<Rightarrow> orc_state \<Rightarrow> 'a outcome" where
  "with_run runId op st =
     (case runId of
        Some r \<Rightarrow> op r st
      | None \<Rightarrow> obind (readJsonClaims st) (\<lambda>_ st0. (Inl (PlainError ''Claim not found: undefined''), st0)))"

definition coordinator_finish :: "bool \<Rightarrow> string option \<Rightarrow> string option \<Rightarrow> string \<Rightarrow> timestamp \<Rightarrow> finish_options" where
  "coordinator_finish success reason code policy at =
     \<lparr>fo_success = success, fo_failureReason = reason, fo_failureCode = code, fo_policy = policy,
      fo_emitEvent = False, fo_at = at\<rparr>"

definition authoritativeStateTs :: "env \<Rightarrow> timestamp \<Rightarrow> timestamp option \<Rightarrow> timestamp result" where
  "authoritativeStateTs e eventTs floorTs = authoritativeTs eventTs floorTs (now_ts e)"

text \<open>A failed run that was in pull request review is recorded as \<^verbatim>\<open>pr_failed\<close> before it is requeued.\<close>

definition apply_finish_run ::
  "env \<Rightarrow> string \<Rightarrow> string \<Rightarrow> bool \<Rightarrow> string option \<Rightarrow> string option \<Rightarrow> string \<Rightarrow> timestamp \<Rightarrow> orc_state \<Rightarrow> unit outcome" where
  "apply_finish_run e runId agentId success reason code policy at st =
     (let (latest, st0) = getClaim runId st in
      if \<not> success \<and>
         (case latest of None \<Rightarrow> False
          | Some c \<Rightarrow> c_finalization_state c = Some FS_pr_review_in_progress \<and> c_agent_id c = agentId)
      then obind (attempt (setRunFinalizationState e runId agentId (Some FS_pr_failed) 0 None st0)) (\<lambda>_ st1.
             finishRun e runId agentId
               (coordinator_finish False (Some (''pr_review_failed: '' @ or_default reason ''unknown'')) code ''requeue'' at) st1)
      else finishRun e runId agentId (coordinator_finish success reason code policy at) st0)"

definition apply_advance ::
  "env \<Rightarrow> string \<Rightarrow> string \<Rightarrow> string \<Rightarrow> timestamp \<Rightarrow> Claim option \<Rightarrow> FinalizationState \<Rightarrow> int \<Rightarrow> string option \<Rightarrow> int option \<Rightarrow>
   orc_state \<Rightarrow> unit outcome" where
  "apply_advance e runId agentId name eventTs claim state delta reason extendMs st =
     obind (setRunFinalizationState e runId agentId (Some state) delta reason st) (\<lambda>_ st1.
     obind (case extendMs of
              None \<Rightarrow> (Inr (), st1)
            | Some ms \<Rightarrow> attempt (heartbeat e runId agentId ms False (now_ts e) st1)) (\<lambda>_ st2.
       if name = ''finalize_rebase_started''
       then (case authoritativeStateTs e eventTs (map_option activity_floor claim) of
               Inl err \<Rightarrow> (Inl err, st2)
             | Inr t \<Rightarrow> obind (recordAgentActivity e agentId t AS_running st2) (\<lambda>_ st3. (Inr (), st3)))
       else (Inr (), st2)))"

definition apply_heartbeat :: "env \<Rightarrow> string \<Rightarrow> string \<Rightarrow> Claim option \<Rightarrow> timestamp \<Rightarrow> int \<Rightarrow> orc_state \<Rightarrow> unit outcome" where
  "apply_heartbeat e runId agentId claim at ms st =
     (let seen = (case claim of None \<Rightarrow> None | Some c \<Rightarrow> c_last_heartbeat_at c) in
      if \<not> ts_truthy seen \<or> date_lt (the seen) at
      then attempt (obind (heartbeat e runId agentId ms False at st) (\<lambda>_ st1. recordAgentActivity e agentId at AS_running st1))
      else (Inr (), st))"

fun apply_action ::
  "env \<Rightarrow> string option \<Rightarrow> string \<Rightarrow> string \<Rightarrow> timestamp \<Rightarrow> Claim option \<Rightarrow> LifecycleAction \<Rightarrow> orc_state \<Rightarrow> unit outcome" where
  "apply_action e runId agentId name eventTs claim (set_input_state requestedAt) st =
     attempt (with_run runId (\<lambda>r. setRunInputState e r agentId (Some IS_awaiting_input) (Some requestedAt)) st)"
| "apply_action e runId agentId name eventTs claim (start_run at) st =
     obind (with_run runId (\<lambda>r. startRun e r agentId False at ''agent'' None) st) (\<lambda>_ st1.
       obind (recordAgentActivity e agentId at AS_running st1) (\<lambda>_ st2. (Inr (), st2)))"
| "apply_action e runId agentId name eventTs claim (heartbeat_action at ms) st =
     with_run runId (\<lambda>r. apply_heartbeat e r agentId claim at ms) st"
| "apply_action e runId agentId name eventTs claim (advance_finalization state delta reason extendMs) st =
     with_run runId (\<lambda>r. apply_advance e r agentId name eventTs claim state delta reason extendMs) st"
| "apply_action e runId agentId name eventTs claim clear_input_state st =
     attempt (with_run runId (\<lambda>r. setRunInputState e r agentId None None) st)"
| "apply_action e runId agentId name eventTs claim (finish_run success reason code policy at) st =
     with_run runId (\<lambda>r. apply_finish_run e r agentId success reason code policy at) st"
| "apply_action e runId agentId name eventTs claim (noop reason) st = (Inr (), st)"

text \<open>
  The route of one event from the reducer to the state: the body of the loop between the cursor
  check and the side effects of terminal events.
\<close>

definition lifecycle_input :: "OrcEvent \<Rightarrow> LifecycleEventInput" where
  "lifecycle_input ev =
     \<lparr>le_event = ev_event ev, le_run_id = ev_run_id ev, le_agent_id = ev_agent_id ev, le_task_ref = ev_task_ref ev,
      le_ts = Some (ev_ts ev), le_actor_type = Some (ev_actor_type ev), le_payload = ev_payload ev\<rparr>"

definition route_event :: "env \<Rightarrow> OrcEvent \<Rightarrow> orc_state \<Rightarrow> unit outcome" where
  "route_event e ev st =
     (let eventTs = coerceEventTs (Some (ev_ts ev)) (now_ts e); agentId = or_default (ev_agent_id ev) [];
          (claim, st0) = (if truthy (ev_run_id ev) then getClaim (the (ev_run_id ev)) st else (None, st)) in
      case reduceLifecycleEvent (lifecycle_input ev) claim (now_ts e) of
        Inl err \<Rightarrow> (Inl err, st0)
      | Inr action \<Rightarrow> apply_action e (ev_run_id ev) agentId (ev_event ev) eventTs claim action st0)"

definition report_for_duty :: "env \<Rightarrow> OrcEvent \<Rightarrow> orc_state \<Rightarrow> unit outcome" where
  "report_for_duty e ev st =
     (let eventTs = coerceEventTs (Some (ev_ts ev)) (now_ts e); agentId = or_default (ev_agent_id ev) [];
          token = payload_text (ev_payload ev) ''session_token'' in
      case getAgent e agentId st of
        None \<Rightarrow> (Inr (), snd (readAgentsFile e st))
      | Some agent \<Rightarrow>
          if truthy token \<and> a_session_token agent = token
          then obind (updateAgentRuntime e agentId
                 (no_updates\<lparr>au_session_ready_at := Some (Some eventTs), au_last_heartbeat_at := Some (Some eventTs)\<rparr>)
                 (snd (readAgentsFile e st))) (\<lambda>_ st1.
               obind (recordAgentActivity e agentId eventTs AS_running st1) (\<lambda>_ st2. (Inr (), st2)))
          else (Inr (), snd (readAgentsFile e st)))"

section \<open>Requests of a worker (workerLifecycle.ts)\<close>

text \<open>
  The requests that act on a run or on the caller's session. Submitting a review, asking for input
  and recording a memory also write the message bridge or the memory store and are not part of the
  model.
\<close>

datatype LifecycleRequest =
    run_start string string
  | run_finish string string
  | run_work_complete string string
  | input_timeout string string
  | run_fail string string string string string
  | progress string string string "string option" "string option" "string option"
  | report_for_duty_request string string

definition loadClaim :: "string \<Rightarrow> orc_state \<Rightarrow> Claim option \<times> orc_state" where
  "loadClaim runId st = (let (cs, st') = readClaims st in (find_claim runId cs, st'))"

text \<open>\<^verbatim>\<open>validated\<close>: a plain \<^verbatim>\<open>Error\<close> of the validators is reported as a conflict.\<close>

definition validated :: "ProgressInput \<Rightarrow> Claim option \<Rightarrow> bool \<Rightarrow> Claim result" where
  "validated i claim strict =
     (case (if strict then validateProgressInput i claim else validateProgressCommandInput i claim) of
        Inl (PlainError m) \<Rightarrow> Inl (ConflictError m)
      | r \<Rightarrow> r)"

definition isActiveRunClaim :: "Claim option \<Rightarrow> string \<Rightarrow> bool" where
  "isActiveRunClaim claim agentId =
     (case claim of None \<Rightarrow> False | Some c \<Rightarrow> c_agent_id c = agentId \<and> claim_active c)"

definition finalizationPayload :: "string \<Rightarrow> payload option" where
  "finalizationPayload name =
     (if name = ''work_complete'' then Some [(''status'', JStr ''awaiting_finalize'')]
      else if name = ''finalize_rebase_started'' then Some [(''status'', JStr ''finalize_rebase_in_progress'')]
      else if name = ''ready_to_merge'' then Some [(''status'', JStr ''ready_to_merge'')]
      else None)"

text \<open>The event and status that a completed piece of work reports next.\<close>

definition nextFinalizationTransition :: "Claim option \<Rightarrow> (string \<times> string) result" where
  "nextFinalizationTransition claim =
     (let currentState = (case claim of None \<Rightarrow> None | Some c \<Rightarrow> c_finalization_state c) in
      if currentState = None then Inr (''work_complete'', ''awaiting_finalize'')
      else if currentState = Some FS_finalize_rebase_in_progress then Inr (''ready_to_merge'', ''ready_to_merge'')
      else Inl (ConflictError (''run-work-complete cannot be reported from finalization_state '' @
             single_quoted (finalization_str currentState))))"

definition lifecycle_command :: "string \<Rightarrow> string \<Rightarrow> string \<Rightarrow> string option \<Rightarrow> string option \<Rightarrow> ProgressInput" where
  "lifecycle_command event runId agentId reason policy =
     \<lparr>pi_event = event, pi_runId = runId, pi_agentId = agentId, pi_phase = None, pi_reason = reason, pi_policy = policy\<rparr>"

definition worker_finish :: "env \<Rightarrow> bool \<Rightarrow> string option \<Rightarrow> string option \<Rightarrow> string \<Rightarrow> finish_options" where
  "worker_finish e success reason code policy =
     \<lparr>fo_success = success, fo_failureReason = reason, fo_failureCode = code, fo_policy = policy,
      fo_emitEvent = True, fo_at = now_ts e\<rparr>"

definition worker_event :: "env \<Rightarrow> string \<Rightarrow> Claim \<Rightarrow> string \<Rightarrow> string \<Rightarrow> string option \<Rightarrow> payload option \<Rightarrow> OrcEvent" where
  "worker_event e name claim runId agentId phase payload =
     (mk_event (now_ts e) name ''agent'' agentId (Some runId) (Some (c_task_ref claim)) (Some agentId) payload)\<lparr>ev_phase := phase\<rparr>"

text \<open>A check that may throw, then the rest of the handler.\<close>

definition check_then :: "'b result \<Rightarrow> ('b \<Rightarrow> orc_state \<Rightarrow> 'a outcome) \<Rightarrow> orc_state \<Rightarrow> 'a outcome" where
  "check_then r k st = (case r of Inl err \<Rightarrow> (Inl err, st) | Inr x \<Rightarrow> k x st)"

definition apply_progress ::
  "env \<Rightarrow> string \<Rightarrow> string \<Rightarrow> string \<Rightarrow> string option \<Rightarrow> string option \<Rightarrow> string option \<Rightarrow> orc_state \<Rightarrow> unit outcome" where
  "apply_progress e runId agentId event phase reason policy0 st =
     (let policy = or_default policy0 ''requeue''; (claim, st0) = loadClaim runId st in
      check_then (validated \<lparr>pi_event = event, pi_runId = runId, pi_agentId = agentId, pi_phase = phase,
                             pi_reason = reason, pi_policy = Some policy\<rparr> claim (event = ''heartbeat'')) (\<lambda>c st1.
        if event = ''run_started'' then
          if c_state c \<noteq> CS_in_progress then startRun e runId agentId True (now_ts e) ''agent'' None st1 else (Inr (), st1)
        else if event = ''run_finished'' then
          check_then (assertRunMayFinish (c_task_ref c) st1)
            (\<lambda>_. finishRun e runId agentId (worker_finish e True None None ''requeue'')) st1
        else if event = ''run_failed'' then
          finishRun e runId agentId (worker_finish e False reason (Some ''ERR_WORKER_REPORTED_FAILURE'') policy) st1
        else if event = ''heartbeat'' then
          obind (heartbeat e runId agentId DEFAULT_LEASE_MS True (now_ts e) st1) (\<lambda>_ st2. (Inr (), st2))
        else appendEventTo e (worker_event e event c runId agentId (nonempty phase)
               (coalesce (finalizationPayload event) (map_option (\<lambda>r. [(''reason'', JStr r)]) (nonempty reason)))) st1) st0)"

fun applyLifecycle :: "env \<Rightarrow> LifecycleRequest \<Rightarrow> orc_state \<Rightarrow> unit outcome" where
  "applyLifecycle e (run_start runId agentId) st =
     (let (claim, st0) = loadClaim runId st in
      if claim_in CS_in_progress claim \<and> c_agent_id (the claim) = agentId then (Inr (), st0)
      else check_then (validated (lifecycle_command ''run_started'' runId agentId None None) claim False)
             (\<lambda>_. startRun e runId agentId True (now_ts e) ''agent'' None) st0)"
| "applyLifecycle e (run_fail runId agentId reason code policy) st =
     (let (claim, st0) = loadClaim runId st in
      check_then (validated (lifecycle_command ''run_failed'' runId agentId (Some reason) (Some policy)) claim False)
        (\<lambda>_. finishRun e runId agentId (worker_finish e False (Some reason) (Some code) policy)) st0)"
| "applyLifecycle e (run_finish runId agentId) st =
     (let (claim, st0) = loadClaim runId st in
      check_then (validated (lifecycle_command ''run_finished'' runId agentId None None) claim False) (\<lambda>c st1.
        check_then (assertRunMayFinish (c_task_ref c) st1)
          (\<lambda>_. finishRun e runId agentId (worker_finish e True None None ''requeue'')) st1) st0)"
| "applyLifecycle e (run_work_complete runId agentId) st =
     (let (claim, st0) = loadClaim runId st in
      check_then (validated (lifecycle_command ''work_complete'' runId agentId None None) claim False) (\<lambda>c.
        check_then (nextFinalizationTransition (Some c)) (\<lambda>(event, status).
          appendEventTo e (worker_event e event c runId agentId None (Some [(''status'', JStr status)])))) st0)"
| "applyLifecycle e (progress runId agentId event phase reason policy) st =
     apply_progress e runId agentId event phase reason policy st"
| "applyLifecycle e (input_timeout runId agentId) st =
     (let (claim, st0) = loadClaim runId st in
      if isActiveRunClaim claim agentId
      then finishRun e runId agentId
             (worker_finish e False (Some ''input_request_timeout'') (Some ''ERR_INPUT_REQUEST_TIMEOUT'') ''requeue'') st0
      else (Inr (), st0))"
| "applyLifecycle e (report_for_duty_request agentId token) st =
     (let st0 = snd (readAgentsFile e st) in
      case getAgent e agentId st of
        None \<Rightarrow> (Inl (NotFoundError (''Agent not found: '' @ agentId)), st0)
      | Some agent \<Rightarrow>
          if a_session_token agent \<noteq> Some token
          then (Inl (ConflictError (''Session id mismatch for '' @ agentId)), st0)
          else obind (appendEventTo e (mk_event (now_ts e) ''reported_for_duty'' ''agent'' agentId None None (Some agentId)
                        (Some [(''session_token'', JStr token)])) st0) (\<lambda>_ st1.
                 updateAgentRuntime e agentId
                   (no_updates\<lparr>au_session_ready_at := Some (Some (now_ts e)), au_last_heartbeat_at := Some (Some (now_ts e))\<rparr>) st1))"

end
