(* ===== verification/Lifecycle_Props.thy ===== *)
theory Lifecycle_Props
  imports Lifecycle Claim_Props
begin

text \<open>
  Properties of the lifecycle: what each claim manager call leaves in the repository of claims,
  that agent bookkeeping does not touch claims, that a redelivered event changes nothing, that no
  event or request moves a claim backwards, and that timestamps are clamped to the coordinator's
  clock.
\<close>

section \<open>What a call leaves in the repository\<close>

lemma find_claim_mutate:
  assumes "\<And>c. c_run_id (f c) = c_run_id c"
  shows "find_claim i (mutate_claim i f cs) = map_option f (find_claim i cs)"
  unfolding find_claim_def mutate_claim_def by (simp add: find_update_first assms)

lemma with_own_claim_Inr:
  assumes "claims_ready (st_db st)" "with_own_claim runId agentId nf fo body st = (Inr y, st')"
  obtains claim where "find_claim runId (readRows (st_db st)) = Some claim" "c_agent_id claim = agentId"
    "body claim (readRows (st_db st)) st = (Inr y, st')"
  using assms by (auto simp: with_own_claim_def readJsonClaims_ready split: option.splits if_splits)

lemma commit_effect:
  assumes "claims_ready (st_db st)" "\<And>c. c_run_id (f c) = c_run_id c"
    "commitClaims e (mutate_claim i f (readRows (st_db st))) evs st = (Inr u, st')"
  shows "claims_ready (st_db st') \<and> readRows (st_db st') = mutate_claim i f (readRows (st_db st))"
proof -
  from assms(3) obtain db where "commit_claims_txn e (st_claims_json st) (mutate_claim i f (readRows (st_db st))) evs (st_db st) = Inr db"
      and "st' = st\<lparr>st_db := db, st_claims_json := Some (mutate_claim i f (readRows (st_db st)))\<rparr>"
    by (auto simp: commitClaims_Inr)
  with repo.commit_mutated [where f = f, OF assms(1,2)] show ?thesis by simp
qed

text \<open>The claim that a run's row holds after a call.\<close>

definition claim_after :: "string \<Rightarrow> orc_state \<Rightarrow> Claim option" where
  "claim_after runId st = find_claim runId (readRows (st_db st))"

lemma commit_claim_after:
  assumes "claims_ready (st_db st)" "\<And>c. c_run_id (f c) = c_run_id c"
    "commitClaims e (mutate_claim i f (readRows (st_db st))) evs st = (Inr u, st')"
  shows "claims_ready (st_db st')" "claim_after i st' = map_option f (claim_after i st)"
  using commit_effect [where f = f, OF assms] by (simp_all add: claim_after_def find_claim_mutate assms(2))

lemma startRun_after:
  assumes r: "claims_ready (st_db st)" and s: "startRun e runId ag emit at aty aid st = (Inr (), st')"
  shows "claims_ready (st_db st') \<and> (\<exists>c. claim_after runId st' = Some c \<and> c_state c = CS_in_progress)"
proof -
  from s obtain claim where f: "find_claim runId (readRows (st_db st)) = Some claim"
    by (auto simp: startRun_def elim!: with_own_claim_Inr [OF r])
  show ?thesis
  proof (cases "c_state claim = CS_in_progress")
    case True
    with f s r show ?thesis
      by (auto simp: startRun_def claim_after_def readJsonClaims_ready with_own_claim_def split: if_splits)
  next
    case False
    let ?f = "\<lambda>c. resetClaimVolatileFields (c\<lparr>c_state := CS_in_progress, c_started_at := Some at\<rparr>)"
    from s f False obtain evs st1 where
        c: "commitClaims e (mutate_claim runId ?f (readRows (st_db st))) evs st = (Inr (), st1)"
        and d: "st_db st' = st_db st1"
      by (auto simp: startRun_def with_own_claim_def readJsonClaims_ready [OF r] Let_def obind_Inr
          split: if_splits sum.splits option.splits dest: commitBacklog_db)
    have "claims_ready (st_db st1)" "claim_after runId st1 = map_option ?f (claim_after runId st)"
      by (rule commit_claim_after [OF r _ c]; simp)+
    with f d show ?thesis by (simp add: claim_after_def)
  qed
qed

lemma finalization_after:
  assumes r: "claims_ready (st_db st)" and s: "setRunFinalizationState e runId ag fs d br st = (Inr c', st')"
  shows "claims_ready (st_db st') \<and> (\<exists>c. claim_after runId st' = Some c \<and> c_finalization_state c = fs \<and> c_state c = CS_in_progress)"
proof -
  let ?f = "\<lambda>c. c\<lparr>c_finalization_state := fs,
     c_finalization_retry_count := Some (max 0 (or_default (c_finalization_retry_count c) 0 + d)),
     c_finalization_blocked_reason := br\<rparr>"
  from s obtain claim st1 where f: "find_claim runId (readRows (st_db st)) = Some claim" and p: "c_state claim = CS_in_progress"
      and c: "commitClaims e (mutate_claim runId ?f (readRows (st_db st))) [] st = (Inr (), st1)" and d: "st' = st1"
    by (auto simp: setRunFinalizationState_def commit_claim_update_def obind_Inr split: if_splits elim!: with_own_claim_Inr [OF r])
  have "claims_ready (st_db st1)" "claim_after runId st1 = map_option ?f (claim_after runId st)"
    by (rule commit_claim_after [OF r _ c]; simp)+
  with f p d show ?thesis by (simp add: claim_after_def)
qed

lemma case_commitBacklog_db:
  "(case x of None \<Rightarrow> (r, st1) | Some t \<Rightarrow> commitBacklog e (b t) (ch t) st1) = (r', st') \<Longrightarrow> st_db st' = st_db st1"
  by (cases x) (auto dest: commitBacklog_db)

lemma finishRun_after:
  assumes r: "claims_ready (st_db st)" and s: "finishRun e runId ag opts st = (Inr (), st')"
  shows "claims_ready (st_db st') \<and> (\<exists>c. claim_after runId st' = Some c \<and> \<not> claim_active c)"
proof -
  have ready: "claims_ready (st_db st')"
    using finishRun_advancing [OF r, of e runId ag opts] s by (simp add: advancing_def)
  from s obtain claim where f: "find_claim runId (readRows (st_db st)) = Some claim" and ag: "c_agent_id claim = ag"
    by (auto simp: finishRun_def elim!: with_own_claim_Inr [OF r])
  have valid: "assertValidTimestamp (fo_at opts) ''finishRun'' = Inr ()"
    using s f ag by (cases "assertValidTimestamp (fo_at opts) ''finishRun''")
      (simp_all add: finishRun_def with_own_claim_def readJsonClaims_ready [OF r])
  show ?thesis
  proof (cases "c_state claim = CS_done \<or> c_state claim = CS_failed")
    case True
    then have inactive: "\<not> claim_active claim" by (auto simp: claim_active_def)
    have "st' = st \<or> commitClaims e (mutate_claim runId clear_finalization (readRows (st_db st))) [] st = (Inr (), st')"
      using s f ag valid True
      by (simp add: finishRun_def with_own_claim_def readJsonClaims_ready [OF r] split: if_splits)
    then show ?thesis
    proof
      assume "st' = st"
      with f r inactive show ?thesis by (simp add: claim_after_def)
    next
      assume c: "commitClaims e (mutate_claim runId clear_finalization (readRows (st_db st))) [] st = (Inr (), st')"
      have "claim_after runId st' = map_option clear_finalization (claim_after runId st)"
        by (rule commit_claim_after [OF r _ c]) simp
      with f inactive ready show ?thesis by (simp add: claim_after_def claim_active_def)
    qed
  next
    case False
    from s f ag valid False obtain b where b: "readBacklog st = Inr b"
      by (cases "readBacklog st") (simp_all add: finishRun_def with_own_claim_def readJsonClaims_ready [OF r])
    obtain evs st1 where c: "commitClaims e (mutate_claim runId (finished_claim opts) (readRows (st_db st))) evs st = (Inr (), st1)"
        and d: "st_db st' = st_db st1"
      using s [unfolded finishRun_def Let_def] f ag valid False b
      by (simp add: with_own_claim_def readJsonClaims_ready [OF r] obind_Inr)
        (elim exE conjE, drule case_commitBacklog_db, blast)
    have "claim_after runId st1 = map_option (finished_claim opts) (claim_after runId st)"
      by (rule commit_claim_after [OF r _ c]) simp
    with f d ready show ?thesis by (simp add: claim_after_def claim_active_def)
  qed
qed

text \<open>
  An outcome whose repository is ready and whose claim of one run is related to the claim before.
\<close>

definition updates :: "string \<Rightarrow> (Claim \<Rightarrow> Claim \<Rightarrow> bool) \<Rightarrow> orc_state \<Rightarrow> 'a outcome \<Rightarrow> bool" where
  "updates i R st r \<longleftrightarrow> claims_ready (st_db (snd r)) \<and> rel_option R (claim_after i st) (claim_after i (snd r))"

lemma updates_stay: "claims_ready (st_db st) \<Longrightarrow> reflp R \<Longrightarrow> updates i R st (r, st)"
  by (simp add: updates_def option.rel_reflp reflpD)

lemma updates_commit:
  assumes "claims_ready (st_db st)" "reflp R" "\<And>c. c_run_id (f c) = c_run_id c" "\<And>c. R c (f c)"
  shows "updates i R st (commitClaims e (mutate_claim i f (readRows (st_db st))) evs st)"
proof (cases "commitClaims e (mutate_claim i f (readRows (st_db st))) evs st")
  case (Pair r st')
  show ?thesis
  proof (cases r)
    case (Inl err)
    with Pair have "st' = st" by (auto dest: commitClaims_Inl)
    with Pair assms show ?thesis by (simp add: updates_stay)
  next
    case (Inr u)
    with Pair have c: "commitClaims e (mutate_claim i f (readRows (st_db st))) evs st = (Inr u, st')" by simp
    have "claims_ready (st_db st')" "claim_after i st' = map_option f (claim_after i st)"
      by (rule commit_claim_after [OF assms(1) _ c]; simp add: assms(3))+
    with Pair assms(4) show ?thesis by (cases "claim_after i st") (simp_all add: updates_def)
  qed
qed

lemma updates_obind: "updates i R st r \<Longrightarrow> (\<And>x st1. st_db (snd (g x st1)) = st_db st1) \<Longrightarrow> updates i R st (obind r g)"
  by (cases r; cases "fst r") (auto simp: updates_def claim_after_def)

lemma updates_own:
  assumes "claims_ready (st_db st)" "reflp R" "\<And>claim. updates i R st (body claim (readRows (st_db st)) st)"
  shows "updates i R st (with_own_claim runId agentId nf fo body st)"
  using assms by (simp add: with_own_claim_def readJsonClaims_ready updates_stay split: option.split)

lemma updates_if: "(b \<Longrightarrow> updates i R st x) \<Longrightarrow> (\<not> b \<Longrightarrow> updates i R st y) \<Longrightarrow> updates i R st (if b then x else y)"
  by simp

lemma updates_check:
  "claims_ready (st_db st) \<Longrightarrow> reflp R \<Longrightarrow> updates i R st x \<Longrightarrow> updates i R st (case r of Inl err \<Rightarrow> (Inl err, st) | Inr _ \<Rightarrow> x)"
  by (cases r) (simp_all add: updates_stay)

text \<open>A heartbeat, accepted or not, changes neither the state nor the finalization of the claim.\<close>

definition same_phase :: "Claim \<Rightarrow> Claim \<Rightarrow> bool" where
  "same_phase c c' \<longleftrightarrow> c_state c' = c_state c \<and> c_finalization_state c' = c_finalization_state c"

lemma reflp_same_phase [simp]: "reflp same_phase"
  by (simp add: reflp_def same_phase_def)

lemma heartbeat_same_phase: "claims_ready (st_db st) \<Longrightarrow> updates runId same_phase st (heartbeat e runId ag ms emit at st)"
  unfolding heartbeat_def Let_def
  by (rule updates_own, assumption, simp, intro updates_if updates_check updates_obind updates_commit updates_stay)
     (simp_all add: same_phase_def)

section \<open>Agents do not touch claims\<close>

lemma fold_import_runs: "db_runs (fold (import_agent_session e) as db) = db_runs db \<and> db_cutovers (fold (import_agent_session e) as db) = db_cutovers db"
  by (induction as arbitrary: db) (simp_all add: import_agent_session_def Let_def)

definition same_claims :: "runtime_db \<Rightarrow> runtime_db \<Rightarrow> bool" where
  "same_claims db db' \<longleftrightarrow> db_runs db' = db_runs db \<and> set (db_cutovers db) \<subseteq> set (db_cutovers db')"

lemma same_claims_ready: "same_claims db db' \<Longrightarrow> claims_ready db \<Longrightarrow> claims_ready db' \<and> readRows db' = readRows db"
  by (auto simp: same_claims_def claims_ready_def cut_over_def runs_inv_def readRows_def)

lemma same_claims_refl [simp]: "same_claims db db" and same_claims_trans: "same_claims a b \<Longrightarrow> same_claims b c \<Longrightarrow> same_claims a c"
  by (auto simp: same_claims_def)

lemma import_sessions_same:
  assumes "importLegacyAgentSessions e cj aj db = Inr db'" "cut_over db"
  shows "same_claims db db'"
  using assms
  by (auto simp: importLegacyAgentSessions_def importLegacyClaims_def cut_over_def same_claims_def fold_import_runs Let_def
      split: if_splits option.splits)

lemma ready_cut_over: "claims_ready db \<Longrightarrow> cut_over db"
  by (simp add: claims_ready_def)

lemma readAgentsFile_same:
  assumes "cut_over (st_db st)"
  shows "same_claims (st_db st) (st_db (snd (readAgentsFile e st)))"
proof (cases "st_agents_json st")
  case (Some agents)
  show ?thesis
  proof (cases "withAuthoritativeAgentSessions e (st_claims_json st) (st_agents_json st) agents (st_db st)")
    case (Inl err)
    with Some show ?thesis by (simp add: readAgentsFile_def readAgents_def)
  next
    case (Inr r)
    then obtain db where r: "r = (overlay_sessions (db_sessions db) agents, db)" and
        i: "(if SESSION_CUTOVER_NAME \<in> set (db_cutovers (st_db st)) then Inr (st_db st)
             else importLegacyAgentSessions e (st_claims_json st) (st_agents_json st) (st_db st)) = Inr db"
      by (auto simp: withAuthoritativeAgentSessions_def rbind_Inr_iff)
    have "same_claims (st_db st) db"
      using i import_sessions_same [OF _ assms] by (auto split: if_splits)
    with Some Inr r show ?thesis by (simp add: readAgentsFile_def readAgents_def)
  qed
qed (simp add: readAgentsFile_def readAgents_def)

lemma same_claims_cut_over: "same_claims db db' \<Longrightarrow> cut_over db \<Longrightarrow> cut_over db'"
  by (auto simp: same_claims_def cut_over_def)

lemma close_agent_sessions_same:
  assumes "cut_over (st_db st)"
  shows "same_claims (st_db st) (st_db (snd (close_agent_sessions e i st)))"
proof (cases "importLegacyAgentSessions e (st_claims_json st) (st_agents_json st) (st_db st)")
  case (Inr db)
  from import_sessions_same [OF Inr assms] Inr show ?thesis
    by (simp add: close_agent_sessions_def closeProviderSessionsForAgent_def same_claims_def)
qed (simp add: close_agent_sessions_def closeProviderSessionsForAgent_def)

lemma same_claims_obind:
  assumes "same_claims db (st_db (snd r))" "\<And>x st1. st_db (snd (g x st1)) = st_db st1"
  shows "same_claims db (st_db (snd (obind r g)))"
  using assms by (cases r; cases "fst r") auto

lemma updateAgentRuntime_same:
  assumes "cut_over (st_db st)"
  shows "same_claims (st_db st) (st_db (snd (updateAgentRuntime e i u st)))"
proof (cases "readAgentsFile e st")
  case (Pair agents st0)
  have s0: "same_claims (st_db st) (st_db st0)" using readAgentsFile_same [OF assms, of e] Pair by simp
  let ?r = "if closes_sessions u then close_agent_sessions e i st0 else (Inr (), st0)"
  have "same_claims (st_db st0) (st_db (snd ?r))"
    using close_agent_sessions_same [OF same_claims_cut_over [OF s0 assms]] by simp
  with s0 have "same_claims (st_db st) (st_db (snd ?r))" by (rule same_claims_trans)
  with s0 Pair show ?thesis unfolding updateAgentRuntime_def Let_def
    by (simp only: Pair split) (simp only: if_distrib [of snd] if_distrib [of st_db] snd_conv if_split, auto intro: same_claims_obind)
qed

lemma recordAgentActivity_same:
  assumes "cut_over (st_db st)"
  shows "same_claims (st_db st) (st_db (snd (recordAgentActivity e i at s st)))"
  using updateAgentRuntime_same [OF assms, of e i "no_updates\<lparr>au_status := Some s, au_last_heartbeat_at := Some (Some at)\<rparr>"]
  by (auto simp: recordAgentActivity_def split: prod.splits sum.splits orc_error.splits)

lemma same_claims_after:
  "same_claims (st_db st) (st_db st') \<Longrightarrow> claims_ready (st_db st) \<Longrightarrow> claims_ready (st_db st') \<and> claim_after i st' = claim_after i st"
  by (auto simp: claim_after_def dest: same_claims_ready)

section \<open>Redelivery\<close>

text \<open>The events that move a claim forward, and whether a claim is already past one.\<close>

definition TRANSITION_EVENTS :: "string list" where
  "TRANSITION_EVENTS =
     [''run_started'', ''run_finished'', ''run_failed'', ''work_complete'', ''finalize_rebase_started'', ''ready_to_merge'']"

definition spent :: "string \<Rightarrow> Claim option \<Rightarrow> bool" where
  "spent name claim \<longleftrightarrow>
     (case claim of
        None \<Rightarrow> True
      | Some c \<Rightarrow>
          if name = ''run_started'' then c_state c \<noteq> CS_claimed
          else if name = ''work_complete'' then c_state c \<noteq> CS_in_progress \<or> c_finalization_state c \<noteq> None
          else if name = ''finalize_rebase_started''
          then c_state c \<noteq> CS_in_progress \<or> c_finalization_state c \<noteq> Some FS_finalize_rebase_requested
          else if name = ''ready_to_merge''
          then c_state c \<noteq> CS_in_progress \<or> c_finalization_state c \<noteq> Some FS_finalize_rebase_in_progress
          else \<not> claim_active c)"

lemma transition_event_cases:
  assumes "name \<in> set TRANSITION_EVENTS"
  obtains "name = ''run_started''" | "name = ''run_finished''" | "name = ''run_failed''" | "name = ''work_complete''"
    | "name = ''finalize_rebase_started''" | "name = ''ready_to_merge''"
proof -
  from assms have "name = ''run_started'' \<or> name = ''run_finished'' \<or> name = ''run_failed'' \<or> name = ''work_complete'' \<or>
      name = ''finalize_rebase_started'' \<or> name = ''ready_to_merge''"
    unfolding TRANSITION_EVENTS_def by (simp only: list.set insert_iff empty_iff simp_thms)
  then show thesis by (elim disjE) (rule that, assumption)+
qed

lemma authoritativeTs_finite: "ts_finite t \<Longrightarrow> \<exists>r. authoritativeTs t f (Ts n) = Inr (Ts r)"
  unfolding authoritativeTs_def Let_def by (cases t) (simp_all add: ts_finite_def)

lemma coerce_finite: "ts_finite (coerceEventTs t (Ts n))"
  by (simp add: coerceEventTs_def ts_finite_def)

lemma spent_noop:
  assumes "le_event ev \<in> set TRANSITION_EVENTS" "spent (le_event ev) claim"
  shows "\<exists>r. reduceLifecycleEvent ev claim (Ts n) = Inr (noop r)"
  using assms(1)
  by (rule transition_event_cases)
    (use assms(2) in \<open>cases claim; simp add: reduceLifecycleEvent_def spent_def claim_in_def wrong_state_def PHASE_EVENTS_def Let_def\<close>)+

lemma unspent_action:
  assumes "le_event ev \<in> set TRANSITION_EVENTS" "\<not> spent (le_event ev) claim"
  shows "\<exists>act. reduceLifecycleEvent ev claim (Ts n) = Inr act \<and>
    ((\<exists>at. le_event ev = ''run_started'' \<and> act = start_run at) \<or>
     (\<exists>s r c p at. le_event ev \<in> {''run_finished'', ''run_failed''} \<and> act = finish_run s r c p at) \<or>
     (\<exists>f d. act = advance_finalization f d None (Some FINALIZE_LEASE_MS) \<and>
        (le_event ev, f) \<in> {(''work_complete'', FS_awaiting_finalize), (''finalize_rebase_started'', FS_finalize_rebase_in_progress),
           (''ready_to_merge'', FS_ready_to_merge)}))"
proof -
  obtain c where c: "claim = Some c" using assms(2) by (cases claim) (auto simp: spent_def)
  note ts = authoritativeTs_finite [OF coerce_finite [of "le_ts ev" n], of "Some (c_claimed_at c)" n]
    authoritativeTs_finite [OF coerce_finite [of "le_ts ev" n], of "Some (finish_floor c)" n]
  from assms(1) show ?thesis
    by (rule transition_event_cases)
      (use assms(2) c ts in \<open>auto simp: reduceLifecycleEvent_def spent_def claim_in_def PHASE_EVENTS_def Let_def\<close>)+
qed

lemma getClaim_ready: "claims_ready (st_db st) \<Longrightarrow> getClaim i st = (claim_after i st, st)"
  by (simp add: getClaim_def readJsonClaims_ready claim_after_def)

lemma apply_start_spent:
  assumes r: "claims_ready (st_db st)" and a: "apply_action e (Some i) ag name t cl (start_run at) st = (Inr (), st')"
  shows "claims_ready (st_db st') \<and> spent ''run_started'' (claim_after i st')"
proof -
  from a obtain st1 where s: "startRun e i ag False at ''agent'' None st = (Inr (), st1)"
      and k: "st' = snd (recordAgentActivity e ag at AS_running st1)"
    by (auto simp: with_run_def obind_Inr)
  from startRun_after [OF r s] obtain c where c: "claims_ready (st_db st1)" "claim_after i st1 = Some c" "c_state c = CS_in_progress"
    by blast
  from same_claims_after [OF recordAgentActivity_same [OF ready_cut_over [OF c(1)]] c(1), where i = i] c k
  show ?thesis by (simp add: spent_def)
qed

lemma attempt_snd [simp]: "obind (attempt r) g = g () (snd r)"
  by (simp add: attempt_def)

lemma apply_finish_spent:
  assumes r: "claims_ready (st_db st)" and a: "apply_finish_run e i ag s re co p at st = (Inr (), st')"
  shows "claims_ready (st_db st') \<and> (\<exists>c. claim_after i st' = Some c \<and> \<not> claim_active c)"
proof -
  let ?st0 = "snd (setRunFinalizationState e i ag (Some FS_pr_failed) 0 None st)"
  have r0: "claims_ready (st_db ?st0)" using setRun_advancing(1) [OF r] by (simp add: advancing_def)
  from a obtain opts st0 where "finishRun e i ag opts st0 = (Inr (), st')" "st0 = st \<or> st0 = ?st0"
    unfolding apply_finish_run_def getClaim_ready [OF r] by (auto split: if_splits)
  with finishRun_after r r0 show ?thesis by blast
qed

lemma apply_advance_spent:
  assumes r: "claims_ready (st_db st)" and a: "apply_advance e i ag name t cl f d br (Some ms) st = (Inr (), st')"
  shows "claims_ready (st_db st') \<and> (\<exists>c. claim_after i st' = Some c \<and> c_state c = CS_in_progress \<and> c_finalization_state c = Some f)"
proof -
  from a obtain c0 st1 where s: "setRunFinalizationState e i ag (Some f) d br st = (Inr c0, st1)"
      and k: "obind (attempt (heartbeat e i ag ms False (now_ts e) st1)) (\<lambda>_ st2.
         if name = ''finalize_rebase_started''
         then (case authoritativeStateTs e t (map_option activity_floor cl) of
                 Inl err \<Rightarrow> (Inl err, st2)
               | Inr t \<Rightarrow> obind (recordAgentActivity e ag t AS_running st2) (\<lambda>_ st3. (Inr (), st3)))
         else (Inr (), st2)) = (Inr (), st')"
    unfolding apply_advance_def obind_Inr by auto
  let ?st2 = "snd (heartbeat e i ag ms False (now_ts e) st1)"
  from finalization_after [OF r s] obtain c1 where c1: "claims_ready (st_db st1)" "claim_after i st1 = Some c1"
      "c_finalization_state c1 = Some f" "c_state c1 = CS_in_progress" by blast
  from heartbeat_same_phase [OF c1(1), of i e ag ms False "now_ts e"] c1 obtain c2 where
      c2: "claims_ready (st_db ?st2)" "claim_after i ?st2 = Some c2" "same_phase c1 c2"
    by (auto simp: updates_def option_rel_Some1)
  have "st' = ?st2 \<or> (\<exists>t. st' = snd (recordAgentActivity e ag t AS_running ?st2))"
    using k by (simp add: obind_Inr split: if_splits sum.splits) (metis snd_conv)
  then have "claims_ready (st_db st') \<and> claim_after i st' = claim_after i ?st2"
    using same_claims_after [OF recordAgentActivity_same [OF ready_cut_over [OF c2(1)]] c2(1)] c2(1) by auto
  with c1 c2 show ?thesis by (simp add: same_phase_def)
qed

definition event_claim :: "OrcEvent \<Rightarrow> orc_state \<Rightarrow> Claim option" where
  "event_claim ev st = (if truthy (ev_run_id ev) then claim_after (the (ev_run_id ev)) st else None)"

lemma route_event_ready:
  assumes "claims_ready (st_db st)"
  shows "route_event e ev st =
    (case reduceLifecycleEvent (lifecycle_input ev) (event_claim ev st) (now_ts e) of
       Inl err \<Rightarrow> (Inl err, st)
     | Inr action \<Rightarrow> apply_action e (ev_run_id ev) (or_default (ev_agent_id ev) []) (ev_event ev)
         (coerceEventTs (Some (ev_ts ev)) (now_ts e)) (event_claim ev st) action st)"
  using assms by (simp add: route_event_def event_claim_def getClaim_ready split: sum.split)

lemma event_claim_run: "ev_run_id ev = Some i \<Longrightarrow> i \<noteq> [] \<Longrightarrow> event_claim ev st = claim_after i st"
  by (simp add: event_claim_def)

lemma route_event_spends:
  assumes ready: "claims_ready (st_db st)" and ev: "ev_event ev \<in> set TRANSITION_EVENTS"
    and first: "route_event e ev st = (Inr (), st')"
  shows "claims_ready (st_db st') \<and> spent (ev_event ev) (event_claim ev st')"
proof (cases "spent (ev_event ev) (event_claim ev st)")
  case True
  with spent_noop [of "lifecycle_input ev" "event_claim ev st" "clock e"] ev obtain r where
    "reduceLifecycleEvent (lifecycle_input ev) (event_claim ev st) (now_ts e) = Inr (noop r)"
    by (auto simp: now_ts_def lifecycle_input_def)
  with first route_event_ready [OF ready] True ready show ?thesis by simp
next
  case False
  then obtain i where i: "ev_run_id ev = Some i" "i \<noteq> []"
    by (auto simp: event_claim_def spent_def truthy_iff split: if_splits)
  from unspent_action [of "lifecycle_input ev" "event_claim ev st" "clock e"] ev False obtain act where
    act: "reduceLifecycleEvent (lifecycle_input ev) (event_claim ev st) (now_ts e) = Inr act" and
    k: "(\<exists>at. ev_event ev = ''run_started'' \<and> act = start_run at) \<or>
     (\<exists>s r c p at. ev_event ev \<in> {''run_finished'', ''run_failed''} \<and> act = finish_run s r c p at) \<or>
     (\<exists>f d. act = advance_finalization f d None (Some FINALIZE_LEASE_MS) \<and>
        (ev_event ev, f) \<in> {(''work_complete'', FS_awaiting_finalize), (''finalize_rebase_started'', FS_finalize_rebase_in_progress),
           (''ready_to_merge'', FS_ready_to_merge)})" by (auto simp: now_ts_def lifecycle_input_def)
  have a: "apply_action e (Some i) (or_default (ev_agent_id ev) []) (ev_event ev)
      (coerceEventTs (Some (ev_ts ev)) (now_ts e)) (event_claim ev st) act st = (Inr (), st')"
    using first route_event_ready [OF ready] act i by simp
  from k show ?thesis unfolding event_claim_run [OF i]
  proof (elim disjE exE conjE)
    fix at assume "ev_event ev = ''run_started''" "act = start_run at"
    with apply_start_spent [OF ready] a show "claims_ready (st_db st') \<and> spent (ev_event ev) (claim_after i st')" by auto
  next
    fix s r c p at assume "ev_event ev \<in> {''run_finished'', ''run_failed''}" and act: "act = finish_run s r c p at"
    moreover from a [unfolded act] have "claims_ready (st_db st') \<and> (\<exists>c. claim_after i st' = Some c \<and> \<not> claim_active c)"
      using apply_finish_spent [OF ready] by (simp add: with_run_def)
    ultimately show "claims_ready (st_db st') \<and> spent (ev_event ev) (claim_after i st')" by (auto simp: spent_def)
  next
    fix f d assume act: "act = advance_finalization f d None (Some FINALIZE_LEASE_MS)" and
      "(ev_event ev, f) \<in> {(''work_complete'', FS_awaiting_finalize), (''finalize_rebase_started'', FS_finalize_rebase_in_progress),
           (''ready_to_merge'', FS_ready_to_merge)}"
    moreover from a [unfolded act] have "claims_ready (st_db st') \<and>
        (\<exists>c. claim_after i st' = Some c \<and> c_state c = CS_in_progress \<and> c_finalization_state c = Some f)"
      using apply_advance_spent [OF ready] by (simp add: with_run_def)
    ultimately show "claims_ready (st_db st') \<and> spent (ev_event ev) (claim_after i st')" by (auto simp: spent_def)
  qed
qed


section \<open>Events never move a claim backwards\<close>

lemma advancing_then:
  assumes "advancing st r" "\<And>x st1. claims_ready (st_db st1) \<Longrightarrow> advancing st1 (g x st1)"
  shows "advancing st (obind r g)"
proof (cases r)
  case (Pair a st1)
  with assms show ?thesis by (cases a) (auto simp: advancing_def intro: advances_all_trans)
qed

lemma advancing_attempt: "advancing st r \<Longrightarrow> advancing st (attempt r)"
  by (simp add: advancing_def attempt_def)

lemma same_claims_advancing: "claims_ready (st_db st) \<Longrightarrow> same_claims (st_db st) (st_db (snd r)) \<Longrightarrow> advancing st r"
  by (auto simp: advancing_def dest: same_claims_ready)

lemma activity_advancing: "claims_ready (st_db st) \<Longrightarrow> advancing st (recordAgentActivity e i at s st)"
  by (rule same_claims_advancing) (auto intro: recordAgentActivity_same ready_cut_over)

lemma with_run_advancing:
  assumes "claims_ready (st_db st)" "\<And>r. advancing st (op r st)"
  shows "advancing st (with_run runId op st)"
  using assms by (cases runId) (simp_all add: with_run_def readJsonClaims_ready)

lemma apply_action_advancing:
  assumes r: "claims_ready (st_db st)"
  shows "advancing st (apply_action e runId ag name t cl act st)"
proof (cases act)
  case (start_run at)
  then show ?thesis
    by (auto intro!: advancing_then with_run_advancing startRun_advancing activity_advancing r)
next
  case (heartbeat_action at ms)
  then show ?thesis
    by (auto simp: apply_heartbeat_def Let_def r
        intro!: with_run_advancing advancing_if advancing_attempt advancing_then heartbeat_advancing activity_advancing r)
next
  case (advance_finalization f d br ex)
  then show ?thesis
    by (auto simp: apply_advance_def simp del: attempt_snd intro!: with_run_advancing advancing_then advancing_if advancing_attempt
        heartbeat_advancing activity_advancing setRun_advancing r split: option.split sum.split)
next
  case clear_input_state
  then show ?thesis by (auto intro!: advancing_attempt with_run_advancing setRun_advancing r)
next
  case (set_input_state at)
  then show ?thesis by (auto intro!: advancing_attempt with_run_advancing setRun_advancing r)
next
  case (finish_run s re co p at)
  then show ?thesis
    by (auto simp: apply_finish_run_def getClaim_ready [OF r] simp del: attempt_snd
        intro!: with_run_advancing advancing_if advancing_then advancing_attempt finishRun_advancing setRun_advancing r)
qed (simp add: r)

lemma route_event_advancing: "claims_ready (st_db st) \<Longrightarrow> advancing st (route_event e ev st)"
  by (auto simp: route_event_ready intro: apply_action_advancing split: sum.split)

lemma readClaims_ready: "claims_ready (st_db st) \<Longrightarrow> readClaims st = (readRows (st_db st), st)"
  by (simp add: readClaims_def readAuthoritativeClaims_def claims_ready_def cut_over_def)

lemma loadClaim_ready: "claims_ready (st_db st) \<Longrightarrow> loadClaim i st = (claim_after i st, st)"
  by (simp add: loadClaim_def readClaims_ready claim_after_def)

lemma advancing_check_then:
  "claims_ready (st_db st) \<Longrightarrow> (\<And>x. r = Inr x \<Longrightarrow> advancing st (k x st)) \<Longrightarrow> advancing st (check_then r k st)"
  by (cases r) (simp_all add: check_then_def)

lemma appendEventTo_same: "same_claims (st_db st) (st_db (snd (appendEventTo e ev st)))"
  by (auto simp: appendEventTo_def same_claims_def append_event_frame split: sum.split)

lemma appendEventTo_advancing: "claims_ready (st_db st) \<Longrightarrow> advancing st (appendEventTo e ev st)"
  by (rule same_claims_advancing) (auto intro: appendEventTo_same)

lemma updateAgentRuntime_advancing: "claims_ready (st_db st) \<Longrightarrow> advancing st (updateAgentRuntime e i u st)"
  by (rule same_claims_advancing) (auto intro: updateAgentRuntime_same ready_cut_over)

lemmas request_advancing =
  advancing_check_then advancing_if advancing_stay startRun_advancing finishRun_advancing appendEventTo_advancing

lemma apply_progress_advancing: "claims_ready (st_db st) \<Longrightarrow> advancing st (apply_progress e i ag ev ph re po st)"
  by (auto simp: apply_progress_def loadClaim_ready Let_def
      intro!: request_advancing advancing_then [OF heartbeat_advancing])

lemma report_for_duty_advancing:
  assumes r: "claims_ready (st_db st)"
  shows "advancing st (applyLifecycle e (report_for_duty_request ag token) st)"
proof -
  let ?st0 = "snd (readAgentsFile e st)"
  note s0 = readAgentsFile_same [OF ready_cut_over [OF r], of e]
  have r0: "claims_ready (st_db ?st0)" using same_claims_ready [OF s0 r] by blast
  have lift: "advancing ?st0 x \<Longrightarrow> advancing st x" for x :: "unit outcome"
    using same_claims_ready [OF s0 r] by (simp add: advancing_def)
  show ?thesis
    by (auto simp: Let_def r0 intro!: lift advancing_if advancing_then appendEventTo_advancing updateAgentRuntime_advancing
        split: option.split)
qed

lemma applyLifecycle_advancing: "claims_ready (st_db st) \<Longrightarrow> advancing st (applyLifecycle e req st)"
  by (cases req)
    (auto simp: loadClaim_ready Let_def simp del: applyLifecycle.simps(7)
      intro!: request_advancing apply_progress_advancing report_for_duty_advancing split: prod.split)

section \<open>Runs of the whole lifecycle\<close>

inductive lifecycle_step :: "orc_state \<Rightarrow> orc_state \<Rightarrow> bool" where
  call: "claim_step st st' \<Longrightarrow> lifecycle_step st st'"
| event: "lifecycle_step st (snd (route_event e ev st))"
| request: "lifecycle_step st (snd (applyLifecycle e req st))"

lemma lifecycle_step_advances:
  assumes "lifecycle_step st st'" "claims_ready (st_db st)"
  shows "claims_ready (st_db st') \<and> claims_advance (readRows (st_db st)) (readRows (st_db st'))"
  using assms
  by (induction rule: lifecycle_step.induct)
    (rule claim_step_advances, assumption+,
      (rule advancing_snd, rule route_event_advancing applyLifecycle_advancing, assumption)+)

lemma lifecycle_steps_advance:
  assumes "lifecycle_step\<^sup>*\<^sup>* st st'" "claims_ready (st_db st)"
  shows "claims_ready (st_db st') \<and> claims_advance (readRows (st_db st)) (readRows (st_db st'))"
  using assms
  by (induction rule: rtranclp_induct) (auto dest: lifecycle_step_advances intro: claims_advance_trans)

text \<open>
  C14. The life of a claim under everything that workers and the event log can ask for: whatever
  sequence of claim manager calls, routed events and worker requests runs, and whether or not each
  succeeds, every claim keeps its run, task and agent and its state only moves forward, and no two
  active claims share a task.
\<close>

theorem lifecycle_never_regresses:
  assumes "lifecycle_step\<^sup>*\<^sup>* st st'" "claims_ready (st_db st)"
  shows "distinct (map c_task_ref (filter claim_active (readRows (st_db st')))) \<and>
    (\<forall>c \<in> set (readRows (st_db st)). \<exists>c' \<in> set (readRows (st_db st')). advances c c')"
  using lifecycle_steps_advance [OF assms] repo.read_one_active [of "st_db st'"]
  by (auto elim!: claims_advance_in)

section \<open>Timestamps\<close>

fun action_time :: "LifecycleAction \<Rightarrow> Claim \<Rightarrow> (timestamp \<times> timestamp option) option" where
  "action_time (start_run at) c = Some (at, Some (c_claimed_at c))"
| "action_time (heartbeat_action at ms) c = Some (at, Some (activity_floor c))"
| "action_time (finish_run s r co p at) c = Some (at, Some (finish_floor c))"
| "action_time (set_input_state at) c = Some (at, None)"
| "action_time _ c = None"

text \<open>Every timestamp that the reducer puts into an action is clamped to the floor and the clock.\<close>

lemma reduce_time:
  assumes "reduceLifecycleEvent ev (Some c) (Ts n) = Inr act" "action_time act c = Some (t, fl)"
  shows "authoritativeTs (coerceEventTs (le_ts ev) (Ts n)) fl (Ts n) = Inr t"
  using assms(1) unfolding reduceLifecycleEvent_def Let_def
  by (simp only: option.sel split: if_splits; (elim rbind_Inr_iff [THEN iffD1, elim_format] exE conjE)?;
      use assms(2) in \<open>auto simp: wrong_state_def\<close>)

text \<open>
  Timestamps are the coordinator's: when a reducer action carries a time and the claim's floor
  for it (the last recorded moment of that kind) is not in the future, the time lies between the
  floor and the coordinator's clock, and it is the worker's own time exactly when that already does.
\<close>

theorem lifecycle_times_are_clamped:
  assumes "reduceLifecycleEvent ev (Some c) (Ts n) = Inr act" "action_time act c = Some (t, Some (Ts f))" "f \<le> n"
  shows "\<exists>ms. t = Ts ms \<and> f \<le> ms \<and> ms \<le> n \<and> (\<forall>x. le_ts ev = Some (Ts x) \<longrightarrow> (ms = x \<longleftrightarrow> f \<le> x \<and> x \<le> n))"
proof -
  have r: "authoritativeTs (coerceEventTs (le_ts ev) (Ts n)) (Some (Ts f)) (Ts n) = Inr t"
    by (rule reduce_time [OF assms(1,2)])
  obtain x where x: "coerceEventTs (le_ts ev) (Ts n) = Ts x"
    using coerce_finite [of "le_ts ev" n] by (cases "coerceEventTs (le_ts ev) (Ts n)") (auto simp: ts_finite_def)
  have own: "y = x" if "le_ts ev = Some (Ts y)" for y
    using x that by (simp add: coerceEventTs_def ts_finite_def)
  from r x have "t = Ts (max (min x n) f)" by (simp add: authoritativeTs_def Let_def)
  with assms(3) own show ?thesis by (intro exI [of _ "max (min x n) f"]) (auto simp: max_def min_def)
qed

section \<open>Validation and reduction agree\<close>

lemma validateProgressInput_Inr:
  assumes "validateProgressInput i claim = Inr c"
  shows "claim = Some c" "check_identity i claim = Inr c" "check_claim_state i c = Inr ()" "check_arguments i = Inr ()"
    "check_finalization i c = Inr ()"
  using assms by (auto simp: validateProgressInput_def rbind_Inr_iff check_identity_def split: if_splits option.splits)

lemma check_identity_event: "check_identity i claim = Inr c \<Longrightarrow> pi_event i \<in> set SUPPORTED_EVENTS"
  by (auto simp: check_identity_def split: if_splits)


section \<open>Evaluation on concrete states\<close>

definition started_event :: OrcEvent where
  "started_event = mk_event (Ts 5) ''run_started'' ''agent'' ''w'' (Some ''run-1'') (Some ''f/a'') (Some ''w'') None"

abbreviation claim1 :: Claim where
  "claim1 \<equiv> claim0_run ''run-1'' ''f/a'' CS_claimed"

lemma started_reduced:
  "reduceLifecycleEvent (lifecycle_input started_event) (Some claim1) (Ts 5) = Inr (start_run (Ts 5))"
  by (simp add: started_event_def mk_event_def lifecycle_input_def reduceLifecycleEvent_def coerceEventTs_def
      authoritativeTs_def claim_in_def claim0_run_def ts_finite_def Let_def)

lemma started_claim: "event_claim started_event legacy_st = Some claim1"
  by (simp add: started_event_def mk_event_def event_claim_def claim_after_def legacy_rows find_claim_def)
     (simp add: claim0_run_def)

lemma started_run: "\<exists>st'. startRun e ''run-1'' ''w'' False (Ts 5) ''agent'' None legacy_st = (Inr (), st') \<and> st_agents_json st' = None"
  by (simp add: startRun_def with_own_claim_def readJsonClaims_ready [OF legacy_ready] legacy_rows find_claim_def)
     (simp add: claim0_run_def assertValidTimestamp_def readBacklog_def mutate_claim_def commitClaims_def legacy_st_def commit_claims_txn_def
      importLegacyClaims_def runs_db'_def runs_db_def empty_db_def upsertClaim_def runs_one_active_def
      resetClaimVolatileFields_def claim_updated_at_def findTask_def backlog_tasks_def legacy_task_def
      projectTaskToBacklogTask_def toTask_def rev0_def commitBacklog_def ts_finite_def Let_def orc_eval)

lemma no_agents_activity:
  "st_agents_json st = None \<Longrightarrow> recordAgentActivity e i at s st = (Inr False, st)"
  by (simp add: recordAgentActivity_def updateAgentRuntime_def readAgentsFile_def readAgents_def)

lemma started_routed: "\<exists>st'. route_event (env0\<lparr>clock := 5\<rparr>) started_event legacy_st = (Inr (), st')"
proof -
  obtain st' where s: "startRun (env0\<lparr>clock := 5\<rparr>) ''run-1'' ''w'' False (Ts 5) ''agent'' None legacy_st = (Inr (), st')"
      "st_agents_json st' = None" using started_run by blast
  have f: "ev_run_id started_event = Some ''run-1''" "ev_agent_id started_event = Some ''w''"
    by (simp_all add: started_event_def mk_event_def)
  from s f show ?thesis
    by (simp add: route_event_ready [OF legacy_ready] started_claim started_reduced now_ts_def with_run_def no_agents_activity)
qed


theorem lifecycle_never_regresses_witness:
  "\<exists>c' \<in> set (readRows (st_db (snd (route_event env0 started_event legacy_st)))). advances claim1 c'"
proof -
  have steps: "lifecycle_step\<^sup>*\<^sup>* legacy_st (snd (route_event env0 started_event legacy_st))"
    by (rule r_into_rtranclp, rule lifecycle_step.event)
  from lifecycle_never_regresses [OF steps legacy_ready] show ?thesis by (simp add: legacy_rows)
qed

theorem lifecycle_times_are_clamped_witness:
  "reduceLifecycleEvent (lifecycle_input started_event) (Some claim1) (Ts 5) = Inr (start_run (Ts 5)) \<and>
   (\<exists>ms. Ts 5 = Ts ms \<and> 0 \<le> ms \<and> ms \<le> 5)"
proof -
  have "action_time (start_run (Ts 5)) claim1 = Some (Ts 5, Some (Ts 0))" by (simp add: claim0_run_def)
  from lifecycle_times_are_clamped [OF started_reduced this] started_reduced show ?thesis by auto
qed

definition progress1 :: ProgressInput where
  "progress1 = \<lparr>pi_event = ''run_started'', pi_runId = ''run-1'', pi_agentId = ''w'', pi_phase = None, pi_reason = None, pi_policy = None\<rparr>"


end
