(* ===== verification/Sessions.thy ===== *)
theory Sessions
  imports Lifecycle
begin

text \<open>
  Who a caller is and which sessions are alive: the session secrets of \<^verbatim>\<open>lib/sessionCredentials.ts\<close>,
  the principals of \<^verbatim>\<open>lib/controlPrincipal.ts\<close>, \<^verbatim>\<open>authorizeLifecycle\<close> of \<^verbatim>\<open>lib/workerLifecycle.ts\<close>, the
  process fingerprints of \<^verbatim>\<open>lib/processIdentity.ts\<close> and the supervision of \<^verbatim>\<open>lib/sessionSupervisor.ts\<close>.
\<close>

section \<open>Credentials (sessionCredentials.ts)\<close>

definition credentialHash :: "env \<Rightarrow> string \<Rightarrow> string" where
  "credentialHash e secret = sha256 e secret"

text \<open>
  A row of \<^verbatim>\<open>sessions\<close> by its unique credential hash, or, outside a project and only for a session
  recorded without one, by its session id.
\<close>

definition resolveSessionCredential :: "env \<Rightarrow> string \<Rightarrow> bool \<Rightarrow> runtime_db \<Rightarrow> session_row option" where
  "resolveSessionCredential e credential secretsOnly db =
     (if credential = [] then None
      else case List.find (\<lambda>s. ss_credential_hash s = Some (credentialHash e credential)) (db_sessions db) of
        Some s \<Rightarrow> Some s
      | None \<Rightarrow>
          if secretsOnly \<or> starts_with ''legacy-'' credential then None
          else List.find (\<lambda>s. ss_session_id s = credential \<and> ss_credential_hash s = None) (db_sessions db))"

definition sessionForCredential :: "env \<Rightarrow> string \<Rightarrow> orc_state \<Rightarrow> session_row option" where
  "sessionForCredential e credential st = resolveSessionCredential e credential (isProjectStateDir st) (st_db st)"

text \<open>The two environment variables, in the order the client tries them.\<close>

definition usable_credential :: "string option \<Rightarrow> string option" where
  "usable_credential value =
     (case value of
        None \<Rightarrow> None
      | Some v \<Rightarrow> if js_trim v \<noteq> [] \<and> \<not> starts_with ''${'' (js_trim v) then Some (js_trim v) else None)"

definition clientCredential :: "string option \<Rightarrow> string option \<Rightarrow> string option" where
  "clientCredential masterSecret sessionSecret =
     coalesce (usable_credential masterSecret) (usable_credential sessionSecret)"

definition trimmed :: "string option \<Rightarrow> string option" where
  "trimmed value = nonempty (map_option js_trim value)"

definition sessionIdFromEnv :: "string option \<Rightarrow> string option \<Rightarrow> string option" where
  "sessionIdFromEnv sessionId sessionToken = coalesce (trimmed sessionId) (trimmed sessionToken)"

section \<open>Principals (controlPrincipal.ts)\<close>

datatype ControlPrincipal =
    worker string string string bool bool
  | scout string string bool bool
  | master_session string string bool bool
  | operator

fun principal_agent :: "ControlPrincipal \<Rightarrow> string option" where
  "principal_agent (worker a r s l n) = Some a"
| "principal_agent (scout a s l n) = Some a"
| "principal_agent (master_session a s l n) = Some a"
| "principal_agent operator = None"

fun principal_run :: "ControlPrincipal \<Rightarrow> string option" where
  "principal_run (worker a r s l n) = Some r"
| "principal_run _ = None"

fun principal_session :: "ControlPrincipal \<Rightarrow> string option" where
  "principal_session (worker a r s l n) = Some s"
| "principal_session (scout a s l n) = Some s"
| "principal_session (master_session a s l n) = Some s"
| "principal_session operator = None"

fun principal_live :: "ControlPrincipal \<Rightarrow> bool" where
  "principal_live (worker a r s l n) = l"
| "principal_live (scout a s l n) = l"
| "principal_live (master_session a s l n) = l"
| "principal_live operator = True"

definition unauthenticated :: "orc_error" where
  "unauthenticated = ControlError ''unauthenticated'' ''Caller is not authenticated''"

definition session_principal :: "string \<Rightarrow> session_row \<Rightarrow> ControlPrincipal result" where
  "session_principal role s =
     (let live = (ss_state s \<noteq> SS_offline); running = (ss_state s = SS_running) in
      if role = ''master'' then Inr (master_session (ss_agent_id s) (ss_session_id s) live running)
      else if role = ''scout'' then Inr (scout (ss_agent_id s) (ss_session_id s) live running)
      else if (role = ''worker'' \<or> role = ''reviewer'') \<and> truthy (ss_run_id s)
      then Inr (worker (ss_agent_id s) (the (ss_run_id s)) (ss_session_id s) live running)
      else Inl unauthenticated)"

definition resolveControlPrincipal ::
  "env \<Rightarrow> string option \<Rightarrow> bool \<Rightarrow> orc_state \<Rightarrow> ControlPrincipal option result" where
  "resolveControlPrincipal e credential is_operator st =
     (if truthy credential
      then (case sessionForCredential e (the credential) st of
              None \<Rightarrow> Inl unauthenticated
            | Some s \<Rightarrow>
                (let role = (case List.find (\<lambda>a. a_agent_id a = ss_agent_id s) (listAgents e st) of
                               None \<Rightarrow> ''worker'' | Some a \<Rightarrow> or_default (a_role a) ''worker'') in
                 rbind (session_principal role s) (\<lambda>p. Inr (Some p))))
      else Inr (if is_operator then Some operator else None))"

definition requirePrincipal :: "ControlPrincipal option \<Rightarrow> bool \<Rightarrow> ControlPrincipal result" where
  "requirePrincipal p allowOffline =
     (case p of
        None \<Rightarrow> Inl (ControlError ''unauthenticated'' ''Caller is not an authenticated running session or operator'')
      | Some c \<Rightarrow>
          if \<not> allowOffline \<and> \<not> principal_live c
          then Inl (ControlError ''unauthenticated'' ''Caller is not an authenticated running session or operator'')
          else Inr c)"

fun is_reader :: "ControlPrincipal \<Rightarrow> bool" where
  "is_reader (worker a r s l n) = False"
| "is_reader (scout a s l n) = False"
| "is_reader _ = True"

definition requireProjectReader :: "ControlPrincipal option \<Rightarrow> ControlPrincipal result" where
  "requireProjectReader p =
     rbind (requirePrincipal p False) (\<lambda>caller.
       if \<not> is_reader caller
       then Inl (ControlError ''forbidden'' ''Only the master or the operator may use this route'')
       else Inr caller)"

definition requireProjectAuthor :: "env \<Rightarrow> ControlPrincipal option \<Rightarrow> string option \<Rightarrow> orc_state \<Rightarrow> string result" where
  "requireProjectAuthor e p actorId st =
     rbind (requireProjectReader p) (\<lambda>caller.
       case principal_agent caller of
         Some a \<Rightarrow> Inr a
       | None \<Rightarrow>
           (let actor = or_default actorId ''human'' in
            if actor \<noteq> ''human'' \<and> actor \<notin> set (map a_agent_id (listAgents e st))
            then Inl (ControlError ''bad_request'' (''Actor agent not found: '' @ actor))
            else Inr actor))"

section \<open>Authorizing a lifecycle request (workerLifecycle.ts)\<close>

fun request_run :: "LifecycleRequest \<Rightarrow> string option" where
  "request_run (run_start r a) = Some r"
| "request_run (run_finish r a) = Some r"
| "request_run (run_work_complete r a) = Some r"
| "request_run (input_timeout r a) = Some r"
| "request_run (run_fail r a x y z) = Some r"
| "request_run (progress r a ev x y z) = Some r"
| "request_run (report_for_duty_request a t) = None"

fun request_agent :: "LifecycleRequest \<Rightarrow> string" where
  "request_agent (run_start r a) = a"
| "request_agent (run_finish r a) = a"
| "request_agent (run_work_complete r a) = a"
| "request_agent (input_timeout r a) = a"
| "request_agent (run_fail r a x y z) = a"
| "request_agent (progress r a ev x y z) = a"
| "request_agent (report_for_duty_request a t) = a"

fun is_finishing :: "LifecycleRequest \<Rightarrow> bool" where
  "is_finishing (run_finish r a) = True"
| "is_finishing (progress r a ev x y z) = (ev = ''run_finished'')"
| "is_finishing _ = False"

definition not_running :: orc_error where
  "not_running = ControlError ''unauthenticated'' ''Lifecycle caller is not an authenticated running session''"

definition ended_run_allowed :: "LifecycleRequest \<Rightarrow> ControlPrincipal \<Rightarrow> orc_state \<Rightarrow> bool" where
  "ended_run_allowed req p st \<longleftrightarrow>
     request_run req \<noteq> None \<and> principal_run p = request_run req \<and> is_finishing req \<and>
     claim_in CS_done (fst (loadClaim (the (request_run req)) st))"

definition authorizeLifecycle :: "env \<Rightarrow> string \<Rightarrow> LifecycleRequest \<Rightarrow> orc_state \<Rightarrow> bool result" where
  "authorizeLifecycle e credential req st =
     (case resolveControlPrincipal e (Some credential) False st of
        Inl (ControlError code m) \<Rightarrow> if code = ''unauthenticated'' then Inl not_running else Inl (ControlError code m)
      | Inl err \<Rightarrow> Inl err
      | Inr None \<Rightarrow> Inl not_running
      | Inr (Some p) \<Rightarrow>
          if \<not> principal_live p \<and> \<not> ended_run_allowed req p st then Inl not_running
          else if principal_agent p \<noteq> Some (request_agent req)
          then Inl (ControlError ''forbidden'' (''Session belongs to '' @ or_default (principal_agent p) ''null'' @ '', not '' @ request_agent req))
          else if request_run req \<noteq> None \<and> principal_run p \<noteq> request_run req
          then Inl (ControlError ''forbidden'' (''Session is not scoped to run '' @ the (request_run req)))
          else if (case req of report_for_duty_request a t \<Rightarrow> Some t \<noteq> principal_session p | _ \<Rightarrow> False)
          then Inl (ControlError ''forbidden'' ''report-for-duty must present the caller's own session id'')
          else Inr (principal_live p))"

section \<open>Supervision (sessionSupervisor.ts)\<close>

record SessionInspection =
  si_alive :: bool
  si_writable :: bool
  si_pid :: "int option"
  si_processStart :: "string option"
  si_reason :: "string option"

datatype ReconcileOutcome = RO_adopted | RO_recoverable | RO_unknown | RO_exited | RO_superseded

fun session_state_str :: "SessionState \<Rightarrow> string" where
  "session_state_str SS_running = ''running''"
| "session_state_str SS_recoverable = ''recoverable''"
| "session_state_str SS_unknown = ''unknown''"
| "session_state_str SS_offline = ''offline''"

fun reconcile_outcome_str :: "ReconcileOutcome \<Rightarrow> string" where
  "reconcile_outcome_str RO_adopted = ''adopted''"
| "reconcile_outcome_str RO_recoverable = ''recoverable''"
| "reconcile_outcome_str RO_unknown = ''unknown''"
| "reconcile_outcome_str RO_exited = ''exited''"
| "reconcile_outcome_str RO_superseded = ''superseded''"

definition SESSION_OWNER_TTL_MS :: int where "SESSION_OWNER_TTL_MS = 120000"

definition listSupervisedSessions :: "SessionState list option \<Rightarrow> runtime_db \<Rightarrow> session_row list" where
  "listSupervisedSessions states db =
     (case states of None \<Rightarrow> db_sessions db | Some ss \<Rightarrow> filter (\<lambda>s. ss_state s \<in> set ss) (db_sessions db))"

record decision =
  de_state :: SessionState
  de_outcome :: ReconcileOutcome
  de_reason :: "string option"

record state_options =
  so_ownerId :: "string option"
  so_ownerTtlMs :: "int option"
  so_outcome :: "ReconcileOutcome option"

definition write_session_state ::
  "env \<Rightarrow> SessionState \<Rightarrow> string option \<Rightarrow> state_options \<Rightarrow> session_row \<Rightarrow> session_row" where
  "write_session_state e state reason opts s =
     s\<lparr>ss_state := state, ss_state_reason := reason, ss_updated_at := now_ts e,
       ss_owner_id := coalesce (so_ownerId opts) (ss_owner_id s),
       ss_owner_expires_at := (if truthy (so_ownerId opts)
          then Some (ts_plus (now_ts e) (or_default (so_ownerTtlMs opts) SESSION_OWNER_TTL_MS)) else None)\<rparr>"

definition session_reconciled_event ::
  "env \<Rightarrow> session_row \<Rightarrow> SessionState \<Rightarrow> string option \<Rightarrow> state_options \<Rightarrow> runtime_db \<Rightarrow> OrcEvent" where
  "session_reconciled_event e s state reason opts db =
     (let run = nonempty (ss_run_id s);
          task_ref = (case run of None \<Rightarrow> None
                      | Some r \<Rightarrow> map_option rn_task_ref (List.find (\<lambda>x. rn_run_id x = r) (db_runs db))) in
      mk_event (now_ts e) ''session_reconciled'' ''coordinator'' ''coordinator'' run task_ref (Some (ss_agent_id s))
        (Some ([(''session_id'', JStr (ss_session_id s)), (''state'', JStr (session_state_str state)),
                (''previous_state'', JStr (session_state_str (ss_state s))), (''transport'', jstr_opt (ss_transport s))] @
               opt_field ''outcome'' (map_option reconcile_outcome_str (so_outcome opts)) @
               opt_field ''reason'' (nonempty reason))))"

text \<open>
  One transaction: the row and its audit event, or nothing. A decision that repeats the recorded
  state, reason and owner writes nothing. The unique index on running sessions can reject it.
\<close>

definition setSessionState ::
  "env \<Rightarrow> string \<Rightarrow> SessionState \<Rightarrow> string option \<Rightarrow> state_options \<Rightarrow> runtime_db \<Rightarrow> (bool \<times> runtime_db) result" where
  "setSessionState e sessionId state reason opts db =
     (case List.find (\<lambda>s. ss_session_id s = sessionId) (db_sessions db) of
        None \<Rightarrow> Inr (False, db)
      | Some s \<Rightarrow>
          if ss_state s = state \<and> ss_state_reason s = reason \<and> ss_owner_id s = coalesce (so_ownerId opts) (ss_owner_id s)
          then Inr (False, db)
          else
            (let rows = update_where (\<lambda>x. ss_session_id x = sessionId) (write_session_state e state reason opts) (db_sessions db) in
             if \<not> sessions_one_running rows then Inl (SqliteError ''UNIQUE constraint failed: sessions.agent_id'')
             else rbind (append_event e (session_reconciled_event e s state reason opts db) (db\<lparr>db_sessions := rows\<rparr>))
                    (\<lambda>db'. Inr (True, db'))))"

definition currentSessionForAgent :: "string \<Rightarrow> runtime_db \<Rightarrow> session_row option" where
  "currentSessionForAgent agentId db =
     List.find (\<lambda>s. ss_agent_id s = agentId \<and> ss_state s \<noteq> SS_offline) (rev (db_sessions db))"

section \<open>Process identity (processIdentity.ts)\<close>

text \<open>
  What the operating system answers: whether a signal can reach a PID (or is refused for lack of
  permission), the start field of \<^verbatim>\<open>/proc/<pid>/stat\<close> where there is a procfs, and the start time that
  \<^verbatim>\<open>ps\<close> prints, in UTC and in the caller's own locale.
\<close>

record os_view =
  os_signal :: "int \<Rightarrow> bool"
  os_stat_start :: "int \<Rightarrow> string option"
  os_ps_utc :: "int \<Rightarrow> string"
  os_ps_local :: "int \<Rightarrow> string"

definition isPidAlive :: "os_view \<Rightarrow> int \<Rightarrow> bool" where
  "isPidAlive os pid \<longleftrightarrow> 0 < pid \<and> pid \<le> MAX_SAFE_INTEGER \<and> os_signal os pid"

definition readProcessStart :: "os_view \<Rightarrow> int \<Rightarrow> string option" where
  "readProcessStart os pid =
     (if \<not> isPidAlive os pid then None
      else case nonempty (os_stat_start os pid) of
        Some field \<Rightarrow> Some (''proc:'' @ field)
      | None \<Rightarrow> if os_ps_utc os pid \<noteq> [] then Some (''psutc:'' @ os_ps_utc os pid) else None)"

definition isSameProcess :: "os_view \<Rightarrow> int \<Rightarrow> string \<Rightarrow> bool" where
  "isSameProcess os pid start =
     (if starts_with ''ps:'' start
      then isPidAlive os pid \<and> os_ps_local os pid \<noteq> [] \<and> ''ps:'' @ os_ps_local os pid = start
      else readProcessStart os pid = Some start)"

section \<open>Deciding a session's state\<close>

definition identityMismatch :: "os_view \<Rightarrow> session_row \<Rightarrow> SessionInspection option \<Rightarrow> bool" where
  "identityMismatch os s i =
     (case (i, ss_process_pid s, ss_process_start s) of
        (Some i, Some pid, Some start) \<Rightarrow>
          if \<not> si_alive i then False
          else if si_pid i \<noteq> Some pid then True
          else if si_processStart i = Some start then False
          else \<not> (starts_with ''ps:'' start \<and> isSameProcess os pid start)
      | _ \<Rightarrow> False)"

definition renewSessionOwnership :: "env \<Rightarrow> string \<Rightarrow> int \<Rightarrow> runtime_db \<Rightarrow> nat \<times> runtime_db" where
  "renewSessionOwnership e own ttlMs db =
     (let mine = (\<lambda>s. ss_state s = SS_running \<and> ss_owner_id s = Some own) in
      (length (filter mine (db_sessions db)),
       db\<lparr>db_sessions := update_where mine (\<lambda>s. s\<lparr>ss_owner_expires_at := Some (ts_plus (now_ts e) ttlMs)\<rparr>) (db_sessions db)\<rparr>))"

definition IDENTITY_MISMATCH_REASON :: string where
  "IDENTITY_MISMATCH_REASON = ''live process does not match the recorded process identity''"

definition classifySession :: "os_view \<Rightarrow> session_row \<Rightarrow> SessionInspection option \<Rightarrow> decision" where
  "classifySession os s inspection =
     (case inspection of
        None \<Rightarrow> \<lparr>de_state = SS_offline, de_outcome = RO_exited, de_reason = Some ''session process exited''\<rparr>
      | Some i \<Rightarrow>
          if \<not> si_alive i
          then \<lparr>de_state = SS_offline, de_outcome = RO_exited,
                de_reason = Some (or_default (si_reason i) ''session process exited'')\<rparr>
          else if ss_process_pid s = None \<or> ss_process_start s = None
          then \<lparr>de_state = SS_unknown, de_outcome = RO_unknown,
                de_reason = Some (''no recorded process identity; cannot rule out PID reuse. '' @
                  ''Stop the worker (orc worker-remove) or wait for it to exit'')\<rparr>
          else if identityMismatch os s (Some i)
          then \<lparr>de_state = SS_unknown, de_outcome = RO_unknown, de_reason = Some IDENTITY_MISMATCH_REASON\<rparr>
          else if \<not> si_writable i
          then \<lparr>de_state = SS_recoverable, de_outcome = RO_recoverable,
                de_reason = Some (or_default (si_reason i) ''session is alive but not writable'' @
                  ''; the worker keeps running. Stop it with orc worker-remove to relaunch'')\<rparr>
          else \<lparr>de_state = SS_running, de_outcome = RO_adopted, de_reason = None\<rparr>)"

record ReconcileResult =
  rr_session_id :: string
  rr_agent_id :: string
  rr_previous_state :: SessionState
  rr_decision :: decision

definition reconcile_decision ::
  "os_view \<Rightarrow> (Agent \<Rightarrow> session_row \<Rightarrow> SessionInspection option) \<Rightarrow> Agent option \<Rightarrow> session_row \<Rightarrow> decision" where
  "reconcile_decision os inspect agent s =
     (case agent of
        None \<Rightarrow> \<lparr>de_state = SS_offline, de_outcome = RO_superseded, de_reason = Some ''agent no longer references this session''\<rparr>
      | Some a \<Rightarrow>
          if falsy (a_session_handle a) \<or> a_session_token a \<noteq> Some (ss_session_id s)
          then \<lparr>de_state = SS_offline, de_outcome = RO_superseded, de_reason = Some ''agent no longer references this session''\<rparr>
          else classifySession os s (inspect a s))"

definition decision_options :: "string \<Rightarrow> int \<Rightarrow> decision \<Rightarrow> state_options" where
  "decision_options own ttl d =
     (if de_outcome d = RO_adopted then \<lparr>so_ownerId = Some own, so_ownerTtlMs = Some ttl, so_outcome = Some (de_outcome d)\<rparr>
      else \<lparr>so_ownerId = None, so_ownerTtlMs = None, so_outcome = Some (de_outcome d)\<rparr>)"

text \<open>The agent of a session: \<^verbatim>\<open>new Map(...)\<close> keeps the last entry of a repeated key.\<close>

definition agent_by_id :: "Agent list \<Rightarrow> string \<Rightarrow> Agent option" where
  "agent_by_id agents i = List.find (\<lambda>a. a_agent_id a = i) (rev agents)"

definition reconcile_one ::
  "env \<Rightarrow> os_view \<Rightarrow> (Agent \<Rightarrow> session_row \<Rightarrow> SessionInspection option) \<Rightarrow> string \<Rightarrow> int \<Rightarrow> Agent list \<Rightarrow>
   session_row \<Rightarrow> ReconcileResult list \<times> runtime_db \<Rightarrow> (ReconcileResult list \<times> runtime_db) result" where
  "reconcile_one e os inspect own ttl agents s acc =
     (let (results, db) = acc; agent = agent_by_id agents (ss_agent_id s) in
      if (case agent of None \<Rightarrow> False | Some a \<Rightarrow> a_role a = Some ''master'') then Inr (results, db)
      else
        (let d = reconcile_decision os inspect agent s in
         rbind (setSessionState e (ss_session_id s) (de_state d) (de_reason d) (decision_options own ttl d) db) (\<lambda>(changed, db').
           Inr (results @ (if changed \<or> de_state d \<noteq> ss_state s
                  then [\<lparr>rr_session_id = ss_session_id s, rr_agent_id = ss_agent_id s, rr_previous_state = ss_state s, rr_decision = d\<rparr>]
                  else []), db'))))"

definition reconcileSessions ::
  "env \<Rightarrow> os_view \<Rightarrow> (Agent \<Rightarrow> session_row \<Rightarrow> SessionInspection option) \<Rightarrow> string \<Rightarrow> int \<Rightarrow> Agent list \<Rightarrow>
   runtime_db \<Rightarrow> (ReconcileResult list \<times> runtime_db) result" where
  "reconcileSessions e os inspect own ttl agents db =
     rfold (reconcile_one e os inspect own ttl agents)
       (listSupervisedSessions (Some [SS_running, SS_recoverable, SS_unknown]) db) ([], db)"

end
