(* ===== verification/Session_Props.thy ===== *)
theory Session_Props
  imports Sessions Lifecycle_Props
begin

text \<open>
  Properties of supervision and authorization: what a reconciliation pass does to the session table,
  that only verified processes end up running, that a second pass writes nothing, that an authorized
  request is the caller's own, and that cleaning up a worker revokes its credentials.
\<close>

section \<open>One supervision decision\<close>

definition session_ids_ok :: "runtime_db \<Rightarrow> bool" where
  "session_ids_ok db \<longleftrightarrow> distinct (map ss_session_id (db_sessions db))"

text \<open>The columns that supervision never writes.\<close>

definition same_session :: "session_row \<Rightarrow> session_row \<Rightarrow> bool" where
  "same_session s s' \<longleftrightarrow>
     ss_session_id s' = ss_session_id s \<and> ss_agent_id s' = ss_agent_id s \<and> ss_run_id s' = ss_run_id s \<and>
     ss_provider s' = ss_provider s \<and> ss_provider_ref s' = ss_provider_ref s \<and> ss_transport s' = ss_transport s \<and>
     ss_process_pid s' = ss_process_pid s \<and> ss_process_start s' = ss_process_start s \<and>
     ss_credential_hash s' = ss_credential_hash s \<and> ss_started_at s' = ss_started_at s"

lemma same_session_refl [simp]: "same_session s s"
  by (simp add: same_session_def)

lemma same_session_trans: "same_session a b \<Longrightarrow> same_session b c \<Longrightarrow> same_session a c"
  by (simp add: same_session_def)

lemma same_session_write [simp]: "same_session s (write_session_state e st re opts s)"
  by (simp add: same_session_def write_session_state_def)

definition settled :: "string \<Rightarrow> decision \<Rightarrow> session_row \<Rightarrow> bool" where
  "settled own d s \<longleftrightarrow>
     ss_state s = de_state d \<and> ss_state_reason s = de_reason d \<and> (de_outcome d = RO_adopted \<longrightarrow> ss_owner_id s = Some own)"

text \<open>A settled session is left alone, and any other is settled in place or the transaction fails.\<close>

lemma setSessionState_settled:
  assumes "session_ids_ok db" "s \<in> set (db_sessions db)" "settled own d s"
  shows "setSessionState e (ss_session_id s) (de_state d) (de_reason d) (decision_options own ttl d) db = Inr (False, db)"
proof -
  have "List.find (\<lambda>x. ss_session_id x = ss_session_id s) (db_sessions db) = Some s"
    using assms(1,2) unfolding session_ids_ok_def by (rule find_distinct_key)
  with assms(3) show ?thesis
    by (auto simp: setSessionState_def settled_def decision_options_def)
qed

lemma setSessionState_effect:
  assumes ids: "session_ids_ok db" and s: "s \<in> set (db_sessions db)"
    and r: "setSessionState e (ss_session_id s) (de_state d) (de_reason d) (decision_options own ttl d) db = Inr (ch, db')"
  obtains g where "db_sessions db' = map (\<lambda>x. if x = s then g x else x) (db_sessions db)" "same_session s (g s)" "settled own d (g s)"
proof -
  let ?w = "write_session_state e (de_state d) (de_reason d) (decision_options own ttl d)"
  have f: "List.find (\<lambda>x. ss_session_id x = ss_session_id s) (db_sessions db) = Some s"
    using ids s unfolding session_ids_ok_def by (rule find_distinct_key)
  have same: "x = s" if "x \<in> set (db_sessions db)" "ss_session_id x = ss_session_id s" for x
    using ids that s by (auto simp: session_ids_ok_def distinct_map dest: inj_onD)
  consider (keep) "db' = db" "settled own d s"
    | (changed) "db_sessions db' = update_where (\<lambda>x. ss_session_id x = ss_session_id s) ?w (db_sessions db)"
  proof (cases "ss_state s = de_state d \<and> ss_state_reason s = de_reason d \<and>
      ss_owner_id s = coalesce (so_ownerId (decision_options own ttl d)) (ss_owner_id s)")
    case True
    with r f have "db' = db" by (simp add: setSessionState_def)
    moreover from True have "settled own d s" by (auto simp: settled_def decision_options_def)
    ultimately show ?thesis by (rule that(1))
  next
    case False
    with r f show ?thesis
      by (intro that(2)) (auto simp: setSessionState_def rbind_Inr_iff Let_def split: if_splits dest: append_event_frame)
  qed
  then show thesis
  proof cases
    case keep
    with that [of "\<lambda>x. x"] show thesis by simp
  next
    case changed
    have "map (\<lambda>x. if x = s then ?w x else x) (db_sessions db) = update_where (\<lambda>x. ss_session_id x = ss_session_id s) ?w (db_sessions db)"
      unfolding update_where_def by (rule map_cong) (auto dest: same)
    moreover have "settled own d (?w s)"
      by (simp add: settled_def write_session_state_def decision_options_def)
    ultimately show thesis using changed that [of ?w] by simp
  qed
qed

section \<open>A reconciliation pass\<close>

definition foreground :: "Agent list \<Rightarrow> session_row \<Rightarrow> bool" where
  "foreground agents s \<longleftrightarrow>
     (case agent_by_id agents (ss_agent_id s) of None \<Rightarrow> False | Some a \<Rightarrow> a_role a = Some ''master'')"

definition decide :: "os_view \<Rightarrow> (Agent \<Rightarrow> session_row \<Rightarrow> SessionInspection option) \<Rightarrow> Agent list \<Rightarrow> session_row \<Rightarrow> decision" where
  "decide os inspect agents s = reconcile_decision os inspect (agent_by_id agents (ss_agent_id s)) s"

text \<open>How a pass over the listed sessions rewrites the table: row by row, each listed row settled.\<close>

definition pass_effect ::
  "(session_row \<Rightarrow> bool) \<Rightarrow> (session_row \<Rightarrow> decision) \<Rightarrow> string \<Rightarrow> session_row list \<Rightarrow> session_row list \<Rightarrow> (session_row \<Rightarrow> session_row) \<Rightarrow> bool" where
  "pass_effect skip dec own listed rows f \<longleftrightarrow>
     (\<forall>s \<in> set rows. same_session s (f s) \<and> (s \<notin> set listed \<or> skip s \<longrightarrow> f s = s) \<and>
        (s \<in> set listed \<and> \<not> skip s \<longrightarrow> settled own (dec s) (f s)))"

lemma reconcile_one_skip:
  "foreground agents s \<Longrightarrow> reconcile_one e os inspect own ttl agents s (rs, db) = Inr (rs, db)"
  by (simp add: reconcile_one_def foreground_def)

lemma reconcile_one_step:
  assumes "\<not> foreground agents s" "reconcile_one e os inspect own ttl agents s (rs, db) = Inr (rs', db')"
  obtains ch where "setSessionState e (ss_session_id s) (de_state (decide os inspect agents s)) (de_reason (decide os inspect agents s))
      (decision_options own ttl (decide os inspect agents s)) db = Inr (ch, db')"
  using assms by (auto simp: reconcile_one_def foreground_def decide_def rbind_Inr_iff Let_def)

lemma map_update_ids:
  assumes "\<And>x. x \<in> set xs \<Longrightarrow> same_session x (f x)"
  shows "map ss_session_id (map f xs) = map ss_session_id xs"
  using assms by (simp add: same_session_def)

lemma pass_effect_step:
  assumes ids: "distinct (map ss_session_id rows)" and x: "x \<in> set rows" "x \<notin> set xs" "\<not> skip x"
    and listed: "set xs \<subseteq> set rows" and g: "same_session x (g x)" "settled own (dec x) (g x)"
    and rest: "pass_effect skip dec own xs (map (\<lambda>y. if y = x then g y else y) rows) f"
  shows "pass_effect skip dec own (x # xs) rows (\<lambda>y. f (if y = x then g y else y))"
  unfolding pass_effect_def
proof (intro ballI)
  fix s assume s: "s \<in> set rows"
  let ?h = "\<lambda>y. if y = x then g y else y"
  have "?h s \<in> set (map ?h rows)" using s by auto
  with rest have f: "same_session (?h s) (f (?h s))" "?h s \<notin> set xs \<or> skip (?h s) \<longrightarrow> f (?h s) = ?h s"
      "?h s \<in> set xs \<and> \<not> skip (?h s) \<longrightarrow> settled own (dec (?h s)) (f (?h s))"
    by (auto simp: pass_effect_def)
  have "g x \<notin> set xs"
  proof
    assume "g x \<in> set xs"
    with listed have "g x \<in> set rows" by auto
    with ids x(1) g(1) have "g x = x" by (auto simp: distinct_map same_session_def dest: inj_onD)
    with \<open>g x \<in> set xs\<close> x(2) show False by simp
  qed
  with f g x(2,3) show "same_session s (f (?h s)) \<and> (s \<notin> set (x # xs) \<or> skip s \<longrightarrow> f (?h s) = s) \<and>
      (s \<in> set (x # xs) \<and> \<not> skip s \<longrightarrow> settled own (dec s) (f (?h s)))"
    by (cases "s = x") (auto intro: same_session_trans)
qed

lemma pass_effect_skip:
  "skip x \<Longrightarrow> x \<notin> set xs \<Longrightarrow> pass_effect skip dec own xs rows f \<Longrightarrow> pass_effect skip dec own (x # xs) rows f"
  unfolding pass_effect_def by auto

lemma reconcile_pass:
  assumes "rfold (reconcile_one e os inspect own ttl agents) xs (rs, db) = Inr (rs', db')" "session_ids_ok db"
    "distinct xs" "set xs \<subseteq> set (db_sessions db)"
  shows "\<exists>f. db_sessions db' = map f (db_sessions db) \<and>
    pass_effect (foreground agents) (decide os inspect agents) own xs (db_sessions db) f"
  using assms
proof (induction xs arbitrary: rs db)
  case Nil
  then have "db_sessions db' = map (\<lambda>s. s) (db_sessions db)" by simp
  then show ?case by (intro exI [of _ "\<lambda>s. s"]) (simp add: pass_effect_def)
next
  case (Cons x xs)
  from Cons.prems(1) obtain rs1 db1 where one: "reconcile_one e os inspect own ttl agents x (rs, db) = Inr (rs1, db1)"
      and rest: "rfold (reconcile_one e os inspect own ttl agents) xs (rs1, db1) = Inr (rs', db')"
    by (auto simp: rbind_Inr_iff)
  show ?case
  proof (cases "foreground agents x")
    case True
    with one have "rs1 = rs" "db1 = db" by (simp_all add: reconcile_one_skip)
    with Cons.IH [OF rest] Cons.prems True show ?thesis by (auto intro: pass_effect_skip)
  next
    case False
    obtain ch where st: "setSessionState e (ss_session_id x) (de_state (decide os inspect agents x)) (de_reason (decide os inspect agents x))
        (decision_options own ttl (decide os inspect agents x)) db = Inr (ch, db1)"
      using reconcile_one_step [OF False one] .
    obtain g where g: "db_sessions db1 = map (\<lambda>y. if y = x then g y else y) (db_sessions db)" "same_session x (g x)"
        "settled own (decide os inspect agents x) (g x)"
      using setSessionState_effect [OF Cons.prems(2) _ st] Cons.prems(4) by auto
    have "map ss_session_id (db_sessions db1) = map ss_session_id (db_sessions db)"
      unfolding g(1) by (rule map_update_ids) (use g(2) in auto)
    then have ids: "session_ids_ok db1" using Cons.prems(2) by (simp add: session_ids_ok_def)
    have "set xs \<subseteq> set (db_sessions db1)" using Cons.prems(3,4) g(1) by auto
    with Cons.IH [OF rest ids] Cons.prems(3) obtain f where f: "db_sessions db' = map f (db_sessions db1)"
        "pass_effect (foreground agents) (decide os inspect agents) own xs (db_sessions db1) f" by auto
    have "pass_effect (foreground agents) (decide os inspect agents) own (x # xs) (db_sessions db) (\<lambda>y. f (if y = x then g y else y))"
      by (rule pass_effect_step) (use Cons.prems False g f in \<open>auto simp: session_ids_ok_def\<close>)
    moreover have "db_sessions db' = map (\<lambda>y. f (if y = x then g y else y)) (db_sessions db)" using f(1) g(1) by (simp add: comp_def)
    ultimately show ?thesis by blast
  qed
qed

lemma listed_distinct: "session_ids_ok db \<Longrightarrow> distinct (listSupervisedSessions sts db) \<and> set (listSupervisedSessions sts db) \<subseteq> set (db_sessions db)"
  by (auto simp: listSupervisedSessions_def session_ids_ok_def distinct_map split: option.split)

lemma in_listed: "s \<in> set (listSupervisedSessions (Some [SS_running, SS_recoverable, SS_unknown]) db) \<longleftrightarrow>
    s \<in> set (db_sessions db) \<and> ss_state s \<noteq> SS_offline"
  by (cases "ss_state s") (auto simp: listSupervisedSessions_def)

lemma reconcile_effect:
  assumes "reconcileSessions e os inspect own ttl agents db = Inr (rs, db')" "session_ids_ok db"
  obtains f where "db_sessions db' = map f (db_sessions db)"
    "\<And>s. s \<in> set (db_sessions db) \<Longrightarrow> same_session s (f s)"
    "\<And>s. s \<in> set (db_sessions db) \<Longrightarrow> ss_state s = SS_offline \<or> foreground agents s \<Longrightarrow> f s = s"
    "\<And>s. s \<in> set (db_sessions db) \<Longrightarrow> ss_state s \<noteq> SS_offline \<Longrightarrow> \<not> foreground agents s \<Longrightarrow> settled own (decide os inspect agents s) (f s)"
proof -
  let ?xs = "listSupervisedSessions (Some [SS_running, SS_recoverable, SS_unknown]) db"
  from reconcile_pass [OF assms(1) [unfolded reconcileSessions_def] assms(2)] listed_distinct [OF assms(2)]
  obtain f where f: "db_sessions db' = map f (db_sessions db)"
      and p: "pass_effect (foreground agents) (decide os inspect agents) own ?xs (db_sessions db) f" by blast
  from p show thesis unfolding pass_effect_def in_listed by (intro that [OF f]) auto
qed

section \<open>Only a verified process runs\<close>

lemma classify_running:
  assumes "de_state (classifySession os s i) = SS_running"
  obtains j pid start where "i = Some j" "si_alive j" "si_writable j" "ss_process_pid s = Some pid" "si_pid j = Some pid"
    "ss_process_start s = Some start"
    "si_processStart j = Some start \<or> (starts_with ''ps:'' start \<and> isSameProcess os pid start)"
    "de_outcome (classifySession os s i) = RO_adopted"
  using assms
  by (auto simp: classifySession_def identityMismatch_def split: option.splits if_splits)

text \<open>
  C11. A reused PID is never adopted: after a reconciliation, every running session outside the
  foreground master belongs to an agent that still references it, its inspected process is alive and
  writable with the recorded PID and the recorded start time (as the inspection read it, or as the
  process itself confirms for an old fingerprint), and the reconciling coordinator owns it.
\<close>

theorem reconciled_running_sessions_are_verified:
  assumes "reconcileSessions e os inspect own ttl agents db = Inr (rs, db')" "session_ids_ok db"
    "s' \<in> set (db_sessions db')" "ss_state s' = SS_running" "\<not> foreground agents s'"
  shows "\<exists>s \<in> set (db_sessions db). \<exists>a i pid start. same_session s s' \<and>
    agent_by_id agents (ss_agent_id s') = Some a \<and> a_session_token a = Some (ss_session_id s') \<and>
    inspect a s = Some i \<and> si_alive i \<and> si_writable i \<and>
    ss_process_pid s' = Some pid \<and> si_pid i = Some pid \<and> ss_process_start s' = Some start \<and>
    (si_processStart i = Some start \<or> (starts_with ''ps:'' start \<and> isSameProcess os pid start)) \<and>
    ss_owner_id s' = Some own"
proof -
  obtain f where f: "db_sessions db' = map f (db_sessions db)"
    "\<And>s. s \<in> set (db_sessions db) \<Longrightarrow> same_session s (f s)"
    "\<And>s. s \<in> set (db_sessions db) \<Longrightarrow> ss_state s = SS_offline \<or> foreground agents s \<Longrightarrow> f s = s"
    "\<And>s. s \<in> set (db_sessions db) \<Longrightarrow> ss_state s \<noteq> SS_offline \<Longrightarrow> \<not> foreground agents s \<Longrightarrow> settled own (decide os inspect agents s) (f s)"
    using reconcile_effect [OF assms(1,2)] by metis
  from assms(3) f(1) obtain s where s: "s \<in> set (db_sessions db)" "s' = f s" by auto
  have same: "same_session s s'" using f(2) s by simp
  then have fg: "\<not> foreground agents s" using assms(5) by (simp add: foreground_def same_session_def)
  have on: "ss_state s \<noteq> SS_offline" using f(3) [OF s(1)] s(2) assms(4) by auto
  from f(4) [OF s(1) on fg] s(2) have d: "settled own (decide os inspect agents s) s'" by simp
  then have run: "de_state (decide os inspect agents s) = SS_running" using assms(4) by (simp add: settled_def)
  then obtain a where a: "agent_by_id agents (ss_agent_id s) = Some a" "a_session_token a = Some (ss_session_id s)"
      and c: "decide os inspect agents s = classifySession os s (inspect a s)"
    by (auto simp: decide_def reconcile_decision_def split: option.splits if_splits)
  from classify_running [OF run [unfolded c]] obtain j pid start where
    "inspect a s = Some j" "si_alive j" "si_writable j" "ss_process_pid s = Some pid" "si_pid j = Some pid"
    "ss_process_start s = Some start"
    "si_processStart j = Some start \<or> (starts_with ''ps:'' start \<and> isSameProcess os pid start)"
    "de_outcome (decide os inspect agents s) = RO_adopted"
    by (metis c)
  with a s(1) same d show ?thesis
    by (intro bexI [of _ s] exI [of _ a] exI [of _ j] exI [of _ pid] exI [of _ start])
      (simp_all add: same_session_def settled_def)
qed

section \<open>A second pass writes nothing\<close>

lemma reconcile_settled:
  assumes "session_ids_ok db" "set xs \<subseteq> set (db_sessions db)"
    "\<And>s. s \<in> set xs \<Longrightarrow> \<not> foreground agents s \<Longrightarrow> settled own (decide os inspect agents s) s"
  shows "rfold (reconcile_one e os inspect own ttl agents) xs (rs, db) = Inr (rs, db)"
  using assms(2,3)
proof (induction xs)
  case (Cons x xs)
  have "reconcile_one e os inspect own ttl agents x (rs, db) = Inr (rs, db)"
  proof (cases "foreground agents x")
    case False
    then have s: "settled own (decide os inspect agents x) x" using Cons.prems by simp
    have "setSessionState e (ss_session_id x) (de_state (decide os inspect agents x)) (de_reason (decide os inspect agents x))
        (decision_options own ttl (decide os inspect agents x)) db = Inr (False, db)"
      by (rule setSessionState_settled [OF assms(1) _ s]) (use Cons.prems in auto)
    with False s show ?thesis
      by (simp add: reconcile_one_def foreground_def decide_def settled_def Let_def)
  qed (rule reconcile_one_skip)
  with Cons show ?case by simp
qed simp

text \<open>
  Reconciliation settles in one pass: with the same agents and an inspection that reads the same
  answer for a session whose recorded identity did not change, a second pass reports no change and
  writes neither a row nor an event.
\<close>

theorem reconciliation_is_idempotent:
  assumes "reconcileSessions e os inspect own ttl agents db = Inr (rs, db')" "session_ids_ok db"
    "\<And>a s s'. same_session s s' \<Longrightarrow> inspect a s' = inspect a s"
  shows "reconcileSessions e' os inspect own ttl agents db' = Inr ([], db')"
proof -
  obtain f where f: "db_sessions db' = map f (db_sessions db)"
    "\<And>s. s \<in> set (db_sessions db) \<Longrightarrow> same_session s (f s)"
    "\<And>s. s \<in> set (db_sessions db) \<Longrightarrow> ss_state s = SS_offline \<or> foreground agents s \<Longrightarrow> f s = s"
    "\<And>s. s \<in> set (db_sessions db) \<Longrightarrow> ss_state s \<noteq> SS_offline \<Longrightarrow> \<not> foreground agents s \<Longrightarrow> settled own (decide os inspect agents s) (f s)"
    using reconcile_effect [OF assms(1,2)] by metis
  have "map ss_session_id (db_sessions db') = map ss_session_id (db_sessions db)"
    unfolding f(1) by (rule map_update_ids) (rule f(2))
  then have ids: "session_ids_ok db'" using assms(2) by (simp add: session_ids_ok_def)
  have dec: "decide os inspect agents s' = decide os inspect agents s \<and> foreground agents s' = foreground agents s"
    if "same_session s s'" for s s'
    using that assms(3) [OF that]
    by (simp add: decide_def foreground_def same_session_def reconcile_decision_def classifySession_def identityMismatch_def cong: if_cong option.case_cong)
  show ?thesis unfolding reconcileSessions_def
  proof (rule reconcile_settled [OF ids])
    fix s' assume s': "s' \<in> set (listSupervisedSessions (Some [SS_running, SS_recoverable, SS_unknown]) db')" "\<not> foreground agents s'"
    then obtain s where s: "s \<in> set (db_sessions db)" "s' = f s" "ss_state s' \<noteq> SS_offline" using f(1) by (auto simp: in_listed)
    have same: "same_session s s'" using f(2) s by simp
    moreover have "ss_state s \<noteq> SS_offline" using f(3) [OF s(1)] s by auto
    ultimately show "settled own (decide os inspect agents s') s'" using f(4) [OF s(1)] s s'(2) dec by simp
  qed (use listed_distinct [OF ids] in blast)
qed

section \<open>Authorization\<close>

text \<open>How a credential proves a session: by its secret, or, outside a project, by a session id that has none.\<close>

definition proves :: "env \<Rightarrow> string \<Rightarrow> orc_state \<Rightarrow> session_row \<Rightarrow> bool" where
  "proves e credential st s \<longleftrightarrow>
     ss_credential_hash s = Some (sha256 e credential) \<or>
     (\<not> isProjectStateDir st \<and> \<not> starts_with ''legacy-'' credential \<and> ss_session_id s = credential \<and> ss_credential_hash s = None)"

lemma sessionForCredential_proves:
  assumes "sessionForCredential e credential st = Some s"
  shows "s \<in> set (db_sessions (st_db st)) \<and> credential \<noteq> [] \<and> proves e credential st s"
  using assms
  by (auto simp: sessionForCredential_def resolveSessionCredential_def credentialHash_def proves_def
      split: if_splits option.splits dest: find_in_set)

definition describes :: "session_row \<Rightarrow> ControlPrincipal \<Rightarrow> bool" where
  "describes s p \<longleftrightarrow>
     principal_agent p = Some (ss_agent_id s) \<and> principal_session p = Some (ss_session_id s) \<and>
     principal_live p = (ss_state s \<noteq> SS_offline) \<and> (principal_run p = None \<or> principal_run p = ss_run_id s)"

lemma session_principal_describes:
  assumes "session_principal role s = Inr p"
  shows "describes s p"
proof -
  have chain: "p = x \<or> p = y \<or> (c \<and> d \<and> p = z)"
    if "(if a then Inr x else if b then Inr y else if c \<and> d then Inr z else Inl err) = Inr p" for a b c d x y z err
    using that by (simp split: if_splits)
  show ?thesis
    using chain [OF assms [unfolded session_principal_def Let_def]]
    by (elim disjE conjE; cases "ss_run_id s"; simp add: describes_def)
qed

lemma resolve_describes:
  assumes "resolveControlPrincipal e (Some credential) False st = Inr (Some p)"
  obtains s where "s \<in> set (db_sessions (st_db st))" "proves e credential st s" "describes s p"
proof -
  from assms obtain s where s: "sessionForCredential e credential st = Some s"
    by (auto simp: resolveControlPrincipal_def split: if_splits option.splits)
  with assms obtain role where "session_principal role s = Inr p"
    by (auto simp: resolveControlPrincipal_def rbind_Inr_iff Let_def split: if_splits)
  with s sessionForCredential_proves [OF s] that show thesis by (blast dest: session_principal_describes)
qed

lemma authorize_Inr:
  assumes "authorizeLifecycle e credential req st = Inr live"
  obtains p where "resolveControlPrincipal e (Some credential) False st = Inr (Some p)" "live = principal_live p"
    "principal_live p \<or> ended_run_allowed req p st" "principal_agent p = Some (request_agent req)"
    "request_run req = None \<or> principal_run p = request_run req"
proof (cases "resolveControlPrincipal e (Some credential) False st")
  case (Inl err)
  with assms show thesis by (cases err) (simp_all add: authorizeLifecycle_def split: if_splits)
next
  case (Inr q)
  with assms obtain p where q: "q = Some p" by (cases q) (simp_all add: authorizeLifecycle_def)
  let ?own = "case req of report_for_duty_request a t \<Rightarrow> Some t \<noteq> principal_session p | _ \<Rightarrow> False"
  have k: "(if \<not> principal_live p \<and> \<not> ended_run_allowed req p st then Inl not_running
      else if principal_agent p \<noteq> Some (request_agent req) then Inl x
      else if request_run req \<noteq> None \<and> principal_run p \<noteq> request_run req then Inl y
      else if b then Inl z else Inr (principal_live p)) = Inr live \<Longrightarrow>
    live = principal_live p \<and> (principal_live p \<or> ended_run_allowed req p st) \<and> principal_agent p = Some (request_agent req) \<and>
    (request_run req = None \<or> principal_run p = request_run req)" for x y z b
    by (simp split: if_splits)
  from assms Inr q k show thesis
    unfolding authorizeLifecycle_def by (simp only: sum.case option.case) (blast intro: that)
qed

text \<open>
  C20. A lifecycle request is authorized only for its own session: when authorization succeeds, the
  presented credential proves a recorded session (in a project only by its secret), that session
  belongs to the named agent and was launched for the named run, and it is still live, except that
  a run that is already done may be finished again.
\<close>

theorem authorized_request_is_own:
  assumes "authorizeLifecycle e credential req st = Inr live"
  shows "\<exists>s \<in> set (db_sessions (st_db st)). proves e credential st s \<and> ss_agent_id s = request_agent req \<and>
    (request_run req = None \<or> ss_run_id s = request_run req) \<and> live = (ss_state s \<noteq> SS_offline) \<and>
    (live \<or> (is_finishing req \<and> claim_in CS_done (fst (loadClaim (the (request_run req)) st))))"
proof -
  obtain p where p: "resolveControlPrincipal e (Some credential) False st = Inr (Some p)" "live = principal_live p"
    "principal_live p \<or> ended_run_allowed req p st" "principal_agent p = Some (request_agent req)"
    "request_run req = None \<or> principal_run p = request_run req"
    using authorize_Inr [OF assms] .
  obtain s where s: "s \<in> set (db_sessions (st_db st))" "proves e credential st s" "describes s p"
    using resolve_describes [OF p(1)] .
  with p(2-5) show ?thesis
    by (intro bexI [OF _ s(1)]) (auto simp: describes_def ended_run_allowed_def)
qed

text \<open>
  Cleaning up a worker revokes it: once the coordinator has cleaned up the capacity of a
  registered agent, no credential authorizes a live request in that agent's name; the only request
  left is finishing a run that is already done.
\<close>

theorem cleanup_revokes_agent:
  assumes "cleanupRunCapacity e m agentId offlineReason st = (Inr (), st')" "getAgent e agentId st \<noteq> None"
    "authorizeLifecycle e' credential req st' = Inr live" "request_agent req = agentId"
  shows "\<not> live \<and> is_finishing req \<and> claim_in CS_done (fst (loadClaim (the (request_run req)) st'))"
proof -
  obtain p where p: "resolveControlPrincipal e' (Some credential) False st' = Inr (Some p)" "live = principal_live p"
    "principal_live p \<or> ended_run_allowed req p st'" "principal_agent p = Some (request_agent req)"
    using authorize_Inr [OF assms(3)] by metis
  obtain s where s: "s \<in> set (db_sessions (st_db st'))" "describes s p" using resolve_describes [OF p(1)] .
  have "ss_state s = SS_offline"
    using cleanup_closed [OF assms(1,2)] s p(4) assms(4) by (auto simp: no_live_session_def describes_def)
  with s(2) p(2,3) show ?thesis by (auto simp: describes_def ended_run_allowed_def)
qed

section \<open>Evaluation on concrete sessions\<close>

text \<open>A session of worker \<open>w\<close> for run \<open>run-1\<close> with its secret's hash, and the process the inspection finds.\<close>

definition session0 :: session_row where
  "session0 = \<lparr>ss_session_id = ''s-1'', ss_run_id = Some ''run-1'', ss_agent_id = ''w'', ss_provider = ''claude'', ss_state = SS_unknown,
     ss_provider_ref = None, ss_started_at = Ts 0, ss_updated_at = Ts 0, ss_transport = None, ss_process_pid = Some 42,
     ss_process_start = Some ''proc:7'', ss_owner_id = None, ss_owner_expires_at = None, ss_state_reason = None,
     ss_credential_hash = Some (replicate 64 (CHR ''0''))\<rparr>"

definition agent0 :: Agent where
  "agent0 = \<lparr>a_agent_id = ''w'', a_provider = ''claude'', a_status = AS_running, a_role = Some ''worker'', a_capabilities = None,
     a_session_handle = Some ''pty:w'', a_session_token = Some ''s-1'', a_session_started_at = None, a_session_ready_at = None,
     a_provider_ref = None, a_registered_at = Ts 0, a_last_heartbeat_at = None, a_last_status_change_at = None,
     a_dispatch_mode = None, a_ephemeral = True, a_model = None\<rparr>"

definition inspect0 :: "Agent \<Rightarrow> session_row \<Rightarrow> SessionInspection option" where
  "inspect0 a s = Some \<lparr>si_alive = True, si_writable = True, si_pid = Some 42, si_processStart = Some ''proc:7'', si_reason = None\<rparr>"

definition os0 :: os_view where
  "os0 = \<lparr>os_signal = (\<lambda>_. True), os_stat_start = (\<lambda>_. Some ''7''), os_ps_utc = (\<lambda>_. []), os_ps_local = (\<lambda>_. [])\<rparr>"

definition session_db :: runtime_db where
  "session_db = empty_db\<lparr>db_sessions := [session0], db_cutovers := [''runs'', ''sessions'']\<rparr>"

definition session_st :: orc_state where
  "session_st = \<lparr>st_db = session_db, st_claims_json = Some [], st_agents_json = Some [agent0], st_store = None,
     st_backlog_json = None, st_descriptor = True, st_run_specs = []\<rparr>"

lemma session_db_ids: "session_ids_ok session_db"
  by (simp add: session_ids_ok_def session_db_def)

lemma session0_decision:
  "reconcile_decision os0 inspect0 (agent_by_id [agent0] (ss_agent_id session0)) session0 =
     \<lparr>de_state = SS_running, de_outcome = RO_adopted, de_reason = None\<rparr>"
  by (simp add: reconcile_decision_def agent_by_id_def agent0_def session0_def inspect0_def classifySession_def identityMismatch_def)

lemma session0_reconciled:
  "\<exists>rs db'. reconcileSessions env0 os0 inspect0 ''me'' 1000 [agent0] session_db = Inr (rs, db') \<and>
     (\<exists>s' \<in> set (db_sessions db'). ss_state s' = SS_running \<and> ss_agent_id s' = ''w'')"
proof -
  let ?d = "\<lparr>de_state = SS_running, de_outcome = RO_adopted, de_reason = None\<rparr>"
  let ?ev = "session_reconciled_event env0 session0 SS_running None (decision_options ''me'' 1000 ?d) session_db"
  have ev: "?ev = mk_event (Ts 0) ''session_reconciled'' ''coordinator'' ''coordinator'' (Some ''run-1'') None (Some ''w'')
      (Some [(''session_id'', JStr ''s-1''), (''state'', JStr ''running''), (''previous_state'', JStr ''unknown''),
             (''transport'', JNull), (''outcome'', JStr ''adopted'')])"
    by (simp add: session_reconciled_event_def session0_def session_db_def empty_db_def now_ts_def env0_def decision_options_def opt_field_def)
  have v: "validateEventObject env0 (?ev\<lparr>ev_seq := n, ev_event_id := Some i\<rparr>) = []" for n i
    unfolding ev by (simp add: event_eval)
  let ?db = "session_db\<lparr>db_sessions := [write_session_state env0 SS_running None (decision_options ''me'' 1000 ?d) session0]\<rparr>"
  have "db_events ?db = []" by (simp add: session_db_def empty_db_def)
  moreover have "ev_event_id ?ev = None" by (simp add: ev mk_event_def)
  ultimately obtain db' where a: "append_event env0 ?ev ?db = Inr db'" using append_first_event [OF _ _ v] by blast
  have listed: "listSupervisedSessions (Some [SS_running, SS_recoverable, SS_unknown]) session_db = [session0]"
    by (simp add: listSupervisedSessions_def session_db_def session0_def)
  have "setSessionState env0 (ss_session_id session0) SS_running None (decision_options ''me'' 1000 ?d) session_db = Inr (True, db')"
    using a by (simp add: setSessionState_def session_db_def sessions_one_running_def)
      (simp add: session0_def)
  then have "reconcile_one env0 os0 inspect0 ''me'' 1000 [agent0] session0 ([], session_db) =
      Inr ([\<lparr>rr_session_id = ss_session_id session0, rr_agent_id = ss_agent_id session0, rr_previous_state = ss_state session0,
        rr_decision = ?d\<rparr>], db')"
    unfolding reconcile_one_def Let_def split session0_decision
    by (simp add: agent_by_id_def agent0_def session0_def)
  then have "\<exists>rs. reconcileSessions env0 os0 inspect0 ''me'' 1000 [agent0] session_db = Inr (rs, db')"
    by (simp add: reconcileSessions_def listed)
  moreover have "db_sessions db' = [write_session_state env0 SS_running None (decision_options ''me'' 1000 ?d) session0]"
    using append_event_frame [OF a] by simp
  ultimately show ?thesis by (auto simp: write_session_state_def session0_def)
qed

theorem reconciled_running_sessions_are_verified_witness:
  "\<exists>rs db' s'. reconcileSessions env0 os0 inspect0 ''me'' 1000 [agent0] session_db = Inr (rs, db') \<and>
     s' \<in> set (db_sessions db') \<and> ss_owner_id s' = Some ''me''"
proof -
  obtain rs db' s' where r: "reconcileSessions env0 os0 inspect0 ''me'' 1000 [agent0] session_db = Inr (rs, db')"
      and s': "s' \<in> set (db_sessions db')" "ss_state s' = SS_running" "ss_agent_id s' = ''w''"
    using session0_reconciled by blast
  have "\<not> foreground [agent0] s'" using s'(3) by (simp add: foreground_def agent_by_id_def agent0_def)
  from reconciled_running_sessions_are_verified [OF r session_db_ids s'(1,2) this] r s'(1) show ?thesis by blast
qed

theorem reconciliation_is_idempotent_witness:
  "\<exists>rs db'. reconcileSessions env0 os0 inspect0 ''me'' 1000 [agent0] session_db = Inr (rs, db') \<and>
     reconcileSessions (env0\<lparr>clock := 9\<rparr>) os0 inspect0 ''me'' 1000 [agent0] db' = Inr ([], db')"
proof -
  obtain rs db' where r: "reconcileSessions env0 os0 inspect0 ''me'' 1000 [agent0] session_db = Inr (rs, db')"
    using session0_reconciled by blast
  have "inspect0 a s' = inspect0 a s" for a s s' by (simp add: inspect0_def)
  from reconciliation_is_idempotent [OF r session_db_ids this] r show ?thesis by blast
qed

lemma session_st_agents: "readAgentsFile e session_st = ([agent0], session_st)"
  by (simp add: readAgentsFile_def readAgents_def withAuthoritativeAgentSessions_def session_st_def session_db_def
      SESSION_CUTOVER_NAME_def overlay_sessions_def agent0_def session0_def)

lemma resolve_worker:
  assumes "credential \<noteq> []" "sessionForCredential e credential st = Some s"
    "(case List.find (\<lambda>a. a_agent_id a = ss_agent_id s) (listAgents e st) of None \<Rightarrow> ''worker'' | Some a \<Rightarrow> or_default (a_role a) ''worker'') = role"
    "session_principal role s = Inr p"
  shows "resolveControlPrincipal e (Some credential) False st = Inr (Some p)"
  using assms(1,2,4) unfolding resolveControlPrincipal_def by (simp add: assms(3))

lemma session_st_principal:
  "resolveControlPrincipal env0 (Some ''secret'') False session_st = Inr (Some (worker ''w'' ''run-1'' ''s-1'' True False))"
proof (rule resolve_worker [where role = "''worker''"])
  show "sessionForCredential env0 ''secret'' session_st = Some session0"
    by (simp add: sessionForCredential_def resolveSessionCredential_def credentialHash_def session_st_def session_db_def env0_def)
      (simp add: session0_def)
qed (simp_all add: listAgents_def session_st_agents, simp_all add: agent0_def session0_def session_principal_def)

lemma session_st_authorized: "authorizeLifecycle env0 ''secret'' (run_start ''run-1'' ''w'') session_st = Inr True"
  unfolding authorizeLifecycle_def session_st_principal by simp

theorem authorized_request_is_own_witness:
  "authorizeLifecycle env0 ''secret'' (run_start ''run-1'' ''w'') session_st = Inr True \<and>
   (\<exists>s \<in> set (db_sessions (st_db session_st)). proves env0 ''secret'' session_st s \<and> ss_run_id s = Some ''run-1'')"
  using authorized_request_is_own [OF session_st_authorized] session_st_authorized by auto

text \<open>The same directory after the run is done, cleaned up.\<close>

definition done_claim :: Claim where
  "done_claim = claim0_run ''run-1'' ''f/a'' CS_done"

definition done_st :: orc_state where
  "done_st = session_st\<lparr>st_db := session_db\<lparr>db_runs := [\<lparr>rn_run_id = ''run-1'', rn_task_ref = ''f/a'', rn_agent_id = Some ''w'',
     rn_state = CS_done, rn_created_at = Ts 0, rn_updated_at = Ts 0, rn_claim_json = Some done_claim\<rparr>]\<rparr>\<rparr>"

definition cleaned_st :: orc_state where
  "cleaned_st = done_st\<lparr>st_agents_json := Some [], st_db := (st_db done_st)\<lparr>db_sessions :=
     [session0\<lparr>ss_state := SS_offline, ss_state_reason := Some ''session closed'', ss_updated_at := Ts 0\<rparr>]\<rparr>\<rparr>"

lemma done_st_agents: "readAgentsFile e done_st = ([agent0], done_st)"
  by (simp add: readAgentsFile_def readAgents_def withAuthoritativeAgentSessions_def done_st_def session_st_def session_db_def
      SESSION_CUTOVER_NAME_def overlay_sessions_def agent0_def session0_def)

lemma done_st_cleaned: "cleanupRunCapacity env0 4 ''w'' None done_st = (Inr (), cleaned_st)" and done_st_agent: "getAgent env0 ''w'' done_st = Some agent0"
proof -
  have c: "close_agent_sessions env0 ''w'' done_st = (Inr (), done_st\<lparr>st_db := (st_db done_st)\<lparr>db_sessions :=
     [session0\<lparr>ss_state := SS_offline, ss_state_reason := Some ''session closed'', ss_updated_at := Ts 0\<rparr>]\<rparr>\<rparr>)"
    by (simp add: close_agent_sessions_def closeProviderSessionsForAgent_def importLegacyAgentSessions_def close_sessions_def
        SESSION_CUTOVER_NAME_def done_st_def session_st_def session_db_def now_ts_def env0_def)
      (simp add: session0_def)
  show a: "getAgent env0 ''w'' done_st = Some agent0" by (simp add: getAgent_def done_st_agents) (simp add: agent0_def)
  have "removeAgent env0 ''w'' done_st = (Inr (), cleaned_st)"
    by (simp add: removeAgent_def done_st_agents c cleaned_st_def) (simp add: agent0_def)
  moreover have "a_ephemeral agent0" "stopAgentSession agent0 = Inr ()"
    by (simp_all add: agent0_def stopAgentSession_def getAdapter_def isSupportedProvider_def PROVIDERS_def)
  ultimately show "cleanupRunCapacity env0 4 ''w'' None done_st = (Inr (), cleaned_st)"
    by (simp add: cleanupRunCapacity_def a done_st_agents)
qed

lemma cleaned_principal:
  "resolveControlPrincipal env0 (Some ''secret'') False cleaned_st = Inr (Some (worker ''w'' ''run-1'' ''s-1'' False False))"
proof (rule resolve_worker [where role = "''worker''"])
  show "sessionForCredential env0 ''secret'' cleaned_st =
      Some (session0\<lparr>ss_state := SS_offline, ss_state_reason := Some ''session closed'', ss_updated_at := Ts 0\<rparr>)"
    by (simp add: sessionForCredential_def resolveSessionCredential_def credentialHash_def cleaned_st_def env0_def)
      (simp add: session0_def)
qed (simp_all add: listAgents_def readAgentsFile_def readAgents_def withAuthoritativeAgentSessions_def cleaned_st_def
      done_st_def session_st_def session_db_def SESSION_CUTOVER_NAME_def overlay_sessions_def,
    simp_all add: session0_def session_principal_def)

lemma cleaned_claim: "fst (loadClaim ''run-1'' cleaned_st) = Some done_claim"
  by (simp add: loadClaim_def readClaims_def readAuthoritativeClaims_def cleaned_st_def done_st_def session_st_def session_db_def
      CUTOVER_NAME_def readRows_def List.map_filter_simps find_claim_def done_claim_def)
     (simp add: claim0_run_def)

theorem cleanup_revokes_agent_witness:
  "cleanupRunCapacity env0 4 ''w'' None done_st = (Inr (), cleaned_st) \<and>
   authorizeLifecycle env0 ''secret'' (run_finish ''run-1'' ''w'') cleaned_st = Inr False \<and>
   is_finishing (run_finish ''run-1'' ''w'')"
proof -
  have "ended_run_allowed (run_finish ''run-1'' ''w'') (worker ''w'' ''run-1'' ''s-1'' False False) cleaned_st"
    by (simp add: ended_run_allowed_def cleaned_claim claim_in_def done_claim_def claim0_run_def)
  then have a: "authorizeLifecycle env0 ''secret'' (run_finish ''run-1'' ''w'') cleaned_st = Inr False"
    unfolding authorizeLifecycle_def cleaned_principal by simp
  have "getAgent env0 ''w'' done_st \<noteq> None" by (simp add: done_st_agent)
  from cleanup_revokes_agent [OF done_st_cleaned this a] a done_st_cleaned show ?thesis by simp
qed

end
