(* ===== verification/Scheduler.thy ===== *)
theory Scheduler
  imports Agent_Registry "HOL-Library.Product_Lexorder"
begin

text \<open>
  Which task goes to which worker: the routing rules of \<^verbatim>\<open>lib/taskRouting.ts\<close>, the selection of
  \<^verbatim>\<open>lib/taskScheduler.ts\<close>, the plans of \<^verbatim>\<open>lib/dispatchPlanner.ts\<close> with \<^verbatim>\<open>lib/workerCapacity.ts\<close> and
  \<^verbatim>\<open>lib/claimDiagnostics.ts\<close>, and the coordinator's choice of the tasks it spawns workers for.
\<close>

section \<open>Routing (taskRouting.ts)\<close>

definition taskTypeOf :: "Task \<Rightarrow> string" where
  "taskTypeOf t = or_default (t_task_type t) ''implementation''"

definition hasRequiredCapabilities :: "Task \<Rightarrow> Agent \<Rightarrow> bool" where
  "hasRequiredCapabilities t a =
     list_all (\<lambda>c. c \<in> set (or_default (a_capabilities a) [])) (or_default (t_required_capabilities t) [])"

definition addReason :: "string \<Rightarrow> string list \<Rightarrow> string list" where
  "addReason reason reasons = (if reason \<in> set reasons then reasons else reasons @ [reason])"

definition add_if :: "bool \<Rightarrow> string \<Rightarrow> string list \<Rightarrow> string list" where
  "add_if b reason reasons = (if b then addReason reason reasons else reasons)"

definition evaluateTaskEligibility :: "Task \<Rightarrow> Agent \<Rightarrow> string list" where
  "evaluateTaskEligibility t a =
     (let role = or_default (a_role a) ''worker'';
          r1 = add_if (taskTypeOf t \<notin> set TASK_TYPES) (''unsupported_task_type:'' @ taskTypeOf t) [];
          r2 = add_if (role = ''master'' \<or> role = ''scout'') (''role_ineligible:'' @ role) r1;
          r3 = add_if (truthy (t_owner t) \<and> t_owner t \<noteq> Some (a_agent_id a)) (''reserved_owner_conflict:'' @ the (t_owner t)) r2;
          r4 = add_if (truthy (t_required_provider t) \<and> t_required_provider t \<noteq> Some (a_provider a))
                 (''provider_mismatch:'' @ the (t_required_provider t)) r3 in
      fold (\<lambda>c. add_if (c \<notin> set (or_default (a_capabilities a) [])) (''missing_capability:'' @ c))
        (or_default (t_required_capabilities t) []) r4)"

text \<open>\<^verbatim>\<open>reason.split(':', 2)[1]\<close>: the text between the first colon and the next.\<close>

definition reason_detail :: "string \<Rightarrow> string" where
  "reason_detail reason = takeWhile (\<lambda>c. c \<noteq> CHR '':'') (tl (dropWhile (\<lambda>c. c \<noteq> CHR '':'') reason))"

definition describeReason :: "string \<Rightarrow> string" where
  "describeReason reason =
     (if starts_with ''unsupported_task_type:'' reason then ''unsupported task type '' @ single_quoted (reason_detail reason)
      else if starts_with ''role_ineligible:'' reason
      then ''agent role '' @ single_quoted (reason_detail reason) @ '' cannot execute routed tasks''
      else if starts_with ''reserved_owner_conflict:'' reason
      then ''task is reserved for owner '' @ single_quoted (reason_detail reason)
      else if starts_with ''provider_mismatch:'' reason then ''task requires provider '' @ single_quoted (reason_detail reason)
      else if starts_with ''missing_capability:'' reason
      then ''missing required capability '' @ single_quoted (reason_detail reason)
      else reason)"

definition formatRoutingReasons :: "string list \<Rightarrow> string list" where
  "formatRoutingReasons reasons = map describeReason reasons"

definition canAgentExecuteTask :: "Task \<Rightarrow> Agent \<Rightarrow> bool" where
  "canAgentExecuteTask t a \<longleftrightarrow> evaluateTaskEligibility t a = []"

section \<open>Selection (taskScheduler.ts)\<close>

definition priorityRank :: "string option \<Rightarrow> int" where
  "priorityRank p =
     (if p = Some ''low'' then 0 else if p = Some ''normal'' then 1 else if p = Some ''high'' then 2
      else if p = Some ''critical'' then 3 else 1)"

record eligible_task =
  el_task :: Task
  el_rank :: int
  el_index :: nat

text \<open>Number the eligible tasks in backlog order, sort by rank and index, and take the first.\<close>

definition number_eligible :: "Task list \<Rightarrow> eligible_task list" where
  "number_eligible ts =
     map (\<lambda>(i, t). \<lparr>el_task = t, el_rank = priorityRank (t_priority t), el_index = i\<rparr>) (enumerate 0 ts)"

definition pick_first :: "Task list \<Rightarrow> Task option" where
  "pick_first ts =
     (case sort_key (\<lambda>x. (- el_rank x, el_index x)) (number_eligible ts) of [] \<Rightarrow> None | x # _ \<Rightarrow> Some (el_task x))"

definition done_refs :: "Backlog \<Rightarrow> string list" where
  "done_refs b = map t_ref (filter (\<lambda>t. task_finished (t_status t)) (backlog_tasks b))"

datatype agent_or_id = NoAgent | AgentId string | AgentRecord Agent

definition worker_stub :: "string \<Rightarrow> Agent" where
  "worker_stub i =
     \<lparr>a_agent_id = i, a_provider = ''codex'', a_status = AS_idle, a_role = Some ''worker'', a_capabilities = Some [],
      a_session_handle = None, a_session_token = None, a_session_started_at = None, a_session_ready_at = None,
      a_provider_ref = None, a_registered_at = BadTs [], a_last_heartbeat_at = None, a_last_status_change_at = None,
      a_dispatch_mode = None, a_ephemeral = False, a_model = None\<rparr>"

fun scheduler_agent_id :: "agent_or_id \<Rightarrow> string option" where
  "scheduler_agent_id NoAgent = None"
| "scheduler_agent_id (AgentId i) = Some i"
| "scheduler_agent_id (AgentRecord a) = Some (a_agent_id a)"

fun scheduler_agent :: "agent_or_id \<Rightarrow> Agent" where
  "scheduler_agent NoAgent = worker_stub []"
| "scheduler_agent (AgentId i) = worker_stub i"
| "scheduler_agent (AgentRecord a) = a"

text \<open>The checks that every scheduler makes before it looks at the agent.\<close>

definition ready_for_dispatch :: "env \<Rightarrow> string list \<Rightarrow> Task \<Rightarrow> bool" where
  "ready_for_dispatch e exclude t \<longleftrightarrow>
     t_status t = TS_todo \<and>
     \<not> (ts_truthy (t_requeue_eligible_after t) \<and> date_gt (the (t_requeue_eligible_after t)) (now_ts e)) \<and>
     t_ref t \<notin> set exclude \<and>
     \<not> (truthy (t_planning_state t) \<and> t_planning_state t \<noteq> Some ''ready_for_dispatch'')"

definition dependencies_done :: "Backlog \<Rightarrow> Task \<Rightarrow> bool" where
  "dependencies_done b t \<longleftrightarrow> list_all (\<lambda>d. d \<in> set (done_refs b)) (or_default (t_depends_on t) [])"

definition agent_eligible :: "env \<Rightarrow> Backlog \<Rightarrow> agent_or_id \<Rightarrow> string list \<Rightarrow> Task \<Rightarrow> bool" where
  "agent_eligible e b who exclude t \<longleftrightarrow>
     ready_for_dispatch e exclude t \<and>
     \<not> (truthy (t_owner t) \<and> truthy (scheduler_agent_id who) \<and> t_owner t \<noteq> scheduler_agent_id who) \<and>
     \<not> (truthy (t_owner t) \<and> falsy (scheduler_agent_id who)) \<and>
     canAgentExecuteTask t (scheduler_agent who) \<and>
     dependencies_done b t"

definition nextEligibleTaskFromBacklog :: "env \<Rightarrow> Backlog \<Rightarrow> agent_or_id \<Rightarrow> string list \<Rightarrow> string option" where
  "nextEligibleTaskFromBacklog e b who exclude =
     map_option t_ref (pick_first (filter (agent_eligible e b who exclude) (backlog_tasks b)))"

text \<open>With a state directory: an agent named by its id is looked up in the agents file, without the session overlay.\<close>

definition nextEligibleTask :: "env \<Rightarrow> agent_or_id \<Rightarrow> string list \<Rightarrow> orc_state \<Rightarrow> string option result" where
  "nextEligibleTask e who exclude st =
     rbind (readBacklog st) (\<lambda>b.
       Inr (nextEligibleTaskFromBacklog e b
         (case who of
            AgentId i \<Rightarrow> (case List.find (\<lambda>a. a_agent_id a = i) (or_default (st_agents_json st) []) of
                            None \<Rightarrow> AgentId i | Some a \<Rightarrow> AgentRecord a)
          | _ \<Rightarrow> who) exclude))"

section \<open>Planning (dispatchPlanner.ts, workerCapacity.ts, claimDiagnostics.ts)\<close>

definition dispatchable_role :: "Agent \<Rightarrow> bool" where
  "dispatchable_role a \<longleftrightarrow> a_role a \<noteq> Some ''master'' \<and> a_role a \<noteq> Some ''scout''"

definition selectDispatchableAgents :: "Agent list \<Rightarrow> string list \<Rightarrow> Agent list" where
  "selectDispatchableAgents agents busy =
     filter (\<lambda>a. a_status a \<noteq> AS_offline \<and> a_status a \<noteq> AS_dead \<and> dispatchable_role a \<and> a_agent_id a \<notin> set busy) agents"

fun build_plan :: "(Agent \<Rightarrow> string list \<Rightarrow> string option) \<Rightarrow> Agent list \<Rightarrow> string list \<Rightarrow> (Agent \<times> string) list" where
  "build_plan pick [] reserved = []"
| "build_plan pick (a # as) reserved =
     (case nonempty (pick a reserved) of
        None \<Rightarrow> build_plan pick as reserved
      | Some ref \<Rightarrow> (a, ref) # build_plan pick as (reserved @ [ref]))"

definition buildDispatchPlan :: "(Agent \<Rightarrow> string list \<Rightarrow> string option) \<Rightarrow> Agent list \<Rightarrow> (Agent \<times> string) list" where
  "buildDispatchPlan pick agents = build_plan pick agents []"

definition busy_agents :: "Claim list \<Rightarrow> string list" where
  "busy_agents claims = map c_agent_id (filter claim_active claims)"

text \<open>Round robin: \<open>lastAssigned\<close> is the module variable \<^verbatim>\<open>lastAssignedAgentId\<close>.\<close>

fun find_index :: "('a \<Rightarrow> bool) \<Rightarrow> 'a list \<Rightarrow> nat option" where
  "find_index P [] = None"
| "find_index P (x # xs) = (if P x then Some 0 else map_option Suc (find_index P xs))"

definition auto_candidates :: "Task \<Rightarrow> string \<Rightarrow> Agent list \<Rightarrow> Claim list \<Rightarrow> Agent list" where
  "auto_candidates task taskType allAgents claims =
     filter (\<lambda>a. (falsy (t_owner task) \<or> t_owner task = Some (a_agent_id a)) \<and>
                 canAgentExecuteTask (task\<lparr>t_task_type := Some taskType\<rparr>) a)
       (selectDispatchableAgents allAgents (busy_agents claims))"

definition selectAutoTarget ::
  "Task \<Rightarrow> string \<Rightarrow> Agent list \<Rightarrow> Claim list \<Rightarrow> string option \<Rightarrow> string option \<times> string option" where
  "selectAutoTarget task taskType allAgents claims lastAssigned =
     (let eligible = auto_candidates task taskType allAgents claims in
      if eligible = [] then (None, lastAssigned)
      else
        (let next = (case find_index (\<lambda>a. Some (a_agent_id a) = lastAssigned) eligible of
                       None \<Rightarrow> a_agent_id (eligible ! 0)
                     | Some i \<Rightarrow> a_agent_id (eligible ! ((i + 1) mod length eligible))) in
         (Some next, Some next)))"

definition describe_agent_failure :: "Task \<Rightarrow> string \<Rightarrow> Claim list \<Rightarrow> Agent \<Rightarrow> string \<times> string list \<times> string list" where
  "describe_agent_failure task taskType claims a =
     (let state = (if a_status a = AS_offline then [''agent_offline''] else []) @
                  (if a_agent_id a \<in> set (busy_agents claims) then [''agent_busy''] else []);
          routing = evaluateTaskEligibility (task\<lparr>t_task_type := Some taskType\<rparr>) a in
      (a_agent_id a, state @ routing,
       map (\<lambda>r. if r = ''agent_offline'' then ''agent is offline'' else ''agent already has an active run'')
         (filter (\<lambda>r. r = ''agent_offline'' \<or> r = ''agent_busy'') (state @ routing)) @ formatRoutingReasons routing))"

definition describeAutoTargetFailure ::
  "Task \<Rightarrow> string \<Rightarrow> Agent list \<Rightarrow> Claim list \<Rightarrow> (string \<times> string list \<times> string list) list" where
  "describeAutoTargetFailure task taskType allAgents claims =
     filter (\<lambda>(i, reasons, messages). reasons \<noteq> [])
       (map (describe_agent_failure task taskType claims)
          (filter (\<lambda>a. a_status a \<noteq> AS_dead \<and> dispatchable_role a) allAgents))"

definition computeWorkerCapacity :: "Agent list \<Rightarrow> int \<Rightarrow> int \<times> nat \<times> int" where
  "computeWorkerCapacity agents maxWorkers =
     (let active = length (filter (\<lambda>a. a_role a = Some ''worker'') agents) in
      (maxWorkers, active, max 0 (maxWorkers - int active)))"

definition getOrphanedClaims :: "Agent list \<Rightarrow> Claim list \<Rightarrow> (Claim \<times> AgentStatus option) list" where
  "getOrphanedClaims agents claims =
     List.map_filter (\<lambda>c.
       if \<not> claim_active c then None
       else case List.find (\<lambda>a. a_agent_id a = c_agent_id c) agents of
         None \<Rightarrow> Some (c, None)
       | Some a \<Rightarrow> if a_status a = AS_offline then Some (c, Some (a_status a)) else None) claims"

section \<open>The coordinator's dispatch (coordinator.ts)\<close>

definition spawnable :: "env \<Rightarrow> Backlog \<Rightarrow> string list \<Rightarrow> Task \<Rightarrow> bool" where
  "spawnable e b exclude t \<longleftrightarrow>
     ready_for_dispatch e exclude t \<and>
     \<not> (truthy (t_task_type t) \<and> the (t_task_type t) \<notin> set TASK_TYPES) \<and>
     falsy (t_owner t) \<and> dependencies_done b t"

definition nextSpawnableTask :: "env \<Rightarrow> Backlog \<Rightarrow> string list \<Rightarrow> (string \<times> string option) option" where
  "nextSpawnableTask e b exclude =
     map_option (\<lambda>t. (t_ref t, t_required_provider t)) (pick_first (filter (spawnable e b exclude) (backlog_tasks b)))"

definition activeClaimAgents :: "Claim list \<Rightarrow> string list" where
  "activeClaimAgents claims = js_set (filter (\<lambda>a. a \<noteq> []) (busy_agents claims))"

fun dispatch_items :: "env \<Rightarrow> Backlog \<Rightarrow> string list \<Rightarrow> nat \<Rightarrow> (string \<times> string option) list \<Rightarrow> (string \<times> string option) list" where
  "dispatch_items e b reserved 0 items = items"
| "dispatch_items e b reserved (Suc n) items =
     (case nextSpawnableTask e b (reserved @ map fst items) of
        None \<Rightarrow> items
      | Some item \<Rightarrow> dispatch_items e b reserved n (items @ [item]))"

text \<open>The first half of \<^verbatim>\<open>executeDispatchPlan\<close>: which tasks to spawn a worker for in this tick.\<close>

definition select_dispatch :: "env \<Rightarrow> Backlog \<Rightarrow> Claim list \<Rightarrow> nat \<Rightarrow> (string \<times> string option) list" where
  "select_dispatch e b claims maxWorkers =
     (let busy = length (activeClaimAgents claims) in
      if maxWorkers \<le> busy then []
      else dispatch_items e b (map c_task_ref (filter claim_active claims)) (maxWorkers - busy) [])"

end
