(* ===== verification/Scheduler_Props.thy ===== *)
theory Scheduler_Props
  imports Scheduler Claim_Props "HOL-Library.Multiset"
begin

text \<open>
  Properties of scheduling: the selection against a reference scan, conflict-free plans (through the
  interface a plan needs of its task picker), the claimability of everything the coordinator
  dispatches, and the fairness of the round robin.
\<close>

section \<open>The first task of the highest priority\<close>

abbreviation rank :: "Task \<Rightarrow> int" where
  "rank t \<equiv> priorityRank (t_priority t)"

text \<open>The reference: one scan that keeps the earlier of two equals.\<close>

fun best :: "Task list \<Rightarrow> Task option" where
  "best [] = None"
| "best (t # ts) = (case best ts of None \<Rightarrow> Some t | Some u \<Rightarrow> if rank u \<le> rank t then Some t else Some u)"

lemma best_None: "best ts = None \<longleftrightarrow> ts = []"
  by (cases ts) (auto split: option.splits)

lemma best_max: "best ts = Some u \<Longrightarrow> v \<in> set ts \<Longrightarrow> rank v \<le> rank u"
proof (induction ts arbitrary: u)
  case (Cons y ts)
  then show ?case by (cases "best ts") (auto simp: best_None split: if_splits)
qed simp

lemma best_split:
  "best ts = Some t \<Longrightarrow> \<exists>xs ys. ts = xs @ t # ys \<and> (\<forall>u \<in> set xs. rank u < rank t) \<and> (\<forall>u \<in> set ys. rank u \<le> rank t)"
proof (induction ts)
  case (Cons x ts)
  show ?case
  proof (cases "best ts")
    case None
    with Cons.prems have "x = t" "ts = []" by (auto simp: best_None)
    then show ?thesis by (intro exI [of _ "[]"]) simp
  next
    case (Some u)
    show ?thesis
    proof (cases "rank u \<le> rank x")
      case True
      with Cons.prems Some have "t = x" by simp
      with True Some show ?thesis by (intro exI [of _ "[]"] exI [of _ ts]) (auto dest: best_max)
    next
      case False
      with Cons.prems Some have "t = u" by simp
      with Cons.IH Some obtain xs ys where "ts = xs @ t # ys" "\<forall>v \<in> set xs. rank v < rank t" "\<forall>v \<in> set ys. rank v \<le> rank t"
        by blast
      with False \<open>t = u\<close> show ?thesis by (intro exI [of _ "x # xs"] exI [of _ ys]) auto
    qed
  qed
qed simp

lemma number_eligible_map:
  "number_eligible ts = map (\<lambda>i. \<lparr>el_task = ts ! i, el_rank = rank (ts ! i), el_index = i\<rparr>) [0..<length ts]"
  by (rule nth_equalityI) (simp_all add: number_eligible_def nth_enumerate_eq)

lemma number_eligible_set:
  "x \<in> set (number_eligible ts) \<longleftrightarrow> (\<exists>i < length ts. x = \<lparr>el_task = ts ! i, el_rank = rank (ts ! i), el_index = i\<rparr>)"
  unfolding number_eligible_map by (simp add: image_iff Bex_def)

lemma hd_sort_key:
  fixes f :: "'a \<Rightarrow> 'b :: linorder"
  assumes "x \<in> set xs" "\<And>y. y \<in> set xs \<Longrightarrow> y \<noteq> x \<Longrightarrow> f x < f y"
  shows "\<exists>ys. sort_key f xs = x # ys"
proof -
  obtain y ys where s: "sort_key f xs = y # ys" using assms(1) by (cases "sort_key f xs") (auto dest: arg_cong [of _ _ set])
  have "y \<in> set xs" using s by (metis list.set_intros(1) set_sort)
  moreover have "\<forall>z \<in> set xs. f y \<le> f z"
  proof -
    have "sorted (map f (y # ys))" using sorted_sort_key [of f xs] s by simp
    then have "\<forall>z \<in> set (y # ys). f y \<le> f z" by auto
    then show ?thesis using s by (metis set_sort)
  qed
  ultimately have "y = x" using assms by (meson leD)
  with s show ?thesis by blast
qed

lemma pick_first_best: "pick_first ts = best ts"
proof (cases "best ts")
  case None
  then show ?thesis by (simp add: best_None pick_first_def number_eligible_def)
next
  case (Some t)
  then obtain xs ys where ts: "ts = xs @ t # ys" and lt: "\<forall>u \<in> set xs. rank u < rank t" and le: "\<forall>u \<in> set ys. rank u \<le> rank t"
    using best_split by blast
  let ?x = "\<lparr>el_task = t, el_rank = rank t, el_index = length xs\<rparr>"
  have "?x \<in> set (number_eligible ts)" by (auto simp: number_eligible_set ts intro!: exI [of _ "length xs"])
  moreover have "(- el_rank ?x, el_index ?x) < (- el_rank y, el_index y)" if "y \<in> set (number_eligible ts)" "y \<noteq> ?x" for y
  proof -
    from that obtain j where j: "j < length ts" "y = \<lparr>el_task = ts ! j, el_rank = rank (ts ! j), el_index = j\<rparr>"
      by (auto simp: number_eligible_set)
    consider "j < length xs" | "j = length xs" | "length xs < j" by linarith
    then show ?thesis
    proof cases
      case 1
      then have "ts ! j \<in> set xs" using ts by (simp add: nth_append)
      with lt j show ?thesis by (simp add: less_prod_def)
    next
      case 2
      with j ts that(2) show ?thesis by (simp add: nth_append)
    next
      case 3
      then have "ts ! j \<in> set ys" using ts j(1) by (simp add: nth_append nth_Cons')
      with le have "rank (ts ! j) \<le> rank t" by simp
      with j 3 show ?thesis by (simp add: less_prod_def)
    qed
  qed
  ultimately obtain zs where "sort_key (\<lambda>x. (- el_rank x, el_index x)) (number_eligible ts) = ?x # zs"
    using hd_sort_key [of ?x "number_eligible ts" "\<lambda>x. (- el_rank x, el_index x)"] by blast
  with Some show ?thesis by (simp add: pick_first_def)
qed

lemma filter_split:
  "filter P ts = xs @ t # ys \<Longrightarrow> \<exists>us vs. ts = us @ t # vs \<and> P t \<and> filter P us = xs \<and> filter P vs = ys"
proof (induction xs arbitrary: ts)
  case Nil
  then obtain us vs where "ts = us @ t # vs" "\<forall>u \<in> set us. \<not> P u" "P t" "ys = filter P vs"
    by (auto dest!: filter_eq_ConsD)
  then show ?case by (intro exI [of _ us] exI [of _ vs]) simp
next
  case (Cons x xs)
  then obtain us vs where 1: "ts = us @ x # vs" "\<forall>u \<in> set us. \<not> P u" "P x" "xs @ t # ys = filter P vs"
    by (auto dest!: filter_eq_ConsD)
  from Cons.IH [OF 1(4) [symmetric]] obtain us' vs' where "vs = us' @ t # vs'" "P t" "filter P us' = xs" "filter P vs' = ys" by blast
  with 1 show ?case by (intro exI [of _ "us @ x # us'"] exI [of _ vs']) simp
qed

lemma pick_filtered:
  assumes "pick_first (filter P ts) = Some t"
  obtains us vs where "ts = us @ t # vs" "P t" "\<And>u. u \<in> set us \<Longrightarrow> P u \<Longrightarrow> rank u < rank t" "\<And>u. u \<in> set vs \<Longrightarrow> P u \<Longrightarrow> rank u \<le> rank t"
proof -
  from assms obtain xs ys where f: "filter P ts = xs @ t # ys" and r: "\<forall>u \<in> set xs. rank u < rank t" "\<forall>u \<in> set ys. rank u \<le> rank t"
    unfolding pick_first_best using best_split by blast
  from filter_split [OF f] obtain us vs where "ts = us @ t # vs" "P t" "filter P us = xs" "filter P vs = ys" by blast
  with r show thesis by (intro that [of us vs]) auto
qed

lemma pick_filtered_None: "pick_first (filter P ts) = None \<longleftrightarrow> (\<forall>t \<in> set ts. \<not> P t)"
  by (simp add: pick_first_best best_None filter_empty_conv)

text \<open>
  C27. The scheduler picks the first task of the highest priority: it returns nothing exactly when no
  task of the backlog is eligible for the agent, and otherwise an eligible task such that every
  eligible task before it in the backlog has a lower priority and none after it a higher one.
\<close>

theorem scheduler_picks_highest_priority:
  "(nextEligibleTaskFromBacklog e b who exclude = None \<longleftrightarrow>
      (\<forall>t \<in> set (backlog_tasks b). \<not> agent_eligible e b who exclude t)) \<and>
   (\<forall>ref. nextEligibleTaskFromBacklog e b who exclude = Some ref \<longrightarrow>
      (\<exists>us t vs. backlog_tasks b = us @ t # vs \<and> t_ref t = ref \<and> agent_eligible e b who exclude t \<and>
        (\<forall>u \<in> set us. agent_eligible e b who exclude u \<longrightarrow> priorityRank (t_priority u) < priorityRank (t_priority t)) \<and>
        (\<forall>u \<in> set vs. agent_eligible e b who exclude u \<longrightarrow> priorityRank (t_priority u) \<le> priorityRank (t_priority t))))"
proof (intro conjI allI impI)
  show "nextEligibleTaskFromBacklog e b who exclude = None \<longleftrightarrow>
      (\<forall>t \<in> set (backlog_tasks b). \<not> agent_eligible e b who exclude t)"
    by (simp add: nextEligibleTaskFromBacklog_def pick_filtered_None)
next
  fix ref assume "nextEligibleTaskFromBacklog e b who exclude = Some ref"
  then obtain t where t: "pick_first (filter (agent_eligible e b who exclude) (backlog_tasks b)) = Some t" "t_ref t = ref"
    by (auto simp: nextEligibleTaskFromBacklog_def)
  from pick_filtered [OF t(1)] t(2) show "\<exists>us t vs. backlog_tasks b = us @ t # vs \<and> t_ref t = ref \<and> agent_eligible e b who exclude t \<and>
        (\<forall>u \<in> set us. agent_eligible e b who exclude u \<longrightarrow> priorityRank (t_priority u) < priorityRank (t_priority t)) \<and>
        (\<forall>u \<in> set vs. agent_eligible e b who exclude u \<longrightarrow> priorityRank (t_priority u) \<le> priorityRank (t_priority t))"
    by metis
qed

section \<open>Plans\<close>

text \<open>What a plan needs of its task picker: it never offers a reserved task, and what it offers is acceptable.\<close>

locale task_picker =
  fixes pick :: "Agent \<Rightarrow> string list \<Rightarrow> string option" and ok :: "Agent \<Rightarrow> string \<Rightarrow> bool"
  assumes pick_fresh: "pick a reserved = Some ref \<Longrightarrow> ref \<notin> set reserved"
    and pick_ok: "pick a reserved = Some ref \<Longrightarrow> ok a ref"
begin

lemma nonempty_pick: "nonempty (pick a r) = Some ref \<Longrightarrow> pick a r = Some ref"
  by (cases "pick a r" rule: nonempty.cases) auto

lemma plan_refs: "(\<forall>(a, ref) \<in> set (build_plan pick as r). ref \<notin> set r) \<and> distinct (map snd (build_plan pick as r))"
proof (induction "as" arbitrary: r)
  case (Cons a as)
  show ?case
  proof (cases "nonempty (pick a r)")
    case (Some ref)
    with Cons [of "r @ [ref]"] show ?thesis by (auto dest: pick_fresh nonempty_pick)
  qed (use Cons in simp)
qed simp

lemma plan_ok: "(a, ref) \<in> set (build_plan pick as r) \<Longrightarrow> a \<in> set as \<and> ok a ref"
  by (induction "as" arbitrary: r) (auto split: option.splits dest: pick_ok nonempty_pick)

lemma plan_agents: "distinct as \<Longrightarrow> distinct (map fst (build_plan pick as r))"
proof (induction "as" arbitrary: r)
  case (Cons a as)
  moreover have "a \<notin> fst ` set (build_plan pick as r')" for r' using Cons.prems by (auto dest: plan_ok)
  ultimately show ?case by (auto split: option.splits)
qed simp

end

definition backlog_picker :: "env \<Rightarrow> Backlog \<Rightarrow> Agent \<Rightarrow> string list \<Rightarrow> string option" where
  "backlog_picker e b a reserved = nextEligibleTaskFromBacklog e b (AgentRecord a) reserved"

definition assignable :: "env \<Rightarrow> Backlog \<Rightarrow> Agent \<Rightarrow> string \<Rightarrow> bool" where
  "assignable e b a ref \<longleftrightarrow> (\<exists>t \<in> set (backlog_tasks b). t_ref t = ref \<and> agent_eligible e b (AgentRecord a) [] t)"

lemma eligible_unreserved: "agent_eligible e b who r t \<Longrightarrow> t_ref t \<notin> set r \<and> agent_eligible e b who [] t"
  by (auto simp: agent_eligible_def ready_for_dispatch_def)

lemma backlog_picker_Some:
  assumes "backlog_picker e b a r = Some ref"
  shows "ref \<notin> set r \<and> assignable e b a ref"
proof -
  obtain t where t: "pick_first (filter (agent_eligible e b (AgentRecord a) r) (backlog_tasks b)) = Some t" "t_ref t = ref"
    using assms by (auto simp: backlog_picker_def nextEligibleTaskFromBacklog_def)
  obtain us vs where "backlog_tasks b = us @ t # vs" "agent_eligible e b (AgentRecord a) r t" using pick_filtered [OF t(1)] .
  with t(2) show ?thesis by (auto simp: assignable_def dest: eligible_unreserved)
qed

interpretation sched: task_picker "backlog_picker e b" "assignable e b" for e b
  by unfold_locales (auto dest: backlog_picker_Some)

text \<open>
  A dispatch plan has no conflicts: no two entries share a task, and every entry gives an agent
  of the list a task of the backlog that is ready, unreserved or reserved for that agent, supported
  by its role, provider and capabilities, and whose dependencies are done; with distinct agents no
  agent appears twice.
\<close>

theorem dispatch_plan_is_conflict_free:
  "distinct (map snd (buildDispatchPlan (backlog_picker e b) agents)) \<and>
   (distinct agents \<longrightarrow> distinct (map fst (buildDispatchPlan (backlog_picker e b) agents))) \<and>
   (\<forall>(a, ref) \<in> set (buildDispatchPlan (backlog_picker e b) agents). a \<in> set agents \<and>
      (\<exists>t \<in> set (backlog_tasks b). t_ref t = ref \<and> agent_eligible e b (AgentRecord a) [] t))"
  using sched.plan_refs [of e b agents "[]"] sched.plan_agents [of agents e b "[]"] sched.plan_ok [of _ _ e b agents "[]"]
  unfolding buildDispatchPlan_def assignable_def by fast

section \<open>The tasks of a tick\<close>

lemma nextSpawnable_Some:
  assumes "nextSpawnableTask e b r = Some item"
  obtains t where "t \<in> set (backlog_tasks b)" "item = (t_ref t, t_required_provider t)" "spawnable e b r t"
proof -
  obtain t where t: "pick_first (filter (spawnable e b r) (backlog_tasks b)) = Some t" "item = (t_ref t, t_required_provider t)"
    using assms by (auto simp: nextSpawnableTask_def)
  obtain us vs where "backlog_tasks b = us @ t # vs" "spawnable e b r t" using pick_filtered [OF t(1)] .
  with t(2) that show thesis by auto
qed

text \<open>An item of a tick: a task that is not reserved and may be spawned.\<close>

definition tick_item :: "env \<Rightarrow> Backlog \<Rightarrow> string list \<Rightarrow> string \<Rightarrow> bool" where
  "tick_item e b reserved ref \<longleftrightarrow> (\<exists>t \<in> set (backlog_tasks b). t_ref t = ref \<and> spawnable e b reserved t)"

lemma spawnable_unreserved: "spawnable e b (r @ r') t \<Longrightarrow> t_ref t \<notin> set r' \<and> spawnable e b r t"
  by (auto simp: spawnable_def ready_for_dispatch_def)

lemma dispatch_items_inv:
  assumes "distinct (map fst items)" "\<And>ref. ref \<in> fst ` set items \<Longrightarrow> tick_item e b r ref"
  shows "distinct (map fst (dispatch_items e b r n items)) \<and> length (dispatch_items e b r n items) \<le> length items + n \<and>
    (\<forall>ref \<in> fst ` set (dispatch_items e b r n items). tick_item e b r ref)"
  using assms
proof (induction n arbitrary: items)
  case (Suc n)
  show ?case
  proof (cases "nextSpawnableTask e b (r @ map fst items)")
    case None
    with Suc.prems show ?thesis by simp
  next
    case (Some item)
    obtain t where t: "t \<in> set (backlog_tasks b)" "item = (t_ref t, t_required_provider t)" "spawnable e b (r @ map fst items) t"
      using nextSpawnable_Some [OF Some] .
    have "t_ref t \<notin> set (map fst items)" "tick_item e b r (t_ref t)"
      using spawnable_unreserved [OF t(3)] t(1) by (auto simp: tick_item_def)
    with Suc.IH [of "items @ [item]"] Suc.prems Some t(2) show ?thesis by auto
  qed
qed auto

lemma select_dispatch_items:
  "distinct (map fst (select_dispatch e b claims m)) \<and>
   length (select_dispatch e b claims m) + length (activeClaimAgents claims) \<le> max m (length (activeClaimAgents claims)) \<and>
   (\<forall>ref \<in> fst ` set (select_dispatch e b claims m). tick_item e b (map c_task_ref (filter claim_active claims)) ref)"
  using dispatch_items_inv [of "[]" e b "map c_task_ref (filter claim_active claims)" "m - length (activeClaimAgents claims)"]
  by (auto simp: select_dispatch_def Let_def)

lemma findTask_unique:
  assumes "distinct (map t_ref (backlog_tasks b))" "t \<in> set (backlog_tasks b)"
  shows "findTask b (t_ref t) = Some t"
  using assms unfolding findTask_def by (rule find_distinct_key)

lemma tick_item_claimable:
  assumes "distinct (map t_ref (backlog_tasks b))" "tick_item e b (map c_task_ref (filter claim_active claims)) ref"
  shows "claim_guards ref agentId b claims = Inr ()"
proof -
  obtain t where t: "t \<in> set (backlog_tasks b)" "t_ref t = ref" "spawnable e b (map c_task_ref (filter claim_active claims)) t"
    using assms(2) by (auto simp: tick_item_def)
  have "findTask b ref = Some t" using findTask_unique [OF assms(1) t(1)] t(2) by simp
  moreover have "ref \<notin> set (map c_task_ref (filter claim_active claims))"
    using t(2,3) by (simp add: spawnable_def ready_for_dispatch_def)
  then have "List.find (\<lambda>c. c_task_ref c = ref \<and> claim_active c) claims = None"
    by (auto simp: find_None_iff_set image_iff)
  ultimately show ?thesis using t(3) by (simp add: claim_guards_def spawnable_def ready_for_dispatch_def)
qed

section \<open>The projected backlog\<close>

lemma mset_add_to_feature:
  "mset (backlog_tasks (add_to_feature t fs)) = add_mset (projectTaskToBacklogTask t) (mset (backlog_tasks fs))"
  by (induction fs) (simp_all add: backlog_tasks_def)

lemma mset_readProjectBacklog: "mset (backlog_tasks (readProjectBacklog s)) = mset (map projectTaskToBacklogTask (listTasks s))"
proof -
  have "mset (backlog_tasks (fold add_to_feature ts fs)) = mset (backlog_tasks fs) + mset (map projectTaskToBacklogTask ts)" for ts fs
    by (induction ts arbitrary: fs) (simp_all add: mset_add_to_feature)
  then show ?thesis by (simp add: readProjectBacklog_def backlog_tasks_def)
qed

lemma set_readProjectBacklog: "set (backlog_tasks (readProjectBacklog s)) = projectTaskToBacklogTask ` set (listTasks s)"
  using arg_cong [OF mset_readProjectBacklog [of s], of set_mset] by simp

lemma listTasks_row:
  assumes "store_inv s" "pt \<in> set (listTasks s)"
  obtains row r where "find_task_row (pt_ref pt) s = Some row" "pt = toTask row r (dependencies (pt_ref pt) s)"
proof -
  from assms(2) obtain ref where g: "getTask ref s = Some pt" by (auto simp: listTasks_def map_filter_def)
  then obtain row r where r: "find_task_row ref s = Some row" "pt = toTask row r (dependencies ref s)"
    by (auto simp: getTask_def split: option.splits)
  then have ref: "ref = pt_ref pt" by (auto simp: toTask_def dest: find_task_rowD)
  show thesis using r unfolding ref by (rule that)
qed

lemma listTasks_refs:
  assumes "store_inv s"
  shows "distinct (map pt_ref (listTasks s))"
proof -
  let ?rows = "sort_key (\<lambda>t. ts_num (tr_created_at t)) (sort_key tr_ref (tasks s))"
  have d: "distinct (map tr_ref ?rows)"
  proof -
    have "mset (map tr_ref ?rows) = mset (map tr_ref (tasks s))" by simp
    moreover have "distinct (map tr_ref (tasks s))" using assms by (simp add: store_inv_def refs_ok_def)
    ultimately show ?thesis by (metis mset_eq_imp_distinct_iff)
  qed
  have "map pt_ref (List.map_filter (\<lambda>row. getTask (tr_ref row) s) rows) =
      filter (\<lambda>ref. getTask ref s \<noteq> None) (map tr_ref rows)" for rows
    by (induction rows)
      (auto simp: List.map_filter_simps getTask_def toTask_def split: option.splits dest: find_task_rowD)
  note eq = this
  show ?thesis unfolding listTasks_def eq using d by (rule distinct_filter)
qed

lemma projected_refs: "t_ref (projectTaskToBacklogTask pt) = pt_ref pt"
  by (simp add: projectTaskToBacklogTask_def Let_def)

lemma projected_backlog_distinct:
  assumes "store_inv s"
  shows "distinct (map t_ref (backlog_tasks (readProjectBacklog s)))"
proof -
  have "mset (map t_ref (backlog_tasks (readProjectBacklog s))) = image_mset t_ref (mset (backlog_tasks (readProjectBacklog s)))" by simp
  also have "\<dots> = mset (map pt_ref (listTasks s))"
    unfolding mset_readProjectBacklog by (simp add: multiset.map_comp comp_def projected_refs)
  finally show ?thesis using listTasks_refs [OF assms] by (metis mset_eq_imp_distinct_iff)
qed

lemma projected_done:
  assumes "store_inv s" "d \<in> set (done_refs (readProjectBacklog s))"
  shows "\<exists>row. find_task_row d s = Some row \<and> task_finished (tr_status row)"
proof -
  from assms(2) obtain pt where pt: "pt \<in> set (listTasks s)" "d = pt_ref pt" "task_finished (pt_status pt)"
    by (auto simp: done_refs_def set_readProjectBacklog projectTaskToBacklogTask_def Let_def)
  from listTasks_row [OF assms(1) pt(1)] pt(2,3) show ?thesis by (metis toTask_def ProjectTask.select_convs(3))
qed

lemma nonempty_falsy: "falsy (nonempty x) \<longleftrightarrow> falsy x"
  by (cases x rule: nonempty.cases) auto

lemma tick_item_store:
  assumes inv: "store_inv s" and item: "tick_item e (readProjectBacklog s) r ref" and new: "runId \<notin> rb_run_id ` set (task_runs s)"
  shows "\<exists>rev s'. store_claimTask e ref runId agentId s = Inr (rev, s')"
proof -
  obtain pt where pt: "pt \<in> set (listTasks s)" "pt_ref pt = ref" and sp: "spawnable e (readProjectBacklog s) r (projectTaskToBacklogTask pt)"
    using item by (auto simp: tick_item_def set_readProjectBacklog projected_refs)
  obtain row rev where row: "find_task_row ref s = Some row" "pt = toTask row rev (dependencies ref s)"
    using listTasks_row [OF inv pt(1)] pt(2) by metis
  have todo: "tr_status row = TS_todo" and owner: "falsy (tr_owner row)"
    using sp row(2) by (simp_all add: spawnable_def ready_for_dispatch_def projectTaskToBacklogTask_def toTask_def Let_def nonempty_falsy)
  have deps: "\<forall>d \<in> set (dependencies ref s). \<exists>x. find_task_row d s = Some x \<and> task_finished (tr_status x)"
    using sp row(2) projected_done [OF inv]
    by (auto simp: spawnable_def dependencies_done_def projectTaskToBacklogTask_def toTask_def Let_def list_all_iff split: if_splits)
  have "waiting_dependencies ref s = []"
    using deps by (auto simp: waiting_dependencies_def filter_empty_conv split: option.splits) 
  then show ?thesis
    using claim_ready_iff [OF inv row(1), of e runId agentId] waiting_iff_not_ready [of ref s] todo owner new by simp
qed

text \<open>
  C18. What the coordinator dispatches can be claimed: in a project with a well-formed task store,
  the tasks selected for a tick are distinct, never exceed the free worker capacity, and each passes
  the claim manager's guards and the task store's own claim, for any agent and any new run id.
\<close>

theorem dispatched_tasks_are_claimable:
  assumes "st_store st = Some s" "store_inv s" "readBacklog st = Inr b"
  shows "distinct (map fst (select_dispatch e b claims m)) \<and>
    length (select_dispatch e b claims m) + length (activeClaimAgents claims) \<le> max m (length (activeClaimAgents claims)) \<and>
    (\<forall>ref \<in> fst ` set (select_dispatch e b claims m). claim_guards ref agentId b claims = Inr () \<and>
       (\<forall>runId. runId \<notin> rb_run_id ` set (task_runs s) \<longrightarrow> (\<exists>r s'. store_claimTask e ref runId agentId s = Inr (r, s'))))"
proof -
  have b: "b = readProjectBacklog s" using assms(1,3) by (simp add: readBacklog_def)
  show ?thesis
    using select_dispatch_items [of e b claims m] tick_item_claimable [OF projected_backlog_distinct [OF assms(2)]]
      tick_item_store [OF assms(2)]
    unfolding b by blast
qed

section \<open>Round robin\<close>

fun nth_target :: "Task \<Rightarrow> string \<Rightarrow> Agent list \<Rightarrow> Claim list \<Rightarrow> string option \<Rightarrow> nat \<Rightarrow> string option" where
  "nth_target task ty agents claims prev 0 = prev"
| "nth_target task ty agents claims prev (Suc k) =
     snd (selectAutoTarget task ty agents claims (nth_target task ty agents claims prev k))"

lemma find_index_nth:
  "distinct (map a_agent_id xs) \<Longrightarrow> i < length xs \<Longrightarrow> find_index (\<lambda>a. Some (a_agent_id a) = Some (a_agent_id (xs ! i))) xs = Some i"
proof (induction xs arbitrary: i)
  case (Cons x xs)
  then show ?case by (cases i) (auto simp: image_iff dest: nth_mem)
qed simp

lemma find_index_Some: "find_index P xs = Some i \<Longrightarrow> i < length xs \<and> P (xs ! i)"
  by (induction xs arbitrary: i) (auto split: if_splits)

lemma candidates_distinct:
  "distinct (map a_agent_id agents) \<Longrightarrow> distinct (map a_agent_id (auto_candidates task ty agents claims))"
  by (simp add: auto_candidates_def selectDispatchableAgents_def distinct_map_filter)

lemma target_step:
  assumes "distinct (map a_agent_id agents)" "i < length (auto_candidates task ty agents claims)"
  shows "snd (selectAutoTarget task ty agents claims (Some (a_agent_id (auto_candidates task ty agents claims ! i)))) =
    Some (a_agent_id (auto_candidates task ty agents claims ! ((i + 1) mod length (auto_candidates task ty agents claims))))"
  using find_index_nth [OF candidates_distinct [OF assms(1)] assms(2)] assms(2)
  by (auto simp: selectAutoTarget_def Let_def)

lemma targets_cycle:
  assumes d: "distinct (map a_agent_id agents)" and ne: "auto_candidates task ty agents claims \<noteq> []"
    and first: "nth_target task ty agents claims prev 1 = Some (a_agent_id (auto_candidates task ty agents claims ! (i mod length (auto_candidates task ty agents claims))))"
  shows "nth_target task ty agents claims prev (Suc k) =
    Some (a_agent_id (auto_candidates task ty agents claims ! ((i + k) mod length (auto_candidates task ty agents claims))))"
proof (induction k)
  case (Suc k)
  let ?n = "length (auto_candidates task ty agents claims)"
  have "(i + k) mod ?n < ?n" using ne by simp
  from target_step [OF d this] Suc show ?case by (simp add: mod_Suc_eq)
qed (use first in simp)

text \<open>
  Automatic targeting is fair: as long as the set of candidates for a task does not change,
  every candidate is chosen within as many calls as there are candidates, wherever the round robin
  stands.
\<close>

theorem auto_target_is_fair:
  assumes "distinct (map a_agent_id agents)" "a \<in> set (auto_candidates task ty agents claims)"
  shows "\<exists>k. 0 < k \<and> k \<le> length (auto_candidates task ty agents claims) \<and>
    nth_target task ty agents claims prev k = Some (a_agent_id a)"
proof -
  let ?c = "auto_candidates task ty agents claims"
  let ?n = "length ?c"
  have ne: "?c \<noteq> []" and n: "0 < ?n" using assms(2) by auto
  obtain j where j: "j < ?n" "?c ! j = a" using assms(2) by (auto simp: in_set_conv_nth)
  obtain i where first: "nth_target task ty agents claims prev 1 = Some (a_agent_id (?c ! (i mod ?n)))"
  proof (cases "find_index (\<lambda>a. Some (a_agent_id a) = prev) ?c")
    case None
    with ne that [of 0] show thesis by (simp add: selectAutoTarget_def Let_def)
  next
    case (Some i)
    with ne that [of "i + 1"] show thesis by (simp add: selectAutoTarget_def Let_def)
  qed
  define k where "k = (j + (?n - i mod ?n)) mod ?n"
  have "(i + k) mod ?n = (i mod ?n + (j + (?n - i mod ?n))) mod ?n"
    unfolding k_def by (simp add: mod_add_left_eq mod_add_right_eq)
  also have "\<dots> = (j + ?n) mod ?n" using mod_less_divisor [OF n, of i] by (simp add: add.commute add.left_commute)
  also have "\<dots> = j" using j(1) by simp
  finally have "nth_target task ty agents claims prev (Suc k) = Some (a_agent_id a)"
    using targets_cycle [OF assms(1) ne first, of k] j(2) by simp
  moreover have "Suc k \<le> ?n" using n by (simp add: k_def Suc_le_eq)
  ultimately show ?thesis by blast
qed

section \<open>Evaluation on concrete backlogs\<close>

lemma proj_task_spawnable: "spawnable env0 proj_backlog0 [] t" if "t \<in> set (backlog_tasks proj_backlog0)" for t
  using that
  by (auto simp: proj_backlog0_def backlog_tasks_def spawnable_def ready_for_dispatch_def dependencies_done_def
      projectTaskToBacklogTask_def rev0_def TASK_TYPES_def orc_eval)

theorem dispatched_tasks_are_claimable_witness:
  "fst ` set (select_dispatch env0 proj_backlog0 [] 2) = {''f/a''} \<and>
   (\<exists>r s'. store_claimTask env0 ''f/a'' ''run-9'' ''w'' store0 = Inr (r, s'))"
proof -
  have store: "st_store proj_st = Some store0" by (simp add: proj_st_def)
  obtain t where t: "backlog_tasks proj_backlog0 = [t]" "t_ref t = ''f/a''"
    by (simp add: proj_backlog0_def backlog_tasks_def projectTaskToBacklogTask_def toTask_def new_task_row_def Let_def)
  have sp: "spawnable env0 proj_backlog0 [] t" using proj_task_spawnable t(1) by simp
  have used: "\<not> spawnable env0 proj_backlog0 [''f/a''] t" using t(2) by (simp add: spawnable_def ready_for_dispatch_def)
  have sel: "fst ` set (select_dispatch env0 proj_backlog0 [] 2) = {''f/a''}"
    using sp used t
    by (simp add: select_dispatch_def activeClaimAgents_def busy_agents_def js_set_def numeral_2_eq_2 nextSpawnableTask_def pick_first_best)
  have "''run-9'' \<notin> rb_run_id ` set (task_runs store0)" by (simp add: store0_def orc_eval)
  with dispatched_tasks_are_claimable [OF store store0_inv proj_backlog, of env0 "[]" 2 "''w''"] sel show ?thesis by auto
qed

definition worker1 :: Agent where "worker1 = worker_stub ''w''"

lemma proj_eligible: "agent_eligible env0 proj_backlog0 (AgentRecord worker1) [] t" if "t \<in> set (backlog_tasks proj_backlog0)" for t
  using that
  by (auto simp: proj_backlog0_def backlog_tasks_def agent_eligible_def ready_for_dispatch_def dependencies_done_def
      canAgentExecuteTask_def evaluateTaskEligibility_def add_if_def taskTypeOf_def worker1_def worker_stub_def
      projectTaskToBacklogTask_def rev0_def TASK_TYPES_def orc_eval)

lemma proj_single: obtains t where "backlog_tasks proj_backlog0 = [t]" "t_ref t = ''f/a''"
  by (simp add: proj_backlog0_def backlog_tasks_def projectTaskToBacklogTask_def toTask_def new_task_row_def Let_def)

lemma proj_picked: "nextEligibleTaskFromBacklog env0 proj_backlog0 (AgentRecord worker1) [] = Some ''f/a''"
proof -
  obtain t where t: "backlog_tasks proj_backlog0 = [t]" "t_ref t = ''f/a''" by (rule proj_single)
  with proj_eligible [of t] show ?thesis by (simp add: nextEligibleTaskFromBacklog_def pick_first_best)
qed

theorem scheduler_picks_highest_priority_witness:
  "nextEligibleTaskFromBacklog env0 proj_backlog0 (AgentRecord worker1) [] = Some ''f/a'' \<and>
   (\<exists>t \<in> set (backlog_tasks proj_backlog0). t_ref t = ''f/a'' \<and> agent_eligible env0 proj_backlog0 (AgentRecord worker1) [] t)"
  using scheduler_picks_highest_priority [of env0 proj_backlog0 "AgentRecord worker1" "[]"] proj_picked by fastforce

theorem dispatch_plan_is_conflict_free_witness:
  "buildDispatchPlan (backlog_picker env0 proj_backlog0) [worker1] = [(worker1, ''f/a'')] \<and>
   (\<exists>t \<in> set (backlog_tasks proj_backlog0). t_ref t = ''f/a'' \<and> agent_eligible env0 proj_backlog0 (AgentRecord worker1) [] t)"
proof -
  have p: "buildDispatchPlan (backlog_picker env0 proj_backlog0) [worker1] = [(worker1, ''f/a'')]"
    by (simp add: buildDispatchPlan_def backlog_picker_def proj_picked)
  with dispatch_plan_is_conflict_free [of env0 proj_backlog0 "[worker1]"] show ?thesis by simp
qed

theorem auto_target_is_fair_witness:
  "auto_candidates legacy_task ''implementation'' [worker1] [] = [worker1] \<and>
   (\<exists>k. 0 < k \<and> nth_target legacy_task ''implementation'' [worker1] [] None k = Some (a_agent_id worker1))"
proof -
  have c: "auto_candidates legacy_task ''implementation'' [worker1] [] = [worker1]"
    by (simp add: auto_candidates_def selectDispatchableAgents_def busy_agents_def dispatchable_role_def canAgentExecuteTask_def
        evaluateTaskEligibility_def add_if_def taskTypeOf_def worker1_def worker_stub_def TASK_TYPES_def legacy_task_def
        projectTaskToBacklogTask_def rev0_def orc_eval)
  have "distinct (map a_agent_id [worker1])" by simp
  from auto_target_is_fair [OF this, of worker1 legacy_task "''implementation''" "[]" None] c show ?thesis by auto
qed

end
