(* ===== verification/Adapter_Gate.thy ===== *)
theory Adapter_Gate
  imports Sessions Command_Delivery
begin

text \<open>
  The coordinator's own state and its way out: what Git, the pull request host and the provider adapters
  answer (\<open>host\<close>), the calls that succeeded, and the gate that \<^verbatim>\<open>getAdapter\<close> of \<^verbatim>\<open>coordinator.ts\<close> puts before
  every message: \<^verbatim>\<open>assertSessionWritable\<close>, and for structured sessions a durable command.
\<close>

section \<open>Messages and outside calls\<close>

text \<open>
  A message names its kind and what fills its text; the rendered text itself comes from template files.
  A call that succeeded is recorded, in order; the record of a message to a session holds the session's
  row at the time, if it had one.
\<close>

datatype coord_message =
    FinalizeWait string
  | FinalizeRebase string string
  | FinalizeSuccess string string
  | PrReview string string
  | RunStartNudge string
  | InProgressNudge string "string option"
  | ReportForDutyNudge string
  | TaskEnvelope string
  | PrReviewFailed string string string

datatype host_call =
    Sent string string coord_message "session_row option"
  | Merged string string
  | PushedMain
  | PushedBranch string string
  | CreatedPr string
  | MergedPr string
  | Started string string

record RunWorktreeEntry =
  rw_run_id :: string
  rw_task_ref :: string
  rw_agent_id :: string
  rw_branch :: string
  rw_worktree_path :: string
  rw_created_at :: timestamp
  rw_updated_at :: timestamp

text \<open>What an adapter is asked to start, and what it reports of a session it started.\<close>

record launch_options =
  lo_prompt_session :: string
  lo_model :: "string option"
  lo_working_directory :: "string option"
  lo_read_only :: bool
  lo_require_git_checkout :: bool
  lo_sandboxed :: bool
  lo_runtime :: "string option"
  lo_secret :: "string option"

record started_session =
  sd_handle :: string
  sd_provider_ref :: "string option"
  sd_protocol_ready :: bool
  sd_transport :: "string option"
  sd_pid :: "int option"
  sd_process_start :: "string option"

text \<open>
  What the outside of the coordinator answers. Git and the file system: whether a path exists and is a
  worktree, and the outcome of each command. The pull request host. The provider adapters, by provider
  and session handle: what inspecting a session finds, whether it has a structured runtime and a turn
  under way, the outcome of writing to a terminal or of submitting a command, the liveness probe, the
  text of a prompt that blocks the session, whether this process holds its terminal, and the outcome of
  starting one for an agent. The identity of the coordinator as an owner of sessions, a new secret, the
  texts of messages, which are rendered from template files, and random identifiers: of messages and
  sessions, of runs, and the draws for the name of a worker.
\<close>

record host =
  h_pathExists :: "string \<Rightarrow> bool"
  h_isWorktree :: "string \<Rightarrow> bool"
  h_worktreeAdd :: "string \<Rightarrow> string \<Rightarrow> bool \<Rightarrow> unit result"
  h_worktreeRemove :: "string \<Rightarrow> bool"
  h_branchDelete :: "string \<Rightarrow> bool"
  h_branchContainsMain :: "string \<Rightarrow> bool result"
  h_mergeTaskBranch :: "string \<Rightarrow> string \<Rightarrow> unit result"
  h_pushMain :: "unit result"
  h_pushBranch :: "string \<Rightarrow> string \<Rightarrow> unit result"
  h_createPr :: "string \<Rightarrow> string \<Rightarrow> string result"
  h_mergePr :: "string \<Rightarrow> unit result"
  h_worktreesDir :: string
  h_os :: os_view
  h_inspect :: "string \<Rightarrow> string \<Rightarrow> SessionInspection option"
  h_structured :: "string \<Rightarrow> string \<Rightarrow> bool"
  h_turnActive :: "string \<Rightarrow> string \<Rightarrow> bool"
  h_write :: "string \<Rightarrow> string \<Rightarrow> unit result"
  h_submit :: "string \<Rightarrow> string \<Rightarrow> DurableCommand \<Rightarrow> unit result"
  h_alive :: "string \<Rightarrow> string \<Rightarrow> bool result"
  h_prompt :: "string \<Rightarrow> string \<Rightarrow> string option result"
  h_text :: "coord_message \<Rightarrow> string"
  h_random :: "runtime_db \<Rightarrow> string"
  h_start :: "string \<Rightarrow> string \<Rightarrow> launch_options \<Rightarrow> started_session result"
  h_owns :: "string \<Rightarrow> string \<Rightarrow> bool"
  h_ownerId :: string
  h_secret :: "runtime_db \<Rightarrow> string"
  h_runId :: "runtime_db \<Rightarrow> string"
  h_draws :: "runtime_db \<Rightarrow> nat \<Rightarrow> int"

section \<open>The coordinator's state\<close>

record coord_state =
  co_st :: orc_state
  co_worktrees :: "RunWorktreeEntry list"
  co_calls :: "host_call list"

text \<open>A step on a state may throw, and has its effects also when it throws.\<close>

type_synonym ('s, 'a) step = "'s \<Rightarrow> 'a result \<times> 's"

type_synonym 'a coord = "(coord_state, 'a) step"

record CoordinatorConfig =
  cfg_max_workers :: nat
  cfg_merge_strategy :: string
  cfg_pr_provider :: "string option"
  cfg_pr_push_remote :: string
  cfg_pr_finalize_lease_ms :: int

definition on_st :: "(orc_state \<Rightarrow> 'a outcome) \<Rightarrow> 'a coord" where
  "on_st f c = (let (r, st) = f (co_st c) in (r, c\<lparr>co_st := st\<rparr>))"

definition cbind :: "('s, 'a) step \<Rightarrow> ('a \<Rightarrow> ('s, 'b) step) \<Rightarrow> ('s, 'b) step" where
  "cbind m k c = (case m c of (Inl err, c') \<Rightarrow> (Inl err, c') | (Inr x, c') \<Rightarrow> k x c')"

definition creturn :: "'a \<Rightarrow> ('s, 'a) step" where
  "creturn x c = (Inr x, c)"

text \<open>\<^verbatim>\<open>try { m } catch (error) { return h(error) } k\<close>, and \<^verbatim>\<open>try { m } catch { }\<close>.\<close>

definition ctry :: "('s, 'a) step \<Rightarrow> (orc_error \<Rightarrow> ('s, 'b) step) \<Rightarrow> ('a \<Rightarrow> ('s, 'b) step) \<Rightarrow> ('s, 'b) step" where
  "ctry m h k c = (case m c of (Inl err, c') \<Rightarrow> h err c' | (Inr x, c') \<Rightarrow> k x c')"

definition cquiet :: "('s, 'a) step \<Rightarrow> ('s, unit) step" where
  "cquiet m c = (Inr (), snd (m c))"

text \<open>An external command: its answer, and the record of it when it succeeds.\<close>

definition call_host :: "'a result \<Rightarrow> ('a \<Rightarrow> host_call) \<Rightarrow> 'a coord" where
  "call_host r k c = (case r of Inl err \<Rightarrow> (Inl err, c) | Inr x \<Rightarrow> (Inr x, c\<lparr>co_calls := co_calls c @ [k x]\<rparr>))"

section \<open>The gate before every write (coordinator.ts)\<close>

text \<open>\<^verbatim>\<open>sessionHandle.slice(sessionHandle.indexOf(':') + 1)\<close>\<close>

definition handle_agent :: "string \<Rightarrow> string" where
  "handle_agent handle = (case dropWhile (\<lambda>c. c \<noteq> CHR '':'') handle of [] \<Rightarrow> handle | _ # rest \<Rightarrow> rest)"

definition unknown_session :: state_options where
  "unknown_session = \<lparr>so_ownerId = None, so_ownerTtlMs = None, so_outcome = Some RO_unknown\<rparr>"

definition assertSessionWritable :: "env \<Rightarrow> host \<Rightarrow> string \<Rightarrow> string \<Rightarrow> unit coord" where
  "assertSessionWritable e h provider handle = on_st (\<lambda>st.
     case currentSessionForAgent (handle_agent handle) (st_db st) of
       None \<Rightarrow> (Inr (), st)
     | Some s \<Rightarrow>
         if ss_state s \<noteq> SS_running
         then (Inl (PlainError (''session '' @ ss_session_id s @ '' is '' @ session_state_str (ss_state s) @ '': '' @
                 or_default (ss_state_reason s) ''not writable'')), st)
         else if identityMismatch (h_os h) s (h_inspect h provider handle)
         then (case setSessionState e (ss_session_id s) SS_unknown (Some IDENTITY_MISMATCH_REASON) unknown_session (st_db st) of
                 Inl err \<Rightarrow> (Inl err, st)
               | Inr (_, db) \<Rightarrow>
                   (Inl (PlainError (''session '' @ ss_session_id s @ '' is unknown: '' @ IDENTITY_MISMATCH_REASON)), st\<lparr>st_db := db\<rparr>))
         else (Inr (), st))"

definition isNudge :: "string \<Rightarrow> bool" where
  "isNudge text \<longleftrightarrow> starts_with ''RUN_NUDGE'' text \<or> starts_with ''SESSION_NUDGE'' text"

text \<open>
  The transport of structured sessions. The registry is read once per dispatch: the dispatcher writes
  neither the registry nor the sessions that the registry is overlaid with.
\<close>

definition structuredRecipient :: "env \<Rightarrow> host \<Rightarrow> orc_state \<Rightarrow> DurableCommand \<Rightarrow> (string \<times> string) result" where
  "structuredRecipient e h st c =
     (case getAgent e (dc_recipient_id c) st of
        None \<Rightarrow> Inl (PlainError ''Recipient session is not current'')
      | Some a \<Rightarrow>
          if falsy (a_session_handle a) \<or> a_session_token a \<noteq> dc_session_id c
          then Inl (PlainError ''Recipient session is not current'')
          else rbind (getAdapter (a_provider a)) (\<lambda>_.
            if \<not> h_structured h (a_provider a) (the (a_session_handle a))
            then Inl (PlainError (a_provider a @ '' runtime does not support command_ack: CLI sessions have no protocol acknowledgement''))
            else Inr (a_provider a, the (a_session_handle a))))"

definition transport_result :: "'a result \<Rightarrow> string + 'a" where
  "transport_result r = (case r of Inl err \<Rightarrow> Inl (error_message err) | Inr x \<Rightarrow> Inr x)"

definition to_recipient :: "env \<Rightarrow> host \<Rightarrow> orc_state \<Rightarrow> (string \<Rightarrow> string \<Rightarrow> DurableCommand \<Rightarrow> 'a result) \<Rightarrow> DurableCommand \<Rightarrow> string + 'a" where
  "to_recipient e h st f c =
     transport_result (rbind (structuredRecipient e h st c) (\<lambda>(provider, handle). f provider handle c))"

definition commandTransport :: "env \<Rightarrow> host \<Rightarrow> orc_state \<Rightarrow> command_transport" where
  "commandTransport e h st =
     \<lparr>tp_isBusy = to_recipient e h st (\<lambda>provider handle _. Inr (h_turnActive h provider handle)),
      tp_isAlive = to_recipient e h st (\<lambda>provider handle _. h_alive h provider handle),
      tp_send = to_recipient e h st (h_submit h),
      tp_acknowledges = True\<rparr>"

definition DELIVERED_STATES :: "CommandState list" where
  "DELIVERED_STATES = [CM_sent, CM_accepted, CM_running, CM_completed]"

text \<open>\<^verbatim>\<open>JSON.stringify({ text })\<close>: quotes, backslashes and control characters are escaped.\<close>

definition hex_digit :: "nat \<Rightarrow> char" where
  "hex_digit n = (if n < 10 then char_of (48 + n) else char_of (87 + n))"

definition json_char :: "char \<Rightarrow> string" where
  "json_char c =
     (let n = char_code c in
      if n = 34 then [CHR 0x5C, CHR 0x22] else if n = 92 then [CHR 0x5C, CHR 0x5C]
      else if n = 8 then [CHR 0x5C, CHR ''b''] else if n = 9 then [CHR 0x5C, CHR ''t'']
      else if n = 10 then [CHR 0x5C, CHR ''n''] else if n = 12 then [CHR 0x5C, CHR ''f'']
      else if n = 13 then [CHR 0x5C, CHR ''r'']
      else if n < 32 then [CHR 0x5C, CHR ''u'', CHR ''0'', CHR ''0'', hex_digit (n div 16), hex_digit (n mod 16)]
      else [c])"

definition text_payload :: "string \<Rightarrow> string" where
  "text_payload text = [CHR 0x7B, CHR 0x22] @ ''text'' @ [CHR 0x22, CHR '':'', CHR 0x22] @ concat (map json_char text) @ [CHR 0x22, CHR 0x7D]"

text \<open>
  A delivery waits 25 milliseconds between two rounds and at most thirty seconds in all, so round 1200
  is past its deadline and the fuel is enough.
\<close>

definition rounds :: "env \<Rightarrow> nat \<Rightarrow> env" where
  "rounds e i = e\<lparr>clock := clock e + 25 * int i\<rparr>"

definition DELIVER_FUEL :: nat where "DELIVER_FUEL = 1201"

definition structured_input :: "string \<Rightarrow> string \<Rightarrow> string \<Rightarrow> string \<Rightarrow> session_row \<Rightarrow> EnqueueCommand" where
  "structured_input run text kind key s =
     \<lparr>eq_runId = run, eq_recipientSessionId = ss_session_id s, eq_idempotencyKey = key, eq_kind = kind,
      eq_payload = Some (text_payload text), eq_sideEffecting = True, eq_maxAttempts = 1, eq_deadlineAt = None\<rparr>"

definition deliver_command :: "env \<Rightarrow> host \<Rightarrow> EnqueueCommand \<Rightarrow> orc_state \<Rightarrow> unit outcome" where
  "deliver_command e h input st =
     (case enqueueFromCoordinator e (h_random h (st_db st)) input (st_db st) of
        Inl err \<Rightarrow> (Inl err, st)
      | Inr (queued, db) \<Rightarrow>
          (case deliver DELIVER_FUEL (rounds e) (commandTransport e h st) 30000 (dc_command_id queued) db of
             None \<Rightarrow> (Inl (PlainError ''delivery did not end''), st\<lparr>st_db := db\<rparr>)
           | Some (Inl (err, db1)) \<Rightarrow> (Inl err, st\<lparr>st_db := db1\<rparr>)
           | Some (Inr (c, db1)) \<Rightarrow>
               if dc_state c \<notin> set DELIVERED_STATES \<and> \<not> isDeferred c
               then (Inl (PlainError (''command '' @ dc_command_id c @ '' '' @ command_state_str (dc_state c) @ '': '' @
                       or_default (dc_last_error c) ''not delivered'')), st\<lparr>st_db := db1\<rparr>)
               else (Inr (), st\<lparr>st_db := db1\<rparr>)))"

definition deliverStructured :: "env \<Rightarrow> host \<Rightarrow> string \<Rightarrow> string \<Rightarrow> string \<Rightarrow> string \<Rightarrow> unit coord" where
  "deliverStructured e h handle text kind key = on_st (\<lambda>st.
     case currentSessionForAgent (handle_agent handle) (st_db st) of
       None \<Rightarrow> (Inl (PlainError (''structured session '' @ handle @ '' has no active run to scope the command'')), st)
     | Some s \<Rightarrow>
         if falsy (ss_run_id s)
         then (Inl (PlainError (''structured session '' @ handle @ '' has no active run to scope the command'')), st)
         else deliver_command e h (structured_input (the (ss_run_id s)) text kind key s) st)"

text \<open>The \<^verbatim>\<open>send\<close> that \<^verbatim>\<open>getAdapter\<close> puts in front of an adapter's own, and its record.\<close>

definition record_sent :: "string \<Rightarrow> string \<Rightarrow> coord_message \<Rightarrow> unit coord" where
  "record_sent provider handle msg c =
     (Inr (), c\<lparr>co_calls := co_calls c @ [Sent provider handle msg (currentSessionForAgent (handle_agent handle) (st_db (co_st c)))]\<rparr>)"

definition adapter_send :: "env \<Rightarrow> host \<Rightarrow> string \<Rightarrow> string \<Rightarrow> coord_message \<Rightarrow> unit coord" where
  "adapter_send e h provider handle msg =
     cbind (assertSessionWritable e h provider handle) (\<lambda>_.
       if h_structured h provider handle
       then if isNudge (h_text h msg) \<and> h_turnActive h provider handle then creturn ()
            else cbind (\<lambda>c. deliverStructured e h handle (h_text h msg) ''coordinator_message''
                          (''coordinator:'' @ h_random h (st_db (co_st c))) c) (\<lambda>_. record_sent provider handle msg)
       else cbind (\<lambda>c. (h_write h provider handle, c)) (\<lambda>_. record_sent provider handle msg))"

definition send_to :: "env \<Rightarrow> host \<Rightarrow> Agent \<Rightarrow> coord_message \<Rightarrow> unit coord" where
  "send_to e h a msg =
     cbind (\<lambda>c. (getAdapter (a_provider a), c)) (\<lambda>_. adapter_send e h (a_provider a) (or_default (a_session_handle a) []) msg)"

section \<open>Events of structured runtimes\<close>

record RuntimeEvent =
  re_type :: string
  re_agent_id :: string
  re_command_id :: "string option"
  re_status :: "string option"

definition RUNTIME_ACK_STATES :: "string \<Rightarrow> AckState option" where
  "RUNTIME_ACK_STATES t =
     (if t = ''turn_started'' then Some AK_running
      else if t = ''turn_completed'' then Some AK_completed
      else if t = ''turn_failed'' \<or> t = ''turn_interrupted'' then Some AK_failed
      else None)"

text \<open>A failing acknowledgement is logged and dropped.\<close>

definition onRuntimeEvent :: "env \<Rightarrow> RuntimeEvent \<Rightarrow> runtime_db \<Rightarrow> runtime_db" where
  "onRuntimeEvent e ev db =
     (if re_type ev = ''approval_refused'' then db
      else case RUNTIME_ACK_STATES (re_type ev) of
        None \<Rightarrow> db
      | Some state \<Rightarrow>
          if falsy (re_command_id ev) then db
          else case currentSessionForAgent (re_agent_id ev) db of
            None \<Rightarrow> db
          | Some s \<Rightarrow>
              (case acknowledgeFromRuntime e (the (re_command_id ev)) (ss_session_id s) state
                      (if state = AK_failed then Some (''provider turn '' @ or_default (re_status ev) (re_type ev)) else None) db of
                 Inl _ \<Rightarrow> db
               | Inr (_, db') \<Rightarrow> db'))"

end
