(* ===== verification/Finalization.thy ===== *)
theory Finalization
  imports Adapter_Gate
begin

text \<open>
  How a completed run becomes a finished task: \<^verbatim>\<open>lib/taskCompletion.ts\<close>, the worktree registry of
  \<^verbatim>\<open>lib/runWorktree.ts\<close> and \<^verbatim>\<open>finalizeRun\<close> of \<^verbatim>\<open>coordinator.ts\<close> with its direct merge and its pull
  request path. Git, the pull request host and the provider adapters are the parameter \<open>host\<close>; the
  calls that succeeded are recorded in order (\<open>Adapter_Gate\<close>), so that a theorem can say what the coordinator did.
\<close>

section \<open>Completing a task (taskCompletion.ts)\<close>

definition NON_COMPLETABLE_STATUSES :: "TaskStatus list" where
  "NON_COMPLETABLE_STATUSES = [TS_blocked, TS_released, TS_cancelled]"

definition task_updated_event :: "env \<Rightarrow> string \<Rightarrow> string \<Rightarrow> TaskStatus \<Rightarrow> OrcEvent" where
  "task_updated_event e taskRef actorId previous =
     mk_event (now_ts e) ''task_updated'' (if actorId = ''human'' then ''human'' else ''agent'') actorId None (Some taskRef) None
       (Some [(''status'', JStr ''done''), (''previous_status'', JStr (status_str previous)), (''fields'', JArr [JStr ''status''])])"

definition markTaskDoneRuntimeOnly :: "env \<Rightarrow> string \<Rightarrow> string \<Rightarrow> orc_state \<Rightarrow> TaskStatus outcome" where
  "markTaskDoneRuntimeOnly e taskRef actorId st =
     check_then (readBacklog st) (\<lambda>backlog st.
       case findTask backlog taskRef of
         None \<Rightarrow> (Inl (NotFoundError (''task not found: '' @ taskRef)), st)
       | Some task \<Rightarrow>
           if t_status task \<in> set NON_COMPLETABLE_STATUSES
           then (Inl (ConflictError (''task '' @ taskRef @ '' cannot transition to done from status '' @ status_str (t_status task))), st)
           else
             obind (if t_status task \<noteq> TS_done
                    then commitBacklog e
                           (update_task taskRef (\<lambda>t. t\<lparr>t_status := TS_done, t_updated_at := Some (now_ts e), t_blocked_reason := None\<rparr>) backlog)
                           [(taskRef, mk_change TC_merge_succeeded
                              (case st_store st of None \<Rightarrow> None | Some s \<Rightarrow> activeRunId taskRef s) (Some actorId) None)] st
                    else (Inr (), st)) (\<lambda>_ st1.
             obind (appendEventTo e (task_updated_event e taskRef actorId (t_status task)) st1) (\<lambda>_ st2.
               (Inr (t_status task), st2)))) st"

section \<open>Worktrees of runs (runWorktree.ts)\<close>

definition isValidGitWorktree :: "host \<Rightarrow> string \<Rightarrow> bool" where
  "isValidGitWorktree h path \<longleftrightarrow> h_pathExists h path \<and> h_isWorktree h path"

definition getRunWorktree :: "string \<Rightarrow> RunWorktreeEntry list \<Rightarrow> RunWorktreeEntry option" where
  "getRunWorktree runId runs = List.find (\<lambda>w. rw_run_id w = runId) runs"

definition deleteRunWorktree :: "string \<Rightarrow> RunWorktreeEntry list \<Rightarrow> bool \<times> RunWorktreeEntry list" where
  "deleteRunWorktree runId runs =
     (let remaining = filter (\<lambda>w. rw_run_id w \<noteq> runId) runs in
      if length remaining = length runs then (False, runs) else (True, remaining))"

definition cleanupRunWorktree :: "host \<Rightarrow> string \<Rightarrow> RunWorktreeEntry list \<Rightarrow> bool result \<times> RunWorktreeEntry list" where
  "cleanupRunWorktree h runId runs =
     (if runId = [] then (Inl (PlainError ''runId is required''), runs)
      else case getRunWorktree runId runs of
        None \<Rightarrow> (Inr False, runs)
      | Some entry \<Rightarrow>
          (let removed = (rw_worktree_path entry \<noteq> [] \<and> h_pathExists h (rw_worktree_path entry) \<longrightarrow>
                            h_worktreeRemove h (rw_worktree_path entry));
               deleted = (rw_branch entry \<noteq> [] \<longrightarrow> h_branchDelete h (rw_branch entry)) in
           if removed \<and> deleted then (Inr True, filter (\<lambda>w. rw_run_id w \<noteq> runId) runs) else (Inr False, runs)))"

definition pruneMissingRunWorktrees :: "host \<Rightarrow> string list \<Rightarrow> RunWorktreeEntry list \<Rightarrow> nat \<times> RunWorktreeEntry list" where
  "pruneMissingRunWorktrees h active runs =
     (let remaining = filter (\<lambda>w. rw_run_id w \<in> set active \<or> isValidGitWorktree h (rw_worktree_path w)) runs in
      if length remaining = length runs then (0, runs) else (length runs - length remaining, remaining))"

definition ensureRunWorktree ::
  "env \<Rightarrow> host \<Rightarrow> string \<Rightarrow> string \<Rightarrow> string \<Rightarrow> RunWorktreeEntry list \<Rightarrow> (RunWorktreeEntry \<times> RunWorktreeEntry list) result" where
  "ensureRunWorktree e h runId taskRef agentId runs =
     (if runId = [] then Inl (PlainError ''runId is required'')
      else if taskRef = [] then Inl (PlainError ''taskRef is required'')
      else if agentId = [] then Inl (PlainError ''agentId is required'')
      else
        (let existing = getRunWorktree runId runs;
             branch = (case existing of None \<Rightarrow> ''task/'' @ runId | Some w \<Rightarrow> rw_branch w);
             path = (case existing of None \<Rightarrow> h_worktreesDir h @ ''/'' @ runId | Some w \<Rightarrow> rw_worktree_path w);
             entry = \<lparr>rw_run_id = runId, rw_task_ref = taskRef, rw_agent_id = agentId, rw_branch = branch,
                      rw_worktree_path = path,
                      rw_created_at = (case existing of None \<Rightarrow> now_ts e | Some w \<Rightarrow> rw_created_at w),
                      rw_updated_at = now_ts e\<rparr> in
         if h_pathExists h path \<and> \<not> isValidGitWorktree h path
         then Inl (PlainError (''Assigned worktree path exists but is not a git worktree: '' @ path))
         else rbind (if \<not> isValidGitWorktree h path then h_worktreeAdd h path branch (existing = None) else Inr ()) (\<lambda>_.
           Inr (entry, filter (\<lambda>w. rw_run_id w \<noteq> runId) runs @ [entry]))))"

section \<open>Finalization (coordinator.ts)\<close>

definition sendCoordinatorMessage :: "env \<Rightarrow> host \<Rightarrow> string \<Rightarrow> coord_message \<Rightarrow> bool coord" where
  "sendCoordinatorMessage e h agentId msg =
     cbind (on_st (\<lambda>st. (Inr (getAgent e agentId st), snd (readAgentsFile e st)))) (\<lambda>agent.
       case agent of
         None \<Rightarrow> creturn False
       | Some a \<Rightarrow>
           if falsy (a_session_handle a) \<or> a_status a = AS_offline then creturn False
           else cbind (\<lambda>c. (getAdapter (a_provider a), c)) (\<lambda>_.
             ctry (adapter_send e h (a_provider a) (the (a_session_handle a)) msg) (\<lambda>_. creturn False) (\<lambda>_. creturn True)))"

definition markFinalizeBlocked :: "env \<Rightarrow> CoordinatorConfig \<Rightarrow> Claim \<Rightarrow> string \<Rightarrow> bool coord" where
  "markFinalizeBlocked e cfg claim reason =
     ctry (on_st (setRunFinalizationState e (c_run_id claim) (c_agent_id claim) (Some FS_blocked_finalize) 0 (Some reason)))
       (\<lambda>_. creturn False)
       (\<lambda>_. cbind (on_st (cleanupRunCapacity e (cfg_max_workers cfg) (c_agent_id claim) None)) (\<lambda>_. creturn True))"

definition requestFinalizeRebase :: "env \<Rightarrow> host \<Rightarrow> CoordinatorConfig \<Rightarrow> Claim \<Rightarrow> string \<Rightarrow> bool \<Rightarrow> bool coord" where
  "requestFinalizeRebase e h cfg claim reason incrementRetry =
     cbind (on_st (\<lambda>st. let (found, st0) = getClaim (c_run_id claim) st in (Inr (or_default found claim), st0))) (\<lambda>latest.
       if or_default (c_finalization_retry_count latest) 0 \<ge> 2 \<and> incrementRetry then markFinalizeBlocked e cfg latest reason
       else
         ctry (on_st (setRunFinalizationState e (c_run_id latest) (c_agent_id latest) (Some FS_finalize_rebase_requested) 0 None))
           (\<lambda>_. creturn False)
           (\<lambda>updated.
              cbind (sendCoordinatorMessage e h (c_agent_id updated) (FinalizeRebase (c_run_id updated) reason)) (\<lambda>sent.
                if \<not> sent then
                  if c_finalization_state latest = Some FS_finalize_rebase_requested
                  then markFinalizeBlocked e cfg updated (reason @ ''; finalize request could not be delivered twice'')
                  else creturn False
                else if incrementRetry
                then cbind (cquiet (on_st (setRunFinalizationState e (c_run_id updated) (c_agent_id updated)
                       (Some FS_finalize_rebase_requested) 1 None))) (\<lambda>_. creturn True)
                else creturn True)))"

definition resolveMergeStrategy :: "Task option \<Rightarrow> CoordinatorConfig \<Rightarrow> string" where
  "resolveMergeStrategy task cfg =
     or_default (case task of None \<Rightarrow> None | Some t \<Rightarrow> t_merge_strategy t) (cfg_merge_strategy cfg)"

text \<open>
  The end of both merge paths: \<^verbatim>\<open>finishRun\<close>, the notice to the worker, the release of its capacity and
  the removal of the worktree, whose failure leaves it for a later pass.
\<close>

definition finish_merged_run :: "env \<Rightarrow> host \<Rightarrow> CoordinatorConfig \<Rightarrow> Claim \<Rightarrow> string \<Rightarrow> bool coord" where
  "finish_merged_run e h cfg claim branch =
     cbind (on_st (finishRun e (c_run_id claim) (c_agent_id claim) (worker_finish e True None None ''requeue''))) (\<lambda>_.
     cbind (sendCoordinatorMessage e h (c_agent_id claim) (FinalizeSuccess (c_run_id claim) branch)) (\<lambda>_.
     cbind (on_st (cleanupRunCapacity e (cfg_max_workers cfg) (c_agent_id claim) None)) (\<lambda>_ c.
       (Inr True, c\<lparr>co_worktrees := snd (cleanupRunWorktree h (c_run_id claim) (co_worktrees c))\<rparr>))))"

text \<open>\<^verbatim>\<open>if (findTask(readBacklog(...))?.status !== 'done') markTaskDoneRuntimeOnly(...)\<close>\<close>

definition confirm_task_done :: "env \<Rightarrow> string \<Rightarrow> orc_state \<Rightarrow> unit outcome" where
  "confirm_task_done e taskRef st =
     check_then (readBacklog st) (\<lambda>b st.
       if map_option t_status (findTask b taskRef) = Some TS_done then (Inr (), st)
       else obind (markTaskDoneRuntimeOnly e taskRef ''coordinator'' st) (\<lambda>_ st1. (Inr (), st1))) st"

definition mergeAndFinishDirectRun :: "env \<Rightarrow> host \<Rightarrow> CoordinatorConfig \<Rightarrow> Claim \<Rightarrow> RunWorktreeEntry \<Rightarrow> bool coord" where
  "mergeAndFinishDirectRun e h cfg claim wt =
     ctry (call_host (h_mergeTaskBranch h (rw_branch wt) (c_task_ref claim)) (\<lambda>_. Merged (rw_branch wt) (c_task_ref claim)))
       (\<lambda>err. requestFinalizeRebase e h cfg claim (error_message err) True)
       (\<lambda>_. ctry (on_st (confirm_task_done e (c_task_ref claim)))
          (\<lambda>err. markFinalizeBlocked e cfg claim (''failed to mark runtime task done after merge: '' @ error_message err))
          (\<lambda>_. cbind (cquiet (call_host (h_pushMain h) (\<lambda>_. PushedMain))) (\<lambda>_.
            finish_merged_run e h cfg claim (rw_branch wt))))"

definition merge_reviewed_pr :: "env \<Rightarrow> host \<Rightarrow> CoordinatorConfig \<Rightarrow> Claim \<Rightarrow> RunWorktreeEntry \<Rightarrow> bool coord" where
  "merge_reviewed_pr e h cfg claim wt =
     (if falsy (c_pr_ref claim) \<or> falsy (cfg_pr_provider cfg)
      then markFinalizeBlocked e cfg claim ''pr_review_in_progress but pr_ref or pr_provider is missing''
      else
        ctry (call_host (h_mergePr h (the (c_pr_ref claim))) (\<lambda>_. MergedPr (the (c_pr_ref claim))))
          (\<lambda>err. markFinalizeBlocked e cfg claim (''PR merge failed: '' @ error_message err))
          (\<lambda>_. cbind (cquiet (on_st (setRunFinalizationState e (c_run_id claim) (c_agent_id claim) (Some FS_pr_merged) 0 None))) (\<lambda>_.
            ctry (on_st (confirm_task_done e (c_task_ref claim)))
              (\<lambda>err. markFinalizeBlocked e cfg claim (''failed to mark runtime task done after PR merge: '' @ error_message err))
              (\<lambda>_. finish_merged_run e h cfg claim (rw_branch wt)))))"

text \<open>The pull request path: push, create, record, extend the lease, and hand the review to the worker.\<close>

definition open_pr :: "env \<Rightarrow> host \<Rightarrow> CoordinatorConfig \<Rightarrow> Claim \<Rightarrow> RunWorktreeEntry \<Rightarrow> Task option \<Rightarrow> nat \<Rightarrow> bool coord" where
  "open_pr e h cfg claim wt task eventSeq =
     (let runId = c_run_id claim; ag = c_agent_id claim; blocked = markFinalizeBlocked e cfg claim in
      if falsy (cfg_pr_provider cfg) then blocked ''merge_strategy=pr but pr_provider is not configured''
      else
        ctry (call_host (h_pushBranch h (cfg_pr_push_remote cfg) (rw_branch wt)) (\<lambda>_. PushedBranch (cfg_pr_push_remote cfg) (rw_branch wt)))
          (\<lambda>err. blocked (''failed to push branch for PR: '' @ error_message err)) (\<lambda>_.
        ctry (call_host (h_createPr h (case task of None \<Rightarrow> c_task_ref claim | Some t \<Rightarrow> t_title t) (rw_branch wt)) CreatedPr)
          (\<lambda>err. blocked (''failed to create PR: '' @ error_message err)) (\<lambda>prRef.
        cbind (cquiet (cbind (on_st (setPrRef e runId prRef)) (\<lambda>_.
                 on_st (setPrCreatedAt e runId (now_ts e) (if eventSeq > 0 then Some (int eventSeq) else None))))) (\<lambda>_.
        cbind (cquiet (on_st (setRunFinalizationState e runId ag (Some FS_pr_created) 0 None))) (\<lambda>_.
        cbind (cquiet (on_st (renewLeaseOnly e runId (cfg_pr_finalize_lease_ms cfg)))) (\<lambda>_.
        cbind (on_st (\<lambda>st. (Inr (getAgent e ag st), snd (readAgentsFile e st)))) (\<lambda>worker.
          (case worker of
             None \<Rightarrow> blocked ''worker session_handle missing at PR_REVIEW send time''
           | Some a \<Rightarrow>
               if falsy (a_session_handle a) then blocked ''worker session_handle missing at PR_REVIEW send time''
               else
                 ctry (send_to e h a (PrReview runId prRef))
                   (\<lambda>err. blocked (''failed to send PR_REVIEW to worker '' @ ag @ '': '' @ error_message err))
                   (\<lambda>_. cbind (cquiet (on_st (setRunFinalizationState e runId ag (Some FS_pr_review_in_progress) 0 None))) (\<lambda>_.
                      creturn True))))))))))"

text \<open>The direct path, and the choice between the two for a run that has completed its work.\<close>

definition finalize_direct :: "env \<Rightarrow> host \<Rightarrow> CoordinatorConfig \<Rightarrow> Claim \<Rightarrow> RunWorktreeEntry \<Rightarrow> bool coord" where
  "finalize_direct e h cfg claim wt =
     ctry (\<lambda>c. (h_branchContainsMain h (rw_branch wt), c))
       (\<lambda>err. markFinalizeBlocked e cfg claim (error_message err))
       (\<lambda>mainIncluded.
          if \<not> mainIncluded then requestFinalizeRebase e h cfg claim ''branch is not rebased onto latest main'' True
          else mergeAndFinishDirectRun e h cfg claim wt)"

definition finalize_work :: "env \<Rightarrow> host \<Rightarrow> CoordinatorConfig \<Rightarrow> Claim \<Rightarrow> RunWorktreeEntry \<Rightarrow> nat \<Rightarrow> bool coord" where
  "finalize_work e h cfg claim wt eventSeq =
     cbind (sendCoordinatorMessage e h (c_agent_id claim) (FinalizeWait (c_run_id claim))) (\<lambda>_.
     cbind (on_st (\<lambda>st. check_then (readBacklog st) (\<lambda>b st. (Inr (findTask b (c_task_ref claim)), st)) st)) (\<lambda>task.
       if resolveMergeStrategy task cfg = ''pr'' then open_pr e h cfg claim wt task eventSeq
       else finalize_direct e h cfg claim wt))"

definition finalizeRun :: "env \<Rightarrow> host \<Rightarrow> CoordinatorConfig \<Rightarrow> Claim \<Rightarrow> nat \<Rightarrow> bool coord" where
  "finalizeRun e h cfg claim eventSeq c =
     (case getRunWorktree (c_run_id claim) (co_worktrees c) of
        None \<Rightarrow> markFinalizeBlocked e cfg claim ''missing run worktree metadata for finalization'' c
      | Some wt \<Rightarrow>
          if rw_branch wt = [] then markFinalizeBlocked e cfg claim ''missing run worktree metadata for finalization'' c
          else if c_finalization_state claim = Some FS_pr_review_in_progress then merge_reviewed_pr e h cfg claim wt c
          else finalize_work e h cfg claim wt eventSeq c)"

end
