(* ===== verification/Command_Frame.thy ===== *)
theory Command_Frame
  imports Command_Props
begin

text \<open>
  What the command queue keeps. An assertion on the database that survives an appended event, a rewritten
  command and a new command of an existing run survives every operation of \<^verbatim>\<open>lib/commandDelivery.ts\<close>, the
  dispatcher's tick and \<^verbatim>\<open>deliver\<close> included. The locale \<open>command_invariant\<close> states this once; it is
  interpreted here for the claims and sessions, and in \<open>Db_Integrity\<close> for the integrity of the database.
\<close>

section \<open>Transactions that keep an assertion\<close>

definition txn_keeps :: "(runtime_db \<Rightarrow> bool) \<Rightarrow> 'a txn \<Rightarrow> bool" where
  "txn_keeps I r \<longleftrightarrow> (\<forall>x db. r = Inr (x, db) \<longrightarrow> I db)"

named_theorems txn_intros

lemma txn_keeps_simps [txn_intros]: "txn_keeps I (Inl err)" "I db \<Longrightarrow> txn_keeps I (Inr (x, db))"
  by (simp_all add: txn_keeps_def)

lemma txn_keeps_bind: "txn_keeps I m \<Longrightarrow> (\<And>x db. I db \<Longrightarrow> txn_keeps I (k (x, db))) \<Longrightarrow> txn_keeps I (rbind m k)"
  by (cases m) (auto simp: txn_keeps_def)

lemma txn_keeps_read: "(\<And>x. r = Inr x \<Longrightarrow> txn_keeps I (k x)) \<Longrightarrow> txn_keeps I (rbind r k)"
  by (cases r) (auto simp: txn_keeps_def)

lemma txn_keeps_if [txn_intros]: "(b \<Longrightarrow> txn_keeps I r) \<Longrightarrow> (\<not> b \<Longrightarrow> txn_keeps I r') \<Longrightarrow> txn_keeps I (if b then r else r')"
  by simp

text \<open>A step of the dispatcher's \<^verbatim>\<open>try\<close> body keeps it whether it returns or throws.\<close>

definition both_keep :: "(runtime_db \<Rightarrow> bool) \<Rightarrow> (string \<times> runtime_db) + ('a \<times> runtime_db) \<Rightarrow> bool" where
  "both_keep I r \<longleftrightarrow> (case r of Inl (_, db) \<Rightarrow> I db | Inr (_, db) \<Rightarrow> I db)"

lemma both_keep_simps: "I db \<Longrightarrow> both_keep I (Inl (msg, db))" "I db \<Longrightarrow> both_keep I (Inr (x, db))"
  by (simp_all add: both_keep_def)

lemma both_keep_bind: "both_keep I m \<Longrightarrow> (\<And>x db. I db \<Longrightarrow> both_keep I (k (x, db))) \<Longrightarrow> both_keep I (rbind m k)"
  by (cases m) (auto simp: both_keep_def)

lemma both_keep_if: "(b \<Longrightarrow> both_keep I r) \<Longrightarrow> (\<not> b \<Longrightarrow> both_keep I r') \<Longrightarrow> both_keep I (if b then r else r')"
  by simp

lemma both_keep_sum: "(\<And>x. both_keep I (f x)) \<Longrightarrow> (\<And>y. both_keep I (g y)) \<Longrightarrow> both_keep I (case s of Inl x \<Rightarrow> f x | Inr y \<Rightarrow> g y)"
  by (cases s) simp_all

locale command_invariant =
  fixes I :: "runtime_db \<Rightarrow> bool"
  assumes I_append: "I db \<Longrightarrow> append_event e ev db = Inr db' \<Longrightarrow> I db'"
    and I_rewrite: "I db \<Longrightarrow> (\<And>c. same_identity c (f c)) \<Longrightarrow>
      I (db\<lparr>db_commands := update_where (\<lambda>c. dc_command_id c = i) f (db_commands db)\<rparr>)"
    and I_insert: "I db \<Longrightarrow> dc_run_id c \<in> set (map rn_run_id (db_runs db)) \<Longrightarrow>
      dc_command_id c \<notin> set (map dc_command_id (db_commands db)) \<Longrightarrow> I (db\<lparr>db_commands := db_commands db @ [c]\<rparr>)"
begin

lemma keeps_event: "I db \<Longrightarrow> command_event e c name reason db = Inr db' \<Longrightarrow> I db'"
  by (auto simp: command_event_def rbind_Inr_iff dest: I_append)

lemma keeps_update [txn_intros]:
  assumes "I db" "\<And>c. same_identity c (f c)"
  shows "txn_keeps I (update_command e i f name reason db)"
  using I_rewrite [OF assms]
  by (auto simp: txn_keeps_def update_command_def rbind_Inr_iff Let_def dest: keeps_event)

lemma keeps_transition [txn_intros]: "I db \<Longrightarrow> txn_keeps I (command_transition e c s name r db)"
  unfolding command_transition_def by (rule keeps_update) simp_all

lemma keeps_requeue [txn_intros]: "I db \<Longrightarrow> txn_keeps I (requeue_command e i t why db)"
  unfolding requeue_command_def by (rule keeps_update) simp_all

lemma keeps_ack [txn_intros]: "I db \<Longrightarrow> txn_keeps I (applyAck e c a reason db)"
  unfolding applyAck_def by (intro txn_intros) simp_all

lemma keeps_enqueue:
  assumes "I db"
  shows "txn_keeps I (enqueueCommand e freshId p input db)"
  unfolding txn_keeps_def
proof (intro allI impI)
  fix c db' assume "enqueueCommand e freshId p input db = Inr (c, db')"
  then show "I db'"
  proof (rule enqueueCommand_tail)
    fix payload owner actor recipient
    assume run: "command_run (eq_runId input) db = Inr owner" and st: "store_command e freshId input payload actor recipient db = Inr (c, db')"
    let ?c = "new_command e (''cmd-'' @ freshId) input payload actor recipient"
    have "dc_run_id ?c \<in> set (map rn_run_id (db_runs db))"
      using run by (auto simp: command_run_def new_command_def intro: rev_image_eqI dest!: find_in_set split: option.splits)
    then have "I (db\<lparr>db_commands := db_commands db @ [?c]\<rparr>)" if "dc_command_id ?c \<notin> set (map dc_command_id (db_commands db))"
      using that by (rule I_insert [OF assms])
    with st assms show ?thesis
      by (auto simp: store_command_def rbind_Inr_iff Let_def dest: keeps_event split: option.splits if_split_asm)
  qed
qed

lemma keeps_reserve: "I db \<Longrightarrow> txn_keeps I (reserveCommand e at db)"
  unfolding reserveCommand_def by (auto split: option.split intro!: txn_keeps_bind txn_intros)

lemma keeps_markSendStarted: "I db \<Longrightarrow> txn_keeps I (markSendStarted e i db)"
  unfolding markSendStarted_def by (intro txn_keeps_read txn_intros) simp_all

lemma keeps_markSent: "I db \<Longrightarrow> txn_keeps I (markSent e i db)"
  unfolding markSent_def by (intro txn_keeps_read txn_intros) simp_all

lemma keeps_acknowledge: "I db \<Longrightarrow> txn_keeps I (acknowledgeCommand e i p a db)"
  unfolding acknowledgeCommand_def by (intro txn_keeps_read txn_intros)

lemma keeps_runtime_ack: "I db \<Longrightarrow> txn_keeps I (acknowledgeFromRuntime e i sid a reason db)"
  unfolding acknowledgeFromRuntime_def
  by (rule txn_keeps_read, intro txn_intros) (auto intro!: txn_keeps_bind txn_intros)

lemma keeps_failTransport: "I db \<Longrightarrow> txn_keeps I (failTransport e i reason db)"
  unfolding failTransport_def by (intro txn_keeps_read txn_intros)

lemma keeps_defer: "I db \<Longrightarrow> txn_keeps I (deferCommand e i reason t db)"
  unfolding deferCommand_def by (intro txn_keeps_read txn_intros) simp_all

lemma keeps_resolve: "I db \<Longrightarrow> txn_keeps I (resolveUnknownCommand e i p outcome reason db)"
  unfolding resolveUnknownCommand_def by (intro txn_keeps_read txn_intros)

lemma keeps_reconcile: "I db \<Longrightarrow> txn_keeps I (reconcileCommands e at stale db)"
proof -
  have one: "I (snd acc')" if "reconcile_command e at stale c acc = Inr acc'" "I (snd acc)" for c acc acc'
  proof -
    obtain ch db where acc: "acc = (ch, db)" by (cases acc)
    with that(2) have ok: "I db" by simp
    have "txn_keeps I (reconcile_command e at stale c acc)"
      unfolding reconcile_command_def Let_def acc prod.case
      by (rule txn_keeps_read, rule txn_keeps_if, rule txn_keeps_simps(2), rule ok, rule txn_keeps_bind, intro txn_intros ok)
        (simp add: txn_keeps_def)
    with that(1) show ?thesis by (cases acc') (simp add: txn_keeps_def)
  qed
  show "I db \<Longrightarrow> txn_keeps I (reconcileCommands e at stale db)"
    using rfold_invariant [where I = "\<lambda>acc. I (snd acc)" and f = "reconcile_command e at stale" and s = "([], db)"] one
    unfolding txn_keeps_def reconcileCommands_def by fastforce
qed

lemma keeps_attempt: "txn_keeps I t \<Longrightarrow> I db \<Longrightarrow> both_keep I (attempt t db)"
  by (cases t) (auto simp: txn_keeps_def both_keep_def)

lemma keeps_send: "I db \<Longrightarrow> both_keep I (send_command e tp c db)"
  unfolding send_command_def by (intro both_keep_sum both_keep_if keeps_attempt keeps_runtime_ack both_keep_simps)

lemma keeps_body: "I db \<Longrightarrow> both_keep I (dispatch_body e tp c db)"
  unfolding dispatch_body_def
  by (intro both_keep_sum both_keep_if both_keep_bind both_keep_simps keeps_attempt keeps_defer keeps_failTransport
      keeps_markSendStarted keeps_markSent) (auto intro!: both_keep_bind keeps_send keeps_attempt keeps_markSent)

lemma keeps_one:
  assumes "I db"
  shows "case dispatch_one e tp c db of Inl (_, db') \<Rightarrow> I db' | Inr db' \<Rightarrow> I db'"
proof (cases "dispatch_body e tp c db")
  case (Inl p)
  obtain msg db1 where p: "p = (msg, db1)" by (cases p)
  then have "I db1" using keeps_body [OF assms, of e tp c] Inl by (simp add: both_keep_def)
  then show ?thesis using keeps_failTransport [of db1 e "dc_command_id c" msg] Inl p
    by (auto simp: dispatch_one_def txn_keeps_def split: sum.splits)
next
  case (Inr p)
  then show ?thesis using keeps_body [OF assms, of e tp c] by (cases p) (simp add: dispatch_one_def both_keep_def)
qed

lemma keeps_loop: "I db \<Longrightarrow> dispatch_loop fuel e tp db = Some r \<Longrightarrow> case r of Inl (_, db') \<Rightarrow> I db' | Inr db' \<Rightarrow> I db'"
proof (induction fuel arbitrary: db)
  case (Suc fuel)
  show ?case
  proof (cases "reserveCommand e (now_ts e) db")
    case (Inl err)
    then show ?thesis using Suc.prems by auto
  next
    case (Inr p)
    obtain o1 db1 where p: "p = (o1, db1)" by (cases p)
    have ok: "I db1" using keeps_reserve [OF Suc.prems(1), of e "now_ts e"] Inr p by (simp add: txn_keeps_def)
    show ?thesis
    proof (cases o1)
      case None
      then show ?thesis using Suc.prems(2) Inr p ok by auto
    next
      case (Some c)
      show ?thesis
      proof (cases "dispatch_one e tp c db1")
        case (Inl q)
        then show ?thesis using Suc.IH [OF ok] Suc.prems(2) Inr p Some keeps_one [OF ok, of e tp c]
          by (cases "dc_state c = CM_dispatching") auto
      next
        case d: (Inr db2)
        then have "I db2" using keeps_one [OF ok, of e tp c] by simp
        then show ?thesis using Suc.IH [OF ok] Suc.IH [of db2] Suc.prems(2) Inr p Some d
          by (cases "dc_state c = CM_dispatching") auto
      qed
    qed
  qed
qed simp

lemma keeps_tick: "I db \<Longrightarrow> dispatcher_tick fuel busy e tp db = Some r \<Longrightarrow> case r of Inl (_, db') \<Rightarrow> I db' | Inr db' \<Rightarrow> I db'"
proof (cases "reconcileCommands e (now_ts e) 30000 db")
  case (Inr p)
  assume h: "I db" "dispatcher_tick fuel busy e tp db = Some r"
  obtain cs db1 where p: "p = (cs, db1)" by (cases p)
  have "I db1" using keeps_reconcile [OF h(1), of e "now_ts e" 30000] Inr p by (simp add: txn_keeps_def)
  then show ?thesis using h keeps_loop [of db1 fuel e tp r] Inr p by (cases busy) (auto simp: dispatcher_tick_def)
qed (auto simp: dispatcher_tick_def split: if_split_asm)

lemma keeps_deliver_loop:
  "I db \<Longrightarrow> deliver_loop fuel i envs tp dl cid db = Some r \<Longrightarrow> case r of Inl (_, db') \<Rightarrow> I db' | Inr (_, db') \<Rightarrow> I db'"
proof (induction fuel arbitrary: i db)
  case (Suc fuel)
  let ?t = "dispatcher_tick (Suc (length (db_commands db))) False (envs i) tp db"
  show ?case
  proof (cases ?t)
    case (Some t)
    show ?thesis
    proof (cases t)
      case (Inl p)
      then show ?thesis using keeps_tick [OF Suc.prems(1) Some] Suc.prems(2) Some by auto
    next
      case (Inr db1)
      then have "I db1" using keeps_tick [OF Suc.prems(1) Some] by simp
      then show ?thesis using Suc.IH [of db1 "Suc i"] Suc.prems(2) Some Inr by (auto split: sum.splits if_split_asm)
    qed
  qed (use Suc.prems(2) in simp)
qed simp

lemma keeps_deliver: "I db \<Longrightarrow> deliver fuel envs tp ms cid db = Some r \<Longrightarrow> case r of Inl (_, db') \<Rightarrow> I db' | Inr (_, db') \<Rightarrow> I db'"
  unfolding deliver_def by (rule keeps_deliver_loop)

end

section \<open>Claims and sessions\<close>

definition queue_frame :: "runtime_db \<Rightarrow> runtime_db \<Rightarrow> bool" where
  "queue_frame db0 db \<longleftrightarrow> db_runs db = db_runs db0 \<and> db_sessions db = db_sessions db0 \<and> db_cutovers db = db_cutovers db0 \<and>
     (commands_distinct db0 \<longrightarrow> commands_distinct db)"

interpretation qf: command_invariant "queue_frame db0" for db0
proof
  fix db e ev db' assume "queue_frame db0 db" "append_event e ev db = Inr db'"
  then show "queue_frame db0 db'" by (auto simp: queue_frame_def commands_distinct_def append_event_frame)
next
  fix db f i assume "queue_frame db0 db" "\<And>c. same_identity c (f c)"
  then show "queue_frame db0 (db\<lparr>db_commands := update_where (\<lambda>c. dc_command_id c = i) f (db_commands db)\<rparr>)"
    by (auto simp: queue_frame_def commands_distinct_def map_update_where_same same_identity_def)
qed (auto simp: queue_frame_def commands_distinct_def)

end
