(* ===== verification/Finalization_Props.thy ===== *)
theory Finalization_Props
  imports Finalization Lifecycle_Props Command_Frame
begin

text \<open>
  Finalization completes a task only through a merge, and merges only the run's own work.
\<close>

section \<open>Steps that leave tasks and run states alone\<close>

definition run_states :: "runtime_db \<Rightarrow> (string \<times> string \<times> ClaimState) list" where
  "run_states db = map (\<lambda>c. (c_run_id c, c_agent_id c, c_state c)) (readRows db)"

definition unchanged :: "orc_state \<Rightarrow> orc_state \<Rightarrow> bool" where
  "unchanged st st' \<longleftrightarrow>
     claims_ready (st_db st') \<and> st_store st' = st_store st \<and> st_backlog_json st' = st_backlog_json st \<and>
     run_states (st_db st') = run_states (st_db st)"

lemma unchanged_refl: "claims_ready (st_db st) \<Longrightarrow> unchanged st st"
  by (simp add: unchanged_def)

lemma unchanged_trans: "unchanged a b \<Longrightarrow> unchanged b c \<Longrightarrow> unchanged a c"
  by (simp add: unchanged_def)

lemma unchanged_ready: "unchanged a b \<Longrightarrow> claims_ready (st_db b)"
  by (simp add: unchanged_def)

text \<open>An operation on the state directory that changes neither tasks nor the state of a run.\<close>

definition kept :: "(orc_state \<Rightarrow> 'a outcome) \<Rightarrow> bool" where
  "kept f \<longleftrightarrow> (\<forall>st. claims_ready (st_db st) \<longrightarrow> unchanged st (snd (f st)))"

lemma states_mutate:
  assumes "\<And>c. c_run_id (f c) = c_run_id c" "\<And>c. c_state (f c) = c_state c" "\<And>c. c_agent_id (f c) = c_agent_id c"
  shows "map (\<lambda>c. (c_run_id c, c_agent_id c, c_state c)) (mutate_claim i f cs) = map (\<lambda>c. (c_run_id c, c_agent_id c, c_state c)) cs"
  unfolding mutate_claim_def by (induction cs) (simp_all add: assms)

lemma commit_unchanged:
  assumes "claims_ready (st_db st)" "\<And>c. c_run_id (f c) = c_run_id c" "\<And>c. c_state (f c) = c_state c"
    "\<And>c. c_agent_id (f c) = c_agent_id c"
  shows "unchanged st (snd (commitClaims e (mutate_claim i f (readRows (st_db st))) evs st))"
proof (cases "commitClaims e (mutate_claim i f (readRows (st_db st))) evs st")
  case (Pair r st')
  show ?thesis
  proof (cases r)
    case (Inl err)
    with Pair have "st' = st" by (auto dest: commitClaims_Inl)
    with Pair assms(1) show ?thesis by (simp add: unchanged_refl)
  next
    case (Inr u)
    with Pair have c: "commitClaims e (mutate_claim i f (readRows (st_db st))) evs st = (Inr u, st')" by simp
    then have "st_store st' = st_store st" "st_backlog_json st' = st_backlog_json st" by (auto simp: commitClaims_Inr)
    with commit_effect [where f = f, OF assms(1,2) c] Pair assms show ?thesis
      by (simp add: unchanged_def run_states_def states_mutate)
  qed
qed

lemma snd_obind_return: "snd (obind r (\<lambda>x st. (g x, st))) = snd r"
  by (cases r; cases "fst r") auto

lemma finalization_kept: "kept (setRunFinalizationState e i a fs d b)"
  by (auto simp: kept_def setRunFinalizationState_def with_own_claim_def readJsonClaims_ready commit_claim_update_def
      snd_obind_return unchanged_refl intro!: commit_unchanged split: option.split)

lemma prRef_kept: "kept (setPrRef e i p)"
  by (auto simp: kept_def setPrRef_def with_claim_def readJsonClaims_ready commit_claim_update_def
      snd_obind_return unchanged_refl intro!: commit_unchanged split: option.split)

lemma prCreatedAt_kept: "kept (setPrCreatedAt e i t n)"
  by (auto simp: kept_def setPrCreatedAt_def with_claim_def readJsonClaims_ready commit_claim_update_def
      snd_obind_return unchanged_refl intro!: commit_unchanged split: option.split sum.split)

lemma renewLease_kept: "kept (renewLeaseOnly e i ms)"
  by (auto simp: kept_def renewLeaseOnly_def readJsonClaims_ready unchanged_refl intro!: commit_unchanged split: option.split)

text \<open>Agent bookkeeping.\<close>

lemma same_claims_unchanged:
  assumes "claims_ready (st_db st)" "same_claims (st_db st) (st_db st')" "st_store st' = st_store st" "st_backlog_json st' = st_backlog_json st"
  shows "unchanged st st'"
  using assms same_claims_ready [OF assms(2,1)] by (simp add: unchanged_def run_states_def)

lemma readAgents_tasks: "st_store (snd (readAgentsFile e st)) = st_store st \<and> st_backlog_json (snd (readAgentsFile e st)) = st_backlog_json st"
  by (auto simp: readAgentsFile_def readAgents_def split: option.split sum.split)

lemma readAgents_unchanged: "claims_ready (st_db st) \<Longrightarrow> unchanged st (snd (readAgentsFile e st))"
  by (rule same_claims_unchanged) (simp_all add: readAgents_tasks readAgentsFile_same ready_cut_over)

lemma close_tasks: "st_store (snd (close_agent_sessions e i st)) = st_store st \<and> st_backlog_json (snd (close_agent_sessions e i st)) = st_backlog_json st"
  by (auto simp: close_agent_sessions_def split: sum.split)

lemma close_kept: "kept (close_agent_sessions e i)"
  unfolding kept_def by (auto intro!: same_claims_unchanged close_agent_sessions_same ready_cut_over simp: close_tasks)

lemma unchanged_agents: "unchanged st st1 \<Longrightarrow> unchanged st (st1\<lparr>st_agents_json := a\<rparr>)"
  by (simp add: unchanged_def)

lemma unchanged_obind_agents:
  "unchanged st (snd r) \<Longrightarrow> unchanged st (snd (obind r (\<lambda>_ st1. (Inr (), st1\<lparr>st_agents_json := a\<rparr>))))"
  by (cases r; cases "fst r") (auto intro: unchanged_agents)

lemma removeAgent_kept: "kept (removeAgent e i)"
  unfolding kept_def
proof (intro allI impI)
  fix st :: orc_state assume r: "claims_ready (st_db st)"
  obtain as st0 where a: "readAgentsFile e st = (as, st0)" by fastforce
  have u: "unchanged st st0" using readAgents_unchanged [OF r, of e] a by simp
  with close_kept have "unchanged st (snd (close_agent_sessions e i st0))"
    unfolding kept_def by (blast intro: unchanged_trans dest: unchanged_ready)
  then show "unchanged st (snd (removeAgent e i st))"
    by (simp add: removeAgent_def a unchanged_obind_agents)
qed

lemma updateAgent_kept: "kept (updateAgentRuntime e i u)"
  unfolding kept_def
proof (intro allI impI)
  fix st :: orc_state assume r: "claims_ready (st_db st)"
  obtain as st0 where a: "readAgentsFile e st = (as, st0)" by fastforce
  have u: "unchanged st st0" using readAgents_unchanged [OF r, of e] a by simp
  with close_kept have "unchanged st (snd (close_agent_sessions e i st0))"
    unfolding kept_def by (blast intro: unchanged_trans dest: unchanged_ready)
  with u show "unchanged st (snd (updateAgentRuntime e i u st))"
    by (simp add: updateAgentRuntime_def a unchanged_obind_agents del: obind.simps)
qed

lemma appendEvent_kept: "kept (appendEventTo e ev)"
  unfolding kept_def
  by (auto intro!: same_claims_unchanged simp: appendEventTo_def same_claims_def append_event_frame split: sum.split)

lemma kept_obind: "kept f \<Longrightarrow> (\<And>x. kept (g x)) \<Longrightarrow> kept (\<lambda>st. obind (f st) g)"
  unfolding kept_def
  by (intro allI impI, rename_tac st, case_tac "f st", rename_tac r st1, case_tac r)
     (auto intro: unchanged_trans unchanged_ready dest: spec, metis snd_conv unchanged_ready unchanged_trans)

lemma clearWorker_kept: "kept (clearWorkerSessionRuntime e i s)"
  unfolding clearWorkerSessionRuntime_def [abs_def] by (rule updateAgent_kept)

lemma markOffline_kept: "kept (markWorkerOffline e i r p)"
  unfolding markWorkerOffline_def [abs_def] by (intro kept_obind clearWorker_kept appendEvent_kept)

lemma kept_after: "kept f \<Longrightarrow> unchanged st st1 \<Longrightarrow> unchanged st (snd (f st1))"
  unfolding kept_def by (blast intro: unchanged_trans dest: unchanged_ready)

lemma cleanup_kept: "kept (cleanupRunCapacity e m i r)"
  unfolding kept_def
proof (intro allI impI)
  fix st :: orc_state assume "claims_ready (st_db st)"
  then have "unchanged st (snd (readAgentsFile e st))" by (rule readAgents_unchanged)
  then show "unchanged st (snd (cleanupRunCapacity e m i r st))"
    by (auto simp: cleanupRunCapacity_def Let_def split: option.split sum.split
        intro: kept_after [OF removeAgent_kept] kept_after [OF markOffline_kept] kept_after [OF clearWorker_kept])
qed


section \<open>Coordinator steps\<close>

fun is_merge :: "host_call \<Rightarrow> bool" where
  "is_merge (Merged _ _) = True"
| "is_merge (MergedPr _) = True"
| "is_merge _ = False"

definition merges :: "coord_state \<Rightarrow> host_call list" where
  "merges c = filter is_merge (co_calls c)"

text \<open>A step that records no merge, and one that in addition keeps tasks and run states.\<close>

definition unmerging :: "'a coord \<Rightarrow> bool" where
  "unmerging m \<longleftrightarrow> (\<forall>c. merges (snd (m c)) = merges c)"

definition keeping :: "'a coord \<Rightarrow> bool" where
  "keeping m \<longleftrightarrow> unmerging m \<and> (\<forall>c. claims_ready (st_db (co_st c)) \<longrightarrow> unchanged (co_st c) (co_st (snd (m c))))"

lemma unmerging_on_st [intro]: "unmerging (on_st f)"
  by (auto simp: unmerging_def on_st_def merges_def split: prod.split)

lemma keeping_on_st [intro]: "kept f \<Longrightarrow> keeping (on_st f)"
  by (auto simp: keeping_def unmerging_def on_st_def kept_def merges_def split: prod.split)

lemma unmerging_cbind [intro]: "unmerging m \<Longrightarrow> (\<And>x. unmerging (k x)) \<Longrightarrow> unmerging (cbind m k)"
  by (auto simp: unmerging_def cbind_def split: prod.split sum.split) (metis snd_conv)+

lemma unmerging_ctry [intro]: "unmerging m \<Longrightarrow> (\<And>x. unmerging (h x)) \<Longrightarrow> (\<And>x. unmerging (k x)) \<Longrightarrow> unmerging (ctry m h k)"
  by (auto simp: unmerging_def ctry_def split: prod.split sum.split) (metis snd_conv)+

lemma unmerging_cquiet [intro]: "unmerging m \<Longrightarrow> unmerging (cquiet m)"
  by (simp add: unmerging_def cquiet_def)

lemma unmerging_creturn [intro]: "unmerging (creturn x)"
  by (simp add: unmerging_def creturn_def)

lemma keeping_unmerging [dest]: "keeping m \<Longrightarrow> unmerging m"
  by (simp add: keeping_def)

lemma keepingD: "keeping m \<Longrightarrow> claims_ready (st_db (co_st c)) \<Longrightarrow> m c = (r, c') \<Longrightarrow> unchanged (co_st c) (co_st c')"
  by (auto simp: keeping_def dest: spec [of _ c])

lemma keeping_cquiet [intro]: "keeping m \<Longrightarrow> keeping (cquiet m)"
  by (auto simp: keeping_def cquiet_def intro: unmerging_cquiet)

lemma keeping_creturn [intro]: "keeping (creturn x)"
  by (auto simp: keeping_def creturn_def intro: unmerging_creturn unchanged_refl)

lemma keeping_ctry [intro]:
  assumes "keeping m" "\<And>x. keeping (h x)" "\<And>x. keeping (k x)"
  shows "keeping (ctry m h k)"
  unfolding keeping_def
proof (intro conjI allI impI)
  show "unmerging (ctry m h k)" using assms by (auto intro: unmerging_ctry)
  fix c :: coord_state assume r: "claims_ready (st_db (co_st c))"
  obtain x c1 where m: "m c = (x, c1)" by fastforce
  have u: "unchanged (co_st c) (co_st c1)" by (rule keepingD [OF assms(1) r m])
  have n: "keeping k' \<Longrightarrow> unchanged (co_st c) (co_st (snd (k' c1)))" for k' :: "'c coord"
    using u by (auto simp: keeping_def intro: unchanged_trans dest: unchanged_ready)
  show "unchanged (co_st c) (co_st (snd (ctry m h k c)))"
    by (cases x) (auto simp: ctry_def m intro: n assms)
qed

lemma cbind_ctry: "cbind m k = ctry m (\<lambda>err c. (Inl err, c)) k"
  by (auto simp: cbind_def ctry_def fun_eq_iff split: prod.split sum.split)

lemma keeping_cbind [intro]: "keeping m \<Longrightarrow> (\<And>x. keeping (k x)) \<Longrightarrow> keeping (cbind m k)"
  unfolding cbind_ctry by (rule keeping_ctry) (auto simp: keeping_def unmerging_def intro: unchanged_refl)

lemma keeping_answer [intro]: "keeping (\<lambda>c. (r, c))"
  by (auto simp: keeping_def unmerging_def intro: unchanged_refl)

lemma keeping_if [intro]: "(b \<Longrightarrow> keeping x) \<Longrightarrow> (\<not> b \<Longrightarrow> keeping y) \<Longrightarrow> keeping (if b then x else y)"
  by simp

lemma unmerging_call [intro]: "(\<And>x. \<not> is_merge (k x)) \<Longrightarrow> unmerging (call_host r k)"
  by (auto simp: unmerging_def call_host_def merges_def split: sum.split)

lemma keeping_call [intro]: "(\<And>x. \<not> is_merge (k x)) \<Longrightarrow> keeping (call_host r k)"
  by (auto simp: keeping_def call_host_def intro: unchanged_refl split: sum.split)

lemma writable_kept: "keeping (assertSessionWritable e h provider handle)"
proof -
  have "same_claims db db'" if "setSessionState e i s reason opts db = Inr (b, db')" for i s reason opts db b db'
    using that unfolding setSessionState_def Let_def
    by (auto simp: rbind_Inr_iff same_claims_def append_event_frame split: option.splits if_split_asm)
  then show ?thesis unfolding assertSessionWritable_def
    by (intro keeping_on_st) (auto simp: kept_def unchanged_refl intro!: same_claims_unchanged split: option.split sum.split)
qed

lemma queue_frame_refl: "queue_frame db db"
  by (simp add: queue_frame_def)

lemma deliver_command_frame:
  "queue_frame (st_db st) (st_db (snd (deliver_command e h input st))) \<and>
   st_store (snd (deliver_command e h input st)) = st_store st \<and> st_backlog_json (snd (deliver_command e h input st)) = st_backlog_json st"
proof (cases "enqueueFromCoordinator e (h_random h (st_db st)) input (st_db st)")
  case (Inr p)
  obtain q db where p: "p = (q, db)" by (cases p)
  have f: "queue_frame (st_db st) db"
    using qf.keeps_enqueue [OF queue_frame_refl, of "st_db st" e "h_random h (st_db st)" None input] Inr p
    by (simp add: txn_keeps_def enqueueFromCoordinator_def)
  show ?thesis
  proof (cases "deliver DELIVER_FUEL (rounds e) (commandTransport e h st) 30000 (dc_command_id q) db")
    case (Some r)
    then show ?thesis using qf.keeps_deliver [OF f Some] Inr p
      by (cases r) (auto simp: deliver_command_def)
  qed (use Inr p f in \<open>simp add: deliver_command_def\<close>)
qed (simp add: deliver_command_def queue_frame_refl)

lemma deliver_command_kept: "kept (deliver_command e h input)"
  using deliver_command_frame by (auto simp: kept_def queue_frame_def same_claims_def intro!: same_claims_unchanged)

lemma deliver_keeping: "keeping (deliverStructured e h handle text kind key)"
  unfolding deliverStructured_def
proof (rule keeping_on_st, unfold kept_def, intro allI impI)
  fix st :: orc_state assume "claims_ready (st_db st)"
  then show "unchanged st (snd (case currentSessionForAgent (handle_agent handle) (st_db st) of
       None \<Rightarrow> (Inl (PlainError (''structured session '' @ handle @ '' has no active run to scope the command'')), st)
     | Some s \<Rightarrow>
         if falsy (ss_run_id s)
         then (Inl (PlainError (''structured session '' @ handle @ '' has no active run to scope the command'')), st)
         else deliver_command e h (structured_input (the (ss_run_id s)) text kind key s) st))"
    using deliver_command_kept
    by (cases "currentSessionForAgent (handle_agent handle) (st_db st)") (simp_all add: unchanged_refl kept_def)
qed

lemma record_keeping: "keeping (record_sent provider handle msg)"
  by (simp add: record_sent_def keeping_def unmerging_def merges_def unchanged_refl)

lemma deliver_keyed_keeping: "keeping (\<lambda>c. deliverStructured e h handle body kind (key c) c)"
  using deliver_keeping [of e h handle body kind] by (simp add: keeping_def unmerging_def)

lemma adapter_send_keeping: "keeping (adapter_send e h provider handle msg)"
proof -
  have "keeping (cbind (\<lambda>c. deliverStructured e h handle (h_text h msg) ''coordinator_message''
      (''coordinator:'' @ h_random h (st_db (co_st c))) c) (\<lambda>_. record_sent provider handle msg))"
    by (rule keeping_cbind [OF deliver_keyed_keeping record_keeping])
  moreover have "keeping (cbind (\<lambda>c. (h_write h provider handle, c)) (\<lambda>_. record_sent provider handle msg))"
    by (rule keeping_cbind [OF keeping_answer record_keeping])
  ultimately show ?thesis unfolding adapter_send_def by (intro keeping_cbind [OF writable_kept]) (simp add: keeping_creturn)
qed

lemma send_to_keeping [intro]: "keeping (send_to e h a msg)"
  unfolding send_to_def by (intro keeping_cbind keeping_answer adapter_send_keeping)

lemma agents_kept: "kept (\<lambda>st. (Inr (g st), snd (readAgentsFile e st)))"
  by (simp add: kept_def readAgents_unchanged)

lemma keeping_option: "keeping x \<Longrightarrow> (\<And>a. keeping (y a)) \<Longrightarrow> keeping (case v of None \<Rightarrow> x | Some a \<Rightarrow> y a)"
  by (cases v) simp_all

lemma send_keeping [intro]: "keeping (sendCoordinatorMessage e h i msg)"
  unfolding sendCoordinatorMessage_def
  by (intro keeping_cbind keeping_on_st agents_kept keeping_option keeping_if keeping_answer keeping_ctry adapter_send_keeping
      keeping_creturn)

lemma blocked_keeping [intro]: "keeping (markFinalizeBlocked e cfg claim reason)"
  unfolding markFinalizeBlocked_def
  by (intro keeping_ctry keeping_on_st keeping_creturn keeping_cbind finalization_kept cleanup_kept)

lemma getClaim_same: "claims_ready (st_db st) \<Longrightarrow> snd (getClaim i st) = st"
  by (auto simp: getClaim_def readJsonClaims_ready)

lemma latest_kept: "kept (\<lambda>st. let (found, st0) = getClaim i st in (Inr (or_default found d), st0))"
  by (auto simp: kept_def Let_def getClaim_same unchanged_refl split: prod.split) (metis getClaim_same snd_conv unchanged_refl)

lemma rebase_keeping [intro]: "keeping (requestFinalizeRebase e h cfg claim reason inc)"
  unfolding requestFinalizeRebase_def
  by (intro keeping_ctry keeping_on_st keeping_creturn keeping_cbind keeping_cquiet keeping_if finalization_kept latest_kept
      blocked_keeping send_keeping)

lemma read_task_kept: "kept (\<lambda>st. check_then (readBacklog st) (\<lambda>b st. (Inr (findTask b r), st)) st)"
  by (auto simp: kept_def check_then_def unchanged_refl split: sum.split)

lemma open_pr_keeping [intro]: "keeping (open_pr e h cfg claim wt task n)"
  unfolding open_pr_def Let_def
  by (intro keeping_ctry keeping_on_st keeping_creturn keeping_cbind keeping_cquiet keeping_if keeping_call keeping_option
      finalization_kept prRef_kept prCreatedAt_kept renewLease_kept agents_kept blocked_keeping send_to_keeping is_merge.simps notI) simp_all

lemma finish_unmerging [intro]: "unmerging (finish_merged_run e h cfg claim b)"
proof -
  have "unmerging (\<lambda>c. (Inr True, c\<lparr>co_worktrees := w c\<rparr>))" for w :: "coord_state \<Rightarrow> RunWorktreeEntry list"
    by (simp add: unmerging_def merges_def)
  then show ?thesis unfolding finish_merged_run_def by (intro unmerging_cbind unmerging_on_st keeping_unmerging [OF send_keeping])
qed

section \<open>Completion only through a merge\<close>

text \<open>Nothing was merged, and tasks and run states are as before.\<close>

definition quietly :: "coord_state \<Rightarrow> coord_state \<Rightarrow> bool" where
  "quietly c c' \<longleftrightarrow> merges c' = merges c \<and> unchanged (co_st c) (co_st c')"

lemma quietly_trans: "quietly a b \<Longrightarrow> quietly b c \<Longrightarrow> quietly a c"
  by (auto simp: quietly_def intro: unchanged_trans)

lemma keeping_quietly: "keeping m \<Longrightarrow> claims_ready (st_db (co_st c)) \<Longrightarrow> m c = (r, c') \<Longrightarrow> quietly c c'"
  using keepingD [of m c r c'] by (auto simp: keeping_def unmerging_def quietly_def dest: spec [of _ c])

lemma quietly_ready: "quietly c c' \<Longrightarrow> claims_ready (st_db (co_st c'))"
  by (auto simp: quietly_def dest: unchanged_ready)

lemma ctry_cases:
  assumes "ctry m h k c = (r, c')" "keeping m" "\<And>err. keeping (h err)" "claims_ready (st_db (co_st c))"
  obtains "quietly c c'" | x c1 where "m c = (Inr x, c1)" "quietly c c1" "k x c1 = (r, c')"
proof -
  obtain x c1 where m: "m c = (x, c1)" by fastforce
  have q: "quietly c c1" by (rule keeping_quietly [OF assms(2,4) m])
  show thesis
  proof (cases x)
    case (Inl err)
    with m assms(1) have "h err c1 = (r, c')" by (simp add: ctry_def)
    from keeping_quietly [OF assms(3) quietly_ready [OF q] this] q have "quietly c c'" by (blast intro: quietly_trans)
    then show thesis by (rule that(1))
  next
    case (Inr y)
    with m q assms(1) show thesis by (intro that(2) [of y c1]) (simp_all add: ctry_def)
  qed
qed

lemma cbind_cases:
  assumes "cbind m k c = (r, c')" "keeping m" "claims_ready (st_db (co_st c))"
  obtains "quietly c c'" | x c1 where "m c = (Inr x, c1)" "quietly c c1" "k x c1 = (r, c')"
  using assms(1) unfolding cbind_ctry by (rule ctry_cases [OF _ assms(2) _ assms(3)]) (auto intro: that)

lemma merge_done: "(\<And>x. unmerging (k x)) \<Longrightarrow> is_merge m \<Longrightarrow> merges (snd (ctry (call_host (Inr x) (\<lambda>_. m)) h k c)) = merges c @ [m]"
  by (simp add: ctry_def call_host_def unmerging_def merges_def)

lemma after_merge: "unmerging (ctry (on_st (confirm_task_done e r)) (\<lambda>err. markFinalizeBlocked e cfg claim (g err))
    (\<lambda>_. cbind (cquiet (call_host p (\<lambda>_. PushedMain))) (\<lambda>_. finish_merged_run e h cfg claim b)))"
  by (auto intro!: unmerging_ctry unmerging_cbind unmerging_cquiet unmerging_call keeping_unmerging [OF blocked_keeping])

lemma merge_cases:
  assumes "ctry (call_host r (\<lambda>_. m)) h k c = (out, c')" "\<And>err. keeping (h err)" "\<And>x. unmerging (k x)" "is_merge m"
    "claims_ready (st_db (co_st c))"
  shows "quietly c c' \<or> (\<exists>x. r = Inr x) \<and> merges c' = merges c @ [m]"
proof (cases r)
  case (Inl err)
  with assms(1) have "h err c = (out, c')" by (simp add: ctry_def call_host_def)
  from keeping_quietly [OF assms(2,5) this] show ?thesis ..
next
  case (Inr x)
  have "merges c' = merges c @ [m]" using merge_done [where k = k and h = h and x = x and c = c, OF assms(3,4)] assms(1) Inr by simp
  with Inr show ?thesis by blast
qed

lemma direct_merge:
  assumes "mergeAndFinishDirectRun e h cfg claim wt c = (r, c')" "claims_ready (st_db (co_st c))"
  shows "quietly c c' \<or>
    (\<exists>x. h_mergeTaskBranch h (rw_branch wt) (c_task_ref claim) = Inr x) \<and> merges c' = merges c @ [Merged (rw_branch wt) (c_task_ref claim)]"
  using assms(1) unfolding mergeAndFinishDirectRun_def
  by (rule merge_cases) (auto simp: assms(2) after_merge)

lemma direct_path:
  assumes "finalize_direct e h cfg claim wt c = (r, c')" "claims_ready (st_db (co_st c))"
  shows "quietly c c' \<or> h_branchContainsMain h (rw_branch wt) = Inr True \<and>
    (\<exists>x. h_mergeTaskBranch h (rw_branch wt) (c_task_ref claim) = Inr x) \<and> merges c' = merges c @ [Merged (rw_branch wt) (c_task_ref claim)]"
proof (cases "h_branchContainsMain h (rw_branch wt)")
  case (Inl err)
  with assms(1) have "quietly c c'"
    by (intro keeping_quietly [OF blocked_keeping assms(2)]) (simp add: finalize_direct_def ctry_def)
  then show ?thesis ..
next
  case (Inr included)
  show ?thesis
  proof (cases included)
    case True
    with Inr assms(1) have "mergeAndFinishDirectRun e h cfg claim wt c = (r, c')" by (simp add: finalize_direct_def ctry_def)
    from direct_merge [OF this assms(2)] Inr True show ?thesis by simp
  next
    case False
    with Inr assms(1) have "quietly c c'"
      by (intro keeping_quietly [OF rebase_keeping assms(2)]) (simp add: finalize_direct_def ctry_def)
    then show ?thesis ..
  qed
qed

lemma reviewed_merge:
  assumes "merge_reviewed_pr e h cfg claim wt c = (r, c')" "claims_ready (st_db (co_st c))"
  shows "quietly c c' \<or>
    (\<exists>p x. c_pr_ref claim = Some p \<and> h_mergePr h p = Inr x \<and> merges c' = merges c @ [MergedPr p])"
proof (cases "falsy (c_pr_ref claim) \<or> falsy (cfg_pr_provider cfg)")
  case True
  then have "quietly c c'"
    using assms(1) by (intro keeping_quietly [OF blocked_keeping assms(2)]) (simp add: merge_reviewed_pr_def)
  then show ?thesis ..
next
  case False
  then obtain p where p: "c_pr_ref claim = Some p" by (cases "c_pr_ref claim") auto
  have "quietly c c' \<or> (\<exists>x. h_mergePr h p = Inr x) \<and> merges c' = merges c @ [MergedPr p]"
    using assms(1) [unfolded merge_reviewed_pr_def p if_not_P [OF False [unfolded p]] option.sel]
    by (rule merge_cases)
      (auto simp: assms(2) intro!: unmerging_ctry unmerging_cbind unmerging_cquiet keeping_unmerging [OF blocked_keeping])
  with p show ?thesis by auto
qed

lemma worked_merge:
  assumes "finalize_work e h cfg claim wt n c = (r, c')" "claims_ready (st_db (co_st c))"
  shows "quietly c c' \<or> h_branchContainsMain h (rw_branch wt) = Inr True \<and>
    (\<exists>x. h_mergeTaskBranch h (rw_branch wt) (c_task_ref claim) = Inr x) \<and> merges c' = merges c @ [Merged (rw_branch wt) (c_task_ref claim)]"
  using assms(1) unfolding finalize_work_def
proof (rule cbind_cases [OF _ send_keeping assms(2)])
  fix c1
  assume q1: "quietly c c1" and "cbind (on_st (\<lambda>st. check_then (readBacklog st) (\<lambda>b st. (Inr (findTask b (c_task_ref claim)), st)) st))
      (\<lambda>task. if resolveMergeStrategy task cfg = ''pr'' then open_pr e h cfg claim wt task n else finalize_direct e h cfg claim wt) c1 = (r, c')"
  from this(2) show ?thesis
  proof (rule cbind_cases [OF _ keeping_on_st [OF read_task_kept] quietly_ready [OF q1]])
    assume "quietly c1 c'"
    with q1 show ?thesis by (blast intro: quietly_trans)
  next
    fix task c2
    assume "quietly c1 c2" and k: "(if resolveMergeStrategy task cfg = ''pr'' then open_pr e h cfg claim wt task n else finalize_direct e h cfg claim wt) c2 = (r, c')"
    then have q2: "quietly c c2" using q1 by (blast intro: quietly_trans)
    from direct_path [of e h cfg claim wt c2 r c'] keeping_quietly [OF open_pr_keeping, of c2 e h cfg claim wt task n r c'] k q2 quietly_ready [OF q2]
    show ?thesis by (auto simp: quietly_def intro: unchanged_trans split: if_splits)
  qed
qed blast

text \<open>
  C6. A task is completed only by merging the run's own work. Whatever the state of the worktree and
  whatever Git, the pull request host and the worker answer, finalizing a run either merges nothing,
  and then no task and no run changes its state, or it merges exactly once: the branch of the run's
  own worktree, which already contains the main branch, or the pull request recorded in the claim of
  a run that is in review.
\<close>

theorem finalize_completes_only_by_merge:
  assumes "claims_ready (st_db (co_st c))" "finalizeRun e h cfg claim eventSeq c = (r, c')"
  shows "quietly c c' \<or>
    (\<exists>wt x. getRunWorktree (c_run_id claim) (co_worktrees c) = Some wt \<and> h_branchContainsMain h (rw_branch wt) = Inr True \<and>
       h_mergeTaskBranch h (rw_branch wt) (c_task_ref claim) = Inr x \<and>
       merges c' = merges c @ [Merged (rw_branch wt) (c_task_ref claim)]) \<or>
    (\<exists>p x. c_finalization_state claim = Some FS_pr_review_in_progress \<and> c_pr_ref claim = Some p \<and> h_mergePr h p = Inr x \<and>
       merges c' = merges c @ [MergedPr p])"
proof (cases "getRunWorktree (c_run_id claim) (co_worktrees c)")
  case None
  with assms(2) have "quietly c c'" by (intro keeping_quietly [OF blocked_keeping assms(1)]) (simp add: finalizeRun_def)
  then show ?thesis ..
next
  case (Some wt)
  note run = assms(2) [unfolded finalizeRun_def Some option.case]
  consider (bare) "rw_branch wt = []" | (review) "rw_branch wt \<noteq> []" "c_finalization_state claim = Some FS_pr_review_in_progress"
    | (work) "rw_branch wt \<noteq> []" "c_finalization_state claim \<noteq> Some FS_pr_review_in_progress" by blast
  then show ?thesis
  proof cases
    case bare
    with run have "quietly c c'" by (intro keeping_quietly [OF blocked_keeping assms(1)]) simp
    then show ?thesis ..
  next
    case review
    with run have "merge_reviewed_pr e h cfg claim wt c = (r, c')" by simp
    from reviewed_merge [OF this assms(1)] review show ?thesis by blast
  next
    case work
    with run have "finalize_work e h cfg claim wt eventSeq c = (r, c')" by simp
    from worked_merge [OF this assms(1)] Some show ?thesis by auto
  qed
qed

section \<open>Evaluation on a concrete run\<close>

definition worktree0 :: RunWorktreeEntry where
  "worktree0 = \<lparr>rw_run_id = ''run-1'', rw_task_ref = ''f/a'', rw_agent_id = ''w'', rw_branch = ''task/run-1'', rw_worktree_path = ''wt/run-1'',
     rw_created_at = Ts 0, rw_updated_at = Ts 0\<rparr>"

definition host0 :: host where
  "host0 = \<lparr>h_pathExists = (\<lambda>_. True), h_isWorktree = (\<lambda>_. True), h_worktreeAdd = (\<lambda>_ _ _. Inr ()), h_worktreeRemove = (\<lambda>_. True),
     h_branchDelete = (\<lambda>_. True), h_branchContainsMain = (\<lambda>_. Inr True), h_mergeTaskBranch = (\<lambda>_ _. Inr ()), h_pushMain = Inr (),
     h_pushBranch = (\<lambda>_ _. Inr ()), h_createPr = (\<lambda>_ _. Inr ''1''), h_mergePr = (\<lambda>_. Inr ()),
     h_worktreesDir = ''wt'',
     h_os = \<lparr>os_signal = (\<lambda>_. True), os_stat_start = (\<lambda>_. None), os_ps_utc = (\<lambda>_. []), os_ps_local = (\<lambda>_. [])\<rparr>,
     h_inspect = (\<lambda>_ _. None), h_structured = (\<lambda>_ _. False), h_turnActive = (\<lambda>_ _. False), h_write = (\<lambda>_ _. Inr ()),
     h_submit = (\<lambda>_ _ _. Inr ()), h_alive = (\<lambda>_ _. Inr True), h_prompt = (\<lambda>_ _. Inr None),
     h_text = (\<lambda>_. ''RUN_NUDGE''), h_random = (\<lambda>_. ''1''),
     h_start = (\<lambda>provider agentId _. Inr \<lparr>sd_handle = ''pty:'' @ agentId, sd_provider_ref = None, sd_protocol_ready = True,
       sd_transport = None, sd_pid = None, sd_process_start = None\<rparr>),
     h_owns = (\<lambda>_ _. True), h_ownerId = ''pid:2:0'', h_secret = (\<lambda>_. ''2''),
     h_runId = (\<lambda>db. concat (map rn_run_id (db_runs db)) @ ''run''), h_draws = (\<lambda>_ _. 0)\<rparr>"

definition cfg0 :: CoordinatorConfig where
  "cfg0 = \<lparr>cfg_max_workers = 4, cfg_merge_strategy = ''direct'', cfg_pr_provider = None, cfg_pr_push_remote = ''origin'',
     cfg_pr_finalize_lease_ms = FINALIZE_LEASE_MS\<rparr>"

definition coord0 :: coord_state where
  "coord0 = \<lparr>co_st = legacy_st, co_worktrees = [worktree0], co_calls = []\<rparr>"

lemma coord0_direct: "finalizeRun env0 host0 cfg0 claim1 7 coord0 = mergeAndFinishDirectRun env0 host0 cfg0 claim1 worktree0 coord0"
  by (simp add: finalizeRun_def getRunWorktree_def coord0_def worktree0_def claim0_run_def finalize_work_def cbind_def creturn_def
      sendCoordinatorMessage_def getAgent_def readAgentsFile_def readAgents_def legacy_st_def Let_def on_st_def check_then_def readBacklog_def)
    (simp add: findTask_def backlog_tasks_def legacy_task_def projectTaskToBacklogTask_def toTask_def rev0_def resolveMergeStrategy_def
      cfg0_def finalize_direct_def ctry_def host0_def orc_eval)

lemma coord0_merged: "merges (snd (finalizeRun env0 host0 cfg0 claim1 7 coord0)) \<noteq> []"
proof -
  have "h_mergeTaskBranch host0 (rw_branch worktree0) (c_task_ref claim1) = Inr ()" by (simp add: host0_def)
  then show ?thesis
    unfolding coord0_direct mergeAndFinishDirectRun_def by (simp add: merge_done [OF after_merge])
qed

theorem finalize_completes_only_by_merge_witness:
  "claims_ready (st_db (co_st coord0)) \<and>
   merges (snd (finalizeRun env0 host0 cfg0 claim1 7 coord0)) = [Merged ''task/run-1'' ''f/a'']"
proof -
  have c: "claims_ready (st_db (co_st coord0))" by (simp add: coord0_def legacy_ready)
  obtain r c' where f: "finalizeRun env0 host0 cfg0 claim1 7 coord0 = (r, c')" by fastforce
  have "merges coord0 = []" "c_finalization_state claim1 = None" "c_task_ref claim1 = ''f/a''"
    by (simp_all add: merges_def coord0_def claim0_run_def)
  moreover have "getRunWorktree (c_run_id claim1) (co_worktrees coord0) = Some worktree0" "rw_branch worktree0 = ''task/run-1''"
    by (simp_all add: coord0_def getRunWorktree_def worktree0_def claim0_run_def)
  ultimately have "merges c' = [] \<or> merges c' = [Merged ''task/run-1'' ''f/a'']"
    using finalize_completes_only_by_merge [OF c f] by (auto simp: quietly_def)
  with coord0_merged f c show ?thesis by simp
qed

end
