(* ===== verification/File_Lock.thy ===== *)
theory File_Lock
  imports Domain_Types "HOL-Library.Sublist"
begin

text \<open>
  The state lock of \<^verbatim>\<open>lib/lock.ts\<close>: \<^verbatim>\<open>acquireLock\<close> and \<^verbatim>\<open>releaseLock\<close> as the sequence of their system
  calls, for any number of processes whose calls interleave. Mutual exclusion, the number of calls
  of an attempt, and the interleaving in which two processes break the same stale lock. A process that
  died keeps its \<^verbatim>\<open>pid\<close>; failures of the file system other than \<^verbatim>\<open>EEXIST\<close> and \<^verbatim>\<open>ENOENT\<close> and the waiting
  time between attempts are left out.
\<close>

section \<open>The lock file and the processes\<close>

text \<open>
  The content of the lock file: not parseable, without a valid \<^verbatim>\<open>pid\<close>, or the holder's \<^verbatim>\<open>pid\<close> and token.
  A file has an identity, since a descriptor keeps writing to the file it opened after the name was
  unlinked or given to a new file.
\<close>

datatype lock_content = Unreadable | BadPid | Meta nat string

record lock_file =
  lf_id :: nat
  lf_mtime :: int
  lf_content :: lock_content

text \<open>
  Where a process is: outside, or before one of the system calls of \<^verbatim>\<open>acquireLock\<close> (with the number of
  the attempt) and \<^verbatim>\<open>releaseLock\<close>. The calls are atomic, and between two of them any other process may run.
\<close>

datatype lock_pc =
    Idle
  | Opening nat
  | Writing nat
  | Checking nat
  | Aging nat
  | Reading nat int
  | Probing nat nat
  | Breaking nat
  | Holding
  | ReleaseReading
  | ReleaseUnlinking
  | Thrown string
  | Crashed

record lock_world =
  lw_file :: "lock_file option"
  lw_now :: int
  lw_fresh :: nat
  lw_pc :: "nat \<Rightarrow> lock_pc"
  lw_token :: "nat \<Rightarrow> string"
  lw_held :: "nat \<Rightarrow> string option"

definition MALFORMED_STALE_BREAK_MS :: int where
  "MALFORMED_STALE_BREAK_MS = LOCK_STALE_MS * 20"

definition isProcessAlive :: "lock_world \<Rightarrow> nat \<Rightarrow> bool" where
  "isProcessAlive w pid \<longleftrightarrow> lw_pc w pid \<noteq> Crashed"

definition goto :: "nat \<Rightarrow> lock_pc \<Rightarrow> lock_world \<Rightarrow> lock_world" where
  "goto p l w = w\<lparr>lw_pc := (lw_pc w)(p := l)\<rparr>"

text \<open>The next round of the loop, or its end after five.\<close>

definition next_attempt :: "nat \<Rightarrow> lock_pc" where
  "next_attempt n =
     (if n + 1 < 5 then Opening (n + 1) else Thrown ''Failed to acquire lock due to concurrent updates'')"

definition break_malformed :: "nat \<Rightarrow> int \<Rightarrow> string \<Rightarrow> lock_pc" where
  "break_malformed n age message = (if age > MALFORMED_STALE_BREAK_MS then Breaking n else Thrown message)"

definition start_acquire :: "nat \<Rightarrow> string \<Rightarrow> lock_world \<Rightarrow> lock_world" where
  "start_acquire p token w = goto p (Opening 0) (w\<lparr>lw_token := (lw_token w)(p := token)\<rparr>)"

definition open_exclusive :: "nat \<Rightarrow> nat \<Rightarrow> lock_world \<Rightarrow> lock_world" where
  "open_exclusive p n w =
     (case lw_file w of
        None \<Rightarrow> goto p (Writing (lw_fresh w))
          (w\<lparr>lw_file := Some \<lparr>lf_id = lw_fresh w, lf_mtime = lw_now w, lf_content = Unreadable\<rparr>, lw_fresh := lw_fresh w + 1\<rparr>)
      | Some _ \<Rightarrow> goto p (Checking n) w)"

definition write_metadata :: "nat \<Rightarrow> nat \<Rightarrow> lock_world \<Rightarrow> lock_world" where
  "write_metadata p i w =
     goto p Holding
       (w\<lparr>lw_file := map_option (\<lambda>f. if lf_id f = i then f\<lparr>lf_content := Meta p (lw_token w p), lf_mtime := lw_now w\<rparr> else f) (lw_file w),
          lw_held := (lw_held w)(p := Some (lw_token w p))\<rparr>)"

definition check_age :: "nat \<Rightarrow> nat \<Rightarrow> lock_world \<Rightarrow> lock_world" where
  "check_age p n w =
     (case lw_file w of
        None \<Rightarrow> goto p (next_attempt n) w
      | Some f \<Rightarrow>
          (let age = lw_now w - lf_mtime f in
           goto p (if age \<le> LOCK_STALE_MS then Thrown ''Lock already held'' else Reading n age) w))"

definition read_metadata :: "nat \<Rightarrow> nat \<Rightarrow> int \<Rightarrow> lock_world \<Rightarrow> lock_world" where
  "read_metadata p n age w =
     goto p (case lw_file w of
               None \<Rightarrow> next_attempt n
             | Some f \<Rightarrow>
                 (case lf_content f of
                    Unreadable \<Rightarrow> break_malformed n age ''Stale lock has unreadable metadata''
                  | BadPid \<Rightarrow> break_malformed n age ''Stale lock is missing valid pid metadata''
                  | Meta pid _ \<Rightarrow> Probing n pid)) w"

text \<open>\<^verbatim>\<open>unlinkSync\<close>, a missing file ignored.\<close>

definition unlink_lock :: "lock_world \<Rightarrow> lock_world" where
  "unlink_lock w = w\<lparr>lw_file := None\<rparr>"

definition check_release :: "nat \<Rightarrow> lock_world \<Rightarrow> lock_pc" where
  "check_release p w =
     (case lw_file w of
        None \<Rightarrow> Idle
      | Some f \<Rightarrow>
          (case lf_content f of
             Unreadable \<Rightarrow> Thrown ''Cannot release lock with unreadable metadata''
           | BadPid \<Rightarrow> Thrown ''Cannot release lock with invalid pid metadata''
           | Meta pid token \<Rightarrow>
               if pid \<noteq> p then Thrown ''Cannot release lock owned by process''
               else if (case lw_held w p of None \<Rightarrow> False | Some expected \<Rightarrow> expected \<noteq> [] \<and> token \<noteq> expected)
               then Thrown ''Cannot release lock with mismatched token''
               else ReleaseUnlinking))"

text \<open>One system call of a process, by the place it is at.\<close>

definition lock_step :: "nat \<Rightarrow> lock_world \<Rightarrow> lock_world" where
  "lock_step p w =
     (case lw_pc w p of
        Idle \<Rightarrow> w
      | Opening n \<Rightarrow> open_exclusive p n w
      | Writing i \<Rightarrow> write_metadata p i w
      | Checking n \<Rightarrow> goto p (if lw_file w = None then next_attempt n else Aging n) w
      | Aging n \<Rightarrow> check_age p n w
      | Reading n age \<Rightarrow> read_metadata p n age w
      | Probing n pid \<Rightarrow> goto p (if isProcessAlive w pid then Thrown ''Lock held by live process'' else Breaking n) w
      | Breaking n \<Rightarrow> goto p (next_attempt n) (unlink_lock w)
      | Holding \<Rightarrow> goto p ReleaseReading w
      | ReleaseReading \<Rightarrow> goto p (check_release p w) w
      | ReleaseUnlinking \<Rightarrow> goto p Idle ((unlink_lock w)\<lparr>lw_held := (lw_held w)(p := None)\<rparr>)
      | Thrown _ \<Rightarrow> goto p Idle w
      | Crashed \<Rightarrow> w)"

text \<open>What can happen: a process starts \<^verbatim>\<open>acquireLock\<close> with a new token, a process makes its next call,
  time passes, a process dies.\<close>

datatype lock_action = Start nat string | Act nat | Tick int | Crash nat

fun lock_exec :: "lock_action \<Rightarrow> lock_world \<Rightarrow> lock_world" where
  "lock_exec (Start p token) w = (if lw_pc w p = Idle then start_acquire p token w else w)"
| "lock_exec (Act p) w = lock_step p w"
| "lock_exec (Tick d) w = w\<lparr>lw_now := lw_now w + max 0 d\<rparr>"
| "lock_exec (Crash p) w = goto p Crashed w"

definition lock_init :: lock_world where
  "lock_init = \<lparr>lw_file = None, lw_now = 0, lw_fresh = 0, lw_pc = (\<lambda>_. Idle), lw_token = (\<lambda>_. []), lw_held = (\<lambda>_. None)\<rparr>"

definition in_critical :: "lock_pc \<Rightarrow> bool" where
  "in_critical l \<longleftrightarrow> l = Holding \<or> l = ReleaseReading \<or> l = ReleaseUnlinking"

section \<open>Mutual exclusion\<close>

text \<open>
  A calm action: no process dies, and no lock file gets older than the bound after which a malformed
  one is broken, so no process is suspended for that long while it holds or creates the lock.
\<close>

fun calm :: "lock_action \<Rightarrow> lock_world \<Rightarrow> bool" where
  "calm (Crash _) w = False"
| "calm (Tick d) w = (case lw_file w of None \<Rightarrow> True | Some f \<Rightarrow> lw_now w + max 0 d - lf_mtime f \<le> MALFORMED_STALE_BREAK_MS)"
| "calm _ w = True"

inductive calm_step :: "lock_world \<Rightarrow> lock_world \<Rightarrow> bool" where
  calm_step: "calm a w \<Longrightarrow> calm_step w (lock_exec a w)"

text \<open>The owner of a lock file is the process that created it and has not removed it yet.\<close>

definition owns :: "lock_world \<Rightarrow> nat \<Rightarrow> lock_file \<Rightarrow> bool" where
  "owns w p f \<longleftrightarrow>
     lw_pc w p = Writing (lf_id f) \<and> lf_content f = Unreadable \<or>
     in_critical (lw_pc w p) \<and> lf_content f = Meta p (lw_token w p) \<and> lw_held w p = Some (lw_token w p)"

definition engaged :: "lock_pc \<Rightarrow> bool" where
  "engaged l \<longleftrightarrow> (\<exists>i. l = Writing i) \<or> in_critical l"

definition one_owner :: "lock_world \<Rightarrow> bool" where
  "one_owner w \<longleftrightarrow>
     (case lw_file w of
        None \<Rightarrow> \<forall>p. \<not> engaged (lw_pc w p)
      | Some f \<Rightarrow> lw_now w - lf_mtime f \<le> MALFORMED_STALE_BREAK_MS \<and>
          (\<exists>p. owns w p f \<and> (\<forall>q. engaged (lw_pc w q) \<longrightarrow> q = p)))"

definition no_breaker :: "lock_pc \<Rightarrow> bool" where
  "no_breaker l \<longleftrightarrow>
     (case l of Breaking _ \<Rightarrow> False | Crashed \<Rightarrow> False | Reading _ age \<Rightarrow> age \<le> MALFORMED_STALE_BREAK_MS | _ \<Rightarrow> True)"

definition lock_inv :: "lock_world \<Rightarrow> bool" where
  "lock_inv w \<longleftrightarrow> one_owner w \<and> (\<forall>p. no_breaker (lw_pc w p))"

lemma engaged_simps [simp]:
  "engaged (Writing i)" "engaged Holding" "engaged ReleaseReading" "engaged ReleaseUnlinking"
  "\<not> engaged Idle" "\<not> engaged (Opening n)" "\<not> engaged (Checking n)" "\<not> engaged (Aging n)" "\<not> engaged (Reading n a)"
  "\<not> engaged (Probing n q)" "\<not> engaged (Breaking n)" "\<not> engaged (Thrown m)" "\<not> engaged Crashed"
  by (simp_all add: engaged_def in_critical_def)

lemma no_breaker_simps [simp]:
  "no_breaker Idle" "no_breaker (Opening n)" "no_breaker (Checking n)" "no_breaker (Aging n)" "no_breaker (Probing n q)"
  "no_breaker (Writing i)" "no_breaker Holding" "no_breaker ReleaseReading" "no_breaker ReleaseUnlinking" "no_breaker (Thrown m)"
  "\<not> no_breaker (Breaking n)" "\<not> no_breaker Crashed" "no_breaker (Reading n a) \<longleftrightarrow> a \<le> MALFORMED_STALE_BREAK_MS"
  by (simp_all add: no_breaker_def)

lemma next_attempt_simps [simp]: "\<not> engaged (next_attempt n)" "no_breaker (next_attempt n)"
  by (simp_all add: next_attempt_def)

lemma goto_sel [simp]:
  "lw_file (goto p l w) = lw_file w" "lw_now (goto p l w) = lw_now w" "lw_pc (goto p l w) = (lw_pc w)(p := l)"
  "lw_token (goto p l w) = lw_token w" "lw_held (goto p l w) = lw_held w" "lw_fresh (goto p l w) = lw_fresh w"
  by (simp_all add: goto_def)

lemma owns_engaged: "owns w p f \<Longrightarrow> engaged (lw_pc w p)"
  by (auto simp: owns_def engaged_def)

text \<open>A step outside of the lock changes nothing for its owner.\<close>

lemma one_owner_cong:
  assumes "one_owner w" "lw_file w' = lw_file w" "lw_now w' = lw_now w"
    "\<And>q. engaged (lw_pc w' q) \<Longrightarrow> engaged (lw_pc w q)" "\<And>q f. owns w q f \<Longrightarrow> owns w' q f"
  shows "one_owner w'"
  using assms(1-3) assms(4) assms(5) unfolding one_owner_def by (auto split: option.splits) blast

lemma goto_outside:
  assumes "one_owner w" "\<not> engaged (lw_pc w p)" "\<not> engaged l"
  shows "one_owner (goto p l w)"
proof (rule one_owner_cong [OF assms(1)])
  show "owns (goto p l w) q f" if "owns w q f" for q f
    using that owns_engaged [OF that] assms(2) by (auto simp: owns_def)
  show "engaged (lw_pc w q)" if "engaged (lw_pc (goto p l w) q)" for q
    using that assms(3) by (auto split: if_splits)
qed simp_all

lemma inv_age: "lock_inv w \<Longrightarrow> lw_file w = Some f \<Longrightarrow> lw_now w - lf_mtime f \<le> MALFORMED_STALE_BREAK_MS"
  by (simp add: lock_inv_def one_owner_def)

lemma inv_goto:
  assumes "lock_inv w" "\<not> engaged (lw_pc w p)" "\<not> engaged l" "no_breaker l"
  shows "lock_inv (goto p l w)"
  using assms by (simp add: lock_inv_def goto_outside)

lemma inv_owner:
  assumes "lock_inv w" "engaged (lw_pc w p)"
  obtains f where "lw_file w = Some f" "owns w p f" "\<And>q. engaged (lw_pc w q) \<Longrightarrow> q = p"
proof (cases "lw_file w")
  case None
  with assms show thesis by (simp add: lock_inv_def one_owner_def)
next
  case (Some f)
  with assms(1) obtain r where r: "owns w r f" "\<forall>q. engaged (lw_pc w q) \<longrightarrow> q = r" by (auto simp: lock_inv_def one_owner_def)
  with assms(2) have "r = p" by blast
  with Some r show thesis by (intro that [of f]) auto
qed

lemma lock_step_inv:
  assumes inv: "lock_inv w"
  shows "lock_inv (lock_step p w)"
proof (cases "lw_pc w p")
  case (Opening n)
  show ?thesis
  proof (cases "lw_file w")
    case None
    with inv Opening show ?thesis
      by (auto simp: lock_inv_def one_owner_def lock_step_def open_exclusive_def owns_def MALFORMED_STALE_BREAK_MS_def LOCK_STALE_MS_def)
  next
    case (Some f)
    with inv Opening show ?thesis by (simp add: lock_step_def open_exclusive_def inv_goto)
  qed
next
  case (Writing i)
  then obtain f where f: "lw_file w = Some f" "owns w p f" "\<And>q. engaged (lw_pc w q) \<Longrightarrow> q = p"
    using inv by (elim inv_owner [where p = p]) simp_all
  from f Writing have "lf_id f = i" by (auto simp: owns_def in_critical_def)
  with f Writing inv show ?thesis
    by (auto simp: lock_step_def write_metadata_def lock_inv_def one_owner_def owns_def in_critical_def
        MALFORMED_STALE_BREAK_MS_def LOCK_STALE_MS_def)
next
  case (Aging n)
  with inv show ?thesis
    by (auto simp: lock_step_def check_age_def Let_def split: option.split intro!: inv_goto dest: inv_age)
next
  case (Reading n age)
  with inv have "age \<le> MALFORMED_STALE_BREAK_MS" by (auto simp: lock_inv_def dest: spec [of _ p])
  with Reading inv show ?thesis
    by (auto simp: lock_step_def read_metadata_def break_malformed_def intro!: inv_goto split: option.splits lock_content.splits)
next
  case (Probing n q)
  have "isProcessAlive w q" using inv by (auto simp: lock_inv_def isProcessAlive_def dest: spec [of _ q])
  with Probing inv show ?thesis by (simp add: lock_step_def inv_goto)
next
  case (Breaking n)
  with inv show ?thesis by (auto simp: lock_inv_def dest: spec [of _ p])
next
  case Holding
  then obtain f where f: "lw_file w = Some f" "owns w p f" "\<And>q. engaged (lw_pc w q) \<Longrightarrow> q = p"
    using inv by (elim inv_owner [where p = p]) simp_all
  with Holding inv show ?thesis
    by (auto simp: lock_step_def lock_inv_def one_owner_def owns_def in_critical_def)
next
  case ReleaseReading
  then obtain f where f: "lw_file w = Some f" "owns w p f" "\<And>q. engaged (lw_pc w q) \<Longrightarrow> q = p"
    using inv by (elim inv_owner [where p = p]) simp_all
  with ReleaseReading inv show ?thesis
    by (auto simp: lock_step_def check_release_def lock_inv_def one_owner_def owns_def in_critical_def)
next
  case ReleaseUnlinking
  then obtain f where f: "lw_file w = Some f" "owns w p f" "\<And>q. engaged (lw_pc w q) \<Longrightarrow> q = p"
    using inv by (elim inv_owner [where p = p]) simp_all
  with ReleaseUnlinking inv show ?thesis
    by (auto simp: lock_step_def unlink_lock_def lock_inv_def one_owner_def)
next
  case (Checking n)
  with inv show ?thesis by (simp add: lock_step_def inv_goto)
next
  case (Thrown m)
  with inv show ?thesis by (simp add: lock_step_def inv_goto)
qed (use inv in \<open>simp_all add: lock_step_def\<close>)

lemma calm_step_inv:
  assumes "calm_step w w'" "lock_inv w"
  shows "lock_inv w'"
  using assms
proof cases
  case (calm_step a)
  show ?thesis
  proof (cases a)
    case (Start p t)
    have "lock_inv (w\<lparr>lw_token := (lw_token w)(p := t)\<rparr>)" if "lw_pc w p = Idle"
      using assms(2) that unfolding lock_inv_def
      by (auto elim!: one_owner_cong simp: owns_def in_critical_def)
    with Start calm_step assms(2) show ?thesis by (auto simp: start_acquire_def intro!: inv_goto)
  next
    case (Act p)
    with calm_step assms(2) show ?thesis by (simp add: lock_step_inv)
  next
    case (Tick d)
    with calm_step assms(2) show ?thesis by (auto simp: lock_inv_def one_owner_def owns_def split: option.splits)
  next
    case (Crash p)
    with calm_step show ?thesis by simp
  qed
qed

lemma lock_init_inv: "lock_inv lock_init"
  by (simp add: lock_inv_def one_owner_def lock_init_def)

lemma calm_reachable_inv: "calm_step\<^sup>*\<^sup>* lock_init w \<Longrightarrow> lock_inv w"
  by (induction rule: rtranclp_induct) (auto intro: lock_init_inv calm_step_inv)


section \<open>Acquiring ends\<close>

text \<open>How many calls a process has left, at most, before \<^verbatim>\<open>acquireLock\<close> returns or throws.\<close>

fun calls_left :: "lock_pc \<Rightarrow> nat" where
  "calls_left (Opening n) = 6 * (5 - n) + 1"
| "calls_left (Checking n) = 6 * (5 - n)"
| "calls_left (Aging n) = 6 * (5 - n) - 1"
| "calls_left (Reading n _) = 6 * (5 - n) - 2"
| "calls_left (Probing n _) = 6 * (5 - n) - 3"
| "calls_left (Breaking n) = 6 * (5 - n) - 4"
| "calls_left (Writing _) = 1"
| "calls_left _ = 0"

definition acquiring :: "lock_pc \<Rightarrow> bool" where
  "acquiring l \<longleftrightarrow> 0 < calls_left l"

fun attempt_of :: "lock_pc \<Rightarrow> nat" where
  "attempt_of (Opening n) = n"
| "attempt_of (Checking n) = n"
| "attempt_of (Aging n) = n"
| "attempt_of (Reading n _) = n"
| "attempt_of (Probing n _) = n"
| "attempt_of (Breaking n) = n"
| "attempt_of _ = 0"

lemma next_attempt_left: "n < 5 \<Longrightarrow> calls_left (next_attempt n) \<le> 6 * (5 - n) - 5 \<and> attempt_of (next_attempt n) < 5"
proof -
  have "n < 4 \<Longrightarrow> Suc (6 * (4 - n)) \<le> 6 * (5 - n) - 5" by arith
  then show "n < 5 \<Longrightarrow> ?thesis" by (simp add: next_attempt_def)
qed

lemma lock_step_decreases:
  assumes "acquiring (lw_pc w p)" "attempt_of (lw_pc w p) < 5"
  shows "calls_left (lw_pc (lock_step p w) p) < calls_left (lw_pc w p) \<and> attempt_of (lw_pc (lock_step p w) p) < 5"
  using assms next_attempt_left [of "attempt_of (lw_pc w p)"]
  by (cases "lw_pc w p")
    (auto simp: acquiring_def lock_step_def open_exclusive_def write_metadata_def check_age_def read_metadata_def break_malformed_def
      unlink_lock_def Let_def split: option.split lock_content.split)

lemma lock_step_other: "q \<noteq> p \<Longrightarrow> lw_pc (lock_step q w) p = lw_pc w p"
  by (cases "lw_pc w q")
    (auto simp: lock_step_def open_exclusive_def write_metadata_def check_age_def read_metadata_def unlink_lock_def Let_def
      split: option.split)

fun own_calls :: "nat \<Rightarrow> lock_action list \<Rightarrow> nat" where
  "own_calls p [] = 0"
| "own_calls p (a # as) = (if a = Act p then 1 else 0) + own_calls p as"

definition lock_run :: "lock_action list \<Rightarrow> lock_world \<Rightarrow> lock_world" where
  "lock_run as w = foldl (\<lambda>w a. lock_exec a w) w as"

lemma lock_exec_left:
  assumes "acquiring (lw_pc w p)" "attempt_of (lw_pc w p) < 5"
  shows "attempt_of (lw_pc (lock_exec a w) p) < 5 \<and>
    calls_left (lw_pc (lock_exec a w) p) + (if a = Act p then 1 else 0) \<le> calls_left (lw_pc w p)"
proof (cases a)
  case (Act q)
  with assms lock_step_decreases [of w p] lock_step_other [of q p w] show ?thesis by (cases "q = p") auto
qed (use assms in \<open>auto simp: start_acquire_def acquiring_def\<close>)

lemma lock_run_simps [simp]: "lock_run [] w = w" "lock_run (a # as) w = lock_run as (lock_exec a w)"
  by (simp_all add: lock_run_def)

lemma own_calls_bounded:
  assumes "attempt_of (lw_pc w p) < 5" "\<And>bs. prefix bs as \<Longrightarrow> acquiring (lw_pc (lock_run bs w) p)"
  shows "own_calls p as \<le> calls_left (lw_pc w p)"
  using assms
proof (induction as arbitrary: w)
  case (Cons a as)
  have a: "acquiring (lw_pc w p)" using Cons.prems(2) [of "[]"] by simp
  have "acquiring (lw_pc (lock_run bs (lock_exec a w)) p)" if "prefix bs as" for bs
    using Cons.prems(2) [of "a # bs"] that by simp
  then have "own_calls p as \<le> calls_left (lw_pc (lock_exec a w) p)"
    using Cons.IH lock_exec_left [OF a Cons.prems(1)] by blast
  with lock_exec_left [OF a Cons.prems(1), of a] show ?case by (auto split: if_splits)
qed simp

text \<open>
  Acquiring the lock ends: whatever the other processes do, and whether or not they die, a process
  that starts \<^verbatim>\<open>acquireLock\<close> has returned or thrown before its thirty-second system call.
\<close>

theorem acquire_is_bounded:
  assumes "lw_pc w p = Idle" "31 < own_calls p as"
  shows "\<exists>bs. prefix bs as \<and> \<not> acquiring (lw_pc (lock_run bs (lock_exec (Start p token) w)) p)"
proof (rule ccontr)
  let ?w = "lock_exec (Start p token) w"
  have pc: "lw_pc ?w p = Opening 0" using assms(1) by (simp add: start_acquire_def)
  assume "\<not> ?thesis"
  then have "own_calls p as \<le> calls_left (lw_pc ?w p)" using pc by (intro own_calls_bounded) auto
  with assms(2) pc show False by simp
qed

section \<open>Breaking a stale lock\<close>

text \<open>
  A process dies with the lock. Two others find its file stale and its holder dead; the first breaks
  the lock and takes it, then the second removes the first one's file, as it had decided to, and
  takes the lock too.
\<close>

definition breakers :: "lock_action list" where
  "breakers =
     [Start 3 ''c'', Act 3, Act 3, Crash 3, Tick 30001,
      Start 1 ''a'', Act 1, Act 1, Act 1, Act 1, Act 1,
      Start 2 ''b'', Act 2, Act 2, Act 2, Act 2, Act 2,
      Act 1, Act 1, Act 1, Act 2, Act 2, Act 2]"

theorem broken_lock_is_shared: "lw_pc (lock_run breakers lock_init) 1 = Holding \<and> lw_pc (lock_run breakers lock_init) 2 = Holding"
  by (simp add: breakers_def lock_init_def start_acquire_def goto_def lock_step_def open_exclusive_def write_metadata_def
      check_age_def read_metadata_def unlink_lock_def isProcessAlive_def next_attempt_def LOCK_STALE_MS_def)

section \<open>Evaluation\<close>

text \<open>A process takes the lock while another is refused.\<close>

definition uncontended :: "lock_action list" where
  "uncontended = [Start 7 ''a'', Act 7, Start 2 ''b'', Act 7, Act 2, Act 2, Act 2]"

lemma uncontended_reachable: "calm_step\<^sup>*\<^sup>* lock_init (lock_run uncontended lock_init)"
proof -
  have calm: "calm_step\<^sup>*\<^sup>* w (lock_run as w)" if "\<forall>a \<in> set as. \<exists>p t. a = Start p t \<or> a = Act p" for as w
    using that
  proof (induction as arbitrary: w)
    case (Cons a as)
    then have "calm a w" by auto
    then have "calm_step w (lock_exec a w)" by (rule calm_step.intros)
    moreover have "calm_step\<^sup>*\<^sup>* (lock_exec a w) (lock_run as (lock_exec a w))" using Cons by simp
    ultimately show ?case by simp
  qed simp
  show ?thesis by (rule calm) (simp add: uncontended_def)
qed

lemma uncontended_pc: "lw_pc (lock_run uncontended lock_init) 7 = Holding" "lw_pc (lock_run uncontended lock_init) 2 = Thrown ''Lock already held''"
  by (simp_all add: uncontended_def lock_init_def start_acquire_def goto_def lock_step_def open_exclusive_def write_metadata_def
      check_age_def LOCK_STALE_MS_def)


theorem acquire_is_bounded_witness:
  "\<exists>bs. prefix bs (replicate 32 (Act 7)) \<and> \<not> acquiring (lw_pc (lock_run bs (lock_exec (Start 7 ''a'') lock_init)) 7)"
  by (rule acquire_is_bounded) (simp_all add: lock_init_def eval_nat_numeral)

end
