(* ===== verification/Reconcile.thy ===== *)
theory Reconcile
  imports Lifecycle
begin

text \<open>
  The repair of claims and tasks after an interrupted write, \<^verbatim>\<open>lib/reconcile.ts\<close>, and the diagnostics of
  \<^verbatim>\<open>lib/lifecycleDiagnostics.ts\<close>. What a repair decides is the pure \<open>reconcilePlan\<close>; \<open>reconcileState\<close>
  commits it. The claims of one directory have distinct run identifiers, the key of the run table.
\<close>

section \<open>Duplicate claims (lifecycleDiagnostics.ts)\<close>

text \<open>
  \<^verbatim>\<open>compareIsoAscending\<close> on two timestamps, as \<open>left < right\<close>; ISO texts are ordered as their times. Run
  identifiers consist of lower case letters, digits and hyphens, which \<^verbatim>\<open>localeCompare\<close> orders as their
  character codes.
\<close>

fun iso_before :: "timestamp \<Rightarrow> timestamp \<Rightarrow> bool" where
  "iso_before (Ts a) (Ts b) = (a < b)"
| "iso_before (Ts a) (BadTs s) = True"
| "iso_before (BadTs s) (Ts b) = False"
| "iso_before (BadTs s) (BadTs t) = (s < t)"

definition claim_before :: "Claim \<Rightarrow> Claim \<Rightarrow> bool" where
  "claim_before l r \<longleftrightarrow>
     (if c_claimed_at l = c_claimed_at r then c_run_id l < c_run_id r else iso_before (c_claimed_at l) (c_claimed_at r))"

text \<open>The first element of the stable sort.\<close>

fun selectDuplicateClaimWinner :: "Claim list \<Rightarrow> Claim option" where
  "selectDuplicateClaimWinner [] = None"
| "selectDuplicateClaimWinner [c] = Some c"
| "selectDuplicateClaimWinner (c # d # cs) = selectDuplicateClaimWinner ((if claim_before d c then d else c) # cs)"

definition expectedTaskStatus :: "Claim \<Rightarrow> TaskStatus" where
  "expectedTaskStatus c = (if c_state c = CS_in_progress then TS_in_progress else TS_claimed)"

definition active_for :: "string \<Rightarrow> Claim list \<Rightarrow> Claim list" where
  "active_for ref cs = filter (\<lambda>c. c_task_ref c = ref \<and> claim_active c) cs"

section \<open>Repair (reconcile.ts)\<close>

definition fail_claims :: "Claim list \<Rightarrow> Claim list \<Rightarrow> Claim list" where
  "fail_claims failed cs = map (\<lambda>c. if c \<in> set failed then c\<lparr>c_state := CS_failed\<rparr> else c) cs"

definition knownTaskRefs :: "Backlog \<Rightarrow> string list" where
  "knownTaskRefs b = filter (\<lambda>r. r \<noteq> []) (map t_ref (backlog_tasks b))"

definition orphan_claims :: "Backlog \<Rightarrow> Claim list \<Rightarrow> Claim list" where
  "orphan_claims b cs = filter (\<lambda>c. claim_active c \<and> c_task_ref c \<notin> set (knownTaskRefs b)) cs"

text \<open>The tasks with active claims, in the order of the first one, and all but the oldest claim of each.\<close>

definition claimed_refs :: "Backlog \<Rightarrow> Claim list \<Rightarrow> string list" where
  "claimed_refs b cs = js_set (map c_task_ref (filter (\<lambda>c. claim_active c \<and> c_task_ref c \<in> set (knownTaskRefs b)) cs))"

definition kept_claim :: "Backlog \<Rightarrow> Claim list \<Rightarrow> string \<Rightarrow> Claim option" where
  "kept_claim b cs ref = (if ref \<in> set (knownTaskRefs b) then selectDuplicateClaimWinner (active_for ref cs) else None)"

definition duplicate_claims :: "Backlog \<Rightarrow> Claim list \<Rightarrow> Claim list" where
  "duplicate_claims b cs =
     concat (map (\<lambda>ref. filter (\<lambda>c. Some (c_run_id c) \<noteq> map_option c_run_id (kept_claim b cs ref)) (active_for ref cs)) (claimed_refs b cs))"

text \<open>What happens to one task: its new status with the cause of the change, and the claim that fails.\<close>

definition repair_task :: "bool \<Rightarrow> Claim option \<Rightarrow> Task \<Rightarrow> Task \<times> TaskStatusChange option \<times> Claim option" where
  "repair_task projectMode kept task =
     (if t_ref task = [] then (task, None, None)
      else case kept of
        Some c \<Rightarrow>
          (let expected = expectedTaskStatus c in
           if projectMode \<and> task_finished (t_status task) then (task, None, None)
           else if projectMode \<and> t_status task \<noteq> expected \<and> \<not> (t_status task = TS_claimed \<and> expected = TS_in_progress)
           then (task, None, Some c)
           else if t_status task \<noteq> expected
           then (task\<lparr>t_status := expected\<rparr>, Some (mk_change TC_run_start (Some (c_run_id c)) (Some ''reconcile'') None), None)
           else (task, None, None))
      | None \<Rightarrow>
          if task_active (t_status task)
          then (task\<lparr>t_status := TS_todo\<rparr>, Some (mk_change TC_failure_requeue None (Some ''reconcile'') (Some ''reconcile_missing_claim'')), None)
          else (task, None, None))"

record reconcile_plan =
  rp_claims :: "Claim list"
  rp_backlog :: Backlog
  rp_changes :: "(string \<times> TaskStatusChange) list"
  rp_failed :: "(Claim \<times> string) list"

definition reconcilePlan :: "bool \<Rightarrow> Claim list \<Rightarrow> Backlog \<Rightarrow> reconcile_plan" where
  "reconcilePlan projectMode cs b =
     (let repair = (\<lambda>t. repair_task projectMode (kept_claim b cs (t_ref t)) t);
          mismatched = List.map_filter (\<lambda>t. snd (snd (repair t))) (backlog_tasks b);
          failed = map (\<lambda>c. (c, ''reconcile_orphan_claim'')) (orphan_claims b cs) @
                   map (\<lambda>c. (c, ''reconcile_duplicate_claim'')) (duplicate_claims b cs) @
                   map (\<lambda>c. (c, ''reconcile_status_mismatch'')) mismatched in
      \<lparr>rp_claims = fail_claims (map fst failed) cs,
       rp_backlog = map (\<lambda>f. f\<lparr>f_tasks := map (\<lambda>t. fst (repair t)) (f_tasks f)\<rparr>) b,
       rp_changes = List.map_filter (\<lambda>t. map_option (Pair (t_ref t)) (fst (snd (repair t)))) (backlog_tasks b),
       rp_failed = failed\<rparr>)"

definition reconcile_event :: "env \<Rightarrow> Claim \<times> string \<Rightarrow> OrcEvent" where
  "reconcile_event e = (\<lambda>(c, reason). mk_event (now_ts e) ''run_failed'' ''coordinator'' ''reconcile'' (Some (c_run_id c)) (Some (c_task_ref c))
     (Some (c_agent_id c)) (Some [(''reason'', JStr reason), (''code'', JStr ''ERR_RECONCILE''), (''policy'', JStr ''requeue'')]))"

text \<open>\<^verbatim>\<open>refreshClaimsProjection\<close> of \<^verbatim>\<open>lib/runStore.ts\<close>.\<close>

definition refreshClaimsProjection :: "orc_state \<Rightarrow> bool outcome" where
  "refreshClaimsProjection st =
     (case readAuthoritativeClaims (st_claims_json st) (st_db st) of
        Inl err \<Rightarrow> (Inl err, st)
      | Inr (None, cj, db) \<Rightarrow> (Inr False, st\<lparr>st_db := db, st_claims_json := cj\<rparr>)
      | Inr (Some cs, cj, db) \<Rightarrow> (Inr (cj \<noteq> Some cs), st\<lparr>st_db := db, st_claims_json := Some cs\<rparr>))"

definition reconcileState :: "env \<Rightarrow> orc_state \<Rightarrow> unit outcome" where
  "reconcileState e st =
     obind (readJsonClaims st) (\<lambda>cs st0.
       check_then (readBacklog st0) (\<lambda>b st1.
         (let plan = reconcilePlan (st_store st1 \<noteq> None) cs b in
          obind (if rp_changes plan \<noteq> [] then commitBacklog e (rp_backlog plan) (rp_changes plan) st1 else (Inr (), st1)) (\<lambda>_ st2.
          obind (if rp_failed plan \<noteq> []
                 then commitClaims e (rp_claims plan) (map (reconcile_event e) (rp_failed plan)) st2 else (Inr (), st2)) (\<lambda>_ st3.
          obind (refreshClaimsProjection st3) (\<lambda>_ st4. (Inr (), st4)))))) st0)"

section \<open>Diagnostics (lifecycleDiagnostics.ts)\<close>

datatype issue_code =
    duplicate_active_claims
  | duplicate_active_agent_claims
  | unknown_active_task_ref
  | unknown_active_agent_id
  | task_status_missing_active_claim
  | task_status_claim_mismatch
  | invalid_finalization_state
  | missing_finalization_blocked_reason
  | suspicious_finalization_retry_count
  | duplicate_event_identity

record LifecycleIssue =
  li_code :: issue_code
  li_message :: string
  li_hint :: "string option"

definition issue :: "issue_code \<Rightarrow> string \<Rightarrow> string option \<Rightarrow> LifecycleIssue" where
  "issue code message hint = \<lparr>li_code = code, li_message = message, li_hint = hint\<rparr>"

text \<open>\<^verbatim>\<open>FINALIZATION_STATES\<close> of this file, without the states of the pull request path.\<close>

definition DIAGNOSED_FINALIZATION_STATES :: "FinalizationState list" where
  "DIAGNOSED_FINALIZATION_STATES =
     [FS_awaiting_finalize, FS_finalize_rebase_requested, FS_finalize_rebase_in_progress, FS_ready_to_merge, FS_blocked_finalize]"

text \<open>\<^verbatim>\<open>tasksByRef.values()\<close>: in the order of the first task of a reference, with the last task of it.\<close>

definition tasks_by_ref :: "Backlog \<Rightarrow> Task list" where
  "tasks_by_ref b =
     map (\<lambda>ref. the (List.find (\<lambda>t. t_ref t = ref) (rev (backlog_tasks b)))) (js_set (map t_ref (backlog_tasks b)))"

definition reference_issues :: "Backlog \<Rightarrow> string list \<Rightarrow> Claim \<Rightarrow> LifecycleIssue list" where
  "reference_issues b agentIds c =
     (if c_task_ref c \<notin> set (map t_ref (backlog_tasks b))
      then [issue unknown_active_task_ref (''active claim '' @ c_run_id c @ '' references unknown task_ref '' @ quoted (c_task_ref c))
              (Some ''Repair or reset the run before dispatch continues.'')] else []) @
     (if c_agent_id c \<notin> set agentIds
      then [issue unknown_active_agent_id (''active claim '' @ c_run_id c @ '' references unknown agent_id '' @ quoted (c_agent_id c))
              (Some ''Re-register the worker or reset the task claim.'')] else [])"

definition duplicate_task_issues :: "Claim list \<Rightarrow> string \<Rightarrow> LifecycleIssue list" where
  "duplicate_task_issues cs ref =
     (case selectDuplicateClaimWinner (active_for ref cs) of
        None \<Rightarrow> []
      | Some winner \<Rightarrow>
          if length (active_for ref cs) \<le> 1 then []
          else [issue duplicate_active_claims
                  (''multiple active claims for task '' @ ref @ ''; keep oldest run '' @ c_run_id winner @ '', fail newer run(s): '' @
                   join_with '', '' (map c_run_id (filter (\<lambda>c. c_run_id c \<noteq> c_run_id winner) (active_for ref cs))))
                  (Some ''Coordinator reconcile should leave the oldest active claim and fail fresher duplicates.'')])"

definition duplicate_agent_issues :: "Claim list \<Rightarrow> string \<Rightarrow> LifecycleIssue list" where
  "duplicate_agent_issues cs agentId =
     (let own = filter (\<lambda>c. claim_active c \<and> c_agent_id c = agentId) cs in
      if length own \<le> 1 then []
      else [issue duplicate_active_agent_claims
              (''agent '' @ agentId @ '' has multiple active claims: '' @ join_with '', '' (map c_run_id own))
              (Some ''A worker should own at most one active run at a time.'')])"

definition task_issues :: "Claim list \<Rightarrow> Task \<Rightarrow> LifecycleIssue list" where
  "task_issues cs t =
     (case selectDuplicateClaimWinner (active_for (t_ref t) cs) of
        None \<Rightarrow>
          if task_active (t_status t)
          then [issue task_status_missing_active_claim (''task '' @ t_ref t @ '' is '' @ status_str (t_status t) @ '' but has no active claim'')
                  (Some ''Reset the task or repair claims/backlog state before continuing.'')] else []
      | Some c \<Rightarrow>
          if t_status t \<noteq> expectedTaskStatus c
          then [issue task_status_claim_mismatch
                  (''task '' @ t_ref t @ '' is '' @ status_str (t_status t) @ '' but active claim '' @ c_run_id c @ '' is '' @ claim_state_str (c_state c))
                  (Some (''Expected task status '' @ status_str (expectedTaskStatus c) @ '' while that run is active.''))] else [])"

definition finalization_issues :: "Claim \<Rightarrow> LifecycleIssue list" where
  "finalization_issues c =
     (let fs = c_finalization_state c; retries = or_default (c_finalization_retry_count c) 0 in
      (case fs of
         None \<Rightarrow> []
       | Some f \<Rightarrow>
           (if f \<notin> set DIAGNOSED_FINALIZATION_STATES
            then [issue invalid_finalization_state (''claim '' @ c_run_id c @ '' has unsupported finalization_state '' @ quoted (finalization_str fs)) None]
            else []) @
           (if c_state c \<noteq> CS_in_progress
            then [issue invalid_finalization_state
                    (''claim '' @ c_run_id c @ '' has finalization_state '' @ quoted (finalization_str fs) @ '' while state is '' @ claim_state_str (c_state c))
                    (Some ''Finalization state is only valid while a run remains in_progress.'')] else [])) @
      (if fs = Some FS_blocked_finalize \<and> js_trim (or_default (c_finalization_blocked_reason c) []) = []
       then [issue missing_finalization_blocked_reason (''claim '' @ c_run_id c @ '' is blocked_finalize without a blocked reason'')
               (Some ''Preserved finalization failures should always record why they were blocked.'')] else []) @
      (if retries > 0 \<and> fs = None
       then [issue suspicious_finalization_retry_count
               (''claim '' @ c_run_id c @ '' has retry_count='' @ show_int retries @ '' without an active finalization_state'')
               (Some ''Retry counters should only be set while a finalization phase is active or preserved.'')] else []))"

fun event_issues :: "string list \<Rightarrow> OrcEvent list \<Rightarrow> LifecycleIssue list" where
  "event_issues seen [] = []"
| "event_issues seen (ev # evs) =
     (if eventIdentity ev \<in> set seen
      then issue duplicate_event_identity (''events.db contains duplicate event identity '' @ eventIdentity ev)
             (Some ''Event replay and dedupe rely on unique identities within the retained log.'') # event_issues seen evs
      else event_issues (eventIdentity ev # seen) evs)"

definition claim_issues :: "Backlog \<Rightarrow> string list \<Rightarrow> Claim list \<Rightarrow> LifecycleIssue list" where
  "claim_issues b agentIds cs =
     (let active = filter claim_active cs in
      concat (map (reference_issues b agentIds) active) @
      concat (map (duplicate_task_issues cs) (js_set (map c_task_ref active))) @
      concat (map (duplicate_agent_issues cs) (js_set (map c_agent_id active))) @
      concat (map (task_issues cs) (tasks_by_ref b)) @
      concat (map finalization_issues cs))"

definition detectLifecycleIssues :: "env \<Rightarrow> orc_state \<Rightarrow> LifecycleIssue list \<times> orc_state" where
  "detectLifecycleIssues e st =
     (case readBacklog st of
        Inl _ \<Rightarrow> ([], st)
      | Inr b \<Rightarrow>
          (let (agents, st1) = readAgents e st; (cs, st2) = readClaims st1 in
           (claim_issues b (map a_agent_id agents) cs @ event_issues [] (readEvents e (st_db st2)), st2)))"

definition summarizeLifecycleIssues :: "LifecycleIssue list \<Rightarrow> string list" where
  "summarizeLifecycleIssues =
     map (\<lambda>i. ''invariant: '' @ li_message i @ (case li_hint i of None \<Rightarrow> [] | Some h \<Rightarrow> '' ('' @ h @ '')''))"

end
