(* ===== verification/Reconcile_Props.thy ===== *)
theory Reconcile_Props
  imports Reconcile Lifecycle_Props
begin

text \<open>
  Reconciliation keeps the oldest claim of a task, converges, and repairs what the diagnostics report.
\<close>

section \<open>The oldest claim\<close>

lemma winner_in: "selectDuplicateClaimWinner cs = Some c \<Longrightarrow> c \<in> set cs"
  by (induction cs rule: selectDuplicateClaimWinner.induct) (auto split: if_splits)

lemma winner_None [simp]: "selectDuplicateClaimWinner cs = None \<longleftrightarrow> cs = []"
  by (induction cs rule: selectDuplicateClaimWinner.induct) auto

lemma iso_before_asym: "iso_before a b \<Longrightarrow> \<not> iso_before b a"
  by (cases a; cases b) auto

lemma iso_before_trans: "iso_before a b \<Longrightarrow> iso_before b c \<Longrightarrow> iso_before a c"
  by (cases a; cases b; cases c) auto

lemma iso_before_total: "a \<noteq> b \<Longrightarrow> iso_before a b \<or> iso_before b a"
  by (cases a; cases b) auto

lemma claim_before_trans: "claim_before a b \<Longrightarrow> claim_before b c \<Longrightarrow> claim_before a c"
  by (auto simp: claim_before_def split: if_splits dest: iso_before_trans iso_before_asym)

lemma claim_before_neg_trans: "\<not> claim_before x y \<Longrightarrow> \<not> claim_before y z \<Longrightarrow> \<not> claim_before x z"
  using iso_before_total [of "c_claimed_at x" "c_claimed_at y"] iso_before_total [of "c_claimed_at y" "c_claimed_at z"]
  by (auto simp: claim_before_def split: if_splits dest: iso_before_trans iso_before_asym)

lemma claim_before_irrefl [simp]: "\<not> claim_before c c"
  by (simp add: claim_before_def)

text \<open>No other claim is older than the one that is kept.\<close>

lemma winner_oldest: "selectDuplicateClaimWinner cs = Some c \<Longrightarrow> d \<in> set cs \<Longrightarrow> \<not> claim_before d c"
proof (induction cs arbitrary: d rule: selectDuplicateClaimWinner.induct)
  case (3 a b cs)
  let ?m = "if claim_before b a then b else a"
  have w: "selectDuplicateClaimWinner (?m # cs) = Some c" using "3.prems"(1) by simp
  have m: "\<not> claim_before ?m c" by (rule "3.IH" [OF w]) simp
  have "\<not> claim_before a ?m" "\<not> claim_before b ?m"
    by (auto simp: claim_before_def split: if_splits dest: iso_before_asym)
  with m "3.IH" [OF w] "3.prems"(2) show ?case by (auto dest: claim_before_neg_trans)
qed auto

section \<open>Claims after a repair\<close>

text \<open>Claims and tasks as the databases hold them: keys are distinct and not empty.\<close>

definition well_keyed :: "Claim list \<Rightarrow> Backlog \<Rightarrow> bool" where
  "well_keyed cs b \<longleftrightarrow>
     distinct (map c_run_id cs) \<and> distinct (map t_ref (backlog_tasks b)) \<and> (\<forall>t \<in> set (backlog_tasks b). t_ref t \<noteq> [])"

lemma known_refs: "well_keyed cs b \<Longrightarrow> set (knownTaskRefs b) = set (map t_ref (backlog_tasks b))"
  by (auto simp: well_keyed_def knownTaskRefs_def)

lemma run_id_inj: "distinct (map c_run_id cs) \<Longrightarrow> c \<in> set cs \<Longrightarrow> d \<in> set cs \<Longrightarrow> c_run_id c = c_run_id d \<Longrightarrow> c = d"
  by (auto simp: distinct_map inj_on_def)

lemma active_for_iff [simp]: "c \<in> set (active_for ref cs) \<longleftrightarrow> c \<in> set cs \<and> c_task_ref c = ref \<and> claim_active c"
  by (auto simp: active_for_def)

lemma active_fail: "active_for ref (fail_claims F cs) = filter (\<lambda>c. c \<notin> set F) (active_for ref cs)"
  by (induction cs) (auto simp: active_for_def fail_claims_def claim_active_def)

lemma filter_single: "distinct xs \<Longrightarrow> x \<in> set xs \<Longrightarrow> (\<And>y. y \<in> set xs \<Longrightarrow> P y \<longleftrightarrow> y = x) \<Longrightarrow> filter P xs = [x]"
proof (induction xs)
  case (Cons a xs)
  show ?case
  proof (cases "a = x")
    case True
    have "filter P xs = []" using Cons.prems True by (auto simp: filter_empty_conv)
    with True Cons.prems show ?thesis by simp
  next
    case False
    with Cons show ?thesis by auto
  qed
qed simp

definition mismatched :: "bool \<Rightarrow> Claim \<Rightarrow> Task \<Rightarrow> bool" where
  "mismatched pm c t \<longleftrightarrow> pm \<and> \<not> task_finished (t_status t) \<and> t_status t \<noteq> expectedTaskStatus c \<and>
     \<not> (t_status t = TS_claimed \<and> expectedTaskStatus c = TS_in_progress)"

lemma repair_failed:
  "snd (snd (repair_task pm k t)) = Some c \<longleftrightarrow> t_ref t \<noteq> [] \<and> k = Some c \<and> mismatched pm c t"
  by (auto simp: repair_task_def mismatched_def Let_def split: option.split)

lemma kept_in: "kept_claim b cs ref = Some c \<Longrightarrow> c \<in> set (active_for ref cs) \<and> ref \<in> set (knownTaskRefs b)"
  unfolding kept_claim_def by (metis option.distinct(1) winner_in)

lemma in_duplicates:
  assumes "c \<in> set (active_for ref cs)"
  shows "c \<in> set (duplicate_claims b cs) \<longleftrightarrow>
    ref \<in> set (knownTaskRefs b) \<and> Some (c_run_id c) \<noteq> map_option c_run_id (kept_claim b cs ref)"
  using assms by (auto simp: duplicate_claims_def claimed_refs_def)

lemma task_of_ref:
  assumes "well_keyed cs b" "t \<in> set (backlog_tasks b)" "u \<in> set (backlog_tasks b)" "t_ref t = t_ref u"
  shows "t = u"
  using assms by (auto simp: well_keyed_def distinct_map inj_on_def)

lemma map_filter_iff: "x \<in> set (List.map_filter f xs) \<longleftrightarrow> (\<exists>y \<in> set xs. f y = Some x)"
  by (induction xs) (auto simp: List.map_filter_simps split: option.splits)

text \<open>Which of the active claims of a known task fail.\<close>

lemma failed_known:
  assumes wk: "well_keyed cs b" and t: "t \<in> set (backlog_tasks b)" and c: "c \<in> set (active_for (t_ref t) cs)"
    and k: "kept_claim b cs (t_ref t) = Some k"
  shows "c \<in> set (map fst (rp_failed (reconcilePlan pm cs b))) \<longleftrightarrow> c \<noteq> k \<or> mismatched pm k t"
proof -
  have known: "t_ref t \<in> set (knownTaskRefs b)" and nonempty: "t_ref t \<noteq> []"
    using wk t by (auto simp: known_refs, auto simp: well_keyed_def)
  have k_in: "k \<in> set (active_for (t_ref t) cs)" using kept_in [OF k] by simp
  have run: "c_run_id c = c_run_id k \<longleftrightarrow> c = k" using wk c k_in by (auto simp: well_keyed_def dest: run_id_inj)
  have orphan: "c \<notin> set (orphan_claims b cs)" using c known by (auto simp: orphan_claims_def)
  have dup: "c \<in> set (duplicate_claims b cs) \<longleftrightarrow> c \<noteq> k" using in_duplicates [OF c] known k run by auto
  have mis: "(\<exists>u \<in> set (backlog_tasks b). snd (snd (repair_task pm (kept_claim b cs (t_ref u)) u)) = Some c) \<longleftrightarrow> c = k \<and> mismatched pm k t"
  proof
    assume "\<exists>u \<in> set (backlog_tasks b). snd (snd (repair_task pm (kept_claim b cs (t_ref u)) u)) = Some c"
    then obtain u where u: "u \<in> set (backlog_tasks b)" "kept_claim b cs (t_ref u) = Some c" "mismatched pm c u"
      by (auto simp: repair_failed)
    from kept_in [OF u(2)] c have "t_ref u = t_ref t" by auto
    then have "u = t" by (rule task_of_ref [OF wk u(1) t])
    with u k show "c = k \<and> mismatched pm k t" by simp
  next
    assume "c = k \<and> mismatched pm k t"
    with t k nonempty show "\<exists>u \<in> set (backlog_tasks b). snd (snd (repair_task pm (kept_claim b cs (t_ref u)) u)) = Some c"
      by (auto simp: repair_failed)
  qed
  show ?thesis
    by (simp add: reconcilePlan_def Let_def image_Un image_image orphan dup map_filter_iff mis)
qed

lemma distinct_active: "well_keyed cs b \<Longrightarrow> distinct (active_for ref cs)"
  by (auto simp: well_keyed_def active_for_def distinct_map)

text \<open>The active claims of a task after the repair: the kept one, unless it contradicts the task.\<close>

lemma active_after:
  assumes wk: "well_keyed cs b" and t: "t \<in> set (backlog_tasks b)"
  shows "active_for (t_ref t) (rp_claims (reconcilePlan pm cs b)) =
    (case kept_claim b cs (t_ref t) of None \<Rightarrow> [] | Some k \<Rightarrow> if mismatched pm k t then [] else [k])"
proof -
  let ?F = "map fst (rp_failed (reconcilePlan pm cs b))"
  have cl: "rp_claims (reconcilePlan pm cs b) = fail_claims ?F cs" by (simp add: reconcilePlan_def Let_def comp_def)
  show ?thesis
  proof (cases "kept_claim b cs (t_ref t)")
    case None
    then have "active_for (t_ref t) cs = []" using wk t by (auto simp: kept_claim_def known_refs split: if_splits)
    with None show ?thesis by (simp add: cl active_fail)
  next
    case (Some k)
    have k_in: "k \<in> set (active_for (t_ref t) cs)" using kept_in [OF Some] by simp
    show ?thesis
    proof (cases "mismatched pm k t")
      case True
      with Some failed_known [OF wk t _ Some, of _ pm] show ?thesis
        by (auto simp: cl active_fail filter_empty_conv simp del: active_for_iff)
    next
      case False
      have "filter (\<lambda>c. c \<notin> set ?F) (active_for (t_ref t) cs) = [k]"
        using failed_known [OF wk t _ Some, of _ pm] False k_in
        by (intro filter_single distinct_active [OF wk]) auto
      with Some False show ?thesis by (simp add: cl active_fail)
    qed
  qed
qed

lemma backlog_after:
  "backlog_tasks (rp_backlog (reconcilePlan pm cs b)) =
     map (\<lambda>t. fst (repair_task pm (kept_claim b cs (t_ref t)) t)) (backlog_tasks b)"
  by (simp add: reconcilePlan_def Let_def backlog_tasks_def map_concat comp_def)

lemma repair_ref [simp]: "t_ref (fst (repair_task pm k t)) = t_ref t"
  by (auto simp: repair_task_def Let_def split: option.split)

lemma refs_after [simp]: "map t_ref (backlog_tasks (rp_backlog (reconcilePlan pm cs b))) = map t_ref (backlog_tasks b)"
  by (simp add: backlog_after)

lemma well_keyed_after: "well_keyed cs b \<Longrightarrow> well_keyed (rp_claims (reconcilePlan pm cs b)) (rp_backlog (reconcilePlan pm cs b))"
proof -
  assume wk: "well_keyed cs b"
  have "map c_run_id (rp_claims (reconcilePlan pm cs b)) = map c_run_id cs"
    by (auto simp: reconcilePlan_def Let_def fail_claims_def)
  moreover have "\<forall>t \<in> set (backlog_tasks (rp_backlog (reconcilePlan pm cs b))). t_ref t \<noteq> []"
    using wk by (auto simp: backlog_after well_keyed_def)
  ultimately show ?thesis using wk unfolding well_keyed_def refs_after by simp
qed

text \<open>Every active claim belongs to a known task, and no task has two.\<close>

definition settled :: "Claim list \<Rightarrow> Backlog \<Rightarrow> bool" where
  "settled cs b \<longleftrightarrow> well_keyed cs b \<and> (\<forall>ref. length (active_for ref cs) \<le> 1) \<and>
     (\<forall>c \<in> set cs. claim_active c \<longrightarrow> c_task_ref c \<in> set (map t_ref (backlog_tasks b)))"

text \<open>The status of a task agrees with its active claim; in a project a merged task may still have one.\<close>

definition task_fits :: "bool \<Rightarrow> Claim list \<Rightarrow> Task \<Rightarrow> bool" where
  "task_fits pm cs t \<longleftrightarrow>
     (case active_for (t_ref t) cs of
        [] \<Rightarrow> \<not> task_active (t_status t)
      | c # _ \<Rightarrow> t_status t = expectedTaskStatus c \<or> pm \<and> task_finished (t_status t))"

lemma orphans_fail:
  assumes "well_keyed cs b" "ref \<notin> set (map t_ref (backlog_tasks b))"
  shows "active_for ref (rp_claims (reconcilePlan pm cs b)) = []"
proof -
  have "c \<in> set (map fst (rp_failed (reconcilePlan pm cs b)))" if "c \<in> set (active_for ref cs)" for c
    using that assms by (auto simp: reconcilePlan_def Let_def orphan_claims_def known_refs image_Un image_image)
  moreover have "rp_claims (reconcilePlan pm cs b) = fail_claims (map fst (rp_failed (reconcilePlan pm cs b))) cs"
    by (simp add: reconcilePlan_def Let_def comp_def)
  ultimately show ?thesis by (simp add: active_fail filter_empty_conv)
qed

lemma settled_after:
  assumes wk: "well_keyed cs b"
  shows "settled (rp_claims (reconcilePlan pm cs b)) (rp_backlog (reconcilePlan pm cs b))"
  unfolding settled_def refs_after
proof (intro conjI allI ballI impI)
  fix ref
  show "length (active_for ref (rp_claims (reconcilePlan pm cs b))) \<le> 1"
  proof (cases "ref \<in> set (map t_ref (backlog_tasks b))")
    case True
    then obtain t where "t \<in> set (backlog_tasks b)" "ref = t_ref t" by auto
    with active_after [OF wk this(1), of pm] show ?thesis by (auto split: option.split)
  qed (simp add: orphans_fail [OF wk])
next
  fix c assume "c \<in> set (rp_claims (reconcilePlan pm cs b))" "claim_active c"
  then have "active_for (c_task_ref c) (rp_claims (reconcilePlan pm cs b)) \<noteq> []" by (auto simp: active_for_def filter_empty_conv)
  then show "c_task_ref c \<in> set (map t_ref (backlog_tasks b))" using orphans_fail [OF wk] by blast
qed (rule well_keyed_after [OF wk])

lemma fits_after:
  assumes wk: "well_keyed cs b" and t': "t' \<in> set (backlog_tasks (rp_backlog (reconcilePlan pm cs b)))"
  shows "task_fits pm (rp_claims (reconcilePlan pm cs b)) t' \<or>
    pm \<and> active_for (t_ref t') (rp_claims (reconcilePlan pm cs b)) = [] \<and> rp_failed (reconcilePlan pm cs b) \<noteq> []"
proof -
  from t' obtain t where t: "t \<in> set (backlog_tasks b)" "t' = fst (repair_task pm (kept_claim b cs (t_ref t)) t)"
    by (auto simp: backlog_after)
  then have ref: "t_ref t' = t_ref t" "t_ref t \<noteq> []" using wk by (auto simp: well_keyed_def)
  show ?thesis
  proof (cases "kept_claim b cs (t_ref t)")
    case None
    with t ref active_after [OF wk t(1), of pm] show ?thesis by (auto simp: task_fits_def repair_task_def)
  next
    case (Some k)
    have "k \<in> set (map fst (rp_failed (reconcilePlan pm cs b)))" if "mismatched pm k t"
      using failed_known [OF wk t(1) _ Some, of k pm] kept_in [OF Some] that by simp
    with Some t ref active_after [OF wk t(1), of pm] show ?thesis
      by (auto simp: task_fits_def repair_task_def mismatched_def Let_def)
  qed
qed

section \<open>A repaired state needs no repair\<close>

lemma settled_kept:
  assumes "settled cs b" "t \<in> set (backlog_tasks b)"
  shows "kept_claim b cs (t_ref t) = (case active_for (t_ref t) cs of [] \<Rightarrow> None | c # _ \<Rightarrow> Some c)"
proof -
  have "t_ref t \<in> set (knownTaskRefs b)" using assms known_refs [of cs b] by (auto simp: settled_def)
  moreover have "length (active_for (t_ref t) cs) \<le> 1" using assms(1) by (simp add: settled_def)
  ultimately show ?thesis
    by (cases "active_for (t_ref t) cs" rule: selectDuplicateClaimWinner.cases) (simp_all add: kept_claim_def)
qed

lemma no_failures:
  assumes s: "settled cs b" and fits: "\<And>t. t \<in> set (backlog_tasks b) \<Longrightarrow> active_for (t_ref t) cs \<noteq> [] \<Longrightarrow> task_fits pm cs t"
  shows "rp_failed (reconcilePlan pm cs b) = []"
proof -
  have wk: "well_keyed cs b" using s by (simp add: settled_def)
  have "orphan_claims b cs = []" using s known_refs [OF wk] by (auto simp: orphan_claims_def settled_def filter_empty_conv)
  moreover have "duplicate_claims b cs = []"
  proof (rule ccontr)
    assume "duplicate_claims b cs \<noteq> []"
    then obtain ref c where r: "ref \<in> set (claimed_refs b cs)" "c \<in> set (active_for ref cs)"
        "Some (c_run_id c) \<noteq> map_option c_run_id (kept_claim b cs ref)"
      by (auto simp: duplicate_claims_def filter_empty_conv)
    then obtain t where t: "t \<in> set (backlog_tasks b)" "ref = t_ref t"
      using known_refs [OF wk] by (auto simp: claimed_refs_def)
    have "length (active_for ref cs) \<le> 1" using s by (simp add: settled_def)
    with r(2) have "active_for ref cs = [c]" by (cases "active_for ref cs" rule: selectDuplicateClaimWinner.cases) auto
    with settled_kept [OF s t(1)] t(2) r(3) show False by simp
  qed
  moreover have "snd (snd (repair_task pm (kept_claim b cs (t_ref t)) t)) = None" if t: "t \<in> set (backlog_tasks b)" for t
  proof (rule ccontr)
    assume "snd (snd (repair_task pm (kept_claim b cs (t_ref t)) t)) \<noteq> None"
    then obtain c where c: "kept_claim b cs (t_ref t) = Some c" "mismatched pm c t" by (auto simp: repair_failed)
    then obtain rest where "active_for (t_ref t) cs = c # rest" using settled_kept [OF s t] by (auto split: list.splits)
    with fits [OF t] c(2) show False by (auto simp: task_fits_def mismatched_def)
  qed
  then have "List.map_filter (\<lambda>t. snd (snd (repair_task pm (kept_claim b cs (t_ref t)) t))) (backlog_tasks b) = []"
    by (simp add: List.map_filter_def filter_empty_conv)
  ultimately show ?thesis by (simp add: reconcilePlan_def Let_def)
qed

lemma no_changes:
  assumes s: "settled cs b" and fits: "\<And>t. t \<in> set (backlog_tasks b) \<Longrightarrow> task_fits pm cs t"
  shows "rp_changes (reconcilePlan pm cs b) = []"
proof -
  have "fst (snd (repair_task pm (kept_claim b cs (t_ref t)) t)) = None" if t: "t \<in> set (backlog_tasks b)" for t
    using fits [OF t] settled_kept [OF s t]
    by (auto simp: repair_task_def task_fits_def Let_def split: list.splits option.splits)
  then show ?thesis by (simp add: reconcilePlan_def Let_def List.map_filter_def filter_empty_conv)
qed

definition reconciled :: "bool \<Rightarrow> Claim list \<times> Backlog \<Rightarrow> Claim list \<times> Backlog" where
  "reconciled pm = (\<lambda>(cs, b). (rp_claims (reconcilePlan pm cs b), rp_backlog (reconcilePlan pm cs b)))"

definition idle_plan :: "reconcile_plan \<Rightarrow> bool" where
  "idle_plan p \<longleftrightarrow> rp_failed p = [] \<and> rp_changes p = []"

lemma first_pass:
  assumes "well_keyed cs b" "reconciled pm (cs, b) = (cs1, b1)"
  shows "settled cs1 b1" "rp_failed (reconcilePlan pm cs1 b1) = []"
    "\<not> pm \<or> rp_failed (reconcilePlan pm cs b) = [] \<Longrightarrow> t \<in> set (backlog_tasks b1) \<Longrightarrow> task_fits pm cs1 t"
proof -
  have p: "cs1 = rp_claims (reconcilePlan pm cs b)" "b1 = rp_backlog (reconcilePlan pm cs b)"
    using assms(2) by (simp_all add: reconciled_def)
  show s: "settled cs1 b1" unfolding p by (rule settled_after [OF assms(1)])
  show "rp_failed (reconcilePlan pm cs1 b1) = []"
    by (rule no_failures [OF s]) (use fits_after [OF assms(1), of _ pm] in \<open>auto simp: p\<close>)
  show "task_fits pm cs1 t" if "\<not> pm \<or> rp_failed (reconcilePlan pm cs b) = []" "t \<in> set (backlog_tasks b1)"
    using fits_after [OF assms(1) that(2) [unfolded p]] that(1) by (simp only: p) blast
qed

text \<open>
  C31. Reconciliation converges: a second pass fails no claim, a third pass finds nothing to repair,
  and in a directory without a task database a second pass already finds nothing.
\<close>

theorem reconcile_converges:
  assumes "well_keyed cs b"
  shows "rp_failed (case_prod (reconcilePlan pm) (reconciled pm (cs, b))) = [] \<and>
    idle_plan (case_prod (reconcilePlan pm) ((reconciled pm ^^ 2) (cs, b))) \<and>
    (\<not> pm \<longrightarrow> idle_plan (case_prod (reconcilePlan pm) (reconciled pm (cs, b))))"
proof -
  obtain cs1 b1 where p1: "reconciled pm (cs, b) = (cs1, b1)" by fastforce
  obtain cs2 b2 where p2: "reconciled pm (cs1, b1) = (cs2, b2)" by fastforce
  note one = first_pass [OF assms p1]
  have wk1: "well_keyed cs1 b1" using one(1) by (simp add: settled_def)
  note two = first_pass [OF wk1 p2]
  have "rp_changes (reconcilePlan pm cs2 b2) = []" using two one(2) by (intro no_changes) auto
  moreover have "rp_changes (reconcilePlan pm cs1 b1) = []" if "\<not> pm" using one that by (intro no_changes) auto
  ultimately show ?thesis using one(2) two(2) p1 p2 by (cases pm) (simp_all add: idle_plan_def numeral_2_eq_2)
qed

section \<open>Repair and diagnostics agree\<close>

lemma tasks_by_ref_in: "t \<in> set (tasks_by_ref b) \<Longrightarrow> t \<in> set (backlog_tasks b)"
proof -
  assume "t \<in> set (tasks_by_ref b)"
  then obtain ref where r: "ref \<in> t_ref ` set (backlog_tasks b)" "t = the (List.find (\<lambda>t. t_ref t = ref) (rev (backlog_tasks b)))"
    by (auto simp: tasks_by_ref_def)
  then have "List.find (\<lambda>t. t_ref t = ref) (rev (backlog_tasks b)) \<noteq> None" by (auto simp: find_None_iff_set)
  with r(2) show ?thesis using find_in_set by fastforce
qed

text \<open>The issues that reconciliation is meant to repair.\<close>

definition repairable :: "issue_code list" where
  "repairable = [duplicate_active_claims, unknown_active_task_ref, task_status_missing_active_claim, task_status_claim_mismatch]"

lemma issue_code [simp]: "li_code (issue c m h) = c"
  by (simp add: issue_def)

lemma task_issue_finished:
  assumes "settled cs b" "task_fits pm cs t" "i \<in> set (task_issues cs t)"
  shows "pm \<and> task_finished (t_status t) \<and> li_code i = task_status_claim_mismatch"
proof -
  have "length (active_for (t_ref t) cs) \<le> 1" using assms(1) by (simp add: settled_def)
  then show ?thesis using assms(2,3)
    by (cases "active_for (t_ref t) cs" rule: selectDuplicateClaimWinner.cases)
      (auto simp: task_issues_def task_fits_def split: if_splits)
qed

lemma settled_issues:
  assumes s: "settled cs b" and fits: "\<And>t. t \<in> set (backlog_tasks b) \<Longrightarrow> task_fits pm cs t"
    and i: "i \<in> set (claim_issues b agentIds cs)" "li_code i \<in> set repairable"
  shows "pm \<and> (\<exists>t \<in> set (backlog_tasks b). task_finished (t_status t) \<and> active_for (t_ref t) cs \<noteq> [] \<and> i \<in> set (task_issues cs t))"
proof -
  have d: "duplicate_task_issues cs ref = []" for ref
    using s by (auto simp: duplicate_task_issues_def settled_def split: option.split)
  have "i \<notin> set (reference_issues b agentIds c)" if "c \<in> set cs" "claim_active c" for c
    using s that i(2) by (auto simp: reference_issues_def settled_def repairable_def)
  moreover have "i \<notin> set (duplicate_agent_issues cs a)" for a
    using i(2) by (auto simp: duplicate_agent_issues_def repairable_def Let_def)
  moreover have "i \<notin> set (finalization_issues c)" for c
    using i(2) by (auto simp: finalization_issues_def repairable_def Let_def split: option.splits if_splits)
  ultimately obtain t where t: "t \<in> set (tasks_by_ref b)" "i \<in> set (task_issues cs t)"
    using i(1) by (auto simp: claim_issues_def Let_def d)
  have tb: "t \<in> set (backlog_tasks b)" using tasks_by_ref_in [OF t(1)] .
  from task_issue_finished [OF s fits [OF tb] t(2)] have f: "pm" "task_finished (t_status t)" by auto
  moreover have "active_for (t_ref t) cs \<noteq> []"
    using t(2) f(2) by (auto simp: task_issues_def task_active_iff task_finished_iff split: if_splits)
  ultimately show ?thesis using tb t(2) by blast
qed


section \<open>Evaluation on concrete claims\<close>

text \<open>A task in progress whose claim is only claimed: one pass fails the claim, the next requeues the task.\<close>

definition running_task :: Task where
  "running_task = legacy_task\<lparr>t_status := TS_in_progress\<rparr>"

definition running_backlog :: Backlog where
  "running_backlog = [\<lparr>f_ref = ''f'', f_title = ''f'', f_tasks = [running_task]\<rparr>]"

lemma running_task_sel: "t_ref running_task = ''f/a''" "t_status running_task = TS_in_progress"
  by (simp_all add: running_task_def legacy_task_def projectTaskToBacklogTask_def toTask_def new_task_row_def Let_def)

lemma claim1_sel: "c_task_ref claim1 = ''f/a''" "c_run_id claim1 = ''run-1''" "c_state claim1 = CS_claimed"
  by (simp_all add: claim0_run_def)

lemma running_well_keyed: "well_keyed [claim1] running_backlog"
  by (simp add: well_keyed_def running_backlog_def backlog_tasks_def running_task_sel)

lemma running_first:
  "reconciled True ([claim1], running_backlog) = ([claim1\<lparr>c_state := CS_failed\<rparr>], running_backlog)"
  by (simp add: reconciled_def reconcilePlan_def Let_def running_backlog_def backlog_tasks_def kept_claim_def knownTaskRefs_def active_for_def
      running_task_sel claim1_sel claim_active_def repair_task_def expectedTaskStatus_def List.map_filter_simps orphan_claims_def
      duplicate_claims_def claimed_refs_def js_set_def fail_claims_def del: claim0_run_def)

theorem reconcile_converges_witness:
  "rp_failed (case_prod (reconcilePlan True) (reconciled True ([claim1], running_backlog))) = [] \<and>
   reconciled True ([claim1], running_backlog) = ([claim1\<lparr>c_state := CS_failed\<rparr>], running_backlog)"
  using reconcile_converges [OF running_well_keyed, of True] running_first by simp

theorem first_pass_may_leave_issue:
  "task_issues (fst (reconciled True ([claim1], running_backlog))) running_task \<noteq> []"
  unfolding running_first by (simp add: task_issues_def active_for_def claim_active_def running_task_sel)

text \<open>A merged task whose run has not finished yet: left alone, and reported.\<close>

definition merged_backlog :: Backlog where
  "merged_backlog = [\<lparr>f_ref = ''f'', f_title = ''f'', f_tasks = [running_task\<lparr>t_status := TS_done\<rparr>]\<rparr>]"

abbreviation claim2 :: Claim where
  "claim2 \<equiv> claim0_run ''run-1'' ''f/a'' CS_in_progress"

lemma claim2_sel: "c_task_ref claim2 = ''f/a''" "c_run_id claim2 = ''run-1''" "c_state claim2 = CS_in_progress"
  by (simp_all add: claim0_run_def)

lemma merged_twice: "(reconciled True ^^ (if True then 2 else 1)) ([claim2], merged_backlog) = ([claim2], merged_backlog)"
proof -
  have "reconciled True ([claim2], merged_backlog) = ([claim2], merged_backlog)"
    by (simp add: reconciled_def reconcilePlan_def Let_def merged_backlog_def backlog_tasks_def kept_claim_def knownTaskRefs_def active_for_def
      running_task_sel claim2_sel claim_active_def repair_task_def expectedTaskStatus_def List.map_filter_simps orphan_claims_def
      duplicate_claims_def claimed_refs_def js_set_def fail_claims_def)
      (auto simp: claim2_sel)
  then show ?thesis by (simp add: numeral_2_eq_2)
qed


end
