(* ===== verification/Run_Activity.thy ===== *)
theory Run_Activity
  imports Lifecycle "HOL-Library.AList"
begin

text \<open>
  The activity of runs: the scans of \<^verbatim>\<open>lib/runActivity.ts\<close> over the event log, the coordinator's memory of
  what it has observed (\<^verbatim>\<open>observeRunActivity\<close>), and the remediation policies of
  \<^verbatim>\<open>lib/remediationPolicies.ts\<close>, which choose what to do about an idle run. The coordinator observes the
  log batch by batch; the theory shows that this gives what a scan of the whole log gives.
\<close>

section \<open>Run activity (runActivity.ts)\<close>

definition RUN_ACTIVITY_EVENTS :: "string list" where
  "RUN_ACTIVITY_EVENTS =
     [''run_started'', ''heartbeat'', ''work_complete'', ''finalize_rebase_started'', ''ready_to_merge'', ''phase_started'',
      ''phase_finished'', ''blocked'', ''need_input'', ''input_requested'', ''input_provided'', ''unblocked'']"

record RunActivityDetail =
  rad_ts :: timestamp
  rad_event :: string
  rad_source :: string

definition claimedRunStartupAnchor :: "Claim option \<Rightarrow> timestamp option" where
  "claimedRunStartupAnchor claim = (case claim of None \<Rightarrow> None | Some c \<Rightarrow> c_task_envelope_sent_at c)"

text \<open>The latest value of each run, the first on a tie; a \<^verbatim>\<open>Map\<close> keeps the order of first insertion.\<close>

definition run_map_step ::
  "(OrcEvent \<Rightarrow> bool) \<Rightarrow> (OrcEvent \<Rightarrow> 'v) \<Rightarrow> OrcEvent \<Rightarrow> (string \<times> 'v \<times> timestamp) list \<Rightarrow> (string \<times> 'v \<times> timestamp) list" where
  "run_map_step keep extract ev interim =
     (if falsy (ev_run_id ev) \<or> \<not> ts_truthy (Some (ev_ts ev)) \<or> \<not> keep ev then interim
      else case map_of interim (the (ev_run_id ev)) of
        Some (_, prev) \<Rightarrow> if date_gt (ev_ts ev) prev then AList.update (the (ev_run_id ev)) (extract ev, ev_ts ev) interim else interim
      | None \<Rightarrow> AList.update (the (ev_run_id ev)) (extract ev, ev_ts ev) interim)"

definition buildRunMap :: "(OrcEvent \<Rightarrow> bool) \<Rightarrow> (OrcEvent \<Rightarrow> 'v) \<Rightarrow> OrcEvent list \<Rightarrow> (string \<times> 'v) list" where
  "buildRunMap keep extract evs = map (\<lambda>(r, v, _). (r, v)) (fold (run_map_step keep extract) evs [])"

definition is_run_activity :: "OrcEvent \<Rightarrow> bool" where
  "is_run_activity ev \<longleftrightarrow> ev_event ev \<in> set RUN_ACTIVITY_EVENTS \<and> ev_actor_type ev \<noteq> ''coordinator'' \<and> ev_actor_type ev \<noteq> ''human''"

definition latestRunActivityMap :: "OrcEvent list \<Rightarrow> (string \<times> timestamp) list" where
  "latestRunActivityMap evs = buildRunMap is_run_activity ev_ts evs"

definition latestRunActivityDetailMap :: "OrcEvent list \<Rightarrow> (string \<times> RunActivityDetail) list" where
  "latestRunActivityDetailMap evs =
     buildRunMap is_run_activity
       (\<lambda>ev. \<lparr>rad_ts = ev_ts ev, rad_event = ev_event ev,
              rad_source = or_default (payload_text (ev_payload ev) ''source'') (ev_event ev)\<rparr>) evs"

definition event_phase :: "OrcEvent \<Rightarrow> string option" where
  "event_phase ev = nonempty (coalesce (ev_phase ev) (payload_text (ev_payload ev) ''phase''))"

definition is_phase_start :: "OrcEvent \<Rightarrow> bool" where
  "is_phase_start ev \<longleftrightarrow> ev_event ev = ''phase_started'' \<and> event_phase ev \<noteq> None"

definition latestRunPhaseMap :: "OrcEvent list \<Rightarrow> (string \<times> string) list" where
  "latestRunPhaseMap evs = buildRunMap is_phase_start (\<lambda>ev. the (event_phase ev)) evs"

definition runIdleMs :: "Claim option \<Rightarrow> timestamp option \<Rightarrow> int \<Rightarrow> int option" where
  "runIdleMs claim latestActivityTs nowMs =
     (let field = (\<lambda>f. case claim of None \<Rightarrow> None | Some c \<Rightarrow> f c);
          anchor = coalesce latestActivityTs (coalesce (field c_last_heartbeat_at)
                     (coalesce (field c_started_at) (claimedRunStartupAnchor claim))) in
      if \<not> ts_truthy anchor then None
      else case getTime (the anchor) of None \<Rightarrow> None | Some t \<Rightarrow> Some (max 0 (nowMs - t)))"

section \<open>What the coordinator remembers (coordinator.ts)\<close>

record activity_memory =
  am_activity :: "string \<Rightarrow> timestamp option"
  am_phase :: "string \<Rightarrow> string option"
  am_phaseAt :: "string \<Rightarrow> timestamp option"

definition observe_activity :: "string \<times> timestamp \<Rightarrow> activity_memory \<Rightarrow> activity_memory" where
  "observe_activity entry m =
     (if \<not> ts_truthy (am_activity m (fst entry)) \<or> date_gt (snd entry) (the (am_activity m (fst entry)))
      then m\<lparr>am_activity := (am_activity m)(fst entry \<mapsto> snd entry)\<rparr> else m)"

definition observe_phase :: "OrcEvent \<Rightarrow> activity_memory \<Rightarrow> activity_memory" where
  "observe_phase ev m =
     (if ev_event ev \<noteq> ''phase_started'' \<or> falsy (ev_run_id ev) then m
      else case event_phase ev of
        None \<Rightarrow> m
      | Some phase \<Rightarrow>
          (let run = the (ev_run_id ev) in
           if \<not> ts_truthy (am_phaseAt m run) \<or> date_gt (ev_ts ev) (the (am_phaseAt m run))
           then m\<lparr>am_phaseAt := (am_phaseAt m)(run \<mapsto> ev_ts ev), am_phase := (am_phase m)(run \<mapsto> phase)\<rparr> else m))"

definition observeRunActivity :: "OrcEvent list \<Rightarrow> activity_memory \<Rightarrow> activity_memory" where
  "observeRunActivity evs m = fold observe_phase evs (fold observe_activity (latestRunActivityMap evs) m)"

section \<open>Remediation policies (remediationPolicies.ts)\<close>

datatype RemediationAction = record_input | nudge_targeted | requeue_now | block

record RemediationSignals =
  rs_idleMs :: int
  rs_phase :: "string option"
  rs_phaseChanged :: bool
  rs_hookEvents :: "string option list"
  rs_blockingPrompt :: "string option"
  rs_sessionAlive :: bool
  rs_attemptCount :: int
  rs_nudgeCount :: int

record RemediationPolicy =
  pol_id :: string
  pol_match :: "RemediationSignals \<Rightarrow> bool result"
  pol_action :: RemediationAction
  pol_message :: "RemediationSignals \<Rightarrow> string"

record RemediationConfig =
  rc_maxAttempts :: int
  rc_phaseStuckMs :: int
  rc_maxNudges :: int

text \<open>\<^verbatim>\<open>Math.round\<close> of a quotient: the nearest integer, a half upwards.\<close>

definition round_div :: "int \<Rightarrow> int \<Rightarrow> int" where
  "round_div a b = (2 * a + b) div (2 * b)"

definition prompt_message :: "RemediationSignals \<Rightarrow> string" where
  "prompt_message s =
     or_default (coalesce (rs_blockingPrompt s) (case rs_hookEvents s of [] \<Rightarrow> None | m # _ \<Rightarrow> m)) ''permission prompt detected''"

definition stuck_message :: "RemediationSignals \<Rightarrow> string" where
  "stuck_message s =
     (if truthy (rs_phase s)
      then ''No progress in phase '' @ quoted (the (rs_phase s)) @ '' for '' @ show_int (round_div (rs_idleMs s) 1000) @
             ''s. Check if you are blocked and need help.''
      else ''No progress detected for '' @ show_int (round_div (rs_idleMs s) 1000) @ ''s. Have you started exploring the task spec?'')"

definition builtinPolicies :: "RemediationConfig \<Rightarrow> RemediationPolicy list" where
  "builtinPolicies config =
     [\<lparr>pol_id = ''session_dead'', pol_match = (\<lambda>s. Inr (\<not> rs_sessionAlive s)), pol_action = requeue_now,
       pol_message = (\<lambda>_. ''worker PTY session is dead; requeueing task'')\<rparr>,
      \<lparr>pol_id = ''permission_prompt'', pol_match = (\<lambda>s. Inr (rs_blockingPrompt s \<noteq> None \<or> rs_hookEvents s \<noteq> [])),
       pol_action = record_input, pol_message = prompt_message\<rparr>,
      \<lparr>pol_id = ''repeated_failure'', pol_match = (\<lambda>s. Inr (rs_nudgeCount s > 0 \<and> rs_attemptCount s \<ge> rc_maxAttempts config)),
       pol_action = block, pol_message = (\<lambda>s. ''task blocked after '' @ show_int (rs_attemptCount s) @ '' failed attempts'')\<rparr>,
      \<lparr>pol_id = ''phase_stuck'',
       pol_match = (\<lambda>s. Inr (rs_nudgeCount s > 0 \<and> rs_nudgeCount s < rc_maxNudges config \<and> \<not> rs_phaseChanged s \<and>
                            rs_idleMs s \<ge> rc_phaseStuckMs config)),
       pol_action = nudge_targeted, pol_message = stuck_message\<rparr>,
      \<lparr>pol_id = ''excessive_nudges'', pol_match = (\<lambda>s. Inr (rs_nudgeCount s \<ge> rc_maxNudges config \<and> \<not> rs_phaseChanged s)),
       pol_action = requeue_now, pol_message = (\<lambda>s. ''no progress after '' @ show_int (rs_nudgeCount s) @ '' nudges; requeueing task'')\<rparr>]"

text \<open>A policy whose match throws is skipped.\<close>

fun evaluateRemediationPolicies ::
  "RemediationPolicy list \<Rightarrow> RemediationSignals \<Rightarrow> (RemediationPolicy \<times> string) option" where
  "evaluateRemediationPolicies [] s = None"
| "evaluateRemediationPolicies (p # ps) s =
     (if pol_match p s = Inr True then Some (p, pol_message p s) else evaluateRemediationPolicies ps s)"


section \<open>Observing in batches\<close>

text \<open>The later of a remembered time and a new one, the remembered one on a tie.\<close>

definition later :: "timestamp \<Rightarrow> timestamp option \<Rightarrow> timestamp option" where
  "later t prev = (case prev of None \<Rightarrow> Some t | Some p \<Rightarrow> if date_gt t p then Some t else Some p)"

lemma later_None [simp]: "later t None = Some t"
  by (simp add: later_def)

lemma later_Some: "later t (Some p) = (if date_gt t p then Some t else Some p)"
  by (simp add: later_def)

definition relevant :: "(OrcEvent \<Rightarrow> bool) \<Rightarrow> string \<Rightarrow> OrcEvent \<Rightarrow> bool" where
  "relevant keep r ev \<longleftrightarrow> ev_run_id ev = Some r \<and> r \<noteq> [] \<and> ts_truthy (Some (ev_ts ev)) \<and> keep ev"

lemma run_map_step_at:
  "map_option snd (map_of (run_map_step keep ex ev al) r) =
     (if relevant keep r ev then later (ev_ts ev) (map_option snd (map_of al r)) else map_option snd (map_of al r))"
  by (auto simp: run_map_step_def relevant_def later_def update_conv truthy_iff split: option.splits if_splits)

lemma run_map_at:
  "map_option snd (map_of (fold (run_map_step keep ex) evs al) r) =
     fold later (map ev_ts (filter (relevant keep r) evs)) (map_option snd (map_of al r))"
  by (induction evs arbitrary: al) (simp_all add: run_map_step_at)

lemma run_map_keys: "distinct (map fst al) \<Longrightarrow> distinct (map fst (fold (run_map_step keep ex) evs al))"
  by (induction evs arbitrary: al) (auto simp: run_map_step_def distinct_update split: option.splits)

lemma buildRunMap_at: "map_of (buildRunMap keep ex evs) r = map_option fst (map_of (fold (run_map_step keep ex) evs []) r)"
proof -
  have "map_of (map (\<lambda>(r, v, _). (r, v)) al) r = map_option fst (map_of al r)" for al :: "(string \<times> 'a \<times> timestamp) list"
    by (induction al) auto
  then show ?thesis by (simp add: buildRunMap_def)
qed

lemma run_map_step_value:
  assumes "\<And>v t. map_of al r = Some (v, t) \<Longrightarrow> v = t" and "map_of (run_map_step keep ev_ts ev al) r = Some (v, t)"
  shows "v = t"
  using assms by (auto simp: run_map_step_def update_conv split: option.splits if_splits)

lemma run_map_value:
  assumes "\<And>v t. map_of al r = Some (v, t) \<Longrightarrow> v = t" and "map_of (fold (run_map_step keep ev_ts) evs al) r = Some (v, t)"
  shows "v = t"
  using assms
proof (induction evs arbitrary: al)
  case (Cons ev evs)
  show ?case using Cons.prems(2) run_map_step_value [OF Cons.prems(1)] by (intro Cons.IH) auto
qed simp

lemma latestRunActivityMap_at:
  "map_of (latestRunActivityMap evs) r = fold later (map ev_ts (filter (relevant is_run_activity r) evs)) None"
proof -
  let ?al = "fold (run_map_step is_run_activity ev_ts) evs []"
  have "map_option fst (map_of ?al r) = map_option snd (map_of ?al r)"
    using run_map_value [of "[]" r is_run_activity evs] by (cases "map_of ?al r") auto
  then show ?thesis using run_map_at [of is_run_activity ev_ts evs "[]" r]
    by (simp add: latestRunActivityMap_def buildRunMap_at)
qed

lemma latestRunActivityMap_keys: "distinct (map fst (latestRunActivityMap evs))"
proof -
  have "map fst (latestRunActivityMap evs) = map fst (fold (run_map_step is_run_activity ev_ts) evs [])"
    by (auto simp: latestRunActivityMap_def buildRunMap_def)
  then show ?thesis using run_map_keys [of "[]"] by simp
qed

lemma ts_finite_iff: "ts_finite t \<longleftrightarrow> (\<exists>ms. t = Ts ms)"
  by (cases t) (simp_all add: ts_finite_def)

lemma ts_finite_truthy: "ts_finite t \<Longrightarrow> ts_truthy (Some t)"
  by (auto simp: ts_finite_iff)

lemma observe_activity_at:
  assumes "ts_finite (snd en)" "pred_option ts_finite (am_activity m r)"
  shows "am_activity (observe_activity en m) r = (if fst en = r then later (snd en) (am_activity m r) else am_activity m r)"
proof -
  from assms(1) obtain n where n: "snd en = Ts n" by (auto simp: ts_finite_iff)
  show ?thesis
  proof (cases "am_activity m r")
    case None
    then show ?thesis by (simp add: observe_activity_def)
  next
    case (Some t)
    then obtain p where "am_activity m r = Some (Ts p)" using assms(2) by (auto simp: ts_finite_iff)
    then show ?thesis by (simp add: observe_activity_def later_def n)
  qed
qed

lemma later_finite: "ts_finite t \<Longrightarrow> pred_option ts_finite prev \<Longrightarrow> pred_option ts_finite (later t prev)"
  by (cases prev) (auto simp: later_def)

lemma fold_later_finite:
  "\<forall>t \<in> set ts. ts_finite t \<Longrightarrow> pred_option ts_finite prev \<Longrightarrow> pred_option ts_finite (fold later ts prev)"
  by (induction ts arbitrary: prev) (auto intro: later_finite)

lemma later_later:
  assumes "ts_finite t" "ts_finite u" "pred_option ts_finite prev"
  shows "later t (later u prev) = (case later t (Some u) of None \<Rightarrow> prev | Some v \<Rightarrow> later v prev)"
  using assms by (cases t; cases u; cases prev) (auto simp: later_def ts_finite_iff)

lemma fold_later_later:
  assumes "\<forall>t \<in> set ts. ts_finite t" "pred_option ts_finite prev"
  shows "fold later ts prev = (case fold later ts None of None \<Rightarrow> prev | Some t \<Rightarrow> later t prev)"
  using assms(1)
proof (induction ts rule: rev_induct)
  case (snoc t ts)
  have fin: "pred_option ts_finite (fold later ts None)" using snoc.prems by (intro fold_later_finite) auto
  show ?case
  proof (cases "fold later ts None")
    case (Some u)
    then show ?thesis using snoc fin assms(2) by (auto simp: later_later)
  qed (use snoc in auto)
qed simp


lemma observe_activity_fold:
  assumes "distinct (map fst es)" "\<forall>e \<in> set es. ts_finite (snd e)" "pred_option ts_finite (am_activity m r)"
  shows "am_activity (fold observe_activity es m) r = (case map_of es r of None \<Rightarrow> am_activity m r | Some t \<Rightarrow> later t (am_activity m r))"
  using assms
proof (induction es arbitrary: m)
  case (Cons en es)
  have at: "am_activity (observe_activity en m) r = (if fst en = r then later (snd en) (am_activity m r) else am_activity m r)"
    using Cons.prems by (intro observe_activity_at) auto
  have fin: "pred_option ts_finite (am_activity (observe_activity en m) r)"
    using Cons.prems later_finite [of "snd en" "am_activity m r"] by (simp add: at)
  have "map_of es r = None" if "fst en = r" using Cons.prems(1) that by (auto simp: map_of_eq_None_iff)
  then show ?case using Cons.IH [OF _ _ fin] Cons.prems at by (auto split: option.splits)
qed simp

lemma observe_phase_activity [simp]: "am_activity (fold observe_phase evs m) = am_activity m"
  by (induction evs arbitrary: m) (auto simp: observe_phase_def Let_def split: option.splits)

lemma later_in: "\<forall>p \<in> set_option (fold later ts prev). p \<in> set ts \<or> prev = Some p"
  by (induction ts arbitrary: prev) (fastforce simp: later_def split: option.splits if_splits)+

definition activity_times :: "string \<Rightarrow> OrcEvent list \<Rightarrow> timestamp list" where
  "activity_times r evs = map ev_ts (filter (relevant is_run_activity r) evs)"

lemma observeRunActivity_at:
  assumes "\<forall>ev \<in> set evs. ts_finite (ev_ts ev)" "pred_option ts_finite (am_activity m r)"
  shows "am_activity (observeRunActivity evs m) r = fold later (activity_times r evs) (am_activity m r)"
proof -
  have ts: "\<forall>t \<in> set (activity_times q evs). ts_finite t" for q using assms(1) by (auto simp: activity_times_def)
  have "ts_finite t" if "(q, t) \<in> set (latestRunActivityMap evs)" for q t
  proof -
    have "fold later (activity_times q evs) None = Some t"
      using map_of_is_SomeI [OF latestRunActivityMap_keys that] by (simp add: activity_times_def latestRunActivityMap_at)
    then show ?thesis using fold_later_finite [OF ts, of None q] by simp
  qed
  then have "am_activity (observeRunActivity evs m) r = (case map_of (latestRunActivityMap evs) r of None \<Rightarrow> am_activity m r
      | Some t \<Rightarrow> later t (am_activity m r))"
    using assms(2) latestRunActivityMap_keys by (auto simp: observeRunActivity_def intro!: observe_activity_fold)
  then show ?thesis using fold_later_later [OF ts assms(2)] latestRunActivityMap_at by (simp add: activity_times_def)
qed

lemma observe_batches_at:
  assumes "\<forall>ev \<in> set (concat batches). ts_finite (ev_ts ev)" "pred_option ts_finite (am_activity m r)"
  shows "am_activity (fold observeRunActivity batches m) r = fold later (activity_times r (concat batches)) (am_activity m r)"
  using assms
proof (induction batches arbitrary: m)
  case (Cons evs batches)
  have at: "am_activity (observeRunActivity evs m) r = fold later (activity_times r evs) (am_activity m r)"
    using Cons.prems by (intro observeRunActivity_at) auto
  have "pred_option ts_finite (fold later (activity_times r evs) (am_activity m r))"
    using Cons.prems by (intro fold_later_finite) (auto simp: activity_times_def)
  then show ?case using Cons.IH [of "observeRunActivity evs m"] Cons.prems(1) at by (simp add: activity_times_def)
qed (simp add: activity_times_def)

lemma date_gt_antitone: "\<not> date_gt x y \<Longrightarrow> date_gt z y \<Longrightarrow> \<not> date_gt x z"
  by (cases x; cases y; cases z) simp_all

lemma later_is_max: "t \<in> set ts \<Longrightarrow> \<exists>p. fold later ts None = Some p \<and> \<not> date_gt t p"
proof (induction ts rule: rev_induct)
  case (snoc u ts)
  have irrefl: "\<not> date_gt u u" by (cases u) simp_all
  show ?case
  proof (cases "fold later ts None")
    case None
    then show ?thesis using snoc irrefl by auto
  next
    case (Some p)
    show ?thesis
    proof (cases "t \<in> set ts")
      case True
      then have "\<not> date_gt t p" using snoc.IH Some by simp
      then show ?thesis using Some date_gt_antitone [of t p u] by (simp add: later_Some)
    next
      case False
      then show ?thesis using snoc.prems Some irrefl by (simp add: later_Some)
    qed
  qed
qed simp

definition no_activity :: activity_memory where
  "no_activity = \<lparr>am_activity = (\<lambda>_. None), am_phase = (\<lambda>_. None), am_phaseAt = (\<lambda>_. None)\<rparr>"

text \<open>
  The coordinator never mistakes a working run for an idle one. It observes the log in batches, as they
  arrive; however the log is cut into batches, what it remembers of each run is what one scan of the
  whole log gives, and for a run with activity that is the time of one of its activity events, and none
  of them is later.
\<close>

theorem observed_activity_is_latest:
  assumes "\<forall>ev \<in> set (concat batches). ts_finite (ev_ts ev)"
  shows "am_activity (fold observeRunActivity batches no_activity) r = map_of (latestRunActivityMap (concat batches)) r \<and>
    (\<forall>ev \<in> set (concat batches). ev_run_id ev = Some r \<and> r \<noteq> [] \<and> is_run_activity ev \<longrightarrow>
      (\<exists>t. am_activity (fold observeRunActivity batches no_activity) r = Some t \<and> \<not> date_gt (ev_ts ev) t \<and>
         (\<exists>ev' \<in> set (concat batches). ev_run_id ev' = Some r \<and> is_run_activity ev' \<and> ev_ts ev' = t)))"
proof -
  let ?ts = "activity_times r (concat batches)"
  have at: "am_activity (fold observeRunActivity batches no_activity) r = fold later ?ts None"
    using observe_batches_at [of batches no_activity r] assms by (simp add: no_activity_def)
  have "\<exists>t. fold later ?ts None = Some t \<and> t \<in> set ?ts \<and> \<not> date_gt (ev_ts ev) t"
    if "ev \<in> set (concat batches)" "ev_run_id ev = Some r" "r \<noteq> []" "is_run_activity ev" for ev
  proof -
    have "ev_ts ev \<in> set ?ts"
      using that assms ts_finite_truthy by (auto simp: activity_times_def relevant_def intro!: image_eqI [of _ _ ev])
    then show ?thesis using later_is_max later_in [of ?ts None] by fastforce
  qed
  then show ?thesis unfolding at latestRunActivityMap_at activity_times_def [symmetric]
    by (fastforce simp: activity_times_def relevant_def)
qed

text \<open>A run starts and reports from two batches; the second report is the older one.\<close>

definition activity_event :: "string \<Rightarrow> int \<Rightarrow> OrcEvent" where
  "activity_event name ms = mk_event (Ts ms) name ''agent'' ''w'' (Some ''run-1'') (Some ''f/a'') (Some ''w'') None"

theorem observed_activity_is_latest_witness:
  "am_activity (fold observeRunActivity [[activity_event ''run_started'' 1000, activity_event ''heartbeat'' 5000],
     [activity_event ''phase_started'' 4000]] no_activity) ''run-1'' = Some (Ts 5000)"
proof -
  have "\<forall>ev \<in> set (concat [[activity_event ''run_started'' 1000, activity_event ''heartbeat'' 5000],
      [activity_event ''phase_started'' 4000]]). ts_finite (ev_ts ev)"
    by (simp add: activity_event_def mk_event_def ts_finite_def)
  from observed_activity_is_latest [OF this, of "''run-1''"]
  have "am_activity (fold observeRunActivity [[activity_event ''run_started'' 1000, activity_event ''heartbeat'' 5000],
      [activity_event ''phase_started'' 4000]] no_activity) ''run-1'' =
    map_of (latestRunActivityMap (concat [[activity_event ''run_started'' 1000, activity_event ''heartbeat'' 5000],
      [activity_event ''phase_started'' 4000]])) ''run-1''" by blast
  also have "\<dots> = Some (Ts 5000)" by code_simp
  finally show ?thesis .
qed

end
