(* ===== verification/Supervision.thy ===== *)
theory Supervision
  imports Finalization Run_Activity Scheduler
begin

text \<open>
  The supervision passes of the coordinator's tick (\<^verbatim>\<open>coordinator.ts\<close>): agents without a heartbeat are marked
  dead, expired leases and dead sessions release their runs, a run that does not start is nudged and
  then requeued, and a run that stops making progress goes through the remediation policies, the
  staleness cascade and the nudges. A pass walks over a snapshot of claims and agents; what throws
  inside it ends the pass and the tick, except in the nudges, which are collected and sent at the end.
\<close>

section \<open>What the coordinator remembers between ticks\<close>

text \<open>
  The maps of nudge times and counts. The files of hook events that sessions write are part of the
  state, since reading them deletes them.
\<close>

record supervisor =
  sv_co :: coord_state
  sv_runStartNudge :: "string \<Rightarrow> int option"
  sv_inactiveNudge :: "string \<Rightarrow> int option"
  sv_nudgeCount :: "string \<Rightarrow> int option"
  sv_lastPhase :: "string \<Rightarrow> string option"
  sv_hooks :: "string \<Rightarrow> string option list"

type_synonym 'a sup = "(supervisor, 'a) step"

text \<open>A nudge is a closure that is run after the pass; it returns the agent it nudged.\<close>

type_synonym thunk = "string sup"

record SupervisionConfig =
  sc_run_start_timeout_ms :: int
  sc_run_inactive_nudge_ms :: int
  sc_run_inactive_nudge_interval_ms :: int
  sc_worker_stale_soft_ms :: int
  sc_worker_stale_nudge_ms :: int
  sc_worker_stale_force_fail_ms :: int
  sc_remediation :: RemediationConfig
  sc_coordinator :: CoordinatorConfig

definition RUN_START_NUDGE_MS :: "SupervisionConfig \<Rightarrow> int" where
  "RUN_START_NUDGE_MS cfg = sc_run_start_timeout_ms cfg div 10"

definition RUN_START_NUDGE_INTERVAL_MS :: "SupervisionConfig \<Rightarrow> int" where
  "RUN_START_NUDGE_INTERVAL_MS cfg = sc_run_start_timeout_ms cfg div 5"

definition AGENT_DEAD_TTL_MS :: int where "AGENT_DEAD_TTL_MS = 2 * 60 * 60 * 1000"

definition on_co :: "'a coord \<Rightarrow> 'a sup" where
  "on_co m s = (let (r, c) = m (sv_co s) in (r, s\<lparr>sv_co := c\<rparr>))"

definition on_dir :: "(orc_state \<Rightarrow> 'a outcome) \<Rightarrow> 'a sup" where
  "on_dir f = on_co (on_st f)"

definition forget_start :: "string \<Rightarrow> unit sup" where
  "forget_start run s = (Inr (), s\<lparr>sv_runStartNudge := (sv_runStartNudge s)(run := None)\<rparr>)"

definition note_start :: "string \<Rightarrow> int \<Rightarrow> unit sup" where
  "note_start run ms s = (Inr (), s\<lparr>sv_runStartNudge := (sv_runStartNudge s)(run \<mapsto> ms)\<rparr>)"

definition forget_inactive :: "string \<Rightarrow> unit sup" where
  "forget_inactive run s = (Inr (), s\<lparr>sv_inactiveNudge := (sv_inactiveNudge s)(run := None)\<rparr>)"

definition note_inactive :: "string \<Rightarrow> int \<Rightarrow> unit sup" where
  "note_inactive run ms s = (Inr (), s\<lparr>sv_inactiveNudge := (sv_inactiveNudge s)(run \<mapsto> ms)\<rparr>)"

definition nudge_count :: "string \<Rightarrow> supervisor \<Rightarrow> int" where
  "nudge_count run s = or_default (sv_nudgeCount s run) 0"

definition count_nudge :: "string \<Rightarrow> unit sup" where
  "count_nudge run s = (Inr (), s\<lparr>sv_nudgeCount := (sv_nudgeCount s)(run \<mapsto> nudge_count run s + 1)\<rparr>)"

definition forget_run :: "string \<Rightarrow> unit sup" where
  "forget_run run s = (Inr (), s\<lparr>sv_inactiveNudge := (sv_inactiveNudge s)(run := None),
     sv_nudgeCount := (sv_nudgeCount s)(run := None), sv_lastPhase := (sv_lastPhase s)(run := None)\<rparr>)"

definition consumeHookEvents :: "string \<Rightarrow> string option list sup" where
  "consumeHookEvents agentId s = (Inr (sv_hooks s agentId), s\<lparr>sv_hooks := (sv_hooks s)(agentId := [])\<rparr>)"

text \<open>A loop whose body may throw and may add nudges.\<close>

fun gather :: "('x \<Rightarrow> ('s, 'b list) step) \<Rightarrow> 'x list \<Rightarrow> ('s, 'b list) step" where
  "gather f [] = creturn []"
| "gather f (x # xs) = cbind (f x) (\<lambda>bs. cbind (gather f xs) (\<lambda>cs. creturn (bs @ cs)))"

fun each :: "('x \<Rightarrow> ('s, unit) step) \<Rightarrow> 'x list \<Rightarrow> ('s, unit) step" where
  "each f [] = creturn ()"
| "each f (x # xs) = cbind (f x) (\<lambda>_. each f xs)"

text \<open>
  \<^verbatim>\<open>executeNudgeBatch\<close>: every nudge is attempted, one that throws is logged and the agents of the others
  are returned. The batches bound how many are under way at once; nudges complete here in the order
  in which they were collected.
\<close>

fun executeNudgeBatch :: "('s, string) step list \<Rightarrow> ('s, string list) step" where
  "executeNudgeBatch [] = creturn []"
| "executeNudgeBatch (t # ts) =
     ctry t (\<lambda>_. executeNudgeBatch ts) (\<lambda>agent. cbind (executeNudgeBatch ts) (\<lambda>agents. creturn (agent # agents)))"

section \<open>Helpers\<close>

definition claimAwaitingInput :: "Claim \<Rightarrow> bool" where
  "claimAwaitingInput claim \<longleftrightarrow> c_input_state claim = Some IS_awaiting_input"

definition detectBlockingPromptQuestion :: "host \<Rightarrow> Agent \<Rightarrow> string option result" where
  "detectBlockingPromptQuestion h a =
     rbind (h_prompt h (a_provider a) (or_default (a_session_handle a) [])) (\<lambda>prompt.
       case prompt of None \<Rightarrow> Inr None | Some p \<Rightarrow> Inr (nonempty (Some (js_trim p))))"

definition reachable_agent :: "Agent \<Rightarrow> bool" where
  "reachable_agent a \<longleftrightarrow> truthy (a_session_handle a) \<and> a_status a \<noteq> AS_offline"

text \<open>Asking an adapter, which an unknown provider does not have.\<close>

definition ask_adapter :: "Agent \<Rightarrow> 'a result \<Rightarrow> 'a sup" where
  "ask_adapter a r = cbind (\<lambda>s. (getAdapter (a_provider a), s)) (\<lambda>_ s. (r, s))"

definition coordinator_event :: "env \<Rightarrow> string \<Rightarrow> Claim \<Rightarrow> payload \<Rightarrow> OrcEvent" where
  "coordinator_event e name claim payload =
     mk_event (now_ts e) name ''coordinator'' ''coordinator'' (Some (c_run_id claim)) (Some (c_task_ref claim))
       (Some (c_agent_id claim)) (Some payload)"

definition emit_run :: "env \<Rightarrow> string \<Rightarrow> Claim \<Rightarrow> payload \<Rightarrow> unit sup" where
  "emit_run e name claim payload = on_dir (appendEventTo e (coordinator_event e name claim payload))"

definition recordCoordinatorInputRequest :: "env \<Rightarrow> Claim \<Rightarrow> string \<Rightarrow> string \<Rightarrow> bool sup" where
  "recordCoordinatorInputRequest e claim question reason =
     ctry (on_dir (setRunInputState e (c_run_id claim) (c_agent_id claim) (Some IS_awaiting_input) (Some (now_ts e))))
       (\<lambda>_. creturn False)
       (\<lambda>_. cbind (emit_run e ''input_requested'' claim [(''question'', JStr question), (''reason'', JStr reason)]) (\<lambda>_.
         creturn True))"

text \<open>A run is failed and its worker released: \<^verbatim>\<open>finishRun\<close> with \<^verbatim>\<open>success: false\<close>, then \<^verbatim>\<open>cleanupRunCapacity\<close>.\<close>

definition fail_run :: "env \<Rightarrow> CoordinatorConfig \<Rightarrow> Claim \<Rightarrow> string \<Rightarrow> string \<Rightarrow> string \<Rightarrow> unit sup" where
  "fail_run e cfg claim reason code policy =
     cbind (on_dir (finishRun e (c_run_id claim) (c_agent_id claim) (worker_finish e False (Some reason) (Some code) policy))) (\<lambda>_.
       on_dir (cleanupRunCapacity e (cfg_max_workers cfg) (c_agent_id claim) None))"

section \<open>Dead agents, expired leases, dead sessions\<close>

definition stale_agent :: "env \<Rightarrow> Claim list \<Rightarrow> Agent \<Rightarrow> bool" where
  "stale_agent e claims a \<longleftrightarrow>
     a_agent_id a \<noteq> [] \<and> a_role a \<noteq> Some ''master'' \<and> a_role a \<noteq> Some ''scout'' \<and> a_status a \<noteq> AS_dead \<and>
     a_agent_id a \<notin> set (activeClaimAgents claims) \<and>
     (case a_last_heartbeat_at a of
        None \<Rightarrow> False
      | Some t \<Rightarrow> (case getTime t of None \<Rightarrow> False | Some ms \<Rightarrow> clock e - ms \<ge> AGENT_DEAD_TTL_MS))"

definition mark_dead :: "env \<Rightarrow> Agent \<Rightarrow> Agent sup" where
  "mark_dead e a =
     cbind (on_dir (updateAgentRuntime e (a_agent_id a)
       (no_updates\<lparr>au_status := Some AS_dead, au_session_handle := Some None, au_provider_ref := Some None,
          au_last_status_change_at := Some (Some (now_ts e))\<rparr>))) (\<lambda>_.
     cbind (on_dir (appendEventTo e (mk_event (now_ts e) ''agent_marked_dead'' ''coordinator'' ''coordinator'' None None
       (Some (a_agent_id a))
       (Some [(''elapsed_ms'', JNum (clock e - or_default (case a_last_heartbeat_at a of None \<Rightarrow> None | Some t \<Rightarrow> getTime t) 0))])))) (\<lambda>_.
       creturn (a\<lparr>a_status := AS_dead, a_session_handle := None, a_provider_ref := None\<rparr>)))"

definition markStaleAgentsDead :: "env \<Rightarrow> Agent list \<Rightarrow> Claim list \<Rightarrow> Agent list sup" where
  "markStaleAgentsDead e agents claims =
     gather (\<lambda>a. if stale_agent e claims a then cbind (mark_dead e a) (\<lambda>a'. creturn [a']) else creturn [a]) agents"

text \<open>
  The two passes say whether they released a run, after which the tick reads the state again. What a
  probe returns is the list of runs that it released, which is empty or has one entry.
\<close>

definition expireAndCleanupStaleLeases :: "env \<Rightarrow> CoordinatorConfig \<Rightarrow> bool sup" where
  "expireAndCleanupStaleLeases e cfg =
     cbind (on_dir (expireLeasesCore e ''requeue'' ''coordinator'')) (\<lambda>expired.
     cbind (each (\<lambda>x. on_dir (cleanupRunCapacity e (cfg_max_workers cfg) (xr_agent_id x) None)) expired) (\<lambda>_.
       creturn (expired \<noteq> [])))"

definition probe_claim :: "env \<Rightarrow> host \<Rightarrow> CoordinatorConfig \<Rightarrow> Agent list \<Rightarrow> Claim \<Rightarrow> string list sup" where
  "probe_claim e h cfg agents claim =
     (if \<not> claim_active claim then creturn []
      else case agent_by_id agents (c_agent_id claim) of
        None \<Rightarrow> creturn []
      | Some a \<Rightarrow>
          if \<not> reachable_agent a then creturn []
          else cbind (ask_adapter a (h_alive h (a_provider a) (the (a_session_handle a)))) (\<lambda>alive.
            if alive then
              if c_state claim = CS_in_progress
              then cbind (cquiet (on_dir (renewLeaseOnly e (c_run_id claim) DEFAULT_LEASE_MS))) (\<lambda>_. creturn []) else creturn []
            else cbind (fail_run e cfg claim ''pty_pid_dead: PTY session exited unexpectedly'' ''ERR_PTY_DEAD'' ''requeue'') (\<lambda>_.
              creturn [c_run_id claim])))"

definition probeActiveWorkerSessions :: "env \<Rightarrow> host \<Rightarrow> CoordinatorConfig \<Rightarrow> Agent list \<Rightarrow> Claim list \<Rightarrow> bool sup" where
  "probeActiveWorkerSessions e h cfg agents claims =
     cbind (gather (probe_claim e h cfg agents) claims) (\<lambda>cleaned. creturn (cleaned \<noteq> []))"

text \<open>A task with an attempt count of 0 has no entry; a backlog that cannot be read gives no entries.\<close>

definition buildAttemptCountLookup :: "orc_state \<Rightarrow> string \<Rightarrow> int" where
  "buildAttemptCountLookup st ref =
     (case readBacklog st of
        Inl _ \<Rightarrow> 0
      | Inr b \<Rightarrow>
          (case List.find (\<lambda>t. t_ref t = ref \<and> or_default (t_attempt_count t) 0 \<noteq> 0) (rev (backlog_tasks b)) of
             None \<Rightarrow> 0
           | Some t \<Rightarrow> int (or_default (t_attempt_count t) 0)))"

section \<open>Runs that do not start\<close>

definition run_start_nudge :: "env \<Rightarrow> host \<Rightarrow> Claim \<Rightarrow> Agent \<Rightarrow> thunk" where
  "run_start_nudge e h claim a =
     cbind (on_co (send_to e h a (RunStartNudge (c_run_id claim)))) (\<lambda>_.
     cbind (emit_run e ''need_input'' claim [(''reason'', JStr ''run_start_ack_missing''), (''action'', JStr ''nudge_sent'')]) (\<lambda>_.
     cbind (note_start (c_run_id claim) (clock e)) (\<lambda>_. creturn (c_agent_id claim))))"

definition start_overdue :: "env \<Rightarrow> host \<Rightarrow> Agent list \<Rightarrow> Claim \<Rightarrow> thunk list sup" where
  "start_overdue e h agents claim =
     (case agent_by_id agents (c_agent_id claim) of
        None \<Rightarrow> creturn []
      | Some a \<Rightarrow>
          if \<not> reachable_agent a then creturn []
          else cbind (ask_adapter a (detectBlockingPromptQuestion h a)) (\<lambda>question.
            case question of
              Some q \<Rightarrow>
                cbind (recordCoordinatorInputRequest e claim q ''provider_interactive_prompt'') (\<lambda>_.
                cbind (forget_start (c_run_id claim)) (\<lambda>_. creturn []))
            | None \<Rightarrow> creturn [run_start_nudge e h claim a]))"

definition enforce_start :: "env \<Rightarrow> host \<Rightarrow> SupervisionConfig \<Rightarrow> Agent list \<Rightarrow> Claim \<Rightarrow> thunk list sup" where
  "enforce_start e h cfg agents claim =
     (if c_state claim \<noteq> CS_claimed \<or> claimAwaitingInput claim \<or> \<not> ts_truthy (c_task_envelope_sent_at claim)
      then cbind (forget_start (c_run_id claim)) (\<lambda>_. creturn [])
      else case getTime (the (c_task_envelope_sent_at claim)) of
        None \<Rightarrow> creturn []
      | Some sent \<Rightarrow>
          (let age = clock e - sent in
           if age \<ge> sc_run_start_timeout_ms cfg
           then cbind (fail_run e (sc_coordinator cfg) claim ''run_started timeout: worker did not acknowledge start in time''
                         ''ERR_RUN_START_TIMEOUT'' ''requeue'') (\<lambda>_.
                cbind (forget_start (c_run_id claim)) (\<lambda>_. creturn []))
           else if age < RUN_START_NUDGE_MS cfg then creturn []
           else (\<lambda>s. if clock e - or_default (sv_runStartNudge s (c_run_id claim)) 0 < RUN_START_NUDGE_INTERVAL_MS cfg
                     then creturn [] s else start_overdue e h agents claim s)))"

definition enforceRunStartLifecycle :: "env \<Rightarrow> host \<Rightarrow> SupervisionConfig \<Rightarrow> Agent list \<Rightarrow> Claim list \<Rightarrow> string list sup" where
  "enforceRunStartLifecycle e h cfg agents claims =
     cbind (gather (enforce_start e h cfg agents) claims) executeNudgeBatch"

section \<open>Runs that stop making progress\<close>

fun action_str :: "RemediationAction \<Rightarrow> string" where
  "action_str record_input = ''record_input''"
| "action_str nudge_targeted = ''nudge_targeted''"
| "action_str requeue_now = ''requeue_now''"
| "action_str block = ''block''"

definition remediation_payload :: "string \<Rightarrow> RemediationAction \<Rightarrow> string \<Rightarrow> payload" where
  "remediation_payload policyId action message =
     [(''policy_id'', JStr policyId), (''action'', JStr (action_str action)), (''message'', JStr message)]"

definition remediate_finish :: "env \<Rightarrow> CoordinatorConfig \<Rightarrow> string \<Rightarrow> RemediationAction \<Rightarrow> string \<Rightarrow> Claim \<Rightarrow> unit sup" where
  "remediate_finish e cfg policyId action message claim =
     cbind (fail_run e cfg claim (''remediation['' @ policyId @ '']: '' @ message)
              (if action = block then ''ERR_REMEDIATION_BLOCK'' else ''ERR_REMEDIATION_REQUEUE'')
              (if action = block then ''block'' else ''requeue'')) (\<lambda>_.
       forget_run (c_run_id claim))"

definition targeted_nudge :: "env \<Rightarrow> host \<Rightarrow> string \<Rightarrow> Claim \<Rightarrow> Agent \<Rightarrow> unit sup" where
  "targeted_nudge e h message claim a =
     (if reachable_agent a
      then cbind (on_co (send_to e h a (InProgressNudge (c_run_id claim) (Some message)))) (\<lambda>_.
           cbind (count_nudge (c_run_id claim)) (\<lambda>_. note_inactive (c_run_id claim) (clock e)))
      else creturn ())"

definition executeRemediation ::
  "env \<Rightarrow> host \<Rightarrow> CoordinatorConfig \<Rightarrow> string \<Rightarrow> RemediationAction \<Rightarrow> string \<Rightarrow> Claim \<Rightarrow> Agent \<Rightarrow> unit sup" where
  "executeRemediation e h cfg policyId action message claim a =
     cbind (case action of
              record_input \<Rightarrow>
                cbind (recordCoordinatorInputRequest e claim message (''remediation_policy:'' @ policyId)) (\<lambda>_. creturn ())
            | nudge_targeted \<Rightarrow> targeted_nudge e h message claim a
            | requeue_now \<Rightarrow> remediate_finish e cfg policyId action message claim
            | block \<Rightarrow> remediate_finish e cfg policyId action message claim) (\<lambda>_.
       emit_run e ''remediation_applied'' claim (remediation_payload policyId action message))"

text \<open>A run whose worker was asked to rebase and is silent.\<close>

definition retry_finalization :: "env \<Rightarrow> host \<Rightarrow> SupervisionConfig \<Rightarrow> Agent list \<Rightarrow> Claim \<Rightarrow> unit sup" where
  "retry_finalization e h cfg agents claim =
     (case filter reachable_agent (case agent_by_id agents (c_agent_id claim) of None \<Rightarrow> [] | Some a \<Rightarrow> [a]) of
        [] \<Rightarrow>
          cbind (on_co (markFinalizeBlocked e (sc_coordinator cfg) claim ''live agent session unavailable during finalization retry'')) (\<lambda>_.
            forget_inactive (c_run_id claim))
      | a # _ \<Rightarrow>
          cbind (ask_adapter a (detectBlockingPromptQuestion h a)) (\<lambda>question.
            case question of
              Some q \<Rightarrow>
                cbind (recordCoordinatorInputRequest e claim q ''provider_interactive_prompt'') (\<lambda>_. forget_inactive (c_run_id claim))
            | None \<Rightarrow>
                cbind (on_co (requestFinalizeRebase e h (sc_coordinator cfg) claim
                         ''finalization retry timed out waiting for worker progress'' True)) (\<lambda>_.
                  note_inactive (c_run_id claim) (clock e))))"

definition handleFinalizationRetry :: "env \<Rightarrow> host \<Rightarrow> SupervisionConfig \<Rightarrow> Agent list \<Rightarrow> Claim \<Rightarrow> int \<Rightarrow> unit sup" where
  "handleFinalizationRetry e h cfg agents claim idleMs s =
     (if idleMs < sc_run_inactive_nudge_ms cfg then creturn () s
      else if clock e - or_default (sv_inactiveNudge s (c_run_id claim)) 0 < sc_run_inactive_nudge_interval_ms cfg then creturn () s
      else retry_finalization e h cfg agents claim s)"

text \<open>The phase a run was last seen in; a new phase resets its nudges.\<close>

definition track_phase :: "string \<Rightarrow> string option \<Rightarrow> bool sup" where
  "track_phase run phase s =
     (let changed = (case (phase, sv_lastPhase s run) of (Some p, Some q) \<Rightarrow> p \<noteq> q | _ \<Rightarrow> False);
          s1 = (case phase of None \<Rightarrow> s | Some p \<Rightarrow> s\<lparr>sv_lastPhase := (sv_lastPhase s)(run \<mapsto> p)\<rparr>) in
      (Inr changed, if changed then s1\<lparr>sv_nudgeCount := (sv_nudgeCount s1)(run \<mapsto> 0)\<rparr> else s1))"

text \<open>What the policies see of a session: whether it is alive and what it asks, if it can be asked.\<close>

definition probe_session :: "host \<Rightarrow> Agent \<Rightarrow> (bool \<times> string option) sup" where
  "probe_session h a =
     (if reachable_agent a
      then cbind (ask_adapter a (h_alive h (a_provider a) (the (a_session_handle a)))) (\<lambda>alive.
             if alive then cbind (\<lambda>s. (detectBlockingPromptQuestion h a, s)) (\<lambda>q. creturn (True, q)) else creturn (False, None))
      else creturn (False, None))"

definition remediation ::
  "host \<Rightarrow> SupervisionConfig \<Rightarrow> Claim \<Rightarrow> Agent \<Rightarrow> int \<Rightarrow> string option \<Rightarrow> bool \<Rightarrow> string option list \<Rightarrow> int \<Rightarrow>
   (RemediationPolicy \<times> string) option sup" where
  "remediation h cfg claim a idleMs phase changed hooks attempts =
     cbind (probe_session h a) (\<lambda>(alive, prompt) s.
       (Inr (evaluateRemediationPolicies (builtinPolicies (sc_remediation cfg))
          \<lparr>rs_idleMs = idleMs, rs_phase = phase, rs_phaseChanged = changed, rs_hookEvents = hooks, rs_blockingPrompt = prompt,
           rs_sessionAlive = alive, rs_attemptCount = attempts, rs_nudgeCount = nudge_count (c_run_id claim) s\<rparr>), s))"

definition in_progress_nudge :: "env \<Rightarrow> host \<Rightarrow> Claim \<Rightarrow> Agent \<Rightarrow> int \<Rightarrow> string option \<Rightarrow> thunk" where
  "in_progress_nudge e h claim a idleMs phase =
     cbind (on_co (send_to e h a (InProgressNudge (c_run_id claim) phase))) (\<lambda>_.
     cbind (emit_run e ''need_input'' claim
       [(''reason'', JStr ''run_progress_stale''), (''action'', JStr ''nudge_sent''), (''idle_ms'', JNum idleMs),
        (''phase'', jstr_opt phase)]) (\<lambda>_.
     cbind (note_inactive (c_run_id claim) (clock e)) (\<lambda>_.
     cbind (count_nudge (c_run_id claim)) (\<lambda>_. creturn (c_agent_id claim)))))"

definition stale_escalation :: "env \<Rightarrow> SupervisionConfig \<Rightarrow> Claim \<Rightarrow> int \<Rightarrow> unit sup" where
  "stale_escalation e cfg claim idleMs =
     (if \<not> ts_truthy (c_escalation_notified_at claim) \<and> idleMs \<ge> sc_worker_stale_soft_ms cfg
      then cbind (emit_run e ''worker_needs_attention'' claim [(''reason'', JStr ''stale''), (''idle_ms'', JNum idleMs)]) (\<lambda>_.
           cbind (on_dir (setEscalationNotified e (c_run_id claim))) (\<lambda>_. creturn ()))
      else creturn ())"

text \<open>The staleness cascade: fail, notify once, nudge at intervals.\<close>

definition stale_cascade ::
  "env \<Rightarrow> host \<Rightarrow> SupervisionConfig \<Rightarrow> Claim \<Rightarrow> Agent option \<Rightarrow> int \<Rightarrow> string option \<Rightarrow> thunk list sup" where
  "stale_cascade e h cfg claim agent idleMs phase =
     (if idleMs \<ge> sc_worker_stale_force_fail_ms cfg
      then cbind (fail_run e (sc_coordinator cfg) claim
                    (''force-failed after '' @ show_int (round_div idleMs 60000) @ ''min of inactivity'') ''ERR_STALE_WORKER'' ''requeue'') (\<lambda>_.
           cbind (forget_run (c_run_id claim)) (\<lambda>_. creturn []))
      else cbind (stale_escalation e cfg claim idleMs) (\<lambda>_ s.
        if idleMs < sc_worker_stale_nudge_ms cfg then creturn [] s
        else if (case sv_inactiveNudge s (c_run_id claim) of None \<Rightarrow> False
                 | Some prev \<Rightarrow> clock e - prev < sc_run_inactive_nudge_interval_ms cfg) then creturn [] s
        else (case agent of
                None \<Rightarrow> creturn []
              | Some a \<Rightarrow> if reachable_agent a then creturn [in_progress_nudge e h claim a idleMs phase] else creturn []) s))"

definition waiting_finalization :: "FinalizationState option \<Rightarrow> bool" where
  "waiting_finalization f \<longleftrightarrow>
     f \<in> {Some FS_blocked_finalize, Some FS_awaiting_finalize, Some FS_ready_to_merge, Some FS_pr_created,
          Some FS_pr_review_in_progress, Some FS_pr_merged}"

definition supervise_progress ::
  "env \<Rightarrow> host \<Rightarrow> SupervisionConfig \<Rightarrow> Agent list \<Rightarrow> activity_memory \<Rightarrow> (string \<Rightarrow> int) \<Rightarrow> Claim \<Rightarrow> int \<Rightarrow>
   string option list \<Rightarrow> thunk list sup" where
  "supervise_progress e h cfg agents mem attempts claim idleMs hooks =
     (let agent = agent_by_id agents (c_agent_id claim); phase = am_phase mem (c_run_id claim) in
      cbind (track_phase (c_run_id claim) phase) (\<lambda>changed.
      cbind (case agent of
               None \<Rightarrow> creturn None
             | Some a \<Rightarrow>
                 cbind (remediation h cfg claim a idleMs phase changed hooks (attempts (c_task_ref claim))) (\<lambda>found.
                   creturn (map_option (\<lambda>(p, m). (p, m, a)) found))) (\<lambda>found.
        case found of
          Some (p, message, a) \<Rightarrow>
            cbind (executeRemediation e h (sc_coordinator cfg) (pol_id p) (pol_action p) message claim a) (\<lambda>_. creturn [])
        | None \<Rightarrow> stale_cascade e h cfg claim agent idleMs phase)))"

definition enforce_progress ::
  "env \<Rightarrow> host \<Rightarrow> SupervisionConfig \<Rightarrow> Agent list \<Rightarrow> activity_memory \<Rightarrow> (string \<Rightarrow> int) \<Rightarrow> Claim \<Rightarrow> thunk list sup" where
  "enforce_progress e h cfg agents mem attempts claim =
     (if c_state claim \<noteq> CS_in_progress then cbind (forget_run (c_run_id claim)) (\<lambda>_. creturn [])
      else cbind (consumeHookEvents (c_agent_id claim)) (\<lambda>hooks.
        case runIdleMs (Some claim) (am_activity mem (c_run_id claim)) (clock e) of
          None \<Rightarrow> creturn []
        | Some idleMs \<Rightarrow>
            if claimAwaitingInput claim \<or> waiting_finalization (c_finalization_state claim)
            then cbind (forget_inactive (c_run_id claim)) (\<lambda>_. creturn [])
            else if c_finalization_state claim \<in> {Some FS_finalize_rebase_requested, Some FS_finalize_rebase_in_progress}
            then cbind (handleFinalizationRetry e h cfg agents claim idleMs) (\<lambda>_. creturn [])
            else supervise_progress e h cfg agents mem attempts claim idleMs hooks))"

definition enforceInProgressLifecycle ::
  "env \<Rightarrow> host \<Rightarrow> SupervisionConfig \<Rightarrow> Agent list \<Rightarrow> Claim list \<Rightarrow> activity_memory \<Rightarrow> (string \<Rightarrow> int) \<Rightarrow> string list sup" where
  "enforceInProgressLifecycle e h cfg agents claims mem attempts =
     cbind (gather (enforce_progress e h cfg agents mem attempts) claims) executeNudgeBatch"

end
