(* ===== verification/Supervision_Props.thy ===== *)
theory Supervision_Props
  imports Supervision Finalization_Props
begin

text \<open>
  What the supervision passes guarantee: a lost run is ended, nudges are bounded, messages reach verified
  sessions only. The passes are compositions of steps; the locale \<open>step_preorder\<close> carries a relation on
  states through the combinators, and \<open>supervision\<close> through the passes, so that each guarantee needs only
  the operations that the passes call.
\<close>

section \<open>Steps and preorders\<close>

text \<open>
  A step keeps a preorder on states, and what it returns has a property. The combinators of steps keep
  any preorder; the passes are built from them alone.
\<close>

definition holds :: "('s \<Rightarrow> 's \<Rightarrow> bool) \<Rightarrow> ('a \<Rightarrow> bool) \<Rightarrow> ('s, 'a) step \<Rightarrow> bool" where
  "holds R Q m \<longleftrightarrow> (\<forall>s. R s (snd (m s)) \<and> (\<forall>x. fst (m s) = Inr x \<longrightarrow> Q x))"

abbreviation anything :: "'a \<Rightarrow> bool" where
  "anything \<equiv> \<lambda>_. True"

locale step_preorder =
  fixes R :: "'s \<Rightarrow> 's \<Rightarrow> bool"
  assumes R_refl: "R s s"
    and R_trans: "R a b \<Longrightarrow> R b c \<Longrightarrow> R a c"
begin

lemma holds_creturn: "Q x \<Longrightarrow> holds R Q (creturn x)"
  by (simp add: holds_def creturn_def R_refl)

lemma holds_answer: "(\<And>x. r = Inr x \<Longrightarrow> Q x) \<Longrightarrow> holds R Q (\<lambda>s. (r, s))"
  by (simp add: holds_def R_refl)

lemma holds_error: "holds R Q (Pair (Inl err))"
  by (simp add: holds_def R_refl)

lemma holds_either: "holds R Q m \<Longrightarrow> holds R Q m' \<Longrightarrow> holds R Q (\<lambda>s. if b s then m s else m' s)"
  by (simp add: holds_def)

lemma holds_read: "(\<And>s x. g s = Inr x \<Longrightarrow> Q x) \<Longrightarrow> holds R Q (\<lambda>s. (g s, s))"
  by (simp add: holds_def R_refl)

lemma holds_weaken: "holds R P m \<Longrightarrow> (\<And>x. P x \<Longrightarrow> Q x) \<Longrightarrow> holds R Q m"
  by (auto simp: holds_def)

lemma holds_ctry:
  assumes "holds R P m" "\<And>err. holds R Q (h err)" "\<And>x. P x \<Longrightarrow> holds R Q (k x)"
  shows "holds R Q (ctry m h k)"
  unfolding holds_def
proof
  fix s
  obtain r s1 where m: "m s = (r, s1)" by (cases "m s")
  have s1: "R s s1" using assms(1) m unfolding holds_def by (metis snd_conv)
  show "R s (snd (ctry m h k s)) \<and> (\<forall>x. fst (ctry m h k s) = Inr x \<longrightarrow> Q x)"
  proof (cases r)
    case (Inl err)
    then show ?thesis using assms(2) [of err] m R_trans [OF s1] by (simp add: ctry_def holds_def)
  next
    case (Inr x)
    then have "P x" using assms(1) m unfolding holds_def by (metis fst_conv)
    then show ?thesis using assms(3) [of x] m Inr R_trans [OF s1] by (simp add: ctry_def holds_def)
  qed
qed

lemma holds_cbind:
  assumes "holds R P m" "\<And>x. P x \<Longrightarrow> holds R Q (k x)"
  shows "holds R Q (cbind m k)"
proof -
  have "holds R Q (ctry m (\<lambda>err s. (Inl err, s)) k)"
    by (rule holds_ctry [OF assms(1)]) (simp_all add: holds_error assms(2))
  then show ?thesis by (simp add: cbind_ctry)
qed

lemma holds_cquiet: "holds R anything m \<Longrightarrow> holds R anything (cquiet m)"
  by (simp add: holds_def cquiet_def)

lemma holds_if: "(b \<Longrightarrow> holds R Q m) \<Longrightarrow> (\<not> b \<Longrightarrow> holds R Q m') \<Longrightarrow> holds R Q (if b then m else m')"
  by simp

lemma holds_option: "(y = None \<Longrightarrow> holds R Q m) \<Longrightarrow> (\<And>x. y = Some x \<Longrightarrow> holds R Q (k x)) \<Longrightarrow> holds R Q (case y of None \<Rightarrow> m | Some x \<Rightarrow> k x)"
  by (cases y) auto

lemma holds_each: "(\<And>x. x \<in> set xs \<Longrightarrow> holds R anything (f x)) \<Longrightarrow> holds R anything (each f xs)"
  by (induction xs) (auto intro!: holds_creturn holds_cbind)

lemma holds_gather:
  assumes "\<And>x. x \<in> set xs \<Longrightarrow> holds R (list_all Q) (f x)"
  shows "holds R (list_all Q) (gather f xs)"
  using assms
proof (induction xs)
  case (Cons x xs)
  then show ?case by (auto intro!: holds_cbind [of "list_all Q"] holds_creturn)
qed (simp add: holds_creturn)

end

lemma holds_batch:
  assumes "step_preorder R" "list_all (holds R anything) ts"
  shows "holds R anything (executeNudgeBatch ts)"
  using assms(2)
proof (induction ts)
  case (Cons t ts)
  then show ?case
    by (auto intro!: step_preorder.holds_ctry [OF assms(1), of anything] step_preorder.holds_cbind [OF assms(1), of anything]
        step_preorder.holds_creturn [OF assms(1)])
qed (simp add: step_preorder.holds_creturn [OF assms(1)])

lemma holds_on_co: "holds R Q m \<Longrightarrow> holds (\<lambda>s s'. R (sv_co s) (sv_co s')) Q (on_co m)"
  by (auto simp: holds_def on_co_def split: prod.split) (metis snd_conv fst_conv)+

lemma holds_on_st: "(\<And>st. R st (snd (f st))) \<Longrightarrow> holds (\<lambda>c c'. R (co_st c) (co_st c')) anything (on_st f)"
  by (auto simp: holds_def on_st_def split: prod.split) (metis snd_conv)

section \<open>What every pass keeps\<close>

text \<open>
  The contract of the operations that the passes call, for a preorder on the supervisor's state: each keeps
  it, and the memory of the runs in \<open>runs\<close> may be written. Every pass then keeps it; where counting a nudge
  does not, everything but the nudges of runs in progress still does.
\<close>

locale supervision_base = step_preorder R
  for R :: "supervisor \<Rightarrow> supervisor \<Rightarrow> bool" +
  fixes h :: host and runs :: "string set"
  assumes dir_finish: "holds R anything (on_dir (finishRun e i ag opts))"
    and dir_cleanup: "holds R anything (on_dir (cleanupRunCapacity e n ag off))"
    and dir_input: "holds R anything (on_dir (setRunInputState e i ag ins at))"
    and dir_escalation: "holds R anything (on_dir (setEscalationNotified e i))"
    and dir_append: "holds R anything (on_dir (appendEventTo e ev))"
    and dir_renew: "holds R anything (on_dir (renewLeaseOnly e i ms))"
    and dir_expire: "holds R anything (on_dir (expireLeasesCore e policy actor))"
    and dir_update: "holds R anything (on_dir (updateAgentRuntime e ag u))"
    and co_send: "holds R anything (on_co (send_to e h a msg))"
    and co_blocked: "holds R anything (on_co (markFinalizeBlocked e ccfg claim why))"
    and co_rebase: "holds R anything (on_co (requestFinalizeRebase e h ccfg claim why inc))"
    and mem_start: "run \<in> runs \<Longrightarrow> holds R anything (forget_start run)" "run \<in> runs \<Longrightarrow> holds R anything (note_start run ms)"
    and mem_inactive: "run \<in> runs \<Longrightarrow> holds R anything (forget_inactive run)" "run \<in> runs \<Longrightarrow> holds R anything (note_inactive run ms)"
    and mem_run: "run \<in> runs \<Longrightarrow> holds R anything (forget_run run)" "run \<in> runs \<Longrightarrow> holds R anything (track_phase run phase)"
    and mem_hooks: "holds R anything (consumeHookEvents ag)"
begin

lemmas bindI = holds_cbind [where P = anything, simplified]

lemma keeps_emit: "holds R anything (emit_run e name claim payload)"
  unfolding emit_run_def by (rule dir_append)

lemma keeps_input_request: "holds R anything (recordCoordinatorInputRequest e claim q why)"
  unfolding recordCoordinatorInputRequest_def
  by (intro holds_ctry [OF dir_input] bindI keeps_emit holds_creturn) simp_all

lemma keeps_fail: "holds R anything (fail_run e ccfg claim reason code policy)"
  unfolding fail_run_def by (intro bindI dir_finish dir_cleanup)

lemma keeps_ask: "holds R anything (ask_adapter a r)"
  unfolding ask_adapter_def by (intro bindI holds_answer) simp_all

lemma keeps_mark_dead: "holds R anything (markStaleAgentsDead e agents claims)"
  unfolding markStaleAgentsDead_def
  by (rule holds_weaken [OF holds_gather [where Q = anything]])
     (auto intro!: bindI holds_creturn dir_update dir_append simp: mark_dead_def list_all_iff)

lemma keeps_expire: "holds R anything (expireAndCleanupStaleLeases e ccfg)"
  unfolding expireAndCleanupStaleLeases_def by (intro bindI dir_expire holds_each dir_cleanup holds_creturn) simp

lemma keeps_probe: "holds R anything (probeActiveWorkerSessions e h ccfg agents claims)"
proof -
  have "holds R (list_all anything) (probe_claim e h ccfg agents claim)" for claim
    unfolding probe_claim_def
    by (intro holds_if holds_option bindI keeps_ask holds_cquiet dir_renew keeps_fail holds_creturn) simp_all
  then show ?thesis unfolding probeActiveWorkerSessions_def by (intro holds_cbind [OF holds_gather] holds_creturn) simp_all
qed

lemma keeps_start_nudge: "c_run_id claim \<in> runs \<Longrightarrow> holds R anything (run_start_nudge e h claim a)"
  unfolding run_start_nudge_def by (intro bindI co_send keeps_emit mem_start holds_creturn) simp_all

lemma keeps_start_overdue:
  "c_run_id claim \<in> runs \<Longrightarrow> holds R (list_all (holds R anything)) (start_overdue e h agents claim)"
  unfolding start_overdue_def
  by (intro holds_option holds_if bindI keeps_ask keeps_input_request mem_start holds_creturn) (simp_all add: keeps_start_nudge)

lemma keeps_enforce_start:
  assumes "c_run_id claim \<in> runs"
  shows "holds R (list_all (holds R anything)) (enforce_start e h cfg agents claim)"
  unfolding enforce_start_def Let_def
  by (intro holds_if holds_option bindI mem_start assms keeps_fail holds_creturn holds_either keeps_start_overdue) simp_all

lemma keeps_run_start:
  assumes "c_run_id ` set claims \<subseteq> runs"
  shows "holds R anything (enforceRunStartLifecycle e h cfg agents claims)"
  unfolding enforceRunStartLifecycle_def
  by (rule holds_cbind [OF holds_gather [OF keeps_enforce_start]])
     (use assms in \<open>auto intro!: holds_batch step_preorder.intro R_refl intro: R_trans\<close>)

lemma keeps_remediate_finish: "c_run_id claim \<in> runs \<Longrightarrow> holds R anything (remediate_finish e ccfg pid act msg claim)"
  unfolding remediate_finish_def by (intro bindI keeps_fail mem_run)

lemma keeps_retry: "c_run_id claim \<in> runs \<Longrightarrow> holds R anything (handleFinalizationRetry e h cfg agents claim idle)"
proof -
  have "c_run_id claim \<in> runs \<Longrightarrow> holds R anything (retry_finalization e h cfg agents claim)"
    unfolding retry_finalization_def
    by (cases "filter reachable_agent (case agent_by_id agents (c_agent_id claim) of None \<Rightarrow> [] | Some a \<Rightarrow> [a])")
       (auto intro!: bindI co_blocked co_rebase mem_inactive keeps_ask keeps_input_request holds_option)
  then show "c_run_id claim \<in> runs \<Longrightarrow> holds R anything (handleFinalizationRetry e h cfg agents claim idle)"
    unfolding handleFinalizationRetry_def [abs_def] by (intro holds_either holds_creturn) simp_all
qed

lemma keeps_policies: "holds R anything (remediation h cfg claim a idle phase changed hooks attempts)"
  unfolding remediation_def probe_session_def
  by (intro bindI holds_if keeps_ask holds_creturn holds_answer) (auto intro!: holds_read split: prod.split)

lemma keeps_escalation: "holds R anything (stale_escalation e cfg claim idle)"
  unfolding stale_escalation_def by (intro holds_if bindI keeps_emit dir_escalation holds_creturn) simp_all

lemma keeps_cascade:
  assumes "c_run_id claim \<in> runs"
  shows "holds R (\<lambda>ts. ts = [] \<or> (\<exists>a. agent = Some a \<and> ts = [in_progress_nudge e h claim a idle phase])) (stale_cascade e h cfg claim agent idle phase)"
proof -
  have "holds R (\<lambda>ts. ts = [] \<or> (\<exists>a. agent = Some a \<and> ts = [in_progress_nudge e h claim a idle phase]))
      (case agent of None \<Rightarrow> creturn [] | Some a \<Rightarrow> if reachable_agent a then creturn [in_progress_nudge e h claim a idle phase] else creturn [])"
    by (intro holds_option holds_if holds_creturn) simp_all
  then show ?thesis unfolding stale_cascade_def
    by (intro holds_if bindI keeps_fail mem_run assms keeps_escalation holds_either holds_creturn) simp_all
qed

end

locale supervision = supervision_base R h runs
  for R h runs +
  assumes mem_count: "run \<in> runs \<Longrightarrow> holds R anything (count_nudge run)"
begin

lemma keeps_targeted: "c_run_id claim \<in> runs \<Longrightarrow> holds R anything (targeted_nudge e h msg claim a)"
  unfolding targeted_nudge_def by (intro holds_if bindI co_send mem_count mem_inactive holds_creturn) simp_all

lemma keeps_remediation: "c_run_id claim \<in> runs \<Longrightarrow> holds R anything (executeRemediation e h ccfg pid act msg claim a)"
  unfolding executeRemediation_def
  by (intro bindI keeps_emit, cases act)
     (auto intro!: bindI keeps_input_request holds_creturn keeps_targeted keeps_remediate_finish)

lemma keeps_progress_nudge: "c_run_id claim \<in> runs \<Longrightarrow> holds R anything (in_progress_nudge e h claim a idle phase)"
  unfolding in_progress_nudge_def by (intro bindI co_send keeps_emit mem_inactive mem_count holds_creturn) simp_all

lemma keeps_supervise:
  assumes "c_run_id claim \<in> runs"
  shows "holds R (list_all (holds R anything)) (supervise_progress e h cfg agents mem attempts claim idle hooks)"
proof -
  have "holds R (list_all (holds R anything)) (stale_cascade e h cfg claim agent idle phase)" for agent phase
    by (rule holds_weaken [OF keeps_cascade [OF assms]]) (use keeps_progress_nudge [OF assms] in \<open>auto simp: list_all_iff\<close>)
  then show ?thesis unfolding supervise_progress_def Let_def
    by (intro bindI mem_run assms holds_option keeps_policies holds_creturn)
       (auto intro!: bindI keeps_remediation assms holds_creturn split: prod.split)
qed

lemma keeps_enforce_progress:
  assumes "c_run_id claim \<in> runs"
  shows "holds R (list_all (holds R anything)) (enforce_progress e h cfg agents mem attempts claim)"
  unfolding enforce_progress_def
  by (intro holds_if bindI holds_option mem_run mem_hooks mem_inactive assms keeps_retry keeps_supervise holds_creturn) simp_all

lemma keeps_in_progress:
  assumes "c_run_id ` set claims \<subseteq> runs"
  shows "holds R anything (enforceInProgressLifecycle e h cfg agents claims mem attempts)"
  unfolding enforceInProgressLifecycle_def
  by (rule holds_cbind [OF holds_gather [OF keeps_enforce_progress]])
     (use assms in \<open>auto intro!: holds_batch step_preorder.intro R_refl intro: R_trans\<close>)

end

section \<open>Finished runs stay finished\<close>

definition run_ended :: "string \<Rightarrow> runtime_db \<Rightarrow> bool" where
  "run_ended r db \<longleftrightarrow> (\<exists>c \<in> set (readRows db). c_run_id c = r \<and> \<not> claim_active c)"

definition onward :: "string \<Rightarrow> orc_state \<Rightarrow> orc_state \<Rightarrow> bool" where
  "onward r st st' \<longleftrightarrow> (claims_ready (st_db st) \<longrightarrow>
     claims_ready (st_db st') \<and> (run_ended r (st_db st) \<longrightarrow> run_ended r (st_db st')))"

lemma advancing_onward:
  assumes "claims_ready (st_db st) \<Longrightarrow> advancing st x"
  shows "onward r st (snd x)"
  unfolding onward_def
proof (intro impI conjI)
  assume ready: "claims_ready (st_db st)"
  note adv = advancing_snd [OF assms [OF ready]]
  then show "claims_ready (st_db (snd x))" by blast
  assume "run_ended r (st_db st)"
  then obtain c where c: "c \<in> set (readRows (st_db st))" "c_run_id c = r" "\<not> claim_active c" by (auto simp: run_ended_def)
  from adv c(1) obtain c' where c': "c' \<in> set (readRows (st_db (snd x)))" "advances c c'" by (blast elim: claims_advance_in)
  have "\<not> claim_active c'" using advances_terminal [OF c'(2) c(3)] c(3) by (simp add: claim_active_def)
  moreover have "c_run_id c' = r" using c'(2) c(2) by (simp add: advances_def)
  ultimately show "run_ended r (st_db (snd x))" unfolding run_ended_def using c'(1) by blast
qed

lemma run_ended_states: "run_ended r db \<longleftrightarrow> (\<exists>a s. (r, a, s) \<in> set (run_states db) \<and> \<not> active_state s)"
proof -
  have "(\<exists>c \<in> set cs. c_run_id c = r \<and> \<not> claim_active c) \<longleftrightarrow>
      (\<exists>a s. (r, a, s) \<in> set (map (\<lambda>c. (c_run_id c, c_agent_id c, c_state c)) cs) \<and> \<not> active_state s)" for cs
    by (induction cs) (auto simp: claim_active_def)
  then show ?thesis by (simp add: run_ended_def run_states_def)
qed

lemma unchanged_onward: "(claims_ready (st_db st) \<Longrightarrow> unchanged st st') \<Longrightarrow> onward r st st'"
  by (auto simp: onward_def unchanged_def run_ended_states)

lemma kept_onward: "kept f \<Longrightarrow> onward r st (snd (f st))"
  by (rule unchanged_onward) (simp add: kept_def)

definition sup_onward :: "string \<Rightarrow> supervisor \<Rightarrow> supervisor \<Rightarrow> bool" where
  "sup_onward r s s' \<longleftrightarrow> onward r (co_st (sv_co s)) (co_st (sv_co s'))"

lemma onward_dir: "(\<And>st. onward r st (snd (f st))) \<Longrightarrow> holds (sup_onward r) anything (on_dir f)"
  unfolding on_dir_def sup_onward_def [abs_def] by (intro holds_on_co [where R = "\<lambda>c c'. onward r (co_st c) (co_st c')"] holds_on_st)

lemma onward_co: "keeping m \<Longrightarrow> holds (sup_onward r) anything (on_co m)"
  unfolding sup_onward_def [abs_def]
  by (rule holds_on_co [where R = "\<lambda>c c'. onward r (co_st c) (co_st c')"]) (auto simp: holds_def keeping_def intro: unchanged_onward)

lemma onward_mem: "(\<And>s. sv_co (snd (m s)) = sv_co s) \<Longrightarrow> holds (sup_onward r) anything m"
  by (simp add: holds_def sup_onward_def onward_def)

lemmas memory_defs = forget_start_def note_start_def forget_inactive_def note_inactive_def count_nudge_def forget_run_def
  track_phase_def consumeHookEvents_def Let_def

interpretation ow: supervision "sup_onward r" h UNIV for r h
proof
  show "sup_onward r s s" for s by (simp add: sup_onward_def onward_def)
  show "sup_onward r a b \<Longrightarrow> sup_onward r b c \<Longrightarrow> sup_onward r a c" for a b c by (auto simp: sup_onward_def onward_def)
qed (intro onward_dir onward_co onward_mem kept_onward advancing_onward
      finishRun_advancing setRun_advancing setEscalationNotified_advancing renewLeaseOnly_advancing expireLeasesCore_advancing
      cleanup_kept appendEvent_kept updateAgent_kept send_to_keeping blocked_keeping rebase_keeping;
      simp add: memory_defs split: option.split)+

section \<open>The memory of other runs\<close>

definition mem_frame :: "string set \<Rightarrow> supervisor \<Rightarrow> supervisor \<Rightarrow> bool" where
  "mem_frame runs s s' \<longleftrightarrow>
     (\<forall>r. r \<notin> runs \<longrightarrow> sv_nudgeCount s' r = sv_nudgeCount s r \<and> sv_lastPhase s' r = sv_lastPhase s r) \<and>
     (\<forall>ag. sv_hooks s ag = [] \<longrightarrow> sv_hooks s' ag = [])"

lemma frame_co: "holds (mem_frame runs) anything (on_co m)"
  by (simp add: holds_def on_co_def mem_frame_def split: prod.split)

interpretation mf: supervision "mem_frame runs" h runs for runs h
proof
  show "mem_frame runs s s" for s by (simp add: mem_frame_def)
  show "mem_frame runs a b \<Longrightarrow> mem_frame runs b c \<Longrightarrow> mem_frame runs a c" for a b c by (simp add: mem_frame_def)
qed (simp_all add: on_dir_def frame_co, simp_all add: holds_def mem_frame_def memory_defs split: option.split)

section \<open>Lost runs are ended\<close>

lemma cbind_Inr: "cbind m k s = (Inr y, s') \<longleftrightarrow> (\<exists>x s1. m s = (Inr x, s1) \<and> k x s1 = (Inr y, s'))"
  by (auto simp: cbind_def split: prod.splits sum.splits)

lemma gather_split:
  assumes "gather f (pre @ x # post) s = (Inr bs, s')"
  obtains as s1 b s2 cs where "gather f pre s = (Inr as, s1)" "f x s1 = (Inr b, s2)" "gather f post s2 = (Inr cs, s')"
  using assms
proof (induction pre arbitrary: s bs thesis)
  case Nil
  then show ?case by (auto simp: cbind_Inr creturn_def)
next
  case (Cons y pre)
  from Cons.prems(2) obtain b0 s0 bs0 where 0: "f y s = (Inr b0, s0)" "gather f (pre @ x # post) s0 = (Inr bs0, s')"
    by (auto simp: cbind_Inr creturn_def)
  show ?case
    by (rule Cons.IH [OF _ 0(2)], rule Cons.prems(1)) (auto simp: cbind_Inr creturn_def 0(1))
qed

lemma holdsD: "holds R Q m \<Longrightarrow> m s = (r, s') \<Longrightarrow> R s s'"
  by (auto simp: holds_def dest: spec [of _ s])

lemma holds_result: "holds R Q m \<Longrightarrow> m s = (Inr x, s') \<Longrightarrow> Q x"
  by (auto simp: holds_def dest: spec [of _ s])

lemma on_dir_Inr: "on_dir f s = (Inr x, s') \<longleftrightarrow> (\<exists>st. f (co_st (sv_co s)) = (Inr x, st) \<and> s' = s\<lparr>sv_co := (sv_co s)\<lparr>co_st := st\<rparr>\<rparr>)"
  by (auto simp: on_dir_def on_co_def on_st_def split: prod.splits)

abbreviation sup_db :: "supervisor \<Rightarrow> runtime_db" where
  "sup_db s \<equiv> st_db (co_st (sv_co s))"

lemma onward_ended: "sup_onward r s s' \<Longrightarrow> claims_ready (sup_db s) \<Longrightarrow> run_ended r (sup_db s) \<Longrightarrow> run_ended r (sup_db s')"
  and onward_ready: "sup_onward r s s' \<Longrightarrow> claims_ready (sup_db s) \<Longrightarrow> claims_ready (sup_db s')"
  by (simp_all add: sup_onward_def onward_def)

lemma fail_run_ended:
  assumes "fail_run e ccfg claim reason code policy s = (Inr x, s')" "claims_ready (sup_db s)"
  shows "run_ended (c_run_id claim) (sup_db s')" "claims_ready (sup_db s')"
proof -
  from assms(1) obtain u s1 where f: "on_dir (finishRun e (c_run_id claim) (c_agent_id claim) (worker_finish e False (Some reason) (Some code) policy)) s = (Inr u, s1)"
      and c: "on_dir (cleanupRunCapacity e (cfg_max_workers ccfg) (c_agent_id claim) None) s1 = (Inr x, s')"
    by (auto simp: fail_run_def cbind_Inr)
  from f obtain st where st: "finishRun e (c_run_id claim) (c_agent_id claim) (worker_finish e False (Some reason) (Some code) policy) (co_st (sv_co s)) = (Inr (), st)"
      "co_st (sv_co s1) = st" by (auto simp: on_dir_Inr)
  from finishRun_after [OF assms(2) st(1)] st(2)
  have 1: "claims_ready (sup_db s1)" "run_ended (c_run_id claim) (sup_db s1)"
    by (auto simp: claim_after_def run_ended_def find_claim_def dest: find_in_set)
  have "sup_onward (c_run_id claim) s1 s'" by (rule holdsD [OF ow.dir_cleanup c])
  then show "run_ended (c_run_id claim) (sup_db s')" "claims_ready (sup_db s')" using 1 onward_ended onward_ready by blast+
qed

lemma remediation_ends:
  assumes "executeRemediation e h ccfg pid act msg claim a s = (Inr x, s')" "act = requeue_now \<or> act = block" "claims_ready (sup_db s)"
  shows "run_ended (c_run_id claim) (sup_db s')"
proof -
  from assms(1,2) obtain u s1 where 1: "remediate_finish e ccfg pid act msg claim s = (Inr u, s1)"
      and 2: "emit_run e ''remediation_applied'' claim (remediation_payload pid act msg) s1 = (Inr x, s')"
    by (auto simp: executeRemediation_def cbind_Inr)
  from 1 obtain v s0 where f: "fail_run e ccfg claim (''remediation['' @ pid @ '']: '' @ msg)
      (if act = block then ''ERR_REMEDIATION_BLOCK'' else ''ERR_REMEDIATION_REQUEUE'') (if act = block then ''block'' else ''requeue'') s = (Inr v, s0)"
      and m: "forget_run (c_run_id claim) s0 = (Inr u, s1)"
    by (auto simp: remediate_finish_def cbind_Inr)
  have "sv_co s1 = sv_co s0" using m by (auto simp: forget_run_def)
  moreover have "sup_onward (c_run_id claim) s1 s'" by (rule holdsD [OF ow.keeps_emit 2])
  ultimately show ?thesis using fail_run_ended [OF f assms(3)] onward_ended [of "c_run_id claim" s1 s'] by simp
qed


definition working :: "Claim \<Rightarrow> bool" where
  "working claim \<longleftrightarrow> c_state claim = CS_in_progress \<and> \<not> claimAwaitingInput claim \<and>
     (c_finalization_state claim = None \<or> c_finalization_state claim = Some FS_pr_failed)"

text \<open>
  A run whose worker is lost: nobody holds it and it has been idle for too long; or the worker's session
  is gone; or the worker is alive and asks nothing, but has been nudged as often as it may be and is
  still in the same phase.
\<close>

definition worker_lost :: "host \<Rightarrow> SupervisionConfig \<Rightarrow> Agent list \<Rightarrow> activity_memory \<Rightarrow> supervisor \<Rightarrow> Claim \<Rightarrow> int \<Rightarrow> bool" where
  "worker_lost h cfg agents mem s claim idle \<longleftrightarrow>
     (case agent_by_id agents (c_agent_id claim) of
        None \<Rightarrow> idle \<ge> sc_worker_stale_force_fail_ms cfg
      | Some a \<Rightarrow>
          \<not> reachable_agent a \<or> h_alive h (a_provider a) (the (a_session_handle a)) = Inr False \<or>
          (detectBlockingPromptQuestion h a = Inr None \<and> sv_hooks s (c_agent_id claim) = [] \<and>
           (case (am_phase mem (c_run_id claim), sv_lastPhase s (c_run_id claim)) of (Some p, Some q) \<Rightarrow> p = q | _ \<Rightarrow> True) \<and>
           nudge_count (c_run_id claim) s \<ge> rc_maxNudges (sc_remediation cfg)))"

lemma evaluate_dead:
  "\<not> rs_sessionAlive sig \<Longrightarrow> \<exists>p m. evaluateRemediationPolicies (builtinPolicies cfg) sig = Some (p, m) \<and> pol_action p = requeue_now"
  by (simp add: builtinPolicies_def)

lemma evaluate_stuck:
  assumes "rs_sessionAlive sig" "rs_blockingPrompt sig = None" "rs_hookEvents sig = []" "\<not> rs_phaseChanged sig"
    "rs_nudgeCount sig \<ge> rc_maxNudges cfg"
  shows "\<exists>p m. evaluateRemediationPolicies (builtinPolicies cfg) sig = Some (p, m) \<and> (pol_action p = requeue_now \<or> pol_action p = block)"
  using assms by (simp add: builtinPolicies_def)

lemma ask_adapter_Inr: "ask_adapter a r s = (Inr x, s') \<longleftrightarrow> getAdapter (a_provider a) = Inr () \<and> r = Inr x \<and> s' = s"
  by (auto simp: ask_adapter_def cbind_def split: sum.splits)

text \<open>What the policies say of a lost worker.\<close>

lemma lost_remediation:
  assumes "remediation h cfg claim a idle phase changed hooks attempts s = (Inr found, s')"
    and "\<not> reachable_agent a \<or> h_alive h (a_provider a) (the (a_session_handle a)) = Inr False \<or>
      (detectBlockingPromptQuestion h a = Inr None \<and> hooks = [] \<and> \<not> changed \<and> nudge_count (c_run_id claim) s \<ge> rc_maxNudges (sc_remediation cfg))"
  shows "s' = s \<and> (\<exists>p m. found = Some (p, m) \<and> (pol_action p = requeue_now \<or> pol_action p = block))"
proof -
  have keep: "probe_session h a s = (r, s1) \<Longrightarrow> s1 = s" for r s1
    by (auto simp: probe_session_def cbind_def ask_adapter_def creturn_def split: if_split_asm sum.splits)
  from assms(1) obtain alive prompt where p: "probe_session h a s = (Inr (alive, prompt), s)" and s': "s' = s"
      and found: "found = evaluateRemediationPolicies (builtinPolicies (sc_remediation cfg))
          \<lparr>rs_idleMs = idle, rs_phase = phase, rs_phaseChanged = changed, rs_hookEvents = hooks, rs_blockingPrompt = prompt,
           rs_sessionAlive = alive, rs_attemptCount = attempts, rs_nudgeCount = nudge_count (c_run_id claim) s\<rparr>"
    by (auto simp: remediation_def cbind_Inr dest: keep)
  show ?thesis
  proof (cases alive)
    case False
    then have "\<exists>p m. found = Some (p, m) \<and> pol_action p = requeue_now" unfolding found by (intro evaluate_dead) simp
    then show ?thesis using s' by blast
  next
    case True
    then have "reachable_agent a" "h_alive h (a_provider a) (the (a_session_handle a)) = Inr True" "detectBlockingPromptQuestion h a = Inr prompt"
      using p by (auto simp: probe_session_def cbind_Inr ask_adapter_Inr creturn_def split: if_splits)
    with assms(2) have "prompt = None" "hooks = []" "\<not> changed" "nudge_count (c_run_id claim) s \<ge> rc_maxNudges (sc_remediation cfg)"
      by auto
    then have "\<exists>p m. found = Some (p, m) \<and> (pol_action p = requeue_now \<or> pol_action p = block)"
      unfolding found using True by (intro evaluate_stuck) simp_all
    then show ?thesis using s' by blast
  qed
qed


lemma track_phase_Inr:
  assumes "track_phase run phase s = (Inr changed, s')"
  shows "sv_co s' = sv_co s" "\<not> changed \<Longrightarrow> nudge_count run s' = nudge_count run s"
    "changed \<longleftrightarrow> (case (phase, sv_lastPhase s run) of (Some p, Some q) \<Rightarrow> p \<noteq> q | _ \<Rightarrow> False)"
  using assms by (auto simp: track_phase_def Let_def nudge_count_def split: option.splits if_splits)

lemma supervise_ends:
  assumes "supervise_progress e h cfg agents mem attempts claim idle hooks s = (Inr ts, s')"
    and "worker_lost h cfg agents mem s0 claim idle" "hooks = sv_hooks s0 (c_agent_id claim)" "claims_ready (sup_db s)"
    and "sv_nudgeCount s = sv_nudgeCount s0" "sv_lastPhase s = sv_lastPhase s0"
  shows "run_ended (c_run_id claim) (sup_db s')"
proof -
  let ?phase = "am_phase mem (c_run_id claim)"
  from assms(1) obtain changed s1 found s2 where t: "track_phase (c_run_id claim) ?phase s = (Inr changed, s1)"
      and r: "(case agent_by_id agents (c_agent_id claim) of None \<Rightarrow> creturn None
               | Some a \<Rightarrow> cbind (remediation h cfg claim a idle ?phase changed hooks (attempts (c_task_ref claim)))
                   (\<lambda>found. creturn (map_option (\<lambda>(p, m). (p, m, a)) found))) s1 = (Inr found, s2)"
      and x: "(case found of Some (p, message, a) \<Rightarrow>
            cbind (executeRemediation e h (sc_coordinator cfg) (pol_id p) (pol_action p) message claim a) (\<lambda>_. creturn [])
        | None \<Rightarrow> stale_cascade e h cfg claim (agent_by_id agents (c_agent_id claim)) idle ?phase) s2 = (Inr ts, s')"
    by (auto simp: supervise_progress_def Let_def cbind_Inr)
  note tp = track_phase_Inr [OF t]
  have ready1: "claims_ready (sup_db s1)" using assms(4) tp(1) by simp
  show ?thesis
  proof (cases "agent_by_id agents (c_agent_id claim)")
    case None
    with r have "found = None" "s2 = s1" by (simp_all add: creturn_def)
    moreover have "idle \<ge> sc_worker_stale_force_fail_ms cfg" using assms(2) None by (simp add: worker_lost_def)
    ultimately obtain u s3 v where f: "fail_run e (sc_coordinator cfg) claim
        (''force-failed after '' @ show_int (round_div idle 60000) @ ''min of inactivity'') ''ERR_STALE_WORKER'' ''requeue'' s1 = (Inr u, s3)"
      and m: "forget_run (c_run_id claim) s3 = (Inr v, s')"
      using x None by (auto simp: stale_cascade_def cbind_Inr creturn_def)
    have "sv_co s' = sv_co s3" using m by (auto simp: forget_run_def)
    with fail_run_ended(1) [OF f ready1] show ?thesis by simp
  next
    case (Some a)
    with r obtain found0 where r0: "remediation h cfg claim a idle ?phase changed hooks (attempts (c_task_ref claim)) s1 = (Inr found0, s2)"
        and f0: "found = map_option (\<lambda>(p, m). (p, m, a)) found0"
      by (auto simp: cbind_Inr creturn_def)
    have "\<not> reachable_agent a \<or> h_alive h (a_provider a) (the (a_session_handle a)) = Inr False \<or>
      (detectBlockingPromptQuestion h a = Inr None \<and> hooks = [] \<and> \<not> changed \<and> nudge_count (c_run_id claim) s1 \<ge> rc_maxNudges (sc_remediation cfg))"
      using assms(2,3,5,6) Some tp(2,3) by (auto simp: worker_lost_def nudge_count_def split: option.splits)
    from lost_remediation [OF r0 this] obtain p m where "s2 = s1" "found = Some (p, m, a)" "pol_action p = requeue_now \<or> pol_action p = block"
      using f0 by auto
    moreover from this x obtain u where "executeRemediation e h (sc_coordinator cfg) (pol_id p) (pol_action p) m claim a s1 = (Inr u, s')"
      by (auto simp: cbind_Inr creturn_def)
    ultimately show ?thesis using remediation_ends [OF _ _ ready1] by blast
  qed
qed

lemma enforce_ends:
  assumes "enforce_progress e h cfg agents mem attempts claim s = (Inr ts, s')" "working claim"
    "runIdleMs (Some claim) (am_activity mem (c_run_id claim)) (clock e) = Some idle"
    "worker_lost h cfg agents mem s claim idle" "claims_ready (sup_db s)"
  shows "run_ended (c_run_id claim) (sup_db s')"
proof -
  let ?s = "s\<lparr>sv_hooks := (sv_hooks s)(c_agent_id claim := [])\<rparr>"
  have "supervise_progress e h cfg agents mem attempts claim idle (sv_hooks s (c_agent_id claim)) ?s = (Inr ts, s')"
    using assms(1-3) by (auto simp: enforce_progress_def working_def waiting_finalization_def cbind_Inr consumeHookEvents_def)
  then show ?thesis by (rule supervise_ends [OF _ assms(4)]) (use assms(5) in simp_all)
qed



section \<open>Nudges are bounded\<close>

definition nudge_limit :: "SupervisionConfig \<Rightarrow> int" where
  "nudge_limit cfg = max 1 (rc_maxNudges (sc_remediation cfg))"

definition nudges_within :: "SupervisionConfig \<Rightarrow> supervisor \<Rightarrow> bool" where
  "nudges_within cfg s \<longleftrightarrow> (\<forall>r. nudge_count r s \<le> nudge_limit cfg)"

text \<open>A step that adds no nudge: each count stays or is reset.\<close>

definition calmer :: "supervisor \<Rightarrow> supervisor \<Rightarrow> bool" where
  "calmer s s' \<longleftrightarrow> (\<forall>r. nudge_count r s' = nudge_count r s \<or> nudge_count r s' = 0)"

lemma calmer_co: "holds calmer anything (on_co m)"
  by (simp add: holds_def on_co_def calmer_def nudge_count_def split: prod.split)

interpretation ca: supervision_base calmer h UNIV for h
proof
  show "calmer s s" for s by (simp add: calmer_def)
  show "calmer a b \<Longrightarrow> calmer b c \<Longrightarrow> calmer a c" for a b c unfolding calmer_def by metis
qed (simp_all add: on_dir_def calmer_co, simp_all add: holds_def calmer_def nudge_count_def memory_defs split: option.split)

lemma calmer_within: "calmer s s' \<Longrightarrow> nudges_within cfg s \<Longrightarrow> nudges_within cfg s'"
  unfolding calmer_def nudges_within_def nudge_limit_def by (metis max.coboundedI1 zero_le_one)

lemma evaluate_nudge:
  "evaluateRemediationPolicies (builtinPolicies cfg) sig = Some (p, m) \<Longrightarrow> pol_action p = nudge_targeted \<Longrightarrow> rs_nudgeCount sig < rc_maxNudges cfg"
  by (auto simp: builtinPolicies_def split: if_split_asm)

lemma evaluate_none:
  "evaluateRemediationPolicies (builtinPolicies cfg) sig = None \<Longrightarrow> rs_nudgeCount sig < rc_maxNudges cfg \<or> rs_phaseChanged sig"
  by (auto simp: builtinPolicies_def split: if_split_asm)

lemma remediation_counts:
  assumes "remediation h cfg claim a idle phase changed hooks attempts s = (Inr found, s')"
  shows "s' = s" "found = Some (p, m) \<Longrightarrow> pol_action p = nudge_targeted \<Longrightarrow> nudge_count (c_run_id claim) s < nudge_limit cfg"
    "found = None \<Longrightarrow> nudge_count (c_run_id claim) s < nudge_limit cfg \<or> changed"
proof -
  have keep: "probe_session h a s = (r, s1) \<Longrightarrow> s1 = s" for r s1
    by (auto simp: probe_session_def cbind_def ask_adapter_def creturn_def split: if_split_asm sum.splits)
  from assms obtain alive prompt where s': "s' = s"
      and found: "found = evaluateRemediationPolicies (builtinPolicies (sc_remediation cfg))
          \<lparr>rs_idleMs = idle, rs_phase = phase, rs_phaseChanged = changed, rs_hookEvents = hooks, rs_blockingPrompt = prompt,
           rs_sessionAlive = alive, rs_attemptCount = attempts, rs_nudgeCount = nudge_count (c_run_id claim) s\<rparr>"
    by (auto simp: remediation_def cbind_Inr dest: keep)
  show "s' = s" by (rule s')
  show "found = Some (p, m) \<Longrightarrow> pol_action p = nudge_targeted \<Longrightarrow> nudge_count (c_run_id claim) s < nudge_limit cfg"
    using evaluate_nudge [OF found [symmetric, THEN trans]] by (simp add: nudge_limit_def)
  show "found = None \<Longrightarrow> nudge_count (c_run_id claim) s < nudge_limit cfg \<or> changed"
    using evaluate_none [OF found [symmetric, THEN trans]] by (auto simp: nudge_limit_def)
qed

lemma count_within:
  "nudges_within cfg s \<Longrightarrow> nudge_count r s < nudge_limit cfg \<Longrightarrow> nudges_within cfg (snd (count_nudge r s))"
  by (simp add: nudges_within_def count_nudge_def nudge_count_def)

lemma cbind_within:
  assumes "nudges_within cfg (snd (m s))" "\<And>x s1. m s = (Inr x, s1) \<Longrightarrow> nudges_within cfg s1 \<Longrightarrow> nudges_within cfg (snd (k x s1))"
  shows "nudges_within cfg (snd (cbind m k s))"
  using assms by (cases "m s"; cases "fst (m s)") (auto simp: cbind_def)

lemma holds_within:
  assumes "holds calmer Q m" "nudges_within cfg s"
  shows "nudges_within cfg (snd (m s))"
  by (rule calmer_within [OF _ assms(2)]) (use assms(1) in \<open>simp add: holds_def\<close>)

lemma on_co_counts: "on_co m s = (r, s1) \<Longrightarrow> nudge_count q s1 = nudge_count q s"
  by (auto simp: on_co_def nudge_count_def split: prod.splits)

lemma targeted_within:
  assumes "nudges_within cfg s" "nudge_count (c_run_id claim) s < nudge_limit cfg"
  shows "nudges_within cfg (snd (targeted_nudge e h msg claim a s))"
proof (cases "reachable_agent a")
  case True
  have "nudges_within cfg (snd (cbind (count_nudge (c_run_id claim)) (\<lambda>_. note_inactive (c_run_id claim) (clock e)) s1))"
    if "on_co (send_to e h a (InProgressNudge (c_run_id claim) (Some msg))) s = (Inr x, s1)" "nudges_within cfg s1" for x s1
    using that assms(2) on_co_counts [OF that(1)]
    by (intro cbind_within) (auto intro: count_within holds_within [OF ca.mem_inactive(2)])
  then show ?thesis unfolding targeted_nudge_def using True
    by (simp only: if_True) (rule cbind_within, rule holds_within [OF calmer_co assms(1)], blast)
qed (use assms in \<open>simp add: targeted_nudge_def creturn_def\<close>)

lemma executeRemediation_within:
  assumes "nudges_within cfg s" "act = nudge_targeted \<Longrightarrow> nudge_count (c_run_id claim) s < nudge_limit cfg"
  shows "nudges_within cfg (snd (executeRemediation e h ccfg pid act msg claim a s))"
  unfolding executeRemediation_def
proof (rule cbind_within)
  have input: "holds calmer anything (cbind (recordCoordinatorInputRequest e claim msg (''remediation_policy:'' @ pid)) (\<lambda>_. creturn ()))"
    by (intro ca.bindI ca.keeps_input_request ca.holds_creturn) simp
  show "nudges_within cfg (snd ((case act of
              record_input \<Rightarrow> cbind (recordCoordinatorInputRequest e claim msg (''remediation_policy:'' @ pid)) (\<lambda>_. creturn ())
            | nudge_targeted \<Rightarrow> targeted_nudge e h msg claim a
            | requeue_now \<Rightarrow> remediate_finish e ccfg pid act msg claim
            | block \<Rightarrow> remediate_finish e ccfg pid act msg claim) s))"
    using assms holds_within [OF input assms(1)] holds_within [OF ca.keeps_remediate_finish assms(1)] targeted_within
    by (cases act) simp_all
qed (rule holds_within [OF ca.keeps_emit])

definition may_nudge :: "env \<Rightarrow> host \<Rightarrow> SupervisionConfig \<Rightarrow> Claim \<Rightarrow> thunk list \<Rightarrow> supervisor \<Rightarrow> bool" where
  "may_nudge e h cfg claim ts s \<longleftrightarrow>
     ts = [] \<or> (\<exists>a idle phase. ts = [in_progress_nudge e h claim a idle phase]) \<and> nudge_count (c_run_id claim) s < nudge_limit cfg"

lemma calmer_may_nudge: "calmer s s' \<Longrightarrow> nudge_count r s < nudge_limit cfg \<Longrightarrow> nudge_count r s' < nudge_limit cfg"
proof -
  assume h: "calmer s s'" "nudge_count r s < nudge_limit cfg"
  have "0 < nudge_limit cfg" by (simp add: nudge_limit_def)
  then show ?thesis using h unfolding calmer_def by metis
qed

lemma supervise_within:
  assumes "nudges_within cfg s" "supervise_progress e h cfg agents mem attempts claim idle hooks s = (r, s')"
  shows "nudges_within cfg s' \<and> (\<forall>ts. r = Inr ts \<longrightarrow> may_nudge e h cfg claim ts s')"
proof -
  let ?phase = "am_phase mem (c_run_id claim)" and ?agent = "agent_by_id agents (c_agent_id claim)"
  obtain changed s1 where t: "track_phase (c_run_id claim) ?phase s = (Inr changed, s1)"
    by (simp add: track_phase_def Let_def)
  have w1: "nudges_within cfg s1" using holds_within [OF ca.mem_run(2) assms(1)] t by (metis UNIV_I snd_conv)
  have reset: "changed \<Longrightarrow> nudge_count (c_run_id claim) s1 = 0"
    using t by (auto simp: track_phase_def Let_def nudge_count_def split: option.splits if_splits)
  have lim: "0 < nudge_limit cfg" by (simp add: nudge_limit_def)
  have cc: "holds calmer (\<lambda>ts. ts = [] \<or> (\<exists>a. ag = Some a \<and> ts = [in_progress_nudge e h claim a idle ?phase])) (stale_cascade e h cfg claim ag idle ?phase)" for ag
    by (rule ca.keeps_cascade) simp
  show ?thesis
  proof (cases ?agent)
    case None
    then have c: "stale_cascade e h cfg claim None idle ?phase s1 = (r, s')"
      using assms(2) t by (simp add: supervise_progress_def Let_def cbind_def creturn_def)
    have "nudges_within cfg s'" by (rule calmer_within [OF holdsD [OF cc c] w1])
    moreover have "ts = []" if "r = Inr ts" for ts using holds_result [OF cc c [unfolded that]] by simp
    ultimately show ?thesis by (simp add: may_nudge_def)
  next
    case (Some a)
    obtain q s2 where m: "remediation h cfg claim a idle ?phase changed hooks (attempts (c_task_ref claim)) s1 = (q, s2)" by fastforce
    have w2: "nudges_within cfg s2" using holds_within [OF ca.keeps_policies w1] m by (metis snd_conv)
    show ?thesis
    proof (cases q)
      case (Inl err)
      then show ?thesis using assms(2) t Some m w2 by (auto simp: supervise_progress_def Let_def cbind_def)
    next
      case (Inr found)
      note rc = remediation_counts [OF m [unfolded Inr]]
      show ?thesis
      proof (cases found)
        case None
        then have c: "stale_cascade e h cfg claim (Some a) idle ?phase s2 = (r, s')"
          using assms(2) t Some m Inr by (simp add: supervise_progress_def Let_def cbind_def creturn_def)
        have "nudge_count (c_run_id claim) s2 < nudge_limit cfg" using rc(1) rc(3) [OF None] reset lim by auto
        then have "nudge_count (c_run_id claim) s' < nudge_limit cfg" by (rule calmer_may_nudge [OF holdsD [OF cc c]])
        moreover have "nudges_within cfg s'" by (rule calmer_within [OF holdsD [OF cc c] w2])
        moreover have "ts = [] \<or> (\<exists>a idle phase. ts = [in_progress_nudge e h claim a idle phase])" if "r = Inr ts" for ts
          using holds_result [OF cc c [unfolded that]] by blast
        ultimately show ?thesis by (simp add: may_nudge_def)
      next
        case f: (Some pm)
        obtain p msg where pm: "pm = (p, msg)" by (cases pm)
        have x: "cbind (executeRemediation e h (sc_coordinator cfg) (pol_id p) (pol_action p) msg claim a) (\<lambda>_. creturn []) s2 = (r, s')"
          using assms(2) t Some m Inr f pm by (simp add: supervise_progress_def Let_def cbind_def creturn_def)
        have "nudges_within cfg (snd (cbind (executeRemediation e h (sc_coordinator cfg) (pol_id p) (pol_action p) msg claim a) (\<lambda>_. creturn ([] :: thunk list)) s2))"
          by (rule cbind_within, rule executeRemediation_within [OF w2]) (use rc f pm in \<open>auto simp: creturn_def\<close>)
        then have "nudges_within cfg s'" by (simp only: x snd_conv)
        then show ?thesis using x by (auto simp: may_nudge_def cbind_Inr creturn_def)
      qed
    qed
  qed
qed

lemma enforce_within:
  assumes "nudges_within cfg s" "enforce_progress e h cfg agents mem attempts claim s = (r, s')"
  shows "nudges_within cfg s' \<and> (\<forall>ts. r = Inr ts \<longrightarrow> may_nudge e h cfg claim ts s')"
proof -
  have quiet: "nudges_within cfg s' \<and> (\<forall>ts. r = Inr ts \<longrightarrow> may_nudge e h cfg claim ts s')"
    if "holds calmer (\<lambda>ts. ts = []) m" "m s0 = (r, s')" "nudges_within cfg s0" for m :: "thunk list sup" and s0
    using calmer_within [OF holdsD [OF that(1,2)] that(3)] holds_result [OF that(1)] that(2) by (auto simp: may_nudge_def)
  have calm: "holds calmer (\<lambda>ts. ts = []) (cbind (forget_run r) (\<lambda>_. creturn []))"
      "holds calmer (\<lambda>ts. ts = []) (cbind (forget_inactive r) (\<lambda>_. creturn []))"
      "holds calmer (\<lambda>ts. ts = []) (cbind (handleFinalizationRetry e h cfg agents claim idle) (\<lambda>_. creturn []))"
      "holds calmer (\<lambda>ts. ts = []) (creturn [])" for r idle
    by (intro ca.bindI ca.mem_run ca.mem_inactive ca.keeps_retry ca.holds_creturn; simp)+
  show ?thesis
  proof (cases "c_state claim = CS_in_progress")
    case False
    then show ?thesis by (intro quiet [OF calm(1) _ assms(1)]) (use assms(2) in \<open>simp add: enforce_progress_def\<close>)
  next
    case True
    let ?s = "s\<lparr>sv_hooks := (sv_hooks s)(c_agent_id claim := [])\<rparr>"
    have w: "nudges_within cfg ?s" using assms(1) by (simp add: nudges_within_def nudge_count_def)
    let ?idle = "runIdleMs (Some claim) (am_activity mem (c_run_id claim)) (clock e)"
    have step: "(case ?idle of None \<Rightarrow> creturn [] | Some idleMs \<Rightarrow>
          if claimAwaitingInput claim \<or> waiting_finalization (c_finalization_state claim)
          then cbind (forget_inactive (c_run_id claim)) (\<lambda>_. creturn [])
          else if c_finalization_state claim \<in> {Some FS_finalize_rebase_requested, Some FS_finalize_rebase_in_progress}
          then cbind (handleFinalizationRetry e h cfg agents claim idleMs) (\<lambda>_. creturn [])
          else supervise_progress e h cfg agents mem attempts claim idleMs (sv_hooks s (c_agent_id claim))) ?s = (r, s')"
      using assms(2) True by (simp add: enforce_progress_def cbind_def [of "consumeHookEvents _"] consumeHookEvents_def)
    show ?thesis
    proof (cases ?idle)
      case None
      then show ?thesis by (intro quiet [OF calm(4) _ w]) (use step in simp)
    next
      case (Some idle)
      consider "claimAwaitingInput claim \<or> waiting_finalization (c_finalization_state claim)"
        | "\<not> (claimAwaitingInput claim \<or> waiting_finalization (c_finalization_state claim))"
          "c_finalization_state claim \<in> {Some FS_finalize_rebase_requested, Some FS_finalize_rebase_in_progress}"
        | "\<not> (claimAwaitingInput claim \<or> waiting_finalization (c_finalization_state claim))"
          "c_finalization_state claim \<notin> {Some FS_finalize_rebase_requested, Some FS_finalize_rebase_in_progress}" by blast
      then show ?thesis
      proof cases
        case 1
        then show ?thesis by (intro quiet [OF calm(2) _ w]) (use step Some in simp)
      next
        case 2
        show ?thesis by (rule quiet [OF calm(3) _ w]) (use step Some 2 in \<open>simp only: option.case if_False if_True\<close>)
      next
        case 3
        show ?thesis by (rule supervise_within [OF w]) (use step Some 3 in \<open>simp only: option.case if_False\<close>)
      qed
    qed
  qed
qed

text \<open>The nudges a pass collects: at most one for each run, and none for a run that has had them all.\<close>

definition collected :: "env \<Rightarrow> host \<Rightarrow> SupervisionConfig \<Rightarrow> string set \<Rightarrow> thunk list \<Rightarrow> supervisor \<Rightarrow> bool" where
  "collected e h cfg runs ts s \<longleftrightarrow>
     (\<exists>cs. list_all2 (\<lambda>t c. \<exists>a idle phase. t = in_progress_nudge e h c a idle phase) ts cs \<and> distinct (map c_run_id cs) \<and>
        c_run_id ` set cs \<subseteq> runs \<and> (\<forall>c \<in> set cs. nudge_count (c_run_id c) s < nudge_limit cfg))"

lemma gather_within:
  assumes "nudges_within cfg s" "distinct (map c_run_id claims)" "gather (enforce_progress e h cfg agents mem attempts) claims s = (r, s')"
  shows "nudges_within cfg s' \<and> (\<forall>ts. r = Inr ts \<longrightarrow> collected e h cfg (c_run_id ` set claims) ts s')"
  using assms
proof (induction claims arbitrary: s r s')
  case Nil
  then show ?case by (auto simp: creturn_def collected_def)
next
  case (Cons c claims)
  obtain x s1 where x: "enforce_progress e h cfg agents mem attempts c s = (x, s1)" by fastforce
  note w = enforce_within [OF Cons.prems(1) x]
  obtain y s2 where y: "gather (enforce_progress e h cfg agents mem attempts) claims s1 = (y, s2)" by fastforce
  have IH: "nudges_within cfg s2 \<and> (\<forall>ts. y = Inr ts \<longrightarrow> collected e h cfg (c_run_id ` set claims) ts s2)"
    using Cons.IH [OF _ _ y] w Cons.prems(2) by simp
  show ?case
  proof (cases "(\<exists>err. x = Inl err) \<or> (\<exists>err. y = Inl err)")
    case True
    then show ?thesis using Cons.prems(3) x y w IH by (cases x) (auto simp: cbind_def)
  next
    case False
    then obtain t us where xy: "x = Inr t" "y = Inr us" by (cases x; cases y) auto
    with Cons.prems(3) x y have r: "r = Inr (t @ us)" "s' = s2" by (auto simp: cbind_def creturn_def)
    from IH xy obtain cs where cs: "list_all2 (\<lambda>t c. \<exists>a idle phase. t = in_progress_nudge e h c a idle phase) us cs"
        "distinct (map c_run_id cs)" "c_run_id ` set cs \<subseteq> c_run_id ` set claims" "\<forall>c \<in> set cs. nudge_count (c_run_id c) s2 < nudge_limit cfg"
      by (auto simp: collected_def)
    have frame: "mem_frame (c_run_id ` set claims) s1 s2"
      by (rule holdsD [OF mf.holds_gather [OF mf.keeps_enforce_progress] y]) simp
    have new: "c_run_id c \<notin> c_run_id ` set claims" using Cons.prems(2) by simp
    have "may_nudge e h cfg c t s1" using w xy by simp
    then have "may_nudge e h cfg c t s2" using frame new by (simp add: may_nudge_def mem_frame_def nudge_count_def)
    then have "collected e h cfg (c_run_id ` set (c # claims)) (t @ us) s2"
    proof (unfold may_nudge_def, elim disjE conjE exE)
      assume "t = []"
      then show ?thesis using cs unfolding collected_def by auto
    next
      fix a idle phase assume "t = [in_progress_nudge e h c a idle phase]" "nudge_count (c_run_id c) s2 < nudge_limit cfg"
      then show ?thesis using cs new unfolding collected_def by (intro exI [of _ "c # cs"]) auto
    qed
    then show ?thesis using IH r by simp
  qed
qed

lemma progress_nudge_within:
  assumes "nudges_within cfg s" "nudge_count (c_run_id c) s < nudge_limit cfg" "in_progress_nudge e h c a idle phase s = (r, s')"
  shows "nudges_within cfg s'" "q \<noteq> c_run_id c \<Longrightarrow> nudge_count q s' = nudge_count q s"
proof -
  have tail: "nudges_within cfg (snd (cbind (count_nudge (c_run_id c)) (\<lambda>_. creturn (c_agent_id c)) s1))"
    if "nudges_within cfg s1" "nudge_count (c_run_id c) s1 < nudge_limit cfg" for s1
    by (rule cbind_within, rule count_within [OF that]) (simp add: creturn_def)
  have "nudges_within cfg (snd (in_progress_nudge e h c a idle phase s))"
    unfolding in_progress_nudge_def
  proof (rule cbind_within)
    show "nudges_within cfg (snd (on_co (send_to e h a (InProgressNudge (c_run_id c) phase)) s))"
      by (rule holds_within [OF calmer_co assms(1)])
    fix x s1 assume 1: "on_co (send_to e h a (InProgressNudge (c_run_id c) phase)) s = (Inr x, s1)" "nudges_within cfg s1"
    let ?ev = "emit_run e ''need_input'' c [(''reason'', JStr ''run_progress_stale''), (''action'', JStr ''nudge_sent''),
        (''idle_ms'', JNum idle), (''phase'', jstr_opt phase)]"
    show "nudges_within cfg (snd (cbind ?ev (\<lambda>_. cbind (note_inactive (c_run_id c) (clock e)) (\<lambda>_.
        cbind (count_nudge (c_run_id c)) (\<lambda>_. creturn (c_agent_id c)))) s1))"
    proof (rule cbind_within)
      show "nudges_within cfg (snd (?ev s1))" by (rule holds_within [OF ca.keeps_emit 1(2)])
      fix y s2 assume 2: "?ev s1 = (Inr y, s2)" "nudges_within cfg s2"
      have "nudge_count (c_run_id c) s2 < nudge_limit cfg"
        using on_co_counts [OF 1(1)] on_co_counts [OF 2(1) [unfolded emit_run_def on_dir_def]] assms(2) by simp
      with 2(2) show "nudges_within cfg (snd (cbind (note_inactive (c_run_id c) (clock e)) (\<lambda>_.
          cbind (count_nudge (c_run_id c)) (\<lambda>_. creturn (c_agent_id c))) s2))"
        by (intro cbind_within tail) (auto simp: note_inactive_def nudges_within_def nudge_count_def)
    qed
  qed
  then show "nudges_within cfg s'" using assms(3) by simp
  have "mem_frame {c_run_id c} s s'" by (rule holdsD [OF mf.keeps_progress_nudge assms(3)]) simp
  then show "q \<noteq> c_run_id c \<Longrightarrow> nudge_count q s' = nudge_count q s" by (simp add: mem_frame_def nudge_count_def)
qed

lemma batch_within:
  assumes "nudges_within cfg s" "list_all2 (\<lambda>t c. \<exists>a idle phase. t = in_progress_nudge e h c a idle phase) ts cs"
    "distinct (map c_run_id cs)" "\<forall>c \<in> set cs. nudge_count (c_run_id c) s < nudge_limit cfg"
  shows "nudges_within cfg (snd (executeNudgeBatch ts s))"
  using assms
proof (induction ts arbitrary: cs s)
  case (Cons t ts)
  then obtain c ds a idle phase where cs: "cs = c # ds" "t = in_progress_nudge e h c a idle phase"
    by (cases cs) auto
  obtain r s1 where t: "t s = (r, s1)" by (cases "t s")
  note w = progress_nudge_within [OF Cons.prems(1) _ t [unfolded cs(2)]]
  have "nudges_within cfg (snd (executeNudgeBatch ts s1))"
  proof (rule Cons.IH [of _ ds])
    show "nudges_within cfg s1" using w(1) Cons.prems(4) cs by simp
    show "\<forall>c \<in> set ds. nudge_count (c_run_id c) s1 < nudge_limit cfg"
      using w(2) Cons.prems(3,4) cs by (auto simp: image_iff)
  qed (use Cons.prems cs in auto)
  then show ?case using t
    by (cases r) (auto simp: ctry_def cbind_def creturn_def split: prod.split sum.split)
qed (simp add: creturn_def)



section \<open>Messages reach only verified sessions\<close>

text \<open>
  The recorded session of a message is the recipient's, it is running, and inspecting it finds no other
  process than the recorded one.
\<close>

fun verified_call :: "host \<Rightarrow> host_call \<Rightarrow> bool" where
  "verified_call h (Sent provider handle msg (Some s)) \<longleftrightarrow>
     ss_agent_id s = handle_agent handle \<and> ss_state s = SS_running \<and> \<not> identityMismatch (h_os h) s (h_inspect h provider handle)"
| "verified_call h _ \<longleftrightarrow> True"

definition gated :: "host \<Rightarrow> coord_state \<Rightarrow> coord_state \<Rightarrow> bool" where
  "gated h c c' \<longleftrightarrow> (\<exists>calls. co_calls c' = co_calls c @ calls \<and> list_all (verified_call h) calls)"

lemma gated_same: "co_calls c' = co_calls c \<Longrightarrow> gated h c c'"
  by (simp add: gated_def)

interpretation gc: step_preorder "gated h" for h
  by unfold_locales (auto simp: gated_def)

lemma gated_on_st: "holds (gated h) anything (on_st f)"
  by (simp add: holds_def on_st_def gated_same split: prod.split)

lemma writable_Inr:
  assumes "assertSessionWritable e h provider handle c = (Inr u, c')"
  shows "c' = c" "verified_call h (Sent provider handle msg (currentSessionForAgent (handle_agent handle) (st_db (co_st c))))"
proof -
  have agent: "ss_agent_id s = handle_agent handle" if "currentSessionForAgent (handle_agent handle) db = Some s" for s db
    using that by (auto simp: currentSessionForAgent_def dest: find_in_set)
  from assms show "c' = c"
    by (auto simp: assertSessionWritable_def on_st_def split: option.splits sum.splits if_split_asm)
  from assms show "verified_call h (Sent provider handle msg (currentSessionForAgent (handle_agent handle) (st_db (co_st c))))"
    by (cases "currentSessionForAgent (handle_agent handle) (st_db (co_st c))")
       (auto simp: assertSessionWritable_def on_st_def dest: agent split: sum.splits if_split_asm)
qed

lemma deliver_sessions:
  assumes "deliverStructured e h handle body kind key c = (r, c')"
  shows "db_sessions (st_db (co_st c')) = db_sessions (st_db (co_st c))" "co_calls c' = co_calls c"
  using assms deliver_command_frame [of "co_st c" e h]
  by (auto simp: deliverStructured_def on_st_def queue_frame_def split: option.splits prod.splits if_split_asm) (metis snd_conv)

lemma gated_adapter_send: "holds (gated h) anything (adapter_send e h provider handle msg)"
  unfolding holds_def
proof (intro allI conjI impI TrueI)
  fix c
  obtain r c1 where w: "assertSessionWritable e h provider handle c = (r, c1)" by (cases "assertSessionWritable e h provider handle c")
  have c1: "gated h c c1" using w by (auto simp: assertSessionWritable_def on_st_def gated_same split: prod.splits)
  show "gated h c (snd (adapter_send e h provider handle msg c))"
  proof (cases r)
    case (Inl err)
    then show ?thesis using w c1 by (simp add: adapter_send_def cbind_def)
  next
    case (Inr u)
    note wr = writable_Inr(1) [OF w [unfolded Inr]] writable_Inr(2) [OF w [unfolded Inr], of msg]
    have rec: "gated h c (snd (record_sent provider handle msg c2))"
      if "db_sessions (st_db (co_st c2)) = db_sessions (st_db (co_st c))" "co_calls c2 = co_calls c" for c2
      using that wr(2) by (simp add: record_sent_def gated_def currentSessionForAgent_def)
    obtain q c2 where d: "deliverStructured e h handle (h_text h msg) ''coordinator_message'' (''coordinator:'' @ h_random h (st_db (co_st c))) c = (q, c2)"
      by fastforce
    note ds = deliver_sessions [OF d]
    show ?thesis
      using w Inr wr(1) rec [OF ds] rec [of c] d gated_same [OF ds(2)] gated_same [of c c]
      by (cases q; cases "h_write h provider handle") (simp_all add: adapter_send_def cbind_def creturn_def)
  qed
qed

lemma gated_send_to: "holds (gated h) anything (send_to e h a msg)"
  unfolding send_to_def by (intro gc.holds_cbind [where P = anything] gated_adapter_send gc.holds_answer) simp_all

lemmas gated_bind = gc.holds_cbind [where P = anything, simplified]
lemmas gated_try = gc.holds_ctry [where P = anything, simplified]

lemma gated_send: "holds (gated h) anything (sendCoordinatorMessage e h i msg)"
  unfolding sendCoordinatorMessage_def
  by (intro gated_bind gated_on_st gc.holds_option gc.holds_if gc.holds_creturn gc.holds_answer gated_try gated_adapter_send) simp_all

lemma gated_blocked: "holds (gated h) anything (markFinalizeBlocked e cfg claim reason)"
  unfolding markFinalizeBlocked_def by (intro gated_try gated_bind gated_on_st gc.holds_creturn) simp_all

lemma gated_rebase: "holds (gated h) anything (requestFinalizeRebase e h cfg claim reason inc)"
  unfolding requestFinalizeRebase_def
  by (intro gated_bind gated_try gated_on_st gc.holds_if gated_blocked gated_send gc.holds_creturn gc.holds_cquiet) simp_all

lemma gated_call: "(\<And>x. verified_call h (k x)) \<Longrightarrow> holds (gated h) anything (call_host r k)"
  by (auto simp: holds_def call_host_def gated_def split: sum.split)

lemma gated_finish: "holds (gated h) anything (finish_merged_run e h cfg claim branch)"
proof -
  have "holds (gated h) anything (\<lambda>c. (Inr True, c\<lparr>co_worktrees := w c\<rparr>))" for w :: "coord_state \<Rightarrow> RunWorktreeEntry list"
    by (simp add: holds_def gated_same)
  then show ?thesis unfolding finish_merged_run_def by (intro gated_bind gated_on_st gated_send)
qed

lemma gated_paths:
  "holds (gated h) anything (mergeAndFinishDirectRun e h cfg claim wt)"
  "holds (gated h) anything (merge_reviewed_pr e h cfg claim wt)"
  "holds (gated h) anything (open_pr e h cfg claim wt task n)"
  unfolding mergeAndFinishDirectRun_def merge_reviewed_pr_def open_pr_def Let_def
  by (intro gated_try gated_bind gated_call gated_on_st gated_rebase gated_blocked gated_finish gated_send_to gc.holds_cquiet
      gc.holds_if gc.holds_option gc.holds_creturn; simp)+

lemma gated_work: "holds (gated h) anything (finalize_work e h cfg claim wt n)"
  unfolding finalize_work_def finalize_direct_def
  by (intro gated_bind gated_send gated_on_st gc.holds_if gated_paths gated_try gc.holds_answer gated_blocked gated_rebase) simp_all

lemma gated_finalizeRun: "gated h c (snd (finalizeRun e h cfg claim n c))"
  using gated_blocked [of h e cfg claim] gated_paths(2) [of h e cfg claim] gated_work [of h e cfg claim]
  by (simp add: finalizeRun_def holds_def split: option.split)

definition sup_gated :: "host \<Rightarrow> supervisor \<Rightarrow> supervisor \<Rightarrow> bool" where
  "sup_gated h s s' \<longleftrightarrow> gated h (sv_co s) (sv_co s')"

lemma sup_gated_co: "holds (gated h) anything m \<Longrightarrow> holds (sup_gated h) anything (on_co m)"
  unfolding sup_gated_def [abs_def] by (rule holds_on_co)

lemma sup_gated_mem: "(\<And>s. sv_co (snd (m s)) = sv_co s) \<Longrightarrow> holds (sup_gated h) anything m"
  by (simp add: holds_def sup_gated_def gated_same)

interpretation ga: supervision "sup_gated h" h UNIV for h
proof
  show "sup_gated h s s" for s by (simp add: sup_gated_def gated_same)
  show "sup_gated h a b \<Longrightarrow> sup_gated h b c \<Longrightarrow> sup_gated h a c" for a b c by (auto simp: sup_gated_def intro: gc.R_trans)
qed (simp_all only: on_dir_def, (intro sup_gated_co gated_on_st gated_send_to gated_blocked gated_rebase)+,
     (rule sup_gated_mem, simp add: memory_defs split: option.split)+)


section \<open>A pass over one run\<close>

definition claim2 :: Claim where
  "claim2 = (claim0_run ''run-1'' ''f/a'' CS_in_progress)\<lparr>c_started_at := Some (Ts 0)\<rparr>"

definition scfg0 :: SupervisionConfig where
  "scfg0 = \<lparr>sc_run_start_timeout_ms = 600000, sc_run_inactive_nudge_ms = 600000, sc_run_inactive_nudge_interval_ms = 300000,
     sc_worker_stale_soft_ms = 1800000, sc_worker_stale_nudge_ms = 3600000, sc_worker_stale_force_fail_ms = 7200000,
     sc_remediation = \<lparr>rc_maxAttempts = 5, rc_phaseStuckMs = 1800000, rc_maxNudges = 3\<rparr>, sc_coordinator = cfg0\<rparr>"

definition sup0 :: supervisor where
  "sup0 = \<lparr>sv_co = coord0, sv_runStartNudge = (\<lambda>_. None), sv_inactiveNudge = (\<lambda>_. None), sv_nudgeCount = (\<lambda>_. None),
     sv_lastPhase = (\<lambda>_. None), sv_hooks = (\<lambda>_. [])\<rparr>"

definition working_st :: orc_state where
  "working_st = legacy_st\<lparr>st_db := runs_db\<lparr>db_runs := [\<lparr>rn_run_id = ''run-1'', rn_task_ref = ''f/a'', rn_agent_id = Some ''w'',
     rn_state = CS_in_progress, rn_created_at = Ts 0, rn_updated_at = Ts 0, rn_claim_json = Some claim2\<rparr>]\<rparr>,
     st_claims_json := Some [claim2]\<rparr>"

definition working_sup :: supervisor where
  "working_sup = sup0\<lparr>sv_co := coord0\<lparr>co_st := working_st\<rparr>\<rparr>"

abbreviation later_env :: env where
  "later_env \<equiv> env0\<lparr>clock := 7200000\<rparr>"

lemma working_ready: "claims_ready (st_db working_st)"
  and working_rows: "readRows (st_db working_st) = [claim2]"
  by (simp_all add: claims_ready_def working_st_def cut_over_def readRows_def runs_db_def empty_db_def List.map_filter_simps runs_inv_def
      runs_one_active_def claim2_def claim0_run_def row_matches_def)

lemma working_commit:
  fixes reason :: string
  defines "opts \<equiv> worker_finish later_env False (Some reason) (Some ''ERR_STALE_WORKER'') ''requeue''"
  shows "\<exists>db. commit_claims_txn later_env (Some [claim2]) (mutate_claim ''run-1'' (finished_claim opts) [claim2])
    [finish_event ''run-1'' ''f/a'' ''w'' opts] (st_db working_st) = Inr db"
  by (simp add: opts_def claim2_def claim0_run_def mutate_claim_def working_st_def commit_claims_txn_def importLegacyClaims_def runs_db_def empty_db_def
        upsertClaim_def runs_one_active_def finished_claim_def worker_finish_def resetClaimVolatileFields_def claim_updated_at_def
        append_event_def appendSequencedEvent_def ensureEventIdentity_def next_event_seq_def finish_event_def opt_field_def
        mk_event_def env0_def TASK_REF_RE_def kebab_char_def alnum_lower_def is_lower_def is_digit_def RUN_ID_RE_def
        ts_finite_def now_ts_def orc_eval)

lemma working_finish:
  "\<exists>st. finishRun later_env ''run-1'' ''w'' (worker_finish later_env False (Some reason) (Some ''ERR_STALE_WORKER'') ''requeue'') working_st =
     (Inr (), st) \<and> st_agents_json st = None"
proof -
  let ?o = "worker_finish later_env False (Some reason) (Some ''ERR_STALE_WORKER'') ''requeue''"
  obtain db where db: "commit_claims_txn later_env (Some [claim2]) (mutate_claim ''run-1'' (finished_claim ?o) [claim2])
      [finish_event ''run-1'' ''f/a'' ''w'' ?o] (st_db working_st) = Inr db" using working_commit by blast
  have st: "st_claims_json working_st = Some [claim2]" "st_store working_st = None" "st_agents_json working_st = None"
      "readBacklog working_st = Inr [\<lparr>f_ref = ''f'', f_title = ''f'', f_tasks = [legacy_task]\<rparr>]"
    by (simp_all add: working_st_def legacy_st_def readBacklog_def)
  have c: "find_claim ''run-1'' [claim2] = Some claim2" "c_agent_id claim2 = ''w''" "c_state claim2 = CS_in_progress" "c_task_ref claim2 = ''f/a''"
    by (simp_all add: claim2_def claim0_run_def find_claim_def)
  have v: "assertValidTimestamp (fo_at ?o) ''finishRun'' = Inr ()" "fo_emitEvent ?o"
    by (simp_all add: worker_finish_def assertValidTimestamp_def now_ts_def ts_finite_def)
  show ?thesis
    by (simp add: finishRun_def with_own_claim_def readJsonClaims_ready [OF working_ready] working_rows c v st commitClaims_def db commitBacklog_def
        Let_def split: option.split)
qed

lemma working_pass: "\<exists>s'. enforceInProgressLifecycle later_env host0 scfg0 [] [claim2] no_activity (\<lambda>_. 0) working_sup = (Inr [], s')"
proof -
  let ?reason = "''force-failed after '' @ show_int (round_div 7200000 60000) @ ''min of inactivity''"
  obtain st where f: "finishRun later_env ''run-1'' ''w'' (worker_finish later_env False (Some ?reason) (Some ''ERR_STALE_WORKER'') ''requeue'') working_st = (Inr (), st)"
      and a: "st_agents_json st = None" using working_finish [of ?reason] by blast
  have idle: "runIdleMs (Some claim2) (am_activity no_activity ''run-1'') 7200000 = Some 7200000"
    by (simp add: runIdleMs_def no_activity_def claim2_def claim0_run_def Let_def)
  have c: "c_run_id claim2 = ''run-1''" "c_agent_id claim2 = ''w''" "c_state claim2 = CS_in_progress" "c_task_ref claim2 = ''f/a''"
      "c_finalization_state claim2 = None" "\<not> claimAwaitingInput claim2"
    by (simp_all add: claim2_def claim0_run_def claimAwaitingInput_def)
  have clean: "cleanupRunCapacity later_env 4 ''w'' None st = (Inr (), st)"
    by (simp add: cleanupRunCapacity_def getAgent_def readAgentsFile_def readAgents_def a)
  let ?s = "working_sup\<lparr>sv_hooks := (sv_hooks working_sup)(''w'' := [])\<rparr>"
  have cfg: "sc_worker_stale_force_fail_ms scfg0 = 7200000" "sc_coordinator scfg0 = cfg0" "am_phase no_activity r = None" for r
    by (simp_all add: scfg0_def no_activity_def)
  obtain s1 where "fail_run later_env cfg0 claim2 ?reason ''ERR_STALE_WORKER'' ''requeue'' ?s = (Inr (), s1)"
    using f clean by (simp add: fail_run_def cbind_def on_dir_def on_co_def on_st_def working_sup_def c cfg0_def)
  then obtain s2 where "supervise_progress later_env host0 scfg0 [] no_activity (\<lambda>_. 0) claim2 7200000 (sv_hooks working_sup ''w'') ?s = (Inr [], s2)"
    by (simp add: supervise_progress_def agent_by_id_def track_phase_def stale_cascade_def cfg creturn_def cbind_def forget_run_def)
  then have "enforce_progress later_env host0 scfg0 [] no_activity (\<lambda>_. 0) claim2 working_sup = (Inr [], s2)"
    using idle by (simp add: enforce_progress_def cbind_def consumeHookEvents_def c waiting_finalization_def)
  then show ?thesis by (simp add: enforceInProgressLifecycle_def cbind_def creturn_def)
qed



end
