(* ===== verification/Event_Processing.thy ===== *)
theory Event_Processing
  imports Supervision
begin

text \<open>
  How the coordinator consumes the event log (\<^verbatim>\<open>coordinator.ts\<close>, \<^verbatim>\<open>getEventCursor\<close> to \<^verbatim>\<open>advanceCursor\<close>,
  \<^verbatim>\<open>processTerminalRunEvents\<close>, \<^verbatim>\<open>processEventCheckpoint\<close>): a batch of rows after the cursor is read, each event
  goes through the lifecycle reducer and has its side effects, and the cursor moves past it. An event
  whose handling throws ends the pass with the cursor before it. The memory drawers that a finished
  run leaves, which the source writes on a best-effort basis, are not part of the state.
\<close>

section \<open>What the coordinator keeps\<close>

text \<open>
  Next to the state of supervision: the legacy checkpoint file, which is only read, what was loaded
  from it, and the activity observed so far. \<^verbatim>\<open>sessionReadyNudgeAtMs\<close> belongs to the launch of workers.
\<close>

record coordinator =
  cn_sv :: supervisor
  cn_checkpoint :: "EventProcessingCheckpoint option"
  cn_legacyProcessedIds :: "string list option"
  cn_legacyLastSeq :: nat
  cn_activityHydrated :: bool
  cn_activity :: activity_memory
  cn_sessionReadyNudge :: "string \<Rightarrow> int option"

type_synonym 'a tick = "(coordinator, 'a) step"

definition on_sv :: "'a sup \<Rightarrow> 'a tick" where
  "on_sv m c = (let (r, s) = m (cn_sv c) in (r, c\<lparr>cn_sv := s\<rparr>))"

abbreviation in_co :: "'a coord \<Rightarrow> 'a tick" where
  "in_co m \<equiv> on_sv (on_co m)"

abbreviation in_dir :: "(orc_state \<Rightarrow> 'a outcome) \<Rightarrow> 'a tick" where
  "in_dir f \<equiv> on_sv (on_dir f)"

abbreviation cn_db :: "coordinator \<Rightarrow> runtime_db" where
  "cn_db c \<equiv> st_db (co_st (sv_co (cn_sv c)))"

text \<open>A transaction on \<^verbatim>\<open>events.db\<close>: rolled back when it throws.\<close>

definition db_txn :: "(runtime_db \<Rightarrow> ('a \<times> runtime_db) result) \<Rightarrow> 'a tick" where
  "db_txn f = in_dir (\<lambda>st. case f (st_db st) of Inl err \<Rightarrow> (Inl err, st) | Inr (x, db) \<Rightarrow> (Inr x, st\<lparr>st_db := db\<rparr>))"

section \<open>The cursor\<close>

definition load_legacy :: "unit tick" where
  "load_legacy c = (Inr (),
     if cn_legacyProcessedIds c = None
     then c\<lparr>cn_legacyProcessedIds := Some (case cn_checkpoint c of None \<Rightarrow> [] | Some cp \<Rightarrow> processed_event_ids cp),
            cn_legacyLastSeq := (case cn_checkpoint c of None \<Rightarrow> 0 | Some cp \<Rightarrow> last_processed_seq cp)\<rparr>
     else c)"

definition getEventCursor :: "nat tick" where
  "getEventCursor c =
     cbind (db_txn (initializeEventOffset (cn_checkpoint c) COORDINATOR_EVENT_CONSUMER)) (\<lambda>cursor.
       cbind load_legacy (\<lambda>_. creturn cursor)) c"

definition advanceCursor :: "nat \<Rightarrow> unit tick" where
  "advanceCursor seq c =
     (let current = readEventOffset COORDINATOR_EVENT_CONSUMER (cn_db c) in
      if seq > current
      then cbind (db_txn (advanceEventOffset (int current) (int seq) COORDINATOR_EVENT_CONSUMER)) (\<lambda>_. creturn ()) c
      else (Inr (), c))"

definition observe :: "OrcEvent list \<Rightarrow> unit tick" where
  "observe evs c = (Inr (), c\<lparr>cn_activity := observeRunActivity evs (cn_activity c)\<rparr>)"

section \<open>One event\<close>

definition already_processed :: "OrcEvent \<Rightarrow> coordinator \<Rightarrow> bool" where
  "already_processed ev c \<longleftrightarrow>
     ev_seq ev > 0 \<and>
     (ev_seq ev \<le> readEventOffset COORDINATOR_EVENT_CONSUMER (cn_db c) \<or>
      ev_seq ev \<le> cn_legacyLastSeq c \<and> \<not> wasEventOffsetReset COORDINATOR_EVENT_CONSUMER (cn_db c) \<and>
      eventIdentity ev \<in> set (or_default (cn_legacyProcessedIds c) []))"

definition read_claim :: "string option \<Rightarrow> Claim option coord" where
  "read_claim runId =
     (if truthy runId then on_st (\<lambda>st. let (claim, st0) = getClaim (the runId) st in (Inr claim, st0)) else creturn None)"

definition in_review :: "Claim option \<Rightarrow> string \<Rightarrow> bool" where
  "in_review latest agentId \<longleftrightarrow>
     (case latest of None \<Rightarrow> False | Some c \<Rightarrow> c_finalization_state c = Some FS_pr_review_in_progress \<and> c_agent_id c = agentId)"

text \<open>A worker that fails during the review of its pull request: the master is told, and the run is requeued.\<close>

definition finish_event_run ::
  "env \<Rightarrow> host \<Rightarrow> string option \<Rightarrow> string \<Rightarrow> bool \<Rightarrow> string option \<Rightarrow> string option \<Rightarrow> string \<Rightarrow> timestamp \<Rightarrow> unit coord" where
  "finish_event_run e h runId agentId success reason code policy at =
     cbind (read_claim runId) (\<lambda>latest.
       if \<not> success \<and> in_review latest agentId
       then
         cbind (cquiet (on_st (setRunFinalizationState e (the runId) agentId (Some FS_pr_failed) 0 None))) (\<lambda>_.
         cbind (cquiet (sendCoordinatorMessage e h ''master''
           (PrReviewFailed (c_task_ref (the latest)) (the runId) (or_default reason ''worker failed'')))) (\<lambda>_.
           on_st (finishRun e (the runId) agentId
             (coordinator_finish False (Some (''pr_review_failed: '' @ or_default reason ''unknown'')) code ''requeue'' at))))
       else on_st (with_run runId (\<lambda>r. finishRun e r agentId (coordinator_finish success reason code policy at))))"

fun perform_action :: "env \<Rightarrow> host \<Rightarrow> OrcEvent \<Rightarrow> Claim option \<Rightarrow> LifecycleAction \<Rightarrow> unit coord" where
  "perform_action e h ev claim (finish_run success reason code policy at) =
     finish_event_run e h (ev_run_id ev) (or_default (ev_agent_id ev) []) success reason code policy at"
| "perform_action e h ev claim action =
     on_st (apply_action e (ev_run_id ev) (or_default (ev_agent_id ev) []) (ev_event ev)
       (coerceEventTs (Some (ev_ts ev)) (now_ts e)) claim action)"

text \<open>
  After a terminal event the worker is released, unless it has another run, and the worktree is
  forgotten, also when the claim was already terminal. An event without a run id matches no run, as
  the empty id does.
\<close>

definition release_run :: "env \<Rightarrow> CoordinatorConfig \<Rightarrow> string \<Rightarrow> string \<Rightarrow> unit coord" where
  "release_run e cfg agentId runId =
     cbind (on_st (\<lambda>st. let (other, st0) = hasOtherActiveClaim agentId runId st in (Inr other, st0))) (\<lambda>other.
     cbind (if \<not> other then on_st (cleanupRunCapacity e (cfg_max_workers cfg) agentId None) else creturn ()) (\<lambda>_ c.
       (Inr (), c\<lparr>co_worktrees := snd (deleteRunWorktree runId (co_worktrees c))\<rparr>)))"

text \<open>The first \<^verbatim>\<open>work_complete\<close> of a run whose pull request is under review does not merge it.\<close>

definition stale_pr_handoff :: "OrcEvent \<Rightarrow> Claim \<Rightarrow> bool" where
  "stale_pr_handoff ev claim \<longleftrightarrow>
     ev_event ev = ''work_complete'' \<and> c_finalization_state claim = Some FS_pr_review_in_progress \<and> ev_seq ev > 0 \<and>
     c_pr_initial_work_complete_seq claim = Some (int (ev_seq ev))"

definition trigger_finalization :: "env \<Rightarrow> host \<Rightarrow> CoordinatorConfig \<Rightarrow> OrcEvent \<Rightarrow> unit coord" where
  "trigger_finalization e h cfg ev =
     cbind (read_claim (ev_run_id ev)) (\<lambda>latest.
       case latest of
         None \<Rightarrow> creturn ()
       | Some claim \<Rightarrow>
           if c_state claim = CS_in_progress \<and> \<not> stale_pr_handoff ev claim
           then cbind (finalizeRun e h cfg claim (ev_seq ev)) (\<lambda>_. creturn ()) else creturn ())"

definition is_terminal_event :: "OrcEvent \<Rightarrow> bool" where
  "is_terminal_event ev \<longleftrightarrow> ev_event ev = ''run_finished'' \<or> ev_event ev = ''run_failed''"

definition is_handoff_event :: "OrcEvent \<Rightarrow> bool" where
  "is_handoff_event ev \<longleftrightarrow> ev_event ev = ''work_complete'' \<or> ev_event ev = ''ready_to_merge''"

definition handle_event :: "env \<Rightarrow> host \<Rightarrow> CoordinatorConfig \<Rightarrow> OrcEvent \<Rightarrow> unit coord" where
  "handle_event e h cfg ev =
     (if ev_event ev = ''reported_for_duty'' then on_st (report_for_duty e ev)
      else cbind (read_claim (ev_run_id ev)) (\<lambda>claim.
        cbind (\<lambda>c. (reduceLifecycleEvent (lifecycle_input ev) claim (now_ts e), c)) (\<lambda>action.
        cbind (perform_action e h ev claim action) (\<lambda>_.
        cbind (if is_terminal_event ev then release_run e cfg (or_default (ev_agent_id ev) []) (or_default (ev_run_id ev) []) else creturn ()) (\<lambda>_.
          if is_handoff_event ev then trigger_finalization e h cfg ev else creturn ())))))"

definition process_event :: "env \<Rightarrow> host \<Rightarrow> CoordinatorConfig \<Rightarrow> OrcEvent \<Rightarrow> unit tick" where
  "process_event e h cfg ev =
     cbind getEventCursor (\<lambda>_ c.
       if already_processed ev c then advanceCursor (ev_seq ev) c
       else cbind (in_co (handle_event e h cfg ev)) (\<lambda>_. if ev_seq ev > 0 then advanceCursor (ev_seq ev) else creturn ()) c)"

definition processTerminalRunEvents :: "env \<Rightarrow> host \<Rightarrow> CoordinatorConfig \<Rightarrow> OrcEvent list \<Rightarrow> unit tick" where
  "processTerminalRunEvents e h cfg evs = each (process_event e h cfg) evs"

section \<open>One pass over the log\<close>

definition EVENT_BATCH_SIZE :: int where "EVENT_BATCH_SIZE = 128"

definition process_row :: "env \<Rightarrow> host \<Rightarrow> CoordinatorConfig \<Rightarrow> nat \<times> OrcEvent option \<Rightarrow> unit tick" where
  "process_row e h cfg row =
     (case snd row of
        Some ev \<Rightarrow> cbind (observe [ev]) (\<lambda>_. processTerminalRunEvents e h cfg [ev])
      | None \<Rightarrow> advanceCursor (fst row))"

definition hydrate_activity :: "env \<Rightarrow> Claim list \<Rightarrow> unit tick" where
  "hydrate_activity e claims c =
     (if cn_activityHydrated c then (Inr (), c)
      else cbind (observe (readEventsForRuns e (map c_run_id (filter claim_active claims)) (cn_db c))) (\<lambda>_ c1.
        (Inr (), c1\<lparr>cn_activityHydrated := True\<rparr>)) c)"

text \<open>\<^verbatim>\<open>reloadTickState\<close>: the claims, the agents and the backlog.\<close>

definition reloadTickState :: "env \<Rightarrow> (Agent list \<times> Claim list \<times> Backlog) tick" where
  "reloadTickState e =
     cbind (in_dir readJsonClaims) (\<lambda>claims.
     cbind (in_dir (\<lambda>st. (Inr (listAgents e st), snd (readAgentsFile e st)))) (\<lambda>agents.
     cbind (in_dir (\<lambda>st. (readBacklog st, st))) (\<lambda>backlog. creturn (agents, claims, backlog))))"

definition consume_batch :: "env \<Rightarrow> host \<Rightarrow> CoordinatorConfig \<Rightarrow> Claim list \<Rightarrow> unit tick" where
  "consume_batch e h cfg claims =
     cbind getEventCursor (\<lambda>cursor.
     cbind (hydrate_activity e claims) (\<lambda>_.
     cbind (\<lambda>c. (readEventBatch e (int cursor) EVENT_BATCH_SIZE (cn_db c), c)) (\<lambda>batch.
       each (process_row e h cfg) batch)))"

text \<open>What throws is logged, and the tick goes on with what it had read before.\<close>

definition processEventCheckpoint ::
  "env \<Rightarrow> host \<Rightarrow> CoordinatorConfig \<Rightarrow> Agent list \<Rightarrow> Claim list \<Rightarrow> (Agent list \<times> Claim list) tick" where
  "processEventCheckpoint e h cfg agents claims =
     ctry (cbind (consume_batch e h cfg claims) (\<lambda>_. reloadTickState e))
       (\<lambda>_. creturn (agents, claims))
       (\<lambda>(agents', claims', _). creturn (agents', claims'))"

end
