(* ===== verification/Db_Integrity.thy ===== *)
theory Db_Integrity
  imports Command_Frame Session_Props
begin

text \<open>
  The integrity of \<^verbatim>\<open>events.db\<close>: an invariant over the tables of runs, sessions, commands and events,
  and that every transaction of \<^verbatim>\<open>lib/runStore.ts\<close>, \<^verbatim>\<open>lib/eventLog.ts\<close>, \<^verbatim>\<open>lib/sessionSupervisor.ts\<close> and
  \<^verbatim>\<open>lib/commandDelivery.ts\<close> keeps it.
\<close>

section \<open>The invariant\<close>

definition run_ids :: "runtime_db \<Rightarrow> string set" where
  "run_ids db = rn_run_id ` set (db_runs db)"

text \<open>Sequence numbers rise, none is above the counter, and no event identity repeats.\<close>

definition log_sound :: "runtime_db \<Rightarrow> bool" where
  "log_sound db \<longleftrightarrow> sorted_wrt (<) (map er_seq (db_events db)) \<and>
     (\<forall>r \<in> set (db_events db). 1 \<le> er_seq r \<and> er_seq r \<le> db_event_seq db) \<and> distinct (map er_event_id (db_events db))"

text \<open>The foreign keys of sessions and commands: what they refer to exists.\<close>

definition keys_sound :: "string set \<Rightarrow> session_row list \<Rightarrow> DurableCommand list \<Rightarrow> bool" where
  "keys_sound runs ss cs \<longleftrightarrow> (\<forall>s \<in> set ss. \<forall>r. ss_run_id s = Some r \<longrightarrow> r \<in> runs) \<and> (\<forall>c \<in> set cs. dc_run_id c \<in> runs) \<and>
     distinct (map dc_command_id cs)"

definition db_ok :: "runtime_db \<Rightarrow> bool" where
  "db_ok db \<longleftrightarrow> runs_inv db \<and> log_sound db \<and> sessions_one_running (db_sessions db) \<and>
     keys_sound (run_ids db) (db_sessions db) (db_commands db)"

lemma db_ok_empty: "db_ok empty_db"
  by (simp add: db_ok_def empty_db_def runs_inv_def runs_one_active_def log_sound_def sessions_one_running_def keys_sound_def run_ids_def)

lemma db_ok_cutovers [simp]: "db_ok (db\<lparr>db_cutovers := x\<rparr>) = db_ok db" "db_ok (db\<lparr>db_offsets := y\<rparr>) = db_ok db"
  by (simp_all add: db_ok_def runs_inv_def log_sound_def run_ids_def)

lemma db_ok_append: "db_ok db \<Longrightarrow> append_event e ev db = Inr db' \<Longrightarrow> db_ok db'"
  unfolding append_event_def rbind_Inr_iff
proof clarsimp
  fix n assume ok: "db_ok db" and "appendSequencedEvent e ev db = Inr (n, db')"
  from this(2) show "db_ok db'"
  proof (rule appendSequencedEvent_Inr)
    fix stored
    assume h: "n = Suc (db_event_seq db)" "or_default (ev_event_id stored) [] \<notin> er_event_id ` set (db_events db)"
      "db' = db\<lparr>db_events := db_events db @ [event_row_of n stored], db_event_seq := n\<rparr>"
    have "\<forall>r \<in> set (db_events db). er_seq r < n" using ok h(1) by (fastforce simp: db_ok_def log_sound_def)
    with ok h(1,2) show "db_ok db'" unfolding h(3)
      by (auto simp: db_ok_def runs_inv_def run_ids_def log_sound_def sorted_wrt_append event_row_of_def le_Suc_eq)
  qed
qed

lemma db_ok_appends: "rfold (append_event e) evs db = Inr db' \<Longrightarrow> db_ok db \<Longrightarrow> db_ok db'"
  by (erule rfold_invariant) (auto intro: db_ok_append)

section \<open>Claims\<close>

lemma keys_sound_mono: "runs \<subseteq> runs' \<Longrightarrow> keys_sound runs ss cs \<Longrightarrow> keys_sound runs' ss cs"
  by (auto simp: keys_sound_def)

lemma db_ok_upsert:
  assumes "db_ok db" "upsertClaim c db = Inr db'"
  shows "db_ok db'"
proof -
  have "runs_inv db'" using assms by (auto simp: db_ok_def intro: runs_inv_upsert)
  moreover have "db_sessions db' = db_sessions db" "db_commands db' = db_commands db" "log_sound db' = log_sound db"
    using assms(2) by (auto simp: upsertClaim_def Let_def log_sound_def split: if_splits)
  moreover have "run_ids db \<subseteq> run_ids db'"
  proof -
    have keep: "rn_run_id ` set (update_where P f rs) = rn_run_id ` set rs" if "\<And>r. rn_run_id (f r) = rn_run_id r" for P f rs
    proof -
      have "map rn_run_id (update_where P f rs) = map rn_run_id rs" using that by (simp add: map_update_where_same)
      then have "set (map rn_run_id (update_where P f rs)) = set (map rn_run_id rs)" by simp
      then show ?thesis by (simp only: set_map)
    qed
    from assms(2) show ?thesis by (auto simp: upsertClaim_def Let_def run_ids_def keep split: if_splits)
  qed
  ultimately show ?thesis using assms(1) by (auto simp: db_ok_def intro: keys_sound_mono)
qed

definition running_agents :: "session_row list \<Rightarrow> string list" where
  "running_agents ss = map ss_agent_id (filter (\<lambda>s. ss_state s = SS_running) ss)"

lemma running_agents_simps:
  "running_agents [] = []"
  "running_agents (s # ss) = (if ss_state s = SS_running then ss_agent_id s # running_agents ss else running_agents ss)"
  "sessions_one_running ss = distinct (running_agents ss)"
  by (simp_all add: running_agents_def sessions_one_running_def)

lemma sessions_running_update:
  assumes f: "\<And>s. ss_agent_id (f s) = ss_agent_id s" "\<And>s. P s \<Longrightarrow> ss_state (f s) = SS_running \<Longrightarrow> ss_state s = SS_running"
    and "sessions_one_running ss"
  shows "sessions_one_running (update_where P f ss)"
proof -
  have sub: "set (running_agents (update_where P f ss)) \<subseteq> set (running_agents ss)" for ss
    by (induction ss) (use f in \<open>auto simp: running_agents_simps\<close>)
  have "distinct (running_agents ss) \<Longrightarrow> distinct (running_agents (update_where P f ss))" for ss
  proof (induction ss)
    case (Cons s ss)
    then show ?case using sub [of ss] f(1) [of s] f(2) [of s]
      by (cases "P s"; cases "ss_state s = SS_running"; cases "ss_state (f s) = SS_running") (auto simp: running_agents_simps)
  qed (simp add: running_agents_simps)
  with assms(3) show ?thesis by (simp add: running_agents_simps(3))
qed

lemma db_ok_delete:
  assumes "db_ok db"
  shows "db_ok (delete_run i db)"
proof -
  have "runs_inv (delete_run i db)" using assms by (auto simp: db_ok_def intro: runs_inv_delete)
  moreover have "sessions_one_running (db_sessions (delete_run i db))"
    using assms by (auto simp: db_ok_def delete_run_def intro!: sessions_running_update)
  moreover have "keys_sound (run_ids (delete_run i db)) (db_sessions (delete_run i db)) (db_commands (delete_run i db))"
    using assms by (auto simp: db_ok_def keys_sound_def delete_run_def run_ids_def set_update_where distinct_map_filter)
  moreover have "log_sound (delete_run i db)" using assms by (simp add: db_ok_def log_sound_def delete_run_def)
  ultimately show ?thesis by (simp add: db_ok_def)
qed

lemma db_ok_deletes: "db_ok db \<Longrightarrow> db_ok (fold delete_run is db)"
  by (induction "is" arbitrary: db) (auto intro: db_ok_delete)

lemma db_ok_upserts: "rfold upsertClaim cs db = Inr db' \<Longrightarrow> db_ok db \<Longrightarrow> db_ok db'"
  by (erule rfold_invariant) (auto intro: db_ok_upsert)

lemma db_ok_importClaims: "db_ok db \<Longrightarrow> importLegacyClaims cj db = Inr (b, db') \<Longrightarrow> db_ok db'"
  by (auto simp: importLegacyClaims_def rbind_Inr_iff dest: db_ok_upserts split: if_splits option.splits)

lemma db_ok_commit: "db_ok db \<Longrightarrow> commit_claims_txn e cj cs evs db = Inr db' \<Longrightarrow> db_ok db'"
proof -
  assume ok: "db_ok db" and "commit_claims_txn e cj cs evs db = Inr db'"
  from this(2) obtain b db1 db3 x where 1: "importLegacyClaims cj db = Inr (b, db1)"
    and 2: "rfold upsertClaim cs (fold delete_run (filter (\<lambda>r. r \<notin> set (map c_run_id cs)) (map rn_run_id (db_runs db1))) db1) = Inr db3"
    and 3: "rfold (append_event e) evs (db3\<lparr>db_cutovers := x\<rparr>) = Inr db'"
    by (auto simp: commit_claims_txn_def rbind_Inr_iff Let_def)
  have "db_ok db3" by (rule db_ok_upserts [OF 2 db_ok_deletes [OF db_ok_importClaims [OF ok 1]]])
  with db_ok_appends [OF 3] show "db_ok db'" by simp
qed

lemma db_ok_readClaims: "db_ok db \<Longrightarrow> readAuthoritativeClaims cj db = Inr (cs, cj', db') \<Longrightarrow> db_ok db'"
  by (auto simp: readAuthoritativeClaims_def rbind_Inr_iff Let_def dest: db_ok_importClaims split: if_splits)

section \<open>Sessions\<close>

lemma latest_active_run_in: "latest_active_run a db = Some r \<Longrightarrow> r \<in> run_ids db"
proof -
  have *: "fold (\<lambda>x m. if ts_le (rn_created_at x) (rn_created_at m) then m else x) rs r0 \<in> insert r0 (set rs)" for rs r0
  proof (induction rs arbitrary: r0)
    case (Cons x rs)
    show ?case using Cons [of r0] Cons [of x] by (cases "ts_le (rn_created_at x) (rn_created_at r0)") auto
  qed simp
  have in_db: "rn_run_id (fold (\<lambda>x m. if ts_le (rn_created_at x) (rn_created_at m) then m else x) rs r0) \<in> run_ids db"
    if "filter P (db_runs db) = r0 # rs" for P r0 rs
  proof -
    have "insert r0 (set rs) \<subseteq> set (db_runs db)" using arg_cong [OF that, of set] by auto
    with * [of rs r0] show ?thesis by (auto simp: run_ids_def)
  qed
  show "latest_active_run a db = Some r \<Longrightarrow> r \<in> run_ids db"
    by (auto simp: latest_active_run_def dest: in_db split: list.splits)
qed

lemma db_ok_sessionsI:
  assumes "db_ok db" "sessions_one_running ss" "\<And>s r. s \<in> set ss \<Longrightarrow> ss_run_id s = Some r \<Longrightarrow> r \<in> run_ids db"
  shows "db_ok (db\<lparr>db_sessions := ss\<rparr>)"
  using assms by (auto simp: db_ok_def runs_inv_def log_sound_def keys_sound_def run_ids_def)

lemma db_ok_session_run: "db_ok db \<Longrightarrow> s \<in> set (db_sessions db) \<Longrightarrow> ss_run_id s = Some r \<Longrightarrow> r \<in> run_ids db"
  by (auto simp: db_ok_def keys_sound_def)

lemma db_ok_importSession: "db_ok db \<Longrightarrow> db_ok (import_agent_session e a db)"
proof -
  have add: "db_ok (db\<lparr>db_sessions := db_sessions db @ [row]\<rparr>)"
    if "db_ok db" "sessions_one_running (db_sessions db @ [row])" "ss_run_id row = latest_active_run a db" for row a
    using that(1,2)
  proof (rule db_ok_sessionsI)
    fix s r assume "s \<in> set (db_sessions db @ [row])" "ss_run_id s = Some r"
    then show "r \<in> run_ids db"
      using db_ok_session_run [OF that(1), of s r] latest_active_run_in [of a db r] that(3) by auto
  qed
  show "db_ok db \<Longrightarrow> db_ok (import_agent_session e a db)"
    unfolding import_agent_session_def Let_def by (simp add: add)
qed

lemma db_ok_importSessions: "db_ok db \<Longrightarrow> importLegacyAgentSessions e cj aj db = Inr db' \<Longrightarrow> db_ok db'"
proof -
  have "db_ok db \<Longrightarrow> db_ok (fold (import_agent_session e) as db)" for as db
    by (induction as arbitrary: db) (auto intro: db_ok_importSession)
  then show "db_ok db \<Longrightarrow> importLegacyAgentSessions e cj aj db = Inr db' \<Longrightarrow> db_ok db'"
    by (auto simp: importLegacyAgentSessions_def rbind_Inr_iff Let_def dest: db_ok_importClaims split: if_splits option.splits)
qed

lemma db_ok_withSessions: "db_ok db \<Longrightarrow> withAuthoritativeAgentSessions e cj aj as db = Inr (as', db') \<Longrightarrow> db_ok db'"
  by (auto simp: withAuthoritativeAgentSessions_def rbind_Inr_iff dest: db_ok_importSessions split: if_splits)

lemma db_ok_updateSessions:
  assumes "db_ok db" "sessions_one_running (update_where P f (db_sessions db))"
    "\<And>s r. s \<in> set (db_sessions db) \<Longrightarrow> ss_run_id (f s) = Some r \<Longrightarrow> ss_run_id s = Some r \<or> r \<in> run_ids db"
  shows "db_ok (db\<lparr>db_sessions := update_where P f (db_sessions db)\<rparr>)"
  using assms by (intro db_ok_sessionsI) (auto simp: set_update_where dest: db_ok_session_run split: if_splits)

lemma db_ok_closeSessions: "db_ok db \<Longrightarrow> closeProviderSessionsForAgent e cj aj a at db = Inr db' \<Longrightarrow> db_ok db'"
proof -
  have "db_ok (db1\<lparr>db_sessions := close_sessions P reason at (db_sessions db1)\<rparr>)" if "db_ok db1" for db1 P reason at
    unfolding close_sessions_def using that
  proof (rule db_ok_updateSessions)
    show "sessions_one_running (update_where (\<lambda>s. P s \<and> ss_state s \<noteq> SS_offline)
        (\<lambda>s. s\<lparr>ss_state := SS_offline, ss_state_reason := Some reason, ss_updated_at := at\<rparr>) (db_sessions db1))"
      by (rule sessions_running_update) (use that in \<open>simp_all add: db_ok_def\<close>)
  qed simp
  then show "db_ok db \<Longrightarrow> closeProviderSessionsForAgent e cj aj a at db = Inr db' \<Longrightarrow> db_ok db'"
    by (auto simp: closeProviderSessionsForAgent_def rbind_Inr_iff dest: db_ok_importSessions)
qed

lemma db_ok_recordSession:
  assumes "db_ok db" "recordProviderSession e cj aj p db = Inr (b, db')"
  shows "db_ok db'"
proof -
  have *: "db_ok (db1\<lparr>db_sessions := record_session_rows p (db_sessions db1)\<rparr>)"
    if "db_ok db1" "sessions_one_running (record_session_rows p (db_sessions db1))"
       "\<not> (case ps_runId p of None \<Rightarrow> False | Some r \<Rightarrow> r \<notin> set (map rn_run_id (db_runs db1)))" for db1
    using that(1,2)
  proof (rule db_ok_sessionsI)
    fix s r
    assume "s \<in> set (record_session_rows p (db_sessions db1))" "ss_run_id s = Some r"
    then have "ps_runId p = Some r \<or> (\<exists>x \<in> set (db_sessions db1). ss_run_id x = Some r)"
      by (auto simp: record_session_rows_def Let_def close_sessions_def refresh_session_def session_row_of_def
            dest!: in_set_update_whereD split: if_splits)
    then show "r \<in> run_ids db1" using that(3) db_ok_session_run [OF that(1)] by (auto simp: run_ids_def)
  qed
  from assms(2) obtain db1 where 1: "importLegacyAgentSessions e cj aj db = Inr db1"
    "db' = db1 \<or> sessions_one_running (record_session_rows p (db_sessions db1)) \<and>
       \<not> (case ps_runId p of None \<Rightarrow> False | Some r \<Rightarrow> r \<notin> set (map rn_run_id (db_runs db1))) \<and>
       db' = db1\<lparr>db_sessions := record_session_rows p (db_sessions db1)\<rparr>"
    using assms(2) unfolding recordProviderSession_def Let_def
    by (simp only: rbind_Inr_iff split: if_split_asm) (blast | simp)+
  with * [OF db_ok_importSessions [OF assms(1) 1(1)]] db_ok_importSessions [OF assms(1) 1(1)] show ?thesis by blast
qed

lemma db_ok_setSessionState:
  assumes "db_ok db" "setSessionState e i s reason opts db = Inr (b, db')"
  shows "db_ok db'"
proof (cases "db' = db")
  case False
  let ?rows = "update_where (\<lambda>x. ss_session_id x = i) (write_session_state e s reason opts) (db_sessions db)"
  from assms(2) False obtain ev where ev: "sessions_one_running ?rows" "append_event e ev (db\<lparr>db_sessions := ?rows\<rparr>) = Inr db'"
    unfolding setSessionState_def Let_def by (auto simp: rbind_Inr_iff split: option.splits if_split_asm)
  show ?thesis
    by (rule db_ok_append [OF db_ok_updateSessions [OF assms(1) ev(1)] ev(2)]) (simp add: write_session_state_def)
qed (use assms in simp)

section \<open>Commands\<close>

lemma db_ok_commandsI:
  assumes "db_ok db" "\<And>c. c \<in> set cs \<Longrightarrow> dc_run_id c \<in> run_ids db" "distinct (map dc_command_id cs)"
  shows "db_ok (db\<lparr>db_commands := cs\<rparr>)"
  using assms by (auto simp: db_ok_def runs_inv_def log_sound_def keys_sound_def run_ids_def)

interpretation ci: command_invariant db_ok
proof
  fix db e ev db' assume "db_ok db" "append_event e ev db = Inr db'"
  then show "db_ok db'" by (rule db_ok_append)
next
  fix db :: runtime_db and f i
  assume ok: "db_ok db" and same: "\<And>c. same_identity c (f c)"
  let ?cs = "update_where (\<lambda>c. dc_command_id c = i) f (db_commands db)"
  have f: "dc_command_id (f c) = dc_command_id c" "dc_run_id (f c) = dc_run_id c" for c
    using same [of c] by (simp_all add: same_identity_def)
  have "map dc_command_id ?cs = map dc_command_id (db_commands db)" by (rule map_update_where_same) (rule f(1))
  moreover have "dc_run_id c \<in> run_ids db" if "c \<in> set ?cs" for c
    using that ok f(2) by (auto simp: db_ok_def keys_sound_def dest!: in_set_update_whereD)
  ultimately show "db_ok (db\<lparr>db_commands := ?cs\<rparr>)" using ok by (intro db_ok_commandsI) (auto simp: db_ok_def keys_sound_def)
next
  fix db :: runtime_db and c :: DurableCommand
  assume "db_ok db" "dc_run_id c \<in> set (map rn_run_id (db_runs db))" "dc_command_id c \<notin> set (map dc_command_id (db_commands db))"
  then show "db_ok (db\<lparr>db_commands := db_commands db @ [c]\<rparr>)"
    by (intro db_ok_commandsI) (auto simp: db_ok_def keys_sound_def run_ids_def)
qed

end
