(* ===== verification/Operator.thy ===== *)
theory Operator
  imports Scheduler Sessions Finalization
begin

text \<open>
  \<^verbatim>\<open>lib/operatorMutations.ts\<close>: what the master and the operator may do to a task from outside of its
  run, and who may do it. The answer of an input request, which writes the message tables, is in
  \<open>Conversations\<close>.
\<close>

section \<open>Operator mutations (operatorMutations.ts)\<close>

definition TERMINAL_STATUSES :: "TaskStatus list" where
  "TERMINAL_STATUSES = [TS_done, TS_released, TS_cancelled]"

definition masterActorId :: "env \<Rightarrow> orc_state \<Rightarrow> string" where
  "masterActorId e st =
     (case List.find (\<lambda>a. a_role a = Some ''master'') (listAgents e st) of None \<Rightarrow> ''master'' | Some a \<Rightarrow> a_agent_id a)"

text \<open>The default of \<^verbatim>\<open>actor_id\<close>: without one, the registry is read for the master.\<close>

definition actor_or_master :: "env \<Rightarrow> string option \<Rightarrow> orc_state \<Rightarrow> string \<times> orc_state" where
  "actor_or_master e actor st =
     (case actor of Some a \<Rightarrow> (a, st) | None \<Rightarrow> (masterActorId e st, snd (readAgentsFile e st)))"

definition actor_type_of :: "string \<Rightarrow> string" where
  "actor_type_of actorId = (if actorId = ''human'' then ''human'' else ''agent'')"

definition invalid_actor :: "string \<Rightarrow> orc_error" where
  "invalid_actor actorId = InputError (''Invalid actor-id: '' @ actorId @ ''. Must match ^[a-z0-9][a-z0-9-]*$.'')"

definition unknown_actor :: "string \<Rightarrow> Agent list \<Rightarrow> orc_error" where
  "unknown_actor actorId agents =
     NotFoundError (''Actor agent not found: '' @ actorId @ ''. Registered agents: '' @
       (if agents = [] then ''(none)'' else join_with '', '' (map a_agent_id agents)))"

text \<open>The target of a delegation: the named agent when it is free and eligible, else one chosen in turn.\<close>

definition delegation_target ::
  "Task \<Rightarrow> string \<Rightarrow> string option \<Rightarrow> Agent list \<Rightarrow> Claim list \<Rightarrow> string option \<Rightarrow> (string option \<times> string option) result" where
  "delegation_target task taskType target agents claims lastAssigned =
     (if truthy target then
        (case List.find (\<lambda>a. a_agent_id a = the target) agents of
           None \<Rightarrow> Inl (NotFoundError (''Target agent not found: '' @ the target))
         | Some a \<Rightarrow>
             (case List.find (\<lambda>c. c_agent_id c = the target \<and> claim_active c) claims of
                Some c \<Rightarrow> Inl (ConflictError (''Target agent '' @ the target @ '' already has active run '' @ c_run_id c))
              | None \<Rightarrow>
                  (let reasons = evaluateTaskEligibility (task\<lparr>t_task_type := Some taskType\<rparr>) a in
                   if reasons \<noteq> []
                   then Inl (ConflictError (''Target agent '' @ the target @ '' cannot execute task: '' @ join_with '', '' reasons @
                          '' ('' @ join_with ''; '' (formatRoutingReasons reasons) @ '')''))
                   else Inr (target, lastAssigned))))
      else Inr (selectAutoTarget task taskType agents claims lastAssigned))"

definition delegated_task :: "env \<Rightarrow> string \<Rightarrow> string \<Rightarrow> string option \<Rightarrow> Task \<Rightarrow> Task" where
  "delegated_task e taskType actorId assigned t =
     t\<lparr>t_task_type := Some taskType, t_planning_state := Some ''ready_for_dispatch'', t_delegated_by := Some actorId,
       t_owner := (if truthy assigned then assigned else None),
       t_status := (if t_status t = TS_blocked then TS_todo else t_status t), t_updated_at := Some (now_ts e)\<rparr>"

definition feature_of :: "string \<Rightarrow> Backlog \<Rightarrow> string" where
  "feature_of ref b =
     (case List.find (\<lambda>f. \<exists>t \<in> set (f_tasks f). t_ref t = ref) b of None \<Rightarrow> [] | Some f \<Rightarrow> f_ref f)"

definition delegated_event :: "env \<Rightarrow> string \<Rightarrow> string \<Rightarrow> string option \<Rightarrow> string \<Rightarrow> string option \<Rightarrow> string \<Rightarrow> bool \<Rightarrow> OrcEvent" where
  "delegated_event e ref actorId assigned taskType note featureRef auto =
     mk_event (now_ts e) ''task_delegated'' (actor_type_of actorId) actorId None (Some ref) (if truthy assigned then assigned else None)
       (Some [(''target_agent_id'', jstr_opt assigned), (''task_type'', JStr taskType), (''note'', jstr_opt note),
              (''feature_ref'', JStr featureRef), (''auto_assigned'', JBool auto)])"

text \<open>
  \<open>lastAssigned\<close> is the planner's round robin position. The result is the assigned agent, or the
  diagnostics of every candidate when there is none.
\<close>

definition delegateTask ::
  "env \<Rightarrow> string \<Rightarrow> string option \<Rightarrow> string \<Rightarrow> string option \<Rightarrow> string option \<Rightarrow> string option \<Rightarrow> orc_state \<Rightarrow>
   (string option \<times> (string \<times> string list \<times> string list) list \<times> string option) outcome" where
  "delegateTask e ref target taskType note actor lastAssigned st =
     (let (actorId, st) = actor_or_master e actor st in
      if ref = [] then (Inl (InputError ''task_ref is required''), st)
      else if \<not> AGENT_ID_RE actorId then (Inl (invalid_actor actorId), st)
      else if taskType \<notin> set TASK_TYPES then (Inl (InputError (''Invalid task type: '' @ taskType)), st)
      else check_then (readBacklog st) (\<lambda>backlog st.
        (let (claims, st1) = readClaims st; (agents, st2) = readAgentsFile e st1 in
         if actorId \<noteq> ''human'' \<and> actorId \<notin> set (map a_agent_id agents) then (Inl (unknown_actor actorId agents), st2)
         else case findTask backlog ref of
           None \<Rightarrow> (Inl (NotFoundError (''Task not found: '' @ ref)), st2)
         | Some task \<Rightarrow>
             check_then (delegation_target task taskType target agents claims lastAssigned) (\<lambda>(assigned, last') st2.
               obind (commitBacklog e (update_task ref (delegated_task e taskType actorId assigned) backlog)
                        (if t_status task = TS_blocked then [(ref, mk_change TC_unblock None (Some actorId) None)] else []) st2) (\<lambda>_ st3.
               obind (appendEventTo e (delegated_event e ref actorId assigned taskType note (feature_of ref backlog) (falsy target)) st3) (\<lambda>_ st4.
                 (Inr (if truthy assigned then (assigned, [], last')
                       else (None, describeAutoTargetFailure task taskType agents claims, last')), st4)))) st2)) st)"

definition run_cancelled_event :: "env \<Rightarrow> string \<Rightarrow> json \<Rightarrow> Claim \<Rightarrow> OrcEvent" where
  "run_cancelled_event e actorId reason c =
     mk_event (now_ts e) ''run_cancelled'' (actor_type_of actorId) actorId (Some (c_run_id c)) (Some (c_task_ref c)) (Some (c_agent_id c))
       (Some [(''reason'', reason)])"

definition task_cancelled_event :: "env \<Rightarrow> string \<Rightarrow> string \<Rightarrow> string option \<Rightarrow> Claim list \<Rightarrow> OrcEvent" where
  "task_cancelled_event e ref actorId reason cancelled =
     mk_event (now_ts e) ''task_cancelled'' (actor_type_of actorId) actorId
       (case cancelled of [] \<Rightarrow> None | c # _ \<Rightarrow> Some (c_run_id c)) (Some ref)
       (case cancelled of [] \<Rightarrow> None | c # _ \<Rightarrow> Some (c_agent_id c))
       (Some [(''reason'', jstr_opt reason), (''had_active_run'', JBool (cancelled \<noteq> []))])"

text \<open>A project records the cancellation as its own status; a legacy directory blocks the task.\<close>

definition cancelled_task :: "env \<Rightarrow> bool \<Rightarrow> string option \<Rightarrow> Task \<Rightarrow> Task" where
  "cancelled_task e projectMode reason t =
     (if projectMode then t\<lparr>t_status := TS_cancelled, t_blocked_reason := None\<rparr>
      else t\<lparr>t_status := TS_blocked, t_updated_at := Some (now_ts e), t_blocked_reason := Some (or_default reason ''cancelled'')\<rparr>)"

datatype cancel_result = AlreadyTerminal TaskStatus | Cancelled TaskStatus "string list"

definition cancelTask :: "env \<Rightarrow> string \<Rightarrow> string option \<Rightarrow> string option \<Rightarrow> orc_state \<Rightarrow> cancel_result outcome" where
  "cancelTask e ref reason actor st =
     (let (actorId, st) = actor_or_master e actor st in
      if ref = [] then (Inl (InputError ''task_ref is required''), st)
      else if \<not> AGENT_ID_RE actorId then (Inl (invalid_actor actorId), st)
      else check_then (readBacklog st) (\<lambda>backlog st.
        (let (claims, st1) = readClaims st in
         if actorId \<noteq> ''human'' \<and> actorId \<notin> set (map a_agent_id (listAgents e st1))
         then (Inl (unknown_actor actorId (listAgents e st1)), snd (readAgentsFile e st1))
         else
           (let st2 = (if actorId \<noteq> ''human'' then snd (readAgentsFile e st1) else st1) in
            case findTask backlog ref of
              None \<Rightarrow> (Inl (NotFoundError (''Task not found: '' @ ref)), st2)
            | Some task \<Rightarrow>
                if t_status task \<in> set TERMINAL_STATUSES then (Inr (AlreadyTerminal (t_status task)), st2)
                else
                  (let running = (\<lambda>c. c_task_ref c = ref \<and> claim_active c); cancelled = filter running claims;
                       projectMode = (st_store st2 \<noteq> None) in
                   obind (if cancelled \<noteq> []
                          then commitClaims e (filter (\<lambda>c. \<not> running c) claims) (map (run_cancelled_event e actorId (jstr_opt reason)) cancelled) st2
                          else (Inr (), st2)) (\<lambda>_ st3.
                   obind (commitBacklog e (update_task ref (cancelled_task e projectMode reason) backlog)
                            (if projectMode then [(ref, mk_change TC_cancel None (Some actorId) reason)] else []) st3) (\<lambda>_ st4.
                   obind (appendEventTo e (task_cancelled_event e ref actorId reason cancelled) st4) (\<lambda>_ st5.
                     (Inr (Cancelled (t_status (cancelled_task e projectMode reason task)) (map c_run_id cancelled)), st5)))))))) st)"

definition reset_event :: "env \<Rightarrow> string \<Rightarrow> string \<Rightarrow> TaskStatus \<Rightarrow> OrcEvent" where
  "reset_event e ref actorId previous =
     mk_event (now_ts e) ''task_updated'' (actor_type_of actorId) actorId None (Some ref) None
       (Some [(''reset'', JBool True), (''previous_status'', JStr (status_str previous)), (''status'', JStr ''todo'')])"

definition reset_task :: "env \<Rightarrow> Task \<Rightarrow> Task" where
  "reset_task e t = t\<lparr>t_status := TS_todo, t_blocked_reason := None, t_requeue_eligible_after := None, t_updated_at := Some (now_ts e)\<rparr>"

definition reset_claim :: "env \<Rightarrow> Claim \<Rightarrow> Claim" where
  "reset_claim e c = c\<lparr>c_state := CS_failed, c_failure_reason := Some ''manual_reset'', c_finished_at := Some (now_ts e)\<rparr>"

text \<open>The previous status and the number of claims that failed.\<close>

definition resetTask :: "env \<Rightarrow> string \<Rightarrow> string \<Rightarrow> orc_state \<Rightarrow> (TaskStatus \<times> nat) outcome" where
  "resetTask e ref actorId st =
     (if ref = [] then (Inl (InputError ''task_ref is required''), st)
      else if \<not> AGENT_ID_RE actorId then (Inl (InputError (''Invalid actor_id: '' @ actorId)), st)
      else check_then (readBacklog st) (\<lambda>backlog st.
        case findTask backlog ref of
          None \<Rightarrow> (Inl (NotFoundError (''task not found: '' @ ref)), st)
        | Some task \<Rightarrow>
            (let (claims, st1) = readClaims st; running = (\<lambda>c. c_task_ref c = ref \<and> claim_active c); failed = filter running claims in
             obind (commitClaims e (update_where running (reset_claim e) claims)
                      (reset_event e ref actorId (t_status task) # map (run_cancelled_event e actorId (JStr ''manual_reset'')) failed) st1) (\<lambda>_ st2.
             obind (commitBacklog e (update_task ref (reset_task e) backlog)
                      (if t_status task = TS_todo then [] else [(ref, mk_change TC_operator_reset None (Some actorId) None)]) st2) (\<lambda>_ st3.
               (Inr (t_status task, length failed), st3))))) st)"

definition unblocked_event :: "env \<Rightarrow> string \<Rightarrow> string \<Rightarrow> string option \<Rightarrow> OrcEvent" where
  "unblocked_event e ref actorId reason =
     mk_event (now_ts e) ''task_updated'' (actor_type_of actorId) actorId None (Some ref) None
       (Some ([(''status'', JStr ''todo''), (''previous_status'', JStr ''blocked''), (''unblocked'', JBool True)] @
              (if truthy reason then [(''reason'', JStr (the reason))] else [])))"

definition unblockTask :: "env \<Rightarrow> string \<Rightarrow> string option \<Rightarrow> string \<Rightarrow> orc_state \<Rightarrow> unit outcome" where
  "unblockTask e ref reason actorId st =
     (if ref = [] then (Inl (InputError ''task_ref is required''), st)
      else if \<not> AGENT_ID_RE actorId then (Inl (InputError (''Invalid actor_id: '' @ actorId)), st)
      else check_then (readBacklog st) (\<lambda>backlog st.
        case findTask backlog ref of
          None \<Rightarrow> (Inl (NotFoundError (''task not found: '' @ ref)), st)
        | Some task \<Rightarrow>
            if t_status task \<noteq> TS_blocked
            then (Inl (ConflictError (''task is not blocked (status: '' @ status_str (t_status task) @ ''): '' @ ref)), st)
            else
              obind (commitBacklog e (update_task ref (\<lambda>t. t\<lparr>t_status := TS_todo, t_blocked_reason := None, t_updated_at := Some (now_ts e)\<rparr>) backlog)
                       [(ref, mk_change TC_unblock None (Some actorId) reason)] st)
                (\<lambda>_ st1. appendEventTo e (unblocked_event e ref actorId reason) st1)) st)"

definition expire_run_claim :: "env \<Rightarrow> Claim \<Rightarrow> Claim" where
  "expire_run_claim e c =
     c\<lparr>c_state := CS_failed, c_failure_reason := Some ''manual_expire'', c_finished_at := Some (now_ts e), c_finalization_state := None,
       c_finalization_retry_count := Some 0, c_finalization_blocked_reason := None\<rparr>"

definition expire_run_event :: "env \<Rightarrow> string \<Rightarrow> Claim \<Rightarrow> OrcEvent" where
  "expire_run_event e actorId c =
     mk_event (now_ts e) ''claim_expired'' (actor_type_of actorId) actorId (Some (c_run_id c)) (Some (c_task_ref c)) (Some (c_agent_id c))
       (Some [(''reason'', JStr ''manual_expire''), (''policy'', JStr ''requeue'')])"

definition expireRun :: "env \<Rightarrow> string \<Rightarrow> string \<Rightarrow> orc_state \<Rightarrow> string outcome" where
  "expireRun e runId actorId st =
     (if runId = [] then (Inl (InputError ''run_id is required''), st)
      else
        (let (claims, st1) = readClaims st in
         case find_claim runId claims of
           None \<Rightarrow> (Inl (NotFoundError (''run not found: '' @ runId)), st1)
         | Some claim \<Rightarrow>
             if \<not> claim_active claim
             then (Inl (ConflictError (''run is already terminal (state: '' @ claim_state_str (c_state claim) @ ''): '' @ runId)), st1)
             else check_then (readBacklog st1) (\<lambda>backlog st1.
               case findTask backlog (c_task_ref claim) of
                 None \<Rightarrow> (Inl (NotFoundError (''task not found for run: '' @ c_task_ref claim)), st1)
               | Some task \<Rightarrow>
                   if t_status task \<in> set TERMINAL_STATUSES
                   then (Inl (ConflictError (''task is already terminal (status: '' @ status_str (t_status task) @ ''): '' @ c_task_ref claim)), st1)
                   else
                     obind (commitClaims e (mutate_claim runId (expire_run_claim e) claims) [expire_run_event e actorId claim] st1) (\<lambda>_ st2.
                     obind (commitBacklog e (update_task (c_task_ref claim) (\<lambda>t. t\<lparr>t_status := TS_todo, t_updated_at := Some (now_ts e)\<rparr>) backlog)
                              [(c_task_ref claim, mk_change TC_failure_requeue (Some runId) (Some actorId) (Some ''manual_expire''))] st2) (\<lambda>_ st3.
                       (Inr (c_task_ref claim), st3)))) st1))"

text \<open>The requests of the control socket.\<close>

datatype OperatorRequest =
    cancel_task string "string option" "string option"
  | reset_task_request string "string option"
  | unblock_task string "string option" "string option"
  | delegate_task string "string option" string "string option" "string option"
  | respond_input "string option"
  | run_expire string "string option"
  | task_mark_done string "string option"

fun operator_actor :: "OperatorRequest \<Rightarrow> string option" where
  "operator_actor (cancel_task _ _ a) = a"
| "operator_actor (reset_task_request _ a) = a"
| "operator_actor (unblock_task _ _ a) = a"
| "operator_actor (delegate_task _ _ _ _ a) = a"
| "operator_actor (respond_input a) = a"
| "operator_actor (run_expire _ a) = a"
| "operator_actor (task_mark_done _ a) = a"

definition masterForCredential :: "env \<Rightarrow> string \<Rightarrow> orc_state \<Rightarrow> string result" where
  "masterForCredential e credential st =
     rbind (resolveControlPrincipal e (Some credential) False st) (\<lambda>p.
       case p of
         Some (master_session agentId sessionId live running) \<Rightarrow>
           if live then Inr agentId
           else Inl (ControlError ''forbidden'' ''Only a master session that is not offline may act as master'')
       | Some _ \<Rightarrow> Inl (ControlError ''forbidden'' ''Only a master session that is not offline may act as master'')
       | None \<Rightarrow> Inl (ControlError ''unauthenticated'' ''Only a master session that is not offline may act as master''))"

definition authorizeOperator :: "env \<Rightarrow> string option \<Rightarrow> bool \<Rightarrow> OperatorRequest \<Rightarrow> orc_state \<Rightarrow> string result" where
  "authorizeOperator e credential isOperator req st =
     rbind (resolveControlPrincipal e credential isOperator st) (\<lambda>p.
       if p = Some operator \<and> (\<exists>a. req = respond_input a)
       then Inl (ControlError ''forbidden'' ''Input response requires the master session (not the operator token)'')
       else requireProjectAuthor e p (operator_actor req) st)"

end
