(* ===== verification/State_Invariant.thy ===== *)
theory State_Invariant
  imports Command_Frame Session_Props Operator Reconcile Scheduler_Props Supervision_Props
begin

text \<open>
  What the transactions of the two databases keep, every operation of the program keeps: the locale
  \<open>state_invariant\<close> has the transactions of \<^verbatim>\<open>events.db\<close> and of the task store as its assumptions and
  carries a property of the databases through the claim manager, the agents, the worker lifecycle, the
  operator's commands, reconciliation, finalization and supervision, whether an operation succeeds or
  fails. Its proofs follow the structure of the operations, with one rule for each way they are composed
  (\<open>sound_intros\<close>, and \<open>csound_intros\<close> for the coordinator's actions).
\<close>

section \<open>Sound operations\<close>

definition state_ok :: "(runtime_db \<Rightarrow> bool) \<Rightarrow> (task_store \<Rightarrow> bool) \<Rightarrow> orc_state \<Rightarrow> bool" where
  "state_ok D S st \<longleftrightarrow> D (st_db st) \<and> (\<forall>s. st_store st = Some s \<longrightarrow> S s)"

text \<open>An operation is sound when the state it leaves is, whether it succeeds or fails.\<close>

definition sound :: "(orc_state \<Rightarrow> bool) \<Rightarrow> 'a outcome \<Rightarrow> bool" where
  "sound ok r \<longleftrightarrow> ok (snd r)"

named_theorems sound_intros

lemma sound_pair [sound_intros]: "ok st \<Longrightarrow> sound ok (r, st)"
  by (simp add: sound_def)

lemma sound_obind [sound_intros]:
  "sound ok m \<Longrightarrow> (\<And>x st. ok st \<Longrightarrow> sound ok (k x st)) \<Longrightarrow> sound ok (obind m k)"
  by (cases m; cases "fst m") (auto simp: sound_def)

lemma sound_check_then [sound_intros]:
  "ok st \<Longrightarrow> (\<And>x. sound ok (k x st)) \<Longrightarrow> sound ok (check_then r k st)"
  by (auto simp: sound_def check_then_def split: sum.split)

lemma sound_if [sound_intros]: "(b \<Longrightarrow> sound ok r) \<Longrightarrow> (\<not> b \<Longrightarrow> sound ok r') \<Longrightarrow> sound ok (if b then r else r')"
  by simp

lemma sound_option [sound_intros]:
  "sound ok r \<Longrightarrow> (\<And>x. y = Some x \<Longrightarrow> sound ok (k x)) \<Longrightarrow> sound ok (case y of None \<Rightarrow> r | Some x \<Rightarrow> k x)"
  by (cases y) auto

lemma sound_sum [sound_intros]:
  "(\<And>err. sound ok (h err)) \<Longrightarrow> (\<And>x. y = Inr x \<Longrightarrow> sound ok (k x)) \<Longrightarrow> sound ok (case y of Inl err \<Rightarrow> h err | Inr x \<Rightarrow> k x)"
  by (cases y) auto

lemma sound_attempt [sound_intros]: "sound ok m \<Longrightarrow> sound ok (Lifecycle.attempt m)"
  by (simp add: sound_def Lifecycle.attempt_def)

text \<open>A read that may import a legacy file hands on a sound state.\<close>

lemma sound_let [sound_intros]: "ok (snd p) \<Longrightarrow> (\<And>x st. p = (x, st) \<Longrightarrow> ok st \<Longrightarrow> sound ok (k x st)) \<Longrightarrow> sound ok (case p of (x, st) \<Rightarrow> k x st)"
  by (cases p) simp

lemma sound_data_pair [sound_intros]:
  fixes p :: "'a \<times> task_store" and q :: "'b \<times> string" and u :: "'b \<times> string option" and u' :: "string option \<times> string option"
    and v :: "string \<times> string"
  shows "(\<And>x s. p = (x, s) \<Longrightarrow> sound ok (k x s)) \<Longrightarrow> sound ok (case p of (x, s) \<Rightarrow> k x s)"
    "(\<And>x y. sound ok (k' x y)) \<Longrightarrow> sound ok (case q of (x, y) \<Rightarrow> k' x y)"
    "(\<And>x y. sound ok (k'' x y)) \<Longrightarrow> sound ok (case u of (x, y) \<Rightarrow> k'' x y)"
    "(\<And>x y. sound ok (h x y st)) \<Longrightarrow> sound ok ((case v of (x, y) \<Rightarrow> h x y) st)"
    "(\<And>x y. sound ok (h' x y st)) \<Longrightarrow> sound ok ((case u' of (x, y) \<Rightarrow> h' x y) st)"
  by (simp_all add: case_prod_beta)

text \<open>A coordinator action is sound when it keeps the state directory sound.\<close>

definition csound :: "(orc_state \<Rightarrow> bool) \<Rightarrow> 'a coord \<Rightarrow> bool" where
  "csound ok m \<longleftrightarrow> (\<forall>c. ok (co_st c) \<longrightarrow> ok (co_st (snd (m c))))"

definition sup_sound :: "(orc_state \<Rightarrow> bool) \<Rightarrow> supervisor \<Rightarrow> supervisor \<Rightarrow> bool" where
  "sup_sound ok s s' \<longleftrightarrow> (ok (co_st (sv_co s)) \<longrightarrow> ok (co_st (sv_co s')))"

named_theorems csound_intros

locale state_invariant = command_invariant D
  for D :: "runtime_db \<Rightarrow> bool" +
  fixes S :: "task_store \<Rightarrow> bool"
  assumes D_readClaims: "D db \<Longrightarrow> readAuthoritativeClaims cj db = Inr (ocs, cj', db') \<Longrightarrow> D db'"
    and D_withSessions: "D db \<Longrightarrow> withAuthoritativeAgentSessions e cj aj as db = Inr (as', db') \<Longrightarrow> D db'"
    and D_commit: "D db \<Longrightarrow> commit_claims_txn e cj cs evs db = Inr db' \<Longrightarrow> D db'"
    and D_closeSessions: "D db \<Longrightarrow> closeProviderSessionsForAgent e cj aj a at db = Inr db' \<Longrightarrow> D db'"
    and D_setSessionState: "D db \<Longrightarrow> setSessionState e i ss reason opts db = Inr (b, db') \<Longrightarrow> D db'"
    and D_recordSession: "D db \<Longrightarrow> recordProviderSession e cj aj p db = Inr (b, db') \<Longrightarrow> D db'"
    and S_step: "S s \<Longrightarrow> store_step s s' \<Longrightarrow> S s'"
begin

abbreviation ok :: "orc_state \<Rightarrow> bool" where
  "ok \<equiv> state_ok D S"

section \<open>Reads and commits\<close>

lemma ok_files [simp]:
  "ok (st\<lparr>st_claims_json := x\<rparr>) = ok st"
  "ok (st\<lparr>st_agents_json := y\<rparr>) = ok st"
  "ok (st\<lparr>st_backlog_json := z\<rparr>) = ok st"
  "ok (st\<lparr>st_run_specs := w\<rparr>) = ok st"
  by (simp_all add: state_ok_def)

lemma ok_db: "ok st \<Longrightarrow> D db \<Longrightarrow> ok (st\<lparr>st_db := db\<rparr>)"
  by (simp add: state_ok_def)

lemma ok_db_of: "ok st \<Longrightarrow> D (st_db st)"
  by (simp add: state_ok_def)

lemma ok_store: "ok st \<Longrightarrow> S s \<Longrightarrow> ok (st\<lparr>st_store := Some s\<rparr>)"
  by (simp add: state_ok_def)

lemma ok_refresh [simp]: "ok (refreshBacklogProjection st) = ok st"
  by (simp add: refreshBacklogProjection_def split: option.split)

lemma ok_readClaims [sound_intros]: "ok st \<Longrightarrow> ok (snd (readClaims st))"
  by (auto simp: readClaims_def ok_db dest: D_readClaims [rotated] simp: state_ok_def split: sum.split prod.split option.split)

lemma sound_readJsonClaims [sound_intros]: "ok st \<Longrightarrow> sound ok (readJsonClaims st)"
  by (auto simp: readJsonClaims_def sound_def state_ok_def dest: D_readClaims [rotated] split: sum.split prod.split option.split)

lemma ok_readAgents [sound_intros]: "ok st \<Longrightarrow> ok (snd (readAgentsFile e st))"
  by (auto simp: readAgentsFile_def readAgents_def state_ok_def dest: D_withSessions [rotated] split: option.split sum.split prod.split)

lemma sound_commitClaims [sound_intros]: "ok st \<Longrightarrow> sound ok (commitClaims e cs evs st)"
  by (auto simp: commitClaims_def sound_def state_ok_def dest: D_commit [rotated] split: sum.split)

lemma sound_appendEvent [sound_intros]: "ok st \<Longrightarrow> sound ok (appendEventTo e ev st)"
  by (auto simp: appendEventTo_def sound_def state_ok_def dest: I_append [rotated] split: sum.split)

lemma sound_closeSessions [sound_intros]: "ok st \<Longrightarrow> sound ok (close_agent_sessions e a st)"
  by (auto simp: close_agent_sessions_def sound_def state_ok_def dest: D_closeSessions [rotated] split: sum.split)

text \<open>\<^verbatim>\<open>commitBacklog\<close> writes a task through transitions and a dispatch update.\<close>

lemma transition_reachable: "applyTransition e ref input s = Inr s' \<Longrightarrow> S s \<Longrightarrow> S s'"
  using S_step store_step.transition by blast

lemma commit_status_reachable:
  assumes "commit_status e change task current s = Inr s'" "S s"
  shows "S s'"
proof -
  from assms(1) obtain s1 input where "(\<exists>i. applyTransition e (t_ref task) i s = Inr s1) \<or> s1 = s" "applyTransition e (t_ref task) input s1 = Inr s'"
    unfolding commit_status_def rbind_Inr_iff by (auto split: if_split_asm)
  with assms(2) show ?thesis using transition_reachable by blast
qed

lemma commit_task_reachable:
  assumes "commit_task e changes task s = Inr s'" "S s"
  shows "S s'"
proof -
  from assms(1) obtain s1 u where "(\<exists>change current. commit_status e change task current s = Inr s1) \<or> s1 = s"
    "setDispatchState (t_ref task) u s1 = Inr s'"
    unfolding commit_task_def by (auto simp: rbind_Inr_iff split: option.splits if_split_asm)
  with assms(2) show ?thesis using commit_status_reachable S_step store_step.dispatch by blast
qed

lemma sound_commitBacklog [sound_intros]: "ok st \<Longrightarrow> sound ok (commitBacklog e b changes st)"
  unfolding commitBacklog_def
  by (auto simp: sound_def state_ok_def split: option.split sum.split
      intro: rfold_invariant [where I = S and f = "commit_task e changes"] commit_task_reachable)

section \<open>The claim manager\<close>

lemma sound_with_own_claim [sound_intros]:
  "ok st \<Longrightarrow> (\<And>c cs st. ok st \<Longrightarrow> sound ok (k c cs st)) \<Longrightarrow> sound ok (with_own_claim i a nf f k st)"
  unfolding with_own_claim_def by (intro sound_intros)

lemma sound_with_claim [sound_intros]:
  "ok st \<Longrightarrow> (\<And>c cs st. ok st \<Longrightarrow> sound ok (k c cs st)) \<Longrightarrow> sound ok (with_claim i k st)"
  unfolding with_claim_def by (intro sound_intros)

lemma sound_commit_claim_update [sound_intros]: "ok st \<Longrightarrow> sound ok (commit_claim_update e i f evs c cs st)"
  unfolding commit_claim_update_def by (intro sound_intros)

lemma sound_claim_fields [sound_intros]:
  assumes "ok st"
  shows "sound ok (startRun e i a emit at aty aid st)" "sound ok (heartbeat e i a ms emit at st)" "sound ok (renewLeaseOnly e i ms st)"
    "sound ok (finishRun e i a opts st)" "sound ok (markTaskEnvelopeSent e i a emit at aty aid2 st)"
    "sound ok (setRunFinalizationState e i a fs d br st)" "sound ok (setRunInputState e i a ins ra st)"
    "sound ok (setRunSessionStartRetryState e i a rc na le st)" "sound ok (setEscalationNotified e i st)"
    "sound ok (setPrRef e i prRef st)" "sound ok (setPrCreatedAt e i ca n st)" "sound ok (expireLeasesCore e policy actor st)"
  unfolding startRun_def heartbeat_def renewLeaseOnly_def finishRun_def markTaskEnvelopeSent_def setRunFinalizationState_def
    setRunInputState_def setRunSessionStartRetryState_def setEscalationNotified_def setPrRef_def setPrCreatedAt_def
    expireLeasesCore_def Let_def
  by (intro sound_intros assms; assumption)+

lemma sound_writeSnapshot: "ok st \<Longrightarrow> sound ok (writeRunRevisionSnapshot e runId r st)"
  unfolding writeRunRevisionSnapshot_def by (intro sound_intros) simp_all

lemma sound_commit_new_claim: "ok st \<Longrightarrow> sound ok (commit_new_claim e i ref a ms cs rv st)"
  unfolding commit_new_claim_def by (intro sound_intros) (simp_all add: sound_writeSnapshot [unfolded sound_def])

lemma sound_abandon_claim: "ok st \<Longrightarrow> sound ok (abandon_claim e ref i a err st)"
proof -
  have "S (abandonRun e i s)" if "S s" for s
    using that store_step.abandon S_step by blast
  then show "ok st \<Longrightarrow> sound ok (abandon_claim e ref i a err st)"
    unfolding abandon_claim_def
    by (auto simp: sound_def ok_store state_ok_def dest: transition_reachable split: option.split sum.split)
qed

lemma sound_claimTask [sound_intros]: "ok st \<Longrightarrow> sound ok (claimTask e ref a ms runId st)"
  unfolding claimTask_def
proof (intro sound_intros)
  fix claims st0 s r s1 x
  assume "ok st0" "st_store st0 = Some s" "store_claimTask e ref runId a s = Inr x" "x = (r, s1)"
  then have "ok (st0\<lparr>st_store := Some s1\<rparr>)"
    using S_step [OF _ store_step.claim] by (auto intro!: ok_store simp: state_ok_def)
  then show "ok (snd (commit_new_claim e runId ref a ms claims (Some r) (st0\<lparr>st_store := Some s1\<rparr>)))"
    using sound_commit_new_claim by (simp add: sound_def)
qed (use sound_commit_new_claim sound_abandon_claim in \<open>auto simp: sound_def\<close>)

section \<open>Agents\<close>

lemma sound_agents [sound_intros]:
  assumes "ok st"
  shows "sound ok (registerAgent e d st)" "sound ok (updateAgentRuntime e a u st)" "sound ok (removeAgent e a st)"
proof -
  have ok: "sound ok (r, st1\<lparr>st_agents_json := x\<rparr>)" if "ok st1" for r :: "'b result" and st1 x
    using that by (simp add: sound_def)
  show "sound ok (registerAgent e d st)" "sound ok (updateAgentRuntime e a u st)" "sound ok (removeAgent e a st)"
    unfolding registerAgent_def updateAgentRuntime_def removeAgent_def Let_def
    by (intro ok sound_intros assms; assumption)+
qed

lemma sound_recordAgentActivity [sound_intros]: "ok st \<Longrightarrow> sound ok (recordAgentActivity e a at s st)"
  using sound_agents(2) [of st e a "no_updates\<lparr>au_status := Some s, au_last_heartbeat_at := Some (Some at)\<rparr>"]
  unfolding recordAgentActivity_def by (auto simp: sound_def split: prod.split sum.split orc_error.split)

lemma sound_workers [sound_intros]:
  assumes "ok st"
  shows "sound ok (clearWorkerSessionRuntime e a s st)" "sound ok (markWorkerOffline e a why p st)" "sound ok (cleanupRunCapacity e n a off st)"
  unfolding cleanupRunCapacity_def markWorkerOffline_def clearWorkerSessionRuntime_def Let_def by (intro sound_intros assms; assumption)+

section \<open>The worker lifecycle\<close>

lemma ok_getClaim [sound_intros]: "ok st \<Longrightarrow> ok (snd (getClaim i st))"
  using sound_readJsonClaims [of st] by (auto simp: getClaim_def sound_def split: prod.split sum.split)

lemma ok_loadClaim [sound_intros]: "ok st \<Longrightarrow> ok (snd (loadClaim i st))"
  using ok_readClaims [of st] by (auto simp: loadClaim_def Let_def split: prod.split)

lemma sound_with_run [sound_intros]:
  "ok st \<Longrightarrow> (\<And>r st. ok st \<Longrightarrow> sound ok (k r st)) \<Longrightarrow> sound ok (with_run i k st)"
  unfolding with_run_def by (intro sound_intros)

lemma sound_apply [sound_intros]:
  assumes "ok st"
  shows "sound ok (apply_finish_run e i a success reason code policy at st)"
    "sound ok (apply_advance e i a name ts claim s d br ext st)" "sound ok (apply_heartbeat e i a claim at ms st)"
    "sound ok (apply_progress e i a event phase why pol st)" "sound ok (report_for_duty e ev st)"
  unfolding apply_finish_run_def apply_advance_def apply_heartbeat_def apply_progress_def report_for_duty_def Let_def
  by (intro sound_intros assms; assumption)+

lemma sound_apply_action [sound_intros]: "ok st \<Longrightarrow> sound ok (apply_action e i a name ts claim action st)"
  by (cases action; simp only: apply_action.simps; intro sound_intros; assumption)

lemma sound_route_event: "ok st \<Longrightarrow> sound ok (route_event e ev st)"
  unfolding route_event_def Let_def by (intro sound_intros; (simp add: ok_getClaim)?)

lemma sound_applyLifecycle: "ok st \<Longrightarrow> sound ok (applyLifecycle e req st)"
  by (cases req; simp only: applyLifecycle.simps Let_def; intro sound_intros; assumption)

section \<open>Reconciliation and the operator\<close>

lemma sound_refreshClaims [sound_intros]: "ok st \<Longrightarrow> sound ok (refreshClaimsProjection st)"
  by (auto simp: refreshClaimsProjection_def sound_def state_ok_def dest: D_readClaims [rotated] split: sum.split option.split prod.split)

lemma sound_reconcileState: "ok st \<Longrightarrow> sound ok (reconcileState e st)"
  unfolding reconcileState_def Let_def by (intro sound_intros; assumption)

lemma sound_markTaskDone [sound_intros]: "ok st \<Longrightarrow> sound ok (markTaskDoneRuntimeOnly e ref actor st)"
  unfolding markTaskDoneRuntimeOnly_def by (intro sound_intros; assumption)

lemma ok_actor [sound_intros]: "ok st \<Longrightarrow> ok (snd (actor_or_master e actor st))"
  by (auto simp: actor_or_master_def ok_readAgents split: option.split)

lemma sound_operator [sound_intros]:
  assumes "ok st"
  shows "sound ok (delegateTask e ref target type note actor lastAssigned st)" "sound ok (resetTask e ref actorId st)"
    "sound ok (unblockTask e ref reason actorId st)" "sound ok (expireRun e runId actorId st)"
  unfolding delegateTask_def resetTask_def unblockTask_def expireRun_def Let_def
  by (intro sound_intros assms; assumption)+

lemma sound_cancelTask: "ok st \<Longrightarrow> sound ok (cancelTask e ref reason actor st)"
  unfolding cancelTask_def Let_def
  by (intro sound_intros) (auto intro: sound_intros)

section \<open>Finalization\<close>

lemma csound_on_st [csound_intros]: "(\<And>st. ok st \<Longrightarrow> sound ok (f st)) \<Longrightarrow> csound ok (on_st f)"
  by (simp add: csound_def on_st_def Let_def sound_def case_prod_beta)

lemma csound_cbind [csound_intros]: "csound ok m \<Longrightarrow> (\<And>x. csound ok (k x)) \<Longrightarrow> csound ok (cbind m k)"
  unfolding csound_def cbind_def
proof (intro allI impI)
  fix c :: coord_state assume h: "\<forall>c. ok (co_st c) \<longrightarrow> ok (co_st (snd (m c)))"
    "\<And>x. \<forall>c. ok (co_st c) \<longrightarrow> ok (co_st (snd (k x c)))" "ok (co_st c)"
  obtain r c' where m: "m c = (r, c')" by (cases "m c")
  with h(1,3) have "ok (co_st c')" by fastforce
  with h(2) m show "ok (co_st (snd (case m c of (Inl err, c') \<Rightarrow> (Inl err, c') | (Inr x, c') \<Rightarrow> k x c')))"
    by (cases r) auto
qed

lemma csound_ctry [csound_intros]: "csound ok m \<Longrightarrow> (\<And>err. csound ok (h err)) \<Longrightarrow> (\<And>x. csound ok (k x)) \<Longrightarrow> csound ok (ctry m h k)"
  unfolding csound_def ctry_def
proof (intro allI impI)
  fix c :: coord_state assume h: "\<forall>c. ok (co_st c) \<longrightarrow> ok (co_st (snd (m c)))"
    "\<And>err. \<forall>c. ok (co_st c) \<longrightarrow> ok (co_st (snd (h err c)))"
    "\<And>x. \<forall>c. ok (co_st c) \<longrightarrow> ok (co_st (snd (k x c)))" "ok (co_st c)"
  obtain r c' where m: "m c = (r, c')" by (cases "m c")
  with h(1,4) have "ok (co_st c')" by fastforce
  with h(2,3) m show "ok (co_st (snd (case m c of (Inl err, c') \<Rightarrow> h err c' | (Inr x, c') \<Rightarrow> k x c')))"
    by (cases r) auto
qed

lemma csound_simple [csound_intros]:
  "csound ok (creturn x)" "csound ok m \<Longrightarrow> csound ok (cquiet m)" "csound ok (call_host r k)" "csound ok (\<lambda>c. (y, c))"
  "csound ok (\<lambda>c. (z, c\<lparr>co_worktrees := w c\<rparr>))"
  by (simp_all add: csound_def creturn_def cquiet_def call_host_def split: sum.split)

lemma csound_if [csound_intros]: "csound ok m \<Longrightarrow> csound ok m' \<Longrightarrow> csound ok (if b then m else m')"
  by simp

lemma csound_option [csound_intros]: "csound ok m \<Longrightarrow> (\<And>x. csound ok (k x)) \<Longrightarrow> csound ok (case y of None \<Rightarrow> m | Some x \<Rightarrow> k x)"
  by (cases y) auto

lemma sound_writable: "csound ok (assertSessionWritable e h provider handle)"
  unfolding assertSessionWritable_def csound_def on_st_def
  by (auto split: option.split sum.split prod.split if_split intro!: ok_db D_setSessionState [OF ok_db_of])

lemma deliver_command_ok:
  assumes "ok st"
  shows "ok (snd (deliver_command e h input st))"
proof (cases "enqueueFromCoordinator e (h_random h (st_db st)) input (st_db st)")
  case (Inr p)
  obtain q db where p: "p = (q, db)" by (cases p)
  have ok: "D db"
    using keeps_enqueue [OF ok_db_of [OF assms], of e "h_random h (st_db st)" None input] Inr p
    by (simp add: txn_keeps_def enqueueFromCoordinator_def)
  show ?thesis
  proof (cases "deliver DELIVER_FUEL (rounds e) (commandTransport e h st) 30000 (dc_command_id q) db")
    case (Some r)
    then show ?thesis using keeps_deliver [OF ok Some] Inr p ok_db [OF assms]
      by (cases r) (auto simp: deliver_command_def)
  qed (use Inr p ok_db [OF assms ok] in \<open>simp add: deliver_command_def\<close>)
qed (use assms in \<open>simp add: deliver_command_def\<close>)

lemma csound_deliver: "csound ok (\<lambda>c. deliverStructured e h handle body kind (key c) c)"
  unfolding deliverStructured_def csound_def on_st_def
  by (auto simp: deliver_command_ok split: option.split prod.split if_split) (metis deliver_command_ok snd_conv)

lemma csound_record [csound_intros]: "csound ok (record_sent provider handle msg)"
  by (simp add: csound_def record_sent_def)

lemma csound_adapter_send [csound_intros]: "csound ok (adapter_send e h provider handle msg)"
  unfolding adapter_send_def
  by (intro csound_cbind sound_writable csound_if csound_simple csound_deliver csound_record)

lemma csound_send_to [csound_intros]: "csound ok (send_to e h a msg)"
  unfolding send_to_def by (intro csound_intros)

lemma csound_readAgents [csound_intros]: "csound ok (on_st (\<lambda>st. (Inr (g st), snd (readAgentsFile e st))))"
  by (simp add: csound_def on_st_def ok_readAgents)

lemma csound_send [csound_intros]: "csound ok (sendCoordinatorMessage e h a msg)"
  unfolding sendCoordinatorMessage_def by (intro csound_intros)

lemma csound_blocked [csound_intros]: "csound ok (markFinalizeBlocked e cfg claim reason)"
  unfolding markFinalizeBlocked_def by (intro csound_intros sound_intros)

lemma csound_rebase [csound_intros]: "csound ok (requestFinalizeRebase e h cfg claim reason inc)"
  unfolding requestFinalizeRebase_def Let_def by (intro csound_intros sound_intros; assumption)

lemma csound_finish [csound_intros]: "csound ok (finish_merged_run e h cfg claim branch)"
  unfolding finish_merged_run_def by (intro csound_intros sound_intros; assumption)

lemma sound_confirm [sound_intros]: "ok st \<Longrightarrow> sound ok (confirm_task_done e ref st)"
  unfolding confirm_task_done_def by (intro sound_intros; assumption)

lemma csound_merges [csound_intros]:
  "csound ok (mergeAndFinishDirectRun e h cfg claim wt)" "csound ok (merge_reviewed_pr e h cfg claim wt)"
  unfolding mergeAndFinishDirectRun_def merge_reviewed_pr_def by (intro csound_intros sound_intros; assumption)+

lemma csound_paths [csound_intros]:
  "csound ok (open_pr e h cfg claim wt task n)" "csound ok (finalize_direct e h cfg claim wt)"
  unfolding open_pr_def finalize_direct_def Let_def by (intro csound_intros sound_intros; assumption)+

lemma csound_work [csound_intros]: "csound ok (finalize_work e h cfg claim wt n)"
  unfolding finalize_work_def by (intro csound_intros sound_intros; assumption)

lemma finalizeRun_ok: "ok (co_st c) \<Longrightarrow> ok (co_st (snd (finalizeRun e h cfg claim n c)))"
proof -
  have "csound ok (finalizeRun e h cfg claim n)"
    using csound_blocked csound_merges(2) csound_work
    unfolding finalizeRun_def csound_def by (auto split: option.split)
  then show "ok (co_st c) \<Longrightarrow> ok (co_st (snd (finalizeRun e h cfg claim n c)))" by (simp add: csound_def)
qed

section \<open>Supervision\<close>

lemma sup_sound_co: "csound ok m \<Longrightarrow> holds (sup_sound ok) anything (on_co m)"
  unfolding sup_sound_def [abs_def]
  by (rule holds_on_co [where R = "\<lambda>c c'. ok (co_st c) \<longrightarrow> ok (co_st c')"]) (simp add: holds_def csound_def)

lemma sup_sound_dir: "(\<And>st. ok st \<Longrightarrow> sound ok (f st)) \<Longrightarrow> holds (sup_sound ok) anything (on_dir f)"
  unfolding on_dir_def by (intro sup_sound_co csound_on_st)

lemma sup_sound_mem: "(\<And>s. sv_co (snd (m s)) = sv_co s) \<Longrightarrow> holds (sup_sound ok) anything m"
  by (simp add: holds_def sup_sound_def)

lemma onRuntimeEvent_ok: "D db \<Longrightarrow> D (onRuntimeEvent e ev db)"
  using keeps_runtime_ack [of db]
  by (auto simp: onRuntimeEvent_def txn_keeps_def split: option.split sum.split)

end

sublocale state_invariant \<subseteq> so: supervision "sup_sound (state_ok D S)" h UNIV for h
proof
  show "sup_sound ok s s" for s by (simp add: sup_sound_def)
  show "sup_sound ok a b \<Longrightarrow> sup_sound ok b c \<Longrightarrow> sup_sound ok a c" for a b c by (simp add: sup_sound_def)
qed ((rule sup_sound_dir, intro sound_intros, assumption)+, (intro sup_sound_co csound_intros)+,
     (rule sup_sound_mem, simp add: memory_defs split: option.split)+)

end
