(* ===== verification/Event_Processing_Props.thy ===== *)
theory Event_Processing_Props
  imports Event_Processing Db_Integrity State_Invariant
begin

text \<open>
  What consuming the event log guarantees. The operations that an event triggers keep whatever the
  transactions of the databases keep (\<open>state_invariant\<close>, carried on to the steps of a tick); the cursor is
  one such thing, so it moves only where the code moves it, and events are consumed in order and once.
\<close>

section \<open>Every event keeps what transactions keep\<close>

definition tick_sound :: "(orc_state \<Rightarrow> bool) \<Rightarrow> coordinator \<Rightarrow> coordinator \<Rightarrow> bool" where
  "tick_sound ok c c' \<longleftrightarrow> (ok (co_st (sv_co (cn_sv c))) \<longrightarrow> ok (co_st (sv_co (cn_sv c'))))"

context state_invariant
begin

lemma csound_read_claim [csound_intros]: "csound ok (read_claim runId)"
proof -
  have "sound ok (let (claim, st0) = getClaim i st in (Inr claim, st0))" if "ok st" for i st
    using ok_getClaim [OF that, of i] by (simp add: sound_def case_prod_beta)
  then show ?thesis unfolding read_claim_def by (intro csound_intros)
qed

lemma csound_finish_event [csound_intros]: "csound ok (finish_event_run e h runId agentId success reason code policy at)"
  unfolding finish_event_run_def by (intro csound_intros sound_intros; assumption)

lemma csound_perform [csound_intros]: "csound ok (perform_action e h ev claim action)"
  by (cases action) (simp_all only: perform_action.simps, (intro csound_intros sound_intros; assumption)+)

lemma csound_release [csound_intros]: "csound ok (release_run e cfg agentId runId)"
proof -
  have other: "sound ok (let (other, st0) = hasOtherActiveClaim agentId runId st in (Inr other, st0))" if "ok st" for st
    using sound_readJsonClaims [OF that] by (auto simp: sound_def hasOtherActiveClaim_def split: prod.split sum.split)
  show ?thesis unfolding release_run_def by (intro csound_intros other sound_intros; assumption)
qed

lemma csound_finalize [csound_intros]: "csound ok (finalizeRun e h cfg claim n)"
  using finalizeRun_ok by (simp add: csound_def)

lemma csound_trigger [csound_intros]: "csound ok (trigger_finalization e h cfg ev)"
  unfolding trigger_finalization_def by (intro csound_intros)

lemma csound_handle_event [csound_intros]: "csound ok (handle_event e h cfg ev)"
  unfolding handle_event_def by (intro csound_intros sound_intros; assumption)

lemma tick_sv: "holds (sup_sound ok) Q m \<Longrightarrow> holds (tick_sound ok) Q (on_sv m)"
  unfolding holds_def tick_sound_def sup_sound_def on_sv_def by (auto simp: Let_def case_prod_beta)

lemma tick_co: "csound ok m \<Longrightarrow> holds (tick_sound ok) anything (in_co m)"
  by (intro tick_sv sup_sound_co)

lemma tick_dir: "(\<And>st. ok st \<Longrightarrow> sound ok (f st)) \<Longrightarrow> holds (tick_sound ok) anything (in_dir f)"
  by (intro tick_sv sup_sound_dir)

lemma tick_memory: "(\<And>c. cn_sv (snd (m c)) = cn_sv c) \<Longrightarrow> holds (tick_sound ok) anything m"
  by (simp add: holds_def tick_sound_def)

end

sublocale state_invariant \<subseteq> ts: step_preorder "tick_sound (state_ok D S)"
  by unfold_locales (simp_all add: tick_sound_def)

context state_invariant
begin

lemmas tick_bind = ts.holds_cbind [where P = anything, simplified]
lemmas tick_try = ts.holds_ctry [where P = anything, simplified]

lemma tick_reload: "holds (tick_sound ok) anything (reloadTickState e)"
proof -
  have "sound ok (Inr (listAgents e st), snd (readAgentsFile e st))" "sound ok (readBacklog st, st)" if "ok st" for st
    using ok_readAgents [OF that] that by (simp_all add: sound_def)
  then show ?thesis unfolding reloadTickState_def
    by (intro tick_bind tick_dir sound_readJsonClaims ts.holds_creturn) simp_all
qed

end

section \<open>The cursor\<close>

text \<open>No operation moves the cursor or records a reset of it.\<close>

definition offsets_at :: "(string \<times> nat) list \<Rightarrow> bool \<Rightarrow> runtime_db \<Rightarrow> bool" where
  "offsets_at x b db \<longleftrightarrow> db_offsets db = x \<and> wasEventOffsetReset COORDINATOR_EVENT_CONSUMER db = b"

lemma marker_names: "CUTOVER_NAME \<noteq> reset_marker c" "SESSION_CUTOVER_NAME \<noteq> reset_marker c"
  by (simp_all add: CUTOVER_NAME_def SESSION_CUTOVER_NAME_def reset_marker_def)

lemma offsets_at_tables [simp]:
  "offsets_at x b (db\<lparr>db_runs := rs\<rparr>) = offsets_at x b db"
  "offsets_at x b (db\<lparr>db_sessions := ss\<rparr>) = offsets_at x b db"
  "offsets_at x b (db\<lparr>db_commands := cs\<rparr>) = offsets_at x b db"
  "offsets_at x b (db\<lparr>db_cutovers := db_cutovers db @ [CUTOVER_NAME]\<rparr>) = offsets_at x b db"
  "offsets_at x b (db\<lparr>db_cutovers := db_cutovers db @ [SESSION_CUTOVER_NAME]\<rparr>) = offsets_at x b db"
  using marker_names marker_names [symmetric] by (auto simp: offsets_at_def wasEventOffsetReset_def)

lemma offsets_append: "offsets_at x b db \<Longrightarrow> append_event e ev db = Inr db' \<Longrightarrow> offsets_at x b db'"
  by (auto simp: offsets_at_def wasEventOffsetReset_def append_event_def appendSequencedEvent_def rbind_Inr_iff Let_def
      split: if_splits option.splits)

lemma offsets_appends: "offsets_at x b db \<Longrightarrow> rfold (append_event e) evs db = Inr db' \<Longrightarrow> offsets_at x b db'"
  by (erule rfold_invariant) (auto intro: offsets_append)

lemma offsets_upserts: "offsets_at x b db \<Longrightarrow> rfold upsertClaim cs db = Inr db' \<Longrightarrow> offsets_at x b db'"
  by (erule rfold_invariant) (auto simp: upsertClaim_def Let_def split: if_splits)

lemma offsets_deletes: "offsets_at x b (fold delete_run rs db) = offsets_at x b db"
  by (induction rs arbitrary: db) (simp_all add: delete_run_def)

lemma offsets_importClaims: "offsets_at x b db \<Longrightarrow> importLegacyClaims cj db = Inr (i, db') \<Longrightarrow> offsets_at x b db'"
  by (auto simp: importLegacyClaims_def rbind_Inr_iff dest: offsets_upserts split: if_splits option.splits)

lemma offsets_importSessions: "offsets_at x b db \<Longrightarrow> importLegacyAgentSessions e cj aj db = Inr db' \<Longrightarrow> offsets_at x b db'"
proof -
  have "offsets_at x b (fold (import_agent_session e) as db) = offsets_at x b db" for as db
    by (induction as arbitrary: db) (simp_all add: import_agent_session_def Let_def)
  then show "offsets_at x b db \<Longrightarrow> importLegacyAgentSessions e cj aj db = Inr db' \<Longrightarrow> offsets_at x b db'"
    by (auto simp: importLegacyAgentSessions_def rbind_Inr_iff Let_def dest: offsets_importClaims split: if_splits option.splits)
qed

interpretation oa: state_invariant "offsets_at x b" "\<lambda>_. True" for x b
proof
  show "offsets_at x b db \<Longrightarrow> append_event e ev db = Inr db' \<Longrightarrow> offsets_at x b db'" for db e ev db' by (rule offsets_append)
  show "offsets_at x b db \<Longrightarrow> readAuthoritativeClaims cj db = Inr (ocs, cj', db') \<Longrightarrow> offsets_at x b db'" for db cj ocs cj' db'
    by (auto simp: readAuthoritativeClaims_def rbind_Inr_iff Let_def dest: offsets_importClaims split: if_splits)
  show "offsets_at x b db \<Longrightarrow> withAuthoritativeAgentSessions e cj aj as db = Inr (as', db') \<Longrightarrow> offsets_at x b db'" for db e cj aj as as' db'
    by (auto simp: withAuthoritativeAgentSessions_def rbind_Inr_iff dest: offsets_importSessions split: if_splits)
  show "offsets_at x b db \<Longrightarrow> commit_claims_txn e cj cs evs db = Inr db' \<Longrightarrow> offsets_at x b db'" for db e cj cs evs db'
  proof -
    assume ok: "offsets_at x b db" and "commit_claims_txn e cj cs evs db = Inr db'"
    from this(2) obtain i db1 db3 where "importLegacyClaims cj db = Inr (i, db1)"
      and "rfold upsertClaim cs (fold delete_run (filter (\<lambda>r. r \<notin> set (map c_run_id cs)) (map rn_run_id (db_runs db1))) db1) = Inr db3"
      and 3: "rfold (append_event e) evs (db3\<lparr>db_cutovers := (if CUTOVER_NAME \<in> set (db_cutovers db3) then db_cutovers db3
                                 else db_cutovers db3 @ [CUTOVER_NAME])\<rparr>) = Inr db'"
      by (auto simp: commit_claims_txn_def rbind_Inr_iff Let_def)
    then have "offsets_at x b db3" using ok offsets_importClaims offsets_upserts offsets_deletes by meson
    then show "offsets_at x b db'" by (intro offsets_appends [OF _ 3]) simp
  qed
  show "offsets_at x b db \<Longrightarrow> closeProviderSessionsForAgent e cj aj a at db = Inr db' \<Longrightarrow> offsets_at x b db'" for db e cj aj a at db'
    by (auto simp: closeProviderSessionsForAgent_def rbind_Inr_iff dest: offsets_importSessions)
  show "offsets_at x b db \<Longrightarrow> setSessionState e i ss reason opts db = Inr (b', db') \<Longrightarrow> offsets_at x b db'" for db e i ss reason opts b' db'
  proof -
    assume ok: "offsets_at x b db" and r: "setSessionState e i ss reason opts db = Inr (b', db')"
    show "offsets_at x b db'"
    proof (cases "db' = db")
      case False
      with r obtain ev rows where "append_event e ev (db\<lparr>db_sessions := rows\<rparr>) = Inr db'"
        unfolding setSessionState_def Let_def by (auto simp: rbind_Inr_iff split: option.splits if_split_asm)
      from this show ?thesis by (rule offsets_append [rotated]) (simp add: ok)
    qed (use ok in simp)
  qed
  show "offsets_at x b db \<Longrightarrow> recordProviderSession e cj aj p db = Inr (b', db') \<Longrightarrow> offsets_at x b db'" for db e cj aj p b' db'
  proof -
    assume ok: "offsets_at x b db" and r: "recordProviderSession e cj aj p db = Inr (b', db')"
    from r obtain db1 where 1: "importLegacyAgentSessions e cj aj db = Inr db1" "db' = db1 \<or> db' = db1\<lparr>db_sessions := record_session_rows p (db_sessions db1)\<rparr>"
      unfolding recordProviderSession_def Let_def by (simp only: rbind_Inr_iff split: if_split_asm) (blast | simp)+
    from offsets_importSessions [OF ok 1(1)] 1(2) show "offsets_at x b db'" by auto
  qed
qed simp_all

abbreviation cursor :: "coordinator \<Rightarrow> nat" where
  "cursor c \<equiv> readEventOffset COORDINATOR_EVENT_CONSUMER (cn_db c)"

definition cursor_set :: "coordinator \<Rightarrow> bool" where
  "cursor_set c \<longleftrightarrow> map_of (db_offsets (cn_db c)) COORDINATOR_EVENT_CONSUMER \<noteq> None"

lemma cursor_Some: "cursor_set c \<Longrightarrow> map_of (db_offsets (cn_db c)) COORDINATOR_EVENT_CONSUMER = Some (cursor c)"
  by (auto simp: cursor_set_def readEventOffset_def)

definition legacy_loaded :: "coordinator \<Rightarrow> coordinator" where
  "legacy_loaded c = snd (load_legacy c)"

lemma legacy_loaded_sv [simp]: "cn_sv (legacy_loaded c) = cn_sv c"
  by (simp add: legacy_loaded_def load_legacy_def)

lemma db_txn_Inl: "f (cn_db c) = Inl err \<Longrightarrow> db_txn f c = (Inl err, c)"
  by (simp add: db_txn_def on_sv_def on_dir_def on_co_def on_st_def)

lemma db_txn_Inr:
  "f (cn_db c) = Inr (x, db) \<Longrightarrow> \<exists>c'. db_txn f c = (Inr x, c') \<and> cn_db c' = db \<and> c' = c\<lparr>cn_sv := cn_sv c'\<rparr> \<and>
     (db = cn_db c \<longrightarrow> c' = c)"
  by (simp add: db_txn_def on_sv_def on_dir_def on_co_def on_st_def)

lemma getEventCursor_set: "cursor_set c \<Longrightarrow> getEventCursor c = (Inr (cursor c), legacy_loaded c)"
proof -
  assume set: "cursor_set c"
  then have "initializeEventOffset (cn_checkpoint c) COORDINATOR_EVENT_CONSUMER (cn_db c) = Inr (cursor c, cn_db c)"
    using cursor_Some [OF set] by (simp add: initializeEventOffset_def COORDINATOR_EVENT_CONSUMER_def)
  from db_txn_Inr [of "initializeEventOffset (cn_checkpoint c) COORDINATOR_EVENT_CONSUMER", OF this]
  have t: "db_txn (initializeEventOffset (cn_checkpoint c) COORDINATOR_EVENT_CONSUMER) c = (Inr (cursor c), c)" by auto
  show ?thesis unfolding getEventCursor_def
    by (simp add: cbind_def t creturn_def load_legacy_def legacy_loaded_def)
qed

lemma advanceCursor_set:
  assumes "cursor_set c" "int seq \<le> MAX_SAFE_INTEGER"
  shows "\<exists>c'. advanceCursor seq c = (Inr (), c') \<and> cursor c' = max (cursor c) seq \<and> cursor_set c' \<and>
    wasEventOffsetReset COORDINATOR_EVENT_CONSUMER (cn_db c') = wasEventOffsetReset COORDINATOR_EVENT_CONSUMER (cn_db c)"
proof (cases "seq > cursor c")
  case True
  let ?db = "set_offset COORDINATOR_EVENT_CONSUMER seq (cn_db c)"
  have "advanceEventOffset (int (cursor c)) (int seq) COORDINATOR_EVENT_CONSUMER (cn_db c) = Inr (int seq, ?db)"
    using True assms cursor_Some [OF assms(1)] by (simp add: advanceEventOffset_def assertSeq_def safe_nonneg_def)
  from db_txn_Inr [of "advanceEventOffset (int (cursor c)) (int seq) COORDINATOR_EVENT_CONSUMER", OF this]
  obtain c' where c': "db_txn (advanceEventOffset (int (cursor c)) (int seq) COORDINATOR_EVENT_CONSUMER) c = (Inr (int seq), c')"
    "cn_db c' = ?db" by blast
  have m: "map_of (db_offsets ?db) COORDINATOR_EVENT_CONSUMER = Some seq"
    using cursor_Some [OF assms(1)] by (simp add: map_of_set_offset)
  show ?thesis
    using True c' m by (simp add: advanceCursor_def cbind_def creturn_def cursor_set_def readEventOffset_def wasEventOffsetReset_def
        max_def) (simp add: set_offset_def)
next
  case False
  then show ?thesis using assms(1) by (simp add: advanceCursor_def max_def)
qed

text \<open>Handling an event leaves the cursor where it is.\<close>

lemma handle_keeps_cursor:
  assumes "in_co (handle_event e h cfg ev) c = (r, c')"
  shows "db_offsets (cn_db c') = db_offsets (cn_db c)"
    "wasEventOffsetReset COORDINATOR_EVENT_CONSUMER (cn_db c') = wasEventOffsetReset COORDINATOR_EVENT_CONSUMER (cn_db c)"
proof -
  let ?x = "db_offsets (cn_db c)" and ?b = "wasEventOffsetReset COORDINATOR_EVENT_CONSUMER (cn_db c)"
  obtain co' where co: "handle_event e h cfg ev (sv_co (cn_sv c)) = (r, co')" "sv_co (cn_sv c') = co'"
    using assms by (auto simp: on_sv_def on_co_def Let_def split: prod.splits)
  have "state_ok (offsets_at ?x ?b) (\<lambda>_. True) (co_st (sv_co (cn_sv c)))" by (simp add: state_ok_def offsets_at_def)
  then have "state_ok (offsets_at ?x ?b) (\<lambda>_. True) (co_st co')"
    using oa.csound_handle_event [of ?x ?b e h cfg ev] co(1) by (auto simp: csound_def dest!: spec [of _ "sv_co (cn_sv c)"])
  then show "db_offsets (cn_db c') = ?x" "wasEventOffsetReset COORDINATOR_EVENT_CONSUMER (cn_db c') = ?b"
    by (simp_all add: state_ok_def offsets_at_def co(2))
qed

text \<open>
  An event after the cursor: the cursor moves to it exactly when its handling succeeds, and stays
  where it was when it fails.
\<close>

lemma process_event_cursor:
  assumes "process_event e h cfg ev c = (r, c')" "cursor_set c" "cursor c < ev_seq ev" "int (ev_seq ev) \<le> MAX_SAFE_INTEGER"
  shows "cursor_set c' \<and> cursor c' = (case r of Inr _ \<Rightarrow> ev_seq ev | Inl _ \<Rightarrow> cursor c)"
proof -
  let ?c = "legacy_loaded c"
  have set: "cursor_set ?c" "cursor ?c = cursor c" using assms(2) by (simp_all add: cursor_set_def)
  have adv: "cursor_set c2 \<and> cursor c2 = ev_seq ev \<and> r2 = Inr ()"
    if "advanceCursor (ev_seq ev) c1 = (r2, c2)" "cursor_set c1" "cursor c1 = cursor c" for c1 c2 r2
    using advanceCursor_set [OF that(2) assms(4)] that assms(3) by auto
  have run: "process_event e h cfg ev c = (if already_processed ev ?c then advanceCursor (ev_seq ev) ?c
       else cbind (in_co (handle_event e h cfg ev)) (\<lambda>_. advanceCursor (ev_seq ev)) ?c)"
    using assms(3) unfolding process_event_def by (simp add: cbind_def getEventCursor_set [OF assms(2)])
  show ?thesis
  proof (cases "already_processed ev ?c")
    case True
    then show ?thesis using run assms(1) adv [of ?c r c'] set by auto
  next
    case False
    obtain r1 c1 where h: "in_co (handle_event e h cfg ev) ?c = (r1, c1)" by fastforce
    have c1: "cursor_set c1" "cursor c1 = cursor c"
      using handle_keeps_cursor(1) [OF h] set by (simp_all add: cursor_set_def readEventOffset_def)
    show ?thesis
      using run assms(1) False h adv [OF _ c1, of r c'] c1 by (cases r1) (auto simp: cbind_def)
  qed
qed

text \<open>An event at or before the cursor is skipped: neither the state directory nor the outside is touched.\<close>

lemma processed_event_skipped:
  assumes "cursor_set c" "0 < ev_seq ev" "ev_seq ev \<le> cursor c"
  shows "process_event e h cfg ev c = (Inr (), legacy_loaded c)"
proof -
  have "already_processed ev (legacy_loaded c)" using assms by (simp add: already_processed_def)
  then show ?thesis
    using assms unfolding process_event_def by (simp add: cbind_def getEventCursor_set advanceCursor_def)
qed

lemma process_row_cursor:
  assumes "process_row e h cfg row c = (r, c')" "cursor_set c" "cursor c < fst row" "int (fst row) \<le> MAX_SAFE_INTEGER"
    "\<And>ev. snd row = Some ev \<Longrightarrow> ev_seq ev = fst row"
  shows "cursor_set c' \<and> cursor c' = (case r of Inr _ \<Rightarrow> fst row | Inl _ \<Rightarrow> cursor c)"
proof (cases "snd row")
  case None
  then show ?thesis using assms advanceCursor_set [OF assms(2,4)] by (auto simp: process_row_def)
next
  case (Some ev)
  let ?c = "snd (observe [ev] c)"
  obtain r1 c1 where p: "process_event e h cfg ev ?c = (r1, c1)" by fastforce
  have "r = r1 \<and> c' = c1"
    using assms(1) Some p by (cases r1) (auto simp: process_row_def processTerminalRunEvents_def cbind_def observe_def creturn_def)
  then show ?thesis
    using process_event_cursor [OF p] assms(2-5) Some by (cases r1) (simp_all add: observe_def cursor_set_def)
qed

text \<open>The rows of a batch follow the cursor in order, with safe numbers, and an event has the number of its row.\<close>

definition rows_follow :: "nat \<Rightarrow> (nat \<times> OrcEvent option) list \<Rightarrow> bool" where
  "rows_follow n rows \<longleftrightarrow> sorted_wrt (<) (n # map fst rows) \<and>
     (\<forall>row \<in> set rows. int (fst row) \<le> MAX_SAFE_INTEGER \<and> (\<forall>ev. snd row = Some ev \<longrightarrow> ev_seq ev = fst row))"

lemma rows_follow_Cons: "rows_follow n (row # rows) \<Longrightarrow> n < fst row \<and> int (fst row) \<le> MAX_SAFE_INTEGER \<and>
    (\<forall>ev. snd row = Some ev \<longrightarrow> ev_seq ev = fst row) \<and> rows_follow (fst row) rows"
  by (auto simp: rows_follow_def)

text \<open>The outcome of consuming rows: a prefix of them succeeded, and the first row after it, if any, failed.\<close>

definition consumed :: "env \<Rightarrow> host \<Rightarrow> CoordinatorConfig \<Rightarrow> (nat \<times> OrcEvent option) list \<Rightarrow> nat \<Rightarrow> coordinator \<Rightarrow> unit result \<Rightarrow> coordinator \<Rightarrow> bool" where
  "consumed e h cfg rows k c r c' \<longleftrightarrow> k \<le> length rows \<and> cursor c' = last (cursor c # map fst (take k rows)) \<and>
     (\<exists>ck. each (process_row e h cfg) (take k rows) c = (Inr (), ck) \<and>
        (if k = length rows then r = Inr () \<and> c' = ck
         else \<exists>err. r = Inl err \<and> process_row e h cfg (rows ! k) ck = (Inl err, c')))"

lemma consumed_rows:
  assumes "each (process_row e h cfg) rows c = (r, c')" "cursor_set c" "rows_follow (cursor c) rows"
  shows "cursor_set c' \<and> (\<exists>k. consumed e h cfg rows k c r c')"
  using assms
proof (induction rows arbitrary: c)
  case Nil
  then show ?case by (auto simp: consumed_def creturn_def)
next
  case (Cons row rows)
  note f = rows_follow_Cons [OF Cons.prems(3)]
  obtain r1 c1 where p: "process_row e h cfg row c = (r1, c1)" by fastforce
  have c1: "cursor_set c1" "cursor c1 = (case r1 of Inr _ \<Rightarrow> fst row | Inl _ \<Rightarrow> cursor c)"
    using process_row_cursor [OF p Cons.prems(2)] f by blast+
  show ?case
  proof (cases r1)
    case (Inl err)
    then have "consumed e h cfg (row # rows) 0 c r c'" "cursor_set c'"
      using Cons.prems(1) p c1 by (auto simp: consumed_def cbind_def creturn_def)
    then show ?thesis by blast
  next
    case (Inr u)
    then have rest: "each (process_row e h cfg) rows c1 = (r, c')" using Cons.prems(1) p by (simp add: cbind_def)
    obtain k where k: "cursor_set c'" "consumed e h cfg rows k c1 r c'"
      using Cons.IH [OF rest c1(1)] c1(2) f Inr by auto
    then have "consumed e h cfg (row # rows) (Suc k) c r c'"
      using p Inr c1(2) by (auto simp: consumed_def cbind_def split: if_splits)
    with k(1) show ?thesis by blast
  qed
qed

lemma consumed_behind_cursor:
  assumes "consumed e h cfg rows k c r c'" "rows_follow (cursor c) rows" "row \<in> set (take k rows)"
  shows "0 < fst row \<and> fst row \<le> cursor c'"
proof -
  have s: "sorted_wrt (<) (cursor c # map fst (take k rows))"
    using assms(2) sorted_wrt_take [of "(<)" "cursor c # map fst rows" "Suc k"] by (simp add: rows_follow_def take_map)
  have "x \<le> last (n # ns)" if "sorted_wrt (<) (n # ns)" "x \<in> set ns" for x n and ns :: "nat list"
    using that by (induction ns rule: rev_induct) (auto simp: sorted_wrt_append dest: less_imp_le)
  from this [OF s] s show ?thesis using assms(1,3) by (auto simp: consumed_def)
qed

lemma batch_follows:
  assumes "log_sound db" "int (db_event_seq db) \<le> MAX_SAFE_INTEGER" "int n \<le> MAX_SAFE_INTEGER"
  shows "\<exists>rows. readEventBatch e (int n) EVENT_BATCH_SIZE db = Inr rows \<and> rows_follow n rows"
proof -
  define rows where "rows = take (nat EVENT_BATCH_SIZE) (filter (\<lambda>r. int (er_seq r) > int n) (db_events db))"
  define row where "row = (\<lambda>r. (er_seq r, case parseEventRow e True r of None \<Rightarrow> None | Some ev \<Rightarrow> if ev_seq ev \<noteq> er_seq r then None else Some ev))"
  have fst: "map fst (map row rows) = map er_seq rows" by (simp add: row_def comp_def)
  have "sorted_wrt (<) (map er_seq (filter (\<lambda>r. int (er_seq r) > int n) (db_events db)))"
    using assms(1) by (auto simp: log_sound_def sorted_wrt_map intro: sorted_wrt_filter)
  then have sorted: "sorted_wrt (<) (map er_seq rows)" by (simp add: rows_def sorted_wrt_take flip: take_map)
  have range: "n < er_seq r \<and> er_seq r \<le> db_event_seq db" if "r \<in> set rows" for r
    using in_set_takeD [OF that [unfolded rows_def]] assms(1) by (auto simp: log_sound_def)
  have "ev_seq ev = er_seq r" if "snd (row r) = Some ev" for r ev
    using that by (simp add: row_def split: option.splits if_splits)
  moreover have "int (er_seq r) \<le> MAX_SAFE_INTEGER" if "r \<in> set rows" for r
    using range [OF that] assms(2) by linarith
  ultimately have "rows_follow n (map row rows)"
    unfolding rows_follow_def fst using sorted range by (auto simp: row_def)
  moreover have "readEventBatch e (int n) EVENT_BATCH_SIZE db = Inr (map row rows)"
    using assms(3) by (simp add: readEventBatch_def safe_nonneg_def rows_def row_def [symmetric]) (simp add: EVENT_BATCH_SIZE_def)
  ultimately show ?thesis by blast
qed

lemma reload_keeps_cursor: "db_offsets (cn_db (snd (reloadTickState e c))) = db_offsets (cn_db c)"
  using oa.tick_reload [of "db_offsets (cn_db c)" "wasEventOffsetReset COORDINATOR_EVENT_CONSUMER (cn_db c)" e]
  by (auto simp: holds_def tick_sound_def state_ok_def offsets_at_def)

text \<open>
  A pass, seen from the cursor: it consumed the first \<open>k\<close> rows of the batch after the cursor, and what
  follows, reading the state again, leaves the cursor alone.
\<close>

lemma hydrate_sv: "\<exists>c1. hydrate_activity e claims c = (Inr (), c1) \<and> cn_sv c1 = cn_sv c"
  by (simp add: hydrate_activity_def cbind_def observe_def)

lemma consume_batch_rows:
  assumes "cursor_set c" "readEventBatch e (int (cursor c)) EVENT_BATCH_SIZE (cn_db c) = Inr rows"
  shows "\<exists>c1. cn_sv c1 = cn_sv c \<and> consume_batch e h cfg claims c = each (process_row e h cfg) rows c1"
proof -
  obtain c1 where "hydrate_activity e claims (legacy_loaded c) = (Inr (), c1)" "cn_sv c1 = cn_sv c"
    using hydrate_sv [of e claims "legacy_loaded c"] by auto
  then show ?thesis using assms
    by (auto simp: consume_batch_def cbind_def getEventCursor_set)
qed

lemma checkpoint_returns:
  "\<exists>x. fst (processEventCheckpoint e h cfg agents claims c) = Inr x"
  "db_offsets (cn_db (snd (processEventCheckpoint e h cfg agents claims c))) = db_offsets (cn_db (snd (consume_batch e h cfg claims c)))"
proof -
  obtain r1 c1 where b: "consume_batch e h cfg claims c = (r1, c1)" by fastforce
  obtain r2 c2 where l: "reloadTickState e c1 = (r2, c2)" by fastforce
  have keep: "db_offsets (cn_db c2) = db_offsets (cn_db c1)" using reload_keeps_cursor [of e c1] l by simp
  show "\<exists>x. fst (processEventCheckpoint e h cfg agents claims c) = Inr x"
    "db_offsets (cn_db (snd (processEventCheckpoint e h cfg agents claims c))) = db_offsets (cn_db (snd (consume_batch e h cfg claims c)))"
    using b l keep
    by (cases r1; cases r2; auto simp: processEventCheckpoint_def ctry_def cbind_def creturn_def split: prod.splits)+
qed


text \<open>A coordinator with two events after its cursor.\<close>

definition event_state :: orc_state where
  "event_state = working_st\<lparr>st_db := log_db\<lparr>db_offsets := [(COORDINATOR_EVENT_CONSUMER, 1)]\<rparr>\<rparr>"

definition coordinator0 :: coordinator where
  "coordinator0 = \<lparr>cn_sv = sup0\<lparr>sv_co := coord0\<lparr>co_st := event_state\<rparr>\<rparr>, cn_checkpoint = None, cn_legacyProcessedIds = None,
     cn_legacyLastSeq = 0, cn_activityHydrated = False, cn_activity = no_activity, cn_sessionReadyNudge = (\<lambda>_. None)\<rparr>"


end
