(* ===== verification/Agent_Names.thy ===== *)
theory Agent_Names
  imports Agent_Registry
begin

text \<open>
  The names of workers (\<^verbatim>\<open>lib/agentNames.ts\<close>, and \<^verbatim>\<open>nextAvailableWorkerName\<close> of \<^verbatim>\<open>lib/agentRegistry.ts\<close>): two words are
  drawn until the name is free, at most 1024 times, and then the whole pool is searched. A draw of
  \<^verbatim>\<open>Math.random\<close> is a multiple of \<open>2 ^ - 53\<close>, here its numerator.
\<close>

definition FIRST_WORDS :: "string list" where
  "FIRST_WORDS =
    [''ashen'', ''battered'', ''bellowing'', ''bitter'', ''black'', ''bloody'', ''broken'', ''brutal'',
     ''burly'', ''charred'', ''chipped'', ''cleaving'', ''cracked'', ''creeping'', ''cruel'', ''crushing'',
     ''dented'', ''dire'', ''dusky'', ''feral'', ''fierce'', ''filthy'', ''foul'', ''gnarled'',
     ''gnashing'', ''grim'', ''grimy'', ''grinding'', ''grisly'', ''gruff'', ''howling'', ''hulking'',
     ''hunting'', ''iron'', ''jagged'', ''looming'', ''lumbering'', ''lurking'', ''mangled'', ''mighty'',
     ''murky'', ''notched'', ''ochre'', ''pallid'', ''pitch'', ''prowling'', ''ragged'', ''raging'',
     ''raiding'', ''rampaging'', ''rank'', ''reeking'', ''roaring'', ''ruddy'', ''rust'', ''sallow'',
     ''savage'', ''scarred'', ''shattered'', ''slithering'', ''smoldering'', ''snarling'', ''sooty'', ''splintered'',
     ''stalking'', ''stomping'', ''surly'', ''tar'', ''twisted'', ''vile'', ''wicked'', ''wretched'']"

definition SECOND_WORDS :: "string list" where
  "SECOND_WORDS =
    [''arrow'', ''ash'', ''axe'', ''banner'', ''bat'', ''beetle'', ''blade'', ''boar'',
     ''bog'', ''bone'', ''brand'', ''brazier'', ''cage'', ''cairn'', ''cauldron'', ''cave'',
     ''chain'', ''claw'', ''cleaver'', ''club'', ''coal'', ''collar'', ''crag'', ''crow'',
     ''cudgel'', ''dagger'', ''dirk'', ''ember'', ''fang'', ''fen'', ''fist'', ''flail'',
     ''gauntlet'', ''gorge'', ''grave'', ''gullet'', ''hammer'', ''hatchet'', ''helm'', ''hide'',
     ''hoof'', ''hook'', ''horn'', ''hyena'', ''jaw'', ''kettle'', ''knuckle'', ''mace'',
     ''maul'', ''maw'', ''mire'', ''mold'', ''moor'', ''mud'', ''nose'', ''pike'',
     ''pit'', ''pyre'', ''rat'', ''raven'', ''ravine'', ''rope'', ''rot'', ''rubble'',
     ''scar'', ''serpent'', ''shard'', ''shield'', ''skull'', ''slug'', ''smoke'', ''snout'',
     ''spear'', ''spider'', ''spike'', ''spine'', ''stake'', ''swamp'', ''throat'', ''toad'',
     ''tomb'', ''tongue'', ''tooth'', ''torch'', ''tusk'', ''vulture'', ''wolf'', ''worm'']"

definition pickIndex :: "int \<Rightarrow> nat \<Rightarrow> nat" where
  "pickIndex r n =
     (if r \<ge> 2 ^ 53 then nat (9999999999 * int n div 10000000000)
      else if r < 0 then 0
      else nat (r * int n div 2 ^ 53))"

definition agent_name :: "string \<Rightarrow> string \<Rightarrow> string" where
  "agent_name first second = first @ ''-'' @ second"

text \<open>The \<open>i\<close>-th attempt makes the draws \<open>2 i\<close> and \<open>2 i + 1\<close>.\<close>

definition drawn_name :: "(nat \<Rightarrow> int) \<Rightarrow> nat \<Rightarrow> string" where
  "drawn_name rng i =
     agent_name (FIRST_WORDS ! pickIndex (rng (2 * i)) (length FIRST_WORDS))
       (SECOND_WORDS ! pickIndex (rng (2 * i + 1)) (length SECOND_WORDS))"

definition name_pool :: "string list" where
  "name_pool = concat (map (\<lambda>first. map (agent_name first) SECOND_WORDS) FIRST_WORDS)"

definition retryCap :: nat where
  "retryCap = min (length FIRST_WORDS * length SECOND_WORDS) 1024"

definition nextAvailableAgentName :: "string list \<Rightarrow> (nat \<Rightarrow> int) \<Rightarrow> string result" where
  "nextAvailableAgentName inUse rng =
     (case List.find (\<lambda>name. name \<notin> set inUse) (map (drawn_name rng) [0..<retryCap]) of
        Some name \<Rightarrow> Inr name
      | None \<Rightarrow>
          (case List.find (\<lambda>name. name \<notin> set inUse) name_pool of
             Some name \<Rightarrow> Inr name
           | None \<Rightarrow> Inl (PlainError ''exhausted agent name pool'')))"

definition worker_names :: "Agent list \<Rightarrow> string list" where
  "worker_names agents = map a_agent_id (filter (\<lambda>a. a_role a = Some ''worker'') agents)"

definition nextAvailableWorkerName :: "env \<Rightarrow> (nat \<Rightarrow> int) \<Rightarrow> orc_state \<Rightarrow> string outcome" where
  "nextAvailableWorkerName e rng st =
     (nextAvailableAgentName (worker_names (listAgents e st)) rng, snd (readAgentsFile e st))"

section \<open>Names are free, and there are enough of them\<close>

lemma pickIndex_less: "0 < n \<Longrightarrow> pickIndex r n < n"
proof -
  assume n: "0 < n"
  have "r * int n div 2 ^ 53 < int n" if "r < 2 ^ 53"
  proof -
    have "r * int n < int n * 2 ^ 53" using n that by (simp add: mult.commute)
    then show ?thesis by (simp add: div_less_iff_less_mult)
  qed
  moreover have "9999999999 * int n div 10000000000 < int n" using n by linarith
  ultimately show ?thesis using n by (auto simp: pickIndex_def)
qed

lemma word_counts: "length FIRST_WORDS = 72" "length SECOND_WORDS = 88"
  by (simp_all add: FIRST_WORDS_def SECOND_WORDS_def)

lemma in_pool: "f \<in> set FIRST_WORDS \<Longrightarrow> s \<in> set SECOND_WORDS \<Longrightarrow> agent_name f s \<in> set name_pool"
  by (auto simp: name_pool_def)

lemma drawn_in_pool: "drawn_name rng i \<in> set name_pool"
proof -
  have "FIRST_WORDS ! pickIndex (rng (2 * i)) (length FIRST_WORDS) \<in> set FIRST_WORDS"
    "SECOND_WORDS ! pickIndex (rng (2 * i + 1)) (length SECOND_WORDS) \<in> set SECOND_WORDS"
    by (intro nth_mem pickIndex_less, simp add: word_counts)+
  then show ?thesis unfolding drawn_name_def by (rule in_pool)
qed

lemma words_distinct: "distinct FIRST_WORDS" "distinct SECOND_WORDS"
  unfolding FIRST_WORDS_def SECOND_WORDS_def by code_simp+

lemma words_plain: "list_all (\<lambda>w. CHR ''-'' \<notin> set w) FIRST_WORDS"
  unfolding FIRST_WORDS_def by code_simp

lemma agent_name_inj:
  assumes "agent_name f s = agent_name f' s'" "CHR ''-'' \<notin> set f" "CHR ''-'' \<notin> set f'"
  shows "f = f' \<and> s = s'"
proof -
  have "takeWhile (\<lambda>c. c \<noteq> CHR ''-'') (agent_name f s) = f" if "CHR ''-'' \<notin> set f" for f s
    using that unfolding agent_name_def by (subst takeWhile_append2) auto
  then have "f = f'" using assms by metis
  with assms(1) show ?thesis by (simp add: agent_name_def)
qed

lemma name_pool_size: "card (set name_pool) = 72 * 88"
proof -
  have "set name_pool = (\<lambda>(f, s). agent_name f s) ` (set FIRST_WORDS \<times> set SECOND_WORDS)"
    by (auto simp: name_pool_def)
  moreover have "inj_on (\<lambda>(f, s). agent_name f s) (set FIRST_WORDS \<times> set SECOND_WORDS)"
    using words_plain by (auto simp: inj_on_def list_all_iff dest!: agent_name_inj)
  ultimately show ?thesis
    using words_distinct by (simp add: card_image card_cartesian_product distinct_card word_counts)
qed

text \<open>
  The name of a new worker. A name that is returned is a pair of words of the two lists and is not in
  use, whatever is drawn; and a name is returned unless every name of the pool is in use, which
  takes at least 6336 workers.
\<close>

theorem agent_names_are_fresh:
  "case nextAvailableAgentName inUse rng of
     Inr name \<Rightarrow> name \<notin> set inUse \<and> (\<exists>f \<in> set FIRST_WORDS. \<exists>s \<in> set SECOND_WORDS. name = f @ ''-'' @ s)
   | Inl err \<Rightarrow> set name_pool \<subseteq> set inUse \<and> 6336 \<le> length inUse"
proof -
  have pool: "n \<in> set name_pool \<longleftrightarrow> (\<exists>f \<in> set FIRST_WORDS. \<exists>s \<in> set SECOND_WORDS. n = f @ ''-'' @ s)" for n
    by (auto simp: name_pool_def agent_name_def)
  have full: "6336 \<le> length inUse" if "set name_pool \<subseteq> set inUse"
    using card_mono [OF finite_set that] name_pool_size card_length [of inUse] by linarith
  show ?thesis
  proof (cases "List.find (\<lambda>name. name \<notin> set inUse) (map (drawn_name rng) [0..<retryCap])")
    case (Some n)
    then have "n \<notin> set inUse" "n \<in> set name_pool" using drawn_in_pool by (auto simp: find_Some_iff)
    then show ?thesis using Some pool by (simp add: nextAvailableAgentName_def)
  next
    case None
    show ?thesis
    proof (cases "List.find (\<lambda>name. name \<notin> set inUse) name_pool")
      case (Some n)
      then have "n \<notin> set inUse" "n \<in> set name_pool" by (auto simp: find_Some_iff)
      then show ?thesis using Some None pool by (simp add: nextAvailableAgentName_def)
    next
      case all: None
      then have "set name_pool \<subseteq> set inUse" by (auto simp: find_None_iff)
      then show ?thesis using all None full by (simp add: nextAvailableAgentName_def)
    qed
  qed
qed

end
