(* ===== verification/Worker_Launch.thy ===== *)
theory Worker_Launch
  imports Event_Processing Reconcile Agent_Names
begin

text \<open>
  The launch of workers: \<^verbatim>\<open>launchWorkerSession\<close> and \<^verbatim>\<open>spawnEphemeralWorker\<close> of \<^verbatim>\<open>lib/workerRuntime.ts\<close>, and of
  \<^verbatim>\<open>coordinator.ts\<close> \<^verbatim>\<open>ensureSessionReady\<close>, \<^verbatim>\<open>sendTaskEnvelope\<close>, the passes over sessions that are not ready and
  launches to be retried, and \<^verbatim>\<open>executeDispatchPlan\<close>. An adapter's start is a parameter; a session that was
  started is recorded in the calls. The environment and the prompt of a worker are input of the
  adapter, of which the model keeps the session's identity and secret.
\<close>

record LaunchConfig =
  lc_supervision :: SupervisionConfig
  lc_provider :: string
  lc_execution_mode :: "string option"
  lc_runtime :: "string option"
  lc_project :: bool
  lc_lease_ms :: int
  lc_session_ready_timeout_ms :: int
  lc_session_ready_nudge_ms :: int
  lc_session_ready_nudge_interval_ms :: int
  lc_session_start_max_attempts :: int
  lc_session_start_retry_delay_ms :: int

abbreviation lc_coordinator :: "LaunchConfig \<Rightarrow> CoordinatorConfig" where
  "lc_coordinator cfg \<equiv> sc_coordinator (lc_supervision cfg)"

abbreviation lc_max_workers :: "LaunchConfig \<Rightarrow> nat" where
  "lc_max_workers cfg \<equiv> cfg_max_workers (lc_coordinator cfg)"

record launch_request =
  lr_workingDirectory :: "string option"
  lr_runId :: "string option"
  lr_taskRef :: "string option"
  lr_taskModel :: "string option"
  lr_retryable :: bool

text \<open>An error, a transaction, and a step on the registry of worktrees.\<close>

definition cthrow :: "orc_error \<Rightarrow> ('s, 'a) step" where
  "cthrow err s = (Inl err, s)"

definition session_txn :: "(orc_state \<Rightarrow> ('a \<times> runtime_db) result) \<Rightarrow> 'a coord" where
  "session_txn f = on_st (\<lambda>st. case f st of Inl err \<Rightarrow> (Inl err, st) | Inr (x, db) \<Rightarrow> (Inr x, st\<lparr>st_db := db\<rparr>))"

definition set_session :: "env \<Rightarrow> string \<Rightarrow> SessionState \<Rightarrow> string \<Rightarrow> ReconcileOutcome \<Rightarrow> bool coord" where
  "set_session e sessionId state reason outcome =
     session_txn (\<lambda>st. setSessionState e sessionId state (Some reason)
       \<lparr>so_ownerId = None, so_ownerTtlMs = None, so_outcome = Some outcome\<rparr> (st_db st))"

section \<open>Launching a session (workerRuntime.ts)\<close>

definition is_scout :: "Agent \<Rightarrow> bool" where
  "is_scout a \<longleftrightarrow> a_role a = Some ''scout''"

definition start_options :: "LaunchConfig \<Rightarrow> launch_request \<Rightarrow> Agent \<Rightarrow> string \<Rightarrow> string option \<Rightarrow> launch_options" where
  "start_options cfg req a sessionId secret =
     \<lparr>lo_prompt_session = sessionId, lo_model = coalesce (lr_taskModel req) (a_model a),
      lo_working_directory = lr_workingDirectory req, lo_read_only = is_scout a,
      lo_require_git_checkout = (a_role a = Some ''worker''),
      lo_sandboxed = (is_scout a \<or> lc_execution_mode cfg = Some ''sandbox''),
      lo_runtime = (if is_scout a then None else lc_runtime cfg), lo_secret = secret\<rparr>"

definition launch_updates :: "env \<Rightarrow> string \<Rightarrow> started_session \<Rightarrow> agent_updates" where
  "launch_updates e sessionId sd =
     \<lparr>au_status = Some AS_running, au_session_handle = Some (Some (sd_handle sd)), au_session_token = Some (Some sessionId),
      au_session_started_at = Some (Some (now_ts e)),
      au_session_ready_at = Some (if sd_protocol_ready sd then Some (now_ts e) else None),
      au_provider_ref = Some (sd_provider_ref sd), au_last_heartbeat_at = Some (Some (now_ts e)),
      au_last_status_change_at = Some (Some (now_ts e))\<rparr>"

definition cleared_updates :: "env \<Rightarrow> AgentStatus \<Rightarrow> agent_updates" where
  "cleared_updates e status =
     no_updates\<lparr>au_status := Some status, au_session_handle := Some None, au_session_token := Some None,
       au_session_started_at := Some None, au_session_ready_at := Some None, au_provider_ref := Some None,
       au_last_status_change_at := Some (Some (now_ts e))\<rparr>"

definition launched_session :: "env \<Rightarrow> host \<Rightarrow> launch_request \<Rightarrow> Agent \<Rightarrow> string \<Rightarrow> string option \<Rightarrow> started_session \<Rightarrow> provider_session" where
  "launched_session e h req a sessionId secret sd =
     \<lparr>ps_sessionId = sessionId, ps_runId = lr_runId req, ps_agentId = a_agent_id a, ps_provider = a_provider a,
      ps_providerRef = sd_provider_ref sd, ps_startedAt = now_ts e, ps_transport = sd_transport sd, ps_processPid = sd_pid sd,
      ps_processStart = sd_process_start sd, ps_ownerId = Some (h_ownerId h),
      ps_ownerExpiresAt = Some (ts_plus (now_ts e) SESSION_OWNER_TTL_MS), ps_credentialHash = map_option (credentialHash e) secret\<rparr>"

definition online_event :: "env \<Rightarrow> launch_request \<Rightarrow> Agent \<Rightarrow> started_session \<Rightarrow> OrcEvent" where
  "online_event e req a sd =
     mk_event (now_ts e) ''agent_online'' ''coordinator'' ''coordinator'' (lr_runId req) (lr_taskRef req) (Some (a_agent_id a))
       (Some ([(''session_handle'', JStr (sd_handle sd)), (''provider_ref'', jstr_opt (sd_provider_ref sd))] @
         opt_field ''working_directory'' (lr_workingDirectory req)))"

definition emitSessionStartFailed :: "env \<Rightarrow> Agent \<Rightarrow> launch_request \<Rightarrow> string \<Rightarrow> unit coord" where
  "emitSessionStartFailed e a req reason =
     (if falsy (lr_runId req) \<or> falsy (lr_taskRef req) then creturn ()
      else on_st (appendEventTo e (mk_event (now_ts e) ''session_start_failed'' ''coordinator'' ''coordinator''
             (lr_runId req) (lr_taskRef req) (Some (a_agent_id a))
             (Some ([(''reason'', JStr reason), (''code'', JStr ''ERR_SESSION_START_FAILED'')] @
               opt_field ''working_directory'' (lr_workingDirectory req))))))"

text \<open>
  What a launch answers: whether it succeeded, the reason if it did not, and the agent as the caller sees
  it afterwards, since the launch writes into the caller's object.
\<close>

type_synonym launched = "bool \<times> string option \<times> Agent"

definition launch_failed :: "env \<Rightarrow> launch_request \<Rightarrow> Agent \<Rightarrow> orc_error \<Rightarrow> launched coord" where
  "launch_failed e req a err =
     (let reason = error_message err in
      if lr_retryable req
      then cbind (on_st (clearWorkerSessionRuntime e (a_agent_id a) AS_idle)) (\<lambda>_.
             creturn (False, Some reason, assign_updates (cleared_updates e AS_idle) a))
      else cbind (emitSessionStartFailed e a req reason) (\<lambda>_.
           cbind (on_st (markWorkerOffline e (a_agent_id a) ''session_start_failed''
             ([(''message'', JStr reason)] @ opt_field ''working_directory'' (lr_workingDirectory req)))) (\<lambda>_.
             creturn (False, Some reason, assign_updates (cleared_updates e AS_offline) a))))"

definition start_session ::
  "env \<Rightarrow> host \<Rightarrow> LaunchConfig \<Rightarrow> launch_request \<Rightarrow> Agent \<Rightarrow> string \<Rightarrow> string option \<Rightarrow> started_session coord" where
  "start_session e h cfg req a sessionId secret =
     cbind (call_host (h_start h (a_provider a) (a_agent_id a) (start_options cfg req a sessionId secret))
              (\<lambda>sd. Started (a_agent_id a) (sd_handle sd))) (\<lambda>sd.
     cbind (session_txn (\<lambda>st. recordProviderSession e (st_claims_json st) (st_agents_json st)
              (launched_session e h req a sessionId secret sd) (st_db st))) (\<lambda>_.
     cbind (on_st (updateAgentRuntime e (a_agent_id a) (launch_updates e sessionId sd))) (\<lambda>_. creturn sd)))"

definition launchWorkerSession :: "env \<Rightarrow> host \<Rightarrow> LaunchConfig \<Rightarrow> launch_request \<Rightarrow> Agent \<Rightarrow> launched coord" where
  "launchWorkerSession e h cfg req a c =
     (let sessionId = h_random h (st_db (co_st c)); secret = (if lc_project cfg then Some (h_secret h (st_db (co_st c))) else None) in
      ctry (start_session e h cfg req a sessionId secret)
        (launch_failed e req a)
        (\<lambda>sd. (let a' = assign_updates (launch_updates e sessionId sd) a in
          ctry (on_st (appendEventTo e (online_event e req a sd)))
            (launch_failed e req a')
            (\<lambda>_. creturn (True, None, a')))) c)"

definition worker_definition :: "string \<Rightarrow> string \<Rightarrow> AgentDefinition" where
  "worker_definition agentId provider =
     \<lparr>ad_agent_id = agentId, ad_provider = provider, ad_role = Some ''worker'', ad_dispatch_mode = None, ad_capabilities = None,
      ad_provider_ref = None, ad_ephemeral = True\<rparr>"

definition spawnEphemeralWorker ::
  "env \<Rightarrow> host \<Rightarrow> LaunchConfig \<Rightarrow> launch_request \<Rightarrow> string \<Rightarrow> string \<Rightarrow> (string option + Agent) coord" where
  "spawnEphemeralWorker e h cfg req agentId provider =
     ctry (on_st (registerAgent e (worker_definition agentId provider)))
       (\<lambda>err. creturn (Inl (Some (''agent registration failed: '' @ error_message err))))
       (\<lambda>agent. cbind (launchWorkerSession e h cfg req agent) (\<lambda>(ok, reason, agent').
          if \<not> ok then cbind (cquiet (on_st (removeAgent e agentId))) (\<lambda>_. creturn (Inl reason))
          else creturn (Inr agent')))"

section \<open>Sessions of workers (coordinator.ts)\<close>

definition UNWRITABLE_REASON :: string where
  "UNWRITABLE_REASON = ''session is alive but not writable by this coordinator; stop it with orc worker-remove to relaunch''"

definition unreachable_updates :: "env \<Rightarrow> agent_updates" where
  "unreachable_updates e =
     no_updates\<lparr>au_status := Some AS_idle, au_session_handle := Some None, au_provider_ref := Some None,
       au_last_status_change_at := Some (Some (now_ts e))\<rparr>"

definition session_gone :: "env \<Rightarrow> Agent \<Rightarrow> launched coord" where
  "session_gone e a =
     cbind (if truthy (a_session_token a)
            then cbind (set_session e (the (a_session_token a)) SS_offline ''session process exited'' RO_exited) (\<lambda>_. creturn ())
            else creturn ()) (\<lambda>_.
     cbind (on_st (updateAgentRuntime e (a_agent_id a) (unreachable_updates e))) (\<lambda>_.
       creturn (False, Some ''session unreachable'',
         a\<lparr>a_status := AS_idle, a_session_handle := None, a_provider_ref := None\<rparr>)))"

definition session_owned :: "env \<Rightarrow> host \<Rightarrow> Agent \<Rightarrow> launched coord" where
  "session_owned e h a =
     (if \<not> h_owns h (a_provider a) (the (a_session_handle a))
      then cbind (if truthy (a_session_token a)
                  then cbind (set_session e (the (a_session_token a)) SS_recoverable UNWRITABLE_REASON RO_recoverable) (\<lambda>_. creturn ())
                  else creturn ()) (\<lambda>_.
             creturn (False, Some ''session recoverable: not writable by this coordinator'', a))
      else creturn (True, None, a))"

text \<open>A live session that is not this coordinator's, or not the recorded one, is left alone.\<close>

definition session_alive :: "env \<Rightarrow> host \<Rightarrow> Agent \<Rightarrow> launched coord" where
  "session_alive e h a =
     cbind (on_st (\<lambda>st. (Inr (currentSessionForAgent (a_agent_id a) (st_db st)), st))) (\<lambda>session.
       case session of
         None \<Rightarrow> session_owned e h a
       | Some s \<Rightarrow>
           if ss_state s = SS_recoverable \<or> ss_state s = SS_unknown
           then creturn (False, Some (''session '' @ session_state_str (ss_state s) @ '': '' @ or_default (ss_state_reason s) ''not writable''), a)
           else if identityMismatch (h_os h) s (h_inspect h (a_provider a) (the (a_session_handle a)))
           then cbind (set_session e (ss_session_id s) SS_unknown IDENTITY_MISMATCH_REASON RO_unknown) (\<lambda>_.
                  creturn (False, Some (''session unknown: '' @ IDENTITY_MISMATCH_REASON), a))
           else session_owned e h a)"

definition ensureSessionReady :: "env \<Rightarrow> host \<Rightarrow> LaunchConfig \<Rightarrow> launch_request option \<Rightarrow> Agent \<Rightarrow> launched coord" where
  "ensureSessionReady e h cfg req a =
     cbind (\<lambda>c. (getAdapter (a_provider a), c)) (\<lambda>_.
       if truthy (a_session_handle a)
       then cbind (\<lambda>c. (h_alive h (a_provider a) (the (a_session_handle a)), c)) (\<lambda>alive.
              if alive then session_alive e h a else session_gone e a)
       else case req of
         None \<Rightarrow> creturn (False, Some ''no launch config provided'', a)
       | Some r \<Rightarrow> launchWorkerSession e h cfg r a)"

definition isAgentSessionReady :: "Agent \<Rightarrow> bool" where
  "isAgentSessionReady a \<longleftrightarrow>
     truthy (a_session_handle a) \<and> truthy (a_session_token a) \<and> ts_truthy (a_session_started_at a) \<and> ts_truthy (a_session_ready_at a) \<and>
     (case (getTime (the (a_session_ready_at a)), getTime (the (a_session_started_at a))) of
        (Some ready, Some started) \<Rightarrow> ready \<ge> started | _ \<Rightarrow> False)"

section \<open>The task envelope\<close>

text \<open>
  The pinned specification of a run is checked before the worker is told about it: the file in
  \<^verbatim>\<open>run-specs\<close> must have the recorded hash. The text is rendered from a template.
\<close>

definition verifyRunTaskSnapshot :: "env \<Rightarrow> TaskSpecSnapshot \<Rightarrow> orc_state \<Rightarrow> unit result" where
  "verifyRunTaskSnapshot e snap st =
     (case List.find (\<lambda>(runId, _). ''run-specs/'' @ runId @ ''.md'' = snap_path snap) (st_run_specs st) of
        None \<Rightarrow> Inl (PlainError (''ENOENT: no such file or directory, open '' @ snap_path snap))
      | Some (_, body) \<Rightarrow>
          if sha256 e body \<noteq> snap_sha256 snap then Inl (PlainError (''Run task snapshot hash mismatch: '' @ snap_path snap))
          else Inr ())"

definition buildTaskEnvelope :: "env \<Rightarrow> string \<Rightarrow> coord_message coord" where
  "buildTaskEnvelope e runId =
     cbind (on_st readJsonClaims) (\<lambda>claims.
       case (case find_claim runId claims of None \<Rightarrow> None | Some c \<Rightarrow> c_task_spec_snapshot c) of
         None \<Rightarrow> creturn (TaskEnvelope runId)
       | Some snap \<Rightarrow> cbind (on_st (\<lambda>st. (verifyRunTaskSnapshot e snap st, st))) (\<lambda>_. creturn (TaskEnvelope runId)))"

definition deliver_envelope :: "env \<Rightarrow> host \<Rightarrow> Agent \<Rightarrow> string \<Rightarrow> coord_message \<Rightarrow> unit coord" where
  "deliver_envelope e h a runId msg =
     (let handle = or_default (a_session_handle a) [] in
      if h_structured h (a_provider a) handle
      then cbind (assertSessionWritable e h (a_provider a) handle) (\<lambda>_.
           cbind (deliverStructured e h handle (h_text h msg) ''task_envelope'' (''task-envelope:'' @ runId)) (\<lambda>_.
             record_sent (a_provider a) handle msg))
      else adapter_send e h (a_provider a) handle msg)"

definition envelope_failed :: "env \<Rightarrow> host \<Rightarrow> LaunchConfig \<Rightarrow> Agent \<Rightarrow> string \<Rightarrow> orc_error \<Rightarrow> unit coord" where
  "envelope_failed e h cfg a runId err =
     cbind (on_st (finishRun e runId (a_agent_id a)
       (worker_finish e False (Some (''dispatch_error: '' @ error_message err)) (Some ''ERR_DISPATCH_FAILURE'') ''requeue''))) (\<lambda>_.
     cbind (\<lambda>c. (h_alive h (a_provider a) (or_default (a_session_handle a) []), c)) (\<lambda>alive.
     cbind (on_st (cleanupRunCapacity e (lc_max_workers cfg) (a_agent_id a)
       (if alive then None else Some ''dispatch_failed_session_unreachable''))) (\<lambda>_. cthrow err)))"

definition sendTaskEnvelope :: "env \<Rightarrow> host \<Rightarrow> LaunchConfig \<Rightarrow> Agent \<Rightarrow> string \<Rightarrow> unit coord" where
  "sendTaskEnvelope e h cfg a runId =
     cbind (\<lambda>c. (getAdapter (a_provider a), c)) (\<lambda>_.
     cbind (buildTaskEnvelope e runId) (\<lambda>msg.
       ctry (cbind (deliver_envelope e h a runId msg) (\<lambda>_.
               on_st (markTaskEnvelopeSent e runId (a_agent_id a) True (now_ts e) ''coordinator'' ''coordinator'')))
         (envelope_failed e h cfg a runId)
         (\<lambda>_. creturn ())))"

section \<open>Sessions that are not ready, launches to be retried\<close>

text \<open>A loop over claims that hands on the agents, which a launch changes.\<close>

fun thread :: "('x \<Rightarrow> 'acc \<Rightarrow> ('s, 'acc) step) \<Rightarrow> 'x list \<Rightarrow> 'acc \<Rightarrow> ('s, 'acc) step" where
  "thread f [] acc = creturn acc"
| "thread f (x # xs) acc = cbind (f x acc) (thread f xs)"

definition put_agent :: "Agent \<Rightarrow> Agent list \<Rightarrow> Agent list" where
  "put_agent a agents = map (\<lambda>x. if a_agent_id x = a_agent_id a then a else x) agents"

definition run_worktree :: "string \<Rightarrow> string option coord" where
  "run_worktree runId c = (Inr (map_option rw_worktree_path (getRunWorktree runId (co_worktrees c))), c)"

definition find_task_of :: "string \<Rightarrow> Task option coord" where
  "find_task_of ref = on_st (\<lambda>st. check_then (readBacklog st) (\<lambda>b st0. (Inr (findTask b ref), st0)) st)"

definition relaunch :: "env \<Rightarrow> host \<Rightarrow> LaunchConfig \<Rightarrow> bool \<Rightarrow> Claim \<Rightarrow> Agent \<Rightarrow> launched coord" where
  "relaunch e h cfg retryable claim a =
     cbind (find_task_of (c_task_ref claim)) (\<lambda>task.
     cbind (run_worktree (c_run_id claim)) (\<lambda>dir.
       ensureSessionReady e h cfg (Some \<lparr>lr_workingDirectory = dir, lr_runId = Some (c_run_id claim),
         lr_taskRef = Some (c_task_ref claim), lr_taskModel = (case task of None \<Rightarrow> None | Some t \<Rightarrow> t_model t),
         lr_retryable = retryable\<rparr>) a))"

definition fail_start :: "env \<Rightarrow> Claim \<Rightarrow> string \<Rightarrow> unit coord" where
  "fail_start e claim reason =
     on_st (finishRun e (c_run_id claim) (c_agent_id claim)
       (worker_finish e False (Some (''session_start_failed: '' @ reason)) (Some ''ERR_SESSION_START_FAILED'') ''requeue''))"

definition schedule_retry :: "env \<Rightarrow> LaunchConfig \<Rightarrow> Claim \<Rightarrow> int \<Rightarrow> string \<Rightarrow> unit coord" where
  "schedule_retry e cfg claim n reason =
     cbind (on_st (setRunSessionStartRetryState e (c_run_id claim) (c_agent_id claim) n
       (Some (ts_plus (now_ts e) (lc_session_start_retry_delay_ms cfg))) (Some reason))) (\<lambda>_. creturn ())"

definition retry_waits :: "env \<Rightarrow> Claim \<Rightarrow> bool" where
  "retry_waits e claim \<longleftrightarrow>
     c_session_start_retry_count claim \<noteq> 0 \<and> ts_truthy (c_session_start_retry_next_at claim) \<and>
     (case getTime (the (c_session_start_retry_next_at claim)) of None \<Rightarrow> False | Some t \<Rightarrow> clock e < t)"

text \<open>The first part of a readiness check: an agent with a session, launched again where it has none.\<close>

definition readied_agent :: "env \<Rightarrow> host \<Rightarrow> LaunchConfig \<Rightarrow> Claim \<Rightarrow> Agent \<Rightarrow> (Agent \<times> bool) coord" where
  "readied_agent e h cfg claim a =
     (if truthy (a_session_handle a) then creturn (a, True)
      else (let managed = isManagedSlot (a_agent_id a) (lc_max_workers cfg) in
        cbind (relaunch e h cfg managed claim a) (\<lambda>(ok, reason, a').
          if \<not> ok \<or> falsy (a_session_handle a')
          then (let why = or_default reason ''worker session could not be relaunched while awaiting reported_for_duty'' in
                cbind (if managed
                       then schedule_retry e cfg claim (max (c_session_start_retry_count claim) 1) why
                       else fail_start e claim why) (\<lambda>_. creturn (a', False)))
          else creturn (a', True))))"

definition forget_ready :: "string \<Rightarrow> unit tick" where
  "forget_ready run c = (Inr (), c\<lparr>cn_sessionReadyNudge := (cn_sessionReadyNudge c)(run := None)\<rparr>)"

definition ready_nudge :: "env \<Rightarrow> host \<Rightarrow> Claim \<Rightarrow> Agent \<Rightarrow> (coordinator, string) step" where
  "ready_nudge e h claim a =
     cbind (in_co (send_to e h a (ReportForDutyNudge (a_agent_id a)))) (\<lambda>_ c.
       (Inr [], c\<lparr>cn_sessionReadyNudge := (cn_sessionReadyNudge c)(c_run_id claim \<mapsto> clock e)\<rparr>))"

definition await_ready ::
  "env \<Rightarrow> host \<Rightarrow> LaunchConfig \<Rightarrow> Claim \<Rightarrow> Agent \<Rightarrow> (coordinator, string) step list tick" where
  "await_ready e h cfg claim a =
     (case getTime (or_default (a_session_started_at a) (c_claimed_at claim)) of
        None \<Rightarrow> creturn []
      | Some t \<Rightarrow>
          (let age = clock e - t in
           if age \<ge> lc_session_ready_timeout_ms cfg
           then cbind (on_sv (fail_run e (lc_coordinator cfg) claim
                  ''reported_for_duty timeout: worker did not acknowledge session readiness in time'' ''ERR_SESSION_READY_TIMEOUT'' ''requeue'')) (\<lambda>_.
                cbind (forget_ready (c_run_id claim)) (\<lambda>_. creturn []))
           else if age < lc_session_ready_nudge_ms cfg \<or> falsy (a_session_token a) then creturn []
           else (\<lambda>c. if clock e - or_default (cn_sessionReadyNudge c (c_run_id claim)) 0 < lc_session_ready_nudge_interval_ms cfg
                     then (Inr [], c) else (Inr [ready_nudge e h claim a], c))))"

definition ready_step ::
  "env \<Rightarrow> host \<Rightarrow> LaunchConfig \<Rightarrow> Claim \<Rightarrow> Agent list \<times> (coordinator, string) step list \<Rightarrow>
   (Agent list \<times> (coordinator, string) step list) tick" where
  "ready_step e h cfg claim acc =
     (let (agents, nudges) = acc in
      if c_state claim \<noteq> CS_claimed \<or> ts_truthy (c_task_envelope_sent_at claim)
      then cbind (forget_ready (c_run_id claim)) (\<lambda>_. creturn acc)
      else if retry_waits e claim then creturn acc
      else case agent_by_id agents (c_agent_id claim) of
        None \<Rightarrow> creturn acc
      | Some a \<Rightarrow>
          if a_status a = AS_offline then creturn acc
          else cbind (in_co (readied_agent e h cfg claim a)) (\<lambda>(a', ok).
            if \<not> ok then creturn (put_agent a' agents, nudges)
            else if isAgentSessionReady a'
            then cbind (ctry (in_co (sendTaskEnvelope e h cfg a' (c_run_id claim))) (\<lambda>_. creturn ()) creturn) (\<lambda>_.
                 cbind (forget_ready (c_run_id claim)) (\<lambda>_. creturn (put_agent a' agents, nudges)))
            else cbind (await_ready e h cfg claim a') (\<lambda>more. creturn (put_agent a' agents, nudges @ more))))"

definition processClaimedSessionReadiness :: "env \<Rightarrow> host \<Rightarrow> LaunchConfig \<Rightarrow> Agent list \<Rightarrow> Claim list \<Rightarrow> unit tick" where
  "processClaimedSessionReadiness e h cfg agents claims =
     cbind (thread (ready_step e h cfg) claims (agents, [])) (\<lambda>(_, nudges).
     cbind (executeNudgeBatch nudges) (\<lambda>_. creturn ()))"

definition retry_due :: "env \<Rightarrow> LaunchConfig \<Rightarrow> Claim \<Rightarrow> bool" where
  "retry_due e cfg claim \<longleftrightarrow>
     c_state claim = CS_claimed \<and> c_session_start_retry_count claim > 0 \<and>
     c_session_start_retry_next_at claim \<noteq> None \<and> isManagedSlot (c_agent_id claim) (lc_max_workers cfg) \<and>
     \<not> (case getTime (the (c_session_start_retry_next_at claim)) of None \<Rightarrow> False | Some t \<Rightarrow> clock e < t)"

definition retries_exhausted :: "env \<Rightarrow> LaunchConfig \<Rightarrow> Claim \<Rightarrow> string \<Rightarrow> Agent \<Rightarrow> unit coord" where
  "retries_exhausted e cfg claim reason a =
     cbind (run_worktree (c_run_id claim)) (\<lambda>dir.
     cbind (on_st (appendEventTo e (coordinator_event e ''session_start_failed'' claim
       ([(''reason'', JStr reason), (''code'', JStr ''ERR_SESSION_START_FAILED'')] @ opt_field ''working_directory'' dir)))) (\<lambda>_.
     cbind (fail_start e claim reason) (\<lambda>_.
       if a_status a \<noteq> AS_offline then on_st (cleanupRunCapacity e (lc_max_workers cfg) (c_agent_id claim) None) else creturn ())))"

definition retry_step :: "env \<Rightarrow> host \<Rightarrow> LaunchConfig \<Rightarrow> Claim \<Rightarrow> Agent list \<Rightarrow> Agent list coord" where
  "retry_step e h cfg claim agents =
     (case agent_by_id agents (c_agent_id claim) of
        None \<Rightarrow> creturn agents
      | Some a \<Rightarrow>
          if \<not> retry_due e cfg claim then creturn agents
          else cbind (relaunch e h cfg True claim a) (\<lambda>(ok, reason, a').
            (let failed = c_session_start_retry_count claim + 1;
                 why = or_default reason ''worker session could not be launched in assigned worktree'' in
             cbind (if ok \<and> truthy (a_session_handle a') \<and> a_status a' \<noteq> AS_offline
                    then cbind (on_st (setRunSessionStartRetryState e (c_run_id claim) (c_agent_id claim) 0 None None)) (\<lambda>_. creturn ())
                    else if failed \<ge> lc_session_start_max_attempts cfg then retries_exhausted e cfg claim why a'
                    else schedule_retry e cfg claim failed (or_default (coalesce reason (c_session_start_last_error claim))
                           ''worker session could not be launched in assigned worktree'')) (\<lambda>_. creturn (put_agent a' agents)))))"

definition processManagedSessionStartRetries :: "env \<Rightarrow> host \<Rightarrow> LaunchConfig \<Rightarrow> Agent list \<Rightarrow> Claim list \<Rightarrow> unit tick" where
  "processManagedSessionStartRetries e h cfg agents claims =
     cbind (in_co (thread (retry_step e h cfg) claims agents)) (\<lambda>_. creturn ())"

text \<open>A failure to ensure one session is logged.\<close>

definition ensureSessionPoolReady :: "env \<Rightarrow> host \<Rightarrow> LaunchConfig \<Rightarrow> Agent list \<Rightarrow> unit tick" where
  "ensureSessionPoolReady e h cfg agents =
     each (\<lambda>a. cquiet (in_co (ensureSessionReady e h cfg None a)))
       (filter (\<lambda>a. a_role a \<noteq> Some ''master'' \<and> a_role a \<noteq> Some ''scout'' \<and> a_status a \<noteq> AS_offline \<and> a_status a \<noteq> AS_dead \<and>
                  truthy (a_session_handle a)) agents)"

section \<open>Dispatch\<close>

definition resolveWorkerProvider :: "string option \<Rightarrow> LaunchConfig \<Rightarrow> string" where
  "resolveWorkerProvider required cfg = or_default required (lc_provider cfg)"

text \<open>
  What a failed dispatch undoes: the claim and the worker that it holds, if any. A specification that
  the injection scan refuses is reported and does not count as an error.
\<close>

definition undo_dispatch :: "env \<Rightarrow> LaunchConfig \<Rightarrow> string option \<Rightarrow> string option \<Rightarrow> string \<Rightarrow> string \<Rightarrow> string \<Rightarrow> unit coord" where
  "undo_dispatch e cfg run agent reason code policy =
     (case (run, agent) of
        (Some r, Some a) \<Rightarrow>
          cbind (on_st (finishRun e r a (worker_finish e False (Some reason) (Some code) policy))) (\<lambda>_.
            on_st (cleanupRunCapacity e (lc_max_workers cfg) a None))
      | (None, Some a) \<Rightarrow> on_st (removeAgent e a)
      | (_, None) \<Rightarrow> creturn ())"

definition dispatch_failed ::
  "env \<Rightarrow> LaunchConfig \<Rightarrow> string \<Rightarrow> string option \<Rightarrow> string option \<Rightarrow> orc_error \<Rightarrow> unit coord" where
  "dispatch_failed e cfg ref run agent err =
     (case err of
        InjectionScanError findings \<Rightarrow>
          cbind (on_st (appendEventTo e (mk_event (now_ts e) ''task_dispatch_blocked'' ''coordinator'' ''coordinator'' None (Some ref) None
            (Some [(''reason'', JStr ''injection_scan''), (''findings'', JArr (map JStr findings))])))) (\<lambda>_.
            undo_dispatch e cfg run agent ''injection_scan_blocked'' ''ERR_INJECTION_SCAN'' ''block'')
      | _ \<Rightarrow>
          cbind (undo_dispatch e cfg run agent (''dispatch_error: '' @ error_message err) ''ERR_DISPATCH_FAILURE'' ''requeue'') (\<lambda>_.
            cthrow (PlainError (''dispatching '' @ ref @ '': '' @ error_message err))))"

definition is_injection :: "orc_error \<Rightarrow> bool" where
  "is_injection err \<longleftrightarrow> (case err of InjectionScanError _ \<Rightarrow> True | _ \<Rightarrow> False)"

definition prepare_worktree :: "env \<Rightarrow> host \<Rightarrow> string \<Rightarrow> string \<Rightarrow> string \<Rightarrow> RunWorktreeEntry coord" where
  "prepare_worktree e h runId ref agentId c =
     (case ensureRunWorktree e h runId ref agentId (co_worktrees c) of
        Inl err \<Rightarrow> (Inl err, c)
      | Inr (entry, runs) \<Rightarrow> (Inr entry, c\<lparr>co_worktrees := runs\<rparr>))"

definition spawn_for_run ::
  "env \<Rightarrow> host \<Rightarrow> LaunchConfig \<Rightarrow> string \<Rightarrow> string \<Rightarrow> string \<Rightarrow> string \<Rightarrow> (string option + Agent) coord" where
  "spawn_for_run e h cfg ref runId agentId provider =
     cbind (prepare_worktree e h runId ref agentId) (\<lambda>wt.
     cbind (find_task_of ref) (\<lambda>task.
       spawnEphemeralWorker e h cfg \<lparr>lr_workingDirectory = Some (rw_worktree_path wt), lr_runId = Some runId, lr_taskRef = Some ref,
         lr_taskModel = (case task of None \<Rightarrow> None | Some t \<Rightarrow> t_model t), lr_retryable = False\<rparr> agentId provider))"

definition run_dispatched ::
  "env \<Rightarrow> host \<Rightarrow> LaunchConfig \<Rightarrow> string \<Rightarrow> string \<Rightarrow> string \<Rightarrow> string \<Rightarrow> unit coord" where
  "run_dispatched e h cfg ref runId agentId provider =
     ctry (spawn_for_run e h cfg ref runId agentId provider)
       (dispatch_failed e cfg ref (Some runId) (Some agentId))
       (\<lambda>spawned. case spawned of
          Inl reason \<Rightarrow>
            ctry (on_st (finishRun e runId agentId (worker_finish e False
                    (Some (''session_start_failed: '' @ or_default reason ''worker session could not be launched in assigned worktree''))
                    (Some ''ERR_SESSION_START_FAILED'') ''requeue'')))
              (dispatch_failed e cfg ref (Some runId) None)
              creturn
        | Inr agent \<Rightarrow>
            if isAgentSessionReady agent
            then ctry (sendTaskEnvelope e h cfg agent runId)
                   (\<lambda>err. dispatch_failed e cfg ref (if is_injection err then Some runId else None) None err)
                   creturn
            else creturn ())"

definition dispatch_item :: "env \<Rightarrow> host \<Rightarrow> LaunchConfig \<Rightarrow> string \<times> string option \<Rightarrow> unit coord" where
  "dispatch_item e h cfg item =
     (let ref = fst item; provider = resolveWorkerProvider (snd item) cfg in
      ctry (on_st (\<lambda>st. nextAvailableWorkerName e (h_draws h (st_db st)) st))
        (dispatch_failed e cfg ref None None)
        (\<lambda>agentId.
          ctry (cbind (\<lambda>c. (getAdapter provider, c)) (\<lambda>_.
                  on_st (\<lambda>st. claimTask e ref agentId (lc_lease_ms cfg) (h_runId h (st_db st)) st)))
            (dispatch_failed e cfg ref None (Some agentId))
            (\<lambda>(runId, _). run_dispatched e h cfg ref runId agentId provider)))"

text \<open>The dispatches run one after the other here; a failed one is logged.\<close>

definition executeDispatchPlan :: "env \<Rightarrow> host \<Rightarrow> LaunchConfig \<Rightarrow> Claim list \<Rightarrow> Backlog \<Rightarrow> unit tick" where
  "executeDispatchPlan e h cfg claims backlog =
     in_co (each (\<lambda>item. cquiet (dispatch_item e h cfg item)) (select_dispatch e backlog claims (lc_max_workers cfg)))"

section \<open>The tick\<close>

record TickConfig =
  tk_autonomous :: bool
  tk_launch :: LaunchConfig
  tk_owner_ttl_ms :: int

definition renew_ownership :: "env \<Rightarrow> host \<Rightarrow> TickConfig \<Rightarrow> unit tick" where
  "renew_ownership e h cfg = in_dir (\<lambda>st. (Inr (), st\<lparr>st_db := snd (renewSessionOwnership e (h_ownerId h) (tk_owner_ttl_ms cfg) (st_db st))\<rparr>))"

text \<open>Reading the state at the start of a tick; a failure ends the tick quietly.\<close>

definition initializeTickState :: "env \<Rightarrow> host \<Rightarrow> (Agent list \<times> Claim list \<times> Backlog) option tick" where
  "initializeTickState e h =
     ctry (cbind (in_dir readJsonClaims) (\<lambda>claims.
           cbind (in_co (\<lambda>c. (Inr (), c\<lparr>co_worktrees :=
             snd (pruneMissingRunWorktrees h (map c_run_id (filter claim_active claims)) (co_worktrees c))\<rparr>))) (\<lambda>_.
             reloadTickState e)))
       (\<lambda>_. creturn None)
       (\<lambda>state. creturn (Some state))"

definition reload_pair :: "env \<Rightarrow> (Agent list \<times> Claim list) tick" where
  "reload_pair e = cbind (reloadTickState e) (\<lambda>(agents, claims, _). creturn (agents, claims))"

text \<open>
  The passes in the order of the source. Expiry and the probes read the state again only when they
  released a run; the dispatch counts the claims that were read before the pool was looked after. The
  log of the master's health and the pruning of memories are not part of the state.
\<close>

definition reload_if :: "env \<Rightarrow> bool \<Rightarrow> Agent list \<times> Claim list \<Rightarrow> (Agent list \<times> Claim list) tick" where
  "reload_if e released state = (if released then reload_pair e else creturn state)"

definition consume_tick :: "env \<Rightarrow> host \<Rightarrow> LaunchConfig \<Rightarrow> Agent list \<Rightarrow> Claim list \<Rightarrow> (Agent list \<times> Claim list) tick" where
  "consume_tick e h cfg agents claims =
     cbind (on_sv (markStaleAgentsDead e agents claims)) (\<lambda>agents1.
     cbind (processEventCheckpoint e h (lc_coordinator cfg) agents1 claims) (\<lambda>read.
     cbind (on_sv (expireAndCleanupStaleLeases e (lc_coordinator cfg))) (\<lambda>expired.
     cbind (reload_if e expired read) (\<lambda>(agents2, claims2).
     cbind (on_sv (probeActiveWorkerSessions e h (lc_coordinator cfg) agents2 claims2)) (\<lambda>cleaned.
       reload_if e cleaned (agents2, claims2))))))"

definition supervise_tick :: "env \<Rightarrow> host \<Rightarrow> LaunchConfig \<Rightarrow> Claim list tick" where
  "supervise_tick e h cfg =
     cbind (reload_pair e) (\<lambda>(agents, claims).
     cbind (in_dir (\<lambda>st. (Inr (buildAttemptCountLookup st), st))) (\<lambda>attempts.
     cbind (on_sv (enforceRunStartLifecycle e h (lc_supervision cfg) agents claims)) (\<lambda>_.
     cbind (\<lambda>c. on_sv (enforceInProgressLifecycle e h (lc_supervision cfg) agents claims (cn_activity c) attempts) c) (\<lambda>_.
     cbind (reload_pair e) (\<lambda>(agents2, claims2).
     cbind (processClaimedSessionReadiness e h cfg agents2 claims2) (\<lambda>_.
     cbind (reload_pair e) (\<lambda>(agents3, claims3).
     cbind (ensureSessionPoolReady e h cfg agents3) (\<lambda>_. creturn claims3))))))))"

definition autonomous_tick :: "env \<Rightarrow> host \<Rightarrow> LaunchConfig \<Rightarrow> unit tick" where
  "autonomous_tick e h cfg =
     cbind (in_dir (reconcileState e)) (\<lambda>_.
     cbind (reloadTickState e) (\<lambda>(agents, claims, backlog).
     cbind (consume_tick e h cfg agents claims) (\<lambda>(agents1, claims1).
     cbind (processManagedSessionStartRetries e h cfg agents1 claims1) (\<lambda>_.
     cbind (supervise_tick e h cfg) (\<lambda>claims2.
       executeDispatchPlan e h cfg claims2 backlog)))))"

definition coordinator_tick :: "env \<Rightarrow> host \<Rightarrow> TickConfig \<Rightarrow> unit tick" where
  "coordinator_tick e h cfg =
     cbind (cquiet (renew_ownership e h cfg)) (\<lambda>_.
       if \<not> tk_autonomous cfg then creturn ()
       else cbind (initializeTickState e h) (\<lambda>state.
         case state of None \<Rightarrow> creturn () | Some _ \<Rightarrow> autonomous_tick e h (tk_launch cfg)))"

end
