(* ===== verification/Worker_Launch_Props.thy ===== *)
theory Worker_Launch_Props
  imports Worker_Launch Event_Processing_Props
begin

text \<open>
  What launching and dispatching keep. The locale \<open>launch_contract\<close> has the operations that a launch calls as
  its assumptions, for a preorder on the coordinator's state; \<open>dispatch_contract\<close> adds the claim. Both are
  interpreted for the invariants of the databases, the first also for the set of busy agents.
\<close>

section \<open>The contract of a launch\<close>

locale launch_contract = step_preorder R
  for R :: "coord_state \<Rightarrow> coord_state \<Rightarrow> bool" +
  fixes h :: host
  assumes st_finish: "holds R anything (on_st (finishRun e i ag opts))"
    and st_cleanup: "holds R anything (on_st (cleanupRunCapacity e n ag off))"
    and st_append: "holds R anything (on_st (appendEventTo e ev))"
    and st_update: "holds R anything (on_st (updateAgentRuntime e ag u))"
    and st_remove: "holds R anything (on_st (removeAgent e ag))"
    and st_register: "holds R anything (on_st (registerAgent e d))"
    and st_envelope: "holds R anything (on_st (markTaskEnvelopeSent e i ag emit at aty aid))"
    and st_retry: "holds R anything (on_st (setRunSessionStartRetryState e i ag k na le))"
    and st_claims: "holds R anything (on_st readJsonClaims)"
    and st_agents: "holds R anything (on_st (\<lambda>st. ((f :: orc_state \<Rightarrow> string result) st, snd (readAgentsFile e st))))"
    and st_state: "holds R anything (set_session e i ss why outcome)"
    and st_record: "holds R anything (session_txn (\<lambda>st. recordProviderSession e (st_claims_json st) (st_agents_json st) p (st_db st)))"
    and co_writable: "holds R anything (assertSessionWritable e h provider handle)"
    and co_deliver: "holds R anything (deliverStructured e h handle body kind key)"
    and co_send: "holds R anything (adapter_send e h provider handle msg)"
    and co_frame: "co_st c' = co_st c \<Longrightarrow> R c c'"
begin

lemmas bindI = holds_cbind [where P = anything, simplified]
lemmas tryI = holds_ctry [where P = anything, simplified]

lemma holds_read_st: "holds R anything (on_st (\<lambda>st. (g st, st)))"
  by (simp add: holds_def on_st_def co_frame)

lemma holds_call: "holds R anything (call_host r k)"
  by (simp add: holds_def call_host_def co_frame split: sum.split)

lemma holds_case_prod: "(\<And>x y. holds R Q (f x y)) \<Longrightarrow> holds R Q (case p of (x, y) \<Rightarrow> f x y)"
  by (cases p) simp

lemma holds_case_sum: "(\<And>x. holds R Q (f x)) \<Longrightarrow> (\<And>y. holds R Q (g y)) \<Longrightarrow> holds R Q (case s of Inl x \<Rightarrow> f x | Inr y \<Rightarrow> g y)"
  by (cases s) simp_all

lemma holds_throw: "holds R Q (cthrow err)"
  by (simp add: holds_def cthrow_def R_refl)

lemma holds_true: "holds R anything (creturn x)"
  by (rule holds_creturn) simp

lemma holds_adapter: "holds R anything (\<lambda>c. (r, c))"
  by (rule holds_answer) simp

lemmas keep_intros = bindI tryI holds_if holds_option holds_case_prod holds_case_sum holds_throw holds_true holds_adapter holds_cquiet
  holds_read_st holds_call st_finish st_cleanup st_append st_update st_remove st_register st_envelope st_retry st_claims st_agents
  st_state st_record co_writable co_deliver co_send

lemma keeps_clear: "holds R anything (on_st (clearWorkerSessionRuntime e ag s))"
  unfolding clearWorkerSessionRuntime_def by (rule st_update)

lemma on_st_obind: "on_st (\<lambda>st. obind (f st) g) = cbind (on_st f) (\<lambda>x. on_st (g x))"
proof
  fix c :: coord_state
  obtain r st where "f (co_st c) = (r, st)" by fastforce
  then show "on_st (\<lambda>st. obind (f st) g) c = cbind (on_st f) (\<lambda>x. on_st (g x)) c"
    by (cases r) (simp_all add: on_st_def cbind_def)
qed

lemma keeps_offline: "holds R anything (on_st (markWorkerOffline e ag why p))"
  unfolding markWorkerOffline_def on_st_obind by (intro bindI keeps_clear st_append)

lemma keeps_launch_failed: "holds R anything (launch_failed e req a err)"
  unfolding launch_failed_def emitSessionStartFailed_def Let_def by (intro keep_intros keeps_clear keeps_offline)

lemma keeps_start: "holds R anything (start_session e h cfg req a sessionId secret)"
  unfolding start_session_def by (intro keep_intros)

lemma keeps_launch: "holds R anything (launchWorkerSession e h cfg req a)"
proof -
  have "holds R anything (ctry (start_session e h cfg req a i s) (launch_failed e req a)
      (\<lambda>sd. (let a' = assign_updates (launch_updates e i sd) a in
          ctry (on_st (appendEventTo e (online_event e req a sd))) (launch_failed e req a') (\<lambda>_. creturn (True, None, a')))))" for i s
    unfolding Let_def by (intro tryI keeps_start keeps_launch_failed st_append holds_true)
  then show ?thesis unfolding launchWorkerSession_def Let_def holds_def by blast
qed

lemma keeps_spawn: "holds R anything (spawnEphemeralWorker e h cfg req agentId provider)"
  unfolding spawnEphemeralWorker_def by (intro keep_intros keeps_launch)

lemma keeps_session_alive: "holds R anything (session_alive e h a)"
  unfolding session_alive_def session_owned_def by (intro keep_intros)

lemma keeps_ensure: "holds R anything (ensureSessionReady e h cfg req a)"
  unfolding ensureSessionReady_def session_gone_def by (intro keep_intros keeps_session_alive keeps_launch)

lemma keeps_record: "holds R anything (record_sent provider handle msg)"
  by (simp add: holds_def record_sent_def co_frame)

lemma keeps_envelope: "holds R anything (sendTaskEnvelope e h cfg a runId)"
  unfolding sendTaskEnvelope_def buildTaskEnvelope_def deliver_envelope_def envelope_failed_def Let_def
  by (intro keep_intros keeps_record)

lemma keeps_worktree: "holds R anything (run_worktree runId)"
  by (simp add: holds_def run_worktree_def R_refl)

lemma keeps_find_task: "holds R anything (find_task_of ref)"
  unfolding find_task_of_def by (simp add: holds_def on_st_def check_then_def co_frame split: sum.split)

lemma keeps_relaunch: "holds R anything (relaunch e h cfg retryable claim a)"
  unfolding relaunch_def by (intro bindI keeps_find_task keeps_worktree keeps_ensure)

lemma keeps_readied: "holds R anything (readied_agent e h cfg claim a)"
  unfolding readied_agent_def schedule_retry_def fail_start_def Let_def by (intro keep_intros keeps_relaunch)

lemma keeps_exhausted: "holds R anything (retries_exhausted e cfg claim reason a)"
  unfolding retries_exhausted_def fail_start_def by (intro keep_intros keeps_worktree)

lemma keeps_retry_step: "holds R anything (retry_step e h cfg claim agents)"
  unfolding retry_step_def schedule_retry_def Let_def by (intro keep_intros keeps_relaunch keeps_exhausted)

lemma keeps_thread: "(\<And>x acc. holds R anything (f x acc)) \<Longrightarrow> holds R anything (thread f xs acc)"
  by (induction xs arbitrary: acc) (simp_all add: holds_true bindI)

lemma keeps_undo: "holds R anything (undo_dispatch e cfg run agent reason code policy)"
  unfolding undo_dispatch_def by (cases run; cases agent) (simp_all add: keep_intros)

lemma keeps_dispatch_failed: "holds R anything (dispatch_failed e cfg ref run agent err)"
  unfolding dispatch_failed_def by (cases err) (simp_all, (intro keep_intros keeps_undo)+)

lemma keeps_run_dispatched: "holds R anything (run_dispatched e h cfg ref runId agentId provider)"
proof -
  have "holds R anything (prepare_worktree e h runId ref agentId)"
    by (auto simp: holds_def prepare_worktree_def co_frame split: sum.split)
  then show ?thesis unfolding run_dispatched_def spawn_for_run_def
    by (intro keep_intros keeps_dispatch_failed keeps_find_task keeps_spawn keeps_envelope)
qed

end

locale dispatch_contract = launch_contract +
  assumes st_claim: "holds R anything (on_st (\<lambda>st. claimTask e ref ag ms (h_runId h (st_db st)) st))"
begin

lemma keeps_dispatch_item: "holds R anything (dispatch_item e h cfg item)"
  unfolding dispatch_item_def nextAvailableWorkerName_def Let_def
  by (intro keep_intros keeps_dispatch_failed st_claim keeps_run_dispatched)

lemma keeps_dispatches: "holds R anything (each (\<lambda>item. cquiet (dispatch_item e h cfg item)) items)"
  by (intro holds_each holds_cquiet keeps_dispatch_item)

end

section \<open>A tick keeps the invariants\<close>

definition dir_sound :: "(orc_state \<Rightarrow> bool) \<Rightarrow> coord_state \<Rightarrow> coord_state \<Rightarrow> bool" where
  "dir_sound ok c c' \<longleftrightarrow> (ok (co_st c) \<longrightarrow> ok (co_st c'))"

lemma holds_csound: "holds (dir_sound ok) anything m \<longleftrightarrow> csound ok m"
  by (simp add: holds_def dir_sound_def csound_def)

sublocale state_invariant \<subseteq> lc: dispatch_contract "dir_sound (state_ok D S)" h for h
proof
  show "dir_sound ok c c" for c by (simp add: dir_sound_def)
  show "dir_sound ok a b \<Longrightarrow> dir_sound ok b c \<Longrightarrow> dir_sound ok a c" for a b c by (simp add: dir_sound_def)
  show "co_st c' = co_st c \<Longrightarrow> dir_sound ok c c'" for c c' by (simp add: dir_sound_def)
  show "holds (dir_sound ok) anything (on_st (\<lambda>st. (f st, snd (readAgentsFile e st))))" for f :: "orc_state \<Rightarrow> string result" and e
    unfolding holds_csound by (intro csound_on_st) (simp add: sound_def ok_readAgents)
  have txn: "csound ok (session_txn f)" if "\<And>st x db. ok st \<Longrightarrow> f st = Inr (x, db) \<Longrightarrow> D db" for f :: "orc_state \<Rightarrow> (bool \<times> runtime_db) result"
    unfolding session_txn_def
    by (intro csound_on_st) (use that in \<open>auto simp: sound_def intro!: ok_db split: sum.split\<close>)
  show "holds (dir_sound ok) anything (set_session e i ss why outcome)" for e i ss why outcome
    unfolding holds_csound set_session_def by (intro txn) (auto intro: D_setSessionState ok_db_of)
  show "holds (dir_sound ok) anything (session_txn (\<lambda>st. recordProviderSession e (st_claims_json st) (st_agents_json st) p (st_db st)))" for e p
    unfolding holds_csound by (intro txn) (auto intro: D_recordSession ok_db_of)
  show "holds (dir_sound ok) anything (assertSessionWritable e h provider handle)" for e provider handle
    unfolding holds_csound by (rule sound_writable)
  show "holds (dir_sound ok) anything (deliverStructured e h handle body kind key)" for e handle body kind key
    unfolding holds_csound using csound_deliver [of e h handle body kind "\<lambda>_. key"] by simp
  show "holds (dir_sound ok) anything (adapter_send e h provider handle msg)" for e provider handle msg
    unfolding holds_csound by (rule csound_adapter_send)
qed (unfold holds_csound, (intro csound_on_st sound_intros; assumption)+)

locale tick_invariant = state_invariant D S
  for D :: "runtime_db \<Rightarrow> bool" and S :: "task_store \<Rightarrow> bool" +
  assumes D_initializeOffset: "D db \<Longrightarrow> initializeEventOffset cp consumer db = Inr (n, db') \<Longrightarrow> D db'"
    and D_advanceOffset: "D db \<Longrightarrow> advanceEventOffset expected seq consumer db = Inr (m, db') \<Longrightarrow> D db'"
    and D_renew: "D db \<Longrightarrow> D (snd (renewSessionOwnership e own ttl db))"
begin

abbreviation keeps :: "'a tick \<Rightarrow> bool" where
  "keeps m \<equiv> holds (tick_sound ok) anything m"

lemma tick_lc: "holds (dir_sound ok) anything m \<Longrightarrow> keeps (in_co m)"
  unfolding holds_csound by (rule tick_co)

lemma tick_pass: "holds (sup_sound ok) Q m \<Longrightarrow> keeps (on_sv m)"
  by (rule ts.holds_weaken [OF tick_sv]) simp_all

lemma tick_return: "keeps (creturn x)"
  by (rule ts.holds_creturn) simp

lemma tick_pair: "(\<And>x y. holds (tick_sound ok) Q (f x y)) \<Longrightarrow> holds (tick_sound ok) Q (case p of (x, y) \<Rightarrow> f x y)"
  by (cases p) simp

lemma tick_txn: "(\<And>db x db'. D db \<Longrightarrow> f db = Inr (x, db') \<Longrightarrow> D db') \<Longrightarrow> keeps (db_txn f)"
  unfolding db_txn_def
  by (rule tick_dir) (auto simp: sound_def intro!: ok_db dest: ok_db_of split: sum.split)

lemmas tick_intros = tick_bind tick_try tick_return tick_pair ts.holds_if ts.holds_option ts.holds_cquiet ts.holds_each tick_reload

lemma keeps_getCursor: "keeps getEventCursor"
proof -
  have "keeps (cbind (db_txn (initializeEventOffset cp COORDINATOR_EVENT_CONSUMER)) (\<lambda>cursor. cbind load_legacy (\<lambda>_. creturn cursor)))" for cp
    by (intro tick_bind tick_txn tick_return tick_memory) (auto intro: D_initializeOffset simp: load_legacy_def)
  then show ?thesis unfolding getEventCursor_def holds_def by blast
qed

lemma keeps_advance: "keeps (advanceCursor seq)"
proof -
  have "keeps (cbind (db_txn (advanceEventOffset x (int seq) COORDINATOR_EVENT_CONSUMER)) (\<lambda>_. creturn ()))" for x
    by (intro tick_bind tick_txn tick_return) (auto intro: D_advanceOffset)
  then show ?thesis unfolding advanceCursor_def Let_def holds_def by (simp add: tick_sound_def)
qed

lemma keeps_observe: "keeps (observe evs)"
  by (rule tick_memory) (simp add: observe_def)

lemma keeps_process_event: "keeps (process_event e h cfg ev)"
proof -
  have "keeps (\<lambda>c. if already_processed ev c then advanceCursor (ev_seq ev) c
     else cbind (in_co (handle_event e h cfg ev)) (\<lambda>_. if ev_seq ev > 0 then advanceCursor (ev_seq ev) else creturn ()) c)"
    by (intro ts.holds_either tick_intros keeps_advance tick_co csound_handle_event)
  then show ?thesis unfolding process_event_def by (intro tick_bind keeps_getCursor)
qed

lemma keeps_checkpoint: "keeps (processEventCheckpoint e h cfg agents claims)"
proof -
  have row: "keeps (process_row e h cfg row)" for row
    unfolding process_row_def processTerminalRunEvents_def by (intro tick_intros keeps_observe keeps_process_event keeps_advance)
  have hydrate: "keeps (hydrate_activity e claims)"
    using hydrate_sv [of e claims] by (simp add: holds_def tick_sound_def) (metis snd_conv)
  have "keeps (\<lambda>c. (readEventBatch e (int cursor) EVENT_BATCH_SIZE (cn_db c), c))" for cursor by (rule tick_memory) simp
  then show ?thesis unfolding processEventCheckpoint_def consume_batch_def by (intro tick_intros keeps_getCursor hydrate row)
qed

lemma keeps_reload_pair: "keeps (reload_pair e)"
  unfolding reload_pair_def by (intro tick_intros)

lemma keeps_reload_if: "keeps (reload_if e b x)"
  unfolding reload_if_def by (intro tick_intros keeps_reload_pair)

lemma keeps_consume: "keeps (consume_tick e h cfg agents claims)"
  unfolding consume_tick_def
  by (intro tick_intros tick_pass [OF so.keeps_mark_dead] keeps_checkpoint tick_pass [OF so.keeps_expire] keeps_reload_if
      tick_pass [OF so.keeps_probe])

lemma keeps_forget: "keeps (forget_ready run)"
  by (rule tick_memory) (simp add: forget_ready_def)

lemma keeps_ready_nudge: "keeps (ready_nudge e h claim a)"
  unfolding ready_nudge_def by (intro tick_bind tick_co csound_send_to tick_memory) simp

lemma keeps_await: "holds (tick_sound ok) (list_all keeps) (await_ready e h cfg claim a)"
proof -
  have "holds (tick_sound ok) (list_all keeps) (\<lambda>c. if b c then (Inr [], c) else (Inr [ready_nudge e h claim a], c))" for b
    by (simp add: holds_def tick_sound_def keeps_ready_nudge [unfolded holds_def tick_sound_def])
  then show ?thesis unfolding await_ready_def Let_def
    by (intro ts.holds_option ts.holds_if tick_bind ts.holds_creturn tick_pass [OF so.keeps_fail] keeps_forget) simp_all
qed

text \<open>What a readiness check hands on are nudges that keep the invariant too.\<close>

lemma keeps_ready_step:
  assumes "list_all keeps (snd acc)"
  shows "holds (tick_sound ok) (\<lambda>r. list_all keeps (snd r)) (ready_step e h cfg claim acc)"
proof -
  have readied: "keeps (in_co (readied_agent e h cfg claim a))" for a by (intro tick_lc lc.keeps_readied)
  have envelope: "keeps (ctry (in_co (sendTaskEnvelope e h cfg a i)) (\<lambda>_. creturn ()) creturn)" for a i
    by (intro tick_try tick_return tick_lc lc.keeps_envelope)
  obtain agents nudges where acc: "acc = (agents, nudges)" by (cases acc)
  have nudges: "list_all keeps nudges" using assms acc by simp
  have stop: "holds (tick_sound ok) (\<lambda>r. list_all keeps (snd r)) (creturn (x, nudges))" for x by (simp add: ts.holds_creturn nudges)
  have more: "holds (tick_sound ok) (\<lambda>r. list_all keeps (snd r))
      (cbind (await_ready e h cfg claim a) (\<lambda>more. creturn (put_agent a agents, nudges @ more)))" for a
    by (rule ts.holds_cbind [OF keeps_await]) (simp add: ts.holds_creturn nudges)
  have rest: "holds (tick_sound ok) (\<lambda>r. list_all keeps (snd r))
      (if \<not> b then creturn (put_agent a agents, nudges)
       else if isAgentSessionReady a
       then cbind (ctry (in_co (sendTaskEnvelope e h cfg a (c_run_id claim))) (\<lambda>_. creturn ()) creturn) (\<lambda>_.
            cbind (forget_ready (c_run_id claim)) (\<lambda>_. creturn (put_agent a agents, nudges)))
       else cbind (await_ready e h cfg claim a) (\<lambda>more. creturn (put_agent a agents, nudges @ more)))" for a b
    by (intro ts.holds_if stop tick_bind [OF envelope] tick_bind [OF keeps_forget] more)
  show ?thesis unfolding ready_step_def acc Let_def prod.case
    by (intro ts.holds_if ts.holds_option stop tick_bind [OF keeps_forget] tick_bind [OF readied] tick_pair rest)
qed

lemma keeps_readiness: "keeps (processClaimedSessionReadiness e h cfg agents claims)"
proof -
  have "holds (tick_sound ok) (\<lambda>r. list_all keeps (snd r)) (thread (ready_step e h cfg) claims acc)" if "list_all keeps (snd acc)" for acc
    using that
  proof (induction claims arbitrary: acc)
    case (Cons claim claims)
    then show ?case by (auto intro: ts.holds_cbind [OF keeps_ready_step])
  qed (simp add: ts.holds_creturn)
  from this [of "(agents, [])"] show ?thesis
    unfolding processClaimedSessionReadiness_def
    by (rule ts.holds_cbind) (auto intro!: tick_bind tick_return holds_batch ts.step_preorder_axioms)
qed

lemma keeps_retries: "keeps (processManagedSessionStartRetries e h cfg agents claims)"
  unfolding processManagedSessionStartRetries_def
  by (intro tick_bind tick_return tick_lc lc.keeps_thread lc.keeps_retry_step)

lemma keeps_pool: "keeps (ensureSessionPoolReady e h cfg agents)"
  unfolding ensureSessionPoolReady_def by (intro tick_intros tick_lc lc.keeps_ensure)

lemma keeps_dispatch: "keeps (executeDispatchPlan e h cfg claims backlog)"
  unfolding executeDispatchPlan_def by (intro tick_lc lc.keeps_dispatches)

lemma keeps_supervise: "keeps (supervise_tick e h cfg)"
proof -
  have attempts: "keeps (in_dir (\<lambda>st. (Inr (buildAttemptCountLookup st), st)))"
    by (intro tick_dir) (simp add: sound_def)
  have start: "keeps (on_sv (enforceRunStartLifecycle e h (lc_supervision cfg) agents claims))" for agents claims
    by (intro tick_pass [OF so.keeps_run_start]) simp
  have progress: "keeps (\<lambda>c. on_sv (enforceInProgressLifecycle e h (lc_supervision cfg) agents claims (cn_activity c) attempts) c)"
    for agents claims attempts
  proof -
    have "keeps (on_sv (enforceInProgressLifecycle e h (lc_supervision cfg) agents claims mem attempts))" for mem
      by (intro tick_pass [OF so.keeps_in_progress]) simp
    then show ?thesis unfolding holds_def by blast
  qed
  show ?thesis unfolding supervise_tick_def
    by (intro tick_bind tick_pair tick_return keeps_reload_pair attempts start progress keeps_readiness keeps_pool)
qed

lemma keeps_tick: "keeps (coordinator_tick e h cfg)"
proof -
  have renew: "keeps (renew_ownership e h cfg)"
    unfolding renew_ownership_def by (intro tick_dir) (auto simp: sound_def intro: ok_db D_renew ok_db_of)
  have prune: "keeps (in_co (\<lambda>c. (Inr (), c\<lparr>co_worktrees := w c\<rparr>)))" for w by (intro tick_co csound_simple)
  have "keeps (initializeTickState e h)"
    unfolding initializeTickState_def by (intro tick_intros tick_dir sound_readJsonClaims prune)
  moreover have "keeps (autonomous_tick e h (tk_launch cfg))"
    unfolding autonomous_tick_def
    by (intro tick_bind tick_pair tick_dir sound_reconcileState tick_reload keeps_consume keeps_retries keeps_supervise keeps_dispatch)
  ultimately show ?thesis unfolding coordinator_tick_def by (intro tick_intros renew)
qed

end

end
