(* ===== verification/Dispatch_Props.thy ===== *)
theory Dispatch_Props
  imports Worker_Launch_Props
begin

text \<open>
  What dispatching and retrying launches guarantee: the busy workers stay within the capacity, and a launch
  is tried a bounded number of times. Everything but the claim of a task leaves the set of busy
  agents as it is or makes it smaller, an interpretation of \<open>launch_contract\<close>.
\<close>

section \<open>Capacity\<close>

abbreviation busy :: "orc_state \<Rightarrow> string set" where
  "busy st \<equiv> set (activeClaimAgents (readRows (st_db st)))"

definition shrinks :: "orc_state \<Rightarrow> orc_state \<Rightarrow> bool" where
  "shrinks st st' \<longleftrightarrow> (claims_ready (st_db st) \<longrightarrow> claims_ready (st_db st') \<and> busy st' \<subseteq> busy st)"

lemma busy_iff: "a \<in> set (activeClaimAgents cs) \<longleftrightarrow> a \<noteq> [] \<and> (\<exists>c \<in> set cs. c_agent_id c = a \<and> claim_active c)"
  by (auto simp: activeClaimAgents_def busy_agents_def)

lemma advances_busy: "list_all2 advances cs cs' \<Longrightarrow> set (activeClaimAgents cs') \<subseteq> set (activeClaimAgents cs)"
proof -
  assume adv: "list_all2 advances cs cs'"
  have "\<exists>c \<in> set cs. c_agent_id c = c_agent_id c' \<and> claim_active c" if "c' \<in> set cs'" "claim_active c'" for c'
  proof -
    from that(1) adv obtain c where c: "c \<in> set cs" "advances c c'" by (metis in_set_conv_nth list_all2_conv_all_nth)
    have "claim_active c" using advances_terminal [OF c(2)] that(2) by (cases "active_state (c_state c)") (auto simp: claim_active_def)
    with c show ?thesis by (auto simp: advances_def)
  qed
  then show ?thesis by (auto simp: busy_iff)
qed

lemma advancing_shrinks: "(claims_ready (st_db st) \<Longrightarrow> advancing st x) \<Longrightarrow> shrinks st (snd x)"
  using advances_busy by (auto simp: shrinks_def advancing_def)

lemma states_busy:
  assumes "run_states db' = run_states db"
  shows "set (activeClaimAgents (readRows db')) = set (activeClaimAgents (readRows db))"
proof -
  have "set (activeClaimAgents (readRows db)) = {a. a \<noteq> [] \<and> (\<exists>x \<in> set (run_states db). fst (snd x) = a \<and> active_state (snd (snd x)))}" for db
    unfolding run_states_def by (auto simp: busy_iff claim_active_def)
  from this [of db] this [of db'] show ?thesis by (simp only: assms)
qed

lemma kept_shrinks: "kept f \<Longrightarrow> shrinks st (snd (f st))"
  using states_busy [of "st_db (snd (f st))" "st_db st"] by (simp add: shrinks_def kept_def unchanged_def)

lemma same_shrinks: "(claims_ready (st_db st) \<Longrightarrow> same_claims (st_db st) (st_db st')) \<Longrightarrow> shrinks st st'"
  using same_claims_ready [of "st_db st" "st_db st'"] by (simp add: shrinks_def)

lemma register_kept: "kept (registerAgent e d)"
proof -
  have "unchanged st (snd (registerAgent e d st))" if "claims_ready (st_db st)" for st
  proof (cases "check_agent_definition d")
    case (Inr u)
    obtain agents st0 where r: "readAgentsFile e st = (agents, st0)" by fastforce
    then have "unchanged st st0" using readAgents_unchanged [OF that, of e] by simp
    then show ?thesis using unchanged_agents Inr r by (simp add: registerAgent_def)
  qed (simp add: registerAgent_def unchanged_refl that)
  then show ?thesis by (simp add: kept_def)
qed

abbreviation co_shrinks :: "coord_state \<Rightarrow> coord_state \<Rightarrow> bool" where
  "co_shrinks c c' \<equiv> shrinks (co_st c) (co_st c')"

lemma keeping_shrinks: "keeping m \<Longrightarrow> holds co_shrinks anything m"
proof -
  assume k: "keeping m"
  have "shrinks (co_st c) (co_st (snd (m c)))" for c
    using k states_busy [of "st_db (co_st (snd (m c)))" "st_db (co_st c)"] by (simp add: keeping_def shrinks_def unchanged_def)
  then show "holds co_shrinks anything m" by (simp add: holds_def)
qed

lemma on_st_shrinks: "(\<And>st. shrinks st (snd (f st))) \<Longrightarrow> holds co_shrinks anything (on_st f)"
  by (rule holds_on_st)

lemma session_txn_shrinks:
  assumes "\<And>st x db. claims_ready (st_db st) \<Longrightarrow> f st = Inr (x, db) \<Longrightarrow> same_claims (st_db st) db"
  shows "holds co_shrinks anything (session_txn f)"
proof -
  have "shrinks st (snd (case f st of Inl err \<Rightarrow> (Inl err, st) | Inr (x, db) \<Rightarrow> (Inr x, st\<lparr>st_db := db\<rparr>)))" for st
    by (rule same_shrinks) (use assms in \<open>auto split: sum.split\<close>)
  then show ?thesis unfolding session_txn_def by (rule on_st_shrinks)
qed

lemma setSessionState_same: "setSessionState e i s reason opts db = Inr (b, db') \<Longrightarrow> same_claims db db'"
  unfolding setSessionState_def Let_def
  by (auto simp: rbind_Inr_iff same_claims_def append_event_frame split: option.splits if_split_asm)

lemma recordSession_same:
  assumes "recordProviderSession e cj aj p db = Inr (b, db')" "cut_over db"
  shows "same_claims db db'"
proof -
  from assms(1) obtain db1 where 1: "importLegacyAgentSessions e cj aj db = Inr db1" "db' = db1 \<or> db' = db1\<lparr>db_sessions := record_session_rows p (db_sessions db1)\<rparr>"
    unfolding recordProviderSession_def Let_def by (simp only: rbind_Inr_iff split: if_split_asm) (blast | simp)+
  have "same_claims db db1" by (rule import_sessions_same [OF 1(1) assms(2)])
  with 1(2) show ?thesis by (auto simp: same_claims_def)
qed

interpretation cp: launch_contract co_shrinks h for h
proof
  show "co_shrinks c c" for c by (simp add: shrinks_def)
  show "co_shrinks a b \<Longrightarrow> co_shrinks b c \<Longrightarrow> co_shrinks a c" for a b c by (auto simp: shrinks_def)
  show "co_st c' = co_st c \<Longrightarrow> co_shrinks c c'" for c c' by (simp add: shrinks_def)
  show "holds co_shrinks anything (on_st readJsonClaims)"
    by (rule on_st_shrinks) (simp add: shrinks_def readJsonClaims_ready)
  show "holds co_shrinks anything (on_st (\<lambda>st. (f st, snd (readAgentsFile e st))))" for f :: "orc_state \<Rightarrow> string result" and e
    by (rule on_st_shrinks, rule kept_shrinks) (simp add: kept_def readAgents_unchanged)
  show "holds co_shrinks anything (set_session e i ss why outcome)" for e i ss why outcome
    unfolding set_session_def by (rule session_txn_shrinks) (rule setSessionState_same)
  show "holds co_shrinks anything (session_txn (\<lambda>st. recordProviderSession e (st_claims_json st) (st_agents_json st) p (st_db st)))" for e p
    by (rule session_txn_shrinks) (auto intro: recordSession_same ready_cut_over)
qed (intro on_st_shrinks kept_shrinks advancing_shrinks keeping_shrinks
      finishRun_advancing setRun_advancing markTaskEnvelopeSent_advancing
      cleanup_kept appendEvent_kept updateAgent_kept removeAgent_kept register_kept writable_kept deliver_keeping adapter_send_keeping;
      assumption)+

text \<open>A dispatch adds at most one busy agent, the one whose name was just made up.\<close>

lemma claim_adds_busy:
  assumes "claims_ready (st_db st)" "runId \<notin> c_run_id ` set (readRows (st_db st))"
  shows "claims_ready (st_db (snd (claimTask e ref ag ms runId st))) \<and> busy (snd (claimTask e ref ag ms runId st)) \<subseteq> insert ag (busy st)"
  using claimTask_adds [OF assms, of e ref ag ms] by (auto simp: busy_iff)

lemma rows_in_runs: "claims_ready db \<Longrightarrow> c_run_id ` set (readRows db) \<subseteq> run_ids db"
proof
  fix i assume "claims_ready db" "i \<in> c_run_id ` set (readRows db)"
  then obtain r c where "r \<in> set (db_runs db)" "rn_claim_json r = Some c" "i = c_run_id c" "row_matches r"
    by (auto simp: claims_ready_def readRows_def runs_inv_def List.map_filter_def)
  then show "i \<in> run_ids db" by (auto simp: run_ids_def row_matches_def intro: rev_image_eqI)
qed

definition within :: "string set \<Rightarrow> coord_state \<Rightarrow> coord_state \<Rightarrow> bool" where
  "within A c c' \<longleftrightarrow> (claims_ready (st_db (co_st c)) \<and> busy (co_st c) \<subseteq> A \<longrightarrow>
     claims_ready (st_db (co_st c')) \<and> busy (co_st c') \<subseteq> A)"

interpretation wi: step_preorder "within A" for A
  by unfold_locales (auto simp: within_def)

lemma within_shrinks: "holds co_shrinks Q m \<Longrightarrow> holds (within A) Q m"
  unfolding holds_def within_def shrinks_def by blast

lemma dispatch_item_within:
  assumes "\<forall>db. h_runId h db \<notin> run_ids db"
  shows "co_shrinks c (snd (dispatch_item e h cfg item c)) \<or>
    (\<exists>ag c1. co_shrinks c c1 \<and> within (insert ag (busy (co_st c1))) c1 (snd (dispatch_item e h cfg item c)))"
proof -
  let ?ref = "fst item" and ?provider = "resolveWorkerProvider (snd item) cfg"
  let ?name = "on_st (\<lambda>st. nextAvailableWorkerName e (h_draws h (st_db st)) st)"
  let ?run = "\<lambda>ag. ctry (cbind (\<lambda>c. (getAdapter ?provider, c)) (\<lambda>_.
      on_st (\<lambda>st. claimTask e ?ref ag (lc_lease_ms cfg) (h_runId h (st_db st)) st)))
    (dispatch_failed e cfg ?ref None (Some ag)) (\<lambda>(runId, _). run_dispatched e h cfg ?ref runId ag ?provider)"
  obtain r c1 where n: "?name c = (r, c1)" by fastforce
  have "holds co_shrinks anything ?name" unfolding nextAvailableWorkerName_def by (rule cp.st_agents)
  then have c1: "co_shrinks c c1" using n by (rule holdsD)
  show ?thesis
  proof (cases r)
    case (Inl err)
    have "co_shrinks c1 (snd (dispatch_failed e cfg ?ref None None err c1))" using cp.keeps_dispatch_failed by (simp add: holds_def)
    then have "co_shrinks c (snd (dispatch_item e h cfg item c))"
      using cp.R_trans [OF c1] n Inl by (simp add: dispatch_item_def ctry_def Let_def)
    then show ?thesis ..
  next
    case (Inr ag)
    let ?A = "insert ag (busy (co_st c1))"
    have "holds (within ?A) anything (on_st (\<lambda>st. claimTask e ?ref ag (lc_lease_ms cfg) (h_runId h (st_db st)) st))"
    proof -
      have "claims_ready (st_db st) \<and> busy st \<subseteq> ?A \<longrightarrow>
          claims_ready (st_db (snd (claimTask e ?ref ag ms (h_runId h (st_db st)) st))) \<and> busy (snd (claimTask e ?ref ag ms (h_runId h (st_db st)) st)) \<subseteq> ?A"
        for st ms
        using claim_adds_busy [of st "h_runId h (st_db st)" e ?ref ag ms] rows_in_runs [of "st_db st"] assms by blast
      then show ?thesis unfolding within_def
        by (rule holds_on_st [where R = "\<lambda>st st'. claims_ready (st_db st) \<and> busy st \<subseteq> ?A \<longrightarrow> claims_ready (st_db st') \<and> busy st' \<subseteq> ?A"])
    qed
    then have claim: "holds (within ?A) anything (cbind (\<lambda>c. (getAdapter ?provider, c)) (\<lambda>_.
        on_st (\<lambda>st. claimTask e ?ref ag (lc_lease_ms cfg) (h_runId h (st_db st)) st)))"
      by (rule wi.holds_cbind [where P = anything, OF within_shrinks [OF cp.holds_adapter]])
    have "holds (within ?A) anything (?run ag)"
      by (rule wi.holds_ctry [OF claim]) (intro within_shrinks cp.keeps_dispatch_failed cp.holds_case_prod cp.keeps_run_dispatched)+
    then have "within ?A c1 (snd (?run ag c1))" by (simp add: holds_def)
    moreover have "dispatch_item e h cfg item c = ?run ag c1" using n Inr by (simp add: dispatch_item_def ctry_def Let_def)
    ultimately show ?thesis using c1 by metis
  qed
qed

lemma card_dispatch:
  assumes "claims_ready (st_db (co_st c))" "\<forall>db. h_runId h db \<notin> run_ids db"
  shows "claims_ready (st_db (co_st (snd (dispatch_item e h cfg item c)))) \<and>
    card (busy (co_st (snd (dispatch_item e h cfg item c)))) \<le> Suc (card (busy (co_st c)))"
proof -
  let ?c = "snd (dispatch_item e h cfg item c)"
  have "claims_ready (st_db (co_st ?c)) \<and> (\<exists>ag. busy (co_st ?c) \<subseteq> insert ag (busy (co_st c)))"
    using dispatch_item_within [OF assms(2), of c e cfg item] assms(1) by (auto simp: shrinks_def within_def)
  then obtain ag where ag: "claims_ready (st_db (co_st ?c))" "busy (co_st ?c) \<subseteq> insert ag (busy (co_st c))" by blast
  have "card (busy (co_st ?c)) \<le> card (insert ag (busy (co_st c)))" by (rule card_mono [OF _ ag(2)]) simp
  also have "\<dots> \<le> Suc (card (busy (co_st c)))" by (simp add: card_insert_if)
  finally show ?thesis using ag(1) by simp
qed

lemma card_dispatches:
  assumes "claims_ready (st_db (co_st c))" "\<forall>db. h_runId h db \<notin> run_ids db"
    "each (\<lambda>item. cquiet (dispatch_item e h cfg item)) items c = (r, c')"
  shows "r = Inr () \<and> claims_ready (st_db (co_st c')) \<and> card (busy (co_st c')) \<le> card (busy (co_st c)) + length items"
  using assms(1,3)
proof (induction items arbitrary: c)
  case (Cons item items)
  let ?c = "snd (dispatch_item e h cfg item c)"
  have "each (\<lambda>item. cquiet (dispatch_item e h cfg item)) items ?c = (r, c')"
    using Cons.prems(2) by (simp add: cbind_def cquiet_def [of "dispatch_item e h cfg item" c])
  then show ?case using Cons.IH [of ?c] card_dispatch [OF Cons.prems(1) assms(2), of e cfg item] by auto
qed (simp add: creturn_def)

text \<open>
  C17. Dispatch never exceeds the capacity. Carrying out a dispatch plan that was made from the current
  claims never throws, whatever fails on the way: naming, claiming, the worktree, the launch, or the
  envelope. When it is done the workers with a run are at most \<open>max_workers\<close>, or as many as before where
  they were more already. Run identifiers are assumed to be new; the code draws four hexadecimal digits per second for them.
\<close>

theorem dispatch_respects_capacity:
  assumes "claims_ready (cn_db c)" and "\<forall>db. h_runId h db \<notin> run_ids db"
    and "executeDispatchPlan e h cfg (readRows (cn_db c)) backlog c = (r, c')"
  shows "r = Inr () \<and> claims_ready (cn_db c') \<and>
    length (activeClaimAgents (readRows (cn_db c'))) \<le> max (lc_max_workers cfg) (length (activeClaimAgents (readRows (cn_db c))))"
proof -
  let ?items = "select_dispatch e backlog (readRows (cn_db c)) (lc_max_workers cfg)"
  have len: "length (activeClaimAgents cs) = card (set (activeClaimAgents cs))" for cs
    by (rule distinct_card [symmetric]) (simp add: activeClaimAgents_def)
  obtain co' where co: "each (\<lambda>item. cquiet (dispatch_item e h cfg item)) ?items (sv_co (cn_sv c)) = (r, co')" "sv_co (cn_sv c') = co'"
    using assms(3) by (auto simp: executeDispatchPlan_def on_sv_def on_co_def Let_def split: prod.splits)
  have "r = Inr () \<and> claims_ready (cn_db c') \<and> card (busy (co_st co')) \<le> card (busy (co_st (sv_co (cn_sv c)))) + length ?items"
    using card_dispatches [OF assms(1,2) co(1)] co(2) by simp
  moreover have "length ?items + length (activeClaimAgents (readRows (cn_db c))) \<le> max (lc_max_workers cfg) (length (activeClaimAgents (readRows (cn_db c))))"
    using select_dispatch_items by blast
  ultimately show ?thesis using co(2) by (simp add: len)
qed

text \<open>A worker has a run, and two tasks wait.\<close>

definition launch_cfg0 :: LaunchConfig where
  "launch_cfg0 = \<lparr>lc_supervision = scfg0, lc_provider = ''claude'', lc_execution_mode = None, lc_runtime = None, lc_project = True,
     lc_lease_ms = DEFAULT_LEASE_MS, lc_session_ready_timeout_ms = 120000, lc_session_ready_nudge_ms = 15000,
     lc_session_ready_nudge_interval_ms = 30000, lc_session_start_max_attempts = 3, lc_session_start_retry_delay_ms = 30000\<rparr>"

lemma host0_fresh: "\<forall>db. h_runId host0 db \<notin> run_ids db"
proof
  fix db
  have "length (rn_run_id r) \<le> length (concat (map rn_run_id rs))" if "r \<in> set rs" for r rs
    using that by (induction rs) auto
  moreover have "length (h_runId host0 db) = length (concat (map rn_run_id (db_runs db))) + 3" by (simp add: host0_def)
  ultimately show "h_runId host0 db \<notin> run_ids db" unfolding run_ids_def by fastforce
qed

definition working_coordinator :: coordinator where
  "working_coordinator = coordinator0\<lparr>cn_sv := working_sup\<rparr>"

theorem dispatch_respects_capacity_witness:
  "fst (executeDispatchPlan env0 host0 launch_cfg0 [claim2] [\<lparr>f_ref = ''f'', f_title = ''f'', f_tasks = [legacy_task]\<rparr>] working_coordinator) = Inr () \<and>
   length (activeClaimAgents (readRows (cn_db (snd (executeDispatchPlan env0 host0 launch_cfg0 [claim2]
     [\<lparr>f_ref = ''f'', f_title = ''f'', f_tasks = [legacy_task]\<rparr>] working_coordinator))))) \<le> 4"
proof -
  let ?b = "[\<lparr>f_ref = ''f'', f_title = ''f'', f_tasks = [legacy_task]\<rparr>]"
  have db: "cn_db working_coordinator = st_db working_st" by (simp add: working_coordinator_def working_sup_def)
  have n: "lc_max_workers launch_cfg0 = 4" "length (activeClaimAgents [claim2]) = 1"
    by (simp_all add: launch_cfg0_def scfg0_def cfg0_def activeClaimAgents_def busy_agents_def js_set_def claim2_def claim0_run_def claim_active_def)
  obtain r c' where d: "executeDispatchPlan env0 host0 launch_cfg0 (readRows (cn_db working_coordinator)) ?b working_coordinator = (r, c')" by fastforce
  from dispatch_respects_capacity [OF _ host0_fresh d] show ?thesis
    using d unfolding db working_rows by (simp add: working_ready n)
qed

section \<open>Launches are retried a bounded number of times\<close>

lemma retry_state_after:
  assumes r: "claims_ready (st_db st)" and s: "setRunSessionStartRetryState e i a n at why st = (Inr x, st')"
  shows "claims_ready (st_db st') \<and> (\<exists>c. claim_after i st' = Some c \<and> c_session_start_retry_count c = n)"
proof -
  let ?f = "\<lambda>c. c\<lparr>c_session_start_retry_count := n, c_session_start_retry_next_at := (if n > 0 then at else None),
      c_session_start_last_error := (if n > 0 then why else None)\<rparr>"
  from s obtain claim st1 where f: "find_claim i (readRows (st_db st)) = Some claim"
      and c: "commitClaims e (mutate_claim i ?f (readRows (st_db st))) [] st = (Inr (), st1)" and d: "st' = st1"
    by (auto simp: setRunSessionStartRetryState_def commit_claim_update_def obind_Inr split: if_splits elim!: with_own_claim_Inr [OF r])
  have "claims_ready (st_db st1)" "claim_after i st1 = map_option ?f (claim_after i st)"
    by (rule commit_claim_after [OF r _ c]; simp)+
  with f d show ?thesis by (simp add: claim_after_def)
qed

lemma on_st_Inr: "on_st f c = (Inr x, c') \<longleftrightarrow> (\<exists>st. f (co_st c) = (Inr x, st) \<and> c' = c\<lparr>co_st := st\<rparr>)"
  by (auto simp: on_st_def split: prod.splits)

lemma exhausted_ends:
  assumes "retries_exhausted e cfg claim reason a c = (Inr x, c')" "claims_ready (st_db (co_st c))"
  shows "claims_ready (st_db (co_st c')) \<and> run_ended (c_run_id claim) (st_db (co_st c'))"
proof -
  let ?i = "c_run_id claim"
  let ?finish = "fail_start e claim reason"
  from assms(1) obtain c1 u c2 where
      1: "cbind (run_worktree ?i) (\<lambda>dir. on_st (appendEventTo e (coordinator_event e ''session_start_failed'' claim
       ([(''reason'', JStr reason), (''code'', JStr ''ERR_SESSION_START_FAILED'')] @ opt_field ''working_directory'' dir)))) c = (Inr u, c1)"
      and 2: "?finish c1 = (Inr (), c2)"
      and 3: "(if a_status a \<noteq> AS_offline then on_st (cleanupRunCapacity e (lc_max_workers cfg) (c_agent_id claim) None) else creturn ()) c2 = (Inr x, c')"
    by (auto simp: retries_exhausted_def cbind_Inr)
  have "holds co_shrinks anything (cbind (run_worktree ?i) (\<lambda>dir. on_st (appendEventTo e (coordinator_event e ''session_start_failed'' claim
       ([(''reason'', JStr reason), (''code'', JStr ''ERR_SESSION_START_FAILED'')] @ opt_field ''working_directory'' dir)))))"
    by (intro cp.bindI cp.keeps_worktree cp.st_append)
  from holdsD [OF this 1] have r1: "claims_ready (st_db (co_st c1))" using assms(2) by (simp add: shrinks_def)
  from 2 obtain st where st: "finishRun e ?i (c_agent_id claim)
      (worker_finish e False (Some (''session_start_failed: '' @ reason)) (Some ''ERR_SESSION_START_FAILED'') ''requeue'') (co_st c1) = (Inr (), st)"
      "co_st c2 = st" by (auto simp: fail_start_def on_st_Inr)
  from finishRun_after [OF r1 st(1)] st(2) have 4: "claims_ready (st_db (co_st c2))" "run_ended ?i (st_db (co_st c2))"
    by (auto simp: claim_after_def run_ended_def find_claim_def dest: find_in_set)
  have "onward ?i (co_st c2) (co_st c')"
  proof (cases "a_status a = AS_offline")
    case True
    then show ?thesis using 3 by (simp add: creturn_def onward_def)
  next
    case False
    then have "on_st (cleanupRunCapacity e (lc_max_workers cfg) (c_agent_id claim) None) c2 = (Inr x, c')" using 3 by simp
    then show ?thesis using kept_onward [OF cleanup_kept, of ?i "co_st c2" e "lc_max_workers cfg" "c_agent_id claim" None]
      by (auto simp: on_st_Inr)
  qed
  with 4 show ?thesis by (simp add: onward_def)
qed

text \<open>
  C37. The launch of a worker in a managed slot is tried a bounded number of times. When a retry that is due
  returns, the run of the claim has ended, or its session is up and the count of failed launches is
  back at zero, or that count has grown by one and is still below \<open>session_start_max_attempts\<close>.
\<close>

theorem session_start_retries_are_bounded:
  assumes "claims_ready (st_db (co_st c))" and "retry_due e cfg claim"
    and "agent_by_id agents (c_agent_id claim) = Some a"
    and "retry_step e h cfg claim agents c = (Inr agents', c')"
  shows "claims_ready (st_db (co_st c')) \<and>
    (run_ended (c_run_id claim) (st_db (co_st c')) \<or>
     (\<exists>claim'. claim_after (c_run_id claim) (co_st c') = Some claim' \<and>
        (c_session_start_retry_count claim' = 0 \<or>
         c_session_start_retry_count claim' = c_session_start_retry_count claim + 1 \<and>
         c_session_start_retry_count claim' < lc_session_start_max_attempts cfg)))"
proof -
  let ?n = "c_session_start_retry_count claim + 1"
  let ?set = "\<lambda>n at why. on_st (setRunSessionStartRetryState e (c_run_id claim) (c_agent_id claim) n at why)"
  let ?why = "\<lambda>reason. or_default reason ''worker session could not be launched in assigned worktree''"
  let ?step = "\<lambda>ok reason a'. if ok \<and> truthy (a_session_handle a') \<and> a_status a' \<noteq> AS_offline
      then cbind (?set 0 None None) (\<lambda>_. creturn ())
      else if ?n \<ge> lc_session_start_max_attempts cfg then retries_exhausted e cfg claim (?why reason) a'
      else schedule_retry e cfg claim ?n (?why (coalesce reason (c_session_start_last_error claim)))"
  have "retry_step e h cfg claim agents c = cbind (relaunch e h cfg True claim a) (\<lambda>(ok, reason, a').
      cbind (?step ok reason a') (\<lambda>_. creturn (put_agent a' agents))) c"
    using assms(2,3) by (simp add: retry_step_def Let_def)
  with assms(4) obtain ok reason a' c1 where 1: "relaunch e h cfg True claim a c = (Inr (ok, reason, a'), c1)"
      and inner: "cbind (?step ok reason a') (\<lambda>_. creturn (put_agent a' agents)) c1 = (Inr agents', c')"
    by (simp only: cbind_Inr split_paired_Ex prod.case) blast
  from inner obtain u where u: "?step ok reason a' c1 = (Inr u, c')"
    by (simp only: cbind_Inr creturn_def prod.inject) blast
  have 2: "?step ok reason a' c1 = (Inr (), c')" by (rule u [unfolded unit_eq [of u]])
  have r: "claims_ready (st_db (co_st c1))"
    using holdsD [OF cp.keeps_relaunch 1] assms(1) by (simp add: shrinks_def)
  have set: "claims_ready (st_db (co_st c')) \<and> (\<exists>c. claim_after (c_run_id claim) (co_st c') = Some c \<and> c_session_start_retry_count c = n)"
    if "cbind (?set n at why) (\<lambda>_. creturn ()) c1 = (Inr (), c')" for n at why
    using that retry_state_after [OF r] by (auto simp: on_st_Inr cbind_Inr creturn_def)
  consider (up) "cbind (?set 0 None None) (\<lambda>_. creturn ()) c1 = (Inr (), c')"
    | (over) "retries_exhausted e cfg claim (?why reason) a' c1 = (Inr (), c')"
    | (again) "?n < lc_session_start_max_attempts cfg"
        "schedule_retry e cfg claim ?n (?why (coalesce reason (c_session_start_last_error claim))) c1 = (Inr (), c')"
    using 2 by (auto split: if_split_asm)
  then show ?thesis
  proof cases
    case up
    from set [OF up] show ?thesis by blast
  next
    case over
    from exhausted_ends [OF over r] show ?thesis by blast
  next
    case again
    from set [OF again(2) [unfolded schedule_retry_def]] again(1) show ?thesis by fastforce
  qed
qed

text \<open>A launch in slot 1 failed once; its session is up now.\<close>

definition launching_claim :: Claim where
  "launching_claim = (claim0_run ''run-1'' ''f/a'' CS_claimed)\<lparr>c_agent_id := ''orc-1'', c_session_start_retry_count := 1,
     c_session_start_retry_next_at := Some (Ts 0)\<rparr>"

definition launching_st :: orc_state where
  "launching_st = legacy_st\<lparr>st_db := runs_db\<lparr>db_runs := [\<lparr>rn_run_id = ''run-1'', rn_task_ref = ''f/a'', rn_agent_id = Some ''orc-1'',
     rn_state = CS_claimed, rn_created_at = Ts 0, rn_updated_at = Ts 0, rn_claim_json = Some launching_claim\<rparr>]\<rparr>,
     st_claims_json := Some [launching_claim]\<rparr>"

definition slot_agent :: Agent where
  "slot_agent = agent0\<lparr>a_agent_id := ''orc-1'', a_session_handle := Some ''pty:orc-1''\<rparr>"

lemma launching_ready: "claims_ready (st_db launching_st)"
  and launching_rows: "readRows (st_db launching_st) = [launching_claim]"
  by (simp_all add: claims_ready_def launching_st_def cut_over_def readRows_def runs_db_def empty_db_def List.map_filter_simps runs_inv_def
      runs_one_active_def launching_claim_def claim0_run_def row_matches_def)

lemma slot_1: "isManagedSlot ''orc-1'' 4"
  by code_simp

lemma launching_due: "retry_due env0 launch_cfg0 launching_claim"
  using slot_1
  by (simp add: retry_due_def launching_claim_def claim0_run_def launch_cfg0_def scfg0_def cfg0_def env0_def)

lemma launching_commit:
  "\<exists>claim st. setRunSessionStartRetryState env0 ''run-1'' ''orc-1'' 0 None None launching_st = (Inr claim, st)"
proof -
  let ?f = "\<lambda>c. c\<lparr>c_session_start_retry_count := 0, c_session_start_retry_next_at := (if (0::int) > 0 then None else None),
      c_session_start_last_error := (if (0::int) > 0 then None else None)\<rparr>"
  have "\<exists>db. commit_claims_txn env0 (Some [launching_claim]) (mutate_claim ''run-1'' ?f [launching_claim]) [] (st_db launching_st) = Inr db"
    by (simp add: launching_claim_def claim0_run_def mutate_claim_def launching_st_def commit_claims_txn_def importLegacyClaims_def
        runs_db_def empty_db_def upsertClaim_def runs_one_active_def claim_updated_at_def orc_eval)
  then obtain db where "commit_claims_txn env0 (st_claims_json launching_st) (mutate_claim ''run-1'' ?f [launching_claim]) [] (st_db launching_st) = Inr db"
    by (auto simp: launching_st_def)
  then show ?thesis
    by (simp add: setRunSessionStartRetryState_def with_own_claim_def readJsonClaims_ready [OF launching_ready] launching_rows
        find_claim_def commit_claim_update_def commitClaims_def)
      (simp add: launching_claim_def claim0_run_def)
qed

lemma launching_up: "\<exists>c'. retry_step env0 host0 launch_cfg0 launching_claim [slot_agent] (coord0\<lparr>co_st := launching_st\<rparr>) = (Inr [slot_agent], c')"
proof -
  let ?c = "coord0\<lparr>co_st := launching_st\<rparr>"
  have agent: "agent_by_id [slot_agent] (c_agent_id launching_claim) = Some slot_agent"
    by (simp add: agent_by_id_def slot_agent_def launching_claim_def)
  have "\<exists>b. readBacklog launching_st = Inr b"
    by (simp add: launching_st_def legacy_st_def readBacklog_def)
  then obtain task where t: "find_task_of (c_task_ref launching_claim) ?c = (Inr task, ?c)"
    by (auto simp: find_task_of_def on_st_def check_then_def)
  have up: "ensureSessionReady env0 host0 launch_cfg0 (Some req) slot_agent ?c = (Inr (True, None, slot_agent), ?c)" for req
    by (simp add: ensureSessionReady_def session_alive_def session_owned_def cbind_def on_st_def creturn_def slot_agent_def agent0_def
        getAdapter_def isSupportedProvider_def PROVIDERS_def currentSessionForAgent_def launching_st_def runs_db_def empty_db_def host0_def)
  have re: "relaunch env0 host0 launch_cfg0 True launching_claim slot_agent ?c = (Inr (True, None, slot_agent), ?c)"
    by (simp add: relaunch_def cbind_def t run_worktree_def up)
  obtain claim st where "setRunSessionStartRetryState env0 ''run-1'' ''orc-1'' 0 None None launching_st = (Inr claim, st)"
    using launching_commit by blast
  then have "on_st (setRunSessionStartRetryState env0 (c_run_id launching_claim) (c_agent_id launching_claim) 0 None None) ?c =
      (Inr claim, ?c\<lparr>co_st := st\<rparr>)"
    by (simp add: on_st_def launching_claim_def claim0_run_def)
  moreover have "truthy (a_session_handle slot_agent)" "a_status slot_agent \<noteq> AS_offline" "put_agent slot_agent [slot_agent] = [slot_agent]"
    by (simp_all add: slot_agent_def agent0_def put_agent_def)
  ultimately show ?thesis
    by (simp add: retry_step_def agent launching_due cbind_def re creturn_def Let_def)
qed

theorem session_start_retries_are_bounded_witness:
  "\<exists>c'. retry_step env0 host0 launch_cfg0 launching_claim [slot_agent] (coord0\<lparr>co_st := launching_st\<rparr>) = (Inr [slot_agent], c') \<and>
     (run_ended ''run-1'' (st_db (co_st c')) \<or>
      (\<exists>claim'. claim_after ''run-1'' (co_st c') = Some claim' \<and> c_session_start_retry_count claim' \<in> {0, 2}))"
proof -
  obtain c' where r: "retry_step env0 host0 launch_cfg0 launching_claim [slot_agent] (coord0\<lparr>co_st := launching_st\<rparr>) = (Inr [slot_agent], c')"
    using launching_up by blast
  have agent: "agent_by_id [slot_agent] (c_agent_id launching_claim) = Some slot_agent"
    by (simp add: agent_by_id_def slot_agent_def launching_claim_def)
  have n: "c_run_id launching_claim = ''run-1''" "c_session_start_retry_count launching_claim = 1"
    by (simp_all add: launching_claim_def claim0_run_def)
  from session_start_retries_are_bounded [OF _ launching_due agent r] launching_ready r show ?thesis
    unfolding n by auto
qed

end
