(* ===== verification/Terminals.thy ===== *)
theory Terminals
  imports Run_Store
begin

text \<open>
  Terminals of runs (\<^verbatim>\<open>lib/terminalBroker.ts\<close>) and the writer lease that they share with the messages of the
  coordinator (\<^verbatim>\<open>adapters/tmux.ts\<close>). The state is the tables \<^verbatim>\<open>terminals\<close> and \<^verbatim>\<open>control_leases\<close> beside the
  runs and sessions of \<^verbatim>\<open>events.db\<close>, and the calls that the terminal driver was given, in order. The driver is a
  parameter: what it answers is any function of the calls before, so that a terminal can end at any moment.
  An operation that works in several transactions takes the parameter \<open>oth\<close>, what other processes do
  between the last two of them.
\<close>

section \<open>State\<close>

datatype TerminalKind = TK_provider | TK_shell

fun kind_str :: "TerminalKind \<Rightarrow> string" where
  "kind_str TK_provider = ''provider''"
| "kind_str TK_shell = ''shell''"

record TerminalRecord =
  tm_terminal_id :: string
  tm_run_id :: string
  tm_kind :: TerminalKind
  tm_handle :: string
  tm_worktree_path :: string
  tm_log_path :: string
  tm_running :: bool
  tm_created_at :: timestamp
  tm_updated_at :: timestamp

record lease_row =
  ls_resource_type :: string
  ls_resource_id :: string
  ls_lease_id :: string
  ls_owner_id :: string
  ls_expires_at :: timestamp

datatype driver_call =
    D_alive string
  | D_start string string string
  | D_capture string
  | D_input string string
  | D_resize string int int
  | D_stop string

record TerminalDriver =
  dr_alive :: "driver_call list \<Rightarrow> string \<Rightarrow> bool"
  dr_start :: "driver_call list \<Rightarrow> string \<Rightarrow> bool result"
  dr_capture :: "driver_call list \<Rightarrow> string \<Rightarrow> string"
  dr_refuses :: "driver_call list \<Rightarrow> driver_call \<Rightarrow> orc_error option"
  dr_worktree :: "string \<Rightarrow> string option"
  dr_provider_log :: "string \<Rightarrow> string"
  dr_shell_log :: "string \<Rightarrow> string"
  dr_log :: "driver_call list \<Rightarrow> string \<Rightarrow> string option"

record broker =
  bk_db :: runtime_db
  bk_terminals :: "TerminalRecord list"
  bk_leases :: "lease_row list"
  bk_calls :: "driver_call list"

type_synonym 'a broker_op = "broker \<Rightarrow> 'a result \<times> broker"

fun bbind :: "'a broker_op \<Rightarrow> ('a \<Rightarrow> 'b broker_op) \<Rightarrow> 'b broker_op" where
  "bbind m k b = (case m b of (Inl err, b1) \<Rightarrow> (Inl err, b1) | (Inr x, b1) \<Rightarrow> k x b1)"

definition bguard :: "bool \<Rightarrow> string \<Rightarrow> string \<Rightarrow> unit broker_op" where
  "bguard ok code msg b = (if ok then Inr () else Inl (ControlError code msg), b)"

definition brefuse :: "orc_error \<Rightarrow> 'a broker_op" where
  "brefuse err b = (Inl err, b)"

definition bask :: "(broker \<Rightarrow> 'a) \<Rightarrow> 'a broker_op" where
  "bask f b = (Inr (f b), b)"

definition bwrite :: "(broker \<Rightarrow> broker) \<Rightarrow> unit broker_op" where
  "bwrite f b = (Inr (), f b)"

definition driver_alive :: "TerminalDriver \<Rightarrow> string \<Rightarrow> bool broker_op" where
  "driver_alive dr h b = (Inr (dr_alive dr (bk_calls b) h), b\<lparr>bk_calls := bk_calls b @ [D_alive h]\<rparr>)"

text \<open>A call that writes to the terminal; the driver may throw.\<close>

definition driver_write :: "TerminalDriver \<Rightarrow> driver_call \<Rightarrow> unit broker_op" where
  "driver_write dr c b =
     (case dr_refuses dr (bk_calls b) c of Some err \<Rightarrow> Inl err | None \<Rightarrow> Inr (), b\<lparr>bk_calls := bk_calls b @ [c]\<rparr>)"

section \<open>Leases\<close>

definition lease_of :: "string \<Rightarrow> lease_row list \<Rightarrow> lease_row option" where
  "lease_of resource ls = List.find (\<lambda>l. ls_resource_type l = ''terminal'' \<and> ls_resource_id l = resource) ls"

definition unexpired :: "env \<Rightarrow> lease_row \<Rightarrow> bool" where
  "unexpired e l \<longleftrightarrow> (case getTime (ls_expires_at l) of None \<Rightarrow> False | Some x \<Rightarrow> clock e < x)"

text \<open>
  \<^verbatim>\<open>INSERT INTO control_leases ... ON CONFLICT (resource_type, resource_id) DO UPDATE\<close>, with the constraint
  that lease identifiers are unique.
\<close>

definition put_lease :: "string \<Rightarrow> string \<Rightarrow> string \<Rightarrow> timestamp \<Rightarrow> unit broker_op" where
  "put_lease resource leaseId owner expires b =
     (let mine = (\<lambda>l. ls_resource_type l = ''terminal'' \<and> ls_resource_id l = resource); ls = bk_leases b in
      if \<exists>l \<in> set ls. ls_lease_id l = leaseId \<and> \<not> mine l
      then (Inl (SqliteError ''UNIQUE constraint failed: control_leases.lease_id''), b)
      else (Inr (), b\<lparr>bk_leases :=
        (if \<exists>l \<in> set ls. mine l
         then update_where mine (\<lambda>l. l\<lparr>ls_lease_id := leaseId, ls_owner_id := owner, ls_expires_at := expires\<rparr>) ls
         else ls @ [\<lparr>ls_resource_type = ''terminal'', ls_resource_id = resource, ls_lease_id = leaseId, ls_owner_id = owner,
                     ls_expires_at = expires\<rparr>])\<rparr>))"

definition drop_leases :: "(lease_row \<Rightarrow> bool) \<Rightarrow> broker \<Rightarrow> broker" where
  "drop_leases P b = b\<lparr>bk_leases := filter (\<lambda>l. \<not> (ls_resource_type l = ''terminal'' \<and> P l)) (bk_leases b)\<rparr>"

section \<open>Terminals\<close>

definition run_active :: "string \<Rightarrow> runtime_db \<Rightarrow> bool" where
  "run_active runId db \<longleftrightarrow>
     (case List.find (\<lambda>r. rn_run_id r = runId) (db_runs db) of None \<Rightarrow> False | Some r \<Rightarrow> active_state (rn_state r))"

definition terminal_row :: "string \<Rightarrow> TerminalRecord broker_op" where
  "terminal_row terminalId b =
     (case List.find (\<lambda>t. tm_terminal_id t = terminalId) (bk_terminals b) of
        None \<Rightarrow> (Inl (ControlError ''not_found'' (''Terminal '' @ terminalId @ '' not found'')), b)
      | Some t \<Rightarrow> (Inr t, b))"

definition isCurrent :: "string \<Rightarrow> TerminalKind \<Rightarrow> string \<Rightarrow> runtime_db \<Rightarrow> bool" where
  "isCurrent runId kind handle db \<longleftrightarrow>
     run_active runId db \<and>
     (kind = TK_shell \<or>
      (let agentId = (if starts_with ''tmux:'' handle then drop 5 handle else []) in
       agentId \<noteq> [] \<and>
       (case List.find (\<lambda>s. ss_agent_id s = agentId) (rev (db_sessions db)) of
          None \<Rightarrow> False
        | Some s \<Rightarrow> ss_run_id s = Some runId \<and> ss_state s = SS_running \<and> ss_transport s = Some ''tmux'')))"

definition current_terminal :: "TerminalRecord \<Rightarrow> runtime_db \<Rightarrow> bool" where
  "current_terminal t = isCurrent (tm_run_id t) (tm_kind t) (tm_handle t)"

definition available :: "TerminalDriver \<Rightarrow> TerminalRecord \<Rightarrow> bool broker_op" where
  "available dr t b =
     (if tm_running t \<and> current_terminal t (bk_db b) then driver_alive dr (tm_handle t) b else (Inr False, b))"

definition markOffline :: "env \<Rightarrow> string \<Rightarrow> broker \<Rightarrow> broker" where
  "markOffline e terminalId b =
     drop_leases (\<lambda>l. ls_resource_id l = terminalId)
       (b\<lparr>bk_terminals := update_where (\<lambda>t. tm_terminal_id t = terminalId)
            (\<lambda>t. t\<lparr>tm_running := False, tm_updated_at := now_ts e\<rparr>) (bk_terminals b)\<rparr>)"

definition worktree_of :: "TerminalDriver \<Rightarrow> string \<Rightarrow> string broker_op" where
  "worktree_of dr runId b =
     (case dr_worktree dr runId of
        None \<Rightarrow> (Inl (ControlError ''not_found'' (''No assigned worktree for run '' @ runId)), b)
      | Some path \<Rightarrow> (Inr path, b))"

definition save_row :: "env \<Rightarrow> string \<Rightarrow> TerminalKind \<Rightarrow> string \<Rightarrow> string \<Rightarrow> string \<Rightarrow> TerminalRecord list \<Rightarrow> TerminalRecord list" where
  "save_row e runId kind handle path logPath ts =
     (let i = kind_str kind @ '':'' @ runId in
      if i \<in> set (map tm_terminal_id ts)
      then update_where (\<lambda>t. tm_terminal_id t = i)
             (\<lambda>t. t\<lparr>tm_handle := handle, tm_worktree_path := path, tm_log_path := logPath, tm_running := True,
                    tm_updated_at := now_ts e\<rparr>) ts
      else ts @ [\<lparr>tm_terminal_id = i, tm_run_id = runId, tm_kind = kind, tm_handle = handle, tm_worktree_path = path,
                  tm_log_path = logPath, tm_running = True, tm_created_at = now_ts e, tm_updated_at = now_ts e\<rparr>])"

definition save_txn :: "env \<Rightarrow> string \<Rightarrow> TerminalKind \<Rightarrow> string \<Rightarrow> string \<Rightarrow> string \<Rightarrow> TerminalRecord broker_op" where
  "save_txn e runId kind handle path logPath =
     bbind (bask (\<lambda>b. bk_db b)) (\<lambda>db.
     bbind (bguard (run_active runId db) ''conflict'' ''Run is not active'') (\<lambda>_.
     bbind (bguard (kind = TK_provider \<longrightarrow> isCurrent runId kind handle db) ''conflict'' ''Provider session no longer belongs to this run'') (\<lambda>_.
     bbind (bwrite (\<lambda>b. b\<lparr>bk_terminals := save_row e runId kind handle path logPath (bk_terminals b)\<rparr>)) (\<lambda>_.
       terminal_row (kind_str kind @ '':'' @ runId)))))"

definition save_terminal :: "env \<Rightarrow> TerminalDriver \<Rightarrow> string \<Rightarrow> TerminalKind \<Rightarrow> string \<Rightarrow> string \<Rightarrow> TerminalRecord broker_op" where
  "save_terminal e dr runId kind handle logPath =
     bbind (worktree_of dr runId) (\<lambda>path. save_txn e runId kind handle path logPath)"

section \<open>Opening and observing\<close>

definition open_provider :: "env \<Rightarrow> TerminalDriver \<Rightarrow> string \<Rightarrow> TerminalRecord broker_op" where
  "open_provider e dr runId =
     bbind (bask bk_db) (\<lambda>db.
       (case List.find (\<lambda>s. ss_run_id s = Some runId \<and> ss_state s = SS_running) (rev (db_sessions db)) of
          None \<Rightarrow> brefuse (ControlError ''conflict'' ''Run has no tmux provider terminal'')
        | Some s \<Rightarrow>
            (let handle = ''tmux:'' @ ss_agent_id s in
             bbind (bguard (ss_transport s = Some ''tmux'') ''conflict'' ''Run has no tmux provider terminal'') (\<lambda>_.
             bbind (bguard (isCurrent runId TK_provider handle db) ''conflict'' ''Provider session no longer belongs to this run'') (\<lambda>_.
             bbind (driver_alive dr handle) (\<lambda>alive.
             bbind (bguard alive ''unavailable'' ''Provider terminal is not running'') (\<lambda>_.
               save_terminal e dr runId TK_provider handle (dr_provider_log dr (ss_agent_id s)))))))))"

definition start_shell :: "TerminalDriver \<Rightarrow> string \<Rightarrow> string \<Rightarrow> string \<Rightarrow> bool broker_op" where
  "start_shell dr handle path logPath b =
     (dr_start dr (bk_calls b) handle, b\<lparr>bk_calls := bk_calls b @ [D_start handle path logPath]\<rparr>)"

text \<open>\<^verbatim>\<open>driver.stop\<close> never throws.\<close>

definition stop_terminal :: "string \<Rightarrow> broker \<Rightarrow> broker" where
  "stop_terminal handle b = b\<lparr>bk_calls := bk_calls b @ [D_stop handle]\<rparr>"

definition save_shell :: "env \<Rightarrow> TerminalDriver \<Rightarrow> string \<Rightarrow> string \<Rightarrow> string \<Rightarrow> bool \<Rightarrow> TerminalRecord broker_op" where
  "save_shell e dr runId handle logPath started b =
     (case save_terminal e dr runId TK_shell handle logPath b of
        (Inl err, b1) \<Rightarrow> (Inl err, if started then stop_terminal handle b1 else b1)
      | (Inr t, b1) \<Rightarrow> (Inr t, b1))"

definition open_shell :: "env \<Rightarrow> TerminalDriver \<Rightarrow> string \<Rightarrow> TerminalRecord broker_op" where
  "open_shell e dr runId =
     bbind (worktree_of dr runId) (\<lambda>path.
       (let handle = ''shell:'' @ runId; logPath = dr_shell_log dr runId in
        bbind (bask bk_db) (\<lambda>db.
        bbind (bguard (run_active runId db) ''conflict'' ''Run is not active'') (\<lambda>_.
        bbind (driver_alive dr handle) (\<lambda>alive.
        bbind (bwrite (\<lambda>b. if alive then b else markOffline e (''shell:'' @ runId) b)) (\<lambda>_.
        bbind (start_shell dr handle path logPath) (\<lambda>started.
        bbind (driver_alive dr handle) (\<lambda>alive2.
        bbind (bguard alive2 ''unavailable'' ''Worktree shell did not start'') (\<lambda>_.
          save_shell e dr runId handle logPath started)))))))))"

definition MAX_READ_BYTES :: nat where "MAX_READ_BYTES = 64 * 1024"

text \<open>The part of the log behind the cursor, and the next cursor.\<close>

definition read_log :: "string option \<Rightarrow> nat \<Rightarrow> string \<times> nat" where
  "read_log log after =
     (case log of
        None \<Rightarrow> ([], after)
      | Some text \<Rightarrow>
          (let start = min after (length text); n = min (length text - start) MAX_READ_BYTES in
           (take n (drop start text), start + n)))"

record Observation =
  ob_terminal :: TerminalRecord
  ob_screen :: string
  ob_output :: string
  ob_cursor :: nat

definition driver_capture :: "TerminalDriver \<Rightarrow> string \<Rightarrow> string broker_op" where
  "driver_capture dr h b = (Inr (dr_capture dr (bk_calls b) h), b\<lparr>bk_calls := bk_calls b @ [D_capture h]\<rparr>)"

definition terminal_observe :: "env \<Rightarrow> TerminalDriver \<Rightarrow> string \<Rightarrow> int \<Rightarrow> Observation broker_op" where
  "terminal_observe e dr terminalId after =
     bbind (bguard (0 \<le> after \<and> after \<le> 2 ^ 53 - 1) ''bad_request'' ''after must be a non-negative integer'') (\<lambda>_.
     bbind (terminal_row terminalId) (\<lambda>t0.
     bbind (available dr t0) (\<lambda>ok.
     bbind (bwrite (\<lambda>b. if \<not> ok \<and> tm_running t0 then markOffline e terminalId b else b)) (\<lambda>_.
       (let t = (if ok then t0 else t0\<lparr>tm_running := False\<rparr>) in
        bbind (bask (\<lambda>b. read_log (dr_log dr (bk_calls b) (tm_log_path t)) (nat after))) (\<lambda>(output, cursor).
        bbind (if tm_running t then driver_capture dr (tm_handle t) else bask (\<lambda>_. [])) (\<lambda>screen.
          bask (\<lambda>_. \<lparr>ob_terminal = t, ob_screen = screen, ob_output = output, ob_cursor = cursor\<rparr>))))))))"

section \<open>The writer lease\<close>

definition TERMINAL_LEASE_MS :: int where "TERMINAL_LEASE_MS = 30000"

text \<open>The transaction of \<^verbatim>\<open>acquire\<close>; the lease identifier is random.\<close>

definition acquire_txn :: "env \<Rightarrow> string \<Rightarrow> string \<Rightarrow> TerminalRecord \<Rightarrow> string \<Rightarrow> int \<Rightarrow> (string \<times> timestamp) broker_op" where
  "acquire_txn e leaseId terminalId t ownerId ttlMs =
     bbind (bask id) (\<lambda>b.
     bbind (bguard (current_terminal t (bk_db b)) ''unavailable'' ''Terminal run is no longer active'') (\<lambda>_.
     bbind (bguard (case lease_of terminalId (bk_leases b) of None \<Rightarrow> True | Some l \<Rightarrow> \<not> unexpired e l)
              ''conflict'' ''Terminal already has a writer'') (\<lambda>_.
     bbind (put_lease terminalId leaseId ownerId (Ts (clock e + ttlMs))) (\<lambda>_.
       bask (\<lambda>_. (leaseId, Ts (clock e + ttlMs)))))))"

text \<open>What every use of a lease begins with: the terminal, or a refusal that marks it offline.\<close>

definition usable_terminal :: "env \<Rightarrow> TerminalDriver \<Rightarrow> string \<Rightarrow> TerminalRecord broker_op" where
  "usable_terminal e dr terminalId =
     bbind (terminal_row terminalId) (\<lambda>t.
     bbind (available dr t) (\<lambda>ok.
     bbind (bwrite (\<lambda>b. if ok then b else markOffline e terminalId b)) (\<lambda>_.
     bbind (bguard ok ''unavailable'' ''Terminal is not running'') (\<lambda>_. bask (\<lambda>_. t)))))"

definition acquire_lease ::
  "env \<Rightarrow> TerminalDriver \<Rightarrow> (broker \<Rightarrow> broker) \<Rightarrow> string \<Rightarrow> string \<Rightarrow> string \<Rightarrow> int \<Rightarrow> (string \<times> timestamp) broker_op" where
  "acquire_lease e dr oth leaseId terminalId ownerId ttlMs =
     bbind (bguard (ownerId \<noteq> [] \<and> length ownerId \<le> 200) ''bad_request'' ''owner_id is required'') (\<lambda>_.
     bbind (bguard (1000 \<le> ttlMs \<and> ttlMs \<le> 120000) ''bad_request'' ''ttl_ms must be 1000-120000'') (\<lambda>_.
     bbind (usable_terminal e dr terminalId) (\<lambda>t.
     bbind (bwrite oth) (\<lambda>_. acquire_txn e leaseId terminalId t ownerId ttlMs))))"

text \<open>
  The transaction of \<^verbatim>\<open>withLease\<close>. An action that throws rolls the transaction back, but not what the driver has
  done; one that succeeds renews the lease.
\<close>

definition lease_txn :: "env \<Rightarrow> string \<Rightarrow> TerminalRecord \<Rightarrow> string \<Rightarrow> (TerminalRecord \<Rightarrow> unit broker_op) \<Rightarrow> unit broker_op" where
  "lease_txn e terminalId t leaseId action =
     bbind (bask id) (\<lambda>b.
     bbind (bguard (current_terminal t (bk_db b)) ''unavailable'' ''Terminal run is no longer active'') (\<lambda>_.
     bbind (bguard (case lease_of terminalId (bk_leases b) of None \<Rightarrow> False | Some l \<Rightarrow> ls_lease_id l = leaseId \<and> unexpired e l)
              ''forbidden'' ''Valid terminal writer lease required'') (\<lambda>_.
     bbind (action t) (\<lambda>_.
       bwrite (\<lambda>b. b\<lparr>bk_leases := update_where (\<lambda>l. ls_resource_type l = ''terminal'' \<and> ls_resource_id l = terminalId)
         (\<lambda>l. l\<lparr>ls_expires_at := Ts (clock e + TERMINAL_LEASE_MS)\<rparr>) (bk_leases b)\<rparr>)))))"

definition withLease ::
  "env \<Rightarrow> TerminalDriver \<Rightarrow> (broker \<Rightarrow> broker) \<Rightarrow> string \<Rightarrow> string \<Rightarrow> (TerminalRecord \<Rightarrow> unit broker_op) \<Rightarrow> unit broker_op" where
  "withLease e dr oth terminalId leaseId action =
     bbind (usable_terminal e dr terminalId) (\<lambda>t.
     bbind (bwrite oth) (\<lambda>_. lease_txn e terminalId t leaseId action))"

definition renew_lease :: "env \<Rightarrow> TerminalDriver \<Rightarrow> (broker \<Rightarrow> broker) \<Rightarrow> string \<Rightarrow> string \<Rightarrow> unit broker_op" where
  "renew_lease e dr oth terminalId leaseId = withLease e dr oth terminalId leaseId (\<lambda>_. bwrite id)"

definition terminal_input :: "env \<Rightarrow> TerminalDriver \<Rightarrow> (broker \<Rightarrow> broker) \<Rightarrow> string \<Rightarrow> string \<Rightarrow> string \<Rightarrow> unit broker_op" where
  "terminal_input e dr oth terminalId leaseId data =
     bbind (bguard (length data \<le> 8192) ''bad_request'' ''data must be at most 8192 characters'') (\<lambda>_.
       withLease e dr oth terminalId leaseId (\<lambda>t. driver_write dr (D_input (tm_handle t) data)))"

definition terminal_resize :: "env \<Rightarrow> TerminalDriver \<Rightarrow> (broker \<Rightarrow> broker) \<Rightarrow> string \<Rightarrow> string \<Rightarrow> int \<Rightarrow> int \<Rightarrow> unit broker_op" where
  "terminal_resize e dr oth terminalId leaseId columns rows =
     bbind (bguard (20 \<le> columns \<and> columns \<le> 500 \<and> 5 \<le> rows \<and> rows \<le> 200) ''bad_request'' ''Invalid terminal size'') (\<lambda>_.
       withLease e dr oth terminalId leaseId (\<lambda>t. driver_write dr (D_resize (tm_handle t) columns rows)))"

definition release_lease :: "string \<Rightarrow> string \<Rightarrow> unit broker_op" where
  "release_lease terminalId leaseId =
     bbind (terminal_row terminalId) (\<lambda>_.
     bbind (bask bk_leases) (\<lambda>ls.
     bbind (bwrite (drop_leases (\<lambda>l. ls_resource_id l = terminalId \<and> ls_lease_id l = leaseId))) (\<lambda>_.
       bguard (\<exists>l \<in> set ls. ls_resource_type l = ''terminal'' \<and> ls_resource_id l = terminalId \<and> ls_lease_id l = leaseId)
         ''forbidden'' ''Valid terminal writer lease required'')))"

text \<open>One terminal of \<^verbatim>\<open>reconcile\<close>: a shell whose run ended is stopped, one that is gone is marked.\<close>

definition reconcile_terminal :: "env \<Rightarrow> TerminalDriver \<Rightarrow> TerminalRecord \<Rightarrow> bool \<Rightarrow> unit broker_op" where
  "reconcile_terminal e dr t active =
     bbind (if tm_kind t = TK_shell \<and> \<not> active then driver_alive dr (tm_handle t) else bask (\<lambda>_. False)) (\<lambda>stop.
     bbind (bwrite (\<lambda>b. if stop then stop_terminal (tm_handle t) b else b)) (\<lambda>_.
     bbind (available dr t) (\<lambda>ok.
       bwrite (\<lambda>b. if ok then b else markOffline e (tm_terminal_id t) b))))"

fun reconcile_all :: "env \<Rightarrow> TerminalDriver \<Rightarrow> (TerminalRecord \<times> bool) list \<Rightarrow> unit broker_op" where
  "reconcile_all e dr [] = bwrite (drop_leases (\<lambda>l. ts_le (ls_expires_at l) (now_ts e)))"
| "reconcile_all e dr ((t, active) # ts) = bbind (reconcile_terminal e dr t active) (\<lambda>_. reconcile_all e dr ts)"

definition reconcile_terminals :: "env \<Rightarrow> TerminalDriver \<Rightarrow> unit broker_op" where
  "reconcile_terminals e dr =
     bbind (bask id) (\<lambda>b.
       reconcile_all e dr (map (\<lambda>t. (t, run_active (tm_run_id t) (bk_db b))) (filter tm_running (bk_terminals b))))"

section \<open>The coordinator's messages (adapters/tmux.ts)\<close>

definition claimSendLease :: "env \<Rightarrow> string \<Rightarrow> string \<Rightarrow> string \<Rightarrow> (string \<times> string) option broker_op" where
  "claimSendLease e leaseId owner agentId =
     bbind (bask id) (\<lambda>b.
       (case List.find (\<lambda>s. ss_agent_id s = agentId \<and> ss_state s = SS_running \<and> ss_transport s = Some ''tmux'') (rev (db_sessions (bk_db b))) of
          None \<Rightarrow> bask (\<lambda>_. None)
        | Some s \<Rightarrow>
            (if falsy (ss_run_id s) then bask (\<lambda>_. None)
             else
               (let resource = ''provider:'' @ the (ss_run_id s) in
                if (case lease_of resource (bk_leases b) of None \<Rightarrow> False | Some l \<Rightarrow> unexpired e l)
                then brefuse (PlainError ''Terminal already has a writer'')
                else bbind (put_lease resource leaseId owner (Ts (clock e + 30000))) (\<lambda>_. bask (\<lambda>_. Some (resource, leaseId)))))))"

text \<open>The lease is given back whatever the send did; \<open>None\<close> is a session that no run is known for.\<close>

definition releaseSendLease :: "(string \<times> string) option \<Rightarrow> broker \<Rightarrow> broker" where
  "releaseSendLease lease b =
     (case lease of None \<Rightarrow> b
      | Some (resource, leaseId) \<Rightarrow> drop_leases (\<lambda>l. ls_resource_id l = resource \<and> ls_lease_id l = leaseId) b)"

definition tmux_send :: "env \<Rightarrow> TerminalDriver \<Rightarrow> string \<Rightarrow> string \<Rightarrow> string \<Rightarrow> string \<Rightarrow> unit broker_op" where
  "tmux_send e dr leaseId owner agentId text =
     bbind (driver_alive dr (''tmux:'' @ agentId)) (\<lambda>alive.
     bbind (if alive then bwrite id else brefuse (PlainError (''No live tmux session for agent '' @ single_quoted agentId))) (\<lambda>_.
     bbind (claimSendLease e leaseId owner agentId) (\<lambda>lease b.
       (case bbind (driver_write dr (D_input (''tmux:'' @ agentId) text))
               (\<lambda>_. driver_write dr (D_input (''tmux:'' @ agentId) [CHR 0x0D])) b of
          (r, b1) \<Rightarrow> (r, releaseSendLease lease b1)))))"

section \<open>Keys and text of an input\<close>

text \<open>
  \<^verbatim>\<open>terminalInputTokens\<close> cuts an input at its control characters and escape sequences: a control sequence
  (\<^verbatim>\<open>\\x1b\\[[0-9;?]*[ -/]*[@-~]\<close>), a function key (\<^verbatim>\<open>\\x1bO[A-Za-z]\<close>), an escaped character or a single control
  character. The three character classes of a control sequence are disjoint, so that it needs no backtracking.
\<close>

definition is_control :: "char \<Rightarrow> bool" where
  "is_control c \<longleftrightarrow> char_code c \<le> 31 \<or> char_code c = 127"

definition csi_param :: "char \<Rightarrow> bool" where
  "csi_param c \<longleftrightarrow> is_digit c \<or> c = CHR '';'' \<or> c = CHR ''?''"

definition between :: "nat \<Rightarrow> nat \<Rightarrow> char \<Rightarrow> bool" where
  "between lo hi c \<longleftrightarrow> lo \<le> char_code c \<and> char_code c \<le> hi"

definition csi_length :: "string \<Rightarrow> nat" where
  "csi_length s =
     (let ps = takeWhile csi_param s; is = takeWhile (between 32 47) (drop (length ps) s);
          rest = drop (length ps + length is) s in
      (case rest of [] \<Rightarrow> 0 | c # _ \<Rightarrow> if between 64 126 c then length ps + length is + 1 else 0))"

text \<open>The length of the match at a control character; the alternatives in their order.\<close>

definition sequence_length :: "string \<Rightarrow> nat" where
  "sequence_length s =
     (case s of
        c1 # c2 # cs \<Rightarrow>
          if c1 \<noteq> CHR 0x1B then 1
          else if c2 = CHR ''['' \<and> csi_length cs > 0 then 2 + csi_length cs
          else if c2 = CHR ''O'' \<and> (case cs of [] \<Rightarrow> False | c3 # _ \<Rightarrow> between 65 90 c3 \<or> between 97 122 c3) then 3
          else if c2 \<noteq> CHR 0x0A \<and> c2 \<noteq> CHR 0x0D then 2 else 1
      | _ \<Rightarrow> 1)"

lemma sequence_length_pos: "0 < sequence_length s"
  by (simp add: sequence_length_def split: list.split)

function input_parts :: "string \<Rightarrow> string list" where
  "input_parts s =
     (if s = [] then []
      else if is_control (hd s) then take (sequence_length s) s # input_parts (drop (sequence_length s) s)
      else takeWhile (\<lambda>c. \<not> is_control c) s # input_parts (dropWhile (\<lambda>c. \<not> is_control c) s))"
  by pat_completeness auto
termination
proof (relation "measure length")
  fix s :: string
  assume "s \<noteq> []" "\<not> is_control (hd s)"
  then have "length (takeWhile (\<lambda>c. \<not> is_control c) s) > 0" by (cases s) auto
  moreover have "length s = length (takeWhile (\<lambda>c. \<not> is_control c) s) + length (dropWhile (\<lambda>c. \<not> is_control c) s)"
    by (metis length_append takeWhile_dropWhile_id)
  ultimately show "(dropWhile (\<lambda>c. \<not> is_control c) s, s) \<in> measure length" by simp
qed (use sequence_length_pos in auto)

declare input_parts.simps [simp del]

definition csi :: "string \<Rightarrow> string" where
  "csi s = CHR 0x1B # CHR ''['' # s"

definition SPECIAL_KEYS :: "(string \<times> string) list" where
  "SPECIAL_KEYS =
     [([CHR 0x0D], ''Enter''), ([CHR 0x0A], ''Enter''), ([CHR 0x09], ''Tab''), ([CHR 0x1B], ''Escape''), ([CHR 0x7F], ''BSpace''),
      (csi ''A'', ''Up''), (csi ''B'', ''Down''), (csi ''C'', ''Right''), (csi ''D'', ''Left''), (csi ''H'', ''Home''), (csi ''F'', ''End''),
      (csi ''2~'', ''Insert''), (csi ''3~'', ''Delete''), (csi ''5~'', ''PageUp''), (csi ''6~'', ''PageDown''),
      (CHR 0x1B # ''OP'', ''F1''), (CHR 0x1B # ''OQ'', ''F2''), (CHR 0x1B # ''OR'', ''F3''), (CHR 0x1B # ''OS'', ''F4''),
      (csi ''15~'', ''F5''), (csi ''17~'', ''F6''), (csi ''18~'', ''F7''), (csi ''19~'', ''F8''), (csi ''20~'', ''F9''),
      (csi ''21~'', ''F10''), (csi ''23~'', ''F11''), (csi ''24~'', ''F12'')]"

text \<open>
  \<^verbatim>\<open>special\<close> is an object literal, so that looking up the name of a property of \<^verbatim>\<open>Object.prototype\<close> finds that
  property: the part is then neither a key nor text, and sending it throws.
\<close>

definition OBJECT_PROPERTIES :: "string list" where
  "OBJECT_PROPERTIES =
     [''constructor'', ''hasOwnProperty'', ''isPrototypeOf'', ''propertyIsEnumerable'', ''toLocaleString'', ''toString'', ''valueOf'',
      ''__defineGetter__'', ''__defineSetter__'', ''__lookupGetter__'', ''__lookupSetter__'', ''__proto__'']"

datatype terminal_token = Key string | Text string | Inherited string

definition control_key :: "string \<Rightarrow> string option" where
  "control_key part =
     (case part of
        [c] \<Rightarrow>
          (let code = char_code c in
           if 1 \<le> code \<and> code \<le> 26 then Some (''C-'' @ [char_of (96 + code)])
           else if code = 0 then Some ''C-Space''
           else if code = 28 then Some (''C-'' @ [CHR 0x5C])
           else if code = 29 then Some ''C-]''
           else if code = 30 then Some ''C-^''
           else if code = 31 then Some ''C-_'' else None)
      | _ \<Rightarrow> None)"

definition input_token :: "string \<Rightarrow> terminal_token" where
  "input_token part =
     (case map_of SPECIAL_KEYS part of
        Some key \<Rightarrow> Key key
      | None \<Rightarrow>
          if part \<in> set OBJECT_PROPERTIES then Inherited part
          else (case control_key part of Some key \<Rightarrow> Key key | None \<Rightarrow> Text part))"

definition terminalInputTokens :: "string \<Rightarrow> terminal_token list" where
  "terminalInputTokens data = map input_token (input_parts data)"

end
