(* ===== verification/Terminals_Props.thy ===== *)
theory Terminals_Props
  imports Terminals
begin

text \<open>
  A terminal has one writer: while a writer lease is in force, nobody else is given one, and no other lease is accepted,
  neither for the input of an operator nor for a message of the coordinator.
\<close>

section \<open>A lease in force\<close>

definition holds_lease :: "string \<Rightarrow> string \<Rightarrow> int \<Rightarrow> broker \<Rightarrow> bool" where
  "holds_lease T L x b \<longleftrightarrow>
     (\<exists>l y. lease_of T (bk_leases b) = Some l \<and> ls_lease_id l = L \<and> getTime (ls_expires_at l) = Some y \<and> x \<le> y)"

lemma holds_lease_cong: "bk_leases b' = bk_leases b \<Longrightarrow> holds_lease T L x b' = holds_lease T L x b"
  by (simp add: holds_lease_def)

lemma lease_of_update:
  assumes "\<And>l. ls_resource_id (f l) = ls_resource_id l" "\<And>l. ls_resource_type (f l) = ls_resource_type l"
  shows "lease_of T (update_where (\<lambda>l. ls_resource_type l = ''terminal'' \<and> ls_resource_id l = T') f ls) =
    (if T = T' then map_option f (lease_of T ls) else lease_of T ls)"
  using assms unfolding lease_of_def by (induction ls) auto

lemma lease_of_append: "lease_of T (ls @ [l]) =
    (case lease_of T ls of Some x \<Rightarrow> Some x | None \<Rightarrow> if ls_resource_type l = ''terminal'' \<and> ls_resource_id l = T then Some l else None)"
  by (simp add: lease_of_def find_append split: option.split)

lemma lease_of_None: "lease_of T ls = None \<longleftrightarrow> (\<forall>l \<in> set ls. \<not> (ls_resource_type l = ''terminal'' \<and> ls_resource_id l = T))"
  by (auto simp: lease_of_def find_None_iff_set)

lemma lease_of_put:
  assumes "put_lease T' lid owner expires b = (Inr (), b')"
  shows "(T \<noteq> T' \<longrightarrow> lease_of T (bk_leases b') = lease_of T (bk_leases b)) \<and>
    (\<exists>l. lease_of T' (bk_leases b') = Some l \<and> ls_lease_id l = lid \<and> ls_expires_at l = expires)"
proof (cases "lease_of T' (bk_leases b)")
  case None
  then have no: "\<not> (\<exists>l \<in> set (bk_leases b). ls_resource_type l = ''terminal'' \<and> ls_resource_id l = T')" unfolding lease_of_None by blast
  with assms have "bk_leases b' = bk_leases b @ [\<lparr>ls_resource_type = ''terminal'', ls_resource_id = T', ls_lease_id = lid, ls_owner_id = owner, ls_expires_at = expires\<rparr>]"
    by (auto simp: put_lease_def Let_def split: if_splits)
  with None show ?thesis by (auto simp: lease_of_append split: option.split)
next
  case (Some l)
  then have "\<exists>l \<in> set (bk_leases b). ls_resource_type l = ''terminal'' \<and> ls_resource_id l = T'" using lease_of_None [of T' "bk_leases b"] by auto
  with assms have "bk_leases b' = update_where (\<lambda>l. ls_resource_type l = ''terminal'' \<and> ls_resource_id l = T')
      (\<lambda>l. l\<lparr>ls_lease_id := lid, ls_owner_id := owner, ls_expires_at := expires\<rparr>) (bk_leases b)"
    by (auto simp: put_lease_def Let_def split: if_splits)
  with Some show ?thesis by (simp add: lease_of_update)
qed

lemma find_filter: "List.find P ls = Some l \<Longrightarrow> Q l \<Longrightarrow> List.find P (filter Q ls) = Some l"
  by (induction ls) (auto split: if_splits)

lemma lease_of_drop:
  assumes "lease_of T (bk_leases b) = Some l" "\<not> P l"
  shows "lease_of T (bk_leases (drop_leases P b)) = Some l"
  using assms unfolding drop_leases_def lease_of_def by (simp add: find_filter)

section \<open>What others may do meanwhile\<close>

text \<open>
  A transaction of anybody else, before the lease \<open>L\<close> on \<open>T\<close> runs out at \<open>x\<close>: everything but using \<open>L\<close> itself, giving it
  back, and marking the terminal offline. \<open>elsewhere\<close> is whatever touches no lease.
\<close>

inductive others :: "int \<Rightarrow> string \<Rightarrow> string \<Rightarrow> broker \<Rightarrow> broker \<Rightarrow> bool" for x T L where
  acquire: "clock e < x \<Longrightarrow> others x T L b (snd (acquire_txn e lid T' t owner ttl b))"
| use: "clock e < x \<Longrightarrow> (T', lid) \<noteq> (T, L) \<Longrightarrow> (\<And>b. bk_leases (snd (action t b)) = bk_leases b) \<Longrightarrow>
    others x T L b (snd (lease_txn e T' t lid action b))"
| release: "(T', lid) \<noteq> (T, L) \<Longrightarrow> others x T L b (snd (release_lease T' lid b))"
| offline: "T' \<noteq> T \<Longrightarrow> others x T L b (markOffline e T' b)"
| sweep: "clock e < x \<Longrightarrow> others x T L b (drop_leases (\<lambda>l. ts_le (ls_expires_at l) (now_ts e)) b)"
| send: "clock e < x \<Longrightarrow> others x T L b (snd (claimSendLease e lid owner agentId b))"
| sent: "lease \<noteq> Some (T, L) \<Longrightarrow> others x T L b (releaseSendLease lease b)"
| elsewhere: "bk_leases b' = bk_leases b \<Longrightarrow> others x T L b b'"

lemmas broker_defs = bguard_def bask_def bwrite_def brefuse_def

lemma held_unexpired:
  assumes "holds_lease T L x b" "clock e < x"
  shows "\<exists>l. lease_of T (bk_leases b) = Some l \<and> ls_lease_id l = L \<and> unexpired e l"
  using assms by (auto simp: holds_lease_def unexpired_def)

lemma acquire_refused:
  assumes "holds_lease T L x b" "clock e < x"
  shows "\<exists>err. acquire_txn e lid T t owner ttl b = (Inl err, b)"
  using held_unexpired [OF assms] by (auto simp: acquire_txn_def broker_defs)

lemma use_refused:
  assumes "holds_lease T L x b" "lid \<noteq> L"
  shows "\<exists>err. lease_txn e T t lid action b = (Inl err, b)"
  using assms by (auto simp: lease_txn_def broker_defs holds_lease_def)

lemma send_refused:
  assumes "holds_lease T L x b" "clock e < x"
  shows "fst (claimSendLease e lid owner agentId b) \<noteq> Inr (Some (T, lid))"
  using held_unexpired [OF assms]
  by (auto simp: claimSendLease_def broker_defs Let_def split: option.splits sum.splits prod.splits)

lemma put_elsewhere: "T \<noteq> T' \<Longrightarrow> lease_of T (bk_leases (snd (put_lease T' lid owner expires b))) = lease_of T (bk_leases b)"
proof (cases "put_lease T' lid owner expires b")
  case (Pair r b')
  assume T: "T \<noteq> T'"
  show ?thesis
  proof (cases r)
    case (Inl err)
    with Pair show ?thesis by (auto simp: put_lease_def Let_def split: if_splits)
  next
    case (Inr u)
    with Pair lease_of_put [of T' lid owner expires b b' T] T show ?thesis by simp
  qed
qed

lemma put_then: "snd (bbind (put_lease T' lid owner expires) (\<lambda>_. bask f) b) = snd (put_lease T' lid owner expires b)"
  by (cases "put_lease T' lid owner expires b"; cases "fst (put_lease T' lid owner expires b)") (auto simp: bask_def)

lemma acquire_keeps:
  assumes "holds_lease T L x b" "clock e < x"
  shows "holds_lease T L x (snd (acquire_txn e lid T' t owner ttl b))"
proof (cases "T' = T")
  case True
  with acquire_refused [OF assms] assms(1) show ?thesis by (metis snd_conv)
next
  case False
  have "snd (acquire_txn e lid T' t owner ttl b) \<in> {b, snd (put_lease T' lid owner (Ts (clock e + ttl)) b)}"
    using put_then [of T' lid owner "Ts (clock e + ttl)" "\<lambda>_. (lid, Ts (clock e + ttl))" b]
    unfolding acquire_txn_def by (simp add: bguard_def bask_def [where f = id])
  with put_elsewhere [of T T'] False assms(1) show ?thesis by (auto simp: holds_lease_def)
qed

lemma lease_of_expiry:
  "T \<noteq> T' \<Longrightarrow> lease_of T (update_where (\<lambda>l. ls_resource_type l = ''terminal'' \<and> ls_resource_id l = T') (\<lambda>l. l\<lparr>ls_expires_at := y\<rparr>) ls) = lease_of T ls"
  by (simp add: lease_of_update)

lemma use_keeps:
  assumes "holds_lease T L x b" "clock e < x" "(T', lid) \<noteq> (T, L)" "\<And>b. bk_leases (snd (action t b)) = bk_leases b"
  shows "holds_lease T L x (snd (lease_txn e T' t lid action b))"
proof (cases "T' = T")
  case True
  with use_refused [OF assms(1)] assms(1,3) show ?thesis by (metis snd_conv)
next
  case False
  obtain r b1 where a: "action t b = (r, b1)" by (cases "action t b")
  with assms(4) [of b] have "bk_leases b1 = bk_leases b" by simp
  with a False have "lease_of T (bk_leases (snd (lease_txn e T' t lid action b))) = lease_of T (bk_leases b)"
    unfolding lease_txn_def by (cases r) (auto simp: broker_defs lease_of_expiry split: option.split)
  with assms(1) show ?thesis by (simp add: holds_lease_def)
qed

lemma drop_keeps: "holds_lease T L x b \<Longrightarrow> (\<And>l. lease_of T (bk_leases b) = Some l \<Longrightarrow> \<not> P l) \<Longrightarrow> holds_lease T L x (drop_leases P b)"
  using lease_of_drop [of T b _ P] by (auto simp: holds_lease_def)

lemma lease_of_id: "lease_of T ls = Some l \<Longrightarrow> ls_resource_id l = T"
  unfolding lease_of_def by (drule find_in_set) simp

lemma release_keeps:
  assumes "holds_lease T L x b" "(T', lid) \<noteq> (T, L)"
  shows "holds_lease T L x (snd (release_lease T' lid b))"
proof -
  have d: "holds_lease T L x (drop_leases (\<lambda>l. ls_resource_id l = T' \<and> ls_lease_id l = lid) b)"
    by (rule drop_keeps [OF assms(1)]) (use assms in \<open>auto simp: holds_lease_def dest: lease_of_id\<close>)
  show ?thesis using d assms(1)
    by (auto simp: release_lease_def terminal_row_def broker_defs split: option.split)
qed

lemma offline_keeps:
  assumes "holds_lease T L x b" "T' \<noteq> T"
  shows "holds_lease T L x (markOffline e T' b)"
  unfolding markOffline_def
  by (rule drop_keeps) (use assms in \<open>auto simp: holds_lease_def dest: lease_of_id\<close>)

lemma sweep_keeps:
  assumes "holds_lease T L x b" "clock e < x"
  shows "holds_lease T L x (drop_leases (\<lambda>l. ts_le (ls_expires_at l) (now_ts e)) b)"
proof (rule drop_keeps [OF assms(1)])
  fix l assume "lease_of T (bk_leases b) = Some l"
  with assms obtain y where "getTime (ls_expires_at l) = Some y" "clock e < y" by (auto simp: holds_lease_def)
  then show "\<not> ts_le (ls_expires_at l) (now_ts e)" by (cases "ls_expires_at l") (simp_all add: now_ts_def)
qed

lemma send_keeps:
  assumes "holds_lease T L x b" "clock e < x"
  shows "holds_lease T L x (snd (claimSendLease e lid owner agentId b))"
proof (cases "List.find (\<lambda>s. ss_agent_id s = agentId \<and> ss_state s = SS_running \<and> ss_transport s = Some ''tmux'') (rev (db_sessions (bk_db b)))")
  case None
  with assms(1) show ?thesis by (simp add: claimSendLease_def bask_def)
next
  case (Some s)
  let ?T = "''provider:'' @ the (ss_run_id s)"
  have send: "claimSendLease e lid owner agentId b =
      (if falsy (ss_run_id s) then bask (\<lambda>_. None)
       else if (case lease_of ?T (bk_leases b) of None \<Rightarrow> False | Some l \<Rightarrow> unexpired e l) then brefuse (PlainError ''Terminal already has a writer'')
       else bbind (put_lease ?T lid owner (Ts (clock e + 30000))) (\<lambda>_. bask (\<lambda>_. Some (?T, lid)))) b"
    using Some by (simp add: claimSendLease_def bask_def [where f = id] Let_def)
  show ?thesis
  proof (cases "falsy (ss_run_id s) \<or> (case lease_of ?T (bk_leases b) of None \<Rightarrow> False | Some l \<Rightarrow> unexpired e l)")
    case True
    then have "snd (claimSendLease e lid owner agentId b) = b" unfolding send by (auto simp: broker_defs)
    with assms(1) show ?thesis by simp
  next
    case False
    then have "snd (claimSendLease e lid owner agentId b) = snd (put_lease ?T lid owner (Ts (clock e + 30000)) b)"
      unfolding send using put_then by (simp del: bbind.simps)
    moreover have "T \<noteq> ?T" using False held_unexpired [OF assms] by auto
    ultimately show ?thesis using put_elsewhere assms(1) by (simp add: holds_lease_def)
  qed
qed

lemma others_keep: "others x T L b b' \<Longrightarrow> holds_lease T L x b \<Longrightarrow> holds_lease T L x b'"
proof (induction rule: others.induct)
  case (sent lease b)
  then show ?case
  proof (cases lease)
    case (Some p)
    obtain T' lid where p: "p = (T', lid)" by (cases p)
    have "holds_lease T L x (drop_leases (\<lambda>l. ls_resource_id l = T' \<and> ls_lease_id l = lid) b)"
      by (rule drop_keeps [OF sent.prems]) (use sent Some p in \<open>auto simp: holds_lease_def dest: lease_of_id\<close>)
    with Some p show ?thesis by (simp add: releaseSendLease_def)
  qed (simp add: releaseSendLease_def)
next
  case (acquire e b lid T' t owner ttl)
  from acquire_keeps [OF acquire.prems acquire.hyps] show ?case .
next
  case (use e T' lid action t b)
  show ?case by (rule use_keeps [OF use.prems use.hyps(1,2)]) (rule use.hyps(3))
next
  case (release T' lid b)
  from release_keeps [OF release.prems release.hyps] show ?case .
next
  case (offline T' b e)
  from offline_keeps [OF offline.prems offline.hyps] show ?case .
next
  case (sweep e b)
  from sweep_keeps [OF sweep.prems sweep.hyps] show ?case .
next
  case (send e b lid owner agentId)
  from send_keeps [OF send.prems send.hyps] show ?case .
next
  case (elsewhere b' b)
  with holds_lease_cong [of b' b T L x] show ?case by simp
qed

text \<open>
  C21. A terminal has one writer. Once a writer lease on a terminal is in force, then until it runs out, is given back or the
  terminal is marked offline, and whatever anybody else does with the leases, terminals, sessions and runs: it
  stays in force; nobody else is given a lease on the terminal; no other lease is accepted, so that no input of its holder reaches the
  terminal, not even if it was checked before; and the coordinator is not given the terminal for a message.
\<close>

theorem terminal_has_one_writer:
  assumes "holds_lease T L x b" "(others x T L)\<^sup>*\<^sup>* b b'" "clock e < x"
  shows "holds_lease T L x b' \<and>
    (\<forall>lid t owner ttl. \<exists>err. acquire_txn e lid T t owner ttl b' = (Inl err, b')) \<and>
    (\<forall>lid t action. lid \<noteq> L \<longrightarrow> (\<exists>err. lease_txn e T t lid action b' = (Inl err, b'))) \<and>
    (\<forall>lid owner agentId. fst (claimSendLease e lid owner agentId b') \<noteq> Inr (Some (T, lid)))"
proof -
  from assms(2,1) have "holds_lease T L x b'" by (induction rule: rtranclp_induct) (auto intro: others_keep)
  then show ?thesis using acquire_refused use_refused send_refused assms(3) by metis
qed

lemma acquired_lease_holds:
  assumes "acquire_txn e lid T t owner ttl b = (Inr r, b')"
  shows "holds_lease T lid (clock e + ttl) b'"
proof -
  from assms have "put_lease T lid owner (Ts (clock e + ttl)) b = (Inr (), b')"
    by (auto simp: acquire_txn_def broker_defs split: if_splits sum.splits prod.splits)
  from lease_of_put [OF this, of T] show ?thesis by (auto simp: holds_lease_def)
qed

section \<open>Evaluation on a shell of a run\<close>

definition shell0 :: TerminalRecord where
  "shell0 = \<lparr>tm_terminal_id = ''shell:run-1'', tm_run_id = ''run-1'', tm_kind = TK_shell, tm_handle = ''shell:run-1'', tm_worktree_path = ''/w'',
     tm_log_path = ''/l'', tm_running = True, tm_created_at = Ts 0, tm_updated_at = Ts 0\<rparr>"

definition broker0 :: broker where
  "broker0 = \<lparr>bk_db = runs_db', bk_terminals = [shell0], bk_leases = [], bk_calls = []\<rparr>"

lemma broker0_acquired: "\<exists>r b. acquire_txn env0 ''l1'' ''shell:run-1'' shell0 ''me'' 30000 broker0 = (Inr r, b)"
  by (simp add: acquire_txn_def broker_defs broker0_def shell0_def current_terminal_def isCurrent_def run_active_def runs_db'_def
      lease_of_def put_lease_def)

theorem terminal_has_one_writer_witness:
  "\<exists>r b err. acquire_txn env0 ''l1'' ''shell:run-1'' shell0 ''me'' 30000 broker0 = (Inr r, b) \<and>
     acquire_txn (env0\<lparr>clock := 29999\<rparr>) ''l3'' ''shell:run-1'' shell0 ''you'' 30000
       (snd (acquire_txn (env0\<lparr>clock := 5\<rparr>) ''l2'' ''shell:run-1'' shell0 ''you'' 30000 b)) =
     (Inl err, snd (acquire_txn (env0\<lparr>clock := 5\<rparr>) ''l2'' ''shell:run-1'' shell0 ''you'' 30000 b))"
proof -
  obtain r b where a: "acquire_txn env0 ''l1'' ''shell:run-1'' shell0 ''me'' 30000 broker0 = (Inr r, b)" using broker0_acquired by blast
  have h: "holds_lease ''shell:run-1'' ''l1'' 30000 b" using acquired_lease_holds [OF a] by (simp add: env0_def)
  let ?b = "snd (acquire_txn (env0\<lparr>clock := 5\<rparr>) ''l2'' ''shell:run-1'' shell0 ''you'' 30000 b)"
  have "others 30000 ''shell:run-1'' ''l1'' b ?b" by (rule others.acquire) simp
  then have o: "(others 30000 ''shell:run-1'' ''l1'')\<^sup>*\<^sup>* b ?b" by (rule r_into_rtranclp)
  have c: "clock (env0\<lparr>clock := 29999\<rparr>) < 30000" by simp
  from terminal_has_one_writer [OF h o c] obtain err where "acquire_txn (env0\<lparr>clock := 29999\<rparr>) ''l3'' ''shell:run-1'' shell0 ''you'' 30000 ?b = (Inl err, ?b)"
    by (elim conjE) blast
  with a show ?thesis by blast
qed

section \<open>Keys and text\<close>

lemma input_parts_concat: "concat (input_parts s) = s"
proof (induction s rule: input_parts.induct)
  case (1 s)
  then show ?case by (subst input_parts.simps) auto
qed

text \<open>A part is free of control characters, or one control character, or starts with an escape character.\<close>

definition part_ok :: "string \<Rightarrow> bool" where
  "part_ok p \<longleftrightarrow> list_all (\<lambda>c. \<not> is_control c) p \<or> (\<exists>c. p = [c] \<and> is_control c) \<or> (hd p = CHR 0x1B \<and> 2 \<le> length p)"

lemma sequence_part:
  assumes "s \<noteq> []" "is_control (hd s)"
  shows "part_ok (take (sequence_length s) s)"
proof (cases s)
  case (Cons c1 cs)
  show ?thesis
  proof (cases cs)
    case Nil
    with Cons assms show ?thesis by (simp add: part_ok_def sequence_length_def)
  next
    case (Cons c2 cs2)
    then show ?thesis using \<open>s = c1 # cs\<close> assms
      by (cases "c1 = CHR 0x1B") (auto simp: part_ok_def sequence_length_def take_Cons')
  qed
qed (use assms in simp)

lemma input_parts_ok: "p \<in> set (input_parts s) \<Longrightarrow> part_ok p"
proof (induction s rule: input_parts.induct)
  case (1 s)
  show ?case
  proof (cases "s = [] \<or> is_control (hd s)")
    case True
    with 1 show ?thesis using sequence_part by (subst (asm) input_parts.simps) (auto split: if_splits)
  next
    case False
    have "part_ok (takeWhile (\<lambda>c. \<not> is_control c) s)" by (auto simp: part_ok_def list_all_iff dest: set_takeWhileD)
    with 1 False show ?thesis by (subst (asm) input_parts.simps) (auto split: if_splits)
  qed
qed

lemma char_of_code: "char_code c = n \<Longrightarrow> c = char_of n"
  by (auto simp: char_code_def)

lemma control_is_key:
  assumes "is_control c"
  shows "\<exists>key. input_token [c] = Key key"
proof (cases "map_of SPECIAL_KEYS [c]")
  case (Some key)
  then show ?thesis by (simp add: input_token_def)
next
  case None
  have "char_code c \<noteq> 27 \<and> char_code c \<noteq> 127"
  proof (intro conjI notI)
    assume "char_code c = 27"
    then have "c = CHR 0x1B" by (auto dest!: char_of_code simp: char_of_def bit_0 bit_Suc)
    with None show False by (simp add: SPECIAL_KEYS_def csi_def)
  next
    assume "char_code c = 127"
    then have "c = CHR 0x7F" by (auto dest!: char_of_code simp: char_of_def bit_0 bit_Suc)
    with None show False by (simp add: SPECIAL_KEYS_def csi_def)
  qed
  moreover from assms have "char_code c \<le> 31 \<or> char_code c = 127" by (simp only: is_control_def)
  ultimately have "1 \<le> char_code c \<and> char_code c \<le> 26 \<or> char_code c = 0 \<or> char_code c = 28 \<or> char_code c = 29 \<or> char_code c = 30 \<or> char_code c = 31"
    by arith
  then have "\<exists>key. control_key [c] = Some key" by (elim disjE) (simp_all add: control_key_def Let_def)
  moreover have "[c] \<notin> set OBJECT_PROPERTIES" by (simp add: OBJECT_PROPERTIES_def)
  ultimately show ?thesis using None by (auto simp: input_token_def)
qed


lemma inherited_name_is_no_text: "terminalInputTokens ''toString'' = [Inherited ''toString'']"
  by (simp add: terminalInputTokens_def input_parts.simps is_control_def char_code_def input_token_def SPECIAL_KEYS_def csi_def OBJECT_PROPERTIES_def)

end
