(* ===== verification/Session_Files.thy ===== *)
theory Session_Files
  imports Lifecycle
begin

text \<open>
  The start of an operator's session (\<^verbatim>\<open>lib/sessionState.ts\<close>): work that was under way is returned to the queue,
  its claims are failed and the agents forget their sessions; a snapshot of the state before is kept, from
  which a start that fails later is rolled back. The session id is made of the time and random digits.
\<close>

record SessionStateSnapshot =
  sn_backlog :: Backlog
  sn_agents :: "Agent list"
  sn_claims :: "Claim list"

record PreparedSessionReset =
  sr_session_id :: string
  sr_reset_tasks :: nat
  sr_reset_claims :: nat
  sr_reset_agents :: nat
  sr_snapshot :: SessionStateSnapshot

text \<open>\<^verbatim>\<open>readAgentsState\<close> parses the file, without the sessions of the database.\<close>

definition readAgentsState :: "orc_state \<Rightarrow> Agent list result" where
  "readAgentsState st =
     (case st_agents_json st of
        None \<Rightarrow> Inl (PlainError ''ENOENT: no such file or directory, open agents.json'')
      | Some agents \<Rightarrow> Inr agents)"

definition session_task :: "env \<Rightarrow> Task \<Rightarrow> Task" where
  "session_task e t =
     (if task_active (t_status t)
      then t\<lparr>t_status := TS_todo, t_blocked_reason := None, t_updated_at := Some (now_ts e)\<rparr> else t)"

definition session_claim :: "env \<Rightarrow> Claim \<Rightarrow> Claim" where
  "session_claim e c =
     (if claim_active c
      then c\<lparr>c_state := CS_failed, c_failure_reason := Some ''session_reset'', c_finished_at := Some (now_ts e)\<rparr> else c)"

definition session_status :: "Agent \<Rightarrow> AgentStatus" where
  "session_status a = (if a_role a = Some ''master'' then AS_offline else AS_idle)"

definition agent_stale :: "Agent \<Rightarrow> bool" where
  "agent_stale a \<longleftrightarrow> a_status a \<noteq> session_status a \<or> a_session_handle a \<noteq> None \<or> a_session_token a \<noteq> None \<or>
     a_session_started_at a \<noteq> None \<or> a_session_ready_at a \<noteq> None \<or> a_provider_ref a \<noteq> None \<or> a_last_heartbeat_at a \<noteq> None"

definition session_agent :: "env \<Rightarrow> Agent \<Rightarrow> Agent" where
  "session_agent e a =
     (if agent_stale a
      then a\<lparr>a_status := session_status a, a_session_handle := None, a_session_token := None, a_session_started_at := None,
             a_session_ready_at := None, a_provider_ref := None, a_last_heartbeat_at := None,
             a_last_status_change_at := Some (now_ts e)\<rparr> else a)"

definition reset_changes :: "Task list \<Rightarrow> (string \<times> TaskStatusChange) list" where
  "reset_changes ts =
     map (\<lambda>t. (t_ref t, mk_change TC_failure_requeue None (Some ''human'') (Some ''session_reset'')))
       (filter (\<lambda>t. task_active (t_status t)) ts)"

definition session_failed_event :: "env \<Rightarrow> Claim \<Rightarrow> OrcEvent" where
  "session_failed_event e c =
     mk_event (now_ts e) ''run_failed'' ''human'' ''human'' (Some (c_run_id c)) (Some (c_task_ref c)) (Some (c_agent_id c))
       (Some [(''reason'', JStr ''session_reset''), (''code'', JStr ''ERR_SESSION_RESET''), (''policy'', JStr ''requeue'')])"

definition map_tasks :: "(Task \<Rightarrow> Task) \<Rightarrow> Backlog \<Rightarrow> Backlog" where
  "map_tasks f b = map (\<lambda>feature. feature\<lparr>f_tasks := map f (f_tasks feature)\<rparr>) b"

fun close_all_sessions :: "env \<Rightarrow> Agent list \<Rightarrow> orc_state \<Rightarrow> unit outcome" where
  "close_all_sessions e [] st = (Inr (), st)"
| "close_all_sessions e (a # as) st =
     obind (if truthy (a_session_handle a) then close_agent_sessions e (a_agent_id a) st else (Inr (), st))
       (\<lambda>_. close_all_sessions e as)"

definition write_agents :: "Agent list \<Rightarrow> orc_state \<Rightarrow> unit outcome" where
  "write_agents agents st = (Inr (), st\<lparr>st_agents_json := Some agents\<rparr>)"

text \<open>The writes of a reset, in the order of the source: tasks, claims with their events, sessions, agents.\<close>

definition perform_reset :: "env \<Rightarrow> Backlog \<Rightarrow> Agent list \<Rightarrow> Claim list \<Rightarrow> orc_state \<Rightarrow> unit outcome" where
  "perform_reset e backlog agents claims st =
     obind (commitBacklog e (map_tasks (session_task e) backlog) (reset_changes (backlog_tasks backlog)) st) (\<lambda>_ st1.
     obind (commitClaims e (map (session_claim e) claims) (map (session_failed_event e) (filter claim_active claims)) st1) (\<lambda>_ st2.
     obind (close_all_sessions e agents st2) (\<lambda>_. write_agents (map (session_agent e) agents))))"

definition resetVolatileRuntimeStateForSession :: "env \<Rightarrow> string \<Rightarrow> orc_state \<Rightarrow> PreparedSessionReset outcome" where
  "resetVolatileRuntimeStateForSession e sessionId st =
     check_then (readBacklog st) (\<lambda>backlog st0.
     check_then (readAgentsState st0) (\<lambda>agents st1.
       (let (claims, st2) = readClaims st1 in
        obind (perform_reset e backlog agents claims st2) (\<lambda>_ st3.
          (Inr \<lparr>sr_session_id = sessionId,
                sr_reset_tasks = length (filter (\<lambda>t. task_active (t_status t)) (backlog_tasks backlog)),
                sr_reset_claims = length (filter claim_active claims),
                sr_reset_agents = length (filter agent_stale agents),
                sr_snapshot = \<lparr>sn_backlog = backlog, sn_agents = agents, sn_claims = claims\<rparr>\<rparr>, st3)))) st0) st"

definition prepareSessionReuse :: "string \<Rightarrow> orc_state \<Rightarrow> PreparedSessionReset outcome" where
  "prepareSessionReuse sessionId st =
     check_then (readBacklog st) (\<lambda>backlog st0.
     check_then (readAgentsState st0) (\<lambda>agents st1.
       (let (claims, st2) = readClaims st1 in
        (Inr \<lparr>sr_session_id = sessionId, sr_reset_tasks = 0, sr_reset_claims = 0, sr_reset_agents = 0,
              sr_snapshot = \<lparr>sn_backlog = backlog, sn_agents = agents, sn_claims = claims\<rparr>\<rparr>, st2))) st0) st"

section \<open>Rolling back\<close>

definition rollback_event :: "env \<Rightarrow> Claim list \<Rightarrow> Claim \<Rightarrow> OrcEvent list" where
  "rollback_event e current c =
     (if map_option c_state (List.find (\<lambda>x. c_run_id x = c_run_id c) (rev current)) = Some (c_state c) then []
      else if c_state c = CS_claimed
      then [mk_event (now_ts e) ''claim_created'' ''human'' ''human'' (Some (c_run_id c)) (Some (c_task_ref c)) (Some (c_agent_id c))
              (Some [(''lease_expires_at'', case c_lease_expires_at c of None \<Rightarrow> JNull | Some t \<Rightarrow> JTime t),
                     (''reason'', JStr ''session_reset_rollback'')])]
      else if c_state c = CS_in_progress
      then [mk_event (now_ts e) ''run_started'' ''human'' ''human'' (Some (c_run_id c)) (Some (c_task_ref c)) (Some (c_agent_id c))
              (Some [(''reason'', JStr ''session_reset_rollback'')])]
      else [])"

definition restore_sessions :: "env \<Rightarrow> Agent list \<Rightarrow> orc_state \<Rightarrow> unit outcome" where
  "restore_sessions e agents st =
     (case restoreProviderSessionsForAgents e (st_claims_json st) (st_agents_json st) agents (now_ts e) (st_db st) of
        Inl err \<Rightarrow> (Inl err, st)
      | Inr db \<Rightarrow> (Inr (), st\<lparr>st_db := db\<rparr>))"

definition restoreVolatileRuntimeStateFromSnapshot :: "env \<Rightarrow> SessionStateSnapshot \<Rightarrow> orc_state \<Rightarrow> unit outcome" where
  "restoreVolatileRuntimeStateFromSnapshot e sn st =
     (let (current, st0) = readClaims st in
      obind (restoreBacklogStatuses e (sn_backlog sn) (sn_claims sn) st0) (\<lambda>_ st1.
      obind (commitClaims e (sn_claims sn) (concat (map (rollback_event e current) (sn_claims sn))) st1) (\<lambda>_ st2.
      obind (restore_sessions e (sn_agents sn) st2) (\<lambda>_. write_agents (sn_agents sn)))))"

definition appendSessionStartedEvent :: "env \<Rightarrow> PreparedSessionReset \<Rightarrow> string \<Rightarrow> orc_state \<Rightarrow> unit outcome" where
  "appendSessionStartedEvent e session actorId =
     appendEventTo e (mk_event (now_ts e) ''session_started'' ''human'' actorId None None None
       (Some [(''session_id'', JStr (sr_session_id session)), (''reset_tasks'', JNum (int (sr_reset_tasks session))),
              (''reset_claims'', JNum (int (sr_reset_claims session))), (''reset_agents'', JNum (int (sr_reset_agents session)))]))"

end
