(* ===== verification/Task_Status.thy ===== *)
theory Task_Status
  imports Scheduler_Props
begin

text \<open>
  The statuses of the tasks in the task store, and how the writes of \<^verbatim>\<open>lib/projectTasks.ts\<close> move them: a transition
  and a committed task set one status, everything else none; the projected backlog shows them.
\<close>

section \<open>Statuses of the store\<close>

definition status_of :: "task_store \<Rightarrow> string \<Rightarrow> TaskStatus option" where
  "status_of s ref = map_option tr_status (find_task_row ref s)"

lemma status_applied:
  assumes "find_task_row (tt_task_ref t) s = Some row"
  shows "status_of (applied t s) = (status_of s)(tt_task_ref t \<mapsto> tt_to t)"
proof
  fix ref
  show "status_of (applied t s) ref = ((status_of s)(tt_task_ref t \<mapsto> tt_to t)) ref"
    using assms by (simp add: status_of_def find_task_row_def applied_def find_update_where)
qed

lemma status_move_binding [simp]: "status_of (move_binding now ref from cause s) = status_of s"
  by (simp add: status_of_def find_task_row_def fun_eq_iff)

lemma status_transition:
  assumes "applyTransition e ref input s = Inr s'" "ti_idempotencyKey input = None"
  shows "status_of s' = (status_of s)(ref \<mapsto> ti_to input)"
proof -
  from assms obtain task where g: "getTask ref s = Some task" by (auto simp: applyTransition_def split: option.splits)
  let ?t = "\<lparr>tt_task_ref = ref, tt_from = pt_status task, tt_to = ti_to input, tt_cause = ti_cause input,
     tt_reason = ti_reason input, tt_run_id = ti_runId input, tt_actor_id = ti_actorId input,
     tt_idempotency_key = None, tt_created_at = now_ts e\<rparr>"
  from assms g obtain s1 where i: "insert_transition ?t s = Inr s1"
    and s': "s' = move_binding (now_ts e) ref (pt_status task) (ti_cause input) s1"
    by (auto simp: applyTransition_def rbind_Inr_iff)
  from i obtain row where "find_task_row (tt_task_ref ?t) s = Some row" "s1 = applied ?t s"
    by (rule insert_transition_Inr)
  then show ?thesis using status_applied [of ?t s row] s' by simp
qed

lemma status_dispatch:
  assumes "setDispatchState ref u s = Inr s'"
  shows "status_of s' = status_of s"
proof -
  have s': "s' = s\<lparr>tasks := update_where (\<lambda>t. tr_ref t = ref) (apply_dispatch_update u) (tasks s)\<rparr>"
    using assms by (auto simp: setDispatchState_def Let_def split: if_splits)
  have k: "tr_ref (apply_dispatch_update u x) = tr_ref x" "tr_status (apply_dispatch_update u x) = tr_status x" for x
    by (simp_all add: apply_dispatch_update_def)
  show ?thesis
    by (rule ext) (simp add: s' status_of_def find_task_row_def find_update_where k option.map_comp comp_def)
qed

lemma status_reactivate:
  assumes "reactivateRun e runId s = Inr s'"
  shows "status_of s' = status_of s"
  using assms by (auto simp: reactivateRun_def Let_def status_of_def find_task_row_def fun_eq_iff split: if_splits)

lemma getTask_status: "getTask ref s = Some t \<Longrightarrow> status_of s ref = Some (pt_status t)"
  by (auto simp: getTask_Some status_of_def)

text \<open>A change that is committed without an idempotency key leaves the status the caller wrote.\<close>

lemma status_commit_task:
  assumes "commit_task e changes task s = Inr s'" "\<And>ch. ch \<in> set changes \<Longrightarrow> sc_idempotencyKey (snd ch) = None"
  shows "status_of s' = (status_of s)(t_ref task \<mapsto> t_status task)"
proof -
  from assms(1) obtain current s1 where g: "getTask (t_ref task) s = Some current"
    and s1: "(if t_status task \<noteq> pt_status current
              then (case map_of changes (t_ref task) of None \<Rightarrow> Inl (PlainError (''Task '' @ t_ref task @ '' status change '' @
                                       status_str (pt_status current) @ '' -> '' @ status_str (t_status task) @
                                       '' has no lifecycle cause''))
                    | Some change \<Rightarrow> commit_status e change task current s) else Inr s) = Inr s1"
    and d: "setDispatchState (t_ref task) (commit_dispatch task current) s1 = Inr s'"
    by (auto simp: commit_task_def rbind_Inr_iff split: option.split_asm if_split_asm)
  have "status_of s1 = (status_of s)(t_ref task \<mapsto> t_status task)"
  proof (cases "t_status task = pt_status current")
    case True
    with s1 getTask_status [OF g] show ?thesis by (simp add: fun_upd_idem)
  next
    case False
    with s1 obtain change where c: "map_of changes (t_ref task) = Some change" "commit_status e change task current s = Inr s1"
      by (auto split: option.split_asm)
    have k: "sc_idempotencyKey change = None" using assms(2) [OF map_of_SomeD [OF c(1)]] by simp
    from c(2) obtain s0 i where s0: "(if sc_cause change = TC_merge_succeeded \<and> pt_status current = TS_claimed
        then applyTransition e (t_ref task)
               (mk_transition TC_run_start TS_in_progress (sc_runId change) (sc_actorId change) None) s
        else Inr s) = Inr s0"
      and i: "applyTransition e (t_ref task) i s0 = Inr s1" "ti_idempotencyKey i = None" "ti_to i = t_status task"
      unfolding commit_status_def rbind_Inr_iff using k by fastforce
    have "s0 = s \<or> status_of s0 = (status_of s)(t_ref task \<mapsto> TS_in_progress)"
      using s0 by (auto dest!: status_transition simp: mk_transition_def split: if_split_asm)
    with status_transition [OF i(1,2)] i(3) show ?thesis by auto
  qed
  with status_dispatch [OF d] show ?thesis by simp
qed

lemma status_commit_tasks:
  assumes "rfold (commit_task e changes) ts s = Inr s'" "\<And>ch. ch \<in> set changes \<Longrightarrow> sc_idempotencyKey (snd ch) = None"
  shows "status_of s' = fold (\<lambda>t m. m(t_ref t \<mapsto> t_status t)) ts (status_of s)"
  using assms(1)
proof (induction ts arbitrary: s)
  case (Cons t ts)
  from Cons.prems obtain s1 where "commit_task e changes t s = Inr s1" "rfold (commit_task e changes) ts s1 = Inr s'"
    by (auto simp: rbind_Inr_iff)
  with Cons.IH status_commit_task [OF _ assms(2)] show ?case by simp
qed simp

lemma fold_status:
  assumes "distinct (map t_ref ts)"
  shows "fold (\<lambda>t m. m(t_ref t \<mapsto> t_status t)) ts m = (\<lambda>ref. case List.find (\<lambda>t. t_ref t = ref) ts of
     None \<Rightarrow> m ref | Some t \<Rightarrow> Some (t_status t))"
  using assms
proof (induction ts arbitrary: m)
  case (Cons t ts)
  have "List.find (\<lambda>x. t_ref x = t_ref t) ts = None"
    using Cons.prems by (simp add: find_None_iff_set) (metis image_eqI)
  with Cons show ?case by (auto simp: fun_eq_iff)
qed simp

section \<open>The projected backlog and the statuses\<close>

lemma backlog_status:
  assumes "t \<in> set (backlog_tasks (readProjectBacklog s))"
  shows "status_of s (t_ref t) = Some (t_status t)"
proof -
  from assms obtain pt where pt: "pt \<in> set (listTasks s)" "t = projectTaskToBacklogTask pt" by (auto simp: set_readProjectBacklog)
  then obtain ref where g: "getTask ref s = Some pt" by (auto simp: listTasks_def map_filter_def)
  then have "pt_ref pt = ref" by (auto simp: getTask_Some dest: find_task_rowD)
  then show ?thesis using getTask_status [OF g] pt(2) by (simp add: projectTaskToBacklogTask_def Let_def)
qed

lemma status_backlog:
  assumes "store_inv s" "status_of s ref = Some x"
  shows "\<exists>t \<in> set (backlog_tasks (readProjectBacklog s)). t_ref t = ref \<and> t_status t = x"
proof -
  from assms(2) obtain row where row: "find_task_row ref s = Some row" "tr_status row = x" by (auto simp: status_of_def)
  then have r: "row \<in> set (tasks s)" "tr_ref row = ref" by (auto dest: find_task_rowD)
  have "revs_ok s" using assms(1) by (simp add: store_inv_def)
  then obtain v where "latest_revision (tr_ref row) s = Some v" using r(1) by (rule latest_revision_exists)
  then obtain pt where pt: "getTask ref s = Some pt" using row(1) r(2) by (auto simp: getTask_Some)
  then have "pt \<in> set (listTasks s)" using r by (force simp: listTasks_def map_filter_def)
  moreover have "pt_ref pt = ref" "pt_status pt = x" using pt row r by (auto simp: getTask_Some)
  ultimately show ?thesis by (force simp: set_readProjectBacklog projectTaskToBacklogTask_def Let_def)
qed

end
