(* ===== verification/Session_Files_Props.thy ===== *)
theory Session_Files_Props
  imports Session_Files State_Invariant Task_Status
begin

text \<open>
  What the start of an operator's session does: a reset leaves no work under way, and rolling it back
  restores the claims, the agents and every task that a claim held. Statuses of tasks are followed through the writes
  of the task store (\<open>status_of\<close>); the store's own invariant is carried by an interpretation of \<open>state_invariant\<close>.
\<close>

section \<open>A reset, step by step\<close>

lemma backlog_tasks_map [simp]: "backlog_tasks (map_tasks f b) = map f (backlog_tasks b)"
  by (simp add: backlog_tasks_def map_tasks_def map_concat comp_def)

lemma session_task_sel [simp]:
  "t_ref (session_task e t) = t_ref t"
  "t_status (session_task e t) = (if task_active (t_status t) then TS_todo else t_status t)"
  by (simp_all add: session_task_def)

lemma session_claim_sel [simp]:
  "c_run_id (session_claim e c) = c_run_id c" "\<not> claim_active (session_claim e c)"
  by (simp_all add: session_claim_def claim_active_def)

lemma session_agent_sel [simp]:
  "a_agent_id (session_agent e a) = a_agent_id a" "a_session_handle (session_agent e a) = None"
  "a_session_token (session_agent e a) = None" "a_status (session_agent e a) = session_status a"
  by (simp_all add: session_agent_def agent_stale_def)

lemma reset_changes_keys: "ch \<in> set (reset_changes ts) \<Longrightarrow> sc_idempotencyKey (snd ch) = None"
  by (auto simp: reset_changes_def mk_change_def)

text \<open>The session of one agent that is closed stays closed while those of the others are closed.\<close>

lemma close_all_kept:
  assumes "claims_ready (st_db st)" "close_all_sessions e as st = (Inr (), st')"
  shows "claims_ready (st_db st') \<and> readRows (st_db st') = readRows (st_db st) \<and> st_store st' = st_store st \<and>
    st_backlog_json st' = st_backlog_json st \<and> st_claims_json st' = st_claims_json st"
  using assms
proof (induction as arbitrary: st)
  case (Cons a as)
  let ?r = "if truthy (a_session_handle a) then close_agent_sessions e (a_agent_id a) st else (Inr (), st)"
  from Cons.prems(2) obtain st1 where 1: "?r = (Inr (), st1)" "close_all_sessions e as st1 = (Inr (), st')"
    by (auto simp: obind_Inr simp del: truthy.simps)
  have "same_claims (st_db st) (st_db (snd ?r))"
    using close_agent_sessions_same [of st e "a_agent_id a"] Cons.prems(1)
    by (simp add: claims_ready_def same_claims_def)
  then have "claims_ready (st_db st1)" "readRows (st_db st1) = readRows (st_db st)"
    using 1(1) Cons.prems(1) by (simp_all add: same_claims_ready)
  moreover have "st_store st1 = st_store st \<and> st_backlog_json st1 = st_backlog_json st \<and> st_claims_json st1 = st_claims_json st"
    using 1(1) by (auto simp: close_agent_sessions_def split: if_splits sum.splits simp del: truthy.simps)
  ultimately show ?case using Cons.IH [OF _ 1(2)] by simp
qed simp

lemma close_agent_sessions_over:
  assumes "SESSION_CUTOVER_NAME \<in> set (db_cutovers (st_db st))"
  shows "close_agent_sessions e i st = (Inr (), st\<lparr>st_db := (st_db st)\<lparr>db_sessions :=
    close_sessions (\<lambda>s. ss_agent_id s = i) ''session closed'' (now_ts e) (db_sessions (st_db st))\<rparr>\<rparr>)"
  using assms by (simp add: close_agent_sessions_def closeProviderSessionsForAgent_def importLegacyAgentSessions_def)

lemma close_sessions_keep_closed:
  assumes "\<forall>s \<in> set ss. ss_agent_id s = i \<longrightarrow> ss_state s = SS_offline"
  shows "\<forall>s \<in> set (close_sessions P why at ss). ss_agent_id s = i \<longrightarrow> ss_state s = SS_offline"
  unfolding close_sessions_def ball_update_where using assms by simp

lemma close_all_closed:
  assumes "SESSION_CUTOVER_NAME \<in> set (db_cutovers (st_db st))" "close_all_sessions e as st = (Inr (), st')"
  shows "\<forall>i. (no_live_session i (st_db st) \<or> (\<exists>a \<in> set as. a_agent_id a = i \<and> truthy (a_session_handle a))) \<longrightarrow> no_live_session i (st_db st')"
  using assms
proof (induction as arbitrary: st)
  case (Cons a as)
  let ?db = "(st_db st)\<lparr>db_sessions :=
    close_sessions (\<lambda>s. ss_agent_id s = a_agent_id a) ''session closed'' (now_ts e) (db_sessions (st_db st))\<rparr>"
  note over = close_agent_sessions_over [OF Cons.prems(1), of e "a_agent_id a"]
  show ?case
  proof (cases "truthy (a_session_handle a)")
    case True
    then have next_st: "close_all_sessions e as (st\<lparr>st_db := ?db\<rparr>) = (Inr (), st')"
      using Cons.prems(2) over by (simp del: truthy.simps)
    have closed: "no_live_session (a_agent_id a) ?db" using close_agent_sessions_closed [OF over] by simp
    have kept: "no_live_session i ?db" if "no_live_session i (st_db st)" for i
      using that unfolding no_live_session_def by (simp add: close_sessions_keep_closed)
    from Cons.IH [OF _ next_st] Cons.prems(1) closed kept show ?thesis by auto
  next
    case False
    with Cons.prems Cons.IH [of st] show ?thesis by auto
  qed
qed simp

section \<open>After a reset\<close>

interpretation si: state_invariant "\<lambda>_. True" store_inv
  by unfold_locales (auto intro: store_step_inv)


definition no_task_active :: "orc_state \<Rightarrow> bool" where
  "no_task_active st \<longleftrightarrow> (\<exists>b. readBacklog st = Inr b \<and> (\<forall>t \<in> set (backlog_tasks b). \<not> task_active (t_status t)))"

lemma session_statuses:
  assumes "store_inv s" "rfold (commit_task e (reset_changes ts)) (map (session_task e) ts) s = Inr s'"
    and "ts = backlog_tasks (readProjectBacklog s)"
  shows "status_of s' = (\<lambda>ref. map_option (\<lambda>x. if task_active x then TS_todo else x) (status_of s ref))"
proof
  fix ref
  have "distinct (map t_ref (map (session_task e) ts))"
    using projected_backlog_distinct [OF assms(1)] assms(3) by (simp add: comp_def)
  then have s': "status_of s' ref = (case List.find (\<lambda>t. t_ref t = ref) (map (session_task e) ts) of
      None \<Rightarrow> status_of s ref | Some t \<Rightarrow> Some (t_status t))"
    using status_commit_tasks [OF assms(2) reset_changes_keys] by (simp add: fold_status)
  show "status_of s' ref = map_option (\<lambda>x. if task_active x then TS_todo else x) (status_of s ref)"
  proof (cases "List.find (\<lambda>t. t_ref t = ref) (map (session_task e) ts)")
    case None
    then have no: "\<forall>t \<in> set ts. t_ref t \<noteq> ref" by (simp add: find_None_iff_set)
    have "status_of s ref = None"
    proof (cases "status_of s ref")
      case (Some x)
      from status_backlog [OF assms(1) Some, folded assms(3)] no show ?thesis by fast
    qed simp
    with s' None show ?thesis by simp
  next
    case (Some t)
    from find_in_set [OF Some] have t: "t \<in> session_task e ` set ts" "t_ref t = ref" by simp_all
    from t(1) obtain u where u: "t = session_task e u" "u \<in> set ts" by (rule imageE)
    from backlog_status [OF u(2) [unfolded assms(3)]] t(2) u(1) have "status_of s ref = Some (t_status u)" by simp
    with s' Some u(1) show ?thesis by simp
  qed
qed

lemma commit_reset:
  assumes "\<forall>s. st_store st = Some s \<longrightarrow> store_inv s" "readBacklog st = Inr b"
    "commitBacklog e (map_tasks (session_task e) b) (reset_changes (backlog_tasks b)) st = (Inr (), st')"
  shows "no_task_active st' \<and> st_db st' = st_db st \<and>
    (\<forall>s. st_store st = Some s \<longrightarrow> (\<exists>s'. st_store st' = Some s' \<and> store_inv s' \<and> status_of s' = (\<lambda>ref. map_option (\<lambda>x. if task_active x then TS_todo else x) (status_of s ref))))"
proof (cases "st_store st")
  case None
  with assms(2,3) show ?thesis
    by (auto simp: commitBacklog_def no_task_active_def readBacklog_def)
next
  case (Some s)
  then have b: "b = readProjectBacklog s" using assms(2) by (simp add: readBacklog_def)
  from assms(3) Some obtain s' where s': "rfold (commit_task e (reset_changes (backlog_tasks b))) (map (session_task e) (backlog_tasks b)) s = Inr s'"
    "st' = refreshBacklogProjection (st\<lparr>st_store := Some s'\<rparr>)"
    by (auto simp: commitBacklog_def split: sum.splits)
  note status = session_statuses [OF assms(1) [rule_format, OF Some] s'(1)] b
  have "\<not> task_active (t_status t)" if "t \<in> set (backlog_tasks (readProjectBacklog s'))" for t
    using backlog_status [OF that] status by (auto split: if_splits)
  moreover have "store_inv s'"
    by (rule rfold_invariant [where I = store_inv, OF s'(1)]) (use assms(1) Some si.commit_task_reachable in blast)+
  ultimately show ?thesis using s'(2) Some status by (simp add: no_task_active_def readBacklog_def refreshBacklogProjection_def)
qed

lemma commit_cutovers:
  assumes "commit_claims_txn e cj cs evs db = Inr db'" "cut_over db"
  shows "set (db_cutovers db) \<subseteq> set (db_cutovers db')"
proof -
  have d: "db_cutovers (fold delete_run is x) = db_cutovers x" for "is" x
    by (induction "is" arbitrary: x) (simp_all add: delete_run_def)
  have u: "db_cutovers y = db_cutovers x" if "rfold upsertClaim cs x = Inr y" for cs x y
    using that by (rule rfold_invariant [where I = "\<lambda>z. db_cutovers z = db_cutovers x"]) (auto elim: upsertClaim_Inr)
  have "importLegacyClaims cj db = Inr (False, db)" using assms(2) by (simp add: importLegacyClaims_def cut_over_def)
  then obtain db3 where "rfold upsertClaim cs (fold delete_run (filter (\<lambda>r. r \<notin> set (map c_run_id cs)) (map rn_run_id (db_runs db))) db) = Inr db3"
    and "rfold (append_event e) evs (db3\<lparr>db_cutovers := (if CUTOVER_NAME \<in> set (db_cutovers db3) then db_cutovers db3
                                 else db_cutovers db3 @ [CUTOVER_NAME])\<rparr>) = Inr db'"
    using assms(1) by (auto simp: commit_claims_txn_def rbind_Inr_iff Let_def)
  then show ?thesis using rfold_append_frame(5) u d by fastforce
qed

lemma no_task_active_cong:
  "st_store st' = st_store st \<Longrightarrow> st_backlog_json st' = st_backlog_json st \<Longrightarrow> no_task_active st' = no_task_active st"
  by (simp add: no_task_active_def readBacklog_def cong: option.case_cong)

lemma reset_parts:
  assumes "claims_ready (st_db st)" "resetVolatileRuntimeStateForSession e sid st = (Inr p, st')"
  obtains b agents where "readBacklog st = Inr b" "st_agents_json st = Some agents"
    "perform_reset e b agents (readRows (st_db st)) st = (Inr (), st')"
    "sr_snapshot p = \<lparr>sn_backlog = b, sn_agents = agents, sn_claims = readRows (st_db st)\<rparr>"
proof -
  from assms obtain b where b: "readBacklog st = Inr b"
    by (cases "readBacklog st") (simp_all add: resetVolatileRuntimeStateForSession_def check_then_def)
  from assms b obtain agents where a: "st_agents_json st = Some agents"
    by (cases "st_agents_json st") (simp_all add: resetVolatileRuntimeStateForSession_def check_then_def readAgentsState_def)
  have f: "obind (perform_reset e b agents (readRows (st_db st)) st) (\<lambda>_ st3.
          (Inr \<lparr>sr_session_id = sid,
                sr_reset_tasks = length (filter (\<lambda>t. task_active (t_status t)) (backlog_tasks b)),
                sr_reset_claims = length (filter claim_active (readRows (st_db st))),
                sr_reset_agents = length (filter agent_stale agents),
                sr_snapshot = \<lparr>sn_backlog = b, sn_agents = agents, sn_claims = readRows (st_db st)\<rparr>\<rparr>, st3)) = (Inr p, st')"
    using assms(2) unfolding resetVolatileRuntimeStateForSession_def check_then_def readAgentsState_def b a
    by (simp add: readClaims_ready [OF assms(1)])
  show thesis
  proof (cases "perform_reset e b agents (readRows (st_db st)) st")
    case (Pair r st3)
    with f show thesis using b a by (cases r) (auto intro: that)
  qed
qed

lemma reset_effect:
  assumes ready: "claims_ready (st_db st)" and over: "SESSION_CUTOVER_NAME \<in> set (db_cutovers (st_db st))"
    and inv: "\<forall>s. st_store st = Some s \<longrightarrow> store_inv s" and b: "readBacklog st = Inr b"
    and reset: "perform_reset e b agents (readRows (st_db st)) st = (Inr (), st')"
  shows "no_task_active st'" "claims_ready (st_db st')" "readRows (st_db st') = map (session_claim e) (readRows (st_db st))"
    "st_agents_json st' = Some (map (session_agent e) agents)"
    "\<forall>a \<in> set agents. truthy (a_session_handle a) \<longrightarrow> no_live_session (a_agent_id a) (st_db st')"
    "\<forall>s. st_store st = Some s \<longrightarrow> (\<exists>s'. st_store st' = Some s' \<and> store_inv s' \<and> status_of s' = (\<lambda>ref. map_option (\<lambda>x. if task_active x then TS_todo else x) (status_of s ref)))"
proof -
  let ?cs = "map (session_claim e) (readRows (st_db st))"
  from reset obtain st1 st2 st3 where 1: "commitBacklog e (map_tasks (session_task e) b) (reset_changes (backlog_tasks b)) st = (Inr (), st1)"
    and 2: "commitClaims e ?cs (map (session_failed_event e) (filter claim_active (readRows (st_db st)))) st1 = (Inr (), st2)"
    and 3: "close_all_sessions e agents st2 = (Inr (), st3)" and 4: "st' = st3\<lparr>st_agents_json := Some (map (session_agent e) agents)\<rparr>"
    by (auto simp: perform_reset_def obind_Inr write_agents_def)
  from commit_reset [OF inv b 1] have c: "no_task_active st1" and same1: "st_db st1 = st_db st"
    and stored: "\<forall>s. st_store st = Some s \<longrightarrow> (\<exists>s'. st_store st1 = Some s' \<and> store_inv s' \<and> status_of s' = (\<lambda>ref. map_option (\<lambda>x. if task_active x then TS_todo else x) (status_of s ref)))"
    by blast+
  from 2 obtain db where db: "commit_claims_txn e (st_claims_json st1) ?cs (map (session_failed_event e) (filter claim_active (readRows (st_db st)))) (st_db st1) = Inr db"
    "st2 = st1\<lparr>st_db := db, st_claims_json := Some ?cs\<rparr>" by (auto simp: commitClaims_Inr)
  have ids: "map c_run_id ?cs = map c_run_id (readRows (st_db st1)) @ []" by (simp add: same1 comp_def)
  have d: "distinct (map c_run_id ?cs)" using repo.read_distinct [OF ready] by (simp add: comp_def)
  from repo.commit_read [OF _ ids d db(1)] ready same1 have r: "claims_ready db" "readRows db = ?cs" by simp_all
  have "SESSION_CUTOVER_NAME \<in> set (db_cutovers (st_db st2))"
    using commit_cutovers [OF db(1)] over ready db(2) same1 by (auto simp: claims_ready_def)
  note closed = close_all_closed [OF this 3]
  have r2: "claims_ready (st_db st2)" using r(1) db(2) by simp
  note kept = close_all_kept [OF r2 3]
  have files: "st_store st' = st_store st1" "st_backlog_json st' = st_backlog_json st1" using kept db(2) 4 by simp_all
  with c no_task_active_cong [OF files] show "no_task_active st'" by simp
  show "claims_ready (st_db st')" "readRows (st_db st') = ?cs" using kept r db(2) 4 by simp_all
  show "st_agents_json st' = Some (map (session_agent e) agents)" using 4 by simp
  show "\<forall>a \<in> set agents. truthy (a_session_handle a) \<longrightarrow> no_live_session (a_agent_id a) (st_db st')"
    using closed 4 by (simp del: truthy.simps) blast
  show "\<forall>s. st_store st = Some s \<longrightarrow> (\<exists>s'. st_store st' = Some s' \<and> store_inv s' \<and> status_of s' = (\<lambda>ref. map_option (\<lambda>x. if task_active x then TS_todo else x) (status_of s ref)))"
    unfolding files by (rule stored)
qed


section \<open>Rolling a reset back\<close>

definition same_specs :: "task_store \<Rightarrow> task_store \<Rightarrow> bool" where
  "same_specs s s' \<longleftrightarrow> map tr_ref (tasks s') = map tr_ref (tasks s) \<and> task_spec_revisions s' = task_spec_revisions s"

lemma same_specs_revs: "same_specs s s' \<Longrightarrow> revs_ok s \<Longrightarrow> revs_ok s'"
proof -
  assume same: "same_specs s s'" and ok: "revs_ok s"
  have refs: "revs_ok s \<longleftrightarrow> (\<forall>ref \<in> tr_ref ` set (tasks s). \<exists>n \<ge> 1. map rv_revision (revisions_of ref s) = [1..<Suc n]) \<and>
     (\<forall>r \<in> set (task_spec_revisions s). rv_task_ref r \<in> tr_ref ` set (tasks s))" for s
    by (simp add: revs_ok_def)
  from same have "tr_ref ` set (tasks s') = tr_ref ` set (tasks s)" unfolding same_specs_def by (metis set_map)
  moreover from same have "revisions_of ref s' = revisions_of ref s" for ref by (simp add: same_specs_def revisions_of_def)
  ultimately show "revs_ok s'" using ok same unfolding refs by (simp only: same_specs_def)
qed

lemma same_specs_trans: "same_specs a b \<Longrightarrow> same_specs b c \<Longrightarrow> same_specs a c"
  by (simp add: same_specs_def)

lemma same_specs_transition: "applyTransition e ref input s = Inr s' \<Longrightarrow> same_specs s s'"
  by (cases rule: applyTransition_Inr) (auto simp: same_specs_def)

lemma same_specs_reactivate: "reactivateRun e r s = Inr s' \<Longrightarrow> same_specs s s'"
  by (auto simp: reactivateRun_def Let_def same_specs_def split: if_splits)

lemma getTask_status_iff:
  assumes "revs_ok s"
  shows "map_option pt_status (getTask ref s) = status_of s ref"
proof (cases "find_task_row ref s")
  case None
  then show ?thesis by (simp add: getTask_def status_of_def)
next
  case (Some row)
  then have r: "row \<in> set (tasks s)" "tr_ref row = ref" by (auto dest: find_task_rowD)
  obtain v where "latest_revision (tr_ref row) s = Some v" using assms r(1) by (rule latest_revision_exists)
  then show ?thesis using Some r(2) by (simp add: getTask_def status_of_def)
qed

definition claimed_in :: "Claim list \<Rightarrow> string \<Rightarrow> bool" where
  "claimed_in cs ref \<longleftrightarrow> (\<exists>c \<in> set cs. c_task_ref c = ref \<and> claim_active c)"

definition restores :: "Claim list \<Rightarrow> Task \<Rightarrow> task_store \<Rightarrow> bool" where
  "restores cs t s \<longleftrightarrow> task_active (t_status t) \<and> status_of s (t_ref t) = Some TS_todo \<and> claimed_in cs (t_ref t)"

lemma restore_task_status:
  assumes "restore_task e cs t s = Inr s'" "revs_ok s"
  shows "status_of s' = (if restores cs t s then (status_of s)(t_ref t \<mapsto> t_status t) else status_of s) \<and> revs_ok s'"
proof (cases "restores cs t s")
  case False
  then have "s' = s"
    using assms by (auto simp: restore_task_def restores_def claimed_in_def getTask_status_iff dest!: find_in_set split: if_splits option.splits)
  with False assms(2) show ?thesis by simp
next
  case True
  then obtain c where c: "List.find (\<lambda>c. c_task_ref c = t_ref t \<and> claim_active c) cs = Some c"
    by (cases "List.find (\<lambda>c. c_task_ref c = t_ref t \<and> claim_active c) cs") (auto simp: restores_def claimed_in_def find_None_iff_set)
  from True assms c obtain s1 s2 where 1: "applyTransition e (t_ref t)
       (mk_transition TC_claim TS_claimed (Some (c_run_id c)) (Some ''human'') (Some ''session_reset_rollback'')) s = Inr s1"
    and 2: "reactivateRun e (c_run_id c) s1 = Inr s2"
    and 3: "(if t_status t = TS_in_progress
            then applyTransition e (t_ref t)
                   (mk_transition TC_run_start TS_in_progress (Some (c_run_id c)) (Some ''human'') None) s2
            else Inr s2) = Inr s'"
    by (auto simp: restore_task_def restores_def getTask_status_iff rbind_Inr_iff)
  have s2: "status_of s2 = (status_of s)(t_ref t \<mapsto> TS_claimed)" "same_specs s s2"
    using status_transition [OF 1] status_reactivate [OF 2] same_specs_trans [OF same_specs_transition [OF 1] same_specs_reactivate [OF 2]] by simp_all
  show ?thesis
  proof (cases "t_status t = TS_in_progress")
    case ip: True
    with 3 have 4: "applyTransition e (t_ref t) (mk_transition TC_run_start TS_in_progress (Some (c_run_id c)) (Some ''human'') None) s2 = Inr s'" by simp
    have "status_of s' = (status_of s)(t_ref t \<mapsto> TS_in_progress)" using status_transition [OF 4] s2(1) by simp
    moreover have "revs_ok s'" by (rule same_specs_revs [OF same_specs_trans [OF s2(2) same_specs_transition [OF 4]] assms(2)])
    ultimately show ?thesis using True ip by simp
  next
    case False
    with True have "t_status t = TS_claimed" by (cases "t_status t") (simp_all add: restores_def)
    with 3 s2 True same_specs_revs [OF s2(2) assms(2)] show ?thesis by simp
  qed
qed

lemma restore_tasks_status:
  assumes "rfold (restore_task e cs) ts s = Inr s'" "revs_ok s" "distinct (map t_ref ts)"
  shows "status_of s' = (\<lambda>ref. case List.find (\<lambda>t. t_ref t = ref) ts of
     None \<Rightarrow> status_of s ref | Some t \<Rightarrow> if restores cs t s then Some (t_status t) else status_of s ref)"
  using assms
proof (induction ts arbitrary: s)
  case (Cons t ts)
  from Cons.prems(1) obtain s1 where s1: "restore_task e cs t s = Inr s1" "rfold (restore_task e cs) ts s1 = Inr s'"
    by (auto simp: rbind_Inr_iff)
  from restore_task_status [OF s1(1) Cons.prems(2)] have
    t: "status_of s1 = (if restores cs t s then (status_of s)(t_ref t \<mapsto> t_status t) else status_of s)" and r: "revs_ok s1" by simp_all
  have o: "status_of s1 ref = status_of s ref" if "ref \<noteq> t_ref t" for ref using t that by simp
  have none: "List.find (\<lambda>x. t_ref x = t_ref t) ts = None"
    using Cons.prems(3) by (simp add: find_None_iff_set) (metis image_eqI)
  show ?case
  proof
    fix ref
    from Cons.IH [OF s1(2) r] Cons.prems(3) have IH: "status_of s' ref = (case List.find (\<lambda>t. t_ref t = ref) ts of
     None \<Rightarrow> status_of s1 ref | Some t \<Rightarrow> if restores cs t s1 then Some (t_status t) else status_of s1 ref)" by simp
    show "status_of s' ref = (case List.find (\<lambda>t. t_ref t = ref) (t # ts) of
     None \<Rightarrow> status_of s ref | Some t \<Rightarrow> if restores cs t s then Some (t_status t) else status_of s ref)"
    proof (cases "ref = t_ref t")
      case True
      then show ?thesis using IH none t by simp
    next
      case False
      have "restores cs u s1 = restores cs u s" if "List.find (\<lambda>t. t_ref t = ref) ts = Some u" for u
        using find_in_set [OF that] False o by (simp add: restores_def)
      then show ?thesis using IH o [OF False] False by (auto split: option.split)
    qed
  qed
qed simp

lemma reactivate_runs:
  assumes "rfold (reactivate_latest at) as db = Inr db'"
  shows "same_claims db db'"
  using assms
  by (rule rfold_invariant [where I = "same_claims db"])
    (auto simp: reactivate_latest_def Let_def same_claims_def split: if_splits option.splits)

lemma restore_sessions_same:
  assumes "claims_ready (st_db st)" "restore_sessions e as st = (Inr (), st')"
  shows "claims_ready (st_db st') \<and> readRows (st_db st') = readRows (st_db st) \<and> st_store st' = st_store st"
proof -
  from assms(2) obtain db where db: "restoreProviderSessionsForAgents e (st_claims_json st) (st_agents_json st) as (now_ts e) (st_db st) = Inr db"
    "st' = st\<lparr>st_db := db\<rparr>" by (auto simp: restore_sessions_def split: sum.splits)
  from db(1) obtain db1 where 1: "importLegacyAgentSessions e (st_claims_json st) (st_agents_json st) (st_db st) = Inr db1"
    "rfold (reactivate_latest (now_ts e)) as db1 = Inr db" by (auto simp: restoreProviderSessionsForAgents_def rbind_Inr_iff)
  have "cut_over (st_db st)" using assms(1) by (simp add: claims_ready_def)
  from same_claims_trans [OF import_sessions_same [OF 1(1) this] reactivate_runs [OF 1(2)]]
  have "same_claims (st_db st) db" .
  from same_claims_ready [OF this assms(1)] db(2) show ?thesis by simp
qed

lemma restore_effect:
  assumes ready: "claims_ready (st_db st)" and ids: "map c_run_id (sn_claims sn) = map c_run_id (readRows (st_db st))"
    and s: "st_store st = Some s" "store_inv s" and d: "distinct (map t_ref (backlog_tasks (sn_backlog sn)))"
    and restore: "restoreVolatileRuntimeStateFromSnapshot e sn st = (Inr (), st')"
  shows "claims_ready (st_db st')" "readRows (st_db st') = sn_claims sn" "st_agents_json st' = Some (sn_agents sn)"
    "\<exists>s'. st_store st' = Some s' \<and> status_of s' = (\<lambda>ref. case List.find (\<lambda>t. t_ref t = ref) (backlog_tasks (sn_backlog sn)) of
     None \<Rightarrow> status_of s ref | Some t \<Rightarrow> if restores (sn_claims sn) t s then Some (t_status t) else status_of s ref)"
proof -
  let ?events = "concat (map (rollback_event e (readRows (st_db st))) (sn_claims sn))"
  from restore obtain st1 st2 st3 where 1: "restoreBacklogStatuses e (sn_backlog sn) (sn_claims sn) st = (Inr (), st1)"
    and 2: "commitClaims e (sn_claims sn) ?events st1 = (Inr (), st2)" and 3: "restore_sessions e (sn_agents sn) st2 = (Inr (), st3)"
    and 4: "st' = st3\<lparr>st_agents_json := Some (sn_agents sn)\<rparr>"
    by (auto simp: restoreVolatileRuntimeStateFromSnapshot_def readClaims_ready [OF ready] obind_Inr write_agents_def)
  from 1 s(1) obtain s' where s': "rfold (restore_task e (sn_claims sn)) (backlog_tasks (sn_backlog sn)) s = Inr s'"
    "st1 = refreshBacklogProjection (st\<lparr>st_store := Some s'\<rparr>)"
    by (auto simp: restoreBacklogStatuses_def split: sum.splits)
  have same: "st_db st1 = st_db st" "st_store st1 = Some s'" using s'(2) by (simp_all add: refreshBacklogProjection_def)
  from 2 obtain db where db: "commit_claims_txn e (st_claims_json st1) (sn_claims sn) ?events (st_db st1) = Inr db"
    "st2 = st1\<lparr>st_db := db, st_claims_json := Some (sn_claims sn)\<rparr>" by (auto simp: commitClaims_Inr)
  have ids1: "map c_run_id (sn_claims sn) = map c_run_id (readRows (st_db st1)) @ []" using ids same(1) by simp
  have dist: "distinct (map c_run_id (sn_claims sn))" unfolding ids by (rule repo.read_distinct [OF ready])
  from repo.commit_read [OF _ ids1 dist db(1)] ready same(1) have r: "claims_ready db" "readRows db = sn_claims sn" by simp_all
  have r2: "claims_ready (st_db st2)" using r(1) db(2) by simp
  note kept = restore_sessions_same [OF r2 3]
  show "claims_ready (st_db st')" "readRows (st_db st') = sn_claims sn" "st_agents_json st' = Some (sn_agents sn)"
    using kept r db(2) 4 by simp_all
  have "revs_ok s" using s(2) by (simp add: store_inv_def)
  from restore_tasks_status [OF s'(1) this d]
  show "\<exists>s'. st_store st' = Some s' \<and> status_of s' = (\<lambda>ref. case List.find (\<lambda>t. t_ref t = ref) (backlog_tasks (sn_backlog sn)) of
     None \<Rightarrow> status_of s ref | Some t \<Rightarrow> if restores (sn_claims sn) t s then Some (t_status t) else status_of s ref)"
    using kept same(2) db(2) 4 by simp
qed

text \<open>
  C38. Rolling a reset back undoes it: the claims and the agents file read as before the reset, and
  every task has the status it had, except that one which was under way without an active claim stays in the queue.
\<close>

theorem session_reset_roundtrip:
  assumes "claims_ready (st_db st)" "SESSION_CUTOVER_NAME \<in> set (db_cutovers (st_db st))"
    and "st_store st = Some s" "store_inv s"
    and "resetVolatileRuntimeStateForSession e sid st = (Inr p, st1)"
    and "restoreVolatileRuntimeStateFromSnapshot e' (sr_snapshot p) st1 = (Inr (), st2)"
  shows "fst (readClaims st2) = fst (readClaims st) \<and> st_agents_json st2 = st_agents_json st \<and>
    (\<exists>s2. st_store st2 = Some s2 \<and>
      status_of s2 = (\<lambda>ref. map_option (\<lambda>x. if task_active x \<and> \<not> claimed_in (fst (readClaims st)) ref then TS_todo else x) (status_of s ref)))"
proof -
  let ?cs = "readRows (st_db st)"
  have inv: "\<forall>s. st_store st = Some s \<longrightarrow> store_inv s" using assms(3,4) by simp
  from assms(1,5) obtain b agents where p: "readBacklog st = Inr b" "st_agents_json st = Some agents"
    "perform_reset e b agents ?cs st = (Inr (), st1)"
    "sr_snapshot p = \<lparr>sn_backlog = b, sn_agents = agents, sn_claims = ?cs\<rparr>" by (rule reset_parts)
  note r = reset_effect [OF assms(1,2) inv p(1,3)]
  from r(6) assms(3) obtain s1 where s1: "st_store st1 = Some s1" "store_inv s1"
    "status_of s1 = (\<lambda>ref. map_option (\<lambda>x. if task_active x then TS_todo else x) (status_of s ref))" by blast
  have b: "b = readProjectBacklog s" using p(1) assms(3) by (simp add: readBacklog_def)
  have d: "distinct (map t_ref (backlog_tasks b))" unfolding b by (rule projected_backlog_distinct [OF assms(4)])
  have ids: "map c_run_id (sn_claims (sr_snapshot p)) = map c_run_id (readRows (st_db st1))" using r(3) p(4) by (simp add: comp_def)
  have d': "distinct (map t_ref (backlog_tasks (sn_backlog (sr_snapshot p))))" using d p(4) by simp
  note eff = restore_effect [OF r(2) ids s1(1,2) d' assms(6), unfolded p(4) SessionStateSnapshot.select_convs]
  from eff obtain s2 where
    c: "claims_ready (st_db st2)" "readRows (st_db st2) = ?cs" "st_agents_json st2 = Some agents" and s2: "st_store st2 = Some s2"
    "status_of s2 = (\<lambda>ref. case List.find (\<lambda>t. t_ref t = ref) (backlog_tasks b) of
     None \<Rightarrow> status_of s1 ref | Some t \<Rightarrow> if restores ?cs t s1 then Some (t_status t) else status_of s1 ref)" by blast
  have "status_of s2 ref = map_option (\<lambda>x. if task_active x \<and> \<not> claimed_in ?cs ref then TS_todo else x) (status_of s ref)" for ref
  proof (cases "List.find (\<lambda>t. t_ref t = ref) (backlog_tasks b)")
    case None
    then have no: "\<forall>t \<in> set (backlog_tasks b). t_ref t \<noteq> ref" by (simp add: find_None_iff_set)
    have "status_of s ref = None"
    proof (cases "status_of s ref")
      case (Some x)
      from status_backlog [OF assms(4) Some, folded b] no show ?thesis by fast
    qed simp
    with s2(2) None s1(3) show ?thesis by simp
  next
    case (Some t)
    from find_in_set [OF Some] have t: "t \<in> set (backlog_tasks b)" "t_ref t = ref" by simp_all
    from backlog_status [OF t(1) [unfolded b]] t(2) have "status_of s ref = Some (t_status t)" by simp
    with s2(2) Some s1(3) t(2) show ?thesis by (simp add: restores_def)
  qed
  then show ?thesis using c s2(1) p(2) by (simp add: readClaims_ready assms(1) fun_eq_iff)
qed

section \<open>Evaluation on a concrete state directory\<close>

text \<open>Task \<open>f/a\<close> is claimed by worker \<open>w\<close>, whose session runs.\<close>

definition resettable_st :: orc_state where
  "resettable_st = \<lparr>st_db = runs_db'\<lparr>db_cutovers := [CUTOVER_NAME, SESSION_CUTOVER_NAME],
       db_sessions := [Session_Props.session0\<lparr>ss_state := SS_running\<rparr>]\<rparr>,
     st_claims_json = Some [claim0_run ''run-1'' ''f/a'' CS_claimed], st_agents_json = Some [agent0],
     st_store = Some store1, st_backlog_json = None, st_descriptor = True, st_run_specs = []\<rparr>"

definition claimed_task0 :: Task where
  "claimed_task0 = (projectTaskToBacklogTask (toTask (new_task_row ''f/a'' ''T'' ''normal'' None (Ts 0)) (rev0 ''b'' 1) []))
     \<lparr>t_status := TS_claimed\<rparr>"

lemma resettable_backlog: "readBacklog resettable_st = Inr [\<lparr>f_ref = ''f'', f_title = ''f'', f_tasks = [claimed_task0]\<rparr>]"
  by (simp add: readBacklog_def resettable_st_def readProjectBacklog_def listTasks_def store1_def applied_def claim0_def store0_def
      featureRefOf_def rev0_def claimed_task0_def projectTaskToBacklogTask_def orc_eval)

definition requeue0 :: transition_row where
  "requeue0 = \<lparr>tt_task_ref = ''f/a'', tt_from = TS_claimed, tt_to = TS_todo, tt_cause = TC_failure_requeue,
     tt_reason = Some ''session_reset'', tt_run_id = None, tt_actor_id = Some ''human'', tt_idempotency_key = None,
     tt_created_at = Ts 0\<rparr>"

definition reset_store :: task_store where
  "reset_store = store0\<lparr>task_transitions := [claim0, requeue0], task_runs := [binding0\<lparr>rb_state := RB_failed\<rparr>]\<rparr>"

lemma resettable_tasks: "commit_task env0 (reset_changes [claimed_task0]) (session_task env0 claimed_task0) store1 = Inr reset_store"
  by (simp add: commit_task_def reset_changes_def mk_change_def session_task_def claimed_task0_def projectTaskToBacklogTask_def
      store1_def applied_def claim0_def store0_def rev0_def binding0_def commit_status_def requeue0_def reset_store_def
      normalizedDefinition_def setDispatchState_def commit_dispatch_def apply_dispatch_update_def dispatch_columns_ok_def env0_def orc_eval)

lemma resettable_ready: "claims_ready (st_db resettable_st)" and resettable_rows: "readRows (st_db resettable_st) = [claim0_run ''run-1'' ''f/a'' CS_claimed]"
  and resettable_over: "SESSION_CUTOVER_NAME \<in> set (db_cutovers (st_db resettable_st))"
  using commit_keeps_runs_inv [OF runs_db_inv(1) runs_db_commit]
  by (simp_all add: claims_ready_def resettable_st_def cut_over_def readRows_def runs_db'_def runs_db_def runs_inv_def List.map_filter_simps)

abbreviation "claimed0 \<equiv> claim0_run ''run-1'' ''f/a'' CS_claimed"

definition reset_claim0 :: Claim where
  "reset_claim0 = session_claim env0 claimed0"

lemma append_valid_event:
  assumes "ev_event_id ev = None" "\<And>n i. validateEventObject e (ev\<lparr>ev_seq := n, ev_event_id := Some i\<rparr>) = []"
    "uuid e (next_event_seq db) \<notin> er_event_id ` set (db_events db)"
  shows "\<exists>row. append_event e ev db = Inr (db\<lparr>db_events := db_events db @ [row], db_event_seq := next_event_seq db\<rparr>) \<and>
    er_event_id row = uuid e (next_event_seq db)"
proof -
  have v: "validateEventObject e (ev\<lparr>ev_event_id := Some i, ev_seq := n\<rparr>) = []" for n i
    using assms(2) [of i n] by (cases ev) simp
  show ?thesis using assms(1,3)
    by (intro exI [of _ "event_row_of (next_event_seq db) (ev\<lparr>ev_event_id := Some (uuid e (next_event_seq db)), ev_seq := next_event_seq db\<rparr>)"])
      (simp add: append_event_def appendSequencedEvent_def ensureEventIdentity_def Let_def v assms(2) event_row_of_def)
qed

definition claim_row :: "Claim \<Rightarrow> run_row" where
  "claim_row c = \<lparr>rn_run_id = c_run_id c, rn_task_ref = c_task_ref c, rn_agent_id = Some (c_agent_id c), rn_state = c_state c,
     rn_created_at = Ts 0, rn_updated_at = claim_updated_at c, rn_claim_json = Some c\<rparr>"

text \<open>One claim that replaces the only one of the table, with one event.\<close>

lemma commit_one:
  assumes "db_runs db = [r]" "rn_run_id r = c_run_id c" "rn_created_at r = Ts 0" "CUTOVER_NAME \<in> set (db_cutovers db)"
    and "ev_event_id ev = None" "\<And>n i. validateEventObject e (ev\<lparr>ev_seq := n, ev_event_id := Some i\<rparr>) = []"
    and "uuid e (next_event_seq db) \<notin> er_event_id ` set (db_events db)"
  shows "\<exists>row. commit_claims_txn e cj [c] [ev] db =
      Inr (db\<lparr>db_runs := [claim_row c], db_events := db_events db @ [row], db_event_seq := next_event_seq db\<rparr>) \<and>
    er_event_id row = uuid e (next_event_seq db)"
proof -
  let ?db = "db\<lparr>db_runs := [claim_row c]\<rparr>"
  have "upsertClaim c db = Inr ?db"
    using assms(1-3) by (simp add: upsertClaim_def claim_row_def runs_one_active_def)
  moreover have "uuid e (next_event_seq ?db) \<notin> er_event_id ` set (db_events ?db)"
    using assms(7) by (simp add: next_event_seq_def)
  from append_valid_event [OF assms(5,6) this] obtain row where
    "append_event e ev ?db = Inr (?db\<lparr>db_events := db_events db @ [row], db_event_seq := next_event_seq db\<rparr>)"
    "er_event_id row = uuid e (next_event_seq db)" by (auto simp: next_event_seq_def)
  ultimately show ?thesis using assms(1,2,4) by (intro exI [of _ row]) (simp add: commit_claims_txn_def importLegacyClaims_def Let_def)
qed


lemma resettable_claims:
  "\<exists>row. commit_claims_txn env0 cj [reset_claim0] [session_failed_event env0 claimed0] (st_db resettable_st) =
      Inr ((st_db resettable_st)\<lparr>db_runs := [claim_row reset_claim0], db_events := [row], db_event_seq := 1\<rparr>) \<and> er_event_id row = show_nat 1"
proof -
  let ?ev = "session_failed_event env0 claimed0"
  have v: "validateEventObject env0 (?ev\<lparr>ev_seq := n, ev_event_id := Some i\<rparr>) = []" for n i
    by (simp add: session_failed_event_def claim0_run_def event_eval)
  have db: "db_runs (st_db resettable_st) = [claim_row claimed0]" "db_events (st_db resettable_st) = []" "db_event_seq (st_db resettable_st) = 0"
    "CUTOVER_NAME \<in> set (db_cutovers (st_db resettable_st))"
    by (simp_all add: resettable_st_def runs_db'_def runs_db_def empty_db_def claim_row_def claim0_run_def claim_updated_at_def)
  have c: "rn_run_id (claim_row claimed0) = c_run_id reset_claim0" "rn_created_at (claim_row claimed0) = Ts 0"
    by (simp_all add: claim_row_def reset_claim0_def)
  have i: "ev_event_id ?ev = None" by (simp add: session_failed_event_def mk_event_def)
  from commit_one [OF db(1) c db(4) i v, of cj] db show ?thesis
    by (simp add: next_event_seq_def env0_def)
qed

lemma resettable_rollback:
  assumes "er_event_id row = show_nat 1"
  shows "\<exists>row2. commit_claims_txn env0 cj [claimed0] (rollback_event env0 [reset_claim0] claimed0)
      ((st_db resettable_st)\<lparr>db_runs := [claim_row reset_claim0], db_events := [row], db_event_seq := 1, db_sessions := ss\<rparr>) =
      Inr ((st_db resettable_st)\<lparr>db_runs := [claim_row claimed0], db_events := [row, row2], db_event_seq := 2, db_sessions := ss\<rparr>)"
proof -
  let ?db = "(st_db resettable_st)\<lparr>db_runs := [claim_row reset_claim0], db_events := [row], db_event_seq := 1, db_sessions := ss\<rparr>"
  have ro: "rollback_event env0 [reset_claim0] claimed0 =
     [mk_event (now_ts env0) ''claim_created'' ''human'' ''human'' (Some ''run-1'') (Some ''f/a'') (Some ''w'')
        (Some [(''lease_expires_at'', case c_lease_expires_at claimed0 of None \<Rightarrow> JNull | Some t \<Rightarrow> JTime t),
               (''reason'', JStr ''session_reset_rollback'')])]" (is "_ = [?ev]")
    by (simp add: rollback_event_def reset_claim0_def session_claim_def claim0_run_def claim_active_def)
  have v: "validateEventObject env0 (?ev\<lparr>ev_seq := n, ev_event_id := Some i\<rparr>) = []" for n i
    by (simp add: claim0_run_def event_eval)
  have db: "db_runs ?db = [claim_row reset_claim0]" "CUTOVER_NAME \<in> set (db_cutovers ?db)"
    by (simp_all add: resettable_st_def)
  have c: "rn_run_id (claim_row reset_claim0) = c_run_id claimed0" "rn_created_at (claim_row reset_claim0) = Ts 0"
    by (simp_all add: claim_row_def reset_claim0_def)
  have i: "ev_event_id ?ev = None" by (simp add: mk_event_def)
  have f: "uuid env0 (next_event_seq ?db) \<notin> er_event_id ` set (db_events ?db)"
    using assms by (simp add: next_event_seq_def env0_def show_nat.simps)
  from commit_one [OF db(1) c db(2) i v f, of cj] obtain row2 where "commit_claims_txn env0 cj [claimed0] [?ev] ?db =
      Inr (?db\<lparr>db_runs := [claim_row claimed0], db_events := db_events ?db @ [row2], db_event_seq := next_event_seq ?db\<rparr>)" by blast
  then show ?thesis unfolding ro by (intro exI [of _ row2]) (simp add: next_event_seq_def numeral_2_eq_2)
qed

definition restored_store :: task_store where
  "restored_store = store1\<lparr>task_transitions := [claim0, requeue0, claim0\<lparr>tt_reason := Some ''session_reset_rollback'', tt_actor_id := Some ''human''\<rparr>]\<rparr>"

lemma resettable_restore_task: "restore_task env0 [claimed0] claimed_task0 reset_store = Inr restored_store"
  by (simp add: restore_task_def claimed_task0_def projectTaskToBacklogTask_def reactivateRun_def
      store1_def applied_def claim0_def store0_def rev0_def binding0_def requeue0_def reset_store_def restored_store_def
      claim0_run_def claim_active_def env0_def orc_eval)

definition session_closed0 :: session_row where
  "session_closed0 = Session_Props.session0\<lparr>ss_state := SS_offline, ss_state_reason := Some ''session closed'', ss_updated_at := Ts 0\<rparr>"

lemma resettable_reset:
  "\<exists>p st1 row. resetVolatileRuntimeStateForSession env0 ''s'' resettable_st = (Inr p, st1) \<and> er_event_id row = show_nat 1 \<and>
     sr_snapshot p = \<lparr>sn_backlog = [\<lparr>f_ref = ''f'', f_title = ''f'', f_tasks = [claimed_task0]\<rparr>], sn_agents = [agent0], sn_claims = [claimed0]\<rparr> \<and>
     st_store st1 = Some reset_store \<and> st_claims_json st1 = Some [reset_claim0] \<and>
     st_db st1 = (st_db resettable_st)\<lparr>db_runs := [claim_row reset_claim0], db_events := [row], db_event_seq := 1, db_sessions := [session_closed0]\<rparr>"
proof -
  let ?b = "[\<lparr>f_ref = ''f'', f_title = ''f'', f_tasks = [claimed_task0]\<rparr>]"
  let ?st1 = "refreshBacklogProjection (resettable_st\<lparr>st_store := Some reset_store\<rparr>)"
  obtain row where row: "commit_claims_txn env0 (Some [claimed0]) [reset_claim0] [session_failed_event env0 claimed0] (st_db resettable_st) =
      Inr ((st_db resettable_st)\<lparr>db_runs := [claim_row reset_claim0], db_events := [row], db_event_seq := 1\<rparr>)" "er_event_id row = show_nat 1"
    using resettable_claims by blast
  let ?db = "(st_db resettable_st)\<lparr>db_runs := [claim_row reset_claim0], db_events := [row], db_event_seq := 1\<rparr>"
  let ?st2 = "?st1\<lparr>st_db := ?db, st_claims_json := Some [reset_claim0]\<rparr>"
  have store: "st_store resettable_st = Some store1" "st_claims_json resettable_st = Some [claimed0]" by (simp_all add: resettable_st_def)
  have 1: "commitBacklog env0 (map_tasks (session_task env0) ?b) (reset_changes (backlog_tasks ?b)) resettable_st = (Inr (), ?st1)"
    using resettable_tasks by (simp add: commitBacklog_def store)
  have active: "claim_active claimed0" by (simp add: claim0_run_def claim_active_def)
  have 2: "commitClaims env0 (map (session_claim env0) [claimed0]) (map (session_failed_event env0) (filter claim_active [claimed0])) ?st1 = (Inr (), ?st2)"
    using row(1) active store by (simp add: commitClaims_def reset_claim0_def refreshBacklogProjection_def)
  have over: "SESSION_CUTOVER_NAME \<in> set (db_cutovers (st_db ?st2))" using resettable_over by simp
  have sess: "close_sessions (\<lambda>s. ss_agent_id s = ''w'') ''session closed'' (now_ts env0) (db_sessions (st_db ?st2)) = [session_closed0]"
    by (simp add: resettable_st_def close_sessions_def session_closed0_def Session_Props.session0_def now_ts_def env0_def)
  have 3: "close_all_sessions env0 [agent0] ?st2 = (Inr (), ?st2\<lparr>st_db := (st_db ?st2)\<lparr>db_sessions := [session_closed0]\<rparr>\<rparr>)"
    using close_agent_sessions_over [OF over, of env0 "''w''"] sess by (simp add: agent0_def)
  have "\<exists>st'. perform_reset env0 ?b [agent0] [claimed0] resettable_st = (Inr (), st') \<and> st_store st' = Some reset_store \<and>
      st_claims_json st' = Some [reset_claim0] \<and> st_db st' = ?db\<lparr>db_sessions := [session_closed0]\<rparr>"
    unfolding perform_reset_def 1 obind.simps 2 3 write_agents_def by (simp add: refreshBacklogProjection_def)
  then obtain st' where r: "perform_reset env0 ?b [agent0] [claimed0] resettable_st = (Inr (), st')" "st_store st' = Some reset_store"
      "st_claims_json st' = Some [reset_claim0]" "st_db st' = ?db\<lparr>db_sessions := [session_closed0]\<rparr>" by blast
  have "st_agents_json resettable_st = Some [agent0]" by (simp add: resettable_st_def)
  then have "\<exists>p. resetVolatileRuntimeStateForSession env0 ''s'' resettable_st = (Inr p, st') \<and>
     sr_snapshot p = \<lparr>sn_backlog = ?b, sn_agents = [agent0], sn_claims = [claimed0]\<rparr>"
    by (simp add: resetVolatileRuntimeStateForSession_def resettable_backlog check_then_def readAgentsState_def
        readClaims_ready [OF resettable_ready] resettable_rows r(1))
  then show ?thesis using r(2-4) row(2) by blast
qed


lemma session_restored: "reactivate_latest at agent0 (db\<lparr>db_sessions := [session_closed0]\<rparr>) =
    Inr (db\<lparr>db_sessions := [session_closed0\<lparr>ss_state := SS_running, ss_updated_at := at\<rparr>]\<rparr>)"
  by (simp add: reactivate_latest_def running_agent_def agent0_def session_closed0_def Session_Props.session0_def sessions_one_running_def)

lemma resettable_restored:
  assumes "er_event_id row = show_nat 1" "st_store st1 = Some reset_store" "st_claims_json st1 = Some [reset_claim0]"
    and "st_db st1 = (st_db resettable_st)\<lparr>db_runs := [claim_row reset_claim0], db_events := [row], db_event_seq := 1, db_sessions := [session_closed0]\<rparr>"
    and "claims_ready (st_db st1)"
  shows "\<exists>st2. restoreVolatileRuntimeStateFromSnapshot env0
     \<lparr>sn_backlog = [\<lparr>f_ref = ''f'', f_title = ''f'', f_tasks = [claimed_task0]\<rparr>], sn_agents = [agent0], sn_claims = [claimed0]\<rparr> st1 = (Inr (), st2)"
proof -
  let ?b = "[\<lparr>f_ref = ''f'', f_title = ''f'', f_tasks = [claimed_task0]\<rparr>]"
  let ?s1 = "refreshBacklogProjection (st1\<lparr>st_store := Some restored_store\<rparr>)"
  have rows: "readRows (st_db st1) = [reset_claim0]" by (simp add: assms(4) readRows_def claim_row_def List.map_filter_simps)
  have 1: "restoreBacklogStatuses env0 ?b [claimed0] st1 = (Inr (), ?s1)"
    using resettable_restore_task by (simp add: restoreBacklogStatuses_def assms(2) backlog_tasks_def)
  obtain row2 where row2: "commit_claims_txn env0 (Some [reset_claim0]) [claimed0] (rollback_event env0 [reset_claim0] claimed0) (st_db st1) =
      Inr ((st_db resettable_st)\<lparr>db_runs := [claim_row claimed0], db_events := [row, row2], db_event_seq := 2, db_sessions := [session_closed0]\<rparr>)"
    unfolding assms(4) using resettable_rollback [OF assms(1)] by blast
  let ?db = "(st_db resettable_st)\<lparr>db_runs := [claim_row claimed0], db_events := [row, row2], db_event_seq := 2\<rparr>"
  let ?s2 = "?s1\<lparr>st_db := ?db\<lparr>db_sessions := [session_closed0]\<rparr>, st_claims_json := Some [claimed0]\<rparr>"
  have 2: "commitClaims env0 [claimed0] (concat (map (rollback_event env0 [reset_claim0]) [claimed0])) ?s1 = (Inr (), ?s2)"
    using row2 by (simp add: commitClaims_def refreshBacklogProjection_def assms(3))
  have "SESSION_CUTOVER_NAME \<in> set (db_cutovers (st_db ?s2))" using resettable_over by simp
  then have 3: "\<exists>s3. restore_sessions env0 [agent0] ?s2 = (Inr (), s3)"
    by (simp add: restore_sessions_def restoreProviderSessionsForAgents_def importLegacyAgentSessions_def session_restored)
  then obtain s3 where s3: "restore_sessions env0 [agent0] ?s2 = (Inr (), s3)" by blast
  show ?thesis
    unfolding restoreVolatileRuntimeStateFromSnapshot_def Let_def readClaims_ready [OF assms(5)] rows SessionStateSnapshot.select_convs prod.case 1 obind.simps 2 s3 write_agents_def
    by blast
qed

lemma resettable_inv: "store_inv store1"
  using store_step_inv [OF store_step.claim [OF store1_claimed] store0_inv] .


theorem session_reset_roundtrip_witness:
  "\<exists>p st1 st2. resetVolatileRuntimeStateForSession env0 ''s'' resettable_st = (Inr p, st1) \<and>
     restoreVolatileRuntimeStateFromSnapshot env0 (sr_snapshot p) st1 = (Inr (), st2) \<and> fst (readClaims st2) = [claimed0] \<and>
     (\<exists>s2. st_store st2 = Some s2 \<and> status_of s2 ''f/a'' = Some TS_claimed)"
proof -
  obtain p st1 row where r: "resetVolatileRuntimeStateForSession env0 ''s'' resettable_st = (Inr p, st1)" "er_event_id row = show_nat 1"
     "sr_snapshot p = \<lparr>sn_backlog = [\<lparr>f_ref = ''f'', f_title = ''f'', f_tasks = [claimed_task0]\<rparr>], sn_agents = [agent0], sn_claims = [claimed0]\<rparr>"
     "st_store st1 = Some reset_store" "st_claims_json st1 = Some [reset_claim0]"
     "st_db st1 = (st_db resettable_st)\<lparr>db_runs := [claim_row reset_claim0], db_events := [row], db_event_seq := 1, db_sessions := [session_closed0]\<rparr>"
    using resettable_reset by blast
  have store: "st_store resettable_st = Some store1" by (simp add: resettable_st_def)
  have inv: "\<forall>s. st_store resettable_st = Some s \<longrightarrow> store_inv s" using resettable_inv store by simp
  obtain b agents where b: "readBacklog resettable_st = Inr b"
    "perform_reset env0 b agents (readRows (st_db resettable_st)) resettable_st = (Inr (), st1)"
    using reset_parts [OF resettable_ready r(1)] by blast
  have ready: "claims_ready (st_db st1)" by (rule reset_effect(2) [OF resettable_ready resettable_over inv b])
  obtain st2 where s: "restoreVolatileRuntimeStateFromSnapshot env0 (sr_snapshot p) st1 = (Inr (), st2)"
    unfolding r(3) using resettable_restored [OF r(2,4,5,6) ready] by blast
  have before: "status_of store1 ''f/a'' = Some TS_claimed" by (simp add: status_of_def store1_def applied_def claim0_def store0_def orc_eval)
  have cl: "claimed_in [claimed0] ''f/a''" by (simp add: claimed_in_def claim0_run_def claim_active_def)
  have f: "fst (readClaims resettable_st) = [claimed0]" by (simp add: readClaims_ready [OF resettable_ready] resettable_rows)
  from session_reset_roundtrip [OF resettable_ready resettable_over store resettable_inv r(1) s] before cl f
  have "fst (readClaims st2) = [claimed0] \<and> (\<exists>s2. st_store st2 = Some s2 \<and> status_of s2 ''f/a'' = Some TS_claimed)" by auto
  with r(1) s show ?thesis by blast
qed

section \<open>Part of the system\<close>

context state_invariant begin

lemma sound_close_all: "ok st \<Longrightarrow> sound ok (close_all_sessions e as st)"
proof (induction as arbitrary: st)
  case (Cons a as)
  show ?case unfolding close_all_sessions.simps by (intro sound_intros Cons)
qed (simp add: sound_def)

lemma sound_session_reset: "ok st \<Longrightarrow> sound ok (resetVolatileRuntimeStateForSession e sid st)"
  unfolding resetVolatileRuntimeStateForSession_def perform_reset_def write_agents_def Let_def
  by (intro sound_intros sound_close_all) simp_all

lemma sound_session_reuse: "ok st \<Longrightarrow> sound ok (prepareSessionReuse sid st)"
  unfolding prepareSessionReuse_def Let_def by (intro sound_intros)

end

end
