(* ===== verification/Task_Body.thy ===== *)
theory Task_Body
  imports Project_Tasks
begin

text \<open>
  The Markdown body of a task: the default body of a task that is created from fields (\<^verbatim>\<open>renderTaskBody\<close> of
  \<^verbatim>\<open>lib/projectTasks.ts\<close>), and the acceptance criteria that a body states (\<^verbatim>\<open>parseBodyAcceptanceCriteria\<close> of
  \<^verbatim>\<open>lib/projectTaskStore.ts\<close>), with the regular expressions written out. Texts are ASCII, as elsewhere.
\<close>

section \<open>Lines\<close>

fun split_lines :: "string \<Rightarrow> string list" where
  "split_lines [] = [[]]"
| "split_lines (c # cs) =
     (if c = CHR 0x0A then [] # split_lines cs
      else case split_lines cs of [] \<Rightarrow> [[c]] | l # ls \<Rightarrow> (c # l) # ls)"

definition to_lower :: "char \<Rightarrow> char" where
  "to_lower c = (if 65 \<le> char_code c \<and> char_code c \<le> 90 then char_of (char_code c + 32) else c)"

definition trim_right :: "string \<Rightarrow> string" where
  "trim_right s = rev (dropWhile is_ws (rev s))"

text \<open>The dot of a regular expression: any character but a line terminator.\<close>

definition re_dot :: "char \<Rightarrow> bool" where
  "re_dot c \<longleftrightarrow> c \<noteq> CHR 0x0A \<and> c \<noteq> CHR 0x0D"

section \<open>Parsing (projectTaskStore.ts)\<close>

definition hashes :: "string \<Rightarrow> nat" where
  "hashes l = length (takeWhile (\<lambda>c. c = CHR ''#'') l)"

text \<open>\<^verbatim>\<open>/^#{1,6}\s/\<close>, which may be followed by anything.\<close>

definition is_heading :: "string \<Rightarrow> bool" where
  "is_heading l \<longleftrightarrow> 1 \<le> hashes l \<and> hashes l \<le> 6 \<and> (case drop (hashes l) l of [] \<Rightarrow> False | c # _ \<Rightarrow> is_ws c)"

text \<open>\<^verbatim>\<open>/^#{1,6}\s+acceptance criteria\s*$/i\<close> on the trimmed line.\<close>

definition is_criteria_heading :: "string \<Rightarrow> bool" where
  "is_criteria_heading line \<longleftrightarrow>
     (let l = js_trim line in
      is_heading l \<and> map to_lower (dropWhile is_ws (drop (hashes l) l)) = ''acceptance criteria'')"

text \<open>
  \<^verbatim>\<open>(.+?)\s*$\<close> after the white space \<open>w\<close> that a greedy \<^verbatim>\<open>\s+\<close> took, where \<open>r\<close> starts with no white space. If
  nothing is left, the pattern gives white space back, one character at a time.
\<close>

definition lazy_item :: "string \<Rightarrow> string \<Rightarrow> string option" where
  "lazy_item w r =
     (if r = []
      then map_option (\<lambda>c. [c]) (List.find re_dot (rev (tl w)))
      else if list_all re_dot (trim_right r) then Some (trim_right r) else None)"

text \<open>\<^verbatim>\<open>(?:\[[ xX]\]\s+)?(.+?)\s*$\<close>; without a match behind the box the box is text.\<close>

definition boxed_item :: "string \<Rightarrow> string \<Rightarrow> string option" where
  "boxed_item w r =
     coalesce
       (case r of
          b # c # d # t \<Rightarrow>
            if b = CHR ''['' \<and> c \<in> {CHR '' '', CHR ''x'', CHR ''X''} \<and> d = CHR '']'' \<and> takeWhile is_ws t \<noteq> []
            then lazy_item (takeWhile is_ws t) (dropWhile is_ws t) else None
        | _ \<Rightarrow> None)
       (lazy_item w r)"

text \<open>\<^verbatim>\<open>/^\s*[-*]\s+(?:\[[ xX]\]\s+)?(.+?)\s*$/\<close>\<close>

definition parse_item :: "string \<Rightarrow> string option" where
  "parse_item line =
     (case dropWhile is_ws line of
        [] \<Rightarrow> None
      | c # r \<Rightarrow>
          if (c = CHR ''-'' \<or> c = CHR ''*'') \<and> takeWhile is_ws r \<noteq> []
          then boxed_item (takeWhile is_ws r) (dropWhile is_ws r) else None)"

definition parseBodyAcceptanceCriteria :: "string \<Rightarrow> string list" where
  "parseBodyAcceptanceCriteria body =
     List.map_filter parse_item
       (takeWhile (\<lambda>l. \<not> is_heading l) (tl (dropWhile (\<lambda>l. \<not> is_criteria_heading l) (split_lines body))))"

section \<open>Rendering (projectTasks.ts)\<close>

definition newline :: string where "newline = [CHR 0x0A]"

definition item_line :: "string \<Rightarrow> string" where
  "item_line i = ''- [ ] '' @ i"

definition criteria_section :: "string list \<Rightarrow> string" where
  "criteria_section items = ''## Acceptance criteria'' @ newline @ newline @ join_with newline (map item_line items)"

definition renderTaskBody :: "string \<Rightarrow> string option \<Rightarrow> string list \<Rightarrow> string" where
  "renderTaskBody title description items =
     join_with (newline @ newline)
       ([''# '' @ title] @
        (if js_trim (or_default description []) \<noteq> [] then [js_trim (or_default description [])] else []) @
        (if items \<noteq> [] then [criteria_section items] else [])) @ newline"

section \<open>Rendered criteria are read back\<close>

lemma split_lines_nonempty [simp]: "split_lines s \<noteq> []"
  by (cases s) (auto split: list.split)

lemma split_lines_append: "split_lines (a @ newline @ b) = split_lines a @ split_lines b"
proof (induction a)
  case (Cons c a)
  then show ?case by (cases "split_lines a") auto
qed (simp add: newline_def)

lemma split_lines_line: "CHR 0x0A \<notin> set l \<Longrightarrow> split_lines l = [l]"
  by (induction l) auto

lemma split_lines_join:
  "ls \<noteq> [] \<Longrightarrow> (\<And>l. l \<in> set ls \<Longrightarrow> CHR 0x0A \<notin> set l) \<Longrightarrow> split_lines (join_with newline ls) = ls"
  by (induction newline ls rule: join_with.induct) (simp_all add: split_lines_line split_lines_append)

definition body_lines :: "string list \<Rightarrow> string list" where
  "body_lines ps = concat (map (\<lambda>p. split_lines p @ [[]]) ps)"

lemma split_lines_parts: "ps \<noteq> [] \<Longrightarrow> split_lines (join_with (newline @ newline) ps @ newline) = body_lines ps"
proof (induction ps rule: induct_list012)
  case (2 p)
  then show ?case using split_lines_append [of p "[]"] by (simp add: body_lines_def)
next
  case (3 p q ps)
  have "split_lines (newline @ x) = [] # split_lines x" for x using split_lines_append [of "[]" x] by simp
  with 3 show ?case by (simp add: body_lines_def split_lines_append)
qed simp

definition plain_item :: "string \<Rightarrow> bool" where
  "plain_item i \<longleftrightarrow> i \<noteq> [] \<and> js_trim i = i \<and> list_all re_dot i"

lemma trimmed_ends:
  assumes "js_trim i = i" "i \<noteq> []"
  shows "\<not> is_ws (hd i)" "trim_right i = i"
proof -
  have le: "length (js_trim i) \<le> length (dropWhile is_ws i)" unfolding js_trim_def
    by (metis length_dropWhile_le length_rev)
  show h: "\<not> is_ws (hd i)"
  proof
    assume "is_ws (hd i)"
    then have "dropWhile is_ws i = dropWhile is_ws (tl i)" using assms(2) by (cases i) auto
    then have "length (dropWhile is_ws i) \<le> length (tl i)" by (metis length_dropWhile_le)
    with le assms show False by (cases i) auto
  qed
  have "dropWhile is_ws i = i" using h assms(2) by (cases i) auto
  with assms(1) show "trim_right i = i" by (simp add: js_trim_def trim_right_def)
qed

lemma parse_rendered_item:
  assumes "plain_item i"
  shows "parse_item (item_line i) = Some i"
proof -
  from assms have i: "i \<noteq> []" "\<not> is_ws (hd i)" "trim_right i = i" "list_all re_dot i"
    using trimmed_ends [of i] by (auto simp: plain_item_def)
  then obtain c cs where c: "i = c # cs" "\<not> is_ws c" by (cases i) auto
  have "takeWhile is_ws i = []" "dropWhile is_ws i = i" using c by simp_all
  with i show ?thesis
    by (simp add: item_line_def parse_item_def boxed_item_def lazy_item_def is_ws_def char_code_def)
qed

lemma criteria_heading [simp]: "is_criteria_heading ''## Acceptance criteria''" "\<not> is_criteria_heading []"
  by (simp_all add: is_criteria_heading_def is_heading_def hashes_def js_trim_def is_ws_def char_code_def to_lower_def char_of_def bit_0 Let_def)

lemma item_not_heading [simp]: "\<not> is_heading (item_line i)" "\<not> is_heading []"
  by (simp_all add: item_line_def is_heading_def hashes_def)

lemma section_lines:
  assumes "items \<noteq> []" "\<And>i. i \<in> set items \<Longrightarrow> plain_item i"
  shows "split_lines (criteria_section items) = ''## Acceptance criteria'' # [] # map item_line items"
proof -
  have n: "CHR 0x0A \<notin> set l" if "l \<in> set (map item_line items)" for l
  proof -
    from that obtain i where i: "i \<in> set items" "l = item_line i" unfolding set_map by (rule imageE)
    have "list_all re_dot i" using assms(2) [OF i(1)] by (simp add: plain_item_def)
    then have "CHR 0x0A \<notin> set i" by (auto simp: list_all_iff re_dot_def)
    with i(2) show ?thesis by (simp add: item_line_def)
  qed
  have "split_lines (join_with newline (map item_line items)) = map item_line items"
    by (rule split_lines_join [OF _ n]) (use assms(1) in simp_all)
  moreover have "split_lines (newline @ x) = [] # split_lines x" for x using split_lines_append [of "[]" x] by simp
  ultimately show ?thesis unfolding criteria_section_def split_lines_append by simp
qed

definition mentions_criteria :: "string \<Rightarrow> bool" where
  "mentions_criteria text \<longleftrightarrow> (\<exists>l \<in> set (split_lines text). is_criteria_heading l)"

text \<open>
  C39. The acceptance criteria that a task is created with are the ones its body states: parsing the rendered
  body gives back the criteria, in order, whatever the title and the description are, as
  long as neither has a criteria heading of its own and each criterion is one trimmed line.
\<close>

theorem criteria_roundtrip:
  assumes "\<not> mentions_criteria (''# '' @ title)" "\<not> mentions_criteria (js_trim (or_default description []))"
    and "\<And>i. i \<in> set items \<Longrightarrow> plain_item i"
  shows "parseBodyAcceptanceCriteria (renderTaskBody title description items) = items"
proof -
  let ?d = "js_trim (or_default description [])"
  define ps where "ps = [''# '' @ title] @ (if ?d \<noteq> [] then [?d] else [])"
  have intro: "\<forall>l \<in> set (body_lines ps). \<not> is_criteria_heading l"
    using assms(1,2) by (auto simp: ps_def body_lines_def mentions_criteria_def)
  have lines: "split_lines (renderTaskBody title description items) =
      body_lines ps @ body_lines (if items \<noteq> [] then [criteria_section items] else [])"
    unfolding renderTaskBody_def append_assoc [symmetric] ps_def [symmetric] by (subst split_lines_parts) (simp_all add: ps_def body_lines_def)
  show ?thesis
  proof (cases "items = []")
    case True
    then have "split_lines (renderTaskBody title description items) = body_lines ps" using lines by (simp add: body_lines_def)
    moreover have "dropWhile (\<lambda>l. \<not> is_criteria_heading l) (body_lines ps) = []" using intro by simp
    ultimately show ?thesis unfolding parseBodyAcceptanceCriteria_def using True by (simp only: list.sel takeWhile.simps List.map_filter_simps)
  next
    case False
    let ?items = "map item_line items"
    have "body_lines [criteria_section items] = ''## Acceptance criteria'' # ([] # ?items @ [[]])"
      using section_lines [OF False assms(3)] by (simp add: body_lines_def)
    with False have l: "split_lines (renderTaskBody title description items) = body_lines ps @ ''## Acceptance criteria'' # ([] # ?items @ [[]])"
      using lines by simp
    have "dropWhile (\<lambda>l. \<not> is_criteria_heading l) (body_lines ps @ ''## Acceptance criteria'' # ([] # ?items @ [[]])) =
        ''## Acceptance criteria'' # ([] # ?items @ [[]])"
      using intro by (simp add: dropWhile_append2)
    moreover have "takeWhile (\<lambda>l. \<not> is_heading l) ([] # ?items @ [[]]) = [] # ?items @ [[]]"
      unfolding takeWhile_eq_all_conv by auto
    moreover have "List.map_filter parse_item ([] # ?items @ [[]]) = items"
    proof -
      have "List.map_filter parse_item (map item_line items) = items"
        using assms(3) by (induction items) (simp_all add: List.map_filter_simps parse_rendered_item)
      then show ?thesis by (simp add: List.map_filter_def parse_item_def)
    qed
    ultimately show ?thesis unfolding parseBodyAcceptanceCriteria_def l by (simp only: list.sel)
  qed
qed

theorem criteria_roundtrip_witness:
  "parseBodyAcceptanceCriteria (renderTaskBody ''T'' (Some '' why '') [''one'', ''[x] two'']) = [''one'', ''[x] two'']"
proof (rule criteria_roundtrip)
  show "\<not> mentions_criteria (''# '' @ ''T'')" "\<not> mentions_criteria (js_trim (or_default (Some '' why '') []))"
    by (simp_all add: mentions_criteria_def is_criteria_heading_def is_heading_def hashes_def js_trim_def is_ws_def char_code_def to_lower_def Let_def)
  show "\<And>i. i \<in> set [''one'', ''[x] two''] \<Longrightarrow> plain_item i"
    by (auto simp: plain_item_def js_trim_def is_ws_def char_code_def re_dot_def)
qed

end
