(* ===== verification/Task_Authoring.thy ===== *)
theory Task_Authoring
  imports Task_Body Claim_Manager Agent_Registry
begin

text \<open>
  The authoring commands of \<^verbatim>\<open>lib/projectTasks.ts\<close>: creating and revising tasks from the fields that a caller
  sends, one by one or as a batch. A field is a JSON value of the caller's object, absent
  (\<^verbatim>\<open>undefined\<close>) when the object has no such key; a text is a \<open>JStr\<close>.
\<close>

section \<open>Input fields\<close>

definition slug_text :: "string \<Rightarrow> string" where
  "slug_text s = map to_lower s"

text \<open>\<^verbatim>\<open>replace(/[^a-z0-9]+/g, '-')\<close>\<close>

fun dashes :: "bool \<Rightarrow> string \<Rightarrow> string" where
  "dashes gap [] = []"
| "dashes gap (c # cs) =
     (if alnum_lower c then c # dashes False cs else if gap then dashes True cs else CHR ''-'' # dashes True cs)"

definition slugify :: "string \<Rightarrow> string" where
  "slugify text =
     (let s = dropWhile (\<lambda>c. c = CHR ''-'') (dashes False (slug_text text)) in
      take 48 (rev (dropWhile (\<lambda>c. c = CHR ''-'') (rev s))))"

definition optionalString :: "json option \<Rightarrow> string \<Rightarrow> string option result" where
  "optionalString value field =
     (case value of
        None \<Rightarrow> Inr None
      | Some JNull \<Rightarrow> Inr None
      | Some (JStr s) \<Rightarrow> Inr (Some s)
      | Some _ \<Rightarrow> Inl (InputError (field @ '' must be a string'')))"

fun all_strings :: "json list \<Rightarrow> string list option" where
  "all_strings [] = Some []"
| "all_strings (JStr s # xs) = map_option ((#) s) (all_strings xs)"
| "all_strings (_ # xs) = None"

definition optionalStringArray :: "json option \<Rightarrow> string \<Rightarrow> string list option result" where
  "optionalStringArray value field =
     (case value of
        None \<Rightarrow> Inr None
      | Some JNull \<Rightarrow> Inr None
      | Some (JArr xs) \<Rightarrow> (case all_strings xs of
          Some ss \<Rightarrow> Inr (Some ss)
        | None \<Rightarrow> Inl (InputError (field @ '' must be an array of strings'')))
      | Some _ \<Rightarrow> Inl (InputError (field @ '' must be an array of strings'')))"

definition optionalChoice :: "json option \<Rightarrow> string \<Rightarrow> string list \<Rightarrow> string option result" where
  "optionalChoice value field choices =
     (case value of
        None \<Rightarrow> Inr None
      | Some JNull \<Rightarrow> Inr None
      | Some v \<Rightarrow> (case json_str (Some v) of
          Some s \<Rightarrow> if s \<in> set choices then Inr (Some s) else Inl (InputError (''Invalid '' @ field @ '': '' @ json_stringify v))
        | None \<Rightarrow> Inl (InputError (''Invalid '' @ field @ '': '' @ json_stringify v))))"

definition validateDependencyRefs :: "string list option \<Rightarrow> unit result" where
  "validateDependencyRefs dependsOn =
     (case List.find (\<lambda>d. \<not> TASK_REF_RE d) (or_default dependsOn []) of
        None \<Rightarrow> Inr ()
      | Some d \<Rightarrow> Inl (InputError (''Invalid depends_on ref: '' @ d)))"

definition assertActor :: "string \<Rightarrow> unit result" where
  "assertActor actorId =
     (if AGENT_ID_RE actorId then Inr ()
      else Inl (InputError (''Invalid actor-id: '' @ actorId @ ''. Must match ^[a-z0-9][a-z0-9-]*$.'')))"

definition provider_input :: "json option \<Rightarrow> string option result" where
  "provider_input value =
     (case value of
        None \<Rightarrow> Inr None
      | Some JNull \<Rightarrow> Inr None
      | Some v \<Rightarrow> (case json_str (Some v) of
          Some p \<Rightarrow> if isSupportedProvider p then Inr (Some p)
                    else Inl (InputError (''Invalid required_provider: '' @ json_stringify v @ ''. Must be codex, claude, or gemini.''))
        | None \<Rightarrow> Inl (InputError (''Invalid required_provider: '' @ json_stringify v @ ''. Must be codex, claude, or gemini.''))))"

section \<open>Metadata\<close>

definition obj_delete :: "string \<Rightarrow> payload \<Rightarrow> payload" where
  "obj_delete k m = filter (\<lambda>kv. fst kv \<noteq> k) m"

text \<open>The local \<^verbatim>\<open>set\<close> of \<^verbatim>\<open>definitionMetadata\<close>: null and an empty list delete the key, an absent value keeps it.\<close>

definition meta_set :: "string \<Rightarrow> json option \<Rightarrow> payload \<Rightarrow> payload" where
  "meta_set k value m =
     (case value of
        None \<Rightarrow> m
      | Some JNull \<Rightarrow> obj_delete k m
      | Some (JArr []) \<Rightarrow> obj_delete k m
      | Some v \<Rightarrow> obj_set k v m)"

definition jstrs :: "string list \<Rightarrow> json" where
  "jstrs xs = JArr (map JStr xs)"

text \<open>\<^verbatim>\<open>input.f === null ? null : check(input.f)\<close>\<close>

definition nullable :: "json option \<Rightarrow> string option result \<Rightarrow> json option result" where
  "nullable value check = (if value = Some JNull then Inr (Some JNull) else rbind check (\<lambda>v. Inr (map_option JStr v)))"

definition definitionMetadata :: "payload \<Rightarrow> payload \<Rightarrow> string \<Rightarrow> payload result" where
  "definitionMetadata input base bodyMarkdown =
     (let v = map_of input in
      rbind (optionalChoice (v ''task_type'') ''task_type'' TASK_TYPES) (\<lambda>taskType.
      rbind (nullable (v ''description'') (optionalString (v ''description'') ''description'')) (\<lambda>description.
      rbind (optionalStringArray (v ''acceptance_criteria'') ''acceptance_criteria'') (\<lambda>criteria.
      rbind (optionalStringArray (v ''required_capabilities'') ''required_capabilities'') (\<lambda>capabilities.
      rbind (nullable (v ''model'') (optionalString (v ''model'') ''model'')) (\<lambda>model.
      rbind (nullable (v ''review_level'') (optionalChoice (v ''review_level'') ''review_level'' [''none'', ''light'', ''full''])) (\<lambda>review.
      rbind (nullable (v ''merge_strategy'') (optionalChoice (v ''merge_strategy'') ''merge_strategy'' [''direct'', ''pr''])) (\<lambda>merge.
        (let m = meta_set ''merge_strategy'' merge
                   (meta_set ''review_level'' review
                     (meta_set ''model'' model
                       (meta_set ''required_capabilities'' (map_option jstrs capabilities)
                         (meta_set ''acceptance_criteria'' (map_option jstrs criteria)
                           (meta_set ''description'' description
                             (meta_set ''task_type'' (map_option JStr taskType) base))))));
             parsed = parseBodyAcceptanceCriteria bodyMarkdown in
         Inr (if v ''acceptance_criteria'' = None \<and> v ''body_markdown'' \<noteq> None
              then (if parsed \<noteq> [] then obj_set ''acceptance_criteria'' (jstrs parsed) m
                    else obj_delete ''acceptance_criteria'' m)
              else m))))))))))"

section \<open>Creating a task\<close>

text \<open>\<^verbatim>\<open>bodyMarkdown.split('\n').find((line) => line.startsWith('# '))?.slice(2) ?? ''\<close>\<close>

definition first_title :: "string \<Rightarrow> string" where
  "first_title body =
     (case List.find (starts_with ''# '') (split_lines body) of None \<Rightarrow> [] | Some l \<Rightarrow> drop 2 l)"

definition prepareProjectTask :: "payload \<Rightarrow> string \<Rightarrow> task_store \<Rightarrow> (TaskSpecInput \<times> string option) result" where
  "prepareProjectTask input actorId s =
     (let v = map_of input in
      rbind (assertActor actorId) (\<lambda>_.
      rbind (optionalString (v ''feature'') ''feature'') (\<lambda>feature0.
      rbind (optionalString (v ''description'') ''description'') (\<lambda>description.
      rbind (optionalStringArray (v ''acceptance_criteria'') ''acceptance_criteria'') (\<lambda>criteria.
      rbind (optionalString (v ''title'') ''title'') (\<lambda>explicitTitle.
      rbind (optionalString (v ''body_markdown'') ''body_markdown'') (\<lambda>explicitBody.
        if falsy explicitTitle \<and> falsy explicitBody then Inl (InputError ''title or body_markdown is required'')
        else
          (let feature = (if truthy (map_option js_trim feature0) then js_trim (the feature0) else ''general'');
               body = or_default explicitBody (renderTaskBody (or_default explicitTitle []) description (or_default criteria [])) in
           rbind (optionalString (v ''ref'') ''ref'') (\<lambda>ref0.
             (let slug = or_default ref0 (slugify (or_default explicitTitle (first_title body)));
                  ref = feature @ ''/'' @ slug in
              if slug = [] \<or> \<not> TASK_REF_RE ref then Inl (InputError (''Invalid task ref: '' @ ref))
              else
                rbind (optionalStringArray (v ''depends_on'') ''depends_on'') (\<lambda>dependsOn.
                rbind (validateDependencyRefs dependsOn) (\<lambda>_.
                rbind (optionalChoice (v ''priority'') ''priority'' TASK_PRIORITIES) (\<lambda>priority.
                rbind (provider_input (v ''required_provider'')) (\<lambda>provider.
                rbind (optionalString (v ''owner'') ''owner'') (\<lambda>owner.
                  if (case owner of None \<Rightarrow> False | Some x \<Rightarrow> \<not> AGENT_ID_RE x)
                  then Inl (InputError (''Invalid owner: '' @ the owner @ ''. Must match ^[a-z0-9][a-z0-9-]*$.''))
                  else if getTask ref s \<noteq> None then Inl (ConflictError (''Task already exists: '' @ ref))
                  else rbind (definitionMetadata input [(''feature'', JStr feature), (''task_type'', JStr ''implementation'')] body) (\<lambda>metadata.
                    Inr (\<lparr>in_ref = ref, in_title = (if truthy explicitTitle then explicitTitle else None), in_bodyMarkdown = body,
                          in_priority = priority, in_requiredProvider = provider,
                          in_metadata = Some (if falsy explicitBody then obj_set ''body_source'' (JStr ''rendered'') metadata else metadata),
                          in_dependsOn = Some (or_default dependsOn []), in_createdAt = None\<rparr>, owner)))))))))))))))))"

definition created_dispatch :: "string \<Rightarrow> string option \<Rightarrow> DispatchUpdate" where
  "created_dispatch actorId owner =
     \<lparr>du_owner = Some owner, du_planningState = Some (Some ''ready_for_dispatch''), du_delegatedBy = Some (Some actorId),
      du_taskType = None, du_requeueEligibleAfter = None, du_attemptCount = None\<rparr>"

definition actor_type :: "string \<Rightarrow> string" where
  "actor_type actorId = (if actorId = ''human'' then ''human'' else ''agent'')"

text \<open>A value of the metadata as the payload of an event has it; an absent one leaves its key out.\<close>

definition opt_field :: "string \<Rightarrow> json option \<Rightarrow> payload" where
  "opt_field k v = (case v of None \<Rightarrow> [] | Some x \<Rightarrow> [(k, x)])"

definition added_event :: "string \<Rightarrow> payload \<Rightarrow> ProjectTask \<Rightarrow> OrcEvent" where
  "added_event actorId metadata task =
     mk_event (pt_createdAt task) ''task_added'' (actor_type actorId) actorId None (Some (pt_ref task)) None
       (Some ([(''title'', JStr (pt_title task))] @ opt_field ''task_type'' (map_of metadata ''task_type'') @
              opt_field ''feature_ref'' (map_of metadata ''feature'') @
              [(''spec_revision'', JNum (int (pt_revision task))), (''content_hash'', JStr (pt_contentHash task))]))"

text \<open>The transaction of a creation: the new store, the task and the event that announces it.\<close>

definition create_txn :: "env \<Rightarrow> payload \<Rightarrow> string \<Rightarrow> task_store \<Rightarrow> (ProjectTask \<times> OrcEvent list \<times> task_store) result" where
  "create_txn e input actorId s =
     rbind (prepareProjectTask input actorId s) (\<lambda>(spec, owner).
     rbind (store_createTask e spec s) (\<lambda>s1.
     rbind (setDispatchState (in_ref spec) (created_dispatch actorId owner) s1) (\<lambda>s2.
       (case getTask (in_ref spec) s2 of
          None \<Rightarrow> Inl (PlainError ''Cannot read properties of null'')
        | Some task \<Rightarrow> Inr (task, [added_event actorId (or_default (in_metadata spec) []) task], s2)))))"

section \<open>Revising a task\<close>

definition REVISABLE_FIELDS :: "string list" where
  "REVISABLE_FIELDS = [''title'', ''body_markdown'', ''task_type'', ''priority'', ''description'', ''acceptance_criteria'', ''depends_on'',
     ''required_capabilities'', ''required_provider'', ''model'', ''review_level'', ''merge_strategy'']"

definition STATUS_EDIT_MESSAGE :: string where
  "STATUS_EDIT_MESSAGE = ''Task edits cannot change status. Use lifecycle commands such as task-mark-done, task-reset, task-unblock, cancel_task or delegate_task.''"

text \<open>What the edit says, before the store is read.\<close>

definition check_edit :: "payload \<Rightarrow> json option \<Rightarrow> string \<Rightarrow> int result" where
  "check_edit input expectedRevision actorId =
     rbind (assertActor actorId) (\<lambda>_.
       (let rejected = filter (\<lambda>k. k \<notin> set REVISABLE_FIELDS) (map fst input) in
        if ''status'' \<in> set rejected then Inl (InputError STATUS_EDIT_MESSAGE)
        else case expectedRevision of
          Some (JNum n) \<Rightarrow>
            if rejected \<noteq> [] then Inl (InputError (''Task edits cannot change: '' @ join_with '', '' rejected)) else Inr n
        | _ \<Rightarrow> Inl (InputError ''expected_revision is required for project task edits'')))"

text \<open>The body of the next revision: the caller's, or a rendered one rendered again.\<close>

definition next_body :: "string option \<Rightarrow> string option \<Rightarrow> ProjectTask \<Rightarrow> payload \<Rightarrow> string option \<times> payload" where
  "next_body bodyMarkdown title current metadata =
     (if bodyMarkdown \<noteq> None \<and> bodyMarkdown \<noteq> Some (pt_bodyMarkdown current) then (bodyMarkdown, obj_delete ''body_source'' metadata)
      else if bodyMarkdown = None \<and> map_of metadata ''body_source'' = Some (JStr ''rendered'')
      then (Some (renderTaskBody (or_default title (pt_title current)) (json_str (map_of metadata ''description''))
                   (or_default (json_strs (map_of metadata ''acceptance_criteria'')) [])), metadata)
      else (bodyMarkdown, metadata))"

definition edit_changes :: "payload \<Rightarrow> ProjectTask \<Rightarrow> TaskSpecChanges result" where
  "edit_changes input current =
     (let v = map_of input in
      rbind (optionalString (v ''body_markdown'') ''body_markdown'') (\<lambda>bodyMarkdown.
      rbind (if v ''depends_on'' = Some JNull then Inr (Some [])
             else optionalStringArray (v ''depends_on'') ''depends_on'') (\<lambda>dependsOn.
      rbind (validateDependencyRefs dependsOn) (\<lambda>_.
      rbind (optionalChoice (v ''priority'') ''priority'' TASK_PRIORITIES) (\<lambda>priority.
      rbind (provider_input (v ''required_provider'')) (\<lambda>provider.
      rbind (definitionMetadata input (filter (\<lambda>kv. fst kv \<notin> set INDEXED_METADATA_KEYS) (pt_metadata current))
               (or_default bodyMarkdown (pt_bodyMarkdown current))) (\<lambda>metadata0.
      rbind (optionalString (v ''title'') ''title'') (\<lambda>title.
        (let (nextBody, metadata) = next_body bodyMarkdown title current metadata0 in
         Inr \<lparr>ch_title = title, ch_bodyMarkdown = nextBody, ch_priority = priority,
              ch_requiredProvider = (if v ''required_provider'' = None then None else Some provider),
              ch_metadata = Some metadata, ch_dependsOn = dependsOn\<rparr>)))))))))"

definition updated_event :: "string \<Rightarrow> payload \<Rightarrow> int \<Rightarrow> ProjectTask \<Rightarrow> OrcEvent" where
  "updated_event actorId input expectedRevision task =
     mk_event (pt_updatedAt task) ''task_updated'' (actor_type actorId) actorId None (Some (pt_ref task)) None
       (Some [(''status'', JStr (status_str (pt_status task))), (''fields'', JArr (map (\<lambda>kv. JStr (fst kv)) input)),
              (''spec_revision'', JNum (int (pt_revision task))), (''previous_revision'', JNum expectedRevision),
              (''content_hash'', JStr (pt_contentHash task))])"

text \<open>The answer's flag \<^verbatim>\<open>changed\<close> is whether there is an event to announce.\<close>

definition revise_txn :: "env \<Rightarrow> string \<Rightarrow> json option \<Rightarrow> payload \<Rightarrow> string \<Rightarrow> task_store \<Rightarrow> (ProjectTask \<times> OrcEvent list \<times> task_store) result" where
  "revise_txn e ref expectedRevision input actorId s =
     rbind (check_edit input expectedRevision actorId) (\<lambda>n.
       (case getTask ref s of
          None \<Rightarrow> Inl (NotFoundError (''Task not found: '' @ ref))
        | Some current \<Rightarrow>
            rbind (edit_changes input current) (\<lambda>changes.
            rbind (store_reviseTask e ref n changes s) (\<lambda>(changed, s1).
              (case getTask ref s1 of
                 None \<Rightarrow> Inl (PlainError ''Cannot read properties of null'')
               | Some task \<Rightarrow> Inr (task, if changed then [updated_event actorId input n task] else [], s1))))))"

section \<open>Batches and notifications\<close>

datatype authoring_call =
    Create_Task payload string
  | Revise_Task string "json option" payload string

fun call_txn :: "env \<Rightarrow> authoring_call \<Rightarrow> task_store \<Rightarrow> (ProjectTask \<times> OrcEvent list \<times> task_store) result" where
  "call_txn e (Create_Task input actorId) s = create_txn e input actorId s"
| "call_txn e (Revise_Task ref expectedRevision input actorId) s = revise_txn e ref expectedRevision input actorId s"

text \<open>The calls of a batch in one transaction, and the notifications they leave pending, in order.\<close>

fun run_calls :: "env \<Rightarrow> authoring_call list \<Rightarrow> task_store \<Rightarrow> (ProjectTask list \<times> OrcEvent list \<times> task_store) result" where
  "run_calls e [] s = Inr ([], [], s)"
| "run_calls e (c # cs) s =
     rbind (call_txn e c s) (\<lambda>(task, evs, s1).
     rbind (run_calls e cs s1) (\<lambda>(ts, evs2, s2). Inr (task # ts, evs @ evs2, s2)))"

fun emit_all :: "env \<Rightarrow> OrcEvent list \<Rightarrow> orc_state \<Rightarrow> unit outcome" where
  "emit_all e [] st = (Inr (), st)"
| "emit_all e (ev # evs) st = obind (appendEventTo e ev st) (\<lambda>_. emit_all e evs)"

text \<open>After the commit: the events, then the projection, when there is anything to tell.\<close>

definition publish :: "env \<Rightarrow> 'a \<Rightarrow> OrcEvent list \<Rightarrow> orc_state \<Rightarrow> 'a outcome" where
  "publish e result evs st =
     obind (emit_all e evs st) (\<lambda>_ st1. (Inr result, if evs = [] then st1 else refreshBacklogProjection st1))"

definition with_store :: "(task_store \<Rightarrow> ('a \<times> OrcEvent list \<times> task_store) result) \<Rightarrow> env \<Rightarrow> orc_state \<Rightarrow> 'a outcome" where
  "with_store txn e st =
     (case st_store st of
        None \<Rightarrow> (Inl (PlainError ''Not a project state directory (no runtime.db)''), st)
      | Some s \<Rightarrow> (case txn s of
          Inl err \<Rightarrow> (Inl err, st)
        | Inr (result, evs, s') \<Rightarrow> publish e result evs (st\<lparr>st_store := Some s'\<rparr>)))"

definition createProjectTask :: "env \<Rightarrow> payload \<Rightarrow> string \<Rightarrow> orc_state \<Rightarrow> ProjectTask outcome" where
  "createProjectTask e input actorId = with_store (create_txn e input actorId) e"

definition reviseProjectTask :: "env \<Rightarrow> string \<Rightarrow> json option \<Rightarrow> payload \<Rightarrow> string \<Rightarrow> orc_state \<Rightarrow> ProjectTask outcome" where
  "reviseProjectTask e ref expectedRevision input actorId = with_store (revise_txn e ref expectedRevision input actorId) e"

definition withTaskAuthoringBatch :: "env \<Rightarrow> authoring_call list \<Rightarrow> orc_state \<Rightarrow> ProjectTask list outcome" where
  "withTaskAuthoringBatch e calls = with_store (run_calls e calls) e"

definition describeProjectTask :: "ProjectTask \<Rightarrow> Task \<times> string \<times> string \<times> string" where
  "describeProjectTask task = (projectTaskToBacklogTask task, featureRefOf task, pt_contentHash task, pt_bodyMarkdown task)"

end
