(* ===== verification/Task_Authoring_Props.thy ===== *)
theory Task_Authoring_Props
  imports Task_Authoring Task_Status State_Invariant
begin

text \<open>
  Authoring and the lifecycle of tasks: whatever is created or edited, in a batch or alone, no task moves.
\<close>

section \<open>What authoring leaves alone\<close>

definition authored :: "task_store \<Rightarrow> task_store \<Rightarrow> bool" where
  "authored s s' \<longleftrightarrow> task_runs s' = task_runs s \<and> task_transitions s' = task_transitions s \<and>
     (\<exists>new. task_spec_revisions s' = task_spec_revisions s @ new) \<and>
     (\<forall>ref. status_of s' ref = status_of s ref \<or> (status_of s ref = None \<and> status_of s' ref = Some TS_todo))"

lemma authored_refl [simp]: "authored s s"
  by (simp add: authored_def)

lemma authored_trans: "authored a b \<Longrightarrow> authored b c \<Longrightarrow> authored a c"
  unfolding authored_def by (metis append.assoc)

lemma authored_create:
  assumes "store_createTask e input s = Inr s'"
  shows "authored s s'"
proof -
  from assms obtain deps title meta pr pv now s1
    where t: "find_task_row (in_ref input) s = None"
      and s1: "insertRevision e (in_ref input) 1 title (in_bodyMarkdown input) meta pr pv deps now
                 (s\<lparr>tasks := tasks s @ [new_task_row (in_ref input) title pr pv now]\<rparr>) = Inr s1"
      and s': "replaceDependencies (in_ref input) deps s1 = Inr s'"
    by (auto simp: store_createTask_def rbind_Inr_iff Let_def split: option.splits if_splits)
  from s1 obtain r where r: "s1 = s\<lparr>tasks := tasks s @ [new_task_row (in_ref input) title pr pv now], task_spec_revisions := task_spec_revisions s @ [r]\<rparr>"
    by (rule insertRevision_Inr) simp
  have same: "status_of s' ref = map_option tr_status (List.find (\<lambda>t. tr_ref t = ref) (tasks s @ [new_task_row (in_ref input) title pr pv now]))" for ref
    using replaceDependencies_Inr [OF s'] r by (simp add: status_of_def find_task_row_def)
  have "status_of s' ref = status_of s ref \<or> (status_of s ref = None \<and> status_of s' ref = Some TS_todo)" for ref
  proof (cases "ref = in_ref input")
    case True
    with t same show ?thesis by (simp add: status_of_def find_task_row_def find_append new_task_row_def)
  next
    case False
    with same show ?thesis by (simp add: status_of_def find_task_row_def find_append new_task_row_def split: option.split)
  qed
  with replaceDependencies_Inr [OF s'] r show ?thesis by (simp add: authored_def)
qed

lemma authored_dispatch: "setDispatchState ref u s = Inr s' \<Longrightarrow> authored s s'"
  using status_dispatch [of ref u s s'] by (auto simp: authored_def setDispatchState_def Let_def split: if_splits)

lemma authored_revise:
  assumes "store_reviseTask e ref n changes s = Inr (w, s')"
  shows "authored s s'"
  using assms
proof (cases rule: store_reviseTask_Inr)
  case (revised task r f deps)
  have "status_of s' x = status_of s x" for x
    using revised(6,7) unfolding revised(8) status_of_def find_task_row_def
    by (simp add: find_update_where option.map_comp comp_def)
  then show ?thesis using revised(8) by (simp add: authored_def)
qed simp

text \<open>Every step of a call is a committed transaction of the store.\<close>

lemma create_txn_Inr:
  assumes "create_txn e input actorId s = Inr (task, evs, s')"
  obtains spec s1 u where "store_createTask e spec s = Inr s1" "setDispatchState (in_ref spec) u s1 = Inr s'"
    "getTask (in_ref spec) s' = Some task" "length evs = 1"
  using assms by (auto simp: create_txn_def rbind_Inr_iff split: option.splits)

lemma revise_txn_Inr:
  assumes "revise_txn e ref n input actorId s = Inr (task, evs, s')"
  obtains m changes w where "store_reviseTask e ref m changes s = Inr (w, s')" "length evs = (if w then 1 else 0)"
  using assms by (auto simp: revise_txn_def rbind_Inr_iff split: option.splits)

lemma call_txn_authored:
  assumes "call_txn e c s = Inr (task, evs, s')"
  shows "authored s s' \<and> (store_inv s \<longrightarrow> store_inv s')"
proof (cases c)
  case (Create_Task input actorId)
  with assms show ?thesis
    by (auto elim!: create_txn_Inr intro: authored_trans [OF authored_create authored_dispatch] store_inv_dispatch store_inv_createTask)
next
  case (Revise_Task ref n input actorId)
  with assms show ?thesis
    by (auto elim!: revise_txn_Inr intro: authored_revise store_inv_reviseTask)
qed

lemma run_calls_authored:
  "run_calls e cs s = Inr (ts, evs, s') \<Longrightarrow> authored s s' \<and> (store_inv s \<longrightarrow> store_inv s')"
proof (induction cs arbitrary: s ts evs)
  case (Cons c cs)
  from Cons.prems obtain task evs1 s1 ts2 evs2 where "call_txn e c s = Inr (task, evs1, s1)" "run_calls e cs s1 = Inr (ts2, evs2, s')"
    by (auto simp: rbind_Inr_iff)
  with Cons.IH call_txn_authored authored_trans show ?case by blast
qed simp

lemma emit_all_keeps:
  "st_store (snd (emit_all e evs st)) = st_store st \<and> db_runs (st_db (snd (emit_all e evs st))) = db_runs (st_db st)"
proof (induction evs arbitrary: st)
  case (Cons ev evs)
  obtain r st1 where a: "appendEventTo e ev st = (r, st1)" by (cases "appendEventTo e ev st")
  then have "st_store st1 = st_store st \<and> db_runs (st_db st1) = db_runs (st_db st)"
    by (auto simp: appendEventTo_def append_event_frame split: sum.splits)
  with a Cons.IH show ?case by (cases r) simp_all
qed simp

lemma publish_keeps:
  "st_store (snd (publish e x evs st)) = st_store st \<and> db_runs (st_db (snd (publish e x evs st))) = db_runs (st_db st)"
proof (cases "emit_all e evs st")
  case (Pair r st1)
  with emit_all_keeps [of e evs st] show ?thesis
    by (cases r) (auto simp: publish_def refreshBacklogProjection_def split: option.split)
qed

text \<open>
  C23. Authoring never moves a task: a batch of creations and edits leaves the lifecycle alone, whatever it
  contains and wherever it fails. A batch with a call that is refused changes nothing at all; otherwise all of its
  calls are stored together, the tasks it creates are \<^verbatim>\<open>todo\<close> and every other task keeps its
  status, no transition and no run binding is written, every revision that was there is still there, and no claim
  is touched.
\<close>

theorem authoring_never_moves_tasks:
  assumes "st_store st = Some s" "store_inv s" and "withTaskAuthoringBatch e calls st = (r, st')"
  shows "db_runs (st_db st') = db_runs (st_db st) \<and>
    (case run_calls e calls s of
       Inl err \<Rightarrow> r = Inl err \<and> st' = st
     | Inr (ts, evs, s') \<Rightarrow> st_store st' = Some s' \<and> store_inv s' \<and> authored s s')"
proof (cases "run_calls e calls s")
  case (Inl err)
  with assms(1,3) show ?thesis by (simp add: withTaskAuthoringBatch_def with_store_def)
next
  case (Inr x)
  obtain ts evs s' where x: "x = (ts, evs, s')" by (cases x)
  from assms(1,3) Inr x have "publish e ts evs (st\<lparr>st_store := Some s'\<rparr>) = (r, st')"
    by (simp add: withTaskAuthoringBatch_def with_store_def)
  with publish_keeps [of e ts evs "st\<lparr>st_store := Some s'\<rparr>"] have "st_store st' = Some s' \<and> db_runs (st_db st') = db_runs (st_db st)" by simp
  with run_calls_authored [OF Inr [unfolded x]] assms(2) Inr x show ?thesis by simp
qed

text \<open>A human adds the task \<open>f/n\<close> to a project that has \<open>f/a\<close>.\<close>

definition new_task0 :: payload where
  "new_task0 = [(''feature'', JStr ''f''), (''ref'', JStr ''n''), (''title'', JStr ''T'')]"

lemma new_fields: "map_of new_task0 ''feature'' = Some (JStr ''f'')" "map_of new_task0 ''ref'' = Some (JStr ''n'')"
  "map_of new_task0 ''title'' = Some (JStr ''T'')" "map_of new_task0 ''description'' = None" "map_of new_task0 ''acceptance_criteria'' = None"
  "map_of new_task0 ''body_markdown'' = None" "map_of new_task0 ''depends_on'' = None" "map_of new_task0 ''priority'' = None"
  "map_of new_task0 ''required_provider'' = None" "map_of new_task0 ''owner'' = None" "map_of new_task0 ''task_type'' = None"
  "map_of new_task0 ''required_capabilities'' = None" "map_of new_task0 ''model'' = None" "map_of new_task0 ''review_level'' = None"
  "map_of new_task0 ''merge_strategy'' = None"
  by (simp_all add: new_task0_def)

lemma absent: "optionalChoice None f c = Inr None" "optionalString None f = Inr None" "optionalStringArray None f = Inr None"
  "nullable None (Inr None) = Inr None" "meta_set k None m = m" "provider_input None = Inr None" "validateDependencyRefs None = Inr ()"
  "optionalString (Some (JStr x)) f = Inr (Some x)"
  by (simp_all add: optionalChoice_def optionalString_def optionalStringArray_def nullable_def meta_set_def provider_input_def validateDependencyRefs_def)

lemma new_metadata: "definitionMetadata new_task0 base body = Inr base"
  by (simp only: definitionMetadata_def Let_def new_fields absent rbind.simps option.map) simp

lemma new_names: "assertActor ''human'' = Inr ()" "js_trim ''f'' = ''f''" "TASK_REF_RE ''f/n''"
  by (simp_all add: assertActor_def alnum_lower_def is_lower_def is_digit_def kebab_char_def char_code_def js_trim_def is_ws_def TASK_REF_RE_def)

lemma new_unknown: "getTask ''f/n'' store0 = None"
  by (simp add: getTask_def find_task_row_def store0_def new_task_row_def)

lemma authored0: "\<exists>task evs s'. create_txn env0 new_task0 ''human'' store0 = Inr (task, evs, s') \<and> map tr_ref (tasks s') = [''f/a'', ''f/n'']"
proof -
  have p: "prepareProjectTask new_task0 ''human'' store0 =
     Inr (\<lparr>in_ref = ''f/n'', in_title = Some ''T'', in_bodyMarkdown = renderTaskBody ''T'' None [], in_priority = None, in_requiredProvider = None,
       in_metadata = Some [(''feature'', JStr ''f''), (''task_type'', JStr ''implementation''), (''body_source'', JStr ''rendered'')],
       in_dependsOn = Some [], in_createdAt = None\<rparr>, None)"
    by (simp only: prepareProjectTask_def Let_def new_fields absent rbind.simps new_names(1) option.map or_default.simps)
      (simp add: new_names new_unknown new_metadata)
  show ?thesis unfolding create_txn_def p
    by (simp add: store0_def env0_def rev0_def created_dispatch_def setDispatchState_def apply_dispatch_update_def dispatch_columns_ok_def orc_eval
        del: json_stringify.simps)
qed

theorem authoring_never_moves_tasks_witness:
  "\<exists>s'. st_store (snd (withTaskAuthoringBatch env0 [Create_Task new_task0 ''human''] proj_st)) = Some s' \<and>
     store_inv s' \<and> authored store0 s' \<and> map tr_ref (tasks s') = [''f/a'', ''f/n'']"
proof -
  obtain task evs s' where c: "create_txn env0 new_task0 ''human'' store0 = Inr (task, evs, s')" "map tr_ref (tasks s') = [''f/a'', ''f/n'']"
    by (rule exE [OF authored0]) (elim exE conjE, rule that)
  have s: "st_store proj_st = Some store0" by (simp add: proj_st_def)
  obtain r st' where b: "withTaskAuthoringBatch env0 [Create_Task new_task0 ''human''] proj_st = (r, st')"
    by (cases "withTaskAuthoringBatch env0 [Create_Task new_task0 ''human''] proj_st")
  from authoring_never_moves_tasks [OF s store0_inv b] b c show ?thesis by simp
qed

section \<open>Part of the system\<close>

context state_invariant begin

lemma call_txn_S:
  assumes "call_txn e c s = Inr (task, evs, s')" "S s"
  shows "S s'"
proof (cases c)
  case (Create_Task input actorId)
  with assms(1) obtain spec s1 u where "store_createTask e spec s = Inr s1" "setDispatchState (in_ref spec) u s1 = Inr s'"
    by (auto elim!: create_txn_Inr)
  with assms(2) show ?thesis using S_step store_step.create store_step.dispatch by blast
next
  case (Revise_Task ref n input actorId)
  with assms(1) obtain m changes w where "store_reviseTask e ref m changes s = Inr (w, s')" by (auto elim!: revise_txn_Inr)
  with assms(2) show ?thesis using S_step store_step.revise by blast
qed

lemma run_calls_S: "run_calls e cs s = Inr (ts, evs, s') \<Longrightarrow> S s \<Longrightarrow> S s'"
proof (induction cs arbitrary: s ts evs)
  case (Cons c cs)
  from Cons.prems(1) obtain task evs1 s1 ts2 evs2 where "call_txn e c s = Inr (task, evs1, s1)" "run_calls e cs s1 = Inr (ts2, evs2, s')"
    by (auto simp: rbind_Inr_iff)
  with Cons.IH Cons.prems(2) call_txn_S show ?case by blast
qed simp

lemma sound_emit_all: "ok st \<Longrightarrow> sound ok (emit_all e evs st)"
proof (induction evs arbitrary: st)
  case (Cons ev evs)
  show ?case unfolding emit_all.simps by (intro sound_intros Cons)
qed (simp add: sound_def)

lemma sound_authoring:
  assumes "ok st"
  shows "sound ok (withTaskAuthoringBatch e calls st)"
proof -
  have p: "sound ok (publish e x evs st')" if "ok st'" for x :: "ProjectTask list" and evs st'
    unfolding publish_def by (intro sound_intros sound_emit_all that) simp_all
  have "ok (st\<lparr>st_store := Some s'\<rparr>)" if "st_store st = Some s" "run_calls e calls s = Inr (ts, evs, s')" for s ts evs s'
    using ok_store [OF assms run_calls_S [OF that(2)]] assms that(1) by (simp add: state_ok_def)
  then show ?thesis using assms p
    by (auto simp: withTaskAuthoringBatch_def with_store_def sound_def split: option.split sum.split)
qed

end

end
