(* ===== verification/Messages.thy ===== *)
theory Messages
  imports Command_Delivery
begin

text \<open>
  Messages between sessions (\<^verbatim>\<open>lib/messageRouter.ts\<close>) and the durable copies of questions, answers and reviews
  (\<^verbatim>\<open>lib/messageBridge.ts\<close>). The state is the tables \<^verbatim>\<open>messages\<close> and \<^verbatim>\<open>input_requests\<close> beside the runs, sessions and
  commands of \<^verbatim>\<open>events.db\<close>; rows are in the order of \<^verbatim>\<open>rowid\<close>. The column \<^verbatim>\<open>payload\<close> is the JSON value that its text
  stands for. Random identifiers are arguments.
\<close>

section \<open>State\<close>

datatype Direction = Inbound | Outbound

datatype MessageState = MS_queued | MS_consumed

record SemanticMessage =
  mg_message_id :: string
  mg_run_id :: string
  mg_command_id :: "string option"
  mg_idempotency_key :: string
  mg_direction :: Direction
  mg_kind :: string
  mg_payload :: payload
  mg_created_at :: timestamp
  mg_sender_id :: string
  mg_sender_session_id :: "string option"
  mg_recipient_id :: string
  mg_recipient_session_id :: "string option"
  mg_recipient_run_id :: "string option"
  mg_parent_message_id :: "string option"
  mg_state :: MessageState
  mg_consumed_at :: "timestamp option"

datatype RequestState = RQ_pending | RQ_answered

record InputRequest =
  rq_request_id :: string
  rq_run_id :: string
  rq_message_id :: "string option"
  rq_idempotency_key :: string
  rq_question :: string
  rq_state :: RequestState
  rq_response :: "string option"
  rq_created_at :: timestamp
  rq_answered_at :: "timestamp option"

record mail =
  ml_messages :: "SemanticMessage list"
  ml_requests :: "InputRequest list"

type_synonym 'a mail_txn = "('a \<times> mail) result"

definition empty_mail :: mail where
  "empty_mail = \<lparr>ml_messages = [], ml_requests = []\<rparr>"

text \<open>
  Deleting a run deletes its messages and requests; a reference to the run as a recipient's, to a command or to a
  deleted message becomes null.
\<close>

definition known :: "string list \<Rightarrow> string option \<Rightarrow> string option" where
  "known ids ref = (case ref of None \<Rightarrow> None | Some i \<Rightarrow> if i \<in> set ids then Some i else None)"

definition cascade_mail :: "runtime_db \<Rightarrow> mail \<Rightarrow> mail" where
  "cascade_mail db m =
     (let runs = map rn_run_id (db_runs db); kept = filter (\<lambda>g. mg_run_id g \<in> set runs) (ml_messages m);
          ids = map mg_message_id kept in
      \<lparr>ml_messages = map (\<lambda>g. g\<lparr>mg_recipient_run_id := known runs (mg_recipient_run_id g),
                                 mg_command_id := known (map dc_command_id (db_commands db)) (mg_command_id g),
                                 mg_parent_message_id := known ids (mg_parent_message_id g)\<rparr>) kept,
       ml_requests = map (\<lambda>r. r\<lparr>rq_message_id := known ids (rq_message_id r)\<rparr>)
                       (filter (\<lambda>r. rq_run_id r \<in> set runs) (ml_requests m))\<rparr>)"

section \<open>Sessions and runs\<close>

definition KINDS :: "string list" where
  "KINDS = [''message'', ''question'', ''review_request'', ''feedback'', ''result'']"

definition mail_session :: "string \<Rightarrow> runtime_db \<Rightarrow> session_row result" where
  "mail_session sessionId db =
     (case find_session (Some sessionId) db of
        None \<Rightarrow> Inl (ForbiddenError ''Message session is not running'')
      | Some s \<Rightarrow> if ss_state s \<noteq> SS_running then Inl (ForbiddenError ''Message session is not running'') else Inr s)"

definition ownedRun :: "string \<Rightarrow> string \<Rightarrow> runtime_db \<Rightarrow> unit result" where
  "ownedRun runId agentId db =
     (case List.find (\<lambda>r. rn_run_id r = runId) (db_runs db) of
        None \<Rightarrow> Inl (ForbiddenError ''Message run is not active or owned by recipient'')
      | Some r \<Rightarrow> if \<not> active_state (rn_state r) \<or> rn_agent_id r \<noteq> Some agentId
                  then Inl (ForbiddenError ''Message run is not active or owned by recipient'') else Inr ())"

definition read_message :: "string \<Rightarrow> mail \<Rightarrow> SemanticMessage result" where
  "read_message i m =
     (case List.find (\<lambda>g. mg_message_id g = i) (ml_messages m) of
        None \<Rightarrow> Inl (NotFoundError ''Message not found'') | Some g \<Rightarrow> Inr g)"

definition message_by_key :: "string \<Rightarrow> mail \<Rightarrow> SemanticMessage option" where
  "message_by_key key m = List.find (\<lambda>g. mg_idempotency_key g = key) (ml_messages m)"

text \<open>A row that is inserted: \<^verbatim>\<open>message_id\<close> and \<^verbatim>\<open>idempotency_key\<close> are unique, and the run exists.\<close>

definition insert_message :: "runtime_db \<Rightarrow> SemanticMessage \<Rightarrow> mail \<Rightarrow> mail result" where
  "insert_message db g m =
     (if mg_message_id g \<in> set (map mg_message_id (ml_messages m))
      then Inl (SqliteError ''UNIQUE constraint failed: messages.message_id'')
      else if message_by_key (mg_idempotency_key g) m \<noteq> None
      then Inl (SqliteError ''UNIQUE constraint failed: messages.idempotency_key'')
      else if mg_run_id g \<notin> set (map rn_run_id (db_runs db)) then Inl (SqliteError ''FOREIGN KEY constraint failed'')
      else Inr (m\<lparr>ml_messages := ml_messages m @ [g]\<rparr>))"

definition update_message :: "string \<Rightarrow> (SemanticMessage \<Rightarrow> SemanticMessage) \<Rightarrow> mail \<Rightarrow> mail" where
  "update_message i f m = m\<lparr>ml_messages := update_where (\<lambda>g. mg_message_id g = i) f (ml_messages m)\<rparr>"

section \<open>Sending a message (messageRouter.ts)\<close>

text \<open>The fields that are checked for their type arrive as JSON values; absent ones are \<open>None\<close>.\<close>

record SendMessageInput =
  sm_runId :: string
  sm_recipientSessionId :: string
  sm_idempotencyKey :: string
  sm_kind :: string
  sm_text :: "json option"
  sm_artifactRefs :: "json option"
  sm_parentMessageId :: "json option"

fun json_truthy :: "json option \<Rightarrow> bool" where
  "json_truthy None = False"
| "json_truthy (Some JNull) = False"
| "json_truthy (Some (JBool b)) = b"
| "json_truthy (Some (JNum n)) = (n \<noteq> 0)"
| "json_truthy (Some (JStr s)) = (s \<noteq> [])"
| "json_truthy (Some v) = True"

fun string_json :: "json \<Rightarrow> bool" where
  "string_json (JStr s) = True"
| "string_json v = False"

fun blank_json :: "json \<Rightarrow> bool" where
  "blank_json (JStr s) = (js_trim s = [])"
| "blank_json v = True"

definition check_message :: "SendMessageInput \<Rightarrow> (string \<times> payload \<times> string option) result" where
  "check_message i =
     (case sm_text i of
        Some (JStr body) \<Rightarrow>
          if sm_idempotencyKey i = [] \<or> sm_kind i \<notin> set KINDS \<or> js_trim body = []
          then Inl (InputError ''Invalid semantic message'')
          else if sm_kind i = ''review_request'' \<and>
                  \<not> (case sm_artifactRefs i of Some (JArr refs) \<Rightarrow> refs \<noteq> [] \<and> \<not> list_ex blank_json refs | _ \<Rightarrow> False)
          then Inl (InputError ''Review request requires artifact references'')
          else if json_truthy (sm_artifactRefs i) \<and>
                  \<not> (case sm_artifactRefs i of Some (JArr refs) \<Rightarrow> list_all string_json refs | _ \<Rightarrow> False)
          then Inl (InputError ''Invalid artifact references'')
          else
            (let payload = [(''text'', JStr body),
                            (''artifact_refs'', case sm_artifactRefs i of None \<Rightarrow> JArr [] | Some JNull \<Rightarrow> JArr [] | Some v \<Rightarrow> v)] in
             case sm_parentMessageId i of
               None \<Rightarrow> Inr (body, payload, None)
             | Some (JStr p) \<Rightarrow> if p = [] then Inl (InputError ''Invalid parent message'') else Inr (body, payload, Some p)
             | Some _ \<Rightarrow> Inl (InputError ''Invalid parent message''))
      | _ \<Rightarrow> Inl (InputError ''Invalid semantic message''))"

text \<open>Who may send to whom: a session of the run to a session of an active run or to the master, the master to a run.\<close>

definition check_route :: "CommandPrincipal \<Rightarrow> SendMessageInput \<Rightarrow> runtime_db \<Rightarrow> (session_row \<times> session_row) result" where
  "check_route p i db =
     rbind (mail_session (pr_sessionId p) db) (\<lambda>sender.
       if ss_agent_id sender \<noteq> pr_agentId p \<or> (ss_agent_id sender \<noteq> ''master'' \<and> ss_run_id sender \<noteq> Some (sm_runId i))
       then Inl (ForbiddenError ''Message sender is not scoped to the run'')
       else rbind (mail_session (sm_recipientSessionId i) db) (\<lambda>recipient.
         rbind (if truthy (ss_run_id recipient) then ownedRun (the (ss_run_id recipient)) (ss_agent_id recipient) db
                else if ss_agent_id recipient \<noteq> ''master'' then Inl (ForbiddenError ''Message recipient has no active run'')
                else Inr ()) (\<lambda>_.
         rbind (if ss_agent_id sender \<noteq> ''master'' then ownedRun (sm_runId i) (ss_agent_id sender) db
                else if falsy (ss_run_id recipient) \<or> ss_run_id recipient \<noteq> Some (sm_runId i)
                then Inl (ForbiddenError ''Master message must target its run'') else Inr ()) (\<lambda>_.
           Inr (sender, recipient)))))"

definition check_reply ::
  "SendMessageInput \<Rightarrow> string option \<Rightarrow> session_row \<Rightarrow> session_row \<Rightarrow> mail \<Rightarrow> unit result" where
  "check_reply i parentId sender recipient m =
     (if sm_kind i = ''review_request'' \<and>
         (falsy (ss_run_id sender) \<or> falsy (ss_run_id recipient) \<or> ss_session_id sender = ss_session_id recipient)
      then Inl (InputError ''Review requires two worker sessions'')
      else case parentId of
        None \<Rightarrow> if sm_kind i = ''result'' then Inl (InputError ''Result requires a parent message'') else Inr ()
      | Some p \<Rightarrow> rbind (read_message p m) (\<lambda>parent.
          if sm_kind i = ''result'' \<and> mg_kind parent \<noteq> ''review_request''
          then Inl (InputError ''Review result requires a review request'')
          else if mg_sender_id parent \<noteq> ss_agent_id recipient \<or> mg_recipient_id parent \<noteq> ss_agent_id sender \<or>
                  mg_run_id parent \<noteq> or_default (ss_run_id recipient) (sm_runId i) \<or> mg_recipient_run_id parent \<noteq> ss_run_id sender
          then Inl (ForbiddenError ''Message reply is not scoped to its request'')
          else Inr ()))"

definition new_message ::
  "env \<Rightarrow> string \<Rightarrow> SendMessageInput \<Rightarrow> payload \<Rightarrow> string option \<Rightarrow> session_row \<Rightarrow> session_row \<Rightarrow> SemanticMessage" where
  "new_message e freshId i payload parentId sender recipient =
     \<lparr>mg_message_id = ''msg-'' @ freshId, mg_run_id = sm_runId i, mg_command_id = None, mg_idempotency_key = sm_idempotencyKey i,
      mg_direction = Outbound, mg_kind = sm_kind i, mg_payload = payload, mg_created_at = now_ts e,
      mg_sender_id = ss_agent_id sender, mg_sender_session_id = Some (ss_session_id sender),
      mg_recipient_id = ss_agent_id recipient, mg_recipient_session_id = Some (ss_session_id recipient),
      mg_recipient_run_id = ss_run_id recipient, mg_parent_message_id = parentId, mg_state = MS_queued, mg_consumed_at = None\<rparr>"

definition same_message ::
  "SendMessageInput \<Rightarrow> payload \<Rightarrow> string option \<Rightarrow> session_row \<Rightarrow> session_row \<Rightarrow> SemanticMessage \<Rightarrow> bool" where
  "same_message i payload parentId sender recipient g \<longleftrightarrow>
     mg_run_id g = sm_runId i \<and> mg_sender_id g = ss_agent_id sender \<and> mg_recipient_id g = ss_agent_id recipient \<and>
     mg_recipient_run_id g = ss_run_id recipient \<and> mg_kind g = sm_kind i \<and> mg_payload g = payload \<and>
     mg_parent_message_id g = parentId"

text \<open>
  The message under the key, or a new one. A queued message that is sent again to a new session of its recipient
  moves to that session and loses its command.
\<close>

definition store_message ::
  "env \<Rightarrow> string \<Rightarrow> SendMessageInput \<Rightarrow> payload \<Rightarrow> string option \<Rightarrow> session_row \<Rightarrow> session_row \<Rightarrow> runtime_db \<Rightarrow> mail \<Rightarrow>
   SemanticMessage mail_txn" where
  "store_message e freshId i payload parentId sender recipient db m =
     (case message_by_key (sm_idempotencyKey i) m of
        Some existing \<Rightarrow>
          if \<not> same_message i payload parentId sender recipient existing
          then Inl (ConflictError ''Message idempotency key conflicts'')
          else if mg_recipient_session_id existing \<noteq> Some (ss_session_id recipient) \<and> mg_state existing = MS_queued
          then (let m1 = update_message (mg_message_id existing)
                           (\<lambda>g. g\<lparr>mg_recipient_session_id := Some (ss_session_id recipient), mg_command_id := None\<rparr>) m in
                rbind (read_message (mg_message_id existing) m1) (\<lambda>g. Inr (g, m1)))
          else Inr (existing, m)
      | None \<Rightarrow>
          (let g = new_message e freshId i payload parentId sender recipient in
           rbind (insert_message db g m) (\<lambda>m1. rbind (read_message (mg_message_id g) m1) (\<lambda>g1. Inr (g1, m1)))))"

definition send_txn :: "env \<Rightarrow> string \<Rightarrow> CommandPrincipal \<Rightarrow> SendMessageInput \<Rightarrow> runtime_db \<Rightarrow> mail \<Rightarrow> SemanticMessage mail_txn" where
  "send_txn e freshId p i db m =
     rbind (check_message i) (\<lambda>(body, payload, parentId).
     rbind (check_route p i db) (\<lambda>(sender, recipient).
     rbind (check_reply i parentId sender recipient m) (\<lambda>_.
       store_message e freshId i payload parentId sender recipient db m)))"

text \<open>The command that tells the recipient's session; the transport fetches the message by its identifier.\<close>

definition message_command :: "SemanticMessage \<Rightarrow> EnqueueCommand" where
  "message_command g =
     \<lparr>eq_runId = or_default (mg_recipient_run_id g) [], eq_recipientSessionId = or_default (mg_recipient_session_id g) [],
      eq_idempotencyKey = ''message:'' @ mg_message_id g @ '':'' @ or_default (mg_recipient_session_id g) [],
      eq_kind = ''semantic_message'', eq_payload = Some (''{'' @ [CHR 0x22] @ ''message_id'' @ [CHR 0x22] @ '':'' @ [CHR 0x22] @ mg_message_id g @ [CHR 0x22] @ ''}''),
      eq_sideEffecting = False, eq_maxAttempts = 3, eq_deadlineAt = None\<rparr>"

definition link_txn :: "string \<Rightarrow> string \<Rightarrow> runtime_db \<Rightarrow> mail \<Rightarrow> SemanticMessage mail_txn" where
  "link_txn messageId commandId db m =
     (let P = (\<lambda>g. mg_message_id g = messageId \<and> mg_command_id g = None);
          m1 = m\<lparr>ml_messages := update_where P (\<lambda>g. g\<lparr>mg_command_id := Some commandId\<rparr>) (ml_messages m)\<rparr> in
      if list_ex P (ml_messages m) \<and> commandId \<notin> set (map dc_command_id (db_commands db))
      then Inl (SqliteError ''FOREIGN KEY constraint failed'')
      else rbind (read_message messageId m1) (\<lambda>g. Inr (g, m1)))"

text \<open>
  The three transactions; \<open>cmdId\<close> is the identifier of a new command, \<open>None\<close> when the caller has no dispatcher. A
  message stays when telling its recipient fails.
\<close>

definition sendMessage ::
  "env \<Rightarrow> string \<Rightarrow> string option \<Rightarrow> CommandPrincipal \<Rightarrow> SendMessageInput \<Rightarrow> runtime_db \<Rightarrow> mail \<Rightarrow> SemanticMessage result \<times> runtime_db \<times> mail" where
  "sendMessage e freshId cmdId p i db m =
     (case send_txn e freshId p i db m of
        Inl err \<Rightarrow> (Inl err, db, m)
      | Inr (g, m1) \<Rightarrow>
          if truthy (mg_recipient_run_id g) \<and> cmdId \<noteq> None \<and> falsy (mg_command_id g)
          then (case enqueueFromCoordinator e (the cmdId) (message_command g) db of
                  Inl err \<Rightarrow> (Inl err, db, m1)
                | Inr (c, db1) \<Rightarrow>
                    (case link_txn (mg_message_id g) (dc_command_id c) db1 m1 of
                       Inl err \<Rightarrow> (Inl err, db1, m1)
                     | Inr (g1, m2) \<Rightarrow> (Inr g1, db1, m2)))
          else (Inr g, db, m1))"

section \<open>Reading and consuming\<close>

text \<open>\<^verbatim>\<open>ORDER BY created_at, rowid\<close>\<close>

fun insert_created :: "SemanticMessage \<Rightarrow> SemanticMessage list \<Rightarrow> SemanticMessage list" where
  "insert_created g [] = [g]"
| "insert_created g (h # hs) =
     (if ts_le (mg_created_at g) (mg_created_at h) then g # h # hs else h # insert_created g hs)"

definition by_created :: "SemanticMessage list \<Rightarrow> SemanticMessage list" where
  "by_created gs = foldr insert_created gs []"

definition listMessages :: "CommandPrincipal \<Rightarrow> bool \<Rightarrow> runtime_db \<Rightarrow> mail \<Rightarrow> SemanticMessage list result" where
  "listMessages p includeConsumed db m =
     rbind (mail_session (pr_sessionId p) db) (\<lambda>actor.
       if ss_agent_id actor \<noteq> pr_agentId p then Inl (ForbiddenError ''Message actor does not match session'')
       else Inr (by_created (filter (\<lambda>g. mg_recipient_id g = ss_agent_id actor \<and> mg_recipient_run_id g = ss_run_id actor \<and>
                                         (includeConsumed \<or> mg_state g = MS_queued)) (ml_messages m))))"

definition consumeMessage :: "env \<Rightarrow> CommandPrincipal \<Rightarrow> string \<Rightarrow> runtime_db \<Rightarrow> mail \<Rightarrow> SemanticMessage mail_txn" where
  "consumeMessage e p messageId db m =
     rbind (mail_session (pr_sessionId p) db) (\<lambda>actor.
     rbind (read_message messageId m) (\<lambda>g.
       if ss_agent_id actor \<noteq> pr_agentId p \<or> ss_agent_id actor \<noteq> mg_recipient_id g \<or> ss_run_id actor \<noteq> mg_recipient_run_id g
       then Inl (ForbiddenError ''Message recipient does not match session'')
       else
         (let m1 = update_message messageId
                     (\<lambda>g. g\<lparr>mg_state := MS_consumed, mg_consumed_at := Some (or_default (mg_consumed_at g) (now_ts e))\<rparr>) m in
          rbind (read_message messageId m1) (\<lambda>g1. Inr (g1, m1)))))"

section \<open>Questions and answers (messageBridge.ts)\<close>

definition bridge_run :: "string \<Rightarrow> string \<Rightarrow> runtime_db \<Rightarrow> run_row option result" where
  "bridge_run runId agentId db =
     (case List.find (\<lambda>r. rn_run_id r = runId) (db_runs db) of
        None \<Rightarrow> Inr None
      | Some r \<Rightarrow> if rn_agent_id r \<noteq> Some agentId \<or> \<not> active_state (rn_state r)
                  then Inl (ConflictError ''Message actor is not scoped to an active run'') else Inr (Some r))"

text \<open>An agent has at most one running session, so that \<^verbatim>\<open>ORDER BY started_at DESC LIMIT 1\<close> has nothing to choose.\<close>

definition runningSession :: "string \<Rightarrow> string option \<Rightarrow> runtime_db \<Rightarrow> session_row option" where
  "runningSession agentId runId db =
     List.find (\<lambda>s. ss_agent_id s = agentId \<and> ss_run_id s = runId \<and> ss_state s = SS_running) (db_sessions db)"

definition question_message :: "env \<Rightarrow> string \<Rightarrow> string \<Rightarrow> string \<Rightarrow> string \<Rightarrow> string \<Rightarrow> runtime_db \<Rightarrow> SemanticMessage" where
  "question_message e freshId runId agentId requestId question db =
     \<lparr>mg_message_id = ''msg-'' @ freshId, mg_run_id = runId, mg_command_id = None, mg_idempotency_key = ''input:'' @ requestId,
      mg_direction = Outbound, mg_kind = ''question'', mg_payload = [(''text'', JStr question), (''request_id'', JStr requestId)],
      mg_created_at = now_ts e, mg_sender_id = agentId,
      mg_sender_session_id = map_option ss_session_id (runningSession agentId (Some runId) db),
      mg_recipient_id = ''master'', mg_recipient_session_id = map_option ss_session_id (runningSession ''master'' None db),
      mg_recipient_run_id = None, mg_parent_message_id = None, mg_state = MS_queued, mg_consumed_at = None\<rparr>"

definition new_request :: "env \<Rightarrow> string \<Rightarrow> string \<Rightarrow> string \<Rightarrow> string \<Rightarrow> InputRequest" where
  "new_request e runId requestId messageId question =
     \<lparr>rq_request_id = requestId, rq_run_id = runId, rq_message_id = Some messageId, rq_idempotency_key = ''input:'' @ requestId,
      rq_question = question, rq_state = RQ_pending, rq_response = None, rq_created_at = now_ts e, rq_answered_at = None\<rparr>"

text \<open>\<^verbatim>\<open>INSERT OR IGNORE\<close> leaves out a row that a unique column has already.\<close>

definition insert_or_ignore_message :: "SemanticMessage \<Rightarrow> mail \<Rightarrow> mail" where
  "insert_or_ignore_message g m =
     (if mg_message_id g \<in> set (map mg_message_id (ml_messages m)) \<or> message_by_key (mg_idempotency_key g) m \<noteq> None then m
      else m\<lparr>ml_messages := ml_messages m @ [g]\<rparr>)"

definition insert_or_ignore_request :: "InputRequest \<Rightarrow> mail \<Rightarrow> mail" where
  "insert_or_ignore_request r m =
     (if \<exists>x \<in> set (ml_requests m). rq_request_id x = rq_request_id r \<or> rq_message_id x = rq_message_id r \<or>
           rq_idempotency_key x = rq_idempotency_key r then m
      else m\<lparr>ml_requests := ml_requests m @ [r]\<rparr>)"

definition bridgeInputRequest ::
  "env \<Rightarrow> string \<Rightarrow> string \<Rightarrow> string \<Rightarrow> string \<Rightarrow> string \<Rightarrow> runtime_db \<Rightarrow> mail \<Rightarrow> string option mail_txn" where
  "bridgeInputRequest e freshId runId agentId requestId question db m =
     rbind (bridge_run runId agentId db) (\<lambda>run.
       (case run of
          None \<Rightarrow> Inr (None, m)
        | Some _ \<Rightarrow>
            (let m1 = insert_or_ignore_message (question_message e freshId runId agentId requestId question db) m in
             (case message_by_key (''input:'' @ requestId) m1 of
                None \<Rightarrow> Inl (PlainError ''Cannot read properties of undefined (reading message_id)'')
              | Some stored \<Rightarrow>
                  Inr (Some (mg_message_id stored),
                       insert_or_ignore_request (new_request e runId requestId (mg_message_id stored) question) m1)))))"

text \<open>The request that an answer is for: the named one, or the newest of the run (\<^verbatim>\<open>created_at DESC, rowid DESC\<close>).\<close>

fun newest_request :: "InputRequest list \<Rightarrow> InputRequest option" where
  "newest_request [] = None"
| "newest_request (r # rs) =
     (case newest_request rs of
        None \<Rightarrow> Some r
      | Some x \<Rightarrow> if ts_le (rq_created_at r) (rq_created_at x) then Some x else Some r)"

definition find_request :: "string \<Rightarrow> string option \<Rightarrow> mail \<Rightarrow> InputRequest option" where
  "find_request runId requestId m =
     newest_request (filter (\<lambda>r. rq_run_id r = runId \<and> (truthy requestId \<longrightarrow> Some (rq_request_id r) = requestId)) (ml_requests m))"

record InputAuthority =
  ia_sessionId :: "string option"
  ia_trustedMaster :: bool

definition may_answer :: "InputAuthority \<Rightarrow> runtime_db \<Rightarrow> bool" where
  "may_answer a db \<longleftrightarrow>
     ia_trustedMaster a \<or>
     (truthy (ia_sessionId a) \<and>
      (case runningSession ''master'' None db of None \<Rightarrow> False | Some s \<Rightarrow> Some (ss_session_id s) = ia_sessionId a))"

definition response_key :: "string \<Rightarrow> string" where
  "response_key requestId = ''input-response:'' @ requestId"

definition response_message :: "env \<Rightarrow> string \<Rightarrow> string \<Rightarrow> string \<Rightarrow> InputRequest \<Rightarrow> string \<Rightarrow> runtime_db \<Rightarrow> SemanticMessage" where
  "response_message e freshId runId agentId r response db =
     \<lparr>mg_message_id = ''msg-'' @ freshId, mg_run_id = runId, mg_command_id = None,
      mg_idempotency_key = response_key (rq_request_id r), mg_direction = Inbound, mg_kind = ''feedback'',
      mg_payload = [(''text'', JStr response), (''request_id'', JStr (rq_request_id r))], mg_created_at = now_ts e,
      mg_sender_id = ''human'', mg_sender_session_id = None, mg_recipient_id = agentId,
      mg_recipient_session_id = map_option ss_session_id (runningSession agentId (Some runId) db),
      mg_recipient_run_id = Some runId, mg_parent_message_id = rq_message_id r, mg_state = MS_queued, mg_consumed_at = None\<rparr>"

definition answer_request :: "env \<Rightarrow> string \<Rightarrow> string \<Rightarrow> mail \<Rightarrow> mail" where
  "answer_request e requestId response m =
     m\<lparr>ml_requests := update_where (\<lambda>r. rq_request_id r = requestId)
         (\<lambda>r. r\<lparr>rq_state := RQ_answered, rq_response := Some response, rq_answered_at := Some (now_ts e)\<rparr>) (ml_requests m)\<rparr>"

definition answer_txn ::
  "env \<Rightarrow> string \<Rightarrow> string \<Rightarrow> string \<Rightarrow> string \<Rightarrow> InputRequest \<Rightarrow> runtime_db \<Rightarrow> mail \<Rightarrow> string option mail_txn" where
  "answer_txn e freshId runId agentId response r db m =
     (if rq_state r = RQ_answered
      then (if rq_response r \<noteq> Some response then Inl (ConflictError ''Input request already has a different response'')
            else Inr (map_option mg_message_id (message_by_key (response_key (rq_request_id r)) m), m))
      else rbind (insert_message db (response_message e freshId runId agentId r response db) m) (\<lambda>m1.
             Inr (Some (''msg-'' @ freshId), answer_request e (rq_request_id r) response m1)))"

text \<open>\<open>None\<close> is an answer that only the event log has: the run is not known, has ended, or never asked durably.\<close>

definition bridgeInputResponse ::
  "env \<Rightarrow> string \<Rightarrow> string \<Rightarrow> string \<Rightarrow> string \<Rightarrow> string option \<Rightarrow> InputAuthority \<Rightarrow> runtime_db \<Rightarrow> mail \<Rightarrow> string option mail_txn" where
  "bridgeInputResponse e freshId runId agentId response requestId authority db m =
     (case List.find (\<lambda>r. rn_run_id r = runId) (db_runs db) of
        None \<Rightarrow> Inr (None, m)
      | Some run \<Rightarrow>
          if rn_agent_id run \<noteq> Some agentId then Inl (ConflictError ''Message actor is not scoped to an active run'')
          else if \<not> active_state (rn_state run) then Inr (None, m)
          else (case find_request runId requestId m of
            None \<Rightarrow>
              if truthy requestId \<and> (\<exists>r \<in> set (ml_requests m). rq_run_id r = runId)
              then Inl (ConflictError ''Input request is not pending for this run'') else Inr (None, m)
          | Some r \<Rightarrow>
              if \<not> may_answer authority db then Inl (ForbiddenError ''Input response requires a running master session'')
              else answer_txn e freshId runId agentId response r db m))"

definition readDurableInputResponse :: "string \<Rightarrow> mail \<Rightarrow> string option" where
  "readDurableInputResponse requestId m =
     (case List.find (\<lambda>r. rq_request_id r = requestId \<and> rq_state r = RQ_answered) (ml_requests m) of
        None \<Rightarrow> None | Some r \<Rightarrow> rq_response r)"

section \<open>Reviews\<close>

datatype ReviewOutcome = Approved | Findings

fun outcome_str :: "ReviewOutcome \<Rightarrow> string" where
  "outcome_str Approved = ''approved''"
| "outcome_str Findings = ''findings''"

definition review_message :: "env \<Rightarrow> string \<Rightarrow> string \<Rightarrow> string \<Rightarrow> ReviewOutcome \<Rightarrow> string \<Rightarrow> runtime_db \<Rightarrow> SemanticMessage" where
  "review_message e freshId runId agentId outc reason db =
     \<lparr>mg_message_id = ''msg-'' @ freshId, mg_run_id = runId, mg_command_id = None,
      mg_idempotency_key = ''review:msg-'' @ freshId, mg_direction = Inbound, mg_kind = ''feedback'',
      mg_payload = [(''text'', JStr reason), (''outcome'', JStr (outcome_str outc))], mg_created_at = now_ts e,
      mg_sender_id = ''reviewer'', mg_sender_session_id = None, mg_recipient_id = agentId,
      mg_recipient_session_id = map_option ss_session_id (runningSession agentId (Some runId) db),
      mg_recipient_run_id = Some runId, mg_parent_message_id = None, mg_state = MS_queued, mg_consumed_at = None\<rparr>"

definition bridgeReviewFeedback ::
  "env \<Rightarrow> string \<Rightarrow> string \<Rightarrow> string \<Rightarrow> ReviewOutcome \<Rightarrow> string \<Rightarrow> runtime_db \<Rightarrow> mail \<Rightarrow> string option mail_txn" where
  "bridgeReviewFeedback e freshId runId agentId outc reason db m =
     rbind (bridge_run runId agentId db) (\<lambda>run.
       (case run of
          None \<Rightarrow> Inr (None, m)
        | Some _ \<Rightarrow> rbind (insert_message db (review_message e freshId runId agentId outc reason db) m) (\<lambda>m1.
            Inr (Some (''msg-'' @ freshId), m1))))"

fun outcome_of :: "json option \<Rightarrow> ReviewOutcome option" where
  "outcome_of (Some (JStr s)) = (if s = ''approved'' then Some Approved else if s = ''findings'' then Some Findings else None)"
| "outcome_of _ = None"

record BridgedReview =
  br_messageId :: string
  br_agentId :: string
  br_outcome :: ReviewOutcome
  br_findings :: string
  br_createdAt :: timestamp

definition review_of :: "SemanticMessage \<Rightarrow> BridgedReview option" where
  "review_of g =
     (case (outcome_of (map_of (mg_payload g) ''outcome''), map_of (mg_payload g) ''text'') of
        (Some outc, Some (JStr findings)) \<Rightarrow>
          Some \<lparr>br_messageId = mg_message_id g, br_agentId = mg_recipient_id g, br_outcome = outc, br_findings = findings,
                br_createdAt = mg_created_at g\<rparr>
      | _ \<Rightarrow> None)"

definition readBridgedReviewFeedback :: "string \<Rightarrow> mail \<Rightarrow> BridgedReview list" where
  "readBridgedReviewFeedback runId m =
     List.map_filter review_of
       (by_created (filter (\<lambda>g. mg_run_id g = runId \<and> mg_kind g = ''feedback'' \<and> mg_sender_id g = ''reviewer'') (ml_messages m)))"

end
