(* ===== verification/Messages_Props.thy ===== *)
theory Messages_Props
  imports Messages Run_Store
begin

text \<open>
  Properties of the message tables. The step relation has the transactions of the router and the bridge, and whatever
  else happens to the database; \<open>R\<close> are runs that are not deleted.
\<close>

section \<open>Steps\<close>

inductive mail_step :: "string set \<Rightarrow> runtime_db \<times> mail \<Rightarrow> runtime_db \<times> mail \<Rightarrow> bool" for R where
  send: "send_txn e freshId p i db m = Inr (g, m') \<Longrightarrow> mail_step R (db, m) (db, m')"
| link: "link_txn messageId commandId db m = Inr (g, m') \<Longrightarrow> mail_step R (db, m) (db, m')"
| consume: "consumeMessage e p messageId db m = Inr (g, m') \<Longrightarrow> mail_step R (db, m) (db, m')"
| ask: "bridgeInputRequest e freshId runId agentId requestId question db m = Inr (r, m') \<Longrightarrow> mail_step R (db, m) (db, m')"
| answer: "bridgeInputResponse e freshId runId agentId response requestId authority db m = Inr (r, m') \<Longrightarrow> mail_step R (db, m) (db, m')"
| review: "bridgeReviewFeedback e freshId runId agentId outc reason db m = Inr (r, m') \<Longrightarrow> mail_step R (db, m) (db, m')"
| other: "R \<subseteq> set (map rn_run_id (db_runs db')) \<Longrightarrow> mail_step R (db, m) (db', cascade_mail db' m)"

section \<open>What a transaction does to the tables\<close>

text \<open>
  Every transaction adds a message, updates one in place, adds a request or answers one.
\<close>

definition message_ok :: "runtime_db \<Rightarrow> SemanticMessage list \<Rightarrow> SemanticMessage \<Rightarrow> bool" where
  "message_ok db gs g \<longleftrightarrow>
     mg_run_id g \<in> rn_run_id ` set (db_runs db) \<and> mg_kind g \<in> set KINDS \<and>
     (mg_state g = MS_consumed \<longleftrightarrow> mg_consumed_at g \<noteq> None) \<and>
     (mg_kind g = ''result'' \<longrightarrow>
       (case mg_parent_message_id g of None \<Rightarrow> True
        | Some p \<Rightarrow> \<exists>h \<in> set gs. mg_message_id h = p \<and> mg_kind h = ''review_request'' \<and>
                     mg_sender_id h = mg_recipient_id g \<and> mg_recipient_id h = mg_sender_id g))"

definition request_ok :: "runtime_db \<Rightarrow> InputRequest \<Rightarrow> bool" where
  "request_ok db r \<longleftrightarrow>
     rq_run_id r \<in> rn_run_id ` set (db_runs db) \<and> (rq_state r = RQ_answered \<longleftrightarrow> rq_response r \<noteq> None) \<and>
     (rq_state r = RQ_answered \<longleftrightarrow> rq_answered_at r \<noteq> None)"

definition mail_ok :: "runtime_db \<Rightarrow> mail \<Rightarrow> bool" where
  "mail_ok db m \<longleftrightarrow>
     distinct (map mg_message_id (ml_messages m)) \<and> distinct (map mg_idempotency_key (ml_messages m)) \<and>
     distinct (map rq_request_id (ml_requests m)) \<and>
     (\<forall>g \<in> set (ml_messages m). message_ok db (ml_messages m) g) \<and> (\<forall>r \<in> set (ml_requests m). request_ok db r)"

text \<open>What never changes of a message.\<close>

definition same_text :: "SemanticMessage \<Rightarrow> SemanticMessage \<Rightarrow> bool" where
  "same_text g h \<longleftrightarrow>
     mg_message_id h = mg_message_id g \<and> mg_run_id h = mg_run_id g \<and> mg_idempotency_key h = mg_idempotency_key g \<and>
     mg_direction h = mg_direction g \<and> mg_kind h = mg_kind g \<and> mg_payload h = mg_payload g \<and> mg_created_at h = mg_created_at g \<and>
     mg_sender_id h = mg_sender_id g \<and> mg_recipient_id h = mg_recipient_id g"

definition moves_on :: "SemanticMessage \<Rightarrow> SemanticMessage \<Rightarrow> bool" where
  "moves_on g h \<longleftrightarrow> same_text g h \<and> (mg_state g = MS_consumed \<longrightarrow> mg_state h = MS_consumed) \<and>
     (mg_consumed_at g \<noteq> None \<longrightarrow> mg_consumed_at h = mg_consumed_at g)"

text \<open>The ways in which a transaction changes the tables.\<close>

inductive messages_step :: "runtime_db \<Rightarrow> SemanticMessage list \<Rightarrow> SemanticMessage list \<Rightarrow> bool" for db where
  same: "messages_step db gs gs"
| add: "mg_message_id g \<notin> mg_message_id ` set gs \<Longrightarrow> mg_idempotency_key g \<notin> mg_idempotency_key ` set gs \<Longrightarrow>
    message_ok db gs g \<Longrightarrow> messages_step db gs (gs @ [g])"
| update: "(\<And>g. moves_on g (f g)) \<Longrightarrow> (\<And>g. mg_parent_message_id (f g) = mg_parent_message_id g) \<Longrightarrow>
    (\<And>g. mg_state (f g) = mg_state g \<and> mg_consumed_at (f g) = mg_consumed_at g \<or>
         mg_state (f g) = MS_consumed \<and> mg_consumed_at (f g) \<noteq> None) \<Longrightarrow>
    messages_step db gs (update_where P f gs)"

inductive requests_step :: "runtime_db \<Rightarrow> InputRequest list \<Rightarrow> InputRequest list \<Rightarrow> bool" for db where
  same: "requests_step db rs rs"
| add: "rq_request_id r \<notin> rq_request_id ` set rs \<Longrightarrow> request_ok db r \<Longrightarrow> requests_step db rs (rs @ [r])"
| answer: "r \<in> set rs \<Longrightarrow> rq_state r = RQ_pending \<Longrightarrow> requests_step db rs
    (update_where (\<lambda>x. rq_request_id x = rq_request_id r)
      (\<lambda>x. x\<lparr>rq_state := RQ_answered, rq_response := Some a, rq_answered_at := Some t\<rparr>) rs)"

definition tables_step :: "runtime_db \<Rightarrow> mail \<Rightarrow> mail \<Rightarrow> bool" where
  "tables_step db m m' \<longleftrightarrow> messages_step db (ml_messages m) (ml_messages m') \<and> requests_step db (ml_requests m) (ml_requests m')"

lemma by_key_None: "message_by_key k m = None \<longleftrightarrow> k \<notin> mg_idempotency_key ` set (ml_messages m)"
  by (auto simp: message_by_key_def find_None_iff)

lemma read_message_Inr: "read_message i m = Inr g \<Longrightarrow> g \<in> set (ml_messages m) \<and> mg_message_id g = i"
  by (auto simp: read_message_def find_Some_iff split: option.splits)

lemma insert_message_Inr:
  "insert_message db g m = Inr m' \<longleftrightarrow> m' = m\<lparr>ml_messages := ml_messages m @ [g]\<rparr> \<and>
     mg_message_id g \<notin> mg_message_id ` set (ml_messages m) \<and> mg_idempotency_key g \<notin> mg_idempotency_key ` set (ml_messages m) \<and>
     mg_run_id g \<in> rn_run_id ` set (db_runs db)"
  by (auto simp: insert_message_def by_key_None)

lemma insert_step:
  assumes "insert_message db g m = Inr m'" and "mg_run_id g \<in> rn_run_id ` set (db_runs db) \<Longrightarrow> message_ok db (ml_messages m) g"
  shows "tables_step db m m'"
  using assms by (auto simp: insert_message_Inr tables_step_def intro: messages_step.add requests_step.same)

lemma update_step:
  assumes "\<And>g. moves_on g (f g)" "\<And>g. mg_parent_message_id (f g) = mg_parent_message_id g"
    and "\<And>g. mg_state (f g) = mg_state g \<and> mg_consumed_at (f g) = mg_consumed_at g \<or> mg_state (f g) = MS_consumed \<and> mg_consumed_at (f g) \<noteq> None"
  shows "tables_step db m (m\<lparr>ml_messages := update_where P f (ml_messages m)\<rparr>)"
  by (simp add: tables_step_def requests_step.same) (rule messages_step.update [OF assms])

lemma tables_same [simp]: "tables_step db m m"
  by (simp add: tables_step_def messages_step.same requests_step.same)

lemma kinds_known [simp]: "''question'' \<in> set KINDS" "''feedback'' \<in> set KINDS"
  by (simp_all add: KINDS_def)

lemma check_message_kind: "check_message i = Inr (body, payload, parentId) \<Longrightarrow> sm_kind i \<in> set KINDS"
  by (auto simp: check_message_def Let_def split: option.splits json.splits if_splits)

lemma check_reply_result:
  assumes "check_reply i parentId sender recipient m = Inr u" "sm_kind i = ''result''"
  shows "case parentId of None \<Rightarrow> True
    | Some p \<Rightarrow> \<exists>h \<in> set (ml_messages m). mg_message_id h = p \<and> mg_kind h = ''review_request'' \<and>
                  mg_sender_id h = ss_agent_id recipient \<and> mg_recipient_id h = ss_agent_id sender"
  using assms by (auto simp: check_reply_def rbind_Inr_iff dest!: read_message_Inr split: option.splits if_splits)

lemma new_message_fields [simp]:
  "mg_run_id (new_message e freshId i payload parentId sender recipient) = sm_runId i"
  "mg_kind (new_message e freshId i payload parentId sender recipient) = sm_kind i"
  "mg_state (new_message e freshId i payload parentId sender recipient) = MS_queued"
  "mg_consumed_at (new_message e freshId i payload parentId sender recipient) = None"
  "mg_parent_message_id (new_message e freshId i payload parentId sender recipient) = parentId"
  "mg_sender_id (new_message e freshId i payload parentId sender recipient) = ss_agent_id sender"
  "mg_recipient_id (new_message e freshId i payload parentId sender recipient) = ss_agent_id recipient"
  by (simp_all add: new_message_def)

lemma new_message_ok:
  assumes "sm_kind i \<in> set KINDS" "check_reply i parentId sender recipient m = Inr u" "sm_runId i \<in> rn_run_id ` set (db_runs db)"
  shows "message_ok db (ml_messages m) (new_message e freshId i payload parentId sender recipient)"
  using assms check_reply_result [OF assms(2)] by (cases parentId) (simp_all add: message_ok_def)

lemma store_step:
  assumes "store_message e freshId i payload parentId sender recipient db m = Inr (g, m')"
    and "sm_kind i \<in> set KINDS" "check_reply i parentId sender recipient m = Inr u"
  shows "tables_step db m m'"
proof (cases "message_by_key (sm_idempotencyKey i) m")
  case None
  with assms(1) have "insert_message db (new_message e freshId i payload parentId sender recipient) m = Inr m'"
    by (auto simp: store_message_def Let_def rbind_Inr_iff)
  then show ?thesis by (rule insert_step) (use new_message_ok [OF assms(2,3)] in simp)
next
  case (Some x)
  with assms(1) have "m' = m \<or> (\<exists>s. m' = update_message (mg_message_id x) (\<lambda>g. g\<lparr>mg_recipient_session_id := s, mg_command_id := None\<rparr>) m)"
    by (auto simp: store_message_def Let_def rbind_Inr_iff split: if_splits)
  then show ?thesis
    by (elim disjE exE) (auto simp: update_message_def moves_on_def same_text_def intro: update_step)
qed

lemma send_step: "send_txn e freshId p i db m = Inr (g, m') \<Longrightarrow> tables_step db m m'"
  by (auto simp: send_txn_def rbind_Inr_iff intro: store_step check_message_kind)

lemma link_step: "link_txn messageId commandId db m = Inr (g, m') \<Longrightarrow> tables_step db m m'"
  by (auto simp: link_txn_def Let_def rbind_Inr_iff moves_on_def same_text_def split: if_splits intro: update_step)

lemma consume_step: "consumeMessage e p messageId db m = Inr (g, m') \<Longrightarrow> tables_step db m m'"
  by (auto simp: consumeMessage_def Let_def rbind_Inr_iff update_message_def moves_on_def same_text_def
      split: if_splits option.splits intro!: update_step)

lemma ask_step:
  assumes "bridgeInputRequest e freshId runId agentId requestId question db m = Inr (r, m')"
  shows "tables_step db m m'"
proof (cases "List.find (\<lambda>r. rn_run_id r = runId) (db_runs db)")
  case None
  with assms show ?thesis by (auto simp: bridgeInputRequest_def bridge_run_def rbind_Inr_iff)
next
  case (Some run)
  then have run: "runId \<in> rn_run_id ` set (db_runs db)" by (auto simp: find_Some_iff)
  let ?g = "question_message e freshId runId agentId requestId question db"
  let ?m1 = "insert_or_ignore_message ?g m"
  from assms Some obtain i where m': "m' = insert_or_ignore_request (new_request e runId requestId i question) ?m1"
    by (auto simp: bridgeInputRequest_def bridge_run_def rbind_Inr_iff Let_def split: if_splits option.splits)
  have "message_ok db (ml_messages m) ?g" using run by (simp add: message_ok_def question_message_def)
  then have "messages_step db (ml_messages m) (ml_messages ?m1)"
    by (auto simp: insert_or_ignore_message_def by_key_None intro: messages_step.intros)
  moreover have "request_ok db (new_request e runId requestId i question)" using run by (simp add: request_ok_def new_request_def)
  then have "requests_step db (ml_requests m) (ml_requests m')"
    unfolding m' insert_or_ignore_request_def by (auto simp: insert_or_ignore_message_def intro!: requests_step.intros)
  moreover have "ml_messages m' = ml_messages ?m1" by (simp add: m' insert_or_ignore_request_def)
  ultimately show ?thesis by (simp add: tables_step_def)
qed

lemma find_request_in: "find_request runId requestId m = Some r \<Longrightarrow> r \<in> set (ml_requests m) \<and> rq_run_id r = runId"
proof -
  have "newest_request rs = Some r \<Longrightarrow> r \<in> set rs" for rs by (induction rs) (auto split: option.splits if_splits)
  then show "find_request runId requestId m = Some r \<Longrightarrow> r \<in> set (ml_requests m) \<and> rq_run_id r = runId"
    by (fastforce simp: find_request_def)
qed

lemma answer_step:
  assumes "bridgeInputResponse e freshId runId agentId response requestId authority db m = Inr (x, m')"
  shows "tables_step db m m'"
proof (cases "m' = m")
  case False
  with assms obtain r where r: "find_request runId requestId m = Some r" "answer_txn e freshId runId agentId response r db m = Inr (x, m')"
    by (auto simp: bridgeInputResponse_def split: option.splits if_splits)
  then obtain m1 where p: "rq_state r = RQ_pending" "insert_message db (response_message e freshId runId agentId r response db) m = Inr m1"
      "m' = answer_request e (rq_request_id r) response m1"
    using False by (cases "rq_state r") (auto simp: answer_txn_def rbind_Inr_iff split: if_splits)
  have "tables_step db m m1" by (rule insert_step [OF p(2)]) (simp add: response_message_def message_ok_def)
  moreover have "ml_messages m' = ml_messages m1" "ml_requests m1 = ml_requests m" using p(2,3) by (auto simp: answer_request_def insert_message_Inr)
  moreover have "requests_step db (ml_requests m) (ml_requests m')"
    using p(3) \<open>ml_requests m1 = ml_requests m\<close> requests_step.answer [OF conjunct1 [OF find_request_in [OF r(1)]] p(1)]
    by (simp add: answer_request_def)
  ultimately show ?thesis by (simp add: tables_step_def)
qed simp

lemma review_step: "bridgeReviewFeedback e freshId runId agentId outc reason db m = Inr (r, m') \<Longrightarrow> tables_step db m m'"
  by (auto simp: bridgeReviewFeedback_def rbind_Inr_iff review_message_def message_ok_def split: option.splits intro: insert_step)

lemmas txn_steps = send_step link_step consume_step ask_step answer_step review_step

section \<open>What every step keeps\<close>

text \<open>A request goes on: it stays the same question, and an answer that it has.\<close>

definition goes_on :: "InputRequest \<Rightarrow> InputRequest \<Rightarrow> bool" where
  "goes_on r x \<longleftrightarrow> rq_request_id x = rq_request_id r \<and> rq_run_id x = rq_run_id r \<and> rq_question x = rq_question r \<and>
     (rq_state r = RQ_answered \<longrightarrow> rq_state x = RQ_answered \<and> rq_response x = rq_response r)"

definition mail_kept :: "string set \<Rightarrow> mail \<Rightarrow> mail \<Rightarrow> bool" where
  "mail_kept R m m' \<longleftrightarrow>
     (\<forall>g \<in> set (ml_messages m). mg_run_id g \<in> R \<longrightarrow> (\<exists>h \<in> set (ml_messages m'). moves_on g h)) \<and>
     (\<forall>r \<in> set (ml_requests m). rq_run_id r \<in> R \<longrightarrow> (\<exists>x \<in> set (ml_requests m'). goes_on r x))"

lemma moves_on_refl [simp]: "moves_on g g"
  by (simp add: moves_on_def same_text_def)

lemma goes_on_refl [simp]: "goes_on r r"
  by (simp add: goes_on_def)

lemma moves_on_trans: "moves_on g h \<Longrightarrow> moves_on h k \<Longrightarrow> moves_on g k"
  by (auto simp: moves_on_def same_text_def)

lemma goes_on_trans: "goes_on g h \<Longrightarrow> goes_on h k \<Longrightarrow> goes_on g k"
  by (auto simp: goes_on_def)

lemma mail_kept_refl [simp]: "mail_kept R m m"
  unfolding mail_kept_def using moves_on_refl goes_on_refl by blast

lemma moves_on_run: "moves_on g h \<Longrightarrow> mg_run_id h = mg_run_id g"
  by (simp add: moves_on_def same_text_def)

lemma goes_on_run: "goes_on r x \<Longrightarrow> rq_run_id x = rq_run_id r"
  by (simp add: goes_on_def)

lemma mail_kept_trans: "mail_kept R a b \<Longrightarrow> mail_kept R b c \<Longrightarrow> mail_kept R a c"
proof -
  assume ab: "mail_kept R a b" and bc: "mail_kept R b c"
  have "\<exists>k \<in> set (ml_messages c). moves_on g k" if g: "g \<in> set (ml_messages a)" "mg_run_id g \<in> R" for g
  proof -
    from ab g obtain h where h: "h \<in> set (ml_messages b)" "moves_on g h" unfolding mail_kept_def by blast
    with g(2) have "mg_run_id h \<in> R" by (simp only: moves_on_run)
    with bc h(1) obtain k where "k \<in> set (ml_messages c)" "moves_on h k" unfolding mail_kept_def by blast
    with h(2) show ?thesis using moves_on_trans by blast
  qed
  moreover have "\<exists>y \<in> set (ml_requests c). goes_on r y" if r: "r \<in> set (ml_requests a)" "rq_run_id r \<in> R" for r
  proof -
    from ab r obtain x where x: "x \<in> set (ml_requests b)" "goes_on r x" unfolding mail_kept_def by blast
    with r(2) have "rq_run_id x \<in> R" by (simp only: goes_on_run)
    with bc x(1) obtain y where "y \<in> set (ml_requests c)" "goes_on x y" unfolding mail_kept_def by blast
    with x(2) show ?thesis using goes_on_trans by blast
  qed
  ultimately show ?thesis unfolding mail_kept_def by blast
qed

lemma mail_kept_mono: "mail_kept R a b \<Longrightarrow> S \<subseteq> R \<Longrightarrow> mail_kept S a b"
  unfolding mail_kept_def by blast

lemma message_ok_mono:
  assumes "message_ok db gs g" and "\<And>h. h \<in> set gs \<Longrightarrow> \<exists>k \<in> set gs'. same_text h k"
  shows "message_ok db gs' g"
proof (cases "mg_kind g = ''result'' \<and> mg_parent_message_id g \<noteq> None")
  case True
  then obtain p where p: "mg_kind g = ''result''" "mg_parent_message_id g = Some p" by blast
  with assms(1) obtain h where h: "h \<in> set gs" "mg_message_id h = p" "mg_kind h = ''review_request''"
    "mg_sender_id h = mg_recipient_id g" "mg_recipient_id h = mg_sender_id g" unfolding message_ok_def by (simp only: p option.case) blast
  from assms(2) [OF h(1)] obtain k where "k \<in> set gs'" "same_text h k" by blast
  with h have "\<exists>k \<in> set gs'. mg_message_id k = p \<and> mg_kind k = ''review_request'' \<and>
     mg_sender_id k = mg_recipient_id g \<and> mg_recipient_id k = mg_sender_id g" unfolding same_text_def by metis
  with assms(1) show ?thesis unfolding message_ok_def by (simp only: p option.case) blast
next
  case False
  with assms(1) show ?thesis unfolding message_ok_def by (auto split: option.splits)
qed

lemma messages_step_keeps:
  assumes "messages_step db gs gs'" and "distinct (map mg_message_id gs)" "distinct (map mg_idempotency_key gs)" "\<forall>g \<in> set gs. message_ok db gs g"
  shows "distinct (map mg_message_id gs') \<and> distinct (map mg_idempotency_key gs') \<and> (\<forall>g \<in> set gs'. message_ok db gs' g) \<and>
    (\<forall>g \<in> set gs. \<exists>h \<in> set gs'. moves_on g h)"
  using assms
proof (cases rule: messages_step.cases)
  case same
  with assms show ?thesis using moves_on_refl by blast
next
  case (add g)
  have "\<forall>x \<in> set gs'. message_ok db gs' x"
  proof
    fix x assume "x \<in> set gs'"
    then have "message_ok db gs x" using add(1,4) assms(4) by auto
    then show "message_ok db gs' x" by (rule message_ok_mono) (auto simp: add(1) same_text_def)
  qed
  moreover have "\<exists>h \<in> set gs'. moves_on x h" if "x \<in> set gs" for x by (rule bexI [of _ x]) (use that add(1) in auto)
  ultimately show ?thesis using add(1,2,3) assms(2,3) by auto
next
  case (update f P)
  have st: "same_text g (f g)" for g using update(2) [of g] by (simp add: moves_on_def)
  have ids: "map mg_message_id gs' = map mg_message_id gs" "map mg_idempotency_key gs' = map mg_idempotency_key gs"
    using st by (auto simp: update(1) update_where_def same_text_def)
  have on: "\<exists>h \<in> set gs'. moves_on g h" if "g \<in> set gs" for g
    by (rule bexI [of _ "if P g then f g else g"]) (use that update(2) in \<open>auto simp: update(1) update_where_def\<close>)
  have "message_ok db gs' x" if x: "x \<in> set gs'" for x
  proof -
    from x obtain g where g: "g \<in> set gs" "x = g \<or> x = f g" by (auto simp: update(1) update_where_def split: if_splits)
    have "message_ok db gs g" using assms(4) g(1) by blast
    then have "message_ok db gs' g" by (rule message_ok_mono) (use on in \<open>auto simp: moves_on_def\<close>)
    moreover have "message_ok db gs' (f g)" if "message_ok db gs' g"
      using that st [of g] update(3) [of g] update(4) [of g] unfolding message_ok_def same_text_def
      by (cases "mg_parent_message_id g") auto
    ultimately show ?thesis using g(2) by blast
  qed
  with ids on assms(2,3) show ?thesis by simp
qed

lemma requests_step_keeps:
  assumes "requests_step db rs rs'" and "distinct (map rq_request_id rs)" "\<forall>r \<in> set rs. request_ok db r"
  shows "distinct (map rq_request_id rs') \<and> (\<forall>r \<in> set rs'. request_ok db r) \<and> (\<forall>r \<in> set rs. \<exists>x \<in> set rs'. goes_on r x)"
  using assms
proof (cases rule: requests_step.cases)
  case same
  with assms show ?thesis using goes_on_refl by blast
next
  case (add r)
  have "\<exists>y \<in> set rs'. goes_on x y" if "x \<in> set rs" for x by (rule bexI [of _ x]) (use that add(1) in auto)
  with add assms(2,3) show ?thesis by auto
next
  case (answer r t a)
  let ?f = "\<lambda>x. x\<lparr>rq_state := RQ_answered, rq_response := Some a, rq_answered_at := Some t\<rparr>"
  have ids: "map rq_request_id rs' = map rq_request_id rs" by (auto simp: answer(1) update_where_def)
  have "x = r" if "x \<in> set rs" "rq_request_id x = rq_request_id r" for x
    using that answer(2) assms(2) by (metis distinct_map inj_onD)
  then have "goes_on x (if rq_request_id x = rq_request_id r then ?f x else x)" if "x \<in> set rs" for x
    using that answer(3) by (cases "x = r") (auto simp: goes_on_def)
  moreover have "(if rq_request_id x = rq_request_id r then ?f x else x) \<in> set rs'" if "x \<in> set rs" for x
    unfolding answer(1) update_where_def set_map by (rule imageI [OF that])
  ultimately have "\<forall>x \<in> set rs. \<exists>y \<in> set rs'. goes_on x y" by blast
  moreover have "\<forall>x \<in> set rs'. request_ok db x" using assms(3) by (auto simp: answer(1) update_where_def request_ok_def)
  ultimately show ?thesis using ids assms(2) by simp
qed

lemma tables_step_keeps: "tables_step db m m' \<Longrightarrow> mail_ok db m \<Longrightarrow> mail_ok db m' \<and> mail_kept UNIV m m'"
  unfolding tables_step_def mail_ok_def mail_kept_def using messages_step_keeps requests_step_keeps by blast

lemma known_Some: "known ids x = Some i \<longleftrightarrow> x = Some i \<and> i \<in> set ids"
  by (auto simp: known_def split: option.splits)

lemma cascade_message:
  assumes "g \<in> set (ml_messages m)" "mg_run_id g \<in> rn_run_id ` set (db_runs db')"
  shows "\<exists>h \<in> set (ml_messages (cascade_mail db' m)). moves_on g h"
  using assms by (force simp: cascade_mail_def Let_def moves_on_def same_text_def)

lemma cascade_message_ok:
  assumes "mail_ok db m" "h \<in> set (ml_messages (cascade_mail db' m))"
  shows "message_ok db' (ml_messages (cascade_mail db' m)) h"
proof -
  let ?runs = "map rn_run_id (db_runs db')"
  let ?mail_kept = "filter (\<lambda>g. mg_run_id g \<in> set ?runs) (ml_messages m)"
  let ?c = "\<lambda>g. g\<lparr>mg_recipient_run_id := known ?runs (mg_recipient_run_id g),
      mg_command_id := known (map dc_command_id (db_commands db')) (mg_command_id g),
      mg_parent_message_id := known (map mg_message_id ?mail_kept) (mg_parent_message_id g)\<rparr>"
  have rows: "set (ml_messages (cascade_mail db' m)) = ?c ` set ?mail_kept" by (simp add: cascade_mail_def Let_def)
  with assms(2) obtain g where g: "g \<in> set ?mail_kept" "h = ?c g" by blast
  with assms(1) have ok: "message_ok db (ml_messages m) g" by (simp add: mail_ok_def)
  have parent: "\<exists>k \<in> ?c ` set ?mail_kept. mg_message_id k = p \<and> mg_kind k = ''review_request'' \<and>
      mg_sender_id k = mg_recipient_id g \<and> mg_recipient_id k = mg_sender_id g"
    if p: "mg_kind g = ''result''" "known (map mg_message_id ?mail_kept) (mg_parent_message_id g) = Some p" for p
  proof -
    from p(2) have par: "mg_parent_message_id g = Some p" and "p \<in> mg_message_id ` set ?mail_kept" by (auto simp: known_Some)
    then obtain y where y: "y \<in> set ?mail_kept" "mg_message_id y = p" by blast
    from ok p(1) par obtain x where x: "x \<in> set (ml_messages m)" "mg_message_id x = p" "mg_kind x = ''review_request''"
      "mg_sender_id x = mg_recipient_id g" "mg_recipient_id x = mg_sender_id g" unfolding message_ok_def by (simp only: option.case) blast
    from assms(1) have "inj_on mg_message_id (set (ml_messages m))" by (simp add: mail_ok_def distinct_map)
    moreover from y(1) have "y \<in> set (ml_messages m)" by simp
    ultimately have "x = y" using x(1,2) y(2) by (simp add: inj_onD)
    with y(1) have "?c x \<in> ?c ` set ?mail_kept" by blast
    then show ?thesis by (rule bexI [rotated]) (use x in simp)
  qed
  have "mg_run_id h \<in> rn_run_id ` set (db_runs db') \<and> mg_kind h \<in> set KINDS \<and> (mg_state h = MS_consumed \<longleftrightarrow> mg_consumed_at h \<noteq> None)"
    using ok g unfolding message_ok_def by simp
  moreover have "mg_kind h = ''result'' \<longrightarrow> (case mg_parent_message_id h of None \<Rightarrow> True
      | Some p \<Rightarrow> \<exists>k \<in> set (ml_messages (cascade_mail db' m)). mg_message_id k = p \<and> mg_kind k = ''review_request'' \<and>
                    mg_sender_id k = mg_recipient_id h \<and> mg_recipient_id k = mg_sender_id h)"
    unfolding rows using parent g(2) by (simp split: option.split)
  ultimately show ?thesis unfolding message_ok_def by blast
qed

lemma cascade_keeps:
  assumes "mail_ok db m" "R \<subseteq> set (map rn_run_id (db_runs db'))"
  shows "mail_ok db' (cascade_mail db' m) \<and> mail_kept R m (cascade_mail db' m)"
proof -
  have "map mg_message_id (ml_messages (cascade_mail db' m)) =
      map mg_message_id (filter (\<lambda>g. mg_run_id g \<in> rn_run_id ` set (db_runs db')) (ml_messages m))"
    "map mg_idempotency_key (ml_messages (cascade_mail db' m)) =
      map mg_idempotency_key (filter (\<lambda>g. mg_run_id g \<in> rn_run_id ` set (db_runs db')) (ml_messages m))"
    "map rq_request_id (ml_requests (cascade_mail db' m)) =
      map rq_request_id (filter (\<lambda>r. rq_run_id r \<in> rn_run_id ` set (db_runs db')) (ml_requests m))"
    by (simp_all add: cascade_mail_def Let_def)
  then have "distinct (map mg_message_id (ml_messages (cascade_mail db' m))) \<and>
      distinct (map mg_idempotency_key (ml_messages (cascade_mail db' m))) \<and>
      distinct (map rq_request_id (ml_requests (cascade_mail db' m)))"
    using assms(1) by (simp add: mail_ok_def distinct_map_filter)
  moreover have "\<forall>r \<in> set (ml_requests (cascade_mail db' m)). request_ok db' r"
    using assms(1) by (auto simp: cascade_mail_def Let_def mail_ok_def request_ok_def)
  ultimately have "mail_ok db' (cascade_mail db' m)" using cascade_message_ok [OF assms(1)] by (simp add: mail_ok_def)
  moreover have "\<exists>x \<in> set (ml_requests (cascade_mail db' m)). goes_on r x" if "r \<in> set (ml_requests m)" "rq_run_id r \<in> R" for r
    using that assms(2) by (force simp: cascade_mail_def Let_def goes_on_def)
  ultimately show ?thesis using cascade_message assms(2) unfolding mail_kept_def by auto
qed

lemma mail_step_form:
  "mail_step R a b \<Longrightarrow> fst b = fst a \<and> tables_step (fst a) (snd a) (snd b) \<or>
     R \<subseteq> set (map rn_run_id (db_runs (fst b))) \<and> snd b = cascade_mail (fst b) (snd a)"
  by (erule mail_step.cases) (auto dest: txn_steps)

lemma step_keeps:
  assumes "mail_step R a b" "mail_ok (fst a) (snd a)"
  shows "mail_ok (fst b) (snd b) \<and> mail_kept R (snd a) (snd b)"
  using mail_step_form [OF assms(1)]
proof
  assume "fst b = fst a \<and> tables_step (fst a) (snd a) (snd b)"
  then show ?thesis using tables_step_keeps [OF _ assms(2)] mail_kept_mono by (metis subset_UNIV)
next
  assume "R \<subseteq> set (map rn_run_id (db_runs (fst b))) \<and> snd b = cascade_mail (fst b) (snd a)"
  then show ?thesis using cascade_keeps [OF assms(2), of R "fst b"] by simp
qed

lemma steps_keep:
  assumes "(mail_step R)\<^sup>*\<^sup>* a b" "mail_ok (fst a) (snd a)"
  shows "mail_ok (fst b) (snd b) \<and> mail_kept R (snd a) (snd b)"
  using assms
proof (induction rule: rtranclp_induct)
  case (step b c)
  then have "mail_ok (fst b) (snd b)" "mail_kept R (snd a) (snd b)" by auto
  with step_keeps [OF step.hyps(2)] show ?case using mail_kept_trans by blast
qed simp

section \<open>A database with a worker and the master\<close>

definition master_row :: session_row where
  "master_row = \<lparr>ss_session_id = ''m1'', ss_run_id = None, ss_agent_id = ''master'', ss_provider = ''claude'', ss_state = SS_running,
     ss_provider_ref = None, ss_started_at = Ts 0, ss_updated_at = Ts 0, ss_transport = None, ss_process_pid = None,
     ss_process_start = None, ss_owner_id = None, ss_owner_expires_at = None, ss_state_reason = None, ss_credential_hash = None\<rparr>"

definition mail_db :: runtime_db where
  "mail_db = runs_db'\<lparr>db_sessions := [session_row_of session0, master_row]\<rparr>"

definition note0 :: SendMessageInput where
  "note0 = \<lparr>sm_runId = ''run-1'', sm_recipientSessionId = ''m1'', sm_idempotencyKey = ''k'', sm_kind = ''message'',
     sm_text = Some (JStr ''hi''), sm_artifactRefs = None, sm_parentMessageId = None\<rparr>"

definition worker0 :: CommandPrincipal where "worker0 = \<lparr>pr_agentId = ''w'', pr_sessionId = ''s1''\<rparr>"
definition master0 :: CommandPrincipal where "master0 = \<lparr>pr_agentId = ''master'', pr_sessionId = ''m1''\<rparr>"

definition sent0 :: SemanticMessage where
  "sent0 = new_message env0 ''1'' note0 [(''text'', JStr ''hi''), (''artifact_refs'', JArr [])] None (session_row_of session0) master_row"

lemma empty_mail_ok: "mail_ok db empty_mail"
  by (simp add: mail_ok_def empty_mail_def)

lemma note0_checked: "check_message note0 = Inr (''hi'', [(''text'', JStr ''hi''), (''artifact_refs'', JArr [])], None)"
  by (simp add: check_message_def note0_def KINDS_def js_trim_def is_ws_def char_code_def Let_def)

lemma note0_route: "check_route worker0 note0 mail_db = Inr (session_row_of session0, master_row)"
  by (simp add: check_route_def mail_session_def find_session_def mail_db_def worker0_def note0_def session0_def session_row_of_def
      master_row_def ownedRun_def runs_db'_def)

lemma note0_sent: "send_txn env0 ''1'' worker0 note0 mail_db empty_mail = Inr (sent0, \<lparr>ml_messages = [sent0], ml_requests = []\<rparr>)"
  unfolding send_txn_def note0_checked rbind.simps prod.case note0_route
  by (simp add: check_reply_def store_message_def message_by_key_def empty_mail_def insert_message_def read_message_def
      note0_def sent0_def new_message_def mail_db_def runs_db'_def Let_def)

section \<open>Integrity\<close>

text \<open>
  C0. The message tables stay sound: through any sequence of transactions of the router and the bridge, and whatever else is
  written to the database, message identifiers, idempotency keys and request identifiers are unique, every message and every
  request belongs to a run that exists, a request is answered exactly if it has a response and a time of it, a
  message is consumed exactly if it has a time of that, and a review result answers a review request that its sender was sent by its
  recipient.
\<close>

theorem mail_integrity:
  assumes "(mail_step R)\<^sup>*\<^sup>* (db0, empty_mail) (db, m)"
  shows "mail_ok db m"
  using steps_keep [OF assms] empty_mail_ok by simp

theorem mail_integrity_witness:
  "mail_ok mail_db \<lparr>ml_messages = [sent0], ml_requests = []\<rparr>"
proof (rule mail_integrity)
  show "(mail_step {})\<^sup>*\<^sup>* (mail_db, empty_mail) (mail_db, \<lparr>ml_messages = [sent0], ml_requests = []\<rparr>)"
    using mail_step.send [OF note0_sent] by (rule r_into_rtranclp)
qed

section \<open>A message is sent once\<close>

lemma key_unique:
  assumes "mail_ok db m" "g \<in> set (ml_messages m)"
  shows "message_by_key (mg_idempotency_key g) m = Some g"
proof -
  obtain h where h: "message_by_key (mg_idempotency_key g) m = Some h"
    using assms(2) by_key_None [of "mg_idempotency_key g" m] by blast
  then have "h \<in> set (ml_messages m)" "mg_idempotency_key h = mg_idempotency_key g" by (auto simp: message_by_key_def find_Some_iff)
  moreover have "inj_on mg_idempotency_key (set (ml_messages m))" using assms(1) by (simp add: mail_ok_def distinct_map)
  ultimately have "h = g" using assms(2) by (simp add: inj_onD)
  with h show ?thesis by simp
qed

lemma send_Inr:
  assumes "send_txn e freshId p i db m = Inr (g, m')"
  obtains body payload parentId sender recipient where
    "check_message i = Inr (body, payload, parentId)" "check_route p i db = Inr (sender, recipient)"
    "store_message e freshId i payload parentId sender recipient db m = Inr (g, m')"
  using assms by (auto simp: send_txn_def rbind_Inr_iff)

lemma resent:
  assumes "mail_ok db m" "message_by_key (sm_idempotencyKey i) m = Some x"
    and "store_message e freshId i payload parentId sender recipient db m = Inr (g, m')"
  shows "same_text x g \<and> g \<in> set (ml_messages m') \<and> length (ml_messages m') = length (ml_messages m) \<and> mg_run_id x = sm_runId i"
proof -
  from assms(2) have x: "x \<in> set (ml_messages m)" by (auto simp: message_by_key_def find_Some_iff)
  from assms(2,3) have run: "mg_run_id x = sm_runId i" by (auto simp: store_message_def same_message_def split: if_splits)
  show ?thesis
  proof (cases "m' = m \<and> g = x")
    case True
    with x run show ?thesis by (simp add: same_text_def)
  next
    case False
    let ?f = "\<lambda>g. g\<lparr>mg_recipient_session_id := Some (ss_session_id recipient), mg_command_id := None\<rparr>"
    from False assms(2,3) have m': "m' = update_message (mg_message_id x) ?f m" "read_message (mg_message_id x) m' = Inr g"
      by (auto simp: store_message_def Let_def rbind_Inr_iff split: if_splits)
    from m'(2) have g: "g \<in> set (ml_messages m')" "mg_message_id g = mg_message_id x" by (auto dest: read_message_Inr)
    then obtain y where y: "y \<in> set (ml_messages m)" "g = (if mg_message_id y = mg_message_id x then ?f y else y)"
      by (auto simp: m'(1) update_message_def update_where_def)
    have "mg_message_id y = mg_message_id x" using y(2) g(2) by (auto split: if_splits)
    moreover have "inj_on mg_message_id (set (ml_messages m))" using assms(1) by (simp add: mail_ok_def distinct_map)
    ultimately have "y = x" using x y(1) by (simp add: inj_onD)
    then have "g = ?f x" using y(2) by simp
    then have "same_text x g" by (simp add: same_text_def)
    moreover have "length (ml_messages m') = length (ml_messages m)" by (simp add: m'(1) update_message_def update_where_def)
    ultimately show ?thesis using g(1) run by blast
  qed
qed

lemma sent_is_stored:
  assumes "mail_ok db m" "send_txn e freshId p i db m = Inr (g, m')"
  shows "g \<in> set (ml_messages m') \<and> mg_idempotency_key g = sm_idempotencyKey i \<and> mg_run_id g = sm_runId i"
proof -
  from assms(2) obtain body payload parentId sender recipient where
    s: "store_message e freshId i payload parentId sender recipient db m = Inr (g, m')" by (rule send_Inr)
  show ?thesis
  proof (cases "message_by_key (sm_idempotencyKey i) m")
    case None
    let ?g = "new_message e freshId i payload parentId sender recipient"
    from s None have "insert_message db ?g m = Inr m'" "read_message (mg_message_id ?g) m' = Inr g"
      by (auto simp: store_message_def Let_def rbind_Inr_iff)
    then have "m' = m\<lparr>ml_messages := ml_messages m @ [?g]\<rparr>" "mg_message_id ?g \<notin> mg_message_id ` set (ml_messages m)"
      "g \<in> set (ml_messages m')" "mg_message_id g = mg_message_id ?g" by (auto simp: insert_message_Inr dest: read_message_Inr)
    then have "(g \<in> set (ml_messages m) \<or> g = ?g) \<and> mg_message_id g \<notin> mg_message_id ` set (ml_messages m)" by auto
    then have "g = ?g" by blast
    moreover have "mg_idempotency_key ?g = sm_idempotencyKey i" by (simp add: new_message_def)
    ultimately show ?thesis using \<open>g \<in> set (ml_messages m')\<close> by simp
  next
    case (Some x)
    then have "mg_idempotency_key x = sm_idempotencyKey i" by (auto simp: message_by_key_def find_Some_iff)
    with resent [OF assms(1) Some s] show ?thesis by (simp add: same_text_def)
  qed
qed

text \<open>
  C0. A message is sent once. After a message was sent, and whatever happens to the database as long as its run is not
  deleted, there is exactly one message under its key: the same text between the same parties, which stays consumed once it
  is. Sending under the key again gives this message or is refused, and never adds one.
\<close>

theorem message_is_sent_once:
  assumes "mail_ok db m" "send_txn e freshId p i db m = Inr (g, m1)"
    and "(mail_step R)\<^sup>*\<^sup>* (db, m1) (db', m')" "sm_runId i \<in> R"
  shows "\<exists>h. {x \<in> set (ml_messages m'). mg_idempotency_key x = sm_idempotencyKey i} = {h} \<and> moves_on g h \<and>
    {(same_text g k, length (ml_messages m2)) | e2 freshId2 p2 i2 k m2. sm_idempotencyKey i2 = sm_idempotencyKey i \<and>
        send_txn e2 freshId2 p2 i2 db' m' = Inr (k, m2)} \<subseteq> {(True, length (ml_messages m'))}"
proof -
  note g = sent_is_stored [OF assms(1,2)]
  have "mail_ok db m1" using tables_step_keeps [OF send_step [OF assms(2)] assms(1)] by blast
  then have k: "mail_ok db' m'" "mail_kept R m1 m'" using steps_keep [OF assms(3)] by auto
  with g assms(4) obtain h where h: "h \<in> set (ml_messages m')" "moves_on g h" unfolding mail_kept_def by metis
  then have key: "mg_idempotency_key h = sm_idempotencyKey i" using g by (simp add: moves_on_def same_text_def)
  have inj: "inj_on mg_idempotency_key (set (ml_messages m'))" using k(1) by (simp add: mail_ok_def distinct_map)
  have "x = h" if "x \<in> set (ml_messages m')" "mg_idempotency_key x = sm_idempotencyKey i" for x
    by (rule inj_onD [OF inj _ that(1) h(1)]) (simp add: that(2) key)
  then have "{x \<in> set (ml_messages m'). mg_idempotency_key x = sm_idempotencyKey i} = {h}"
    using h(1) key by blast
  moreover have "same_text g k \<and> length (ml_messages m2) = length (ml_messages m')"
    if "sm_idempotencyKey i2 = sm_idempotencyKey i" "send_txn e2 freshId2 p2 i2 db' m' = Inr (k, m2)" for e2 freshId2 p2 i2 k m2
  proof -
    from that(2) obtain body payload parentId sender recipient where
      s: "store_message e2 freshId2 i2 payload parentId sender recipient db' m' = Inr (k, m2)" by (rule send_Inr)
    have "message_by_key (sm_idempotencyKey i2) m' = Some h" using key_unique [OF k(1) h(1)] key that(1) by simp
    from resent [OF k(1) this s] h(2) show ?thesis by (auto simp: moves_on_def same_text_def)
  qed
  ultimately show ?thesis using h(2) by blast
qed

theorem message_is_sent_once_witness:
  "\<exists>m1 h. send_txn env0 ''1'' worker0 note0 mail_db empty_mail = Inr (sent0, m1) \<and>
     {x \<in> set (ml_messages (cascade_mail mail_db m1)). mg_idempotency_key x = ''k''} = {h} \<and> mg_message_id h = ''msg-1''"
proof -
  let ?m1 = "\<lparr>ml_messages = [sent0], ml_requests = []\<rparr>"
  have "mail_step {''run-1''} (mail_db, ?m1) (mail_db, cascade_mail mail_db ?m1)"
    by (rule mail_step.other) (simp add: mail_db_def runs_db'_def)
  then have s: "(mail_step {''run-1''})\<^sup>*\<^sup>* (mail_db, ?m1) (mail_db, cascade_mail mail_db ?m1)" by (rule r_into_rtranclp)
  have r: "sm_runId note0 \<in> {''run-1''}" by (simp add: note0_def)
  from message_is_sent_once [OF empty_mail_ok note0_sent s r] obtain h where
    h: "{x \<in> set (ml_messages (cascade_mail mail_db ?m1)). mg_idempotency_key x = sm_idempotencyKey note0} = {h}" "moves_on sent0 h" by blast
  have "sm_idempotencyKey note0 = ''k''" by (simp add: note0_def)
  moreover have "mg_message_id h = ''msg-1''" using h(2) by (simp add: moves_on_def same_text_def sent0_def new_message_def)
  ultimately show ?thesis using note0_sent h(1) by auto
qed

section \<open>Only the addressee consumes\<close>

text \<open>The running session of an agent in its run.\<close>

definition session_of :: "runtime_db \<Rightarrow> string \<Rightarrow> string option \<Rightarrow> bool" where
  "session_of db agentId runId \<longleftrightarrow> (\<exists>s \<in> set (db_sessions db). ss_state s = SS_running \<and> ss_agent_id s = agentId \<and> ss_run_id s = runId)"

lemma mail_session_of: "mail_session sid db = Inr s \<Longrightarrow> session_of db (ss_agent_id s) (ss_run_id s)"
  by (auto simp: mail_session_def find_session_def session_of_def find_Some_iff split: option.splits if_splits)

lemma only_addressee_consumes:
  assumes "consumeMessage e p i db m = Inr (g', m')" "mail_ok db m" "g \<in> set (ml_messages m)" "mg_message_id g = i"
  shows "session_of db (mg_recipient_id g) (mg_recipient_run_id g)"
proof -
  from assms(1) obtain s h where s: "mail_session (pr_sessionId p) db = Inr s" "read_message i m = Inr h"
    "ss_agent_id s = mg_recipient_id h" "ss_run_id s = mg_recipient_run_id h"
    by (auto simp: consumeMessage_def rbind_Inr_iff split: if_splits)
  from s(2) have h: "h \<in> set (ml_messages m)" "mg_message_id h = i" by (auto dest: read_message_Inr)
  have "inj_on mg_message_id (set (ml_messages m))" using assms(2) by (simp add: mail_ok_def distinct_map)
  from inj_onD [OF this _ h(1) assms(3)] h(2) assms(4) have "h = g" by simp
  with mail_session_of [OF s(1)] s(3,4) show ?thesis by simp
qed

section \<open>A question gets one answer\<close>

lemma request_unique:
  assumes "mail_ok db m" "r \<in> set (ml_requests m)" "x \<in> set (ml_requests m)" "rq_request_id x = rq_request_id r"
  shows "x = r"
proof -
  have "inj_on rq_request_id (set (ml_requests m))" using assms(1) by (simp add: mail_ok_def distinct_map)
  from inj_onD [OF this assms(4,3,2)] show ?thesis .
qed

lemma find_request_id:
  assumes "find_request runId (Some i) m = Some r" "i \<noteq> []"
  shows "r \<in> set (ml_requests m) \<and> rq_run_id r = runId \<and> rq_request_id r = i"
proof -
  have "newest_request rs = Some r \<Longrightarrow> r \<in> set rs" for rs by (induction rs) (auto split: option.splits if_splits)
  from this [OF assms(1) [unfolded find_request_def]] assms(2) show ?thesis by simp
qed

text \<open>What an accepted answer leaves: the request with the answer.\<close>

lemma answered_request:
  assumes "bridgeInputResponse e freshId runId agentId a (Some i) authority db m = Inr (Some mid, m')" "i \<noteq> []" "mail_ok db m"
  shows "\<exists>r \<in> set (ml_requests m'). rq_request_id r = i \<and> rq_run_id r = runId \<and> rq_state r = RQ_answered \<and> rq_response r = Some a"
proof -
  from assms(1) obtain r where r: "find_request runId (Some i) m = Some r" "answer_txn e freshId runId agentId a r db m = Inr (Some mid, m')"
    by (auto simp: bridgeInputResponse_def split: option.splits if_splits)
  note r' = find_request_id [OF r(1) assms(2)]
  show ?thesis
  proof (cases "rq_state r")
    case RQ_answered
    with r(2) have "m' = m" "rq_response r = Some a" by (auto simp: answer_txn_def split: if_splits)
    with r' RQ_answered show ?thesis by blast
  next
    case RQ_pending
    with r(2) obtain m1 where "insert_message db (response_message e freshId runId agentId r a db) m = Inr m1" "m' = answer_request e (rq_request_id r) a m1"
      by (auto simp: answer_txn_def rbind_Inr_iff)
    then have "ml_requests m' = update_where (\<lambda>x. rq_request_id x = rq_request_id r)
       (\<lambda>x. x\<lparr>rq_state := RQ_answered, rq_response := Some a, rq_answered_at := Some (now_ts e)\<rparr>) (ml_requests m)"
      by (auto simp: answer_request_def insert_message_Inr)
    then have "r\<lparr>rq_state := RQ_answered, rq_response := Some a, rq_answered_at := Some (now_ts e)\<rparr> \<in> set (ml_requests m')"
      using r' by (auto simp: update_where_def image_iff)
    then show ?thesis by (rule bexI [rotated]) (use r' in simp)
  qed
qed

lemma durable_response:
  assumes "mail_ok db m" "r \<in> set (ml_requests m)" "rq_state r = RQ_answered"
  shows "readDurableInputResponse (rq_request_id r) m = rq_response r"
proof (cases "List.find (\<lambda>x. rq_request_id x = rq_request_id r \<and> rq_state x = RQ_answered) (ml_requests m)")
  case None
  with assms show ?thesis by (auto simp: find_None_iff)
next
  case (Some x)
  then have x: "x \<in> set (ml_requests m)" "rq_request_id x = rq_request_id r" by (auto simp: find_Some_iff)
  have "x = r" by (rule request_unique [OF assms(1,2) x])
  with Some show ?thesis by (simp add: readDurableInputResponse_def)
qed

lemma answer_again:
  assumes "mail_ok db m" "r \<in> set (ml_requests m)" "rq_state r = RQ_answered" "rq_request_id r \<noteq> []"
    and "bridgeInputResponse e freshId runId agentId a (Some (rq_request_id r)) authority db m = Inr (Some mid, m')"
  shows "rq_response r = Some a \<and> m' = m"
proof -
  from assms(5) obtain x where x: "find_request runId (Some (rq_request_id r)) m = Some x" "answer_txn e freshId runId agentId a x db m = Inr (Some mid, m')"
    by (auto simp: bridgeInputResponse_def split: option.splits if_splits)
  have "x = r" by (rule request_unique [OF assms(1,2)]) (use find_request_id [OF x(1) assms(4)] in simp_all)
  with x(2) assms(3) show ?thesis by (auto simp: answer_txn_def split: if_splits)
qed

text \<open>
  C0. A question gets one answer. Once an answer to a request was accepted, and whatever happens to the database as long as
  the run is not deleted, the worker reads this answer; accepting an answer again is only possible
  with the same text, and changes nothing.
\<close>

theorem question_has_one_answer:
  assumes "mail_ok db m" "bridgeInputResponse e freshId runId agentId a (Some i) authority db m = Inr (Some mid, m1)"
    and "(mail_step R)\<^sup>*\<^sup>* (db, m1) (db', m')" "runId \<in> R" "i \<noteq> []"
  shows "readDurableInputResponse i m' = Some a \<and>
    {(b, m2) | e2 f2 agent2 b authority2 mid2 m2. bridgeInputResponse e2 f2 runId agent2 b (Some i) authority2 db' m' = Inr (Some mid2, m2)} \<subseteq> {(a, m')}"
proof -
  from answered_request [OF assms(2,5,1)] obtain r where
    r: "r \<in> set (ml_requests m1)" "rq_request_id r = i" "rq_run_id r = runId" "rq_state r = RQ_answered" "rq_response r = Some a" by blast
  have "mail_ok db m1" using tables_step_keeps [OF answer_step [OF assms(2)] assms(1)] by blast
  then have k: "mail_ok db' m'" "mail_kept R m1 m'" using steps_keep [OF assms(3)] by auto
  with r(1,3) assms(4) obtain x where x: "x \<in> set (ml_requests m')" "goes_on r x" unfolding mail_kept_def by blast
  with r have f: "rq_request_id x = i" "rq_state x = RQ_answered" "rq_response x = Some a" by (auto simp: goes_on_def)
  have "readDurableInputResponse i m' = Some a" using durable_response [OF k(1) x(1) f(2)] f by simp
  moreover have "(b, m2) = (a, m')" if "bridgeInputResponse e2 f2 runId agent2 b (Some i) authority2 db' m' = Inr (Some mid2, m2)"
    for e2 f2 agent2 b authority2 mid2 m2
    using answer_again [OF k(1) x(1) f(2), unfolded f(1), OF assms(5) that] f(3) by simp
  ultimately show ?thesis by blast
qed

end
