(* ===== verification/Conversations.thy ===== *)
theory Conversations
  imports Messages Operator
begin

text \<open>
  Conversations between a worker, its reviewers and the operator: the requests \<^verbatim>\<open>review-submit\<close>, \<^verbatim>\<open>input-request\<close> and
  \<^verbatim>\<open>input-poll\<close> of \<^verbatim>\<open>lib/workerLifecycle.ts\<close>, the answer of an input request in \<^verbatim>\<open>lib/operatorMutations.ts\<close>, and the
  reviews of a run in \<^verbatim>\<open>lib/projectReads.ts\<close>. They write the event log and the message tables, so that an
  operation goes from a state directory and its mail to both. The memory drawers that a review or an answer may leave
  are not part of the state.
\<close>

type_synonym 'a post = "'a result \<times> orc_state \<times> mail"

text \<open>The message tables after another table of the same database was written.\<close>

definition posted :: "'a result \<Rightarrow> orc_state \<Rightarrow> mail \<Rightarrow> 'a post" where
  "posted r st m = (r, st, cascade_mail (st_db st) m)"

section \<open>Requests of a worker (workerLifecycle.ts)\<close>

datatype MessageRequest =
    review_submit string string ReviewOutcome string
  | input_request string string string
  | input_poll string string string int bool

datatype LifecycleReply =
    Reviewed
  | Not_started
  | Asked string nat
  | Polled "string option" bool

definition or_null :: "string option \<Rightarrow> json" where
  "or_null x = (case x of None \<Rightarrow> JNull | Some s \<Rightarrow> JStr s)"

text \<open>For findings the claim is loaded to name a memory drawer; an error of that is ignored.\<close>

definition submit_review :: "env \<Rightarrow> string \<Rightarrow> string \<Rightarrow> string \<Rightarrow> ReviewOutcome \<Rightarrow> string \<Rightarrow> orc_state \<Rightarrow> mail \<Rightarrow> LifecycleReply post" where
  "submit_review e freshId runId agentId outc reason st m =
     (case bridgeReviewFeedback e freshId runId agentId outc reason (st_db st) m of
        Inl err \<Rightarrow> (Inl err, st, m)
      | Inr (messageId, m1) \<Rightarrow>
          (case appendEventTo e (mk_event (now_ts e) ''review_submitted'' ''agent'' agentId (Some runId) None (Some agentId)
                  (Some [(''outcome'', JStr (outcome_str outc)), (''findings'', JStr reason), (''message_id'', or_null messageId)])) st of
             (Inl err, st1) \<Rightarrow> (Inl err, st1, m1)
           | (Inr _, st1) \<Rightarrow> posted (Inr Reviewed) (if outc = Findings then snd (loadClaim runId st1) else st1) m1))"

definition ask_event :: "env \<Rightarrow> string \<Rightarrow> string \<Rightarrow> string \<Rightarrow> string \<Rightarrow> Claim \<Rightarrow> OrcEvent" where
  "ask_event e requestId runId agentId question claim =
     mk_event (now_ts e) ''input_requested'' ''agent'' agentId (Some runId) (Some (c_task_ref claim)) (Some agentId)
       (Some [(''question'', JStr question), (''request_id'', JStr requestId)])"

text \<open>\<open>requestId\<close> and \<open>freshId\<close> are random. The event stays when its durable copy is refused.\<close>

definition ask_input :: "env \<Rightarrow> string \<Rightarrow> string \<Rightarrow> string \<Rightarrow> string \<Rightarrow> string \<Rightarrow> orc_state \<Rightarrow> mail \<Rightarrow> LifecycleReply post" where
  "ask_input e requestId freshId runId agentId question st m =
     (let (claim, st0) = loadClaim runId st in
      case validated (lifecycle_command ''need_input'' runId agentId (Some ''master_input_required'') None) claim False of
        Inl err \<Rightarrow> posted (Inl err) st0 m
      | Inr c \<Rightarrow>
          if c_state c \<noteq> CS_in_progress then posted (Inr Not_started) st0 m
          else (case appendSequencedEvent e (ask_event e requestId runId agentId question c) (st_db st0) of
                  Inl err \<Rightarrow> posted (Inl err) st0 m
                | Inr (requestSeq, db) \<Rightarrow>
                    (case bridgeInputRequest e freshId runId agentId requestId question db (cascade_mail db m) of
                       Inl err \<Rightarrow> posted (Inl err) (st0\<lparr>st_db := db\<rparr>) m
                     | Inr (_, m1) \<Rightarrow> (Inr (Asked requestId requestSeq), st0\<lparr>st_db := db\<rparr>, m1))))"

definition is_answer_event :: "string \<Rightarrow> string \<Rightarrow> string \<Rightarrow> int \<Rightarrow> OrcEvent \<Rightarrow> bool" where
  "is_answer_event runId agentId requestId requestSeq ev \<longleftrightarrow>
     (let payload = or_default (ev_payload ev) [] in
      (map_of payload ''request_id'' = Some (JStr requestId) \<or>
       (map_of payload ''request_id'' = None \<and> int (ev_seq ev) > requestSeq)) \<and>
      ev_event ev = ''input_response'' \<and> ev_run_id ev = Some runId \<and> ev_agent_id ev = Some agentId \<and>
      json_str (map_of payload ''response'') \<noteq> None)"

definition latestInputResponse :: "env \<Rightarrow> string \<Rightarrow> string \<Rightarrow> string \<Rightarrow> int \<Rightarrow> orc_state \<Rightarrow> mail \<Rightarrow> string option" where
  "latestInputResponse e runId agentId requestId requestSeq st m =
     coalesce
       (case List.find (\<lambda>r. rq_request_id r = requestId \<and> rq_run_id r = runId \<and> rq_state r = RQ_answered) (ml_requests m) of
          None \<Rightarrow> None | Some r \<Rightarrow> rq_response r)
       (case List.find (is_answer_event runId agentId requestId requestSeq) (rev (readEventsSince e (nat requestSeq) (st_db st))) of
          None \<Rightarrow> None | Some ev \<Rightarrow> json_str (map_of (or_default (ev_payload ev) []) ''response''))"

definition poll_input :: "env \<Rightarrow> string \<Rightarrow> string \<Rightarrow> string \<Rightarrow> int \<Rightarrow> bool \<Rightarrow> orc_state \<Rightarrow> mail \<Rightarrow> LifecycleReply post" where
  "poll_input e runId agentId requestId requestSeq beat st m =
     (let response = latestInputResponse e runId agentId requestId requestSeq st m; (claim, st0) = loadClaim runId st;
          active = isActiveRunClaim claim agentId in
      if response = None \<and> active \<and> beat
      then (case appendEventTo e (mk_event (now_ts e) ''heartbeat'' ''agent'' agentId (Some runId) (Some (c_task_ref (the claim)))
                    (Some agentId) None) st0 of
              (Inl err, st1) \<Rightarrow> posted (Inl err) st1 m
            | (Inr _, st1) \<Rightarrow> posted (Inr (Polled response active)) st1 m)
      else posted (Inr (Polled response active)) st0 m)"

fun applyMessageRequest :: "env \<Rightarrow> string \<Rightarrow> string \<Rightarrow> MessageRequest \<Rightarrow> orc_state \<Rightarrow> mail \<Rightarrow> LifecycleReply post" where
  "applyMessageRequest e requestId freshId (review_submit runId agentId outc reason) st m = submit_review e freshId runId agentId outc reason st m"
| "applyMessageRequest e requestId freshId (input_request runId agentId question) st m = ask_input e requestId freshId runId agentId question st m"
| "applyMessageRequest e requestId freshId (input_poll runId agentId i requestSeq beat) st m = poll_input e runId agentId i requestSeq beat st m"

fun message_run :: "MessageRequest \<Rightarrow> string" where
  "message_run (review_submit r a outc x) = r"
| "message_run (input_request r a q) = r"
| "message_run (input_poll r a i n beat) = r"

fun message_agent :: "MessageRequest \<Rightarrow> string" where
  "message_agent (review_submit r a outc x) = a"
| "message_agent (input_request r a q) = a"
| "message_agent (input_poll r a i n beat) = a"

fun is_poll :: "MessageRequest \<Rightarrow> bool" where
  "is_poll (input_poll r a i n beat) = True"
| "is_poll _ = False"

text \<open>\<^verbatim>\<open>authorizeLifecycle\<close> for these requests: a poll may still come from the session of a run that has ended.\<close>

definition authorizeMessageRequest :: "env \<Rightarrow> string \<Rightarrow> MessageRequest \<Rightarrow> orc_state \<Rightarrow> bool result" where
  "authorizeMessageRequest e credential req st =
     (case resolveControlPrincipal e (Some credential) False st of
        Inl (ControlError code m) \<Rightarrow> if code = ''unauthenticated'' then Inl not_running else Inl (ControlError code m)
      | Inl err \<Rightarrow> Inl err
      | Inr None \<Rightarrow> Inl not_running
      | Inr (Some p) \<Rightarrow>
          if \<not> principal_live p \<and> \<not> (is_poll req \<and> principal_run p = Some (message_run req)) then Inl not_running
          else if principal_agent p \<noteq> Some (message_agent req)
          then Inl (ControlError ''forbidden'' (''Session belongs to '' @ or_default (principal_agent p) ''null'' @ '', not '' @ message_agent req))
          else if principal_run p \<noteq> Some (message_run req)
          then Inl (ControlError ''forbidden'' (''Session is not scoped to run '' @ message_run req))
          else Inr (principal_live p))"

section \<open>Answering (operatorMutations.ts)\<close>

definition event_request_id :: "OrcEvent \<Rightarrow> json option" where
  "event_request_id ev = map_of (or_default (ev_payload ev) []) ''request_id''"

text \<open>The event of the request: the one that is named, or the last that the query returns.\<close>

definition asked_event :: "env \<Rightarrow> string \<Rightarrow> string \<Rightarrow> string option \<Rightarrow> runtime_db \<Rightarrow> OrcEvent option" where
  "asked_event e runId agentId requestId db =
     (let evs = queryEvents e (Some runId) (Some agentId) (Some ''input_requested'') None 50 False db in
      if truthy requestId then List.find (\<lambda>ev. event_request_id ev = Some (JStr (the requestId))) (rev evs)
      else if evs = [] then None else Some (last evs))"

definition answered_id :: "string option \<Rightarrow> OrcEvent option \<Rightarrow> string option" where
  "answered_id requestId asked =
     (case requestId of Some i \<Rightarrow> Some i
      | None \<Rightarrow> (case asked of None \<Rightarrow> None | Some ev \<Rightarrow> json_str (event_request_id ev)))"

definition answer_event :: "env \<Rightarrow> string \<Rightarrow> string \<Rightarrow> string \<Rightarrow> string \<Rightarrow> OrcEvent option \<Rightarrow> string option \<Rightarrow> string option \<Rightarrow> OrcEvent" where
  "answer_event e actorId runId agentId response asked requestId messageId =
     mk_event (now_ts e) ''input_response'' (actor_type_of actorId) actorId (Some runId)
       (case asked of None \<Rightarrow> None | Some ev \<Rightarrow> ev_task_ref ev) (Some agentId)
       (Some [(''response'', JStr response),
              (''question'', or_default (case asked of None \<Rightarrow> None | Some ev \<Rightarrow> map_of (or_default (ev_payload ev) []) ''question'') JNull),
              (''request_id'', or_null requestId), (''message_id'', or_null messageId)])"

text \<open>An answer that no request is waiting for is refused; clearing the input state of the claim may fail.\<close>

definition respondInput ::
  "env \<Rightarrow> string \<Rightarrow> string \<Rightarrow> string \<Rightarrow> string \<Rightarrow> string option \<Rightarrow> string option \<Rightarrow> InputAuthority \<Rightarrow> orc_state \<Rightarrow> mail \<Rightarrow> string post" where
  "respondInput e freshId runId agentId response actor requestId authority st m =
     (if runId = [] then (Inl (InputError ''run_id is required''), st, m)
      else if agentId = [] then (Inl (InputError ''agent_id is required''), st, m)
      else if response = [] then (Inl (InputError ''response is required''), st, m)
      else
        (let (actorId, st0) = actor_or_master e actor st; m0 = cascade_mail (st_db st0) m in
         if \<not> AGENT_ID_RE actorId then (Inl (InputError ''actor_id must be a valid agent id''), st0, m0)
         else
           (let asked = asked_event e runId agentId requestId (st_db st0); i = answered_id requestId asked in
            case bridgeInputResponse e freshId runId agentId response i authority (st_db st0) m0 of
              Inl err \<Rightarrow> (Inl err, st0, m0)
            | Inr (messageId, m1) \<Rightarrow>
                if messageId = None \<and> (truthy requestId \<or> asked = None)
                then (Inl (ConflictError ''Input request is not pending for this run''), st0, m1)
                else
                  (let st1 = snd (setRunInputState e runId agentId None None st0) in
                   case appendEventTo e (answer_event e actorId runId agentId response asked i messageId) st1 of
                     (Inl err, st2) \<Rightarrow> posted (Inl err) st2 m1
                   | (Inr _, st2) \<Rightarrow> posted (Inr actorId) st2 m1))))"

section \<open>The reviews of a run (projectReads.ts)\<close>

definition map_set :: "'k \<Rightarrow> 'v \<Rightarrow> ('k \<times> 'v) list \<Rightarrow> ('k \<times> 'v) list" where
  "map_set k v xs = (if k \<in> set (map fst xs) then map (\<lambda>kv. if fst kv = k then (k, v) else kv) xs else xs @ [(k, v)])"

definition bridged_event :: "string \<Rightarrow> BridgedReview \<Rightarrow> OrcEvent" where
  "bridged_event runId r =
     mk_event (br_createdAt r) ''review_submitted'' ''agent'' (br_agentId r) (Some runId) None (Some (br_agentId r))
       (Some [(''outcome'', JStr (outcome_str (br_outcome r))), (''findings'', JStr (br_findings r)), (''message_id'', JStr (br_messageId r))])"

text \<open>One message: left out when its event is there, or when the agent's entry is newer.\<close>

definition add_bridged :: "string \<Rightarrow> string list \<Rightarrow> BridgedReview \<Rightarrow> (string option \<times> OrcEvent) list \<Rightarrow> (string option \<times> OrcEvent) list" where
  "add_bridged runId seen r byAgent =
     (if br_messageId r \<in> set seen \<or>
         (case map_of byAgent (Some (br_agentId r)) of None \<Rightarrow> False | Some ev \<Rightarrow> \<not> ts_le (ev_ts ev) (br_createdAt r))
      then byAgent else map_set (Some (br_agentId r)) (bridged_event runId r) byAgent)"

definition readRunReviews :: "env \<Rightarrow> string \<Rightarrow> orc_state \<Rightarrow> mail \<Rightarrow> OrcEvent list" where
  "readRunReviews e runId st m =
     (let events = queryEvents e (Some runId) None (Some ''review_submitted'') None 100 False (st_db st);
          seen = List.map_filter (\<lambda>ev. json_str (map_of (or_default (ev_payload ev) []) ''message_id'')) events;
          byEvent = fold (\<lambda>ev. map_set (ev_agent_id ev) ev) events [] in
      map snd (fold (add_bridged runId seen) (readBridgedReviewFeedback runId m) byEvent))"

end
