(* ===== verification/Conversations_Props.thy ===== *)
theory Conversations_Props
  imports Messages_Props Conversations Claim_Props State_Invariant
begin

text \<open>
  An answer of the operator reaches the worker that asked, and is the only one.
\<close>

text \<open>An accepted answer to a named request is a transaction on the message tables between two changes of the rest of the database.\<close>

lemma respondInput_Inr:
  assumes "respondInput e freshId runId agentId response actor (Some i) authority st m = (Inr who, st1, m1)" "i \<noteq> []"
  obtains db mid m0 where
    "bridgeInputResponse e freshId runId agentId response (Some i) authority db (cascade_mail db m) = Inr (Some mid, m0)"
    "m1 = cascade_mail (st_db st1) m0"
proof -
  obtain actorId st0 where a: "actor_or_master e actor st = (actorId, st0)" by (cases "actor_or_master e actor st")
  let ?m = "cascade_mail (st_db st0) m"
  from assms a obtain messageId m0 where b: "bridgeInputResponse e freshId runId agentId response (Some i) authority (st_db st0) ?m = Inr (messageId, m0)"
    by (cases "bridgeInputResponse e freshId runId agentId response (Some i) authority (st_db st0) ?m")
      (auto simp: respondInput_def answered_id_def Let_def split: if_splits)
  with assms a have "messageId \<noteq> None \<and> m1 = cascade_mail (st_db st1) m0"
    by (auto simp: respondInput_def answered_id_def posted_def Let_def split: if_splits prod.splits sum.splits)
  with b show thesis by (auto intro: that)
qed

lemma bridge_run_known:
  "bridgeInputResponse e freshId runId agentId a i authority db m = Inr (Some mid, m') \<Longrightarrow> runId \<in> set (map rn_run_id (db_runs db))"
  by (auto simp: bridgeInputResponse_def find_Some_iff split: option.splits if_splits)

lemma poll_reads_answer:
  assumes "mail_ok db m" "r \<in> set (ml_requests m)" "rq_request_id r = i" "rq_run_id r = runId" "rq_state r = RQ_answered" "rq_response r = Some a"
  shows "fst (poll_input e runId agentId i n beat st m) = Inr (Polled (Some a) (isActiveRunClaim (fst (loadClaim runId st)) agentId))"
proof (cases "List.find (\<lambda>r. rq_request_id r = i \<and> rq_run_id r = runId \<and> rq_state r = RQ_answered) (ml_requests m)")
  case None
  with assms(2-5) show ?thesis by (auto simp: find_None_iff)
next
  case (Some x)
  then have "x \<in> set (ml_requests m)" "rq_request_id x = rq_request_id r" using assms(3) by (auto simp: find_Some_iff)
  then have "x = r" by (rule request_unique [OF assms(1,2)])
  with Some assms(6) have "latestInputResponse e runId agentId i n st m = Some a" by (simp add: latestInputResponse_def)
  then show ?thesis by (simp add: poll_input_def posted_def split: prod.split)
qed

text \<open>
  C0. An answer reaches the worker that asked, and there is one. Once the operator's answer to a request was accepted, and
  whatever happens to the state as long as the run is not deleted, every poll of the worker for the request returns this answer,
  and another answer to it that is accepted is the same text.
\<close>

theorem answer_reaches_worker:
  assumes "mail_ok (st_db st) m" "i \<noteq> []" "runId \<in> R"
    and "respondInput e freshId runId agentId response actor (Some i) authority st m = (Inr who, st1, m1)"
    and "runId \<in> rn_run_id ` set (db_runs (st_db st1))"
    and "(mail_step R)\<^sup>*\<^sup>* (st_db st1, m1) (st_db st2, m2)"
  shows "fst (poll_input e2 runId agent2 i n beat st2 m2) =
      Inr (Polled (Some response) (isActiveRunClaim (fst (loadClaim runId st2)) agent2)) \<and>
    {b | e3 f3 agent3 b actor3 authority3 who3 st3 m3.
        respondInput e3 f3 runId agent3 b actor3 (Some i) authority3 st2 m2 = (Inr who3, st3, m3)} \<subseteq> {response}"
proof -
  from respondInput_Inr [OF assms(4,2)] obtain db mid m0 where
    b: "bridgeInputResponse e freshId runId agentId response (Some i) authority db (cascade_mail db m) = Inr (Some mid, m0)"
      "m1 = cascade_mail (st_db st1) m0" by blast
  have ok: "mail_ok db (cascade_mail db m)" using cascade_keeps [OF assms(1), of "{}" db] by simp
  from answered_request [OF b(1) assms(2) ok] obtain r where
    r: "r \<in> set (ml_requests m0)" "rq_request_id r = i" "rq_run_id r = runId" "rq_state r = RQ_answered" "rq_response r = Some response" by blast
  have "mail_ok db m0" using tables_step_keeps [OF answer_step [OF b(1)] ok] by blast
  then have c: "mail_ok (st_db st1) m1" "mail_kept {runId} m0 m1"
    using cascade_keeps [of db m0 "{runId}" "st_db st1"] assms(5) by (simp_all add: b(2))
  from steps_keep [OF assms(6)] c(1) have k: "mail_ok (st_db st2) m2" "mail_kept R m1 m2" by auto
  from c(2) r(1,3) obtain y where y: "y \<in> set (ml_requests m1)" "goes_on r y" unfolding mail_kept_def by blast
  with r(3) have "rq_run_id y = runId" by (simp add: goes_on_def)
  with k(2) y(1) assms(3) obtain x where x: "x \<in> set (ml_requests m2)" "goes_on y x" unfolding mail_kept_def by blast
  from y(2) x(2) r(2-5) have f: "rq_request_id x = i" "rq_run_id x = runId" "rq_state x = RQ_answered" "rq_response x = Some response"
    by (simp_all add: goes_on_def)
  have "b = response" if r3: "respondInput e3 f3 runId agent3 b actor3 (Some i) authority3 st2 m2 = (Inr who3, st3, m3)"
    for e3 f3 agent3 b actor3 authority3 who3 st3 m3
  proof -
    obtain db3 mid3 m4 where
      b3: "bridgeInputResponse e3 f3 runId agent3 b (Some i) authority3 db3 (cascade_mail db3 m2) = Inr (Some mid3, m4)"
      by (rule respondInput_Inr [OF r3 assms(2)])
    have s: "{runId} \<subseteq> set (map rn_run_id (db_runs db3))" using bridge_run_known [OF b3] by simp
    note c3 = cascade_keeps [OF k(1) s]
    with x(1) f(2) obtain z where z: "z \<in> set (ml_requests (cascade_mail db3 m2))" "goes_on x z" unfolding mail_kept_def by blast
    with f have g: "rq_state z = RQ_answered" "rq_request_id z = i" "rq_response z = Some response" by (auto simp: goes_on_def)
    from answer_again [OF conjunct1 [OF c3] z(1) g(1), unfolded g(2), OF assms(2) b3] g(3) show ?thesis by simp
  qed
  then have "{b | e3 f3 agent3 b actor3 authority3 who3 st3 m3.
        respondInput e3 f3 runId agent3 b actor3 (Some i) authority3 st2 m2 = (Inr who3, st3, m3)} \<subseteq> {response}" by blast
  with poll_reads_answer [OF k(1) x(1) f] show ?thesis by (rule conjI)
qed

section \<open>Evaluation on a question of a worker\<close>

definition talk_db :: runtime_db where
  "talk_db = mail_db\<lparr>db_runs := map (\<lambda>r. r\<lparr>rn_claim_json := None\<rparr>) (db_runs mail_db)\<rparr>"

definition talk_st :: orc_state where
  "talk_st = \<lparr>st_db = talk_db, st_claims_json = None, st_agents_json = None, st_store = None, st_backlog_json = None,
     st_descriptor = True, st_run_specs = []\<rparr>"

definition asked_mail :: mail where
  "asked_mail = \<lparr>ml_messages = [question_message env0 ''1'' ''run-1'' ''w'' ''r1'' ''why'' talk_db],
     ml_requests = [new_request env0 ''run-1'' ''r1'' ''msg-1'' ''why'']\<rparr>"

definition trusted :: InputAuthority where "trusted = \<lparr>ia_sessionId = None, ia_trustedMaster = True\<rparr>"

lemma talk_runs: "map rn_run_id (db_runs talk_db) = [''run-1'']" "db_events talk_db = []" "CUTOVER_NAME \<in> set (db_cutovers talk_db)"
  by (simp_all add: talk_db_def mail_db_def runs_db'_def runs_db_def empty_db_def)

lemma asked_mail_ok: "mail_ok talk_db asked_mail"
proof -
  have "''run-1'' \<in> rn_run_id ` set (db_runs talk_db)" using talk_runs(1) by (metis list.set_intros(1) set_map)
  then show ?thesis by (simp add: mail_ok_def asked_mail_def message_ok_def request_ok_def question_message_def new_request_def)
qed

lemma asked_mail_settled: "cascade_mail talk_db asked_mail = asked_mail"
  by (simp add: cascade_mail_def asked_mail_def talk_runs question_message_def new_request_def known_def Let_def)

definition answered_mail :: mail where
  "answered_mail = answer_request env0 ''r1'' ''yes''
     (asked_mail\<lparr>ml_messages := ml_messages asked_mail @ [response_message env0 ''2'' ''run-1'' ''w'' (new_request env0 ''run-1'' ''r1'' ''msg-1'' ''why'') ''yes'' talk_db]\<rparr>)"

lemma talk_bridged:
  "bridgeInputResponse env0 ''2'' ''run-1'' ''w'' ''yes'' (Some ''r1'') trusted talk_db asked_mail = Inr (Some ''msg-2'', answered_mail)"
proof -
  let ?r = "new_request env0 ''run-1'' ''r1'' ''msg-1'' ''why''"
  have f: "find_request ''run-1'' (Some ''r1'') asked_mail = Some ?r"
    by (simp add: find_request_def asked_mail_def new_request_def)
  have run: "\<exists>r. List.find (\<lambda>r. rn_run_id r = ''run-1'') (db_runs talk_db) = Some r \<and> rn_agent_id r = Some ''w'' \<and> active_state (rn_state r)"
    by (simp add: talk_db_def mail_db_def runs_db'_def)
  have i: "insert_message talk_db (response_message env0 ''2'' ''run-1'' ''w'' ?r ''yes'' talk_db) asked_mail =
      Inr (asked_mail\<lparr>ml_messages := ml_messages asked_mail @ [response_message env0 ''2'' ''run-1'' ''w'' ?r ''yes'' talk_db]\<rparr>)"
    by (simp add: insert_message_Inr asked_mail_def response_message_def question_message_def response_key_def new_request_def talk_db_def
        mail_db_def runs_db'_def)
  have "answer_txn env0 ''2'' ''run-1'' ''w'' ''yes'' ?r talk_db asked_mail = Inr (Some ''msg-2'', answered_mail)"
    by (simp add: answer_txn_def i answered_mail_def) (simp add: new_request_def)
  with f run show ?thesis by (auto simp: bridgeInputResponse_def may_answer_def trusted_def)
qed

lemma talk_unclaimed: "snd (setRunInputState env0 ''run-1'' ''w'' None None talk_st) = talk_st"
  by (simp add: setRunInputState_def with_own_claim_def readJsonClaims_def readAuthoritativeClaims_def talk_st_def talk_runs
      readRows_def talk_db_def mail_db_def runs_db'_def List.map_filter_simps find_claim_def)

lemma w_ids: "AGENT_ID_RE ''w''" "AGENT_ID_RE ''master''"
  by (simp_all add: alnum_lower_def is_lower_def kebab_char_def is_digit_def char_code_def)

lemma talk_answered:
  "\<exists>st1. respondInput env0 ''2'' ''run-1'' ''w'' ''yes'' (Some ''master'') (Some ''r1'') trusted talk_st asked_mail =
     (Inr ''master'', st1, cascade_mail (st_db st1) answered_mail) \<and> db_runs (st_db st1) = db_runs talk_db"
proof -
  have asked: "asked_event env0 ''run-1'' ''w'' (Some ''r1'') talk_db = None"
    by (simp add: asked_event_def queryEvents_def talk_runs List.map_filter_simps Let_def)
  let ?ev = "answer_event env0 ''master'' ''run-1'' ''w'' ''yes'' None (Some ''r1'') (Some ''msg-2'')"
  have v: "validateEventObject env0 (?ev\<lparr>ev_seq := n, ev_event_id := Some i\<rparr>) = []" for n i
    by (simp add: answer_event_def actor_type_of_def or_null_def event_eval)
  have "ev_event_id ?ev = None" by (simp add: answer_event_def mk_event_def)
  from append_first_event [OF talk_runs(2) this v] obtain db where db: "append_event env0 ?ev talk_db = Inr db" by blast
  have st: "st_db talk_st = talk_db" by (simp add: talk_st_def)
  have app: "appendEventTo env0 ?ev talk_st = (Inr (), talk_st\<lparr>st_db := db\<rparr>)" by (simp add: appendEventTo_def st db)
  have "respondInput env0 ''2'' ''run-1'' ''w'' ''yes'' (Some ''master'') (Some ''r1'') trusted talk_st asked_mail =
     (Inr ''master'', talk_st\<lparr>st_db := db\<rparr>, cascade_mail db answered_mail)"
    using w_ids(2) by (simp add: respondInput_def actor_or_master_def st asked asked_mail_settled answered_id_def talk_bridged talk_unclaimed
        app posted_def Let_def)
  moreover have "db_runs db = db_runs talk_db" using append_event_frame [OF db] by simp
  ultimately show ?thesis by auto
qed

theorem answer_reaches_worker_witness:
  "\<exists>st1 m1. respondInput env0 ''2'' ''run-1'' ''w'' ''yes'' (Some ''master'') (Some ''r1'') trusted talk_st asked_mail = (Inr ''master'', st1, m1) \<and>
     fst (poll_input env0 ''run-1'' ''w'' ''r1'' 1 True st1 m1) = Inr (Polled (Some ''yes'') (isActiveRunClaim (fst (loadClaim ''run-1'' st1)) ''w''))"
proof -
  obtain st1 where r: "respondInput env0 ''2'' ''run-1'' ''w'' ''yes'' (Some ''master'') (Some ''r1'') trusted talk_st asked_mail =
     (Inr ''master'', st1, cascade_mail (st_db st1) answered_mail)" "db_runs (st_db st1) = db_runs talk_db" using talk_answered by blast
  have ok: "mail_ok (st_db talk_st) asked_mail" using asked_mail_ok by (simp add: talk_st_def)
  have run: "''run-1'' \<in> rn_run_id ` set (db_runs (st_db st1))" unfolding r(2) using talk_runs(1) by (metis list.set_intros(1) set_map)
  have i: "''r1'' \<noteq> []" by simp
  have R: "''run-1'' \<in> {''run-1''}" by simp
  from answer_reaches_worker [OF ok i R r(1) run rtranclp.rtrancl_refl] r(1) show ?thesis by blast
qed

section \<open>Requests are the session's own\<close>

lemma authorized_message_is_own:
  assumes "authorizeMessageRequest e credential req st = Inr live"
  shows "\<exists>p. resolveControlPrincipal e (Some credential) False st = Inr (Some p) \<and> principal_agent p = Some (message_agent req) \<and>
    principal_run p = Some (message_run req) \<and> live = principal_live p \<and> (live \<or> is_poll req)"
proof (cases "resolveControlPrincipal e (Some credential) False st")
  case (Inl err)
  with assms show ?thesis by (cases err) (simp_all add: authorizeMessageRequest_def split: if_splits)
next
  case (Inr q)
  with assms show ?thesis by (cases q) (auto simp: authorizeMessageRequest_def split: if_splits)
qed

section \<open>Part of the system\<close>

context state_invariant begin

lemma ok_append: "ok st \<Longrightarrow> appendEventTo e ev st = (r, st') \<Longrightarrow> ok st'"
  using sound_appendEvent [of st e ev] by (simp add: sound_def)

lemma ok_sequenced:
  assumes "ok st" "appendSequencedEvent e ev (st_db st) = Inr (n, db)"
  shows "ok (st\<lparr>st_db := db\<rparr>)"
proof -
  from assms(2) have "appendEventTo e ev st = (Inr (), st\<lparr>st_db := db\<rparr>)" by (simp add: appendEventTo_def append_event_def)
  with ok_append [OF assms(1)] show ?thesis by blast
qed

lemma ok_message_request: "ok st \<Longrightarrow> ok (fst (snd (applyMessageRequest e i f req st m)))"
proof (cases req)
  case (review_submit runId agentId outc reason)
  assume "ok st"
  then show ?thesis
    by (auto simp: review_submit submit_review_def posted_def split: sum.split prod.split dest: ok_append intro: ok_loadClaim)
next
  case (input_request runId agentId question)
  assume "ok st"
  then have "ok (snd (loadClaim runId st))" by (rule ok_loadClaim)
  then show ?thesis
    by (auto simp: input_request ask_input_def posted_def Let_def split: sum.split prod.split intro: ok_sequenced)
next
  case (input_poll runId agentId j n beat)
  assume "ok st"
  then have "ok (snd (loadClaim runId st))" by (rule ok_loadClaim)
  then show ?thesis
    by (auto simp: input_poll poll_input_def posted_def Let_def split: sum.split prod.split dest: ok_append)
qed

lemma ok_respond: 
  assumes "ok st"
  shows "ok (fst (snd (respondInput e f runId agentId response actor i authority st m)))"
proof -
  have a: "ok (snd (actor_or_master e actor st))" using assms by (rule ok_actor)
  have b: "ok st2" if "appendEventTo e ev (snd (setRunInputState e runId agentId None None st')) = (r, st2)" "ok st'" for ev st' r st2
  proof (rule ok_append [OF _ that(1)])
    show "ok (snd (setRunInputState e runId agentId None None st'))" using sound_claim_fields that(2) by (simp add: sound_def)
  qed
  from a assms show ?thesis
    by (auto simp: respondInput_def posted_def Let_def split: sum.split prod.split dest: b)
qed

end

end
