(* ===== verification/System.thy ===== *)
theory System
  imports Db_Integrity Worker_Launch_Props Session_Files_Props Task_Authoring_Props Conversations_Props
begin

text \<open>
  The components together: every operation of the model as a step of one transition system on a state
  directory, and the invariant of that system, an interpretation of \<open>tick_invariant\<close>.
\<close>

section \<open>The invariant\<close>

abbreviation system_ok :: "orc_state \<Rightarrow> bool" where
  "system_ok \<equiv> state_ok db_ok store_reachable"

lemma db_ok_offset: "db_ok db \<Longrightarrow> initializeEventOffset cp consumer db = Inr (n, db') \<Longrightarrow> db_ok db'"
  "db_ok db \<Longrightarrow> advanceEventOffset expected seq consumer db = Inr (m, db') \<Longrightarrow> db_ok db'"
  by (auto simp: initializeEventOffset_def advanceEventOffset_def set_offset_def Let_def rbind_Inr_iff split: if_splits option.splits)

lemma db_ok_renew: "db_ok db \<Longrightarrow> db_ok (snd (renewSessionOwnership e own ttl db))"
  by (auto simp: renewSessionOwnership_def Let_def db_ok_def runs_inv_def log_sound_def run_ids_def keys_sound_def set_update_where
      intro!: sessions_running_update split: if_splits)

interpretation sy: tick_invariant db_ok store_reachable
proof
  show "db_ok db \<Longrightarrow> readAuthoritativeClaims cj db = Inr (ocs, cj', db') \<Longrightarrow> db_ok db'" for db cj ocs cj' db'
    by (rule db_ok_readClaims)
  show "db_ok db \<Longrightarrow> withAuthoritativeAgentSessions e cj aj as db = Inr (as', db') \<Longrightarrow> db_ok db'" for db e cj aj as as' db'
    by (rule db_ok_withSessions)
  show "db_ok db \<Longrightarrow> commit_claims_txn e cj cs evs db = Inr db' \<Longrightarrow> db_ok db'" for db e cj cs evs db'
    by (rule db_ok_commit)
  show "db_ok db \<Longrightarrow> closeProviderSessionsForAgent e cj aj a at db = Inr db' \<Longrightarrow> db_ok db'" for db e cj aj a at db'
    by (rule db_ok_closeSessions)
  show "db_ok db \<Longrightarrow> setSessionState e i ss reason opts db = Inr (b, db') \<Longrightarrow> db_ok db'" for db e i ss reason opts b db'
    by (rule db_ok_setSessionState)
  show "db_ok db \<Longrightarrow> recordProviderSession e cj aj p db = Inr (b, db') \<Longrightarrow> db_ok db'" for db e cj aj p b db'
    by (rule db_ok_recordSession)
  show "store_reachable s \<Longrightarrow> store_step s s' \<Longrightarrow> store_reachable s'" for s s'
    by (rule store_reachable.step)
qed (rule db_ok_offset db_ok_renew; assumption)+

lemma system_db: "system_ok st \<Longrightarrow> db_ok (st_db st)"
  by (simp add: state_ok_def)

lemma system_ok_db: "system_ok st \<Longrightarrow> db_ok db \<Longrightarrow> system_ok (st\<lparr>st_db := db\<rparr>)"
  by (simp add: state_ok_def)

section \<open>The system\<close>

text \<open>
  A new state directory: empty databases, whatever the legacy files hold. Every step is one operation
  of the program, run to its end under the state lock or as one transaction, whether it succeeds or
  fails, by whichever process; \<open>author\<close> is any other transaction of the task store.
\<close>

definition orc_init :: "orc_state \<Rightarrow> bool" where
  "orc_init st \<longleftrightarrow> db_events (st_db st) = [] \<and> db_runs (st_db st) = [] \<and> db_sessions (st_db st) = [] \<and> db_commands (st_db st) = [] \<and>
     st_store st \<in> {None, Some empty_store}"

inductive orc_step :: "orc_state \<Rightarrow> orc_state \<Rightarrow> bool" where
  claim: "orc_step st (snd (claimTask e ref ag ms runId st))"
| start: "orc_step st (snd (startRun e runId ag emit at aty aid st))"
| beat: "orc_step st (snd (heartbeat e runId ag ms emit at st))"
| renew: "orc_step st (snd (renewLeaseOnly e runId ms st))"
| finish: "orc_step st (snd (finishRun e runId ag opts st))"
| envelope: "orc_step st (snd (markTaskEnvelopeSent e runId ag emit at aty aid2 st))"
| finalization: "orc_step st (snd (setRunFinalizationState e runId ag fs d br st))"
| input: "orc_step st (snd (setRunInputState e runId ag ins ra st))"
| retry: "orc_step st (snd (setRunSessionStartRetryState e runId ag rc na le st))"
| escalation: "orc_step st (snd (setEscalationNotified e runId st))"
| pr_ref: "orc_step st (snd (setPrRef e runId prRef st))"
| pr_created: "orc_step st (snd (setPrCreatedAt e runId ca n st))"
| expire: "orc_step st (snd (expireLeasesCore e policy actor st))"
| route: "orc_step st (snd (route_event e ev st))"
| duty: "orc_step st (snd (report_for_duty e ev st))"
| request: "orc_step st (snd (applyLifecycle e req st))"
| register: "orc_step st (snd (registerAgent e def st))"
| update_agent: "orc_step st (snd (updateAgentRuntime e ag u st))"
| remove: "orc_step st (snd (removeAgent e ag st))"
| cleanup: "orc_step st (snd (cleanupRunCapacity e maxWorkers ag why st))"
| reconcile: "orc_step st (snd (reconcileState e st))"
| delegate: "orc_step st (snd (delegateTask e ref target type note act lastAssigned st))"
| cancel: "orc_step st (snd (cancelTask e ref reason act st))"
| reset: "orc_step st (snd (resetTask e ref actorId st))"
| unblock: "orc_step st (snd (unblockTask e ref reason actorId st))"
| expire_run: "orc_step st (snd (expireRun e runId actorId st))"
| mark_done: "orc_step st (snd (markTaskDoneRuntimeOnly e ref actorId st))"
| finalize: "co_st c = st \<Longrightarrow> orc_step st (co_st (snd (finalizeRun e h cfg claim seq c)))"
| mark_dead: "co_st (sv_co s) = st \<Longrightarrow> orc_step st (co_st (sv_co (snd (markStaleAgentsDead e agents claims s))))"
| stale_leases: "co_st (sv_co s) = st \<Longrightarrow> orc_step st (co_st (sv_co (snd (expireAndCleanupStaleLeases e cfg s))))"
| probe: "co_st (sv_co s) = st \<Longrightarrow> orc_step st (co_st (sv_co (snd (probeActiveWorkerSessions e h cfg agents claims s))))"
| run_start: "co_st (sv_co s) = st \<Longrightarrow> orc_step st (co_st (sv_co (snd (enforceRunStartLifecycle e h scfg agents claims s))))"
| in_progress:
    "co_st (sv_co s) = st \<Longrightarrow> orc_step st (co_st (sv_co (snd (enforceInProgressLifecycle e h scfg agents claims mem attempts s))))"
| launch: "co_st c = st \<Longrightarrow> orc_step st (co_st (snd (launchWorkerSession e h lcfg req a c)))"
| dispatch: "co_st c = st \<Longrightarrow> orc_step st (co_st (snd (dispatch_item e h lcfg item c)))"
| tick: "co_st (sv_co (cn_sv k)) = st \<Longrightarrow> orc_step st (co_st (sv_co (cn_sv (snd (coordinator_tick e h tcfg k)))))"
| session_reset: "orc_step st (snd (resetVolatileRuntimeStateForSession e sid st))"
| session_reuse: "orc_step st (snd (prepareSessionReuse sid st))"
| session_started: "orc_step st (snd (appendSessionStartedEvent e prepared actorId st))"
| authoring: "orc_step st (snd (withTaskAuthoringBatch e calls st))"
| conversation: "orc_step st (fst (snd (applyMessageRequest e i freshId mreq st m)))"
| answer: "orc_step st (fst (snd (respondInput e freshId runId ag response act ri ia st m)))"
| runtime_event: "orc_step st (st\<lparr>st_db := onRuntimeEvent e rev_ev (st_db st)\<rparr>)"
| session: "recordProviderSession e (st_claims_json st) (st_agents_json st) p (st_db st) = Inr (b, db) \<Longrightarrow> orc_step st (st\<lparr>st_db := db\<rparr>)"
| session_state: "setSessionState e i ss reason so (st_db st) = Inr (b, db) \<Longrightarrow> orc_step st (st\<lparr>st_db := db\<rparr>)"
| event: "orc_step st (snd (appendEventTo e ev st))"
| enqueue: "enqueueCommand e freshId caller cmd (st_db st) = Inr (c, db) \<Longrightarrow> orc_step st (st\<lparr>st_db := db\<rparr>)"
| reserve: "reserveCommand e at (st_db st) = Inr (r, db) \<Longrightarrow> orc_step st (st\<lparr>st_db := db\<rparr>)"
| send: "markSendStarted e i (st_db st) = Inr (c, db) \<Longrightarrow> orc_step st (st\<lparr>st_db := db\<rparr>)"
| sent: "markSent e i (st_db st) = Inr (c, db) \<Longrightarrow> orc_step st (st\<lparr>st_db := db\<rparr>)"
| ack: "acknowledgeCommand e i pr a (st_db st) = Inr (c, db) \<Longrightarrow> orc_step st (st\<lparr>st_db := db\<rparr>)"
| runtime_ack: "acknowledgeFromRuntime e i sid a why2 (st_db st) = Inr (c, db) \<Longrightarrow> orc_step st (st\<lparr>st_db := db\<rparr>)"
| fail: "failTransport e i why1 (st_db st) = Inr (c, db) \<Longrightarrow> orc_step st (st\<lparr>st_db := db\<rparr>)"
| put_back: "deferCommand e i why1 t (st_db st) = Inr (c, db) \<Longrightarrow> orc_step st (st\<lparr>st_db := db\<rparr>)"
| sweep: "reconcileCommands e at stale (st_db st) = Inr (cs, db) \<Longrightarrow> orc_step st (st\<lparr>st_db := db\<rparr>)"
| resolve: "resolveUnknownCommand e i pr outcome why1 (st_db st) = Inr (c, db) \<Longrightarrow> orc_step st (st\<lparr>st_db := db\<rparr>)"
| author: "st_store st = Some s \<Longrightarrow> store_step s s' \<Longrightarrow> orc_step st (refreshBacklogProjection (st\<lparr>st_store := Some s'\<rparr>))"

lemma system_ok_init: "orc_init st \<Longrightarrow> system_ok st"
  by (auto simp: orc_init_def state_ok_def db_ok_def runs_inv_def runs_one_active_def log_sound_def sessions_one_running_def
        keys_sound_def intro: store_reachable.init)

lemma soundD: "sound system_ok r \<Longrightarrow> system_ok (snd r)"
  by (simp add: sound_def)

lemma txn_step: "txn_keeps db_ok r \<Longrightarrow> r = Inr (x, db) \<Longrightarrow> system_ok st \<Longrightarrow> system_ok (st\<lparr>st_db := db\<rparr>)"
  by (simp add: txn_keeps_def system_ok_db)

lemmas txn_ops = ci.keeps_enqueue ci.keeps_reserve ci.keeps_markSendStarted ci.keeps_markSent ci.keeps_acknowledge ci.keeps_runtime_ack
  ci.keeps_failTransport ci.keeps_defer ci.keeps_reconcile ci.keeps_resolve

lemma orc_step_ok: "orc_step st st' \<Longrightarrow> system_ok st \<Longrightarrow> system_ok st'"
proof (induction rule: orc_step.induct)
  case (finalize c st e h cfg claim seq)
  then show ?case using sy.finalizeRun_ok [of c] by simp
next
  case (mark_dead s st e agents claims)
  then show ?case using sy.so.keeps_mark_dead by (simp add: holds_def sup_sound_def)
next
  case (stale_leases s st e cfg)
  then show ?case using sy.so.keeps_expire by (simp add: holds_def sup_sound_def)
next
  case (probe s st e h cfg agents claims)
  then show ?case using sy.so.keeps_probe by (simp add: holds_def sup_sound_def)
next
  case (run_start s st e h scfg agents claims)
  then show ?case using sy.so.keeps_run_start [of claims] by (simp add: holds_def sup_sound_def)
next
  case (in_progress s st e h scfg agents claims mem attempts)
  then show ?case using sy.so.keeps_in_progress [of claims] by (simp add: holds_def sup_sound_def)
next
  case (launch c st e h lcfg req a)
  then show ?case using sy.lc.keeps_launch by (simp add: holds_def dir_sound_def)
next
  case (dispatch c st e h lcfg item)
  then show ?case using sy.lc.keeps_dispatch_item by (simp add: holds_def dir_sound_def)
next
  case (tick k st e h tcfg)
  then show ?case using sy.keeps_tick by (simp add: holds_def tick_sound_def)
next
  case (session_reset st e sid)
  then show ?case by (intro soundD sy.sound_session_reset)
next
  case (session_reuse st sid)
  then show ?case by (intro soundD sy.sound_session_reuse)
next
  case (session_started st e prepared actorId)
  then show ?case unfolding appendSessionStartedEvent_def by (intro soundD sound_intros)
next
  case (authoring st e calls)
  then show ?case by (intro soundD sy.sound_authoring)
next
  case (conversation st e i freshId mreq m)
  then show ?case by (intro sy.ok_message_request)
next
  case (answer st e freshId runId ag response act ri ia m)
  then show ?case by (intro sy.ok_respond)
next
  case (runtime_event st e rev_ev)
  then show ?case using sy.onRuntimeEvent_ok by (simp add: state_ok_def)
next
  case (session e st p b db)
  then show ?case using db_ok_recordSession [OF system_db] by (blast intro: system_ok_db)
next
  case (session_state e i ss reason so st b db)
  then show ?case using db_ok_setSessionState [OF system_db] by (blast intro: system_ok_db)
next
  case (author st s s')
  then show ?case by (auto intro: store_reachable.step simp: state_ok_def)
qed (rule soundD, (intro sound_intros sy.sound_route_event sy.sound_applyLifecycle sy.sound_reconcileState sy.sound_cancelTask), assumption |
     erule txn_step [rotated], assumption, rule txn_ops, erule system_db)+

lemma orc_steps_ok: "orc_step\<^sup>*\<^sup>* st0 st \<Longrightarrow> system_ok st0 \<Longrightarrow> system_ok st"
  by (induction rule: rtranclp_induct) (auto intro: orc_step_ok)


text \<open>A project is created, a task authored, and a worker claims it.\<close>

definition new_project :: orc_state where
  "new_project = proj_st\<lparr>st_store := Some empty_store\<rparr>"

definition authored_project :: orc_state where
  "authored_project = refreshBacklogProjection (new_project\<lparr>st_store := Some store0\<rparr>)"


end
