(* ===== verification/Spec2Isabelle.thy ===== *)
theory Spec2Isabelle
  imports Claim_Props Command_Props Lifecycle_Props Session_Props Scheduler_Props Finalization_Props
    File_Lock Reconcile_Props Run_Activity Supervision_Props Event_Processing_Props Dispatch_Props Operator
    Terminals_Props System
begin

text \<open>
  \<^bold>\<open>A verification library for orc-state.\<close>

  orc-state coordinates coding agents. A coordinator process reads the tasks of a project, launches a
  worker for each task that is ready, follows the worker through events, merges the result and
  releases the worker. The state lives in files and two SQLite databases of a state directory:
  \<^verbatim>\<open>runtime.db\<close> (tasks, revisions, transitions, run bindings), \<^verbatim>\<open>events.db\<close> (events, runs,
  sessions, commands, offsets), \<^verbatim>\<open>agents.json\<close>, \<^verbatim>\<open>claims.json\<close> and \<^verbatim>\<open>backlog.json\<close>. Every operation
  holds the state lock or runs in one transaction, so an operation is one step of the model and an
  interleaving of processes is a sequence of steps.

  \<^bold>\<open>How the program is modelled.\<close> A state directory is the record \<open>orc_state\<close> (\<open>Project_Tasks\<close>); its
  databases are \<open>task_store\<close> (\<open>Task_Store\<close>) and \<open>runtime_db\<close> (\<open>Runtime_Db\<close>). An operation is a
  function from the state to an \<open>outcome\<close>: a result, which is \<open>Inl\<close> of an \<open>orc_error\<close> where the
  source throws, and the state, also after an error, so that partial effects of a failing operation
  are visible. A transaction returns no state when it fails, since SQLite rolls it back; unique
  indices, CHECK constraints, foreign keys and triggers are guards of the definitions that write the
  rows. JavaScript numbers that count are \<open>nat\<close> or \<open>int\<close>, with the safe integer bound where the source
  checks it; a timestamp is milliseconds or the text that does not parse (\<open>Domain_Types\<close>). The record
  \<open>env\<close> holds what the sources do not define: the clock, the compiled JSON schema, random identifiers,
  the hash. Git, pull request hosts, provider adapters and processes are parameters too
  (\<open>host\<close>, \<open>os_view\<close>, \<open>command_transport\<close>), and no property assumes how they answer.

  \<^bold>\<open>The theories.\<close>

  \<^item> \<open>Orc_Prelude\<close>: results and outcomes with their bind, list and option lemmas, string predicates,
    the collections \<open>orc_simps\<close> and \<open>orc_eval\<close>. \<open>Domain_Types\<close>: \<^verbatim>\<open>types/*.ts\<close>, \<^verbatim>\<open>lib/constants.ts\<close>.

  \<^item> \<open>Task_Contract\<close>: \<^verbatim>\<open>lib/projectContract.ts\<close> and the trigger \<^verbatim>\<open>transitions_validate\<close>. The locale
    \<open>lifecycle_authority\<close> states what a rule on status changes promises and is interpreted by both.
    \<open>Task_Store\<close>, \<open>Task_Store_Proofs\<close>, \<open>Task_Store_Props\<close>: \<^verbatim>\<open>lib/projectTaskStore.ts\<close>; the invariant of
    the store under every committed transaction, that a claim succeeds exactly when the contract calls
    the task ready, that done means merged, and that a pinned specification never changes.

  \<^item> \<open>Runtime_Db\<close>: \<^verbatim>\<open>lib/runtimeSchema.ts\<close>. \<open>Event_Validation\<close>: \<^verbatim>\<open>lib/eventValidation.ts\<close>. \<open>Event_Log\<close>:
    \<^verbatim>\<open>lib/eventLog.ts\<close>, \<^verbatim>\<open>eventOffsets.ts\<close>, \<^verbatim>\<open>eventCheckpoint.ts\<close>; the locale \<open>event_source\<close> states
    what a batch reader promises, from which a consumer sees every row once and in order.

  \<^item> \<open>Run_Store\<close>: \<^verbatim>\<open>lib/runStore.ts\<close>. \<open>Project_Tasks\<close>: the projection and lifecycle writes of
    \<^verbatim>\<open>lib/projectTasks.ts\<close>, \<^verbatim>\<open>stateReader.ts\<close>, \<^verbatim>\<open>documentIndex.ts\<close>. \<open>Claim_Manager\<close> and \<open>Claim_Props\<close>:
    \<^verbatim>\<open>lib/claimManager.ts\<close>, \<^verbatim>\<open>claimStateManager.ts\<close>, \<^verbatim>\<open>claimLeaseManager.ts\<close>; the locale
    \<open>claims_repository\<close> is the contract of the run store that the claim manager relies on. Claims are
    exclusive, a failed claim is undone, claims never move backwards, expiry fails exactly the stale
    claims, attempts are bounded.

  \<^item> \<open>Task_Body\<close>: the default body of a task and the acceptance criteria that a body states, with the regular
    expressions of \<^verbatim>\<open>parseBodyAcceptanceCriteria\<close>; what is rendered is read back. \<open>Task_Authoring\<close> and
    \<open>Task_Authoring_Props\<close>: the authoring commands of \<^verbatim>\<open>lib/projectTasks.ts\<close>, one by one and in a batch, which
    never move a task.

  \<^item> \<open>Command_Delivery\<close> and \<open>Command_Props\<close>: \<^verbatim>\<open>lib/commandDelivery.ts\<close>. The queue as a step relation
    over its transactions: at most one send of a command with side effects, terminal states are final,
    the recovery sweep leaves no orphan. The dispatcher's \<^verbatim>\<open>tick\<close> is a loop with fuel; one tick reads
    one clock value, a reserved command leaves the set of due ones, and fuel for one round more than
    there are commands is enough, which is proved (\<open>tick_ends\<close>); \<^verbatim>\<open>deliver\<close> polls every 25 ms for at most
    30 s, so 1201 rounds are enough (\<open>deliver_ends\<close>).

  \<^item> \<open>Agent_Registry\<close>: \<^verbatim>\<open>lib/agentRegistry.ts\<close>, \<^verbatim>\<open>agentActivity.ts\<close>, \<^verbatim>\<open>workerSlots.ts\<close>, the clearing of
    a worker in \<^verbatim>\<open>workerRuntime.ts\<close> and \<^verbatim>\<open>cleanupRunCapacity\<close>. \<open>Lifecycle\<close> and \<open>Lifecycle_Props\<close>:
    \<^verbatim>\<open>lib/workerLifecycleReducer.ts\<close>, \<^verbatim>\<open>progressValidation.ts\<close>, \<^verbatim>\<open>workerLifecycle.ts\<close> and the routing
    of events in \<^verbatim>\<open>coordinator.ts\<close>; redelivery changes nothing, nothing regresses, worker timestamps
    are clamped to the coordinator's clock, and the validator and the reducer agree.

  \<^item> \<open>Sessions\<close> and \<open>Session_Props\<close>: \<^verbatim>\<open>lib/sessionCredentials.ts\<close>, \<^verbatim>\<open>controlPrincipal.ts\<close>,
    \<^verbatim>\<open>processIdentity.ts\<close>, \<^verbatim>\<open>sessionSupervisor.ts\<close> and \<^verbatim>\<open>authorizeLifecycle\<close>. A session is running after
    a reconciliation only when its process was identified, and a request is authorized only in the
    name of the session that presents its credential.

  \<^item> \<open>Session_Files\<close> and \<open>Session_Files_Props\<close>: \<^verbatim>\<open>lib/sessionState.ts\<close>. The reset of an operator session ends
    all work, and its rollback brings back agents, claims and tasks; the locale \<open>state_invariant\<close> carries the
    invariants through. \<open>Task_Status\<close> has the lemmas on the status of tasks that this and the scheduler share.

  \<^item> \<open>Terminals\<close> and \<open>Terminals_Props\<close>: \<^verbatim>\<open>lib/terminalBroker.ts\<close>, and the messages of the coordinator to a tmux
    session (\<^verbatim>\<open>adapters/tmux.ts\<close>), which take the same writer lease. The driver is a parameter whose answers depend
    on the calls before in any way; the step relation \<open>others\<close> has what everybody else may do to a lease.

  \<^item> \<open>Scheduler\<close> and \<open>Scheduler_Props\<close>: \<^verbatim>\<open>lib/taskRouting.ts\<close>, \<^verbatim>\<open>taskScheduler.ts\<close>,
    \<^verbatim>\<open>dispatchPlanner.ts\<close>, \<^verbatim>\<open>workerCapacity.ts\<close>, \<^verbatim>\<open>claimDiagnostics.ts\<close> and the selection of tasks in
    \<^verbatim>\<open>executeDispatchPlan\<close>. The locale \<open>task_picker\<close> carries the conflict freedom of plans. What is
    dispatched is what the task store lets a worker claim.

  \<^item> \<open>Adapter_Gate\<close>: the coordinator's way to a session (\<^verbatim>\<open>getAdapter\<close> to \<^verbatim>\<open>assertSessionWritable\<close> of
    \<^verbatim>\<open>coordinator.ts\<close>): the check of the session's process, the terminal or a durable command, and the
    turn events that acknowledge it. \<open>Command_Frame\<close>: what one queue operation keeps every pass of the
    dispatcher keeps (locale \<open>command_invariant\<close>).

  \<^item> \<open>Run_Activity\<close>: \<^verbatim>\<open>lib/runActivity.ts\<close>, \<^verbatim>\<open>lib/remediationPolicies.ts\<close> and \<^verbatim>\<open>observeRunActivity\<close>.
    \<open>Supervision\<close> and \<open>Supervision_Props\<close>: the passes of a tick over dead agents, expired leases, dead
    sessions, runs that do not start and runs that stop making progress. The locales \<open>step_preorder\<close> and
    \<open>supervision\<close> carry a relation on states through the passes; lost runs are ended, nudges are bounded,
    and no message reaches a session under another process than the recorded one.

  \<^item> \<open>Event_Processing\<close> and \<open>Event_Processing_Props\<close>: \<^verbatim>\<open>processEventCheckpoint\<close> and
    \<^verbatim>\<open>processTerminalRunEvents\<close> of \<^verbatim>\<open>coordinator.ts\<close>. Events are consumed in order and once, and a failing
    event is not overtaken.

  \<^item> \<open>Agent_Names\<close>: \<^verbatim>\<open>lib/agentNames.ts\<close>. \<open>Worker_Launch\<close>: \<^verbatim>\<open>launchWorkerSession\<close> and \<^verbatim>\<open>spawnEphemeralWorker\<close> of
    \<^verbatim>\<open>lib/workerRuntime.ts\<close>, and of \<^verbatim>\<open>coordinator.ts\<close> the readiness of sessions, the task envelope, the
    retries of launches, \<^verbatim>\<open>executeDispatchPlan\<close> and \<^verbatim>\<open>tick\<close>. Dispatches and nudges, which the source runs
    in small concurrent batches, run one after the other. \<open>Worker_Launch_Props\<close> has the contract of a launch
    (\<open>launch_contract\<close>, \<open>dispatch_contract\<close>) and carries invariants through a whole tick
    (\<open>tick_invariant\<close>); \<open>Dispatch_Props\<close> shows that dispatch stays within the capacity and that launches
    are tried a bounded number of times.

  \<^item> \<open>Finalization\<close> and \<open>Finalization_Props\<close>: \<^verbatim>\<open>lib/taskCompletion.ts\<close>, \<^verbatim>\<open>lib/runWorktree.ts\<close> and
    \<^verbatim>\<open>finalizeRun\<close> of \<^verbatim>\<open>coordinator.ts\<close>. The host calls that succeeded are recorded in order; a task is
    completed only through a merge of the run's own work.

  \<^item> \<open>Reconcile\<close> and \<open>Reconcile_Props\<close>: \<^verbatim>\<open>lib/reconcile.ts\<close> and \<^verbatim>\<open>lib/lifecycleDiagnostics.ts\<close>. Repeated
    repairs converge, and what the diagnostics report the repairs remove.

  \<^item> \<open>Operator\<close>: \<^verbatim>\<open>lib/operatorMutations.ts\<close>. \<open>File_Lock\<close>: \<^verbatim>\<open>lib/lock.ts\<close> as interleaved system calls of
    any number of processes, with crashes; the lock excludes as long as no lock is broken while its
    holder works, acquiring it ends, and a run of system calls in which two processes break one stale
    lock shows that both can then hold it.

  \<^item> \<open>State_Invariant\<close>, \<open>Db_Integrity\<close> and \<open>System\<close>: the composition. The locale \<open>state_invariant\<close> carries
    what the transactions of the databases keep through every operation; it is interpreted for the
    integrity of the databases, with the ticks of the coordinator, and for the event cursor. Every transaction on \<^verbatim>\<open>events.db\<close> keeps its
    integrity, and the step relation \<open>orc_step\<close> has a rule for each operation of the components above, so that what
    each component promises holds of the state directory they share, in every order of operations.

  \<^bold>\<open>Not modelled.\<close> The provider adapters, PTYs, tmux, sockets and the MCP server, the command line and
  the views: input and output over the modelled operations. The start and the
  shutdown of the coordinator and its own lock file; the environment and the prompt of a worker; the messages and memory drawers of workers, and with them the requests
  \<^verbatim>\<open>review-submit\<close>, \<^verbatim>\<open>input-request\<close>, \<^verbatim>\<open>input-poll\<close> and \<^verbatim>\<open>memory-record\<close>; full-text search; the one-time
  import of projects. The rollback of a session reset is modelled but is no step of \<open>orc_step\<close>, since it writes back
  whatever snapshot it is given.
\<close>

end
